(* ===== verification/Prelude.thy ===== *)
theory Prelude
  imports Main "HOL-Library.Word" "HOL-Library.Monad_Syntax"
begin

text \<open>
  Shared vocabulary of the development: names for the machine integers of the camera's ARM
  (32-bit \<open>int\<close> and \<open>long\<close>), the reading of a 32-bit word as a signed C value, the
  fact collections the components extend, generic lemmas on words, options and lists, and the
  interface of a component that runs one step per timeslice and keeps an invariant.
\<close>

unbundle bit_operations_syntax

section \<open>Machine integers\<close>

type_synonym u8 = "8 word"
type_synonym u16 = "16 word"
type_synonym u32 = "32 word"

text \<open>
  \<open>elapsed now ts\<close> is the C expression \<open>now - ts\<close> on 32-bit \<open>int\<close>s, the way the ARM
  evaluates it: subtraction modulo \<open>2 ^ 32\<close>, read as two's complement.
\<close>

definition elapsed :: "u32 \<Rightarrow> u32 \<Rightarrow> int" where
  "elapsed now ts = sint (now - ts)"

section \<open>Fact collections\<close>

named_theorems step_defs \<open>definitions of the operations a component's step is made of\<close>
named_theorems inv_intros \<open>preservation lemmas of component invariants\<close>

section \<open>Words\<close>

lemma and_not_and_self [simp]: "(x AND NOT m) AND m = (0 :: 'a::len word)"
  by (rule bit_word_eqI) (simp add: bit_simps)

lemma or_and_self [simp]: "(x OR m) AND m = (m :: 'a::len word)"
  by (rule bit_word_eqI) (auto simp: bit_simps)

lemma and_not_and_other:
  "m AND n = 0 \<Longrightarrow> (x AND NOT m) AND n = (x AND n :: 'a::len word)"
  by (auto simp: bit_eq_iff bit_simps)

lemma or_and_other:
  "m AND n = 0 \<Longrightarrow> (x OR m) AND n = (x AND n :: 'a::len word)"
  by (auto simp: bit_eq_iff bit_simps)

lemma or_and_not_absorb:
  "(x AND NOT m) OR m = (x OR m :: 'a::len word)"
  by (rule bit_word_eqI) (auto simp: bit_simps)

lemma merge_and_mask [simp]:
  "((a AND NOT m) OR (b AND m)) AND m = (b AND m :: 'a::len word)"
  by (rule bit_word_eqI) (auto simp: bit_simps)

lemma merge_and_not_mask [simp]:
  "((a AND NOT m) OR (b AND m)) AND NOT m = (a AND NOT m :: 'a::len word)"
  by (rule bit_word_eqI) (auto simp: bit_simps)

text \<open>Addition of 32-bit words read as unsigned numbers, with and without the wrap.\<close>

lemma uint_add_exact:
  "uint a + uint b < 2 ^ 32 \<Longrightarrow> uint (a + b :: u32) = uint a + uint b"
  by (simp add: uint_word_ariths)

lemma uint_add_wrap:
  assumes "2 ^ 32 \<le> uint a + uint b"
  shows "uint (a + b :: u32) = uint a + uint b - 2 ^ 32"
proof -
  have "uint a < 2 ^ 32" "uint b < 2 ^ 32"
    using uint_bounded [of a] uint_bounded [of b] by simp_all
  then have "(uint a + uint b - 2 ^ 32) mod 2 ^ 32 = uint a + uint b - 2 ^ 32"
    using assms by (intro mod_pos_pos_trivial) auto
  then show ?thesis by (simp add: uint_word_ariths)
qed

section \<open>Folds\<close>

text \<open>A property that the first step establishes and the later ones keep.\<close>

lemma fold_enter:
  assumes "P (f i s)" and "\<And>j s. j \<in> set js \<Longrightarrow> P s \<Longrightarrow> P (f j s)"
  shows "P (fold f (i # js) s)"
proof -
  have "P u \<Longrightarrow> P (fold f js u)" for u
    using assms(2) by (induction js arbitrary: u) auto
  with assms(1) show ?thesis by simp
qed

section \<open>Machines that run in timeslices\<close>

text \<open>
  The keyboard task calls each state machine of the core once per timeslice. A machine is a
  step function of an input and a state; what it promises is that a step keeps its
  invariant. Whole runs keep it then.
\<close>

locale timeslice_machine =
  fixes step :: "'i \<Rightarrow> 's \<Rightarrow> 's"
    and inv :: "'s \<Rightarrow> bool"
  assumes step_inv: "inv s \<Longrightarrow> inv (step i s)"
begin

lemma run_inv: "inv s \<Longrightarrow> inv (fold step is s)"
  by (induction "is" arbitrary: s) (auto intro: step_inv)

lemma run_prefix_inv: "inv s \<Longrightarrow> inv (fold step (take n is) s)"
  by (rule run_inv)

end

text \<open>
  A machine whose steps may fail: a sequence of steps has a result when each has one. What such a
  machine promises is that no step fails in a state of its invariant.
\<close>

fun run_steps :: "('i \<Rightarrow> 's \<Rightarrow> 's option) \<Rightarrow> 'i list \<Rightarrow> 's \<Rightarrow> 's option" where
  "run_steps f [] s = Some s"
| "run_steps f (i # is) s = do { t \<leftarrow> f i s; run_steps f is t }"

locale safe_machine =
  fixes step :: "'i \<Rightarrow> 's \<Rightarrow> 's option"
    and inv :: "'s \<Rightarrow> bool"
  assumes step_safe: "inv s \<Longrightarrow> \<exists>t. step i s = Some t \<and> inv t"
begin

lemma run_safe: "inv s \<Longrightarrow> \<exists>t. run_steps step is s = Some t \<and> inv t"
proof (induction "is" arbitrary: s)
  case (Cons i "is")
  obtain t where t: "step i s = Some t" "inv t" using step_safe [OF Cons.prems] by blast
  then show ?case using Cons.IH [OF t(2)] by simp
qed simp

end

end
