(* ===== verification/Camera.thy ===== *)
theory Camera
  imports Prelude
begin

text \<open>
  The state the core's components share, and the constants a camera port fixes.

  \<^item> \<open>platform\<close>: what a port's \<open>platform_camera.h\<close>, \<open>platform_kbd.h\<close> and
    \<open>kbd.c\<close> define: compile-time switches (a \<open>#ifdef\<close> of the core is a \<open>bool\<close>
    or an \<open>option\<close> here), masks, tables and delays.
  \<^item> \<open>camera\<close>: the members of \<open>camera_info.state\<close> and \<open>conf\<close> the modelled code
    reads or writes, the values the firmware returns in the current timeslice
    (\<open>get_tick_count()\<close> and the like; a call of the firmware reads the field), and the log of
    the calls the core makes into code that is not modelled, in the order it makes them.

  Every component's record extends the record of the components it builds on, as all of them
  share the one global state of the program.
\<close>

section \<open>Key codes\<close>

text \<open>\<open>include/keyboard.h\<close>.\<close>

definition KEY_UP :: int where "KEY_UP = 1"
definition KEY_DOWN :: int where "KEY_DOWN = 2"
definition KEY_LEFT :: int where "KEY_LEFT = 3"
definition KEY_RIGHT :: int where "KEY_RIGHT = 4"
definition KEY_SET :: int where "KEY_SET = 5"
definition KEY_SHOOT_HALF :: int where "KEY_SHOOT_HALF = 6"
definition KEY_SHOOT_FULL :: int where "KEY_SHOOT_FULL = 7"
definition KEY_ZOOM_IN :: int where "KEY_ZOOM_IN = 8"
definition KEY_ZOOM_OUT :: int where "KEY_ZOOM_OUT = 9"
definition KEY_PRINT :: int where "KEY_PRINT = 12"
definition KEY_MF :: int where "KEY_MF = 16"
definition KEY_VIDEO :: int where "KEY_VIDEO = 18"
definition KEY_SHOOT_FULL_ONLY :: int where "KEY_SHOOT_FULL_ONLY = 38"

lemmas key_defs = KEY_UP_def KEY_DOWN_def KEY_LEFT_def KEY_RIGHT_def KEY_SET_def
  KEY_SHOOT_HALF_def KEY_SHOOT_FULL_def KEY_ZOOM_IN_def KEY_ZOOM_OUT_def KEY_PRINT_def
  KEY_MF_def KEY_VIDEO_def KEY_SHOOT_FULL_ONLY_def

section \<open>The platform\<close>

text \<open>\<open>KeyMap\<close> of \<open>include/kbd_common.h\<close>: which bit of which key word a key is.\<close>

record keymap_entry =
  grp :: nat
  hackkey :: int
  canonkey :: u32

record platform =
  keymap :: "keymap_entry list"
  keys_mask0 :: u32
  keys_mask1 :: u32
  keys_mask2 :: u32
  usb_idx :: nat
  usb_mask :: u32
  sd_readonly_idx :: nat
  sd_readonly_flag :: u32
  kbd_skip_readonly_bit :: bool
  sd_door_override :: "(nat \<times> u32) option"
  batt_cover_open :: "(nat \<times> u32) option"
  hotshoe_override_bit :: "(nat \<times> u32) option"
  kbd_simulate_video_key :: bool
  cam_has_jogdial :: bool
  cam_touchscreen_ui :: bool
  cam_has_gps :: bool
  cam_key_press_delay :: u32
  cam_key_release_delay :: u32
  cam_has_video_button :: bool
  zoom_points :: int

section \<open>Calls out of the modelled code\<close>

datatype ext_call =
    PostLogicalEventToUI string
  | JogdialControl nat
  | GetJogdialDirection
  | Msleep nat
  | ScriptSetAsRet u32
  | ConsoleAddError
  | ShootingSetZoom int
  | BracketingStepLater
  | BracketingReset
  | StartUsbHPtimer int
  | Started
  | Finished
  | FreeDngHeader
  | SendPtpData u32 u32
  | PlaySound int
  | InitSplash
  | DrawInit
  | ProcessFile string
  | SetUsermenuState
  | GuiResetAltHelper
  | EnableShutdown
  | DisableShutdown
  | VidTurnOffUpdates
  | VidTurnOnUpdates
  | GuiMenuInit string
  | ConfSave
  | ConfSetAutosave int
  | ModuleExitAlt
  | RbfSetCodepage
  | DrawString int int string int
  | DrawRectangle int int int int
  | OpenFile string bool
  | CloseFile int
  | LseekEnd int
  | WriteFile int string
  | ShotHistogramSet int
  | StopUsbHPtimer
  | SaveParamsValues
  | ModuleSetScriptLang
  | ScriptSetVariable string int bool bool int
  | CameraSetLed int int int
  | GuiKbdShortcuts
  | StartPtpScript

section \<open>Shared state\<close>

record camera =
  tick_count :: u32
  remote_state_in :: int
  shooting_busy :: bool
  flash_ready :: bool
  zoom_pos :: int
  focus_mode :: int
  mode_rec :: bool
  mode_play :: bool
  mode_video :: bool
  state_shooting_progress :: int
  state_kbd_script_run :: int
  kbd_last_clicked :: int
  kbd_last_clicked_time :: u32
  conf_remote_enable :: int
  conf_remote_switch_type :: int
  conf_remote_control_mode :: int
  conf_synch_enable :: int
  conf_script_shoot_delay :: u32
  conf_hotshoe_override :: int
  ext_calls :: "ext_call list"

definition ext_call :: "ext_call \<Rightarrow> 'a camera_scheme \<Rightarrow> 'a camera_scheme" where
  "ext_call c s = s\<lparr>ext_calls := ext_calls s @ [c]\<rparr>"

lemma ext_call_simps [simp]:
  "ext_calls (ext_call c s) = ext_calls s @ [c]"
  "tick_count (ext_call c s) = tick_count s"
  "shooting_busy (ext_call c s) = shooting_busy s"
  "mode_rec (ext_call c s) = mode_rec s"
  "mode_video (ext_call c s) = mode_video s"
  "mode_play (ext_call c s) = mode_play s"
  "state_shooting_progress (ext_call c s) = state_shooting_progress s"
  "state_kbd_script_run (ext_call c s) = state_kbd_script_run s"
  "conf_script_shoot_delay (ext_call c s) = conf_script_shoot_delay s"
  "conf_remote_enable (ext_call c s) = conf_remote_enable s"
  "camera.more (ext_call c s) = camera.more s"
  by (simp_all add: ext_call_def)

end
