(* ===== verification/Keyboard.thy ===== *)
theory Keyboard
  imports Camera
begin

text \<open>
  \<open>core/kbd_common.c\<close>: the key words read from the hardware, the key words the core presents
  to the Canon firmware instead, and the operations by which scripts and the USB remote press and
  release keys. Keys are active low: a pressed key has its bits clear. The keyboard words are
  arrays of \<open>long\<close>, here functions from the index; the port's key map is a parameter.
\<close>

record keyboard = camera +
  kbd_new_state :: "nat \<Rightarrow> u32"
  kbd_prev_state :: "nat \<Rightarrow> u32"
  kbd_mod_state :: "nat \<Rightarrow> u32"
  physw_status :: "nat \<Rightarrow> u32"
  forced_usb_port :: bool
  gps_key_trap :: int
  jogdial_stopped :: nat
  is_video_key_pressed :: bool
  zoom_key_pressed :: int

section \<open>The key map\<close>

text \<open>
  The loop \<open>for (i=0; keymap[i].hackkey; i++)\<close> of every function of the file: the entries
  before the terminator, an entry with \<open>hackkey\<close> 0.
\<close>

fun find_key :: "keymap_entry list \<Rightarrow> int \<Rightarrow> keymap_entry option" where
  "find_key [] key = None"
| "find_key (e # es) key =
     (if hackkey e = 0 then None
      else if hackkey e = key then Some e
      else find_key es key)"

fun first_key :: "keymap_entry list \<Rightarrow> (keymap_entry \<Rightarrow> bool) \<Rightarrow> int" where
  "first_key [] p = 0"
| "first_key (e # es) p =
     (if hackkey e = 0 then 0
      else if p e then hackkey e
      else first_key es p)"

section \<open>Simulated key presses\<close>

definition kbd_key_press :: "platform \<Rightarrow> int \<Rightarrow> 'a keyboard_scheme \<Rightarrow> 'a keyboard_scheme" where
  "kbd_key_press P key s =
     (if kbd_simulate_video_key P \<and> key = KEY_VIDEO \<and> \<not> is_video_key_pressed s
      then (ext_call (PostLogicalEventToUI ''PressMovieButton'') s)\<lparr>is_video_key_pressed := True\<rparr>
      else (case find_key (keymap P) key of
          None \<Rightarrow> s
        | Some e \<Rightarrow> s\<lparr>kbd_mod_state := (kbd_mod_state s)
            (grp e := kbd_mod_state s (grp e) AND NOT (canonkey e))\<rparr>))"

definition kbd_key_release :: "platform \<Rightarrow> int \<Rightarrow> 'a keyboard_scheme \<Rightarrow> 'a keyboard_scheme" where
  "kbd_key_release P key s =
     (if kbd_simulate_video_key P \<and> key = KEY_VIDEO \<and> is_video_key_pressed s
      then (ext_call (PostLogicalEventToUI ''UnpressMovieButton'') s)\<lparr>is_video_key_pressed := False\<rparr>
      else (case find_key (keymap P) key of
          None \<Rightarrow> s
        | Some e \<Rightarrow> s\<lparr>kbd_mod_state := (kbd_mod_state s)
            (grp e := kbd_mod_state s (grp e) OR canonkey e)\<rparr>))"

definition kbd_key_release_all :: "platform \<Rightarrow> 'a keyboard_scheme \<Rightarrow> 'a keyboard_scheme" where
  "kbd_key_release_all P s =
     (let m = kbd_mod_state s;
          m1 = m(0 := m 0 OR keys_mask0 P, 1 := m 1 OR keys_mask1 P, 2 := m 2 OR keys_mask2 P);
          m2 = (if cam_touchscreen_ui P then m1(3 := m1 3 OR 0xFFFFFFFF) else m1)
      in s\<lparr>kbd_mod_state := m2\<rparr>)"

section \<open>Queries\<close>

definition kbd_is_key_pressed :: "platform \<Rightarrow> int \<Rightarrow> 'a keyboard_scheme \<Rightarrow> bool" where
  "kbd_is_key_pressed P key s =
     (case find_key (keymap P) key of
        None \<Rightarrow> False
      | Some e \<Rightarrow> kbd_new_state s (grp e) AND canonkey e = 0)"

definition kbd_is_key_clicked :: "platform \<Rightarrow> int \<Rightarrow> 'a keyboard_scheme \<Rightarrow> bool" where
  "kbd_is_key_clicked P key s =
     (case find_key (keymap P) key of
        None \<Rightarrow> False
      | Some e \<Rightarrow> kbd_prev_state s (grp e) AND canonkey e \<noteq> 0 \<and>
                  kbd_new_state s (grp e) AND canonkey e = 0)"

definition kbd_get_pressed_key :: "platform \<Rightarrow> 'a keyboard_scheme \<Rightarrow> int" where
  "kbd_get_pressed_key P s =
     first_key (keymap P) (\<lambda>e. kbd_new_state s (grp e) AND canonkey e = 0)"

definition kbd_get_clicked_key :: "platform \<Rightarrow> 'a keyboard_scheme \<Rightarrow> int" where
  "kbd_get_clicked_key P s =
     first_key (keymap P) (\<lambda>e. kbd_prev_state s (grp e) AND canonkey e \<noteq> 0 \<and>
                               kbd_new_state s (grp e) AND canonkey e = 0)"

section \<open>One keyboard timeslice\<close>

definition jogdial_control :: "nat \<Rightarrow> 'a keyboard_scheme \<Rightarrow> 'a keyboard_scheme" where
  "jogdial_control n s = (ext_call (JogdialControl n) s)\<lparr>jogdial_stopped := n\<rparr>"

text \<open>
  \<open>kbd_update_key_state\<close>. The words \<open>kbd_fetch_data\<close> reads from the port's hardware are the
  argument \<open>hw\<close>; \<open>kbd_process\<close> is the argument \<open>process\<close>, which returns its status and the
  state it leaves. The touch screen's fourth word exists on ports that have one.
\<close>

definition gps_trap_step :: "platform \<Rightarrow> 'a keyboard_scheme \<Rightarrow> 'a keyboard_scheme" where
  "gps_trap_step P s =
     (if cam_has_gps P \<and> gps_key_trap s > 0 \<and> kbd_get_pressed_key P s = gps_key_trap s
      then ext_call (Msleep 1000)
             ((kbd_key_press P 0 (kbd_key_release P (gps_key_trap s) s))\<lparr>gps_key_trap := -1\<rparr>)
      else s)"

definition fetch_step ::
  "platform \<Rightarrow> (nat \<Rightarrow> u32) \<Rightarrow> 'a keyboard_scheme \<Rightarrow> 'a keyboard_scheme" where
  "fetch_step P hw s =
     (let prev = (kbd_prev_state s)(0 := kbd_new_state s 0, 1 := kbd_new_state s 1,
                                    2 := kbd_new_state s 2);
          prev' = (if cam_touchscreen_ui P then prev(3 := kbd_new_state s 3) else prev)
      in s\<lparr>kbd_prev_state := prev', kbd_new_state := hw\<rparr>)"

definition kbd_update_key_state ::
  "platform \<Rightarrow> (nat \<Rightarrow> u32) \<Rightarrow> ('a keyboard_scheme \<Rightarrow> int \<times> 'a keyboard_scheme) \<Rightarrow>
   'a keyboard_scheme \<Rightarrow> int \<times> 'a keyboard_scheme" where
  "kbd_update_key_state P hw process s =
     (let (status, s1) = process (gps_trap_step P (fetch_step P hw s));
          new = kbd_new_state s1; md = kbd_mod_state s1
      in if status = 0
         then let s2 = s1\<lparr>physw_status := (physw_status s1)(0 := new 0, 1 := new 1, 2 := new 2)\<rparr>
              in (status, if cam_has_jogdial P then jogdial_control 0 s2 else s2)
         else let s2 = s1\<lparr>physw_status := (physw_status s1)
                     (0 := (new 0 AND NOT (keys_mask0 P)) OR (md 0 AND keys_mask0 P),
                      1 := (new 1 AND NOT (keys_mask1 P)) OR (md 1 AND keys_mask1 P),
                      2 := (new 2 AND NOT (keys_mask2 P)) OR (md 2 AND keys_mask2 P))\<rparr>
              in (status,
                  if \<not> cam_has_jogdial P then s2
                  else if jogdial_stopped s2 = 0 \<and> state_kbd_script_run s2 = 0
                    then ext_call GetJogdialDirection (jogdial_control 1 s2)
                  else if jogdial_stopped s2 \<noteq> 0 \<and> state_kbd_script_run s2 \<noteq> 0
                    then jogdial_control 0 s2
                  else s2))"

definition set_word :: "nat \<Rightarrow> u32 \<Rightarrow> (nat \<Rightarrow> u32) \<Rightarrow> (nat \<Rightarrow> u32)" where
  "set_word i m w = w(i := w i OR m)"

definition clear_word :: "nat \<Rightarrow> u32 \<Rightarrow> (nat \<Rightarrow> u32) \<Rightarrow> (nat \<Rightarrow> u32)" where
  "clear_word i m w = w(i := w i AND NOT m)"

definition kbd_update_physw_bits :: "platform \<Rightarrow> 'a keyboard_scheme \<Rightarrow> 'a keyboard_scheme" where
  "kbd_update_physw_bits P s =
     (let w = physw_status s;
          w1 = (if forced_usb_port s then set_word (usb_idx P) (usb_mask P) w
                else if conf_remote_enable s \<noteq> 0 then clear_word (usb_idx P) (usb_mask P) w
                else w);
          w2 = (if kbd_skip_readonly_bit P then w1
                else clear_word (sd_readonly_idx P) (sd_readonly_flag P) w1);
          w3 = (case sd_door_override P of None \<Rightarrow> w2 | Some (i, m) \<Rightarrow> set_word i m w2);
          w4 = (case batt_cover_open P of None \<Rightarrow> w3 | Some (i, m) \<Rightarrow> set_word i m w3);
          w5 = (case hotshoe_override_bit P of None \<Rightarrow> w4
                | Some (i, m) \<Rightarrow>
                    (if conf_hotshoe_override s = 1 then clear_word i m w4
                     else if conf_hotshoe_override s = 2 then set_word i m w4
                     else w4))
      in s\<lparr>physw_status := w5\<rparr>)"

text \<open>\<open>kbd_use_zoom_as_mf\<close>, the variant of ports without an MF key.\<close>

definition zoom_mf_half ::
  "platform \<Rightarrow> int \<Rightarrow> int \<Rightarrow> 'a keyboard_scheme \<Rightarrow> bool \<times> 'a keyboard_scheme" where
  "zoom_mf_half P zoom_key dir_key s =
     (if kbd_is_key_pressed P zoom_key s \<and> mode_rec s
      then (if focus_mode s \<noteq> 0
            then (True, (kbd_key_press P dir_key (kbd_key_release_all P s))
                          \<lparr>zoom_key_pressed := zoom_key\<rparr>)
            else (False, s))
      else if zoom_key_pressed s = zoom_key
        then (True, (kbd_key_release P dir_key s)\<lparr>zoom_key_pressed := 0\<rparr>)
        else (False, s))"

definition kbd_use_zoom_as_mf :: "platform \<Rightarrow> 'a keyboard_scheme \<Rightarrow> int \<times> 'a keyboard_scheme" where
  "kbd_use_zoom_as_mf P s =
     (let (done1, s1) = zoom_mf_half P KEY_ZOOM_IN KEY_RIGHT s
      in if done1 then (1, s1)
         else let (done2, s2) = zoom_mf_half P KEY_ZOOM_OUT KEY_LEFT s1
              in (if done2 then 1 else 0, s2))"

text \<open>The variant of ports that define \<open>KBD_ZOOM_FOR_MF_USE_MF_KEY\<close>.\<close>

definition zoom_mf_key_half ::
  "platform \<Rightarrow> int \<Rightarrow> int \<Rightarrow> 'a keyboard_scheme \<Rightarrow> bool \<times> 'a keyboard_scheme" where
  "zoom_mf_key_half P zoom_key dir_key s =
     (if kbd_is_key_pressed P zoom_key s \<and> kbd_is_key_pressed P KEY_MF s \<and> mode_rec s
      then (if focus_mode s \<noteq> 0
            then (True, (kbd_key_press P dir_key (kbd_key_press P KEY_MF (kbd_key_release_all P s)))
                          \<lparr>zoom_key_pressed := zoom_key\<rparr>)
            else (False, s))
      else if zoom_key_pressed s = zoom_key
        then (True, (kbd_key_release P dir_key s)\<lparr>zoom_key_pressed := 0\<rparr>)
        else (False, s))"

definition kbd_use_zoom_as_mf_key :: "platform \<Rightarrow> 'a keyboard_scheme \<Rightarrow> int \<times> 'a keyboard_scheme" where
  "kbd_use_zoom_as_mf_key P s =
     (let (done1, s1) = zoom_mf_key_half P KEY_ZOOM_IN KEY_UP s
      in if done1 then (1, s1)
         else let (done2, s2) = zoom_mf_key_half P KEY_ZOOM_OUT KEY_DOWN s1
              in (if done2 then 1 else 0, s2))"

section \<open>Facts about the key map\<close>

definition keymap_keys :: "keymap_entry list \<Rightarrow> keymap_entry list" where
  "keymap_keys es = takeWhile (\<lambda>e. hackkey e \<noteq> 0) es"

definition keymap_ok :: "platform \<Rightarrow> bool" where
  "keymap_ok P \<longleftrightarrow> distinct (map hackkey (keymap_keys (keymap P))) \<and>
     (\<forall>e \<in> set (keymap_keys (keymap P)). grp e < 3)"

lemma find_key_Some: "find_key es k = Some e \<Longrightarrow> e \<in> set (keymap_keys es) \<and> hackkey e = k"
  by (induction es) (auto simp: keymap_keys_def split: if_splits)

lemma find_key_zero [simp]: "find_key es 0 = None"
  by (induction es) auto

lemma find_key_member:
  "e \<in> set (keymap_keys es) \<Longrightarrow> distinct (map hackkey (keymap_keys es)) \<Longrightarrow>
   find_key es (hackkey e) = Some e"
  by (induction es) (auto simp: keymap_keys_def split: if_splits)

lemma first_key_found:
  "first_key es p \<noteq> 0 \<Longrightarrow> \<exists>e \<in> set (keymap_keys es). p e \<and> hackkey e = first_key es p"
  by (induction es) (auto simp: keymap_keys_def split: if_splits)

lemma first_key_zero:
  "first_key es p = 0 \<longleftrightarrow> (\<forall>e \<in> set (keymap_keys es). \<not> p e)"
  by (induction es) (auto simp: keymap_keys_def)

lemma kbd_process_frame [simp]:
  "kbd_new_state (kbd_key_press P k s) = kbd_new_state s"
  "kbd_prev_state (kbd_key_press P k s) = kbd_prev_state s"
  "kbd_new_state (kbd_key_release P k s) = kbd_new_state s"
  "kbd_prev_state (kbd_key_release P k s) = kbd_prev_state s"
  by (auto simp: kbd_key_press_def kbd_key_release_def ext_call_def split: option.splits)

lemma kbd_press_zero [simp]: "kbd_key_press P 0 s = s"
  by (simp add: kbd_key_press_def KEY_VIDEO_def)

lemma gps_trap_frame [simp]:
  "kbd_new_state (gps_trap_step P s) = kbd_new_state s"
  "kbd_prev_state (gps_trap_step P s) = kbd_prev_state s"
  by (auto simp: gps_trap_step_def ext_call_def)

text \<open>The word index and bits of a key are simulated by \<open>kbd_mod_state\<close> alone.\<close>

definition key_bits :: "keymap_entry \<Rightarrow> (nat \<Rightarrow> u32) \<Rightarrow> u32" where
  "key_bits e w = w (grp e) AND canonkey e"

definition keys_disjoint :: "keymap_entry \<Rightarrow> keymap_entry \<Rightarrow> bool" where
  "keys_disjoint e f \<longleftrightarrow> grp e \<noteq> grp f \<or> canonkey e AND canonkey f = 0"

definition simulated_video :: "platform \<Rightarrow> int \<Rightarrow> bool" where
  "simulated_video P k \<longleftrightarrow> kbd_simulate_video_key P \<and> k = KEY_VIDEO"

lemma press_mod:
  "find_key (keymap P) k = Some e \<Longrightarrow> \<not> simulated_video P k \<Longrightarrow>
   kbd_key_press P k s = s\<lparr>kbd_mod_state := clear_word (grp e) (canonkey e) (kbd_mod_state s)\<rparr>"
  by (auto simp: kbd_key_press_def clear_word_def simulated_video_def)

lemma release_mod:
  "find_key (keymap P) k = Some e \<Longrightarrow> \<not> simulated_video P k \<Longrightarrow>
   kbd_key_release P k s = s\<lparr>kbd_mod_state := set_word (grp e) (canonkey e) (kbd_mod_state s)\<rparr>"
  by (auto simp: kbd_key_release_def set_word_def simulated_video_def)

lemma key_bits_clear_word [simp]:
  "key_bits e (clear_word (grp e) (canonkey e) w) = 0"
  by (simp add: key_bits_def clear_word_def)

lemma key_bits_set_word [simp]:
  "key_bits e (set_word (grp e) (canonkey e) w) = canonkey e"
  by (simp add: key_bits_def set_word_def)

lemma key_bits_disjoint:
  "keys_disjoint e f \<Longrightarrow> key_bits f (clear_word (grp e) (canonkey e) w) = key_bits f w"
  "keys_disjoint e f \<Longrightarrow> key_bits f (set_word (grp e) (canonkey e) w) = key_bits f w"
  by (auto simp: keys_disjoint_def key_bits_def clear_word_def set_word_def
      and_not_and_other or_and_other)

lemma set_after_clear_word: "set_word i m (clear_word i m w) = set_word i m w"
  by (auto simp: set_word_def clear_word_def fun_eq_iff or_and_not_absorb)

section \<open>Properties\<close>

text \<open>C39: pressing and then releasing a key. A press makes every bit of the key low and a
  release makes every bit high, whatever they were; the release undoes the press, in the sense
  that the whole state is the one a release alone gives; and keys that share no bit with it are
  not affected.\<close>

theorem kbd_press_release:
  assumes "find_key (keymap P) k = Some e" and "\<not> simulated_video P k"
  shows "key_bits e (kbd_mod_state (kbd_key_press P k s)) = 0 \<and>
    key_bits e (kbd_mod_state (kbd_key_release P k s)) = canonkey e \<and>
    kbd_key_release P k (kbd_key_press P k s) = kbd_key_release P k s \<and>
    (\<forall>f. keys_disjoint e f \<longrightarrow>
       key_bits f (kbd_mod_state (kbd_key_press P k s)) = key_bits f (kbd_mod_state s) \<and>
       key_bits f (kbd_mod_state (kbd_key_release P k s)) = key_bits f (kbd_mod_state s))"
  using assms by (simp add: press_mod release_mod key_bits_disjoint set_after_clear_word)

text \<open>The key map of the PowerShot A570, \<open>platform/a570/kbd.c\<close>, for the closed instances.\<close>

definition a570_keymap :: "keymap_entry list" where
  "a570_keymap = map (\<lambda>(g, h, c). \<lparr>grp = g, hackkey = h, canonkey = c\<rparr>)
     [(2, KEY_UP, 0x10), (2, KEY_DOWN, 0x20), (2, KEY_LEFT, 0x80), (2, KEY_RIGHT, 0x40),
      (2, KEY_SET, 0x100), (1, KEY_SHOOT_FULL, 0xC0000000), (1, KEY_SHOOT_FULL_ONLY, 0x80000000),
      (1, KEY_SHOOT_HALF, 0x40000000), (2, KEY_ZOOM_IN, 4), (2, KEY_ZOOM_OUT, 8),
      (2, 10, 0x200), (2, 11, 0x400), (2, KEY_PRINT, 0x800), (1, 13, 0x00800000), (0, 0, 0)]"

definition a570_platform :: platform where
  "a570_platform = \<lparr>keymap = a570_keymap, keys_mask0 = 0, keys_mask1 = 0xc0800000,
     keys_mask2 = 0x0ffc, usb_idx = 2, usb_mask = 0x40000, sd_readonly_idx = 2,
     sd_readonly_flag = 0x20000, kbd_skip_readonly_bit = False, sd_door_override = None,
     batt_cover_open = None, hotshoe_override_bit = None, kbd_simulate_video_key = False,
     cam_has_jogdial = False, cam_touchscreen_ui = False, cam_has_gps = False,
     cam_key_press_delay = 20, cam_key_release_delay = 20, cam_has_video_button = False,
     zoom_points = 15\<rparr>"

lemma a570_sel [simp]:
  "keymap a570_platform = a570_keymap" "kbd_simulate_video_key a570_platform = False"
  "keys_mask0 a570_platform = 0" "keys_mask1 a570_platform = 0xc0800000"
  "keys_mask2 a570_platform = 0x0ffc" "cam_touchscreen_ui a570_platform = False"
  "cam_has_gps a570_platform = False" "cam_has_jogdial a570_platform = False"
  "cam_key_press_delay a570_platform = 20" "cam_key_release_delay a570_platform = 20"
  "cam_has_video_button a570_platform = False" "zoom_points a570_platform = 15"
  "usb_idx a570_platform = 2" "usb_mask a570_platform = 0x40000"
  "sd_readonly_idx a570_platform = 2" "sd_readonly_flag a570_platform = 0x20000"
  "kbd_skip_readonly_bit a570_platform = False" "sd_door_override a570_platform = None"
  "batt_cover_open a570_platform = None" "hotshoe_override_bit a570_platform = None"
  by (simp_all add: a570_platform_def)

text \<open>The initial values of the globals: every key word reads all ones.\<close>

definition kbd_init :: keyboard where
  "kbd_init = \<lparr>tick_count = 0, remote_state_in = 0, shooting_busy = False, flash_ready = True,
     zoom_pos = 0, focus_mode = 0, mode_rec = True, mode_play = False, mode_video = False,
     state_shooting_progress = 0, state_kbd_script_run = 0, kbd_last_clicked = 0,
     kbd_last_clicked_time = 0, conf_remote_enable = 0, conf_remote_switch_type = 0,
     conf_remote_control_mode = 0, conf_synch_enable = 0, conf_script_shoot_delay = 0,
     conf_hotshoe_override = 0, ext_calls = [],
     kbd_new_state = (\<lambda>_. 0xFFFFFFFF), kbd_prev_state = (\<lambda>_. 0xFFFFFFFF),
     kbd_mod_state = (\<lambda>_. 0xFFFFFFFF), physw_status = (\<lambda>_. 0xFFFFFFFF),
     forced_usb_port = False, gps_key_trap = 0, jogdial_stopped = 0,
     is_video_key_pressed = False, zoom_key_pressed = 0\<rparr>"

lemma a570_find_key:
  "find_key a570_keymap KEY_SHOOT_FULL = Some \<lparr>grp = 1, hackkey = 7, canonkey = 0xC0000000\<rparr>"
  "find_key a570_keymap KEY_SHOOT_HALF = Some \<lparr>grp = 1, hackkey = 6, canonkey = 0x40000000\<rparr>"
  "find_key a570_keymap KEY_SHOOT_FULL_ONLY = Some \<lparr>grp = 1, hackkey = 38, canonkey = 0x80000000\<rparr>"
  "find_key a570_keymap KEY_LEFT = Some \<lparr>grp = 2, hackkey = 3, canonkey = 0x80\<rparr>"
  "find_key a570_keymap KEY_RIGHT = Some \<lparr>grp = 2, hackkey = 4, canonkey = 0x40\<rparr>"
  "find_key a570_keymap KEY_VIDEO = None"
  by (simp_all add: a570_keymap_def key_defs)

lemma a570_keymap_ok: "keymap_ok a570_platform"
  by (simp add: keymap_ok_def keymap_keys_def a570_keymap_def key_defs)

theorem kbd_press_release_witness:
  "key_bits \<lparr>grp = 1, hackkey = 6, canonkey = 0x40000000\<rparr>
     (kbd_mod_state (kbd_key_press a570_platform KEY_SHOOT_HALF kbd_init)) = 0"
  using kbd_press_release [of a570_platform KEY_SHOOT_HALF
      "\<lparr>grp = 1, hackkey = 6, canonkey = 0x40000000\<rparr>" kbd_init]
  by (simp add: a570_find_key simulated_video_def)

definition key_mask :: "platform \<Rightarrow> nat \<Rightarrow> u32" where
  "key_mask P i = (if i = 0 then keys_mask0 P else if i = 1 then keys_mask1 P else keys_mask2 P)"

lemma jogdial_physw [simp]: "physw_status (jogdial_control n s) = physw_status s"
  by (simp add: jogdial_control_def ext_call_def)

text \<open>What the Canon firmware sees after a timeslice. When \<open>kbd_process\<close> returns 0, the
  three key words are exactly the hardware's. Otherwise the bits of CHDK's own keys (the
  \<open>KEYS_MASK\<close> bits) are the simulated ones and all other bits are still the hardware's, provided
  \<open>kbd_process\<close> does not write the hardware words.\<close>

theorem kbd_update_passthrough:
  assumes run: "process (gps_trap_step P (fetch_step P hw s)) = (status, s1)"
    and hw: "kbd_new_state s1 = hw"
    and i: "i < 3"
  shows "fst (kbd_update_key_state P hw process s) = status \<and>
    (let w = physw_status (snd (kbd_update_key_state P hw process s))
     in (status = 0 \<longrightarrow> w i = hw i) \<and>
        (status \<noteq> 0 \<longrightarrow> w i AND NOT (key_mask P i) = hw i AND NOT (key_mask P i) \<and>
                          w i AND key_mask P i = kbd_mod_state s1 i AND key_mask P i))"
proof -
  from i consider "i = 0" | "i = 1" | "i = 2" by linarith
  then show ?thesis
    by cases (simp_all add: kbd_update_key_state_def run hw key_mask_def Let_def ext_call_def)
qed

theorem kbd_update_passthrough_witness:
  "fst (kbd_update_key_state a570_platform (\<lambda>_. 0xFFFFFFFF) (\<lambda>s. (1, s)) kbd_init) = 1"
  using kbd_update_passthrough [of "\<lambda>s. (1, s)" a570_platform "\<lambda>_. 0xFFFFFFFF" kbd_init
      1 "fetch_step a570_platform (\<lambda>_. 0xFFFFFFFF) kbd_init" 0]
  by (simp add: gps_trap_step_def fetch_step_def)

lemma is_clicked_entry:
  assumes "keymap_ok P" and "f \<in> set (keymap_keys (keymap P))"
  shows "kbd_is_key_clicked P (hackkey f) t \<longleftrightarrow>
    kbd_prev_state t (grp f) AND canonkey f \<noteq> 0 \<and> kbd_new_state t (grp f) AND canonkey f = 0"
  using assms by (simp add: keymap_ok_def kbd_is_key_clicked_def find_key_member)

lemma get_clicked_is_clicked:
  assumes "keymap_ok P" and "kbd_get_clicked_key P t \<noteq> 0"
  shows "kbd_is_key_clicked P (kbd_get_clicked_key P t) t"
proof -
  from assms(2) obtain f where f: "f \<in> set (keymap_keys (keymap P))"
    and "kbd_prev_state t (grp f) AND canonkey f \<noteq> 0 \<and> kbd_new_state t (grp f) AND canonkey f = 0"
    and "hackkey f = kbd_get_clicked_key P t"
    unfolding kbd_get_clicked_key_def by (blast dest: first_key_found)
  with is_clicked_entry [OF assms(1) f, of t] show ?thesis by simp
qed

lemma get_clicked_none:
  assumes "keymap_ok P"
  shows "kbd_get_clicked_key P t = 0 \<longleftrightarrow>
    (\<forall>f \<in> set (keymap_keys (keymap P)). \<not> kbd_is_key_clicked P (hackkey f) t)"
  by (simp add: kbd_get_clicked_key_def first_key_zero is_clicked_entry [OF assms])

text \<open>A click is an edge. Over two consecutive timeslices that read the words \<open>hw1\<close> and
  \<open>hw2\<close>, a key counts as clicked in the second exactly when some of its bits were high (not
  pressed) in the first and all are low (pressed) in the second: a key that is held is clicked
  once. The key the core reports as clicked is one for which the test holds, and none is
  reported when no key of the map has an edge.\<close>

theorem kbd_click_is_edge:
  assumes "keymap_ok P" and "e \<in> set (keymap_keys (keymap P))"
  shows "let s' = fetch_step P hw2 (fetch_step P hw1 s)
    in (kbd_is_key_clicked P (hackkey e) s' \<longleftrightarrow>
          key_bits e hw1 \<noteq> 0 \<and> key_bits e hw2 = 0) \<and>
       (kbd_get_clicked_key P s' \<noteq> 0 \<longrightarrow> kbd_is_key_clicked P (kbd_get_clicked_key P s') s') \<and>
       (kbd_get_clicked_key P s' = 0 \<longleftrightarrow>
          (\<forall>f \<in> set (keymap_keys (keymap P)). \<not> kbd_is_key_clicked P (hackkey f) s'))"
proof -
  have grp: "grp e < 3"
    using assms by (simp add: keymap_ok_def)
  have edge: "kbd_is_key_clicked P (hackkey e) (fetch_step P hw2 (fetch_step P hw1 s)) \<longleftrightarrow>
      key_bits e hw1 \<noteq> 0 \<and> key_bits e hw2 = 0"
  proof -
    from grp consider "grp e = 0" | "grp e = 1" | "grp e = 2" by linarith
    then show ?thesis
      by cases (simp_all add: is_clicked_entry [OF assms] fetch_step_def key_bits_def Let_def)
  qed
  then show ?thesis
    using assms(1) by (simp add: get_clicked_is_clicked get_clicked_none)
qed

theorem kbd_click_is_edge_witness:
  "kbd_is_key_clicked a570_platform KEY_UP
     (fetch_step a570_platform (\<lambda>_. 0xFFFFFFEF) (fetch_step a570_platform (\<lambda>_. 0xFFFFFFFF) kbd_init))"
proof -
  have m: "\<lparr>grp = 2, hackkey = KEY_UP, canonkey = 0x10\<rparr> \<in> set (keymap_keys (keymap a570_platform))"
    by (simp add: keymap_keys_def a570_keymap_def key_defs)
  show ?thesis
    using kbd_click_is_edge [OF a570_keymap_ok m, of "\<lambda>_. 0xFFFFFFEF" "\<lambda>_. 0xFFFFFFFF" kbd_init]
    by (simp add: Let_def key_bits_def)
qed

end
