(* ===== verification/ActionStack.thy ===== *)
theory ActionStack
  imports Keyboard
begin

text \<open>
  \<open>core/action_stack.c\<close>: up to five stacks of delayed actions, each a 48-word array of
  parameters and function addresses, run once per keyboard timeslice.

  A block of memory is an address (a \<open>nat\<close>), its contents are in \<open>as_nodes\<close>, and the two
  linked lists of the file, the active stacks and the free list, are lists of addresses: the
  \<open>next\<close> pointer of a block is its successor in the list that holds it. Out-of-bounds accesses
  of the array, calls through words that are not the address of a function and dereferences of
  a null \<open>active_stack\<close> have no result (\<open>None\<close>), and a loop that does not end has none
  either. Addresses of the action functions are a parameter, \<open>as_code\<close>.
\<close>

section \<open>Data\<close>

definition AS_FUNC_ENTRY :: u32 where "AS_FUNC_ENTRY = 0xa32f1c9e"
definition ACTION_STACK_SIZE :: int where "ACTION_STACK_SIZE = 48"
definition MAX_ACTION_STACKS :: int where "MAX_ACTION_STACKS = 5"

text \<open>The action functions of the file; \<open>AS_OTHER\<close> are the ones other files push.\<close>

datatype action_func = AS_SLEEP | AS_PRESS | AS_RELEASE | AS_WAIT_SHOOTING_DONE | AS_WAIT_FLASH
  | AS_WAIT_SHOOTING_IN_PROGRESS | AS_SHOOT | AS_OTHER nat

record action_stack_t =
  stack :: "int \<Rightarrow> u32"
  stack_ptr :: int
  comp_id :: u32
  delay_target_ticks :: u32

record as_state = keyboard +
  action_stacks :: "nat list"
  active_stack :: "nat option"
  free_stacks :: "nat list"
  num_stacks :: int
  task_comp_id :: u32
  as_nodes :: "nat \<Rightarrow> action_stack_t"
  as_brk :: nat

record 's as_code =
  fn_addr :: "action_func \<Rightarrow> u32"
  fn_at :: "u32 \<Rightarrow> action_func option"
  other_func :: "nat \<Rightarrow> 's \<Rightarrow> (int \<times> 's) option"

section \<open>Stack management\<close>

definition action_stack_is_finished :: "u32 \<Rightarrow> 'a as_state_scheme \<Rightarrow> bool" where
  "action_stack_is_finished cid s = list_all (\<lambda>p. comp_id (as_nodes s p) \<noteq> cid) (action_stacks s)"

text \<open>The block a new stack uses: the head of the free list, or a fresh one from \<open>malloc\<close>.\<close>

definition as_get_block :: "'a as_state_scheme \<Rightarrow> nat \<times> 'a as_state_scheme" where
  "as_get_block s =
     (case free_stacks s of
        p # ps \<Rightarrow> (p, s\<lparr>free_stacks := ps\<rparr>)
      | [] \<Rightarrow> (as_brk s, s\<lparr>as_brk := as_brk s + 1\<rparr>))"

definition action_stack_create ::
  "'b as_code \<Rightarrow> action_func \<Rightarrow> 'a as_state_scheme \<Rightarrow> u32 \<times> 'a as_state_scheme" where
  "action_stack_create M proc_func s =
     (if num_stacks s = MAX_ACTION_STACKS then (-1, s)
      else
        let (p, s1) = as_get_block s;
            node = \<lparr>stack = (\<lambda>_. 0)(0 := fn_addr M proc_func, 1 := AS_FUNC_ENTRY),
                    stack_ptr = 1, comp_id = task_comp_id s1, delay_target_ticks = 0\<rparr>;
            id' = task_comp_id s1 + 1
        in (task_comp_id s1,
            s1\<lparr>action_stacks := p # action_stacks s1,
               as_nodes := (as_nodes s1)(p := node),
               num_stacks := num_stacks s1 + 1,
               task_comp_id := (if id' = 0 then 1 else id')\<rparr>))"

definition action_stack_finish :: "nat \<Rightarrow> 'a as_state_scheme \<Rightarrow> 'a as_state_scheme" where
  "action_stack_finish p s =
     (if comp_id (as_nodes s p) = 0 then s
      else s\<lparr>action_stacks := remove1 p (action_stacks s),
             num_stacks := num_stacks s - 1,
             as_nodes := (as_nodes s)(p := (as_nodes s p)\<lparr>comp_id := 0, stack_ptr := -1\<rparr>),
             free_stacks := p # free_stacks s\<rparr>)"

definition action_stack_kill :: "u32 \<Rightarrow> 'a as_state_scheme \<Rightarrow> 'a as_state_scheme" where
  "action_stack_kill cid s =
     (case find (\<lambda>p. comp_id (as_nodes s p) = cid) (action_stacks s) of
        None \<Rightarrow> s
      | Some p \<Rightarrow> action_stack_finish p s)"

section \<open>Words on the active stack\<close>

definition in_stack :: "int \<Rightarrow> bool" where
  "in_stack i \<longleftrightarrow> 0 \<le> i \<and> i < ACTION_STACK_SIZE"

definition upd_node ::
  "nat \<Rightarrow> (action_stack_t \<Rightarrow> action_stack_t) \<Rightarrow> 'a as_state_scheme \<Rightarrow> 'a as_state_scheme" where
  "upd_node p g s = s\<lparr>as_nodes := (as_nodes s)(p := g (as_nodes s p))\<rparr>"

definition action_top :: "int \<Rightarrow> 'a as_state_scheme \<Rightarrow> u32 option" where
  "action_top n s =
     (case active_stack s of
        None \<Rightarrow> Some 0
      | Some p \<Rightarrow>
          let i = stack_ptr (as_nodes s p) - n
          in if in_stack i then Some (stack (as_nodes s p) i) else None)"

definition action_pop :: "'a as_state_scheme \<Rightarrow> (u32 \<times> 'a as_state_scheme) option" where
  "action_pop s =
     (case active_stack s of
        None \<Rightarrow> Some (0, s)
      | Some p \<Rightarrow>
          let i = stack_ptr (as_nodes s p)
          in if in_stack i
             then Some (stack (as_nodes s p) i, upd_node p (\<lambda>n. n\<lparr>stack_ptr := i - 1\<rparr>) s)
             else None)"

text \<open>\<open>action_pop_func(nParam)\<close>: the loop pops \<open>nParam + 1\<close> words, the return value is one more.\<close>

fun action_pops :: "nat \<Rightarrow> 'a as_state_scheme \<Rightarrow> 'a as_state_scheme option" where
  "action_pops 0 s = Some s"
| "action_pops (Suc n) s = do { (_, s1) \<leftarrow> action_pop s; action_pops n s1 }"

definition action_pop_func :: "nat \<Rightarrow> 'a as_state_scheme \<Rightarrow> (u32 \<times> 'a as_state_scheme) option" where
  "action_pop_func nParam s = do { s1 \<leftarrow> action_pops (nParam + 1) s; action_pop s1 }"

definition action_push :: "u32 \<Rightarrow> 'a as_state_scheme \<Rightarrow> 'a as_state_scheme option" where
  "action_push v s =
     (case active_stack s of
        None \<Rightarrow> Some s
      | Some p \<Rightarrow>
          let i = stack_ptr (as_nodes s p) + 1
          in if in_stack i
             then Some (upd_node p (\<lambda>n. n\<lparr>stack_ptr := i, stack := (stack n)(i := v)\<rparr>) s)
             else None)"

definition action_push_func ::
  "'b as_code \<Rightarrow> action_func \<Rightarrow> 'a as_state_scheme \<Rightarrow> 'a as_state_scheme option" where
  "action_push_func M f s = do { s1 \<leftarrow> action_push (fn_addr M f) s; action_push AS_FUNC_ENTRY s1 }"

section \<open>Delays\<close>

definition action_process_delay ::
  "u32 \<Rightarrow> 'a as_state_scheme \<Rightarrow> (bool \<times> 'a as_state_scheme) option" where
  "action_process_delay delay s =
     (case active_stack s of
        None \<Rightarrow> None
      | Some p \<Rightarrow>
          let t = tick_count s
          in if delay_target_ticks (as_nodes s p) = 0
             then let d = (if delay = -1 then 86400000 else delay)
                  in Some (False, upd_node p (\<lambda>n. n\<lparr>delay_target_ticks := t + d\<rparr>) s)
             else Some (delay_target_ticks (as_nodes s p) \<le> t, s))"

definition action_pop_delay :: "'a as_state_scheme \<Rightarrow> 'a as_state_scheme option" where
  "action_pop_delay s =
     (case active_stack s of
        None \<Rightarrow> None
      | Some p \<Rightarrow>
          map_option snd (action_pop_func 1 (upd_node p (\<lambda>n. n\<lparr>delay_target_ticks := 0\<rparr>) s)))"

definition action_stack_AS_SLEEP :: "'a as_state_scheme \<Rightarrow> (int \<times> 'a as_state_scheme) option" where
  "action_stack_AS_SLEEP s = do {
     delay \<leftarrow> action_top 2 s;
     (expired, s1) \<leftarrow> action_process_delay delay s;
     if expired then do { s2 \<leftarrow> action_pop_delay s1; Some (1, s2) } else Some (0, s1) }"

definition action_push_delay ::
  "'b as_code \<Rightarrow> u32 \<Rightarrow> 'a as_state_scheme \<Rightarrow> 'a as_state_scheme option" where
  "action_push_delay M msec s = do { s1 \<leftarrow> action_push msec s; action_push_func M AS_SLEEP s1 }"

section \<open>Key actions\<close>

definition action_stack_AS_PRESS ::
  "platform \<Rightarrow> 'a as_state_scheme \<Rightarrow> (int \<times> 'a as_state_scheme) option" where
  "action_stack_AS_PRESS P s = do {
     (skey, s1) \<leftarrow> action_pop_func 1 s;
     Some (1, kbd_key_press P (sint skey) s1) }"

definition action_push_press ::
  "platform \<Rightarrow> 'b as_code \<Rightarrow> u32 \<Rightarrow> 'a as_state_scheme \<Rightarrow> 'a as_state_scheme option" where
  "action_push_press P M key s = do {
     s1 \<leftarrow> action_push_delay M (cam_key_press_delay P) s;
     s2 \<leftarrow> action_push key s1;
     action_push_func M AS_PRESS s2 }"

definition action_stack_AS_RELEASE ::
  "platform \<Rightarrow> 'a as_state_scheme \<Rightarrow> (int \<times> 'a as_state_scheme) option" where
  "action_stack_AS_RELEASE P s = do {
     (skey, s1) \<leftarrow> action_pop_func 1 s;
     Some (1, kbd_key_release P (sint skey) s1) }"

definition action_push_release ::
  "platform \<Rightarrow> 'b as_code \<Rightarrow> u32 \<Rightarrow> 'a as_state_scheme \<Rightarrow> 'a as_state_scheme option" where
  "action_push_release P M key s = do {
     s1 \<leftarrow> action_push_delay M (cam_key_release_delay P) s;
     s2 \<leftarrow> action_push key s1;
     action_push_func M AS_RELEASE s2 }"

definition action_push_click ::
  "platform \<Rightarrow> 'b as_code \<Rightarrow> u32 \<Rightarrow> 'a as_state_scheme \<Rightarrow> 'a as_state_scheme option" where
  "action_push_click P M key s = do {
     s1 \<leftarrow> action_push_release P M key s;
     action_push_press P M key s1 }"

section \<open>Shoot actions\<close>

definition SHOOTING_PROGRESS_NONE :: int where "SHOOTING_PROGRESS_NONE = 0"

definition action_push_shoot ::
  "platform \<Rightarrow> 'b as_code \<Rightarrow> u32 \<Rightarrow> 'a as_state_scheme \<Rightarrow> 'a as_state_scheme option" where
  "action_push_shoot P M retry s = do {
     let s0 = s\<lparr>state_shooting_progress := SHOOTING_PROGRESS_NONE\<rparr>;
     s1 \<leftarrow> action_push retry s0;
     s2 \<leftarrow> action_push (tick_count s1 + 5000) s1;
     s3 \<leftarrow> action_push_func M AS_WAIT_SHOOTING_IN_PROGRESS s2;
     action_push_press P M (word_of_int KEY_SHOOT_HALF) s3 }"

definition action_stack_AS_WAIT_SHOOTING_DONE ::
  "platform \<Rightarrow> 'b as_code \<Rightarrow> 'a as_state_scheme \<Rightarrow> (int \<times> 'a as_state_scheme) option" where
  "action_stack_AS_WAIT_SHOOTING_DONE P M s =
     (if shooting_busy s then Some (0, s)
      else do {
        (retry, s1) \<leftarrow> action_pop_func 1 s;
        s2 \<leftarrow> (if state_shooting_progress s1 = SHOOTING_PROGRESS_NONE
               then if retry \<noteq> 0
                    then do { s2 \<leftarrow> action_push_shoot P M 0 s1; action_push_delay M 250 s2 }
                    else Some (ext_call (ScriptSetAsRet 2) s1)
               else let s2 = ext_call (ScriptSetAsRet 0) s1
                    in if 0 <s conf_script_shoot_delay s2
                       then action_push_delay M (conf_script_shoot_delay s2 * 100) s2
                       else Some s2);
        Some (1, s2) })"

definition action_stack_AS_WAIT_FLASH :: "'a as_state_scheme \<Rightarrow> (int \<times> 'a as_state_scheme) option" where
  "action_stack_AS_WAIT_FLASH s =
     (if flash_ready s then do { (_, s1) \<leftarrow> action_pop_func 0 s; Some (1, s1) } else Some (0, s))"

definition action_stack_AS_WAIT_SHOOTING_IN_PROGRESS ::
  "platform \<Rightarrow> 'b as_code \<Rightarrow> 'a as_state_scheme \<Rightarrow> (int \<times> 'a as_state_scheme) option" where
  "action_stack_AS_WAIT_SHOOTING_IN_PROGRESS P M s = do {
     timeout \<leftarrow> action_top 2 s;
     retry \<leftarrow> action_top 3 s;
     if shooting_busy s \<or> mode_video s
     then do {
       (_, s1) \<leftarrow> action_pop_func 2 s;
       s2 \<leftarrow> action_push retry s1;
       s3 \<leftarrow> action_push_func M AS_WAIT_SHOOTING_DONE s2;
       s4 \<leftarrow> action_push_click P M (word_of_int KEY_SHOOT_FULL) s3;
       s5 \<leftarrow> action_push_func M AS_WAIT_FLASH s4;
       Some (1, s5) }
     else if timeout \<le>s tick_count s
     then do {
       (_, s1) \<leftarrow> action_pop_func 2 s;
       Some (1, ext_call (ScriptSetAsRet 1) s1) }
     else Some (0, s) }"

definition action_stack_AS_SHOOT ::
  "platform \<Rightarrow> 'b as_code \<Rightarrow> 'a as_state_scheme \<Rightarrow> (int \<times> 'a as_state_scheme) option" where
  "action_stack_AS_SHOOT P M s = do {
     (_, s1) \<leftarrow> action_pop_func 0 s;
     s2 \<leftarrow> action_push_shoot P M 1 s1;
     Some (1, s2) }"

section \<open>Execution\<close>

definition action_call ::
  "platform \<Rightarrow> ('a as_state_scheme) as_code \<Rightarrow> action_func \<Rightarrow> 'a as_state_scheme \<Rightarrow>
   (int \<times> 'a as_state_scheme) option" where
  "action_call P M f s =
     (case f of
        AS_SLEEP \<Rightarrow> action_stack_AS_SLEEP s
      | AS_PRESS \<Rightarrow> action_stack_AS_PRESS P s
      | AS_RELEASE \<Rightarrow> action_stack_AS_RELEASE P s
      | AS_WAIT_SHOOTING_DONE \<Rightarrow> action_stack_AS_WAIT_SHOOTING_DONE P M s
      | AS_WAIT_FLASH \<Rightarrow> action_stack_AS_WAIT_FLASH s
      | AS_WAIT_SHOOTING_IN_PROGRESS \<Rightarrow> action_stack_AS_WAIT_SHOOTING_IN_PROGRESS P M s
      | AS_SHOOT \<Rightarrow> action_stack_AS_SHOOT P M s
      | AS_OTHER n \<Rightarrow> other_func M n s)"

text \<open>
  \<open>action_stack_process\<close>: the \<open>while (process \<and> stack_ptr \<ge> 0)\<close> loop with \<open>process\<close> as its
  first argument. The error branch finishes the stack and returns.
\<close>

partial_function (option) action_stack_process_loop ::
  "platform \<Rightarrow> ('a as_state_scheme) as_code \<Rightarrow> int \<Rightarrow> 'a as_state_scheme \<Rightarrow>
   'a as_state_scheme option" where
  "action_stack_process_loop P M process s =
     (case active_stack s of
        None \<Rightarrow> None
      | Some p \<Rightarrow>
          if process \<noteq> 0 \<and> stack_ptr (as_nodes s p) \<ge> 0
          then do {
            tag \<leftarrow> action_top 0 s;
            f \<leftarrow> action_top 1 s;
            if tag = AS_FUNC_ENTRY
            then (case fn_at M f of
                None \<Rightarrow> None
              | Some fn \<Rightarrow> do {
                  (r, s1) \<leftarrow> action_call P M fn s;
                  action_stack_process_loop P M r s1 })
            else Some (action_stack_finish p (ext_call ConsoleAddError s)) }
          else if stack_ptr (as_nodes s p) < 0
          then Some (action_stack_finish p s)
          else Some s)"

definition action_stack_process ::
  "platform \<Rightarrow> ('a as_state_scheme) as_code \<Rightarrow> 'a as_state_scheme \<Rightarrow> 'a as_state_scheme option" where
  "action_stack_process P M s = action_stack_process_loop P M 1 s"

fun succ_in :: "nat list \<Rightarrow> nat \<Rightarrow> nat option" where
  "succ_in (x # y # zs) p = (if x = p then Some y else succ_in (y # zs) p)"
| "succ_in _ p = None"

text \<open>The \<open>next\<close> pointer of a block.\<close>

definition as_next :: "'a as_state_scheme \<Rightarrow> nat \<Rightarrow> nat option" where
  "as_next s p =
     (if p \<in> set (action_stacks s) then succ_in (action_stacks s) p else succ_in (free_stacks s) p)"

partial_function (option) action_stack_process_from ::
  "platform \<Rightarrow> ('a as_state_scheme) as_code \<Rightarrow> 'a as_state_scheme \<Rightarrow> 'a as_state_scheme option" where
  "action_stack_process_from P M s =
     (case active_stack s of
        None \<Rightarrow> Some s
      | Some p \<Rightarrow> do {
          s1 \<leftarrow> action_stack_process P M s;
          action_stack_process_from P M (s1\<lparr>active_stack := as_next s p\<rparr>) })"

definition action_stack_process_all ::
  "platform \<Rightarrow> ('a as_state_scheme) as_code \<Rightarrow> 'a as_state_scheme \<Rightarrow> 'a as_state_scheme option" where
  "action_stack_process_all P M s =
     action_stack_process_from P M
       (s\<lparr>active_stack := (case action_stacks s of [] \<Rightarrow> None | p # _ \<Rightarrow> Some p)\<rparr>)"

section \<open>The table of running stacks\<close>

text \<open>
  The interface of the table, as the script engine and the USB remote use it: a bounded set of
  running identifiers. \<open>next_id\<close> is the identifier the next creation hands out; it is fresh
  until the 32-bit counter has wrapped around onto a stack that is still running.
\<close>

locale task_pool =
  fixes inv :: "'s \<Rightarrow> bool"
    and running :: "'s \<Rightarrow> u32 set"
    and next_id :: "'s \<Rightarrow> u32"
    and create :: "'f \<Rightarrow> 's \<Rightarrow> u32 \<times> 's"
    and kill :: "u32 \<Rightarrow> 's \<Rightarrow> 's"
    and cap :: nat
  assumes capacity: "inv s \<Longrightarrow> card (running s) \<le> cap"
    and finite_running: "inv s \<Longrightarrow> finite (running s)"
    and create_full: "inv s \<Longrightarrow> card (running s) = cap \<Longrightarrow> create f s = (-1, s)"
    and create_id: "inv s \<Longrightarrow> card (running s) < cap \<Longrightarrow> fst (create f s) = next_id s"
    and create_running: "inv s \<Longrightarrow> card (running s) < cap \<Longrightarrow> next_id s \<notin> running s \<Longrightarrow>
      running (snd (create f s)) = insert (next_id s) (running s)"
    and create_inv: "inv s \<Longrightarrow> next_id s \<notin> running s \<Longrightarrow> inv (snd (create f s))"
    and kill_running: "inv s \<Longrightarrow> running (kill c s) = running s - {c}"
    and kill_inv: "inv s \<Longrightarrow> inv (kill c s)"
begin

lemma create_then_kill:
  assumes "inv s" and "card (running s) < cap" and "next_id s \<notin> running s"
  shows "running (kill (fst (create f s)) (snd (create f s))) = running s"
  using assms by (simp add: create_id create_running create_inv kill_running)

lemma kill_twice: "inv s \<Longrightarrow> running (kill c (kill c s)) = running (kill c s)"
  by (simp add: kill_running kill_inv)

lemma kill_frees_slot:
  assumes "inv s" and "c \<in> running s"
  shows "card (running (kill c s)) < cap"
proof -
  have "card (running s - {c}) < card (running s)"
    using assms finite_running by (intro psubset_card_mono) auto
  with assms capacity [of s] show ?thesis
    by (simp add: kill_running)
qed

end

definition node_ids :: "(nat \<Rightarrow> action_stack_t) \<Rightarrow> nat list \<Rightarrow> u32 list" where
  "node_ids nd ps = map (\<lambda>p. comp_id (nd p)) ps"

lemma node_ids_simps [simp]:
  "node_ids nd [] = []"
  "node_ids nd (p # ps) = comp_id (nd p) # node_ids nd ps"
  "length (node_ids nd ps) = length ps"
  by (simp_all add: node_ids_def)

lemma node_ids_upd [simp]: "p \<notin> set ps \<Longrightarrow> node_ids (nd(p := n)) ps = node_ids nd ps"
  by (auto simp: node_ids_def)

lemma node_ids_remove1:
  assumes "distinct ps" and "p \<in> set ps" and "distinct (node_ids nd ps)"
  shows "set (node_ids nd (remove1 p ps)) = set (node_ids nd ps) - {comp_id (nd p)}"
    and "distinct (node_ids nd (remove1 p ps))"
  using assms by (auto simp: node_ids_def distinct_map inj_on_def)

definition as_ok :: "'a as_state_scheme \<Rightarrow> bool" where
  "as_ok s \<longleftrightarrow>
     distinct (action_stacks s) \<and> distinct (free_stacks s) \<and>
     set (action_stacks s) \<inter> set (free_stacks s) = {} \<and>
     (\<forall>p \<in> set (action_stacks s) \<union> set (free_stacks s). p < as_brk s) \<and>
     num_stacks s = int (length (action_stacks s)) \<and>
     length (action_stacks s) \<le> 5 \<and>
     0 \<notin> set (node_ids (as_nodes s) (action_stacks s)) \<and>
     (\<forall>p \<in> set (free_stacks s). comp_id (as_nodes s p) = 0 \<and> stack_ptr (as_nodes s p) = -1) \<and>
     distinct (node_ids (as_nodes s) (action_stacks s)) \<and>
     task_comp_id s \<noteq> 0"

definition running_ids :: "'a as_state_scheme \<Rightarrow> u32 set" where
  "running_ids s = set (node_ids (as_nodes s) (action_stacks s))"

lemma is_finished_running: "action_stack_is_finished c s \<longleftrightarrow> c \<notin> running_ids s"
  by (auto simp: action_stack_is_finished_def running_ids_def node_ids_def list_all_iff)

lemma card_running: "as_ok s \<Longrightarrow> card (running_ids s) = length (action_stacks s)"
  by (simp add: as_ok_def running_ids_def distinct_card)

lemma as_get_block_cases:
  assumes "as_ok s" and "as_get_block s = (p, s1)"
  obtains ps where "free_stacks s = p # ps" and "s1 = s\<lparr>free_stacks := ps\<rparr>"
  | "free_stacks s = []" and "p = as_brk s" and "s1 = s\<lparr>as_brk := as_brk s + 1\<rparr>"
  using assms by (auto simp: as_get_block_def split: list.splits)

lemma create_full_table:
  "as_ok s \<Longrightarrow> length (action_stacks s) = 5 \<Longrightarrow> action_stack_create M f s = (-1, s)"
  by (simp add: as_ok_def action_stack_create_def MAX_ACTION_STACKS_def)

lemma create_id_room:
  assumes "as_ok s" and "length (action_stacks s) < 5"
  shows "fst (action_stack_create M f s) = task_comp_id s"
  using assms
  by (auto simp: action_stack_create_def as_ok_def MAX_ACTION_STACKS_def Let_def as_get_block_def
      split: list.splits)

lemma create_room:
  assumes ok: "as_ok s" and room: "length (action_stacks s) < 5"
    and fresh: "task_comp_id s \<notin> running_ids s"
  shows "running_ids (snd (action_stack_create M f s)) = insert (task_comp_id s) (running_ids s) \<and>
    as_ok (snd (action_stack_create M f s))"
proof -
  obtain p s1 where b: "as_get_block s = (p, s1)" by (cases "as_get_block s")
  have n: "num_stacks s \<noteq> MAX_ACTION_STACKS"
    using ok room by (simp add: as_ok_def MAX_ACTION_STACKS_def)
  show ?thesis
    using ok b
  proof (cases rule: as_get_block_cases)
    case (1 ps)
    then have "p \<notin> set (action_stacks s)" and "p \<notin> set ps" using ok by (auto simp: as_ok_def)
    with 1 ok room fresh n b show ?thesis
      by (auto simp: action_stack_create_def as_ok_def running_ids_def Let_def)
  next
    case 2
    then have "p \<notin> set (action_stacks s)" using ok by (auto simp: as_ok_def)
    with 2 ok room fresh n b show ?thesis
      by (auto simp: action_stack_create_def as_ok_def running_ids_def Let_def)
  qed
qed

lemma finish_ok:
  assumes ok: "as_ok s" and p: "p \<in> set (action_stacks s)"
  shows "as_ok (action_stack_finish p s) \<and>
    running_ids (action_stack_finish p s) = running_ids s - {comp_id (as_nodes s p)}"
proof -
  have nz: "comp_id (as_nodes s p) \<noteq> 0"
    using ok p by (auto simp: as_ok_def node_ids_def)
  have out: "p \<notin> set (remove1 p (action_stacks s))" and free: "p \<notin> set (free_stacks s)"
    using ok p by (auto simp: as_ok_def)
  have len: "length (remove1 p (action_stacks s)) = length (action_stacks s) - 1"
    and pos: "length (action_stacks s) \<ge> 1"
    using p by (auto simp: length_remove1) (cases "action_stacks s", auto)
  show ?thesis
    using ok p nz out free len pos node_ids_remove1 [of "action_stacks s" p "as_nodes s"]
    by (auto simp: action_stack_finish_def as_ok_def running_ids_def)
qed

lemma kill_ok:
  assumes ok: "as_ok s"
  shows "as_ok (action_stack_kill c s) \<and> running_ids (action_stack_kill c s) = running_ids s - {c}"
proof (cases "find (\<lambda>p. comp_id (as_nodes s p) = c) (action_stacks s)")
  case None
  then have "c \<notin> running_ids s" by (auto simp: find_None_iff running_ids_def node_ids_def)
  with None ok show ?thesis by (simp add: action_stack_kill_def)
next
  case (Some p)
  then have "p \<in> set (action_stacks s)" and "comp_id (as_nodes s p) = c"
    by (auto simp: find_Some_iff)
  with Some finish_ok [OF ok] show ?thesis by (simp add: action_stack_kill_def)
qed

lemma create_keeps_ok:
  assumes ok: "as_ok s" and fresh: "task_comp_id s \<notin> running_ids s"
  shows "as_ok (snd (action_stack_create M f s))"
proof -
  have "length (action_stacks s) \<le> 5" using ok by (simp add: as_ok_def)
  then consider "length (action_stacks s) = 5" | "length (action_stacks s) < 5" by linarith
  then show ?thesis
    using ok fresh by cases (simp_all add: create_full_table create_room)
qed

interpretation as_pool: task_pool as_ok running_ids task_comp_id "action_stack_create M"
  action_stack_kill 5 for M
  by unfold_locales
    (simp_all add: card_running create_full_table create_id_room create_room create_keeps_ok
      kill_ok, simp_all add: as_ok_def running_ids_def)

text \<open>The initial values of the globals of the file.\<close>

definition as_init :: as_state where
  "as_init = keyboard.extend kbd_init
     (as_state.fields [] None [] 0 1
        (\<lambda>_. \<lparr>stack = (\<lambda>_. 0), stack_ptr = -1, comp_id = 0, delay_target_ticks = 0\<rparr>) 0)"

lemma as_init_sel [simp]:
  "action_stacks as_init = []" "active_stack as_init = None" "free_stacks as_init = []"
  "num_stacks as_init = 0" "task_comp_id as_init = 1" "as_brk as_init = 0"
  "as_nodes as_init q = \<lparr>stack = (\<lambda>_. 0), stack_ptr = -1, comp_id = 0, delay_target_ticks = 0\<rparr>"
  "tick_count as_init = 0" "ext_calls as_init = []" "shooting_busy as_init = False"
  "state_shooting_progress as_init = 0" "mode_video as_init = False"
  by (simp_all add: as_init_def as_state.defs keyboard.defs kbd_init_def)

lemma as_init_ok: "as_ok as_init"
  by (simp add: as_ok_def)

section \<open>Properties\<close>

text \<open>C15: creating and killing stacks. With the table of stacks in order and the next
  identifier not in use, a creation is refused, with -1 and no change, exactly when five stacks
  run; otherwise it returns a non-zero identifier whose stack is running, leaves the other
  stacks as they were, and killing that identifier leaves exactly the stacks that ran before. The
  table stays in order: at most five stacks, distinct non-zero identifiers, a count that is the
  length of the list, and finished blocks on the free list only.\<close>

theorem action_stack_create_kill:
  assumes ok: "as_ok s" and fresh: "task_comp_id s \<notin> running_ids s"
  shows "let (c, s1) = action_stack_create M f s; s2 = action_stack_kill c s1
    in as_ok s1 \<and> as_ok s2 \<and>
       (if length (action_stacks s) = 5 then c = -1 \<and> s1 = s
        else c \<noteq> 0 \<and> \<not> action_stack_is_finished c s1 \<and> action_stack_is_finished c s2 \<and>
             (\<forall>d. d \<noteq> c \<longrightarrow> action_stack_is_finished d s1 = action_stack_is_finished d s) \<and>
             (\<forall>d. action_stack_is_finished d s2 = action_stack_is_finished d s))"
proof (cases "length (action_stacks s) = 5")
  case True
  with ok show ?thesis
    by (simp add: create_full_table as_pool.kill_inv)
next
  case False
  then have room: "card (running_ids s) < 5"
    using ok by (simp add: card_running) (simp add: as_ok_def)
  obtain c s1 where cs: "action_stack_create M f s = (c, s1)" by fastforce
  have c: "c = task_comp_id s" and r1: "running_ids s1 = insert (task_comp_id s) (running_ids s)"
    and ok1: "as_ok s1" and r2: "running_ids (action_stack_kill c s1) = running_ids s"
    using as_pool.create_id [OF ok room, of M f] as_pool.create_running [OF ok room fresh, of M f]
      as_pool.create_inv [OF ok fresh, of M f] as_pool.create_then_kill [OF ok room fresh, of M f] cs
    by simp_all
  have "c \<noteq> 0" using c ok by (simp add: as_ok_def)
  then show ?thesis
    using False cs c r1 r2 ok1 as_pool.kill_inv [OF ok1, of c] fresh
    by (simp add: is_finished_running)
qed

definition demo_code :: "as_state as_code" where
  "demo_code = \<lparr>fn_addr = (\<lambda>f. case f of AS_SLEEP \<Rightarrow> 4 | AS_PRESS \<Rightarrow> 8 | AS_RELEASE \<Rightarrow> 12
       | AS_WAIT_SHOOTING_DONE \<Rightarrow> 16 | AS_WAIT_FLASH \<Rightarrow> 20 | AS_WAIT_SHOOTING_IN_PROGRESS \<Rightarrow> 24
       | AS_SHOOT \<Rightarrow> 28 | AS_OTHER n \<Rightarrow> 32),
     fn_at = (\<lambda>a. if a = 4 then Some AS_SLEEP else if a = 8 then Some AS_PRESS
       else if a = 12 then Some AS_RELEASE else if a = 16 then Some AS_WAIT_SHOOTING_DONE
       else if a = 20 then Some AS_WAIT_FLASH else if a = 24 then Some AS_WAIT_SHOOTING_IN_PROGRESS
       else if a = 28 then Some AS_SHOOT else None),
     other_func = (\<lambda>_ _. None)\<rparr>"

theorem action_stack_create_kill_witness:
  "\<not> action_stack_is_finished (fst (action_stack_create demo_code AS_SHOOT as_init))
       (snd (action_stack_create demo_code AS_SHOOT as_init))"
  using action_stack_create_kill [OF as_init_ok, of demo_code AS_SHOOT]
  by (auto simp: running_ids_def split: prod.splits)

text \<open>A sleep lasts as long as it says, up to the wrap of the clock. The first
  timeslice that reaches a sleep of \<open>d\<close> milliseconds, at time \<open>t0\<close>, only records the time it
  ends and waits. A later timeslice, at \<open>t\<close>, lets the stack go on exactly when \<open>d\<close> milliseconds
  have passed, provided the end does not overflow the 32-bit clock (nor is it 0). If it
  overflows, the recorded end is in the past and the sleep is over in the very next timeslice,
  however long it was meant to be.\<close>

theorem action_process_delay_exact:
  assumes act: "active_stack s = Some p" and idle: "delay_target_ticks (as_nodes s p) = 0"
    and d: "d \<noteq> -1" and t: "tick_count s \<le> t" and nz: "tick_count s + d \<noteq> 0"
  shows "\<exists>s1. action_process_delay d s = Some (False, s1) \<and>
    (\<exists>b. action_process_delay d (s1\<lparr>tick_count := t\<rparr>) = Some (b, s1\<lparr>tick_count := t\<rparr>) \<and>
      (if uint (tick_count s) + uint d < 2 ^ 32
       then b = (uint d \<le> uint t - uint (tick_count s)) else b))"
proof -
  have lim: "tick_count s + d \<le> t \<longleftrightarrow>
      (if uint (tick_count s) + uint d < 2 ^ 32 then uint d \<le> uint t - uint (tick_count s) else True)"
  proof (cases "uint (tick_count s) + uint d < 2 ^ 32")
    case True
    with uint_add_exact [OF True] show ?thesis by (auto simp: word_le_def)
  next
    case False
    have "uint d < 2 ^ 32" using uint_bounded [of d] by simp
    with False uint_add_wrap [of "tick_count s" d] t show ?thesis by (auto simp: word_le_def)
  qed
  show ?thesis
    using act idle d nz lim
    by (auto simp: action_process_delay_def upd_node_def Let_def)
qed

theorem action_process_delay_exact_witness:
  "\<exists>s1. action_process_delay 20 (as_init\<lparr>active_stack := Some 0, tick_count := 5\<rparr>) = Some (False, s1) \<and>
     action_process_delay 20 (s1\<lparr>tick_count := 30\<rparr>) = Some (True, s1\<lparr>tick_count := 30\<rparr>)"
  using action_process_delay_exact [of "as_init\<lparr>active_stack := Some 0, tick_count := 5\<rparr>" 0 20 30]
  by auto

end
