(* ===== verification/ActionFrames.thy ===== *)
theory ActionFrames
  imports ActionStack
begin

text \<open>
  What an action stack promises. Seen from above, a stack is not 48 words but a list of
  pending actions (frames), the next one first, and a timeslice runs them until one has to wait.
  This theory gives that abstract machine for the actions of \<open>core/action_stack.c\<close>, proves that it
  always stops, that an automatic shot never needs more than 17 words, and that the word machine
  of \<open>ActionStack\<close> implements it.
\<close>

section \<open>The abstract machine\<close>

datatype frame = FSleep u32 | FPress u32 | FRelease u32 | FWaitDone u32 | FWaitFlash
  | FWaitProgress u32 u32 | FShoot

definition press_frames :: "platform \<Rightarrow> u32 \<Rightarrow> frame list" where
  "press_frames P k = [FPress k, FSleep (cam_key_press_delay P)]"

definition click_frames :: "platform \<Rightarrow> u32 \<Rightarrow> frame list" where
  "click_frames P k = press_frames P k @ [FRelease k, FSleep (cam_key_release_delay P)]"

definition shoot_frames :: "platform \<Rightarrow> u32 \<Rightarrow> u32 \<Rightarrow> frame list" where
  "shoot_frames P now retry =
     press_frames P (word_of_int KEY_SHOOT_HALF) @ [FWaitProgress (now + 5000) retry]"

definition set_delay :: "nat \<Rightarrow> u32 \<Rightarrow> 'a as_state_scheme \<Rightarrow> 'a as_state_scheme" where
  "set_delay p t s = upd_node p (\<lambda>n. n\<lparr>delay_target_ticks := t\<rparr>) s"

text \<open>
  One action of the stack at address \<open>p\<close>: whether to go on in this timeslice, the frames that
  replace it, and the effect on the rest of the state.
\<close>

fun frame_step ::
  "platform \<Rightarrow> nat \<Rightarrow> frame \<Rightarrow> 'a as_state_scheme \<Rightarrow> int \<times> frame list \<times> 'a as_state_scheme" where
  "frame_step P p (FSleep d) s =
     (if delay_target_ticks (as_nodes s p) = 0
      then (0, [FSleep d], set_delay p (tick_count s + (if d = -1 then 86400000 else d)) s)
      else if delay_target_ticks (as_nodes s p) \<le> tick_count s then (1, [], set_delay p 0 s)
      else (0, [FSleep d], s))"
| "frame_step P p (FPress k) s = (1, [], kbd_key_press P (sint k) s)"
| "frame_step P p (FRelease k) s = (1, [], kbd_key_release P (sint k) s)"
| "frame_step P p (FWaitDone r) s =
     (if shooting_busy s then (0, [FWaitDone r], s)
      else if state_shooting_progress s = SHOOTING_PROGRESS_NONE
      then (if r \<noteq> 0
            then (1, FSleep 250 # shoot_frames P (tick_count s) 0,
                  s\<lparr>state_shooting_progress := SHOOTING_PROGRESS_NONE\<rparr>)
            else (1, [], ext_call (ScriptSetAsRet 2) s))
      else (1, (if 0 <s conf_script_shoot_delay s then [FSleep (conf_script_shoot_delay s * 100)] else []),
            ext_call (ScriptSetAsRet 0) s))"
| "frame_step P p FWaitFlash s = (if flash_ready s then (1, [], s) else (0, [FWaitFlash], s))"
| "frame_step P p (FWaitProgress t r) s =
     (if shooting_busy s \<or> mode_video s
      then (1, FWaitFlash # click_frames P (word_of_int KEY_SHOOT_FULL) @ [FWaitDone r], s)
      else if t \<le>s tick_count s then (1, [], ext_call (ScriptSetAsRet 1) s)
      else (0, [FWaitProgress t r], s))"
| "frame_step P p FShoot s =
     (1, shoot_frames P (tick_count s) 1,
      s\<lparr>state_shooting_progress := SHOOTING_PROGRESS_NONE\<rparr>)"

text \<open>An action that lets the timeslice go on is replaced by strictly less work.\<close>

fun weight :: "frame \<Rightarrow> nat" where
  "weight (FWaitDone r) = (if r = 0 then 2 else 13)"
| "weight (FWaitProgress t r) = (if r = 0 then 9 else 20)"
| "weight FShoot = 23"
| "weight _ = 1"

definition total_weight :: "frame list \<Rightarrow> nat" where
  "total_weight fs = sum_list (map weight fs)"

lemma frame_step_weight:
  "frame_step P p f s = (r, gs, e) \<Longrightarrow> r \<noteq> 0 \<Longrightarrow> total_weight gs < weight f"
  by (cases f) (auto simp: total_weight_def press_frames_def click_frames_def shoot_frames_def
      split: if_splits)

function (sequential) frames_process ::
  "platform \<Rightarrow> nat \<Rightarrow> frame list \<Rightarrow> 'a as_state_scheme \<Rightarrow> frame list \<times> 'a as_state_scheme" where
  "frames_process P p [] s = ([], s)"
| "frames_process P p (f # fs) s =
     (case frame_step P p f s of
        (r, gs, e) \<Rightarrow> if r \<noteq> 0 then frames_process P p (gs @ fs) e else (gs @ fs, e))"
  by pat_completeness auto
termination
  by (relation "measure (\<lambda>(P, p, fs, s). total_weight fs)")
    (auto simp: total_weight_def intro: frame_step_weight [unfolded total_weight_def, OF sym])

section \<open>Room on the stack\<close>

fun frame_len :: "frame \<Rightarrow> nat" where
  "frame_len (FWaitProgress t r) = 4"
| "frame_len FWaitFlash = 2"
| "frame_len FShoot = 2"
| "frame_len _ = 3"

definition frames_len :: "frame list \<Rightarrow> nat" where
  "frames_len fs = sum_list (map frame_len fs)"

text \<open>The words a frame and everything it turns into may occupy at one time.\<close>

fun frame_need :: "frame \<Rightarrow> nat" where
  "frame_need (FWaitDone r) = (if r = 0 then 3 else 17)"
| "frame_need (FWaitProgress t r) = 17"
| "frame_need FShoot = 17"
| "frame_need FWaitFlash = 2"
| "frame_need _ = 3"

fun frames_fit :: "nat \<Rightarrow> frame list \<Rightarrow> bool" where
  "frames_fit B [] = True"
| "frames_fit B (f # fs) = (frame_need f + frames_len fs \<le> B \<and> frames_fit B fs)"

lemma frames_len_simps [simp]:
  "frames_len [] = 0"
  "frames_len (f # fs) = frame_len f + frames_len fs"
  "frames_len (fs @ gs) = frames_len fs + frames_len gs"
  by (simp_all add: frames_len_def)

lemma frame_len_need: "frame_len f \<le> frame_need f"
  by (cases f) auto

lemma frames_fit_len: "frames_fit B fs \<Longrightarrow> frames_len fs \<le> B"
  using frame_len_need by (cases fs) (auto intro: le_trans add_right_mono)

lemma frame_step_fit:
  "frame_step P p f s = (r, gs, e) \<Longrightarrow> frames_fit B (f # fs) \<Longrightarrow> frames_fit B (gs @ fs)"
  by (cases f) (auto simp: press_frames_def click_frames_def shoot_frames_def split: if_splits)

lemma frames_process_fit:
  "frames_process P p fs s = (fs', e) \<Longrightarrow> frames_fit B fs \<Longrightarrow> frames_fit B fs'"
proof (induction P p fs s arbitrary: fs' e rule: frames_process.induct)
  case (2 P p f fs s)
  obtain r gs e1 where st: "frame_step P p f s = (r, gs, e1)" by (cases "frame_step P p f s") auto
  have "frames_fit B (gs @ fs)" using frame_step_fit [OF st "2.prems"(2)] .
  with 2 st show ?case by (auto split: if_splits)
qed simp

section \<open>Frames as words\<close>

fun encode :: "'b as_code \<Rightarrow> frame \<Rightarrow> u32 list" where
  "encode M (FSleep d) = [d, fn_addr M AS_SLEEP, AS_FUNC_ENTRY]"
| "encode M (FPress k) = [k, fn_addr M AS_PRESS, AS_FUNC_ENTRY]"
| "encode M (FRelease k) = [k, fn_addr M AS_RELEASE, AS_FUNC_ENTRY]"
| "encode M (FWaitDone r) = [r, fn_addr M AS_WAIT_SHOOTING_DONE, AS_FUNC_ENTRY]"
| "encode M FWaitFlash = [fn_addr M AS_WAIT_FLASH, AS_FUNC_ENTRY]"
| "encode M (FWaitProgress t r) = [r, t, fn_addr M AS_WAIT_SHOOTING_IN_PROGRESS, AS_FUNC_ENTRY]"
| "encode M FShoot = [fn_addr M AS_SHOOT, AS_FUNC_ENTRY]"

fun func_of :: "frame \<Rightarrow> action_func" where
  "func_of (FSleep d) = AS_SLEEP"
| "func_of (FPress k) = AS_PRESS"
| "func_of (FRelease k) = AS_RELEASE"
| "func_of (FWaitDone r) = AS_WAIT_SHOOTING_DONE"
| "func_of FWaitFlash = AS_WAIT_FLASH"
| "func_of (FWaitProgress t r) = AS_WAIT_SHOOTING_IN_PROGRESS"
| "func_of FShoot = AS_SHOOT"

fun stack_words :: "'b as_code \<Rightarrow> frame list \<Rightarrow> u32 list" where
  "stack_words M [] = []"
| "stack_words M (f # fs) = stack_words M fs @ encode M f"

lemma length_encode [simp]: "length (encode M f) = frame_len f"
  by (cases f) auto

lemma length_stack_words [simp]: "length (stack_words M fs) = frames_len fs"
  by (induction fs) auto

lemma stack_words_append [simp]: "stack_words M (fs @ gs) = stack_words M gs @ stack_words M fs"
  by (induction fs) auto

definition holds :: "u32 list \<Rightarrow> action_stack_t \<Rightarrow> bool" where
  "holds ws n \<longleftrightarrow> stack_ptr n = int (length ws) - 1 \<and> length ws \<le> 48 \<and>
     (\<forall>i < length ws. stack n (int i) = ws ! i)"

definition on_top :: "nat \<Rightarrow> u32 list \<Rightarrow> 'a as_state_scheme \<Rightarrow> bool" where
  "on_top p ws s \<longleftrightarrow> active_stack s = Some p \<and> holds ws (as_nodes s p)"

text \<open>Equal but for the words of the stack at \<open>p\<close>.\<close>

definition same_but_words :: "nat \<Rightarrow> 'a as_state_scheme \<Rightarrow> 'a as_state_scheme \<Rightarrow> bool" where
  "same_but_words p s t \<longleftrightarrow>
     (\<exists>st sp. s = upd_node p (\<lambda>n. n\<lparr>stack_ptr := sp, stack := st\<rparr>) t)"

section \<open>The word operations on a stack that holds given words\<close>

lemma upd_node_simps [simp]:
  "active_stack (upd_node p g s) = active_stack s"
  "action_stacks (upd_node p g s) = action_stacks s"
  "free_stacks (upd_node p g s) = free_stacks s"
  "tick_count (upd_node p g s) = tick_count s"
  "shooting_busy (upd_node p g s) = shooting_busy s"
  "flash_ready (upd_node p g s) = flash_ready s"
  "mode_video (upd_node p g s) = mode_video s"
  "state_shooting_progress (upd_node p g s) = state_shooting_progress s"
  "conf_script_shoot_delay (upd_node p g s) = conf_script_shoot_delay s"
  "ext_calls (upd_node p g s) = ext_calls s"
  "as_nodes (upd_node p g s) q = (if q = p then g (as_nodes s p) else as_nodes s q)"
  "upd_node p g (upd_node p h s) = upd_node p (\<lambda>n. g (h n)) s"
  by (simp_all add: upd_node_def)

lemma same_but_words_refl [simp]: "same_but_words p s s"
  unfolding same_but_words_def upd_node_def
  by (rule exI [of _ "stack (as_nodes s p)"], rule exI [of _ "stack_ptr (as_nodes s p)"]) simp

lemma same_but_words_trans:
  "same_but_words p s t \<Longrightarrow> same_but_words p t u \<Longrightarrow> same_but_words p s u"
  unfolding same_but_words_def by clarsimp blast

lemma same_but_words_push:
  "same_but_words p (upd_node p (\<lambda>n. n\<lparr>stack_ptr := i, stack := f n\<rparr>) s) s"
  unfolding same_but_words_def upd_node_def
  by (rule exI [of _ "f (as_nodes s p)"], rule exI [of _ i]) simp

lemma same_but_words_pop:
  "same_but_words p (upd_node p (\<lambda>n. n\<lparr>stack_ptr := i\<rparr>) s) s"
  unfolding same_but_words_def upd_node_def
  by (rule exI [of _ "stack (as_nodes s p)"], rule exI [of _ i]) simp

lemma push_holds:
  assumes "on_top p ws s" and "length ws < 48"
  shows "\<exists>s'. action_push v s = Some s' \<and> on_top p (ws @ [v]) s' \<and> same_but_words p s' s"
proof -
  let ?i = "stack_ptr (as_nodes s p) + 1"
  let ?s' = "upd_node p (\<lambda>n. n\<lparr>stack_ptr := ?i, stack := (stack n)(?i := v)\<rparr>) s"
  have "action_push v s = Some ?s'"
    using assms
    by (simp add: action_push_def on_top_def holds_def in_stack_def ACTION_STACK_SIZE_def Let_def)
  moreover have "on_top p (ws @ [v]) ?s'"
    using assms by (auto simp: on_top_def holds_def nth_append)
  ultimately show ?thesis by (simp add: same_but_words_push)
qed

fun action_push_list :: "u32 list \<Rightarrow> 'a as_state_scheme \<Rightarrow> 'a as_state_scheme option" where
  "action_push_list [] s = Some s"
| "action_push_list (v # vs) s = do { s1 \<leftarrow> action_push v s; action_push_list vs s1 }"

lemma push_list_holds:
  "on_top p ws s \<Longrightarrow> length ws + length vs \<le> 48 \<Longrightarrow>
   \<exists>s'. action_push_list vs s = Some s' \<and> on_top p (ws @ vs) s' \<and> same_but_words p s' s"
proof (induction vs arbitrary: ws s)
  case (Cons v vs)
  obtain s1 where s1: "action_push v s = Some s1" "on_top p (ws @ [v]) s1" "same_but_words p s1 s"
    using push_holds [OF Cons.prems(1), of v] Cons.prems(2) by auto
  obtain s2 where "action_push_list vs s1 = Some s2" "on_top p ((ws @ [v]) @ vs) s2"
      "same_but_words p s2 s1"
    using Cons.IH [OF s1(2)] Cons.prems(2) by auto
  with s1 show ?case by (auto intro: same_but_words_trans)
qed simp

lemma push_list_append:
  "action_push_list (vs @ ws) s = Option.bind (action_push_list vs s) (action_push_list ws)"
  by (induction vs arbitrary: s) (simp_all cong: Option.bind_cong)

lemma push_list_Nil [simp]: "action_push_list [] = Some"
  by (rule ext) simp

lemma push_list_one [simp]: "action_push_list [v] = action_push v"
  by (rule ext) simp

lemma push_func_list:
  "action_push_func M f s = action_push_list [fn_addr M f, AS_FUNC_ENTRY] s"
  by (simp add: action_push_func_def)

lemma push_delay_list: "action_push_delay M d s = action_push_list (encode M (FSleep d)) s"
  by (simp add: action_push_delay_def push_func_list cong: Option.bind_cong)

lemma push_press_list:
  "action_push_press P M k s = action_push_list (stack_words M (press_frames P k)) s"
  by (simp add: action_push_press_def push_delay_list push_func_list press_frames_def
      Option.bind_assoc cong: Option.bind_cong)

lemma push_release_list:
  "action_push_release P M k s =
   action_push_list (stack_words M [FRelease k, FSleep (cam_key_release_delay P)]) s"
  by (simp add: action_push_release_def push_delay_list push_func_list Option.bind_assoc
      cong: Option.bind_cong)

lemma push_click_list:
  "action_push_click P M k s = action_push_list (stack_words M (click_frames P k)) s"
  by (simp add: action_push_click_def push_release_list push_press_list click_frames_def
      push_list_append Option.bind_assoc cong: Option.bind_cong)

lemma push_tick: "action_push v s = Some s' \<Longrightarrow> tick_count s' = tick_count s"
  by (auto simp: action_push_def Let_def split: option.splits if_splits)

lemma push_shoot_list:
  "action_push_shoot P M r s =
   action_push_list (stack_words M (shoot_frames P (tick_count s) r))
     (s\<lparr>state_shooting_progress := SHOOTING_PROGRESS_NONE\<rparr>)"
  by (auto simp: action_push_shoot_def push_press_list push_func_list shoot_frames_def
      push_list_append Option.bind_assoc push_tick intro!: Option.bind_cong)

lemma top_holds:
  "on_top p ws s \<Longrightarrow> k < length ws \<Longrightarrow> action_top (int k) s = Some (ws ! (length ws - 1 - k))"
proof -
  assume h: "on_top p ws s" "k < length ws"
  define j where "j = length ws - 1 - k"
  have i: "stack_ptr (as_nodes s p) - int k = int j" and j: "j < length ws" and j48: "int j < 48"
    using h by (auto simp: on_top_def holds_def j_def)
  have "stack (as_nodes s p) (int j) = ws ! j"
    using h j by (simp add: on_top_def holds_def)
  then have "action_top (int k) s = Some (ws ! j)"
    using h j48 by (simp add: action_top_def on_top_def Let_def i in_stack_def ACTION_STACK_SIZE_def)
  then show ?thesis by (simp add: j_def)
qed

lemma pop_holds:
  assumes "on_top p (ws @ [v]) s"
  shows "\<exists>s'. action_pop s = Some (v, s') \<and> on_top p ws s' \<and> same_but_words p s' s"
proof -
  let ?i = "stack_ptr (as_nodes s p)"
  let ?s' = "upd_node p (\<lambda>n. n\<lparr>stack_ptr := ?i - 1\<rparr>) s"
  have "action_pop s = Some (v, ?s')"
    using assms by (auto simp: action_pop_def on_top_def holds_def in_stack_def
        ACTION_STACK_SIZE_def nth_append)
  moreover have "on_top p ws ?s'"
    using assms by (auto simp: on_top_def holds_def nth_append)
  ultimately show ?thesis by (simp add: same_but_words_pop)
qed

lemma pops_holds:
  "on_top p (ws @ vs) s \<Longrightarrow>
   \<exists>s'. action_pops (length vs) s = Some s' \<and> on_top p ws s' \<and> same_but_words p s' s"
proof (induction vs arbitrary: s rule: rev_induct)
  case (snoc v vs)
  obtain s1 where s1: "action_pop s = Some (v, s1)" "on_top p (ws @ vs) s1" "same_but_words p s1 s"
    using pop_holds [of p "ws @ vs" v s] snoc.prems by auto
  with snoc.IH [OF s1(2)] show ?case by (auto intro: same_but_words_trans)
qed simp

lemma pop_func_holds:
  assumes "on_top p (ws @ v # vs) s" and "length vs = n + 1"
  shows "\<exists>s'. action_pop_func n s = Some (v, s') \<and> on_top p ws s' \<and> same_but_words p s' s"
proof -
  obtain s1 where s1: "action_pops (n + 1) s = Some s1" "on_top p (ws @ [v]) s1"
      "same_but_words p s1 s"
    using pops_holds [of p "ws @ [v]" vs s] assms by auto
  with pop_holds [OF s1(2)] show ?thesis
    by (auto simp: action_pop_func_def intro: same_but_words_trans)
qed

section \<open>Each action function implements its frame\<close>

lemma same_but_words_fields:
  assumes "same_but_words p s t"
  shows "tick_count s = tick_count t" "shooting_busy s = shooting_busy t"
    "state_shooting_progress s = state_shooting_progress t"
    "conf_script_shoot_delay s = conf_script_shoot_delay t"
    "active_stack s = active_stack t" "action_stacks s = action_stacks t"
    "free_stacks s = free_stacks t"
    "delay_target_ticks (as_nodes s p) = delay_target_ticks (as_nodes t p)"
    "comp_id (as_nodes s q) = comp_id (as_nodes t q)"
  using assms by (auto simp: same_but_words_def)

lemma commute_upd_node:
  "kbd_key_press P k (upd_node p g s) = upd_node p g (kbd_key_press P k s)"
  "kbd_key_release P k (upd_node p g s) = upd_node p g (kbd_key_release P k s)"
  "ext_call c (upd_node p g s) = upd_node p g (ext_call c s)"
  "(upd_node p g s)\<lparr>state_shooting_progress := i\<rparr> = upd_node p g (s\<lparr>state_shooting_progress := i\<rparr>)"
  by (auto simp: upd_node_def kbd_key_press_def kbd_key_release_def ext_call_def split: option.splits)

lemma same_but_words_ops:
  assumes "same_but_words p s t"
  shows "same_but_words p (kbd_key_press P k s) (kbd_key_press P k t)"
    "same_but_words p (kbd_key_release P k s) (kbd_key_release P k t)"
    "same_but_words p (ext_call c s) (ext_call c t)"
    "same_but_words p (s\<lparr>state_shooting_progress := i\<rparr>) (t\<lparr>state_shooting_progress := i\<rparr>)"
  using assms unfolding same_but_words_def
  by (clarsimp simp only: commute_upd_node, blast)+

lemma on_top_ops [simp]:
  "on_top p ws (kbd_key_press P k s) = on_top p ws s"
  "on_top p ws (kbd_key_release P k s) = on_top p ws s"
  "on_top p ws (ext_call c s) = on_top p ws s"
  "on_top p ws (s\<lparr>state_shooting_progress := i\<rparr>) = on_top p ws s"
  by (auto simp: on_top_def kbd_key_press_def kbd_key_release_def ext_call_def split: option.splits)

lemma on_top_set_delay [simp]: "on_top p ws (set_delay p t s) = on_top p ws s"
  by (simp add: on_top_def set_delay_def holds_def)

definition implements ::
  "'b as_code \<Rightarrow> nat \<Rightarrow> frame list \<Rightarrow> (int \<times> 'a as_state_scheme) option \<Rightarrow>
   int \<times> frame list \<times> 'a as_state_scheme \<Rightarrow> bool" where
  "implements M p fs res spec \<longleftrightarrow>
     (case spec of (r, gs, e) \<Rightarrow>
        \<exists>s'. res = Some (r, s') \<and> on_top p (stack_words M (gs @ fs)) s' \<and> same_but_words p s' e)"

lemma pop_frame:
  assumes "on_top p (stack_words M (f # fs)) s"
  shows "\<exists>s'. action_pop_func (frame_len f - 2) s = Some (hd (encode M f), s') \<and>
    on_top p (stack_words M fs) s' \<and> same_but_words p s' s"
proof -
  obtain vs where vs: "encode M f = hd (encode M f) # vs" and len: "length vs = (frame_len f - 2) + 1"
    by (cases f) auto
  have "on_top p (stack_words M fs @ hd (encode M f) # vs) s"
    using assms vs by simp
  from pop_func_holds [OF this len] show ?thesis .
qed

lemma implements_press:
  assumes "on_top p (stack_words M (FPress k # fs)) s"
  shows "implements M p fs (action_stack_AS_PRESS P s) (frame_step P p (FPress k) s)"
  using pop_frame [OF assms]
  by (auto simp: implements_def action_stack_AS_PRESS_def intro: same_but_words_ops)

lemma implements_release:
  assumes "on_top p (stack_words M (FRelease k # fs)) s"
  shows "implements M p fs (action_stack_AS_RELEASE P s) (frame_step P p (FRelease k) s)"
  using pop_frame [OF assms]
  by (auto simp: implements_def action_stack_AS_RELEASE_def intro: same_but_words_ops)

lemma implements_wait_flash:
  assumes "on_top p (stack_words M (FWaitFlash # fs)) s"
  shows "implements M p fs (action_stack_AS_WAIT_FLASH s) (frame_step P p FWaitFlash s)"
  using pop_frame [OF assms] assms
  by (auto simp: implements_def action_stack_AS_WAIT_FLASH_def)

lemma implements_sleep:
  assumes "on_top p (stack_words M (FSleep d # fs)) s"
  shows "implements M p fs (action_stack_AS_SLEEP s) (frame_step P p (FSleep d) s)"
proof -
  have act: "active_stack s = Some p" using assms by (simp add: on_top_def)
  have top: "action_top 2 s = Some d"
    using top_holds [OF assms, of 2] by (simp add: nth_append)
  have "on_top p (stack_words M fs @ d # [fn_addr M AS_SLEEP, AS_FUNC_ENTRY]) (set_delay p 0 s)"
    using assms by simp
  from pop_func_holds [OF this, of 1] obtain s' where
    s': "action_pop_func 1 (set_delay p 0 s) = Some (d, s')" "on_top p (stack_words M fs) s'"
      "same_but_words p s' (set_delay p 0 s)" by auto
  show ?thesis
    using assms act top s'
    by (auto simp: implements_def action_stack_AS_SLEEP_def action_process_delay_def
        action_pop_delay_def set_delay_def [symmetric])
qed

lemma implements_shoot:
  assumes top: "on_top p (stack_words M (FShoot # fs)) s" and fit: "frames_fit 48 (FShoot # fs)"
  shows "implements M p fs (action_stack_AS_SHOOT P M s) (frame_step P p FShoot s)"
proof -
  obtain s1 where s1: "action_pop_func 0 s = Some (fn_addr M AS_SHOOT, s1)"
      "on_top p (stack_words M fs) s1" "same_but_words p s1 s"
    using pop_frame [OF top] by auto
  let ?t = "s1\<lparr>state_shooting_progress := SHOOTING_PROGRESS_NONE\<rparr>"
  have "on_top p (stack_words M fs) ?t" using s1 by simp
  from push_list_holds [OF this, of "stack_words M (shoot_frames P (tick_count s) 1)"]
  obtain s2 where "action_push_list (stack_words M (shoot_frames P (tick_count s) 1)) ?t = Some s2"
      "on_top p (stack_words M (shoot_frames P (tick_count s) 1 @ fs)) s2" "same_but_words p s2 ?t"
    using fit by (auto simp: shoot_frames_def press_frames_def)
  with s1 show ?thesis
    by (auto simp: implements_def action_stack_AS_SHOOT_def push_shoot_list same_but_words_fields(1)
        intro: same_but_words_trans same_but_words_ops)
qed

lemma implements_wait_progress:
  assumes top: "on_top p (stack_words M (FWaitProgress t r # fs)) s"
    and fit: "frames_fit 48 (FWaitProgress t r # fs)"
  shows "implements M p fs (action_stack_AS_WAIT_SHOOTING_IN_PROGRESS P M s)
    (frame_step P p (FWaitProgress t r) s)"
proof -
  have t2: "action_top 2 s = Some t" and t3: "action_top 3 s = Some r"
    using top_holds [OF top, of 2] top_holds [OF top, of 3] by (simp_all add: nth_append)
  obtain s1 where s1: "action_pop_func 2 s = Some (r, s1)"
      "on_top p (stack_words M fs) s1" "same_but_words p s1 s"
    using pop_frame [OF top] by (auto simp: numeral_2_eq_2)
  let ?gs = "FWaitFlash # click_frames P (word_of_int KEY_SHOOT_FULL) @ [FWaitDone r]"
  obtain s2 where s2: "action_push_list (stack_words M ?gs) s1 = Some s2"
      "on_top p (stack_words M (?gs @ fs)) s2" "same_but_words p s2 s1"
    using push_list_holds [OF s1(2), of "stack_words M ?gs"] fit
    by (auto simp: click_frames_def press_frames_def)
  have pushes: "Option.bind (action_push r s1) (\<lambda>s2.
      Option.bind (action_push_func M AS_WAIT_SHOOTING_DONE s2) (\<lambda>s3.
      Option.bind (action_push_click P M (word_of_int KEY_SHOOT_FULL) s3) (\<lambda>s4.
      Option.bind (action_push_func M AS_WAIT_FLASH s4) (\<lambda>s5. Some (1 :: int, s5))))) =
      Option.bind (action_push_list (stack_words M ?gs) s1) (\<lambda>s5. Some (1, s5))"
    by (simp add: push_func_list push_click_list push_list_append Option.bind_assoc
        cong: Option.bind_cong)
  show ?thesis
    using t2 t3 top s1 s2 pushes
    by (auto simp: implements_def action_stack_AS_WAIT_SHOOTING_IN_PROGRESS_def
        intro: same_but_words_trans same_but_words_ops)
qed

lemma implements_wait_done:
  assumes top: "on_top p (stack_words M (FWaitDone r # fs)) s"
    and fit: "frames_fit 48 (FWaitDone r # fs)"
  shows "implements M p fs (action_stack_AS_WAIT_SHOOTING_DONE P M s) (frame_step P p (FWaitDone r) s)"
proof -
  obtain s1 where s1: "action_pop_func 1 s = Some (r, s1)"
      "on_top p (stack_words M fs) s1" "same_but_words p s1 s"
    using pop_frame [OF top] by auto
  note f = same_but_words_fields [OF s1(3)]
  show ?thesis
  proof (cases "shooting_busy s")
    case True
    with top show ?thesis by (simp add: implements_def action_stack_AS_WAIT_SHOOTING_DONE_def)
  next
    case idle: False
    show ?thesis
    proof (cases "state_shooting_progress s = SHOOTING_PROGRESS_NONE \<and> r \<noteq> 0")
      case True
      let ?gs = "FSleep 250 # shoot_frames P (tick_count s) 0"
      let ?t = "s1\<lparr>state_shooting_progress := SHOOTING_PROGRESS_NONE\<rparr>"
      have "on_top p (stack_words M fs) ?t" using s1 by simp
      from push_list_holds [OF this, of "stack_words M ?gs"]
      obtain s2 where s2: "action_push_list (stack_words M ?gs) ?t = Some s2"
          "on_top p (stack_words M (?gs @ fs)) s2" "same_but_words p s2 ?t"
        using fit True by (auto simp: shoot_frames_def press_frames_def)
      have "Option.bind (action_push_shoot P M 0 s1) (action_push_delay M 250) = Some s2"
        using s2(1) f(1) by (simp add: push_shoot_list push_delay_list push_list_append
            cong: Option.bind_cong)
      moreover have "same_but_words p s2 (s\<lparr>state_shooting_progress := SHOOTING_PROGRESS_NONE\<rparr>)"
        using s2(3) s1(3) by (blast intro: same_but_words_trans same_but_words_ops)
      ultimately show ?thesis
        using True idle s1 f s2(2)
        by (auto simp: implements_def action_stack_AS_WAIT_SHOOTING_DONE_def)
    next
      case False
      let ?t = "ext_call (ScriptSetAsRet 0) s1"
      have "on_top p (stack_words M fs) ?t" using s1(2) by (simp only: on_top_ops)
      from push_list_holds [OF this, of "encode M (FSleep (conf_script_shoot_delay s * 100))"]
      obtain s2 where s2:
          "action_push_delay M (conf_script_shoot_delay s * 100) ?t = Some s2"
          "on_top p (stack_words M (FSleep (conf_script_shoot_delay s * 100) # fs)) s2"
          "same_but_words p s2 ?t"
        using fit by (auto simp: push_delay_list split: if_splits)
      moreover have "same_but_words p s2 (ext_call (ScriptSetAsRet 0) s)"
        using s2(3) s1(3) by (blast intro: same_but_words_trans same_but_words_ops)
      moreover have "same_but_words p (ext_call c s1) (ext_call c s)" for c
        using s1(3) by (rule same_but_words_ops)
      ultimately show ?thesis
        using False idle s1 f
        by (auto simp: implements_def action_stack_AS_WAIT_SHOOTING_DONE_def)
    qed
  qed
qed

lemma call_implements:
  assumes "on_top p (stack_words M (f # fs)) s" and "frames_fit 48 (f # fs)"
  shows "implements M p fs (action_call P M (func_of f) s) (frame_step P p f s)"
  using assms
  by (cases f) (simp_all only: action_call_def func_of.simps action_func.case implements_press
      implements_release implements_wait_flash implements_sleep implements_shoot
      implements_wait_progress implements_wait_done)

section \<open>A timeslice of the word machine implements a timeslice of frames\<close>

definition code_ok :: "'b as_code \<Rightarrow> bool" where
  "code_ok M \<longleftrightarrow> list_all (\<lambda>f. fn_at M (fn_addr M f) = Some f)
     [AS_SLEEP, AS_PRESS, AS_RELEASE, AS_WAIT_SHOOTING_DONE, AS_WAIT_FLASH,
      AS_WAIT_SHOOTING_IN_PROGRESS, AS_SHOOT]"

lemma code_ok_func_of: "code_ok M \<Longrightarrow> fn_at M (fn_addr M (func_of f)) = Some (func_of f)"
  by (cases f) (simp_all add: code_ok_def)

lemma set_delay_words:
  "set_delay p x (upd_node p (\<lambda>n. n\<lparr>stack_ptr := sp, stack := st\<rparr>) t) =
   upd_node p (\<lambda>n. n\<lparr>stack_ptr := sp, stack := st\<rparr>) (set_delay p x t)"
  by (cases "as_nodes t p") (simp add: set_delay_def upd_node_def)

lemma frame_step_cong:
  assumes "same_but_words p s t"
  shows "fst (frame_step P p f s) = fst (frame_step P p f t)"
    and "fst (snd (frame_step P p f s)) = fst (snd (frame_step P p f t))"
    and "same_but_words p (snd (snd (frame_step P p f s))) (snd (snd (frame_step P p f t)))"
proof -
  have v: "mode_video s = mode_video t" "flash_ready s = flash_ready t"
    using assms by (auto simp: same_but_words_def)
  have d: "same_but_words p (set_delay p x s) (set_delay p x t)" for x
    using assms unfolding same_but_words_def by (clarsimp simp only: set_delay_words) blast
  note f = same_but_words_fields [OF assms] v
  show "fst (frame_step P p f s) = fst (frame_step P p f t)"
    and "fst (snd (frame_step P p f s)) = fst (snd (frame_step P p f t))"
    by (cases f; simp add: f)+
  show "same_but_words p (snd (snd (frame_step P p f s))) (snd (snd (frame_step P p f t)))"
    by (cases f) (simp_all add: f d same_but_words_ops [OF assms] assms)
qed

lemma encode_split: "\<exists>us. encode M f = us @ [fn_addr M (func_of f), AS_FUNC_ENTRY]"
  by (cases f) auto

lemma top_frame:
  assumes "on_top p (stack_words M (f # fs)) s"
  shows "action_top 0 s = Some AS_FUNC_ENTRY" and "action_top 1 s = Some (fn_addr M (func_of f))"
    and "stack_ptr (as_nodes s p) \<ge> 0" and "active_stack s = Some p"
proof -
  obtain us where us: "encode M f = us @ [fn_addr M (func_of f), AS_FUNC_ENTRY]"
    using encode_split by blast
  have w: "on_top p ((stack_words M fs @ us) @ [fn_addr M (func_of f), AS_FUNC_ENTRY]) s"
    using assms us by simp
  show "action_top 0 s = Some AS_FUNC_ENTRY" "action_top 1 s = Some (fn_addr M (func_of f))"
    using top_holds [OF w, of 0] top_holds [OF w, of 1] by (simp_all add: nth_append)
  show "stack_ptr (as_nodes s p) \<ge> 0" "active_stack s = Some p"
    using w by (auto simp: on_top_def holds_def)
qed

lemma frame_step_waits: "frame_step P p f s = (0, gs, e) \<Longrightarrow> gs = [f]"
  by (cases f) (auto split: if_splits)

definition slice_result :: "nat \<Rightarrow> frame list \<Rightarrow> 'a as_state_scheme \<Rightarrow> 'a as_state_scheme" where
  "slice_result p fs s = (if fs = [] then action_stack_finish p s else s)"

lemma loop_implements:
  "code_ok M \<Longrightarrow> on_top p (stack_words M fs) s \<Longrightarrow> frames_fit 48 fs \<Longrightarrow> same_but_words p s t \<Longrightarrow>
   frames_process P p fs t = (fs', e) \<Longrightarrow> k \<noteq> 0 \<Longrightarrow>
   \<exists>s'. action_stack_process_loop P M k s = Some (slice_result p fs' s') \<and>
     on_top p (stack_words M fs') s' \<and> same_but_words p s' e"
proof (induction P p fs t arbitrary: s k fs' e rule: frames_process.induct)
  case (1 P p t)
  then have "active_stack s = Some p" "stack_ptr (as_nodes s p) < 0"
    by (auto simp: on_top_def holds_def)
  with 1 show ?case
    by (subst action_stack_process_loop.simps) (auto simp: slice_result_def)
next
  case (2 P p f fs t)
  note top = top_frame [OF "2.prems"(2)]
  obtain r gs et where st: "frame_step P p f t = (r, gs, et)" by (cases "frame_step P p f t") auto
  obtain es where ss: "frame_step P p f s = (r, gs, es)" and e1: "same_but_words p es et"
    using frame_step_cong [OF "2.prems"(4), of P f] st by (cases "frame_step P p f s") auto
  obtain s1 where s1: "action_call P M (func_of f) s = Some (r, s1)"
      "on_top p (stack_words M (gs @ fs)) s1" "same_but_words p s1 es"
    using call_implements [OF "2.prems"(2,3), of P] ss by (auto simp: implements_def)
  have s1t: "same_but_words p s1 et" using s1(3) e1 by (rule same_but_words_trans)
  have unfold: "action_stack_process_loop P M k s = action_stack_process_loop P M r s1"
    using top "2.prems"(1,6) s1(1)
    by (subst action_stack_process_loop.simps) (simp add: code_ok_func_of)
  show ?case
  proof (cases "r = 0")
    case True
    with st frame_step_waits [of P p f t] have gs: "gs = [f]" by simp
    with True st "2.prems"(5) have "fs' = f # fs" "e = et" by simp_all
    moreover have "action_stack_process_loop P M 0 s1 = Some s1"
      using top_frame [of p M f fs s1] s1(2) gs
      by (subst action_stack_process_loop.simps) simp
    ultimately show ?thesis
      using unfold True s1(2) s1t gs by (auto simp: slice_result_def)
  next
    case False
    have "frames_fit 48 (gs @ fs)" using frame_step_fit [OF st "2.prems"(3)] .
    moreover have "frames_process P p (gs @ fs) et = (fs', e)"
      using "2.prems"(5) st False by simp
    ultimately show ?thesis
      using "2.IH" [OF st [symmetric] refl False "2.prems"(1) s1(2) _ s1t _ False] unfold
      by simp
  qed
qed

lemma process_implements:
  assumes "code_ok M" and "on_top p (stack_words M fs) s" and "frames_fit 48 fs"
  shows "\<exists>s'. action_stack_process P M s = Some (slice_result p (fst (frames_process P p fs s)) s') \<and>
    on_top p (stack_words M (fst (frames_process P p fs s))) s' \<and>
    same_but_words p s' (snd (frames_process P p fs s))"
  using loop_implements [OF assms, of s P _ _ 1]
  by (cases "frames_process P p fs s") (simp add: action_stack_process_def)

section \<open>Properties\<close>

text \<open>C3: the word machine implements the frame machine. When the 48 words of the active stack
  encode a list of pending actions with room for what they turn into, \<open>action_stack_process\<close>
  returns (its loop stops, no access leaves the array, no call goes astray), the words it leaves
  encode the actions the frame machine leaves, and everything else is as the frame machine
  says; a stack with nothing left to do is released.\<close>

theorem action_stack_process_implements:
  assumes "code_ok M" and "on_top p (stack_words M fs) s" and "frames_fit 48 fs"
  shows "\<exists>s'. action_stack_process P M s = Some (slice_result p (fst (frames_process P p fs s)) s') \<and>
    on_top p (stack_words M (fst (frames_process P p fs s))) s' \<and>
    same_but_words p s' (snd (frames_process P p fs s))"
  using assms by (rule process_implements)

lemma demo_code_ok: "code_ok demo_code"
  by (simp add: code_ok_def demo_code_def)

text \<open>The state right after \<open>action_stack_create(action_stack_AS_SHOOT)\<close>, with that stack active.\<close>

definition shoot_start :: as_state where
  "shoot_start = (snd (action_stack_create demo_code AS_SHOOT as_init))\<lparr>active_stack := Some 0\<rparr>"

lemma create_holds:
  assumes "as_ok s" and "length (action_stacks s) < 5"
  shows "\<exists>p. action_stacks (snd (action_stack_create M AS_SHOOT s)) = p # action_stacks s \<and>
    on_top p (stack_words M [FShoot]) ((snd (action_stack_create M AS_SHOOT s))\<lparr>active_stack := Some p\<rparr>)"
  using assms
  by (auto simp: action_stack_create_def as_ok_def MAX_ACTION_STACKS_def Let_def as_get_block_def
      on_top_def holds_def less_Suc_eq split: list.splits)

lemma shoot_start_holds: "on_top 0 (stack_words demo_code [FShoot]) shoot_start"
  using create_holds [OF as_init_ok, of demo_code]
  by (auto simp: shoot_start_def action_stack_create_def as_get_block_def MAX_ACTION_STACKS_def)

theorem action_stack_process_implements_witness:
  "\<exists>s'. action_stack_process a570_platform demo_code shoot_start =
     Some (slice_result 0 (fst (frames_process a570_platform 0 [FShoot] shoot_start)) s')"
  using action_stack_process_implements [OF demo_code_ok shoot_start_holds, of a570_platform] by auto

definition shoot_stack :: "'b as_code \<Rightarrow> nat \<Rightarrow> 'a as_state_scheme \<Rightarrow> bool" where
  "shoot_stack M p s \<longleftrightarrow> (\<exists>fs. fs \<noteq> [] \<and> frames_fit 17 fs \<and> on_top p (stack_words M fs) s)"

lemma frames_fit_mono: "frames_fit B fs \<Longrightarrow> B \<le> C \<Longrightarrow> frames_fit C fs"
  by (induction fs) auto

text \<open>C34: an automatic shot fits its stack. A stack just created for \<open>action_stack_AS_SHOOT\<close>
  satisfies \<open>shoot_stack\<close>; every timeslice, whatever the clock, the shooting state and the
  settings are when it starts, returns and either releases the stack or leaves it satisfying
  \<open>shoot_stack\<close> again; and a stack that satisfies it uses at most 17 of its 48 words, between
  timeslices. So the unchecked pushes and pops of a shot, its retry included, stay inside the
  array.\<close>

theorem shoot_stack_bounded:
  assumes "code_ok M"
  shows "(as_ok s \<and> length (action_stacks s) < 5 \<longrightarrow>
      (\<exists>p. p \<in> set (action_stacks (snd (action_stack_create M AS_SHOOT s))) \<and>
        shoot_stack M p ((snd (action_stack_create M AS_SHOOT s))\<lparr>active_stack := Some p\<rparr>))) \<and>
    (shoot_stack M p t \<longrightarrow> 0 \<le> stack_ptr (as_nodes t p) \<and> stack_ptr (as_nodes t p) \<le> 16 \<and>
      (\<exists>t'. action_stack_process P M t = Some t' \<and>
        (shoot_stack M p t' \<or> (\<exists>t1. t' = action_stack_finish p t1))))"
proof (intro conjI impI)
  assume "as_ok s \<and> length (action_stacks s) < 5"
  then have ok: "as_ok s" and n: "length (action_stacks s) < 5" by auto
  from create_holds [OF ok n, of M] obtain q where
    q: "action_stacks (snd (action_stack_create M AS_SHOOT s)) = q # action_stacks s"
       "on_top q (stack_words M [FShoot]) ((snd (action_stack_create M AS_SHOOT s))\<lparr>active_stack := Some q\<rparr>)"
    by blast
  from q(2) have "shoot_stack M q ((snd (action_stack_create M AS_SHOOT s))\<lparr>active_stack := Some q\<rparr>)"
    unfolding shoot_stack_def by (intro exI [of _ "[FShoot]"]) simp
  with q(1) show "\<exists>p. p \<in> set (action_stacks (snd (action_stack_create M AS_SHOOT s))) \<and>
      shoot_stack M p ((snd (action_stack_create M AS_SHOOT s))\<lparr>active_stack := Some p\<rparr>)"
    by auto
next
  assume "shoot_stack M p t"
  then obtain fs where fs: "fs \<noteq> []" "frames_fit 17 fs" "on_top p (stack_words M fs) t"
    by (auto simp: shoot_stack_def)
  show "0 \<le> stack_ptr (as_nodes t p)"
    using fs(1,3) top_frame(3) by (cases fs) auto
  show "stack_ptr (as_nodes t p) \<le> 16"
    using fs(3) frames_fit_len [OF fs(2)] by (simp add: on_top_def holds_def)
  obtain fs' e where r: "frames_process P p fs t = (fs', e)" by fastforce
  have fit': "frames_fit 17 fs'" using frames_process_fit [OF r fs(2)] .
  have "frames_fit 48 fs" using fs(2) frames_fit_mono by fastforce
  from process_implements [OF assms fs(3) this, of P] r
  obtain t' where t': "action_stack_process P M t = Some (slice_result p fs' t')"
      "on_top p (stack_words M fs') t'" by auto
  then show "\<exists>t'. action_stack_process P M t = Some t' \<and>
      (shoot_stack M p t' \<or> (\<exists>t1. t' = action_stack_finish p t1))"
    using fit' by (auto simp: slice_result_def shoot_stack_def)
qed

theorem shoot_stack_bounded_witness:
  "\<exists>t'. action_stack_process a570_platform demo_code shoot_start = Some t'"
proof -
  have "shoot_stack demo_code 0 shoot_start"
    unfolding shoot_stack_def using shoot_start_holds by (intro exI [of _ "[FShoot]"]) simp
  then show ?thesis
    using shoot_stack_bounded [OF demo_code_ok, of as_init 0 shoot_start a570_platform] by blast
qed

fun owes_status :: "frame \<Rightarrow> nat" where
  "owes_status (FWaitDone r) = 1"
| "owes_status (FWaitProgress t r) = 1"
| "owes_status FShoot = 1"
| "owes_status _ = 0"

definition owed :: "frame list \<Rightarrow> nat" where
  "owed fs = sum_list (map owes_status fs)"

definition is_status :: "ext_call \<Rightarrow> bool" where
  "is_status c \<longleftrightarrow> (case c of ScriptSetAsRet _ \<Rightarrow> True | _ \<Rightarrow> False)"

definition status_reports :: "'a as_state_scheme \<Rightarrow> nat" where
  "status_reports s = length (filter is_status (ext_calls s))"

lemma key_reports [simp]:
  "status_reports (kbd_key_press P k s) = status_reports s"
  "status_reports (kbd_key_release P k s) = status_reports s"
  by (auto simp: status_reports_def kbd_key_press_def kbd_key_release_def is_status_def
      split: option.splits)

lemma other_reports [simp]:
  "status_reports (upd_node p g s) = status_reports s"
  "status_reports (ext_call c s) = status_reports s + (if is_status c then 1 else 0)"
  "status_reports (s\<lparr>state_shooting_progress := i\<rparr>) = status_reports s"
  by (simp_all add: status_reports_def upd_node_def)

lemma frame_step_owed:
  "frame_step P p f s = (r, gs, e) \<Longrightarrow> owed gs + status_reports e = owes_status f + status_reports s"
  by (cases f) (auto simp: owed_def press_frames_def click_frames_def shoot_frames_def set_delay_def
      is_status_def split: if_splits)

lemma frames_process_owed:
  "frames_process P p fs s = (fs', e) \<Longrightarrow> owed fs' + status_reports e = owed fs + status_reports s"
proof (induction P p fs s arbitrary: fs' e rule: frames_process.induct)
  case (2 P p f fs s)
  obtain r gs e1 where st: "frame_step P p f s = (r, gs, e1)" by (cases "frame_step P p f s") auto
  have "owed (gs @ fs) + status_reports e1 = owed (f # fs) + status_reports s"
    using frame_step_owed [OF st] by (simp add: owed_def)
  with 2 st show ?case by (auto split: if_splits)
qed simp

lemma finish_reports [simp]: "status_reports (action_stack_finish p s) = status_reports s"
  by (simp add: action_stack_finish_def status_reports_def)

lemma slice_reports [simp]: "status_reports (slice_result p fs s) = status_reports s"
  by (simp add: slice_result_def)

text \<open>A shot reports exactly one status. Count the status reports (\<open>set_as_ret\<close>) in the log
  and the actions on the stack that still owe one: a timeslice does not change their sum,
  whatever it does (half press, waiting, full press, the retry of a failed shot, the timeout). So when
  a stack that owes one report is released, exactly one report has been made.\<close>

theorem shot_reports_once:
  assumes "code_ok M" and "on_top p (stack_words M fs) s" and "frames_fit 48 fs"
  shows "\<exists>s' fs'. action_stack_process P M s = Some s' \<and>
    owed fs' + status_reports s' = owed fs + status_reports s \<and>
    (if fs' = [] then status_reports s' = owed fs + status_reports s
     else on_top p (stack_words M fs') s')"
proof -
  obtain fs' e where r: "frames_process P p fs s = (fs', e)" by fastforce
  from process_implements [OF assms, of P] r obtain s1 where
    s1: "action_stack_process P M s = Some (slice_result p fs' s1)"
        "on_top p (stack_words M fs') s1" "same_but_words p s1 e" by auto
  have "status_reports s1 = status_reports e"
    using s1(3) by (auto simp: same_but_words_def)
  with frames_process_owed [OF r] s1 show ?thesis
    by (intro exI [of _ "slice_result p fs' s1"] exI [of _ fs'])
      (auto simp: owed_def slice_result_def)
qed

theorem shot_reports_once_witness:
  "\<exists>s' fs'. action_stack_process a570_platform demo_code shoot_start = Some s' \<and>
    owed fs' + status_reports s' = 1"
  using shot_reports_once [OF demo_code_ok shoot_start_holds, of a570_platform]
  by (auto simp: owed_def status_reports_def shoot_start_def action_stack_create_def as_get_block_def
      MAX_ACTION_STACKS_def)

end
