(* ===== verification/UsbRemote.thy ===== *)
theory UsbRemote
  imports ActionFrames
begin

text \<open>
  \<open>core/usb_remote.c\<close>: the state of the USB remote, the measuring of pulses on the USB power
  line (\<open>usb_remote_key\<close>, run every timeslice or by the high precision timer), the ring buffer of
  pulse and gap lengths, and the interface by which scripts and control modules read them. The
  main routine \<open>handle_usb_remote\<close> is in \<open>UsbModule\<close>, after the drivers and modules it jumps to.
  Constants and enumerations are \<open>core/usb_remote.h\<close>'s; \<open>USB_REMOTE_DEBUGGING\<close> and
  \<open>USB_REMOTE_RECORD\<close> are undefined there, so \<open>debug_error\<close> does nothing.
\<close>

section \<open>Enumerations and state\<close>

datatype virtual_remote = REMOTE_RESET | REMOTE_RELEASE | REMOTE_HALF_PRESS | REMOTE_FULL_PRESS

datatype driver_st = SW_RESET | SW_IDLE | SW_POWER_CONNECT | SW_POWER_ON | SW_POWER_DISCONNECT
  | SW_FULL_PRESS_ACTIVE | SW_SHORT_PRESS | SW_CANCEL_PULSE | SW_HALF_PRESS | SW_FULL_PRESS
  | SW_FULL_PRESS_RESET | SW_PRESS | SW_RELEASE | SW_CANCEL
  | SW_CA1_1XX | SW_CA1_10X | SW_CA1_100 | SW_CA1_101 | SW_CA1_11

datatype logic_module_st = LM_RESET | LM_RELEASE | LM_HALF_PRESS | LM_FULL_PRESS | LM_START_RECORD
  | LM_RECORDING | LM_STOP_RECORDING | LM_KEY_PRESS

datatype camera_mode_t = CAMERA_MODE_SHOOTING | CAMERA_MODE_PLAYBACK | CAMERA_MODE_VIDEO

datatype usb_pwr_query = SINGLE_PULSE | USB_STATE | BUFFERED_PULSE | PULSE_COUNT | LM_PULSE_COUNT
  | HPTIMER_ERROR_COUNT

text \<open>\<open>switch_type\<close> and \<open>control_module\<close> are set from configuration integers, so they are kept as such.\<close>

definition SW_NONE :: int where "SW_NONE = 0"
definition SW_ONE_PRESS :: int where "SW_ONE_PRESS = 1"
definition SW_TWO_PRESS :: int where "SW_TWO_PRESS = 2"
definition SW_RICOH_CA1 :: int where "SW_RICOH_CA1 = 3"
definition USB_POWER_OFF :: int where "USB_POWER_OFF = 0"
definition USB_POWER_ON :: int where "USB_POWER_ON = 1"
definition REMOTE_CLICK_TIME :: int where "REMOTE_CLICK_TIME = 100"
definition DEBOUNCE_TIME :: int where "DEBOUNCE_TIME = 10"
definition FULL_PRESS_PULSE_TIME :: int where "FULL_PRESS_PULSE_TIME = 1000"
definition MAX_FULL_PRESS_DELAY :: int where "MAX_FULL_PRESS_DELAY = 1000"
definition BRACKETING_TIMEOUT :: u32 where "BRACKETING_TIMEOUT = 10000"
definition USB_BUFFER_SIZE :: nat where "USB_BUFFER_SIZE = 16"

lemmas usb_constants = SW_NONE_def SW_ONE_PRESS_def SW_TWO_PRESS_def SW_RICOH_CA1_def
  USB_POWER_OFF_def USB_POWER_ON_def REMOTE_CLICK_TIME_def DEBOUNCE_TIME_def
  FULL_PRESS_PULSE_TIME_def MAX_FULL_PRESS_DELAY_def BRACKETING_TIMEOUT_def USB_BUFFER_SIZE_def

text \<open>
  The globals of the file and, at the end, the \<open>static\<close> variables of the driver and module
  functions. The two pointers into \<open>usb_buffer\<close> are indices.
\<close>

record usb_remote = as_state +
  usb_sync_wait_flag :: int
  usb_remote_active :: int
  bracketing_timeout :: u32
  usb_power :: int
  usb_count :: int
  logic_module_usb_count :: int
  remote_mark_count :: int
  remote_space_count :: int
  pulse_count :: int
  usb_buffer :: "nat \<Rightarrow> int"
  usb_buffer_in :: nat
  usb_buffer_out :: nat
  switch_type :: int
  control_module :: int
  virtual_remote_state :: virtual_remote
  driver_state :: driver_st
  logic_module_state :: logic_module_st
  usb_state :: int
  camera_mode :: camera_mode_t
  rmt_enabled :: bool
  usb_HPtimer_handle :: int
  usb_HPtimer_error_count :: int
  one_press_time :: u32
  two_press_time :: u32
  ricoh_time :: u32
  playback_time :: u32
  playback_direction :: bool
  normal_stack_name :: u32
  quick_stack_name :: u32
  burst_stack_name :: u32
  zoom_stack_name :: u32

section \<open>The ring buffer\<close>

definition ring_next :: "nat \<Rightarrow> nat" where
  "ring_next i = (if i + 1 > USB_BUFFER_SIZE - 1 then 0 else i + 1)"

definition usb_buffer_insert :: "int \<Rightarrow> 'a usb_remote_scheme \<Rightarrow> 'a usb_remote_scheme" where
  "usb_buffer_insert value s =
     (let i = ring_next (usb_buffer_in s);
          out = (if i = usb_buffer_out s then ring_next (usb_buffer_out s) else usb_buffer_out s)
      in s\<lparr>usb_buffer_in := i, usb_buffer_out := out, usb_buffer := (usb_buffer s)(i := value)\<rparr>)"

section \<open>Measuring pulses\<close>

definition usb_remote_key :: "'a usb_remote_scheme \<Rightarrow> 'a usb_remote_scheme" where
  "usb_remote_key s0 =
     (let s = s0\<lparr>usb_state := remote_state_in s0\<rparr> in
      if conf_remote_enable s = 0 then s
      else if usb_state s \<noteq> 0 then
        let s1 = (if remote_mark_count s < 30000
                  then s\<lparr>remote_mark_count := remote_mark_count s + 1\<rparr> else s)
        in if remote_space_count s1 \<noteq> 0
           then (usb_buffer_insert (remote_space_count s1) s1)\<lparr>remote_space_count := 0\<rparr>
           else s1
      else
        let s1 = (if remote_space_count s > -30000
                  then s\<lparr>remote_space_count := remote_space_count s - 1\<rparr> else s);
            s2 = (if remote_mark_count s1 \<noteq> 0
                  then (usb_buffer_insert (remote_mark_count s1)
                         (s1\<lparr>pulse_count := pulse_count s1 + 1, usb_power := remote_mark_count s1\<rparr>))
                       \<lparr>remote_mark_count := 0, kbd_last_clicked := 0xFF,
                        kbd_last_clicked_time := tick_count s1\<rparr>
                  else s1)
        in if remote_space_count s2 < -50 \<and> pulse_count s2 > 0
           then s2\<lparr>usb_count := pulse_count s2, logic_module_usb_count := pulse_count s2,
                   pulse_count := 0\<rparr>
           else s2)"

text \<open>The timer callbacks. \<open>start_usb_HPtimer\<close> is the platform's.\<close>

definition usb_HPtimer_good :: "int \<Rightarrow> int \<Rightarrow> 'a usb_remote_scheme \<Rightarrow> 'a usb_remote_scheme" where
  "usb_HPtimer_good time interval s =
     usb_remote_key (ext_call (StartUsbHPtimer interval) (s\<lparr>usb_HPtimer_handle := 0\<rparr>))"

definition usb_HPtimer_bad :: "int \<Rightarrow> int \<Rightarrow> 'a usb_remote_scheme \<Rightarrow> 'a usb_remote_scheme" where
  "usb_HPtimer_bad time interval s =
     usb_HPtimer_good time interval
       (s\<lparr>usb_HPtimer_error_count := usb_HPtimer_error_count s + 1\<rparr>)"

section \<open>Reading pulses\<close>

definition clear_usb_power :: "'a usb_remote_scheme \<Rightarrow> 'a usb_remote_scheme" where
  "clear_usb_power s =
     s\<lparr>usb_power := 0, usb_count := 0, logic_module_usb_count := 0,
       usb_buffer_out := 0, usb_buffer_in := 0\<rparr>"

fun get_usb_power :: "usb_pwr_query \<Rightarrow> 'a usb_remote_scheme \<Rightarrow> int \<times> 'a usb_remote_scheme" where
  "get_usb_power SINGLE_PULSE s = (usb_power s, s\<lparr>usb_power := 0\<rparr>)"
| "get_usb_power USB_STATE s = (usb_state s, s)"
| "get_usb_power BUFFERED_PULSE s =
     (if usb_buffer_out s \<noteq> usb_buffer_in s
      then let out = ring_next (usb_buffer_out s)
           in (usb_buffer s out, s\<lparr>usb_buffer_out := out\<rparr>)
      else (0, s))"
| "get_usb_power PULSE_COUNT s = (usb_count s, s\<lparr>usb_count := 0\<rparr>)"
| "get_usb_power LM_PULSE_COUNT s = (logic_module_usb_count s, s\<lparr>logic_module_usb_count := 0\<rparr>)"
| "get_usb_power HPTIMER_ERROR_COUNT s =
     (usb_HPtimer_error_count s, s\<lparr>usb_HPtimer_error_count := 0\<rparr>)"

section \<open>Configuration\<close>

definition set_usb_remote_state :: "'a usb_remote_scheme \<Rightarrow> 'a usb_remote_scheme" where
  "set_usb_remote_state s =
     (let s1 = (if conf_remote_enable s \<noteq> 0
                then s\<lparr>rmt_enabled := True, switch_type := conf_remote_switch_type s,
                       control_module := conf_remote_control_mode s\<rparr>
                else s\<lparr>rmt_enabled := False, usb_remote_active := 0\<rparr>)
      in s1\<lparr>virtual_remote_state := REMOTE_RESET, driver_state := SW_RESET,
             logic_module_state := LM_RESET\<rparr>)"

section \<open>The buffer is a bounded queue\<close>

fun takes :: "('s \<Rightarrow> 'v \<times> 's) \<Rightarrow> nat \<Rightarrow> 's \<Rightarrow> 'v list \<times> 's" where
  "takes f 0 s = ([], s)"
| "takes f (Suc n) s = (let (v, s1) = f s; (vs, s2) = takes f n s1 in (v # vs, s2))"

locale bounded_fifo =
  fixes inv :: "'s \<Rightarrow> bool"
    and contents :: "'s \<Rightarrow> 'v list"
    and insert_v :: "'v \<Rightarrow> 's \<Rightarrow> 's"
    and take_v :: "'s \<Rightarrow> 'v \<times> 's"
    and none_v :: 'v
    and cap :: nat
  assumes bounded: "inv s \<Longrightarrow> length (contents s) \<le> cap"
    and cap_pos: "0 < cap"
    and insert_inv: "inv s \<Longrightarrow> inv (insert_v v s)"
    and insert_contents: "inv s \<Longrightarrow> contents (insert_v v s) =
      (if length (contents s) = cap then tl (contents s) else contents s) @ [v]"
    and take_empty: "inv s \<Longrightarrow> contents s = [] \<Longrightarrow> take_v s = (none_v, s)"
    and take_head: "inv s \<Longrightarrow> contents s \<noteq> [] \<Longrightarrow> fst (take_v s) = hd (contents s)"
    and take_tail: "inv s \<Longrightarrow> contents s \<noteq> [] \<Longrightarrow> contents (snd (take_v s)) = tl (contents s)"
    and take_inv: "inv s \<Longrightarrow> inv (snd (take_v s))"
begin

definition newest :: "nat \<Rightarrow> 'v list \<Rightarrow> 'v list" where
  "newest n vs = drop (length vs - n) vs"

lemma insert_one:
  assumes "inv s"
  shows "contents (insert_v v s) = newest cap (contents s @ [v])"
proof (cases "length (contents s) = cap")
  case True
  with cap_pos have "contents s \<noteq> []" by auto
  with True show ?thesis
    using cap_pos by (simp add: insert_contents [OF assms] newest_def drop_Suc)
next
  case False
  with bounded [OF assms] show ?thesis
    by (simp add: insert_contents [OF assms] newest_def)
qed

lemma newest_append: "newest n (newest n vs @ ws) = newest n (vs @ ws)"
  by (cases "n \<le> length vs") (auto simp: newest_def add.commute)

lemma insert_many:
  "inv s \<Longrightarrow> contents (fold insert_v vs s) = newest cap (contents s @ vs) \<and> inv (fold insert_v vs s)"
proof (induction vs arbitrary: s)
  case Nil
  then show ?case using bounded [of s] by (simp add: newest_def)
next
  case (Cons v vs)
  have "contents (fold insert_v vs (insert_v v s)) = newest cap (contents (insert_v v s) @ vs)"
    using Cons.IH [OF insert_inv [OF Cons.prems]] by simp
  also have "\<dots> = newest cap (contents s @ [v] @ vs)"
    by (simp only: insert_one [OF Cons.prems] newest_append append_assoc)
  finally show ?case
    using Cons.IH [OF insert_inv [OF Cons.prems], of v] by simp
qed

lemma takes_oldest:
  "inv s \<Longrightarrow> n \<le> length (contents s) \<Longrightarrow> fst (takes take_v n s) = take n (contents s)"
proof (induction n arbitrary: s)
  case (Suc n)
  then have ne: "contents s \<noteq> []" by auto
  have "fst (takes take_v n (snd (take_v s))) = take n (tl (contents s))"
    using Suc take_inv take_tail [OF _ ne] by simp
  then show ?case
    using take_head [OF Suc.prems(1) ne] ne
    by (cases "contents s") (auto simp: Let_def split: prod.splits)
qed simp

end

definition ring_inv :: "'a usb_remote_scheme \<Rightarrow> bool" where
  "ring_inv s \<longleftrightarrow> usb_buffer_in s < 16 \<and> usb_buffer_out s < 16"

definition ring_count :: "nat \<Rightarrow> nat \<Rightarrow> nat" where
  "ring_count i out = (i + 16 - out) mod 16"

text \<open>What the buffer holds, oldest first: the slots after \<open>out\<close> up to \<open>in\<close>.\<close>

definition ring_list :: "(nat \<Rightarrow> int) \<Rightarrow> nat \<Rightarrow> nat \<Rightarrow> int list" where
  "ring_list buf i out = map (\<lambda>k. buf ((out + 1 + k) mod 16)) [0..<ring_count i out]"

definition ring_contents :: "'a usb_remote_scheme \<Rightarrow> int list" where
  "ring_contents s = ring_list (usb_buffer s) (usb_buffer_in s) (usb_buffer_out s)"

lemma ring_next_mod: "i < 16 \<Longrightarrow> ring_next i = (i + 1) mod 16"
  by (cases "i = 15") (auto simp: ring_next_def USB_BUFFER_SIZE_def)

lemma ring_next_less: "i < 16 \<Longrightarrow> ring_next i < 16"
  by (simp add: ring_next_mod)

lemma ring_count_cases:
  assumes "i < 16" and "out < 16"
  shows "ring_count i out = (if out \<le> i then i - out else i + 16 - out)"
proof (cases "out \<le> i")
  case True
  with assms have "i + 16 - out = (i - out) + 16" and "i - out < 16" by simp_all
  with True show ?thesis by (simp only: ring_count_def mod_add_self2 mod_less if_True)
next
  case False
  with assms show ?thesis by (simp add: ring_count_def)
qed

lemma mod_16_twice: "n < 32 \<Longrightarrow> n mod 16 = (if n < 16 then n else n - (16 :: nat))"
  by (simp add: le_mod_geq)

lemma ring_count_next:
  assumes "i < 16" and "out < 16"
  shows "ring_count (ring_next i) out = (if ring_count i out = 15 then 0 else ring_count i out + 1)"
    and "ring_next i = out \<longleftrightarrow> ring_count i out = 15"
    and "i \<noteq> out \<Longrightarrow> ring_count i (ring_next out) = ring_count i out - 1"
    and "ring_count i out = 0 \<longleftrightarrow> i = out"
  using assms ring_next_less [of i] ring_next_less [of out]
  by (auto simp: ring_count_cases) (auto simp: ring_next_def USB_BUFFER_SIZE_def split: if_splits)

lemma ring_slot:
  assumes "i < 16" and "out < 16" and "k \<le> ring_count i out"
  shows "(out + 1 + k) mod 16 = ring_next i \<longleftrightarrow> k = ring_count i out"
proof -
  have "out + 1 + k < 32"
    using assms by (auto simp: ring_count_cases split: if_splits)
  then have "(out + 1 + k) mod 16 = (if out + 1 + k < 16 then out + 1 + k else out + 1 + k - 16)"
    by (rule mod_16_twice)
  with assms show ?thesis
    by (auto simp: ring_count_cases ring_next_def USB_BUFFER_SIZE_def split: if_splits)
qed

lemma ring_list_shift:
  assumes "i < 16" and "out < 16" and "i \<noteq> out"
  shows "ring_list buf i (ring_next out) = tl (ring_list buf i out)"
    and "hd (ring_list buf i out) = buf (ring_next out)"
    and "ring_list buf i out \<noteq> []"
proof -
  have n: "ring_count i out \<noteq> 0" using assms ring_count_next(4) by simp
  then obtain m where m: "ring_count i out = Suc m" by (cases "ring_count i out") auto
  have c: "ring_count i (ring_next out) = m" using ring_count_next(3) [OF assms] m by simp
  have e: "(ring_next out + 1 + k) mod 16 = (out + 1 + Suc k) mod 16" for k
  proof -
    have "((out + 1) mod 16 + (1 + k)) mod 16 = (out + 1 + (1 + k)) mod 16"
      by (rule mod_add_left_eq)
    then show ?thesis using assms(2) by (simp add: ring_next_mod)
  qed
  show "ring_list buf i (ring_next out) = tl (ring_list buf i out)"
    unfolding ring_list_def c m by (rule nth_equalityI) (simp_all add: nth_tl e [simplified] del: upt_Suc)
  show "hd (ring_list buf i out) = buf (ring_next out)" "ring_list buf i out \<noteq> []"
    using assms(2) unfolding ring_list_def m by (simp_all add: hd_map ring_next_mod del: upt_Suc)
qed

lemma ring_list_room:
  assumes "i < 16" and "out < 16" and "ring_count i out \<noteq> 15"
  shows "ring_list (buf(ring_next i := v)) (ring_next i) out = ring_list buf i out @ [v]"
proof -
  have c: "ring_count (ring_next i) out = Suc (ring_count i out)"
    using ring_count_next(1) [OF assms(1,2)] assms(3) by simp
  have "(buf(ring_next i := v)) ((out + 1 + k) mod 16) =
      (if k = ring_count i out then v else buf ((out + 1 + k) mod 16))" if "k \<le> ring_count i out" for k
    using ring_slot [OF assms(1,2) that] by auto
  then show ?thesis
    unfolding ring_list_def c by (auto simp del: fun_upd_apply)
qed

lemma ring_list_full:
  assumes "i < 16" and "out < 16" and "ring_count i out = 15"
  shows "ring_list (buf(ring_next i := v)) (ring_next i) (ring_next out) =
    tl (ring_list buf i out) @ [v]"
proof -
  have ne: "i \<noteq> out" using ring_count_next(4) [OF assms(1,2)] assms(3) by auto
  have "ring_count i (ring_next out) = 14" using ring_count_next(3) [OF assms(1,2) ne] assms(3) by simp
  then have "ring_list (buf(ring_next i := v)) (ring_next i) (ring_next out) =
      ring_list buf i (ring_next out) @ [v]"
    using ring_list_room [of i "ring_next out" buf v] assms ring_next_less by simp
  then show ?thesis using ring_list_shift(1) [OF assms(1,2) ne] by simp
qed

lemma ring_list_length: "length (ring_list buf i out) = ring_count i out"
  by (simp add: ring_list_def)

interpretation usb_ring: bounded_fifo ring_inv ring_contents usb_buffer_insert
  "get_usb_power BUFFERED_PULSE" 0 15
proof unfold_locales
  fix s :: "'a usb_remote_scheme" and v
  assume inv: "ring_inv s"
  then have b: "usb_buffer_in s < 16" "usb_buffer_out s < 16" by (simp_all add: ring_inv_def)
  note nx = ring_count_next [OF b]
  show "length (ring_contents s) \<le> 15"
    using b by (simp add: ring_contents_def ring_list_length ring_count_def less_Suc_eq_le [symmetric])
  show "ring_inv (usb_buffer_insert v s)"
    using b by (simp add: ring_inv_def usb_buffer_insert_def Let_def ring_next_less)
  show "ring_contents (usb_buffer_insert v s) =
      (if length (ring_contents s) = 15 then tl (ring_contents s) else ring_contents s) @ [v]"
    using nx(2) ring_list_room [OF b] ring_list_full [OF b]
    by (auto simp: ring_contents_def ring_list_length usb_buffer_insert_def Let_def)
  have empty: "ring_contents s = [] \<longleftrightarrow> usb_buffer_in s = usb_buffer_out s"
    using nx(4) by (simp add: ring_contents_def ring_list_def)
  show "ring_contents s = [] \<Longrightarrow> get_usb_power BUFFERED_PULSE s = (0, s)"
    using empty by simp
  show "ring_inv (snd (get_usb_power BUFFERED_PULSE s))"
    using inv b by (auto simp: ring_inv_def Let_def ring_next_less)
  show "ring_contents s \<noteq> [] \<Longrightarrow> fst (get_usb_power BUFFERED_PULSE s) = hd (ring_contents s)"
    and "ring_contents s \<noteq> [] \<Longrightarrow>
      ring_contents (snd (get_usb_power BUFFERED_PULSE s)) = tl (ring_contents s)"
    using empty ring_list_shift [OF b, of "usb_buffer s"]
    by (auto simp: ring_contents_def Let_def)
qed simp

section \<open>Counting a pulse train\<close>

lemma usb_buffer_insert_frame [simp]:
  "remote_state_in (usb_buffer_insert v s) = remote_state_in s"
  "conf_remote_enable (usb_buffer_insert v s) = conf_remote_enable s"
  "remote_mark_count (usb_buffer_insert v s) = remote_mark_count s"
  "remote_space_count (usb_buffer_insert v s) = remote_space_count s"
  "pulse_count (usb_buffer_insert v s) = pulse_count s"
  "usb_count (usb_buffer_insert v s) = usb_count s"
  "logic_module_usb_count (usb_buffer_insert v s) = logic_module_usb_count s"
  "usb_power (usb_buffer_insert v s) = usb_power s"
  "tick_count (usb_buffer_insert v s) = tick_count s"
  by (simp_all add: usb_buffer_insert_def Let_def)

definition line_slice :: "int \<Rightarrow> 'a usb_remote_scheme \<Rightarrow> 'a usb_remote_scheme" where
  "line_slice v s = usb_remote_key (s\<lparr>remote_state_in := v\<rparr>)"

definition line_slices :: "nat \<Rightarrow> int \<Rightarrow> 'a usb_remote_scheme \<Rightarrow> 'a usb_remote_scheme" where
  "line_slices n v s = (line_slice v ^^ n) s"

lemma line_slices_simps [simp]:
  "line_slices 0 v s = s"
  "line_slices (Suc n) v s = line_slice v (line_slices n v s)"
  by (simp_all add: line_slices_def)

text \<open>The counters of the pulse meter; the rest of the state does not matter to it.\<close>

definition meter :: "'a usb_remote_scheme \<Rightarrow> int \<times> int \<times> int \<times> int \<times> int" where
  "meter s = (remote_mark_count s, remote_space_count s, pulse_count s, usb_count s, usb_power s)"

lemma line_on:
  "conf_remote_enable s \<noteq> 0 \<Longrightarrow> meter s = (m, sp, pc, uc, up) \<Longrightarrow>
   meter (line_slice 1 s) = (if m < 30000 then m + 1 else m, 0, pc, uc, up) \<and>
   conf_remote_enable (line_slice 1 s) = conf_remote_enable s"
  by (auto simp: meter_def line_slice_def usb_remote_key_def Let_def)

lemma line_off:
  "conf_remote_enable s \<noteq> 0 \<Longrightarrow> meter s = (m, sp, pc, uc, up) \<Longrightarrow>
   meter (line_slice 0 s) =
     (let sp' = (if sp > -30000 then sp - 1 else sp);
          pc' = (if m \<noteq> 0 then pc + 1 else pc);
          up' = (if m \<noteq> 0 then m else up)
      in if sp' < -50 \<and> pc' > 0 then (0, sp', 0, pc', up') else (0, sp', pc', uc, up')) \<and>
   conf_remote_enable (line_slice 0 s) = conf_remote_enable s"
  by (auto simp: meter_def line_slice_def usb_remote_key_def Let_def)

lemma line_on_many:
  assumes "conf_remote_enable s \<noteq> 0" and "meter s = (0, sp, pc, uc, up)" and "n \<le> 29999"
  shows "meter (line_slices (Suc n) 1 s) = (int n + 1, 0, pc, uc, up) \<and>
    conf_remote_enable (line_slices (Suc n) 1 s) = conf_remote_enable s"
  using assms(3)
proof (induction n)
  case 0
  show ?case using line_on [OF assms(1,2)] by simp
next
  case (Suc n)
  then have IH: "meter (line_slices (Suc n) 1 s) = (int n + 1, 0, pc, uc, up)"
    "conf_remote_enable (line_slices (Suc n) 1 s) = conf_remote_enable s" by simp_all
  show ?case
    using line_on [OF _ IH(1)] IH(2) assms(1) Suc.prems by (simp del: line_slices_simps(2) add: line_slices_simps(2) [of "Suc n"])
qed

lemma line_off_many:
  assumes "conf_remote_enable s \<noteq> 0" and "meter s = (m, 0, pc, uc, up)" and "m > 0" and "pc \<ge> 0"
    and "n \<le> 49"
  shows "meter (line_slices (Suc n) 0 s) = (0, - int n - 1, pc + 1, uc, m) \<and>
    conf_remote_enable (line_slices (Suc n) 0 s) = conf_remote_enable s"
  using assms(5)
proof (induction n)
  case 0
  show ?case using line_off [OF assms(1,2)] assms(3,4) by (simp add: Let_def)
next
  case (Suc n)
  then have IH: "meter (line_slices (Suc n) 0 s) = (0, - int n - 1, pc + 1, uc, m)"
    "conf_remote_enable (line_slices (Suc n) 0 s) = conf_remote_enable s" by simp_all
  show ?case
    using line_off [OF _ IH(1)] IH(2) assms Suc.prems
    by (simp del: line_slices_simps(2) add: line_slices_simps(2) [of "Suc n"] Let_def)
qed

text \<open>A pulse of \<open>on + 1\<close> timeslices and the gap of \<open>off + 1\<close> timeslices after it.\<close>

definition one_pulse :: "nat \<times> nat \<Rightarrow> 'a usb_remote_scheme \<Rightarrow> 'a usb_remote_scheme" where
  "one_pulse = (\<lambda>(on, off) s. line_slices (Suc off) 0 (line_slices (Suc on) 1 s))"

lemma one_pulse_meter:
  assumes "conf_remote_enable s \<noteq> 0" and "meter s = (0, sp, pc, uc, up)" and "pc \<ge> 0"
    and "on \<le> 29999" and "off \<le> 49"
  shows "meter (one_pulse (on, off) s) = (0, - int off - 1, pc + 1, uc, int on + 1) \<and>
    conf_remote_enable (one_pulse (on, off) s) = conf_remote_enable s"
proof -
  let ?s1 = "line_slices (Suc on) 1 s"
  have s1: "meter ?s1 = (int on + 1, 0, pc, uc, up)" "conf_remote_enable ?s1 = conf_remote_enable s"
    using line_on_many [OF assms(1,2,4)] by simp_all
  with line_off_many [of ?s1 "int on + 1" pc uc up off] assms show ?thesis
    by (simp add: one_pulse_def)
qed

lemma pulses_meter:
  assumes "\<forall>(on, off) \<in> set ps. on \<le> 29999 \<and> off \<le> 49"
    and "conf_remote_enable s \<noteq> 0" and "meter s = (0, sp, pc, uc, up)" and "pc \<ge> 0"
  shows "\<exists>sp' up'. meter (fold one_pulse ps s) = (0, sp', pc + int (length ps), uc, up') \<and>
    (ps \<noteq> [] \<longrightarrow> sp' = - int (snd (last ps)) - 1 \<and> up' = int (fst (last ps)) + 1) \<and>
    (ps = [] \<longrightarrow> sp' = sp \<and> up' = up) \<and>
    conf_remote_enable (fold one_pulse ps s) = conf_remote_enable s"
  using assms
proof (induction ps arbitrary: s sp pc up)
  case (Cons q ps)
  obtain on off where q: "q = (on, off)" by (cases q)
  have s1: "meter (one_pulse q s) = (0, - int off - 1, pc + 1, uc, int on + 1)"
    "conf_remote_enable (one_pulse q s) = conf_remote_enable s"
    using one_pulse_meter [of s sp pc uc up on off] Cons.prems q by auto
  from Cons.IH [OF _ _ s1(1)] Cons.prems s1(2) q show ?case
    by (auto simp: algebra_simps)
qed auto

lemma line_off_quiet:
  "conf_remote_enable s \<noteq> 0 \<Longrightarrow> meter s = (0, - int j, pc, uc, up) \<Longrightarrow> j + n \<le> 50 \<Longrightarrow>
   meter (line_slices n 0 s) = (0, - int (j + n), pc, uc, up) \<and>
   conf_remote_enable (line_slices n 0 s) = conf_remote_enable s"
proof (induction n)
  case (Suc n)
  then have IH: "meter (line_slices n 0 s) = (0, - int (j + n), pc, uc, up)"
    "conf_remote_enable (line_slices n 0 s) = conf_remote_enable s" by simp_all
  show ?case
    using line_off [OF _ IH(1)] IH(2) Suc.prems by (simp add: Let_def)
qed simp

section \<open>Properties\<close>

text \<open>C21: the pulse buffer is a bounded queue of the 15 newest lengths. However many values the
  measuring inserts, the buffer holds the newest 15 of what it held and what was
  inserted, in order (the oldest are dropped when it is full), and scripts that read it with
  \<open>BUFFERED_PULSE\<close> get them oldest first.\<close>

theorem usb_buffer_bounded_queue:
  assumes "ring_inv s" and "n \<le> min 15 (length (ring_contents s) + length vs)"
  shows "let s' = fold usb_buffer_insert vs s; all = ring_contents s @ vs
    in ring_contents s' = drop (length all - 15) all \<and>
       fst (takes (get_usb_power BUFFERED_PULSE) n s') = take n (drop (length all - 15) all)"
proof -
  have c: "ring_contents (fold usb_buffer_insert vs s) =
      drop (length (ring_contents s @ vs) - 15) (ring_contents s @ vs)"
    and inv: "ring_inv (fold usb_buffer_insert vs s)"
    using usb_ring.insert_many [OF assms(1), of vs] by (simp_all add: usb_ring.newest_def)
  have "n \<le> length (drop (length (ring_contents s @ vs) - 15) (ring_contents s @ vs))"
    unfolding length_drop using assms(2) by auto
  then have "n \<le> length (ring_contents (fold usb_buffer_insert vs s))"
    by (simp only: c)
  from usb_ring.takes_oldest [OF inv this] c show ?thesis by (simp add: Let_def)
qed

definition usb_init :: usb_remote where
  "usb_init = as_state.extend as_init
     (usb_remote.fields 0 0 0 0 0 0 0 0 0 (\<lambda>_. 0) 0 0 SW_NONE 0 REMOTE_RESET SW_RESET LM_RESET 0
        CAMERA_MODE_PLAYBACK False 0 0 0 0 0 0 False 0 0 0 0)"

lemma usb_init_sel [simp]:
  "usb_buffer_in usb_init = 0" "usb_buffer_out usb_init = 0" "usb_buffer usb_init i = 0"
  "remote_mark_count usb_init = 0" "remote_space_count usb_init = 0" "pulse_count usb_init = 0"
  "usb_count usb_init = 0" "usb_power usb_init = 0" "virtual_remote_state usb_init = REMOTE_RESET"
  "driver_state usb_init = SW_RESET" "logic_module_state usb_init = LM_RESET"
  "one_press_time usb_init = 0" "two_press_time usb_init = 0" "ricoh_time usb_init = 0"
  "usb_state usb_init = 0" "switch_type usb_init = 0" "control_module usb_init = 0"
  "kbd_mod_state usb_init = (\<lambda>_. 0xFFFFFFFF)" "tick_count usb_init = 0"
  "is_video_key_pressed usb_init = False" "conf_synch_enable usb_init = 0"
  "action_stacks usb_init = []" "free_stacks usb_init = []" "num_stacks usb_init = 0"
  "task_comp_id usb_init = 1" "as_brk usb_init = 0"
  by (simp_all add: usb_init_def usb_remote.defs as_state.defs as_init_def keyboard.defs kbd_init_def
      usb_constants)

definition twenty :: "int list" where
  "twenty = [1, 2, 3, 4, 5, 6, 7, 8, 9, 10, 11, 12, 13, 14, 15, 16, 17, 18, 19, 20]"

theorem usb_buffer_bounded_queue_witness:
  "fst (takes (get_usb_power BUFFERED_PULSE) 3 (fold usb_buffer_insert twenty usb_init)) = [6, 7, 8]"
proof -
  have r: "ring_inv usb_init" "ring_contents usb_init = []" "length twenty = 20"
    by (simp_all add: ring_inv_def ring_contents_def ring_list_def ring_count_def twenty_def)
  have "take 3 (drop 5 twenty) = [6, 7, 8]" by (simp add: twenty_def)
  then show ?thesis
    using usb_buffer_bounded_queue [of usb_init 3 twenty] by (simp add: r Let_def)
qed

text \<open>Pulses are counted, and the count is published when the line goes quiet. With the remote
  enabled and the meter idle, a train of pulses, each at least one timeslice long and with gaps of
  1 to 50 timeslices, changes nothing that scripts see but the width of the latest pulse, until the line has been low for 51
  timeslices after the last pulse; in that timeslice the number of pulses
  is published in \<open>usb_count\<close>, \<open>usb_power\<close> holds the width of the last pulse, and
  the meter is ready for the next train.\<close>

theorem usb_pulse_train_counted:
  assumes ps: "ps \<noteq> []" "\<forall>(on, off) \<in> set ps. on \<le> 29999 \<and> off \<le> 49"
    and on: "conf_remote_enable s \<noteq> 0"
    and idle: "remote_mark_count s = 0" "pulse_count s = 0"
  shows "let quiet = 49 - snd (last ps); s1 = line_slices quiet 0 (fold one_pulse ps s);
             s2 = line_slice 0 s1
    in usb_count s1 = usb_count s \<and> usb_count s2 = int (length ps) \<and> pulse_count s2 = 0 \<and>
       remote_mark_count s2 = 0 \<and> usb_power s2 = int (fst (last ps)) + 1"
proof -
  let ?t = "fold one_pulse ps s" and ?off = "snd (last ps)"
  have off: "?off \<le> 49" using ps by (metis (mono_tags, lifting) case_prodE last_in_set snd_conv)
  have m0: "meter s = (0, remote_space_count s, 0, usb_count s, usb_power s)"
    using idle by (simp add: meter_def)
  from pulses_meter [OF ps(2) on m0] ps(1) have
    t: "meter ?t = (0, - int (?off + 1), int (length ps), usb_count s, int (fst (last ps)) + 1)"
      "conf_remote_enable ?t = conf_remote_enable s" by auto
  let ?s1 = "line_slices (49 - ?off) 0 ?t"
  have s1: "meter ?s1 = (0, - 50, int (length ps), usb_count s, int (fst (last ps)) + 1)"
    "conf_remote_enable ?s1 = conf_remote_enable s"
    using line_off_quiet [OF _ t(1), of "49 - ?off"] t(2) on off by simp_all
  have s2: "meter (line_slice 0 ?s1) = (0, - 51, 0, int (length ps), int (fst (last ps)) + 1)"
    using line_off [OF _ s1(1)] s1(2) on ps(1) by (simp add: Let_def)
  from s1(1) s2 show ?thesis by (simp add: meter_def Let_def)
qed

theorem usb_pulse_train_counted_witness:
  "usb_count (line_slice 0 (line_slices 47 0
     (fold one_pulse [(0, 3), (9, 2)] (usb_init\<lparr>conf_remote_enable := 1\<rparr>)))) = 2"
  using usb_pulse_train_counted [of "[(0, 3), (9, 2)]" "usb_init\<lparr>conf_remote_enable := 1\<rparr>"]
  by (simp add: Let_def)

end
