(* ===== verification/UsbInput.thy ===== *)
theory UsbInput
  imports UsbRemote
begin

text \<open>
  \<open>core/usb_input.c\<close>: the drivers that turn the state of the USB power line into the state of a
  virtual remote switch, one transition per timeslice, and the table by which the configured switch
  type selects one. A driver's \<open>static int time_stamp\<close> is a field of the state; times are
  subtracted as the 32-bit \<open>int\<close>s they are. \<open>debug_error\<close> does nothing, so a state that is
  not the driver's own leaves everything as it is.
\<close>

section \<open>The drivers\<close>

definition usb_one_press_switch :: "int \<Rightarrow> 'a usb_remote_scheme \<Rightarrow> 'a usb_remote_scheme" where
  "usb_one_press_switch line s =
     (let current_time = tick_count s in
      case driver_state s of
        SW_RESET \<Rightarrow> s\<lparr>virtual_remote_state := REMOTE_RELEASE, driver_state := SW_IDLE\<rparr>
      | SW_IDLE \<Rightarrow>
          let s1 = s\<lparr>virtual_remote_state := REMOTE_RELEASE\<rparr>
          in if line = USB_POWER_ON
             then s1\<lparr>driver_state := SW_POWER_CONNECT, one_press_time := current_time\<rparr>
             else s1
      | SW_POWER_CONNECT \<Rightarrow>
          if line = USB_POWER_ON
          then if elapsed current_time (one_press_time s) > DEBOUNCE_TIME
               then s\<lparr>driver_state := SW_POWER_ON, virtual_remote_state := REMOTE_HALF_PRESS,
                      one_press_time := current_time\<rparr>
               else s
          else s\<lparr>driver_state := SW_IDLE\<rparr>
      | SW_POWER_ON \<Rightarrow>
          if line \<noteq> USB_POWER_ON
          then if elapsed current_time (one_press_time s) > DEBOUNCE_TIME
               then s\<lparr>driver_state := SW_POWER_DISCONNECT, virtual_remote_state := REMOTE_FULL_PRESS,
                      one_press_time := current_time\<rparr>
               else s
          else s
      | SW_POWER_DISCONNECT \<Rightarrow>
          if elapsed current_time (one_press_time s) > FULL_PRESS_PULSE_TIME
          then s\<lparr>driver_state := SW_IDLE, virtual_remote_state := REMOTE_RELEASE\<rparr>
          else s
      | _ \<Rightarrow> s)"

definition usb_two_press_switch :: "int \<Rightarrow> 'a usb_remote_scheme \<Rightarrow> 'a usb_remote_scheme" where
  "usb_two_press_switch line s =
     (let current_time = tick_count s in
      case driver_state s of
        SW_RESET \<Rightarrow> s\<lparr>virtual_remote_state := REMOTE_RELEASE, driver_state := SW_IDLE\<rparr>
      | SW_IDLE \<Rightarrow>
          if line = USB_POWER_ON
          then s\<lparr>driver_state := SW_POWER_CONNECT, two_press_time := current_time\<rparr>
          else s
      | SW_POWER_CONNECT \<Rightarrow>
          if line = USB_POWER_ON
          then if elapsed current_time (two_press_time s) > DEBOUNCE_TIME
               then s\<lparr>driver_state := SW_POWER_ON, virtual_remote_state := REMOTE_HALF_PRESS,
                      two_press_time := current_time\<rparr>
               else s
          else s\<lparr>driver_state := SW_IDLE\<rparr>
      | SW_POWER_ON \<Rightarrow>
          if line = USB_POWER_OFF
          then if elapsed current_time (two_press_time s) > DEBOUNCE_TIME
               then s\<lparr>driver_state := SW_POWER_DISCONNECT, two_press_time := current_time\<rparr>
               else s
          else s
      | SW_POWER_DISCONNECT \<Rightarrow>
          if line = USB_POWER_ON
          then if elapsed current_time (two_press_time s) > DEBOUNCE_TIME
               then s\<lparr>driver_state := SW_FULL_PRESS_ACTIVE, virtual_remote_state := REMOTE_FULL_PRESS,
                      two_press_time := current_time\<rparr>
               else s
          else if elapsed current_time (two_press_time s) > MAX_FULL_PRESS_DELAY
               then s\<lparr>virtual_remote_state := REMOTE_RELEASE, driver_state := SW_IDLE\<rparr>
               else s
      | SW_FULL_PRESS_ACTIVE \<Rightarrow>
          if line = USB_POWER_OFF
          then s\<lparr>virtual_remote_state := REMOTE_RELEASE, driver_state := SW_IDLE\<rparr>
          else s
      | _ \<Rightarrow> s)"

definition CA1_MAX_SHORT_PULSE_TIME :: int where "CA1_MAX_SHORT_PULSE_TIME = 30"
definition CA1_MAX_GAP_TIME :: int where "CA1_MAX_GAP_TIME = 50"

definition usb_ricoh_ca1_switch :: "int \<Rightarrow> 'a usb_remote_scheme \<Rightarrow> 'a usb_remote_scheme" where
  "usb_ricoh_ca1_switch line s =
     (let current_time = tick_count s in
      case driver_state s of
        SW_RESET \<Rightarrow> s\<lparr>virtual_remote_state := REMOTE_RELEASE, driver_state := SW_IDLE\<rparr>
      | SW_IDLE \<Rightarrow>
          if line = USB_POWER_ON
          then s\<lparr>driver_state := SW_CA1_1XX, ricoh_time := current_time\<rparr>
          else s
      | SW_CA1_1XX \<Rightarrow>
          if line = USB_POWER_OFF
          then s\<lparr>driver_state := SW_CA1_10X, ricoh_time := current_time\<rparr>
          else if elapsed current_time (ricoh_time s) > CA1_MAX_SHORT_PULSE_TIME
          then s\<lparr>driver_state := SW_CA1_11, virtual_remote_state := REMOTE_FULL_PRESS\<rparr>
          else s
      | SW_CA1_10X \<Rightarrow>
          if line = USB_POWER_ON
          then s\<lparr>driver_state := SW_CA1_101\<rparr>
          else if elapsed current_time (ricoh_time s) > CA1_MAX_GAP_TIME
          then s\<lparr>driver_state := SW_CA1_100\<rparr>
          else s
      | SW_CA1_101 \<Rightarrow>
          if line = USB_POWER_OFF
          then s\<lparr>driver_state := SW_IDLE, virtual_remote_state := REMOTE_RELEASE\<rparr>
          else s
      | SW_CA1_100 \<Rightarrow> s\<lparr>driver_state := SW_IDLE, virtual_remote_state := REMOTE_HALF_PRESS\<rparr>
      | SW_CA1_11 \<Rightarrow>
          if line = USB_POWER_OFF
          then s\<lparr>driver_state := SW_IDLE, virtual_remote_state := REMOTE_RELEASE\<rparr>
          else s
      | _ \<Rightarrow> s)"

definition usb_null_driver :: "int \<Rightarrow> 'a usb_remote_scheme \<Rightarrow> 'a usb_remote_scheme" where
  "usb_null_driver i s = s"

text \<open>The jump table \<open>usb_driver[NUM_USB_INPUT_DRV]\<close>; \<open>None\<close> is an index outside it.\<close>

definition usb_driver :: "int \<Rightarrow> (int \<Rightarrow> 'a usb_remote_scheme \<Rightarrow> 'a usb_remote_scheme) option" where
  "usb_driver i =
     (if i = 0 then Some usb_null_driver
      else if i = 1 then Some usb_one_press_switch
      else if i = 2 then Some usb_two_press_switch
      else if i = 3 then Some usb_ricoh_ca1_switch
      else if i = 4 then Some usb_null_driver
      else None)"

lemmas driver_defs = usb_one_press_switch_def usb_two_press_switch_def usb_ricoh_ca1_switch_def
  usb_null_driver_def

section \<open>Which states a driver reaches\<close>

text \<open>One timeslice of a driver: the clock reading and the line, then the transition.\<close>

definition driver_slice :: "(int \<Rightarrow> 'a usb_remote_scheme \<Rightarrow> 'a usb_remote_scheme) \<Rightarrow> u32 \<times> int \<Rightarrow>
    'a usb_remote_scheme \<Rightarrow> 'a usb_remote_scheme" where
  "driver_slice drv i s = drv (snd i) (s\<lparr>tick_count := fst i\<rparr>)"

definition one_press_ok :: "'a usb_remote_scheme \<Rightarrow> bool" where
  "one_press_ok s \<longleftrightarrow> (case driver_state s of
       SW_RESET \<Rightarrow> virtual_remote_state s = REMOTE_RESET
     | SW_IDLE \<Rightarrow> virtual_remote_state s = REMOTE_RELEASE
     | SW_POWER_CONNECT \<Rightarrow> virtual_remote_state s = REMOTE_RELEASE
     | SW_POWER_ON \<Rightarrow> virtual_remote_state s = REMOTE_HALF_PRESS
     | SW_POWER_DISCONNECT \<Rightarrow> virtual_remote_state s = REMOTE_FULL_PRESS
     | _ \<Rightarrow> False)"

definition two_press_ok :: "'a usb_remote_scheme \<Rightarrow> bool" where
  "two_press_ok s \<longleftrightarrow> (case driver_state s of
       SW_RESET \<Rightarrow> virtual_remote_state s = REMOTE_RESET
     | SW_IDLE \<Rightarrow> virtual_remote_state s = REMOTE_RELEASE
     | SW_POWER_CONNECT \<Rightarrow> virtual_remote_state s = REMOTE_RELEASE
     | SW_POWER_ON \<Rightarrow> virtual_remote_state s = REMOTE_HALF_PRESS
     | SW_POWER_DISCONNECT \<Rightarrow> virtual_remote_state s = REMOTE_HALF_PRESS
     | SW_FULL_PRESS_ACTIVE \<Rightarrow> virtual_remote_state s = REMOTE_FULL_PRESS
     | _ \<Rightarrow> False)"

definition released_or_half :: "'a usb_remote_scheme \<Rightarrow> bool" where
  "released_or_half s \<longleftrightarrow>
     virtual_remote_state s = REMOTE_RELEASE \<or> virtual_remote_state s = REMOTE_HALF_PRESS"

definition ricoh_ok :: "'a usb_remote_scheme \<Rightarrow> bool" where
  "ricoh_ok s \<longleftrightarrow> (case driver_state s of
       SW_RESET \<Rightarrow> virtual_remote_state s = REMOTE_RESET
     | SW_CA1_11 \<Rightarrow> virtual_remote_state s = REMOTE_FULL_PRESS
     | SW_IDLE \<Rightarrow> released_or_half s
     | SW_CA1_1XX \<Rightarrow> released_or_half s
     | SW_CA1_10X \<Rightarrow> released_or_half s
     | SW_CA1_100 \<Rightarrow> released_or_half s
     | SW_CA1_101 \<Rightarrow> released_or_half s
     | _ \<Rightarrow> False)"

lemma one_press_step: "one_press_ok s \<Longrightarrow> one_press_ok (driver_slice usb_one_press_switch i s)"
  by (cases "driver_state s")
    (simp_all add: one_press_ok_def driver_slice_def usb_one_press_switch_def Let_def)

lemma two_press_step: "two_press_ok s \<Longrightarrow> two_press_ok (driver_slice usb_two_press_switch i s)"
  by (cases "driver_state s")
    (simp_all add: two_press_ok_def driver_slice_def usb_two_press_switch_def Let_def)

lemma ricoh_step: "ricoh_ok s \<Longrightarrow> ricoh_ok (driver_slice usb_ricoh_ca1_switch i s)"
  by (cases "driver_state s")
    (simp_all add: ricoh_ok_def released_or_half_def driver_slice_def usb_ricoh_ca1_switch_def Let_def)

interpretation one_press: timeslice_machine "driver_slice usb_one_press_switch" one_press_ok
  by unfold_locales (rule one_press_step)

interpretation two_press: timeslice_machine "driver_slice usb_two_press_switch" two_press_ok
  by unfold_locales (rule two_press_step)

interpretation ricoh: timeslice_machine "driver_slice usb_ricoh_ca1_switch" ricoh_ok
  by unfold_locales (rule ricoh_step)

text \<open>A full press is entered from a half press only.\<close>

lemma one_press_half:
  "one_press_ok t \<Longrightarrow>
   virtual_remote_state (driver_slice usb_one_press_switch i t) = REMOTE_FULL_PRESS \<Longrightarrow>
   virtual_remote_state t \<in> {REMOTE_HALF_PRESS, REMOTE_FULL_PRESS}"
  by (cases "driver_state t")
    (simp_all add: one_press_ok_def driver_slice_def usb_one_press_switch_def Let_def split: if_splits)

lemma two_press_half:
  "two_press_ok t \<Longrightarrow>
   virtual_remote_state (driver_slice usb_two_press_switch i t) = REMOTE_FULL_PRESS \<Longrightarrow>
   virtual_remote_state t \<in> {REMOTE_HALF_PRESS, REMOTE_FULL_PRESS}"
  by (cases "driver_state t")
    (simp_all add: two_press_ok_def driver_slice_def usb_two_press_switch_def Let_def split: if_splits)

section \<open>Waveforms\<close>

text \<open>A driver in a state, with the virtual switch in another, since a time.\<close>

definition ricoh_at :: "driver_st \<Rightarrow> virtual_remote \<Rightarrow> u32 \<Rightarrow> 'a usb_remote_scheme \<Rightarrow> bool" where
  "ricoh_at d v t s \<longleftrightarrow> driver_state s = d \<and> virtual_remote_state s = v \<and> ricoh_time s = t"

definition one_press_at :: "driver_st \<Rightarrow> virtual_remote \<Rightarrow> u32 \<Rightarrow> 'a usb_remote_scheme \<Rightarrow> bool" where
  "one_press_at d v t s \<longleftrightarrow>
     driver_state s = d \<and> virtual_remote_state s = v \<and> one_press_time s = t"

text \<open>Samples of the line while it keeps a value and less than a limit passes.\<close>

definition line_for :: "int \<Rightarrow> u32 \<Rightarrow> int \<Rightarrow> (u32 \<times> int) list \<Rightarrow> bool" where
  "line_for v t lim ins \<longleftrightarrow> (\<forall>i \<in> set ins. snd i = v \<and> elapsed (fst i) t \<le> lim)"

abbreviation ricoh_run :: "(u32 \<times> int) list \<Rightarrow> 'a usb_remote_scheme \<Rightarrow> 'a usb_remote_scheme" where
  "ricoh_run \<equiv> fold (driver_slice usb_ricoh_ca1_switch)"

abbreviation one_press_run :: "(u32 \<times> int) list \<Rightarrow> 'a usb_remote_scheme \<Rightarrow> 'a usb_remote_scheme" where
  "one_press_run \<equiv> fold (driver_slice usb_one_press_switch)"

lemmas ricoh_move = ricoh_at_def driver_slice_def usb_ricoh_ca1_switch_def Let_def usb_constants
  CA1_MAX_SHORT_PULSE_TIME_def CA1_MAX_GAP_TIME_def

lemmas one_press_move = one_press_at_def driver_slice_def usb_one_press_switch_def Let_def
  usb_constants

lemma ricoh_short_pulse:
  assumes "ricoh_at SW_IDLE v t s" and "line_for USB_POWER_ON t0 30 ons"
  shows "ricoh_at SW_CA1_1XX v t0 (ricoh_run ((t0, USB_POWER_ON) # ons) s)"
  by (rule fold_enter) (use assms in \<open>auto simp: line_for_def ricoh_move\<close>)

lemma ricoh_gap:
  assumes "ricoh_at SW_CA1_1XX v t0 s" and "line_for USB_POWER_OFF t1 50 offs"
  shows "ricoh_at SW_CA1_10X v t1 (ricoh_run ((t1, USB_POWER_OFF) # offs) s)"
  by (rule fold_enter) (use assms in \<open>auto simp: line_for_def ricoh_move\<close>)

lemma ricoh_long_pulse:
  assumes "ricoh_at SW_CA1_1XX v t0 s" and "elapsed t1 t0 > 30"
    and "\<forall>i \<in> set more_on. snd i = USB_POWER_ON"
  shows "ricoh_at SW_CA1_11 REMOTE_FULL_PRESS t0 (ricoh_run ((t1, USB_POWER_ON) # more_on) s)"
  by (rule fold_enter) (use assms in \<open>auto simp: ricoh_move\<close>)

lemma ricoh_second_pulse:
  assumes "ricoh_at SW_CA1_10X v t1 s" and "\<forall>i \<in> set more_on. snd i = USB_POWER_ON"
  shows "ricoh_at SW_CA1_101 v t1 (ricoh_run ((t2, USB_POWER_ON) # more_on) s)"
  by (rule fold_enter) (use assms in \<open>auto simp: ricoh_move\<close>)

section \<open>Properties\<close>

text \<open>The CA-1 driver recognises the three waveforms of the remote, from the idle state and for
  any sampling of the line. One pulse of at most 30 ms and a gap of more than 50 ms is a
  half press. A pulse longer than 30 ms is a full press, which lasts as long as the line is high and
  ends, released, when it drops. Two short pulses with a gap of at most 50 ms are a
  release. In each case the driver is idle again at the end.\<close>

theorem ricoh_waveforms:
  fixes s :: "'a usb_remote_scheme"
  assumes idle: "driver_state s = SW_IDLE"
    and short: "line_for USB_POWER_ON t0 30 ons"
    and gap: "line_for USB_POWER_OFF t1 50 offs"
    and on: "\<forall>i \<in> set more_on. snd i = USB_POWER_ON"
  shows "let pulse = ricoh_run ((t0, USB_POWER_ON) # ons) s;
      gap = ricoh_run ((t1, USB_POWER_OFF) # offs) pulse;
      half = ricoh_run [(t2, USB_POWER_OFF), (t3, line)] gap;
      full = ricoh_run ((t4, USB_POWER_ON) # more_on) pulse;
      dropped = ricoh_run [(t5, USB_POWER_OFF)] full;
      release = ricoh_run ((t6, USB_POWER_ON) # more_on @ [(t7, USB_POWER_OFF)]) gap
    in (elapsed t2 t1 > 50 \<longrightarrow> driver_state half = SW_IDLE \<and> virtual_remote_state half = REMOTE_HALF_PRESS) \<and>
       (elapsed t4 t0 > 30 \<longrightarrow> virtual_remote_state full = REMOTE_FULL_PRESS \<and>
          driver_state dropped = SW_IDLE \<and> virtual_remote_state dropped = REMOTE_RELEASE) \<and>
       driver_state release = SW_IDLE \<and> virtual_remote_state release = REMOTE_RELEASE \<and>
       virtual_remote_state gap = virtual_remote_state s"
proof -
  let ?v = "virtual_remote_state s"
  define pulse where "pulse = ricoh_run ((t0, USB_POWER_ON) # ons) s"
  define g where "g = ricoh_run ((t1, USB_POWER_OFF) # offs) pulse"
  define full where "full = ricoh_run ((t4, USB_POWER_ON) # more_on) pulse"
  define two where "two = ricoh_run ((t6, USB_POWER_ON) # more_on) g"
  have p: "ricoh_at SW_CA1_1XX ?v t0 pulse"
    unfolding pulse_def by (rule ricoh_short_pulse [OF _ short]) (simp add: ricoh_at_def idle)
  have g: "ricoh_at SW_CA1_10X ?v t1 g" unfolding g_def by (rule ricoh_gap [OF p gap])
  have two: "ricoh_at SW_CA1_101 ?v t1 two" unfolding two_def by (rule ricoh_second_pulse [OF g on])
  have full: "elapsed t4 t0 > 30 \<Longrightarrow> ricoh_at SW_CA1_11 REMOTE_FULL_PRESS t0 full"
    unfolding full_def by (rule ricoh_long_pulse [OF p _ on])
  have rel: "ricoh_run ((t6, USB_POWER_ON) # more_on @ [(t7, USB_POWER_OFF)]) g =
      driver_slice usb_ricoh_ca1_switch (t7, USB_POWER_OFF) two"
    by (simp add: two_def)
  have "elapsed t2 t1 > 50 \<longrightarrow>
      driver_state (ricoh_run [(t2, USB_POWER_OFF), (t3, line)] g) = SW_IDLE \<and>
      virtual_remote_state (ricoh_run [(t2, USB_POWER_OFF), (t3, line)] g) = REMOTE_HALF_PRESS"
    using g by (simp add: ricoh_move)
  moreover have "elapsed t4 t0 > 30 \<longrightarrow> virtual_remote_state full = REMOTE_FULL_PRESS \<and>
      driver_state (ricoh_run [(t5, USB_POWER_OFF)] full) = SW_IDLE \<and>
      virtual_remote_state (ricoh_run [(t5, USB_POWER_OFF)] full) = REMOTE_RELEASE"
    using full by (auto simp: ricoh_move)
  moreover have "driver_state (driver_slice usb_ricoh_ca1_switch (t7, USB_POWER_OFF) two) = SW_IDLE \<and>
      virtual_remote_state (driver_slice usb_ricoh_ca1_switch (t7, USB_POWER_OFF) two) = REMOTE_RELEASE"
    using two by (simp add: ricoh_move)
  moreover have "virtual_remote_state g = ?v"
    using g by (simp add: ricoh_at_def)
  ultimately show ?thesis
    unfolding Let_def pulse_def [symmetric] g_def [symmetric] full_def [symmetric] rel
    by blast
qed

theorem ricoh_waveforms_witness:
  "virtual_remote_state (ricoh_run [(15, 1), (25, 1), (37, 1), (47, 1)]
     (usb_init\<lparr>driver_state := SW_IDLE\<rparr>)) = REMOTE_FULL_PRESS"
  using ricoh_waveforms [of "usb_init\<lparr>driver_state := SW_IDLE\<rparr>" 5 "[(15, 1), (25, 1)]" 57 "[]"
      "[(47, 1)]" 0 0 37 60 0 0]
  by (simp add: line_for_def elapsed_def usb_constants Let_def ricoh_move)

text \<open>A click of the one press switch. From the idle state, the line must be high for more than 10 ms
  to count as a half press (before that the virtual switch stays released); the half press lasts
  while the line is high; when it is low more than 10 ms after the half press the full press starts; the full press
  lasts through every timeslice up to 1000 ms later, whatever the line does; the first
  timeslice after that releases the switch and the driver is idle again.\<close>

theorem one_press_click:
  fixes s :: "'a usb_remote_scheme"
  assumes idle: "driver_state s = SW_IDLE"
    and bounce: "line_for USB_POWER_ON t0 10 bounce"
    and held: "\<forall>i \<in> set held. snd i = USB_POWER_ON"
    and pulse: "\<forall>i \<in> set pulse. elapsed (fst i) t2 \<le> 1000"
    and times: "elapsed t1 t0 > 10" "elapsed t2 t1 > 10" "elapsed t3 t2 > 1000"
    and low: "low \<noteq> USB_POWER_ON"
  shows "let u0 = one_press_run ((t0, USB_POWER_ON) # bounce) s;
      u1 = one_press_run ((t1, USB_POWER_ON) # held) u0;
      u2 = one_press_run ((t2, low) # pulse) u1;
      u3 = one_press_run [(t3, line)] u2
    in virtual_remote_state u0 = REMOTE_RELEASE \<and> virtual_remote_state u1 = REMOTE_HALF_PRESS \<and>
       virtual_remote_state u2 = REMOTE_FULL_PRESS \<and> virtual_remote_state u3 = REMOTE_RELEASE \<and>
       driver_state u3 = SW_IDLE"
proof -
  define u0 where "u0 = one_press_run ((t0, USB_POWER_ON) # bounce) s"
  define u1 where "u1 = one_press_run ((t1, USB_POWER_ON) # held) u0"
  define u2 where "u2 = one_press_run ((t2, low) # pulse) u1"
  have 0: "one_press_at SW_POWER_CONNECT REMOTE_RELEASE t0 u0"
    unfolding u0_def by (rule fold_enter) (use idle bounce in \<open>auto simp: line_for_def one_press_move\<close>)
  have 1: "one_press_at SW_POWER_ON REMOTE_HALF_PRESS t1 u1"
    unfolding u1_def by (rule fold_enter) (use 0 times held in \<open>auto simp: one_press_move\<close>)
  have 2: "one_press_at SW_POWER_DISCONNECT REMOTE_FULL_PRESS t2 u2"
    unfolding u2_def by (rule fold_enter) (use 1 times low pulse in \<open>auto simp: one_press_move\<close>)
  have 3: "one_press_at SW_IDLE REMOTE_RELEASE t2 (one_press_run [(t3, line)] u2)"
    using 2 times by (simp add: one_press_move)
  show ?thesis
    unfolding Let_def u0_def [symmetric] u1_def [symmetric] u2_def [symmetric]
    using 0 1 2 3 by (auto simp: one_press_at_def)
qed

theorem one_press_click_witness:
  "virtual_remote_state (one_press_run [(45, 0), (145, 1)] (one_press_run [(21, 1)]
     (one_press_run [(5, 1), (15, 1)] (usb_init\<lparr>driver_state := SW_IDLE\<rparr>)))) = REMOTE_FULL_PRESS"
  using one_press_click [of "usb_init\<lparr>driver_state := SW_IDLE\<rparr>" 5 "[(15, 1)]" "[]" "[(145, 1)]" 45
      21 1100 0 0]
  by (simp add: line_for_def elapsed_def usb_constants Let_def)

text \<open>However the line behaves and whatever the clock reads, a run of the one press or
  the two press driver after a reset stays in the driver's own states (its \<open>default\<close> branch is never
  taken), and a full press is only ever entered from a half press; the CA-1 driver stays in its own states too.\<close>

theorem switch_drivers_safe:
  "one_press_ok s \<Longrightarrow> two_press_ok s' \<Longrightarrow> ricoh_ok s'' \<Longrightarrow>
   (let t = one_press_run ins s; u = driver_slice usb_one_press_switch i t
    in one_press_ok u \<and> (virtual_remote_state u = REMOTE_FULL_PRESS \<longrightarrow>
         virtual_remote_state t \<in> {REMOTE_HALF_PRESS, REMOTE_FULL_PRESS})) \<and>
   (let t = fold (driver_slice usb_two_press_switch) ins s'; u = driver_slice usb_two_press_switch i t
    in two_press_ok u \<and> (virtual_remote_state u = REMOTE_FULL_PRESS \<longrightarrow>
         virtual_remote_state t \<in> {REMOTE_HALF_PRESS, REMOTE_FULL_PRESS})) \<and>
   ricoh_ok (ricoh_run ins s'')"
  using one_press.run_inv [of s ins] two_press.run_inv [of s' ins] ricoh.run_inv [of s'' ins]
    one_press_half two_press_half one_press_step two_press_step
  unfolding Let_def by blast

theorem switch_drivers_safe_witness:
  "one_press_ok (driver_slice usb_one_press_switch (20, 0) (one_press_run [(10, 1)] usb_init))"
  using switch_drivers_safe [of usb_init usb_init usb_init "[(10, 1)]" "(20, 0)"]
  by (simp add: one_press_ok_def two_press_ok_def ricoh_ok_def Let_def del: fold_simps)

end
