(* ===== verification/UsbModule.thy ===== *)
theory UsbModule
  imports UsbInput
begin

text \<open>
  \<open>core/usb_module.c\<close>, the control modules that act on the virtual remote switch, the jump tables
  that select one, and \<open>handle_usb_remote\<close> of \<open>core/usb_remote.c\<close>, which runs a driver and a
  module every timeslice. \<open>P\<close> is the port, \<open>M\<close> the addresses of the action functions.
  \<open>bracketing_step\<close>, \<open>bracketing_reset\<close> and \<open>shooting_set_zoom\<close> are logged calls.
\<close>

section \<open>Playback\<close>

definition PLAYBACK_NEXT :: int where "PLAYBACK_NEXT = 1"
definition PLAYBACK_REVERSE :: int where "PLAYBACK_REVERSE = 2"
definition PLAYBACK_LEFT :: int where "PLAYBACK_LEFT = 3"
definition PLAYBACK_RIGHT :: int where "PLAYBACK_RIGHT = 4"

definition usb_playback_module :: "platform \<Rightarrow> 'a usb_remote_scheme \<Rightarrow> 'a usb_remote_scheme" where
  "usb_playback_module P s =
     (let current_time = tick_count s in
      case logic_module_state s of
        LM_RESET \<Rightarrow> s\<lparr>logic_module_state := LM_RELEASE\<rparr>
      | LM_RELEASE \<Rightarrow>
          let (i, s1) = get_usb_power LM_PULSE_COUNT s in
          if i = PLAYBACK_REVERSE \<or> i = PLAYBACK_NEXT
          then let s2 = (if i = PLAYBACK_REVERSE
                         then s1\<lparr>playback_direction := \<not> playback_direction s1\<rparr> else s1);
                   s3 = (if playback_direction s2 then kbd_key_press P KEY_LEFT s2
                         else kbd_key_press P KEY_RIGHT s2)
               in s3\<lparr>logic_module_state := LM_KEY_PRESS, playback_time := current_time\<rparr>
          else if i = PLAYBACK_LEFT then s1\<lparr>playback_direction := False\<rparr>
          else if i = PLAYBACK_RIGHT then s1\<lparr>playback_direction := True\<rparr>
          else s1
      | LM_KEY_PRESS \<Rightarrow>
          if elapsed current_time (playback_time s) > REMOTE_CLICK_TIME
          then (if playback_direction s then kbd_key_release P KEY_LEFT s
                else kbd_key_release P KEY_RIGHT s)\<lparr>logic_module_state := LM_RELEASE\<rparr>
          else s
      | _ \<Rightarrow> s)"

section \<open>Shoot normal\<close>

definition shoot_normal_direct :: "platform \<Rightarrow> 'a usb_remote_scheme \<Rightarrow> 'a usb_remote_scheme" where
  "shoot_normal_direct P s =
     (case logic_module_state s of
        LM_RESET \<Rightarrow>
          (kbd_key_release P KEY_SHOOT_HALF (kbd_key_release P KEY_SHOOT_FULL s))
            \<lparr>logic_module_state := LM_RELEASE\<rparr>
      | LM_RELEASE \<Rightarrow>
          (case virtual_remote_state s of
             REMOTE_HALF_PRESS \<Rightarrow>
               (kbd_key_press P KEY_SHOOT_HALF s)\<lparr>logic_module_state := LM_HALF_PRESS\<rparr>
           | REMOTE_FULL_PRESS \<Rightarrow>
               (kbd_key_press P KEY_SHOOT_FULL (kbd_key_press P KEY_SHOOT_HALF s))
                 \<lparr>logic_module_state := LM_FULL_PRESS\<rparr>
           | _ \<Rightarrow> s)
      | LM_HALF_PRESS \<Rightarrow>
          (case virtual_remote_state s of
             REMOTE_RELEASE \<Rightarrow>
               (kbd_key_release P KEY_SHOOT_HALF s)\<lparr>logic_module_state := LM_RELEASE\<rparr>
           | REMOTE_FULL_PRESS \<Rightarrow>
               (kbd_key_press P KEY_SHOOT_FULL s)\<lparr>logic_module_state := LM_FULL_PRESS\<rparr>
           | _ \<Rightarrow> s)
      | LM_FULL_PRESS \<Rightarrow>
          (case virtual_remote_state s of
             REMOTE_RELEASE \<Rightarrow>
               (kbd_key_release P KEY_SHOOT_HALF (kbd_key_release P KEY_SHOOT_FULL s))
                 \<lparr>logic_module_state := LM_RELEASE\<rparr>
           | REMOTE_HALF_PRESS \<Rightarrow>
               (kbd_key_release P KEY_SHOOT_FULL s)\<lparr>logic_module_state := LM_HALF_PRESS\<rparr>
           | _ \<Rightarrow> s)
      | _ \<Rightarrow> s)"

definition shoot_normal_sync ::
  "platform \<Rightarrow> 'b as_code \<Rightarrow> 'a usb_remote_scheme \<Rightarrow> 'a usb_remote_scheme" where
  "shoot_normal_sync P M s =
     (let two_or_ca1 = (switch_type s = SW_TWO_PRESS \<or> switch_type s = SW_RICOH_CA1) in
      case logic_module_state s of
        LM_RESET \<Rightarrow> s\<lparr>logic_module_state := LM_RELEASE\<rparr>
      | LM_RELEASE \<Rightarrow>
          (case virtual_remote_state s of
             REMOTE_HALF_PRESS \<Rightarrow>
               if switch_type s = SW_ONE_PRESS
               then let (c, s1) = action_stack_create M AS_SHOOT s
                    in s1\<lparr>normal_stack_name := c, usb_sync_wait_flag := 1,
                          logic_module_state := LM_HALF_PRESS\<rparr>
               else if two_or_ca1
               then (kbd_key_press P KEY_SHOOT_HALF s)\<lparr>logic_module_state := LM_HALF_PRESS\<rparr>
               else s
           | _ \<Rightarrow> s)
      | LM_HALF_PRESS \<Rightarrow>
          (case virtual_remote_state s of
             REMOTE_FULL_PRESS \<Rightarrow>
               if switch_type s = SW_ONE_PRESS then s\<lparr>logic_module_state := LM_FULL_PRESS\<rparr>
               else if two_or_ca1
               then (kbd_key_press P KEY_SHOOT_FULL (s\<lparr>usb_sync_wait_flag := 1\<rparr>))
                      \<lparr>logic_module_state := LM_FULL_PRESS\<rparr>
               else s
           | REMOTE_RELEASE \<Rightarrow>
               if switch_type s = SW_ONE_PRESS
               then if action_stack_is_finished (normal_stack_name s) s
                    then s\<lparr>logic_module_state := LM_RELEASE\<rparr> else s
               else if two_or_ca1
               then (kbd_key_release P KEY_SHOOT_HALF s)\<lparr>logic_module_state := LM_RELEASE\<rparr>
               else s
           | _ \<Rightarrow> s)
      | LM_FULL_PRESS \<Rightarrow>
          (case virtual_remote_state s of
             REMOTE_RELEASE \<Rightarrow>
               if switch_type s = SW_ONE_PRESS
               then if action_stack_is_finished (normal_stack_name s) s
                    then s\<lparr>logic_module_state := LM_RELEASE\<rparr> else s
               else if two_or_ca1
               then kbd_key_release P KEY_SHOOT_HALF (kbd_key_release P KEY_SHOOT_FULL
                      (s\<lparr>usb_sync_wait_flag := 0, logic_module_state := LM_RELEASE\<rparr>))
               else s
           | _ \<Rightarrow> s)
      | _ \<Rightarrow> s)"

definition usb_shoot_module_normal ::
  "platform \<Rightarrow> 'b as_code \<Rightarrow> 'a usb_remote_scheme \<Rightarrow> 'a usb_remote_scheme" where
  "usb_shoot_module_normal P M s =
     (if conf_synch_enable s = 0 then shoot_normal_direct P s else shoot_normal_sync P M s)"

section \<open>Shoot quick and burst\<close>

definition usb_shoot_module_quick ::
  "'b as_code \<Rightarrow> 'a usb_remote_scheme \<Rightarrow> 'a usb_remote_scheme" where
  "usb_shoot_module_quick M s =
     (case logic_module_state s of
        LM_RESET \<Rightarrow> s\<lparr>logic_module_state := LM_RELEASE\<rparr>
      | LM_RELEASE \<Rightarrow>
          if virtual_remote_state s = REMOTE_HALF_PRESS \<or> virtual_remote_state s = REMOTE_FULL_PRESS
          then let (c, s1) = action_stack_create M AS_SHOOT s
               in s1\<lparr>quick_stack_name := c, logic_module_state := LM_FULL_PRESS\<rparr>
          else s
      | LM_FULL_PRESS \<Rightarrow>
          if virtual_remote_state s = REMOTE_RELEASE \<and> action_stack_is_finished (quick_stack_name s) s
          then s\<lparr>logic_module_state := LM_RELEASE\<rparr>
          else s
      | _ \<Rightarrow> s)"

definition usb_shoot_module_burst ::
  "'b as_code \<Rightarrow> 'a usb_remote_scheme \<Rightarrow> 'a usb_remote_scheme" where
  "usb_shoot_module_burst M s =
     (case logic_module_state s of
        LM_RESET \<Rightarrow> s\<lparr>logic_module_state := LM_RELEASE\<rparr>
      | LM_RELEASE \<Rightarrow>
          if virtual_remote_state s = REMOTE_HALF_PRESS \<or> virtual_remote_state s = REMOTE_FULL_PRESS
          then let (c, s1) = action_stack_create M AS_SHOOT s
               in s1\<lparr>burst_stack_name := c, logic_module_state := LM_HALF_PRESS\<rparr>
          else s
      | LM_HALF_PRESS \<Rightarrow>
          if action_stack_is_finished (burst_stack_name s) s
          then s\<lparr>logic_module_state := LM_RELEASE\<rparr>
          else s
      | _ \<Rightarrow> s)"

section \<open>Zoom\<close>

definition ZOOM_STEP_OUT :: int where "ZOOM_STEP_OUT = 1"
definition ZOOM_STEP_IN :: int where "ZOOM_STEP_IN = 2"
definition ZOOM_SHOOT :: int where "ZOOM_SHOOT = 3"
definition ZOOM_FULL_OUT :: int where "ZOOM_FULL_OUT = 4"
definition ZOOM_FULL_IN :: int where "ZOOM_FULL_IN = 5"

definition zoom_step_size :: "int \<Rightarrow> int" where
  "zoom_step_size points =
     (if points \<le> 16 then 1
      else if points \<le> 32 then 2
      else if points \<le> 64 then 6
      else if points \<le> 110 then 10
      else if points \<le> 128 then 12
      else 20)"

definition usb_zoom_step :: "platform \<Rightarrow> int \<Rightarrow> 'a usb_remote_scheme \<Rightarrow> 'a usb_remote_scheme" where
  "usb_zoom_step P zdirection s =
     (if \<not> mode_play s
      then let zstep = zoom_step_size (zoom_points P);
               zpos = zoom_pos s;
               newzpos = (if zdirection > 0
                          then if zpos + zstep + zstep div 2 < zoom_points P then zpos + zstep
                               else zoom_points P
                          else if zpos - zstep - zstep div 2 > 0 then zpos - zstep
                               else 0)
           in ext_call (ShootingSetZoom newzpos) s
      else s)"

definition usb_shoot_module_zoom ::
  "platform \<Rightarrow> 'b as_code \<Rightarrow> 'a usb_remote_scheme \<Rightarrow> 'a usb_remote_scheme" where
  "usb_shoot_module_zoom P M s =
     (case logic_module_state s of
        LM_RESET \<Rightarrow> s\<lparr>logic_module_state := LM_RELEASE\<rparr>
      | LM_RELEASE \<Rightarrow>
          let (i, s1) = get_usb_power LM_PULSE_COUNT s in
          if i = ZOOM_STEP_OUT then usb_zoom_step P 1 s1
          else if i = ZOOM_STEP_IN then usb_zoom_step P (-1) s1
          else if i = ZOOM_SHOOT
          then let (c, s2) = action_stack_create M AS_SHOOT (s1\<lparr>logic_module_state := LM_FULL_PRESS\<rparr>)
               in s2\<lparr>zoom_stack_name := c\<rparr>
          else if i = ZOOM_FULL_OUT then ext_call (ShootingSetZoom (zoom_points P)) s1
          else if i = ZOOM_FULL_IN then ext_call (ShootingSetZoom 0) s1
          else s1
      | LM_FULL_PRESS \<Rightarrow>
          if action_stack_is_finished (zoom_stack_name s) s
          then s\<lparr>logic_module_state := LM_RELEASE\<rparr>
          else s
      | _ \<Rightarrow> s)"

section \<open>Bracketing\<close>

definition usb_bracketing_done :: "'a usb_remote_scheme \<Rightarrow> 'a usb_remote_scheme" where
  "usb_bracketing_done s = (ext_call BracketingReset s)\<lparr>bracketing_timeout := 0\<rparr>"

definition usb_shoot_module_bracketing :: "platform \<Rightarrow> 'a usb_remote_scheme \<Rightarrow> 'a usb_remote_scheme" where
  "usb_shoot_module_bracketing P s =
     (let current_time = tick_count s in
      case logic_module_state s of
        LM_RESET \<Rightarrow> s\<lparr>logic_module_state := LM_RELEASE\<rparr>
      | LM_RELEASE \<Rightarrow>
          let s1 = (if bracketing_timeout s \<noteq> 0 \<and> bracketing_timeout s <s current_time
                    then usb_bracketing_done s else s)
          in if virtual_remote_state s1 = REMOTE_HALF_PRESS \<or> virtual_remote_state s1 = REMOTE_FULL_PRESS
             then (kbd_key_press P KEY_SHOOT_HALF s1)\<lparr>logic_module_state := LM_HALF_PRESS\<rparr>
             else s1
      | LM_HALF_PRESS \<Rightarrow>
          (case virtual_remote_state s of
             REMOTE_RELEASE \<Rightarrow>
               usb_bracketing_done
                 ((kbd_key_release P KEY_SHOOT_HALF s)\<lparr>logic_module_state := LM_RELEASE\<rparr>)
           | REMOTE_FULL_PRESS \<Rightarrow>
               if shooting_busy s
               then (kbd_key_press P KEY_SHOOT_FULL s)
                      \<lparr>logic_module_state := LM_FULL_PRESS,
                       bracketing_timeout := current_time + BRACKETING_TIMEOUT\<rparr>
               else s
           | _ \<Rightarrow> s)
      | LM_FULL_PRESS \<Rightarrow>
          (case virtual_remote_state s of
             REMOTE_RELEASE \<Rightarrow>
               ext_call BracketingStepLater
                 ((kbd_key_release P KEY_SHOOT_HALF (kbd_key_release P KEY_SHOOT_FULL_ONLY s))
                    \<lparr>logic_module_state := LM_RELEASE\<rparr>)
           | REMOTE_HALF_PRESS \<Rightarrow>
               ext_call BracketingStepLater
                 ((kbd_key_release P KEY_SHOOT_FULL_ONLY s)\<lparr>logic_module_state := LM_HALF_PRESS\<rparr>)
           | _ \<Rightarrow> s)
      | _ \<Rightarrow> s)"

section \<open>Video\<close>

definition usb_video_module_normal :: "platform \<Rightarrow> 'a usb_remote_scheme \<Rightarrow> 'a usb_remote_scheme" where
  "usb_video_module_normal P s =
     (let usb_video_button = (if cam_has_video_button P then KEY_VIDEO else KEY_SHOOT_FULL);
          pressed = (virtual_remote_state s = REMOTE_HALF_PRESS \<or>
                     virtual_remote_state s = REMOTE_FULL_PRESS) in
      case logic_module_state s of
        LM_RESET \<Rightarrow> s\<lparr>logic_module_state := LM_RELEASE\<rparr>
      | LM_RELEASE \<Rightarrow>
          if pressed
          then (kbd_key_press P usb_video_button s)\<lparr>logic_module_state := LM_START_RECORD\<rparr> else s
      | LM_START_RECORD \<Rightarrow>
          if virtual_remote_state s = REMOTE_RELEASE
          then kbd_key_release P usb_video_button (s\<lparr>logic_module_state := LM_RECORDING\<rparr>) else s
      | LM_RECORDING \<Rightarrow>
          if pressed
          then (kbd_key_press P usb_video_button s)\<lparr>logic_module_state := LM_STOP_RECORDING\<rparr> else s
      | LM_STOP_RECORDING \<Rightarrow>
          if virtual_remote_state s = REMOTE_RELEASE
          then kbd_key_release P usb_video_button (s\<lparr>logic_module_state := LM_RELEASE\<rparr>) else s
      | _ \<Rightarrow> s)"

section \<open>Jump tables\<close>

text \<open>\<open>None\<close> is an index outside the table's \<open>NUM_USB_MODULES\<close> entries.\<close>

definition usb_null_module :: "'a usb_remote_scheme \<Rightarrow> 'a usb_remote_scheme" where
  "usb_null_module s = s"

definition table_at :: "'f list \<Rightarrow> int \<Rightarrow> 'f option" where
  "table_at fs i = (if 0 \<le> i \<and> i < int (length fs) then Some (fs ! nat i) else None)"

definition usb_module_play ::
  "platform \<Rightarrow> ('a usb_remote_scheme \<Rightarrow> 'a usb_remote_scheme) list" where
  "usb_module_play P =
     [usb_null_module, usb_playback_module P, usb_playback_module P, usb_playback_module P,
      usb_playback_module P, usb_playback_module P, usb_playback_module P, usb_playback_module P,
      usb_playback_module P, usb_null_module]"

definition usb_module_shoot ::
  "platform \<Rightarrow> 'b as_code \<Rightarrow> ('a usb_remote_scheme \<Rightarrow> 'a usb_remote_scheme) list" where
  "usb_module_shoot P M =
     [usb_null_module, usb_shoot_module_normal P M, usb_shoot_module_quick M,
      usb_shoot_module_burst M, usb_shoot_module_bracketing P, usb_shoot_module_zoom P M,
      usb_video_module_normal P, usb_null_module, usb_null_module, usb_null_module]"

definition usb_module_video ::
  "platform \<Rightarrow> ('a usb_remote_scheme \<Rightarrow> 'a usb_remote_scheme) list" where
  "usb_module_video P =
     [usb_null_module, usb_video_module_normal P, usb_video_module_normal P, usb_null_module,
      usb_null_module, usb_null_module, usb_video_module_normal P, usb_null_module,
      usb_null_module, usb_null_module]"

section \<open>One timeslice of the USB remote\<close>

definition lm_active :: "logic_module_st \<Rightarrow> bool" where
  "lm_active l \<longleftrightarrow> l \<noteq> LM_RESET \<and> l \<noteq> LM_RELEASE"

definition sw_active :: "driver_st \<Rightarrow> bool" where
  "sw_active d \<longleftrightarrow> d \<noteq> SW_RESET \<and> d \<noteq> SW_IDLE"

definition remote_pressed :: "virtual_remote \<Rightarrow> bool" where
  "remote_pressed v \<longleftrightarrow> v \<noteq> REMOTE_RESET \<and> v \<noteq> REMOTE_RELEASE"

definition handle_usb_remote ::
  "platform \<Rightarrow> 'b as_code \<Rightarrow> 'a usb_remote_scheme \<Rightarrow> (int \<times> 'a usb_remote_scheme) option" where
  "handle_usb_remote P M s =
     (if conf_remote_enable s \<noteq> 0
      then let s1 = s\<lparr>camera_mode :=
               (if mode_play s then CAMERA_MODE_PLAYBACK
                else if mode_video s then CAMERA_MODE_VIDEO else CAMERA_MODE_SHOOTING)\<rparr>
           in do {
             driver \<leftarrow> usb_driver (switch_type s1);
             let (line, s2) = get_usb_power USB_STATE s1;
             let s3 = driver line s2;
             module \<leftarrow> (case camera_mode s3 of
                 CAMERA_MODE_PLAYBACK \<Rightarrow> table_at (usb_module_play P) (switch_type s3)
               | CAMERA_MODE_SHOOTING \<Rightarrow> table_at (usb_module_shoot P M) (control_module s3)
               | CAMERA_MODE_VIDEO \<Rightarrow> table_at (usb_module_video P) (control_module s3));
             let s4 = module s3;
             let s5 = s4\<lparr>usb_remote_active :=
               (if lm_active (logic_module_state s4) \<or> sw_active (driver_state s4) \<or>
                   remote_pressed (virtual_remote_state s4) then 1 else 0)\<rparr>;
             Some (usb_remote_active s5, s5)
           }
      else Some (usb_remote_active s, s))"

section \<open>What drivers and key presses leave alone\<close>

lemma driver_frame [simp]:
  assumes "usb_driver i = Some drv"
  shows "logic_module_state (drv v s) = logic_module_state s"
    "kbd_mod_state (drv v s) = kbd_mod_state s" "conf_synch_enable (drv v s) = conf_synch_enable s"
    "camera_mode (drv v s) = camera_mode s" "switch_type (drv v s) = switch_type s"
    "control_module (drv v s) = control_module s" "mode_play (drv v s) = mode_play s"
    "mode_video (drv v s) = mode_video s" "conf_remote_enable (drv v s) = conf_remote_enable s"
    "usb_state (drv v s) = usb_state s" "tick_count (drv v s) = tick_count s"
  using assms
  by (cases "driver_state s"; auto simp: usb_driver_def driver_defs Let_def split: if_splits)+

lemma key_frame [simp]:
  "virtual_remote_state (kbd_key_press P k s) = virtual_remote_state s"
  "driver_state (kbd_key_press P k s) = driver_state s"
  "logic_module_state (kbd_key_press P k s) = logic_module_state s"
  "playback_direction (kbd_key_press P k s) = playback_direction s"
  "virtual_remote_state (kbd_key_release P k s) = virtual_remote_state s"
  "driver_state (kbd_key_release P k s) = driver_state s"
  "logic_module_state (kbd_key_release P k s) = logic_module_state s"
  "playback_direction (kbd_key_release P k s) = playback_direction s"
  by (auto simp: kbd_key_press_def kbd_key_release_def ext_call_def split: option.splits)

section \<open>The shutter keys follow the switch\<close>

text \<open>
  On a port the full press key's bits include the half press key's. \<open>shutter_ok\<close> says what
  the word of both keys reads in each state of the normal module.
\<close>

definition shutter_keys :: "platform \<Rightarrow> keymap_entry \<Rightarrow> keymap_entry \<Rightarrow> bool" where
  "shutter_keys P h f \<longleftrightarrow> find_key (keymap P) KEY_SHOOT_HALF = Some h \<and>
     find_key (keymap P) KEY_SHOOT_FULL = Some f \<and> grp h = grp f \<and>
     canonkey h AND canonkey f = canonkey h"

fun shutter_ok :: "logic_module_st \<Rightarrow> u32 \<Rightarrow> u32 \<Rightarrow> u32 \<Rightarrow> bool" where
  "shutter_ok LM_RESET h f x = True"
| "shutter_ok LM_RELEASE h f x = (x AND f = f)"
| "shutter_ok LM_HALF_PRESS h f x = (x AND f = f AND NOT h)"
| "shutter_ok LM_FULL_PRESS h f x = (x AND f = 0)"
| "shutter_ok _ h f x = False"

fun lm_of :: "virtual_remote \<Rightarrow> logic_module_st" where
  "lm_of REMOTE_RESET = LM_RESET"
| "lm_of REMOTE_RELEASE = LM_RELEASE"
| "lm_of REMOTE_HALF_PRESS = LM_HALF_PRESS"
| "lm_of REMOTE_FULL_PRESS = LM_FULL_PRESS"

lemma shutter_words:
  fixes h f x :: u32
  assumes "h AND f = h"
  shows "((x OR f) OR h) AND f = f"
    and "x AND f = f \<Longrightarrow> (x AND NOT h) AND f = f AND NOT h"
    and "((x AND NOT h) AND NOT f) AND f = 0" and "(x AND NOT f) AND f = 0"
    and "x AND f = f AND NOT h \<Longrightarrow> (x OR h) AND f = f"
  using assms by (auto simp: bit_eq_iff bit_simps)

lemma shutter_move:
  assumes "shutter_keys P h f"
  shows "kbd_key_press P KEY_SHOOT_HALF s =
      s\<lparr>kbd_mod_state := clear_word (grp f) (canonkey h) (kbd_mod_state s)\<rparr>"
    and "kbd_key_press P KEY_SHOOT_FULL s =
      s\<lparr>kbd_mod_state := clear_word (grp f) (canonkey f) (kbd_mod_state s)\<rparr>"
    and "kbd_key_release P KEY_SHOOT_HALF s =
      s\<lparr>kbd_mod_state := set_word (grp f) (canonkey h) (kbd_mod_state s)\<rparr>"
    and "kbd_key_release P KEY_SHOOT_FULL s =
      s\<lparr>kbd_mod_state := set_word (grp f) (canonkey f) (kbd_mod_state s)\<rparr>"
  using assms by (auto simp: shutter_keys_def press_mod release_mod simulated_video_def key_defs)

lemma shoot_normal_direct_lockstep:
  assumes k: "shutter_keys P h f"
    and ok: "shutter_ok (logic_module_state s) (canonkey h) (canonkey f) (kbd_mod_state s (grp f))"
    and v: "virtual_remote_state s \<noteq> REMOTE_RESET"
    and reset: "logic_module_state s = LM_RESET \<Longrightarrow> virtual_remote_state s = REMOTE_RELEASE"
    and full: "logic_module_state s = LM_FULL_PRESS \<Longrightarrow> virtual_remote_state s \<noteq> REMOTE_HALF_PRESS"
  shows "let s' = shoot_normal_direct P s
    in logic_module_state s' = lm_of (virtual_remote_state s) \<and>
       virtual_remote_state s' = virtual_remote_state s \<and> driver_state s' = driver_state s \<and>
       shutter_ok (logic_module_state s') (canonkey h) (canonkey f) (kbd_mod_state s' (grp f))"
proof -
  have hf: "canonkey h AND canonkey f = canonkey h" using k by (simp add: shutter_keys_def)
  note w = shutter_words [OF hf]
  show ?thesis
    using ok v reset full w
    by (cases "logic_module_state s"; cases "virtual_remote_state s")
      (auto simp: shoot_normal_direct_def shutter_move [OF k] clear_word_def set_word_def Let_def)
qed

text \<open>The configuration of a remote that takes pictures, without synchronisation.\<close>

definition shooting_remote :: "'a usb_remote_scheme \<Rightarrow> bool" where
  "shooting_remote s \<longleftrightarrow> conf_remote_enable s \<noteq> 0 \<and> \<not> mode_play s \<and> \<not> mode_video s \<and>
     control_module s = 1 \<and> conf_synch_enable s = 0 \<and> switch_type s \<in> {1, 2, 3}"

definition switch_ok :: "'a usb_remote_scheme \<Rightarrow> bool" where
  "switch_ok s = (if switch_type s = 1 then one_press_ok s
     else if switch_type s = 2 then two_press_ok s else ricoh_ok s)"

definition remote_ok :: "keymap_entry \<Rightarrow> keymap_entry \<Rightarrow> 'a usb_remote_scheme \<Rightarrow> bool" where
  "remote_ok h f s \<longleftrightarrow> shooting_remote s \<and> switch_ok s \<and>
     logic_module_state s = lm_of (virtual_remote_state s) \<and>
     shutter_ok (logic_module_state s) (canonkey h) (canonkey f) (kbd_mod_state s (grp f))"

definition remote_slice ::
  "platform \<Rightarrow> 'b as_code \<Rightarrow> u32 \<times> int \<Rightarrow> 'a usb_remote_scheme \<Rightarrow> 'a usb_remote_scheme option" where
  "remote_slice P M i s =
     map_option snd (handle_usb_remote P M (s\<lparr>tick_count := fst i, usb_state := snd i\<rparr>))"

fun remote_run ::
  "platform \<Rightarrow> 'b as_code \<Rightarrow> (u32 \<times> int) list \<Rightarrow> 'a usb_remote_scheme \<Rightarrow> 'a usb_remote_scheme option" where
  "remote_run P M [] s = Some s"
| "remote_run P M (i # ins) s = do { s1 \<leftarrow> remote_slice P M i s; remote_run P M ins s1 }"

lemma switch_step:
  assumes ok: "switch_ok s" and d: "usb_driver (switch_type s) = Some drv"
    and t: "switch_type s \<in> {1, 2, 3}"
  shows "switch_ok (drv v s)" and "virtual_remote_state (drv v s) \<noteq> REMOTE_RESET"
    and "virtual_remote_state s = REMOTE_RESET \<Longrightarrow> virtual_remote_state (drv v s) = REMOTE_RELEASE"
    and "virtual_remote_state s = REMOTE_FULL_PRESS \<Longrightarrow>
      virtual_remote_state (drv v s) \<noteq> REMOTE_HALF_PRESS"
proof -
  consider "switch_type s = 1" "drv = usb_one_press_switch" | "switch_type s = 2" "drv = usb_two_press_switch"
    | "switch_type s = 3" "drv = usb_ricoh_ca1_switch"
    using d t by (auto simp: usb_driver_def)
  then have "switch_ok (drv v s) \<and> virtual_remote_state (drv v s) \<noteq> REMOTE_RESET \<and>
      (virtual_remote_state s = REMOTE_RESET \<longrightarrow> virtual_remote_state (drv v s) = REMOTE_RELEASE) \<and>
      (virtual_remote_state s = REMOTE_FULL_PRESS \<longrightarrow>
         virtual_remote_state (drv v s) \<noteq> REMOTE_HALF_PRESS)"
  proof cases
    case 1
    with ok d show ?thesis
      by (cases "driver_state s")
        (simp_all add: switch_ok_def one_press_ok_def usb_one_press_switch_def Let_def)
  next
    case 2
    with ok d show ?thesis
      by (cases "driver_state s")
        (simp_all add: switch_ok_def two_press_ok_def usb_two_press_switch_def Let_def)
  next
    case 3
    with ok d show ?thesis
      by (cases "driver_state s")
        (auto simp: switch_ok_def ricoh_ok_def released_or_half_def usb_ricoh_ca1_switch_def Let_def)
  qed
  then show "switch_ok (drv v s)" and "virtual_remote_state (drv v s) \<noteq> REMOTE_RESET"
    and "virtual_remote_state s = REMOTE_RESET \<Longrightarrow> virtual_remote_state (drv v s) = REMOTE_RELEASE"
    and "virtual_remote_state s = REMOTE_FULL_PRESS \<Longrightarrow>
      virtual_remote_state (drv v s) \<noteq> REMOTE_HALF_PRESS"
    by blast+
qed

lemma key_config:
  "switch_type (kbd_key_press P k s) = switch_type s"
  "control_module (kbd_key_press P k s) = control_module s"
  "conf_synch_enable (kbd_key_press P k s) = conf_synch_enable s"
  "conf_remote_enable (kbd_key_press P k s) = conf_remote_enable s"
  "mode_play (kbd_key_press P k s) = mode_play s" "mode_video (kbd_key_press P k s) = mode_video s"
  "switch_type (kbd_key_release P k s) = switch_type s"
  "control_module (kbd_key_release P k s) = control_module s"
  "conf_synch_enable (kbd_key_release P k s) = conf_synch_enable s"
  "conf_remote_enable (kbd_key_release P k s) = conf_remote_enable s"
  "mode_play (kbd_key_release P k s) = mode_play s" "mode_video (kbd_key_release P k s) = mode_video s"
  by (auto simp: kbd_key_press_def kbd_key_release_def ext_call_def split: option.splits)

lemma usb_driver_config: "switch_type s \<in> {1, 2, 3} \<Longrightarrow> \<exists>drv. usb_driver (switch_type s) = Some drv"
  by (auto simp: usb_driver_def)

lemma direct_config [simp]:
  "shooting_remote (shoot_normal_direct P s) = shooting_remote s"
  "switch_type (shoot_normal_direct P s) = switch_type s"
  by (cases "logic_module_state s"; cases "virtual_remote_state s";
      simp add: shoot_normal_direct_def shooting_remote_def key_config)+

lemma handle_shooting:
  assumes c: "shooting_remote s" and d: "usb_driver (switch_type s) = Some drv"
  shows "\<exists>a. handle_usb_remote P M s = Some (a, (shoot_normal_direct P
      (drv (usb_state s) (s\<lparr>camera_mode := CAMERA_MODE_SHOOTING\<rparr>)))\<lparr>usb_remote_active := a\<rparr>)"
  using c d
  by (auto simp: handle_usb_remote_def shooting_remote_def table_at_def usb_module_shoot_def
      usb_shoot_module_normal_def Let_def)

lemma switch_ok_fields:
  assumes "virtual_remote_state t = virtual_remote_state s" and "driver_state t = driver_state s"
    and "switch_type t = switch_type s"
  shows "switch_ok t = switch_ok s"
  using assms by (cases "driver_state s")
    (simp_all add: switch_ok_def one_press_ok_def two_press_ok_def ricoh_ok_def released_or_half_def)

lemma ok_congs [simp]:
  "shooting_remote (s\<lparr>usb_remote_active := a\<rparr>) = shooting_remote s"
  "switch_ok (s\<lparr>usb_remote_active := a\<rparr>) = switch_ok s"
  "shooting_remote (s\<lparr>camera_mode := m\<rparr>) = shooting_remote s"
  "switch_ok (s\<lparr>camera_mode := m\<rparr>) = switch_ok s"
  "shooting_remote (s\<lparr>tick_count := t, usb_state := v\<rparr>) = shooting_remote s"
  "switch_ok (s\<lparr>tick_count := t, usb_state := v\<rparr>) = switch_ok s"
  "shooting_remote (s\<lparr>tick_count := t, usb_state := v, camera_mode := m\<rparr>) = shooting_remote s"
  "switch_ok (s\<lparr>tick_count := t, usb_state := v, camera_mode := m\<rparr>) = switch_ok s"
  by (simp_all only: shooting_remote_def, simp_all) (rule switch_ok_fields; simp)+

lemma driver_config:
  "usb_driver (switch_type s) = Some drv \<Longrightarrow> shooting_remote (drv v s) = shooting_remote s"
  by (simp add: shooting_remote_def)

lemma remote_slice_ok:
  fixes s :: "'a usb_remote_scheme"
  assumes k: "shutter_keys P h f" and ok: "remote_ok h f s"
  shows "\<exists>s'. remote_slice P M i s = Some s' \<and> remote_ok h f s' \<and>
    virtual_remote_state s' \<noteq> REMOTE_RESET"
proof -
  let ?s = "s\<lparr>tick_count := fst i, usb_state := snd i, camera_mode := CAMERA_MODE_SHOOTING\<rparr>"
  have c: "shooting_remote s" and sw: "switch_ok s"
    and lm: "logic_module_state s = lm_of (virtual_remote_state s)"
    and sh: "shutter_ok (logic_module_state s) (canonkey h) (canonkey f) (kbd_mod_state s (grp f))"
    using ok unfolding remote_ok_def by blast+
  obtain drv :: "int \<Rightarrow> 'a usb_remote_scheme \<Rightarrow> 'a usb_remote_scheme"
    where d: "usb_driver (switch_type s) = Some drv"
    using usb_driver_config c by (auto simp: shooting_remote_def)
  let ?u = "drv (snd i) ?s" let ?w = "shoot_normal_direct P ?u"
  have d': "usb_driver (switch_type ?s) = Some drv" and t: "switch_type ?s \<in> {1, 2, 3}"
    and sw': "switch_ok ?s" and c': "shooting_remote ?s"
    using d c sw by (simp_all add: shooting_remote_def)
  note u = switch_step [OF sw' d' t]
  have r: "virtual_remote_state ?u = REMOTE_RELEASE" if "logic_module_state ?u = LM_RESET"
    using that u(3) lm d' by (cases "virtual_remote_state s") simp_all
  have sh': "shutter_ok (logic_module_state ?u) (canonkey h) (canonkey f) (kbd_mod_state ?u (grp f))"
    using sh d' by simp
  have fl: "virtual_remote_state ?u \<noteq> REMOTE_HALF_PRESS" if "logic_module_state ?u = LM_FULL_PRESS"
    using that u(4) lm d' by (cases "virtual_remote_state s") simp_all
  from shoot_normal_direct_lockstep [OF k sh' u(2) r fl]
  have w: "logic_module_state ?w = lm_of (virtual_remote_state ?u)"
    "virtual_remote_state ?w = virtual_remote_state ?u" "driver_state ?w = driver_state ?u"
    "shutter_ok (logic_module_state ?w) (canonkey h) (canonkey f) (kbd_mod_state ?w (grp f))"
    unfolding Let_def by blast+
  have cfg: "shooting_remote ?w" using driver_config [OF d'] c' by simp
  have swo: "switch_ok ?w" using switch_ok_fields [OF w(2,3)] u(1) by simp
  have "usb_driver (switch_type (s\<lparr>tick_count := fst i, usb_state := snd i\<rparr>)) = Some drv"
    using d by simp
  from handle_shooting [OF _ this, of P M] c
  obtain a where "remote_slice P M i s = Some (?w\<lparr>usb_remote_active := a\<rparr>)"
    by (auto simp: remote_slice_def)
  moreover have "remote_ok h f (?w\<lparr>usb_remote_active := a\<rparr>)"
    using w cfg swo by (simp add: remote_ok_def)
  ultimately show ?thesis using u(2) w(2) by auto
qed

lemma remote_run_ok:
  assumes "shutter_keys P h f" and "remote_ok h f s"
  shows "\<exists>s'. remote_run P M ins s = Some s' \<and> remote_ok h f s' \<and>
    (ins \<noteq> [] \<longrightarrow> virtual_remote_state s' \<noteq> REMOTE_RESET)"
  using assms(2)
proof (induction ins arbitrary: s)
  case (Cons i ins)
  obtain s1 where s1: "remote_slice P M i s = Some s1" "remote_ok h f s1"
    "virtual_remote_state s1 \<noteq> REMOTE_RESET"
    using remote_slice_ok [OF assms(1) Cons.prems] by blast
  with Cons.IH [OF s1(2)] show ?case by (cases ins) auto
qed simp

section \<open>Keys of the playback and video modules\<close>

definition playback_keys :: "platform \<Rightarrow> keymap_entry \<Rightarrow> keymap_entry \<Rightarrow> bool" where
  "playback_keys P l r \<longleftrightarrow> find_key (keymap P) KEY_LEFT = Some l \<and>
     find_key (keymap P) KEY_RIGHT = Some r \<and> keys_disjoint l r \<and> keys_disjoint r l"

definition key_up :: "keymap_entry \<Rightarrow> 'a keyboard_scheme \<Rightarrow> bool" where
  "key_up e s \<longleftrightarrow> key_bits e (kbd_mod_state s) = canonkey e"

definition key_down :: "keymap_entry \<Rightarrow> 'a keyboard_scheme \<Rightarrow> bool" where
  "key_down e s \<longleftrightarrow> key_bits e (kbd_mod_state s) = 0"

definition playback_ok :: "keymap_entry \<Rightarrow> keymap_entry \<Rightarrow> 'a usb_remote_scheme \<Rightarrow> bool" where
  "playback_ok l r s \<longleftrightarrow> (case logic_module_state s of
       LM_RESET \<Rightarrow> key_up l s \<and> key_up r s
     | LM_RELEASE \<Rightarrow> key_up l s \<and> key_up r s
     | LM_KEY_PRESS \<Rightarrow> (if playback_direction s then key_down l s \<and> key_up r s
                       else key_down r s \<and> key_up l s)
     | _ \<Rightarrow> False)"

text \<open>One timeslice of the playback module: the clock and the number of pulses counted.\<close>

definition playback_slice :: "platform \<Rightarrow> u32 \<times> int \<Rightarrow> 'a usb_remote_scheme \<Rightarrow> 'a usb_remote_scheme" where
  "playback_slice P i s =
     usb_playback_module P (s\<lparr>tick_count := fst i, logic_module_usb_count := snd i\<rparr>)"

lemma key_move:
  assumes "find_key (keymap P) k = Some e" and "\<not> simulated_video P k"
  shows "kbd_mod_state (kbd_key_press P k s) = clear_word (grp e) (canonkey e) (kbd_mod_state s)"
    and "kbd_mod_state (kbd_key_release P k s) = set_word (grp e) (canonkey e) (kbd_mod_state s)"
  using assms by (simp_all add: press_mod release_mod)

lemma playback_step:
  assumes k: "playback_keys P l r" and ok: "playback_ok l r s"
  shows "playback_ok l r (playback_slice P i s)"
proof -
  have v: "\<not> simulated_video P KEY_LEFT" "\<not> simulated_video P KEY_RIGHT"
    by (simp_all add: simulated_video_def key_defs)
  have f: "find_key (keymap P) KEY_LEFT = Some l" "find_key (keymap P) KEY_RIGHT = Some r"
    and d: "keys_disjoint l r" "keys_disjoint r l"
    using k by (simp_all add: playback_keys_def)
  note m = key_move [OF f(1) v(1)] key_move [OF f(2) v(2)]
  show ?thesis
    using ok
    by (cases "logic_module_state s")
      (auto simp: playback_ok_def playback_slice_def usb_playback_module_def Let_def m key_up_def
        key_down_def key_bits_disjoint [OF d(1)] key_bits_disjoint [OF d(2)])
qed

definition video_key :: "platform \<Rightarrow> int" where
  "video_key P = (if cam_has_video_button P then KEY_VIDEO else KEY_SHOOT_FULL)"

definition video_ok :: "keymap_entry \<Rightarrow> 'a usb_remote_scheme \<Rightarrow> bool" where
  "video_ok e s \<longleftrightarrow> (case logic_module_state s of
       LM_RESET \<Rightarrow> key_up e s
     | LM_RELEASE \<Rightarrow> key_up e s
     | LM_START_RECORD \<Rightarrow> key_down e s
     | LM_RECORDING \<Rightarrow> key_up e s
     | LM_STOP_RECORDING \<Rightarrow> key_down e s
     | _ \<Rightarrow> False)"

definition video_slice :: "platform \<Rightarrow> virtual_remote \<Rightarrow> 'a usb_remote_scheme \<Rightarrow> 'a usb_remote_scheme" where
  "video_slice P v s = usb_video_module_normal P (s\<lparr>virtual_remote_state := v\<rparr>)"

lemma video_step:
  assumes f: "find_key (keymap P) (video_key P) = Some e" and v: "\<not> simulated_video P (video_key P)"
    and ok: "video_ok e s"
  shows "video_ok e (video_slice P i s)"
proof -
  note m = key_move [OF f v]
  show ?thesis
    using ok
    by (cases "logic_module_state s")
      (auto simp: video_ok_def video_slice_def usb_video_module_normal_def Let_def
        video_key_def [symmetric] m key_up_def key_down_def)
qed

text \<open>The keys a port assigns are part of the machine's invariant: it is vacuous on other ports.\<close>

interpretation playback: timeslice_machine "playback_slice P"
  "\<lambda>s. \<exists>l r. playback_keys P l r \<and> playback_ok l r s" for P
  by unfold_locales (blast intro: playback_step)

interpretation video: timeslice_machine "video_slice P"
  "\<lambda>s. \<exists>e. find_key (keymap P) (video_key P) = Some e \<and> \<not> simulated_video P (video_key P) \<and>
     video_ok e s" for P
  by unfold_locales (blast intro: video_step)

section \<open>Properties\<close>

text \<open>C4: the shutter keys follow the remote switch. With the remote enabled for taking pictures
  with the normal module, a one press, two press or CA-1 switch and no synchronisation, start from the state
  that \<open>set_usb_remote_state\<close> leaves. Every timeslice then finds its driver and module, and after each
  of them, however the line behaves: while the virtual switch is released both shutter keys
  are fully up (no key is left down), while it is fully pressed every bit of both is down, and while it is half pressed the half press key is down and
  the bits that only the full press has are up.\<close>

theorem remote_shutter_follows_switch:
  assumes "shutter_keys P h f" and "shooting_remote s" and "ins \<noteq> []"
  shows "\<exists>s'. remote_run P M ins (set_usb_remote_state (s\<lparr>conf_remote_switch_type := switch_type s,
        conf_remote_control_mode := 1\<rparr>)) = Some s' \<and>
    (case virtual_remote_state s' of
       REMOTE_RESET \<Rightarrow> False
     | REMOTE_RELEASE \<Rightarrow> key_bits f (kbd_mod_state s') = canonkey f \<and>
                       key_bits h (kbd_mod_state s') = canonkey h
     | REMOTE_HALF_PRESS \<Rightarrow> key_bits f (kbd_mod_state s') = canonkey f AND NOT (canonkey h) \<and>
                       key_bits h (kbd_mod_state s') = 0
     | REMOTE_FULL_PRESS \<Rightarrow> key_bits f (kbd_mod_state s') = 0 \<and> key_bits h (kbd_mod_state s') = 0)"
proof -
  let ?s = "set_usb_remote_state (s\<lparr>conf_remote_switch_type := switch_type s, conf_remote_control_mode := 1\<rparr>)"
  have "remote_ok h f ?s"
    using assms(2)
    by (simp add: remote_ok_def shooting_remote_def switch_ok_def set_usb_remote_state_def Let_def
        one_press_ok_def two_press_ok_def ricoh_ok_def)
  from remote_run_ok [OF assms(1) this, of M ins] assms(3) obtain s' where
    s': "remote_run P M ins ?s = Some s'" "remote_ok h f s'" "virtual_remote_state s' \<noteq> REMOTE_RESET"
    by blast
  have hf: "canonkey h AND canonkey f = canonkey h" "grp h = grp f"
    using assms(1) by (simp_all add: shutter_keys_def)
  have up: "x AND canonkey f = canonkey f \<Longrightarrow> x AND canonkey h = canonkey h"
    "x AND canonkey f = 0 \<Longrightarrow> x AND canonkey h = 0"
    "x AND canonkey f = canonkey f AND NOT (canonkey h) \<Longrightarrow> x AND canonkey h = 0" for x
    using hf(1) by (auto simp: bit_eq_iff bit_simps)
  show ?thesis
    using s' up hf(2) by (cases "virtual_remote_state s'") (auto simp: remote_ok_def key_bits_def)
qed

lemma a570_shutter_keys:
  "shutter_keys a570_platform \<lparr>grp = 1, hackkey = 6, canonkey = 0x40000000\<rparr>
     \<lparr>grp = 1, hackkey = 7, canonkey = 0xC0000000\<rparr>"
  by (simp add: shutter_keys_def a570_find_key)

definition usb_shooting :: usb_remote where
  "usb_shooting = usb_init\<lparr>conf_remote_enable := 1, mode_play := False, mode_video := False,
     control_module := 1, conf_synch_enable := 0, switch_type := 1\<rparr>"

theorem remote_shutter_follows_switch_witness:
  "\<exists>s'. remote_run a570_platform demo_code [(10, 0), (20, 1), (40, 1), (60, 0)]
     (set_usb_remote_state (usb_shooting\<lparr>conf_remote_switch_type := 1,
        conf_remote_control_mode := 1\<rparr>)) = Some s'"
proof -
  have "shooting_remote usb_shooting" "switch_type usb_shooting = 1"
    by (simp_all add: shooting_remote_def usb_shooting_def)
  with remote_shutter_follows_switch [OF a570_shutter_keys, of usb_shooting
      "[(10, 0), (20, 1), (40, 1), (60, 0)]" demo_code]
  show ?thesis by auto
qed

text \<open>The playback and the video module leave no key down. After any run from a state in their
  invariant, the playback module has exactly the key of the current direction down while it
  clicks it (100 ms), and both arrow keys up otherwise; the video module has its button down only
  between a press and a release of the switch that starts or stops a recording.\<close>

theorem playback_video_keys:
  assumes "playback_keys P l r" and "playback_ok l r s"
    and "find_key (keymap P) (video_key P) = Some e" and "\<not> simulated_video P (video_key P)"
    and "video_ok e s'"
  shows "playback_ok l r (fold (playback_slice P) ins s) \<and> video_ok e (fold (video_slice P) vs s')"
  using playback.run_inv [of P s ins] video.run_inv [of P s' vs] assms
  by (auto simp: playback_keys_def)

theorem playback_video_keys_witness:
  "playback_ok \<lparr>grp = 2, hackkey = 3, canonkey = 0x80\<rparr> \<lparr>grp = 2, hackkey = 4, canonkey = 0x40\<rparr>
     (fold (playback_slice a570_platform) [(0, 0), (10, 1), (20, 0)] usb_init)"
  using playback_video_keys [of a570_platform "\<lparr>grp = 2, hackkey = 3, canonkey = 0x80\<rparr>"
      "\<lparr>grp = 2, hackkey = 4, canonkey = 0x40\<rparr>" usb_init
      "\<lparr>grp = 1, hackkey = 7, canonkey = 0xC0000000\<rparr>" usb_init "[(0, 0), (10, 1), (20, 0)]" "[]"]
  by (simp add: playback_keys_def a570_find_key keys_disjoint_def playback_ok_def video_key_def
      simulated_video_def video_ok_def key_up_def key_bits_def del: fold_simps)

text \<open>A zoom step stays in range and makes progress. From a position in the range it
  asks for one position of the range, further out or in unless the end is reached, at most a step
  and a half away, and either the end itself or more than half a step short of it; in play mode it
  does nothing.\<close>

theorem usb_zoom_step_bounds:
  assumes "0 \<le> zoom_pos s" and "zoom_pos s \<le> zoom_points P" and "0 < zoom_points P"
  shows "(mode_play s \<longrightarrow> usb_zoom_step P d s = s) \<and>
    (\<not> mode_play s \<longrightarrow> (\<exists>n. usb_zoom_step P d s = ext_call (ShootingSetZoom n) s \<and>
       0 \<le> n \<and> n \<le> zoom_points P \<and>
       \<bar>n - zoom_pos s\<bar> \<le> zoom_step_size (zoom_points P) + zoom_step_size (zoom_points P) div 2 \<and>
       (if d > 0 then (zoom_pos s < zoom_points P \<longrightarrow> zoom_pos s < n) \<and>
           (n = zoom_points P \<or> zoom_points P - n > zoom_step_size (zoom_points P) div 2)
        else (0 < zoom_pos s \<longrightarrow> n < zoom_pos s) \<and>
           (n = 0 \<or> n > zoom_step_size (zoom_points P) div 2))))"
proof -
  define z where "z = zoom_step_size (zoom_points P)"
  have "0 < z" "0 \<le> z div 2" by (auto simp: z_def zoom_step_size_def)
  then show ?thesis
    using assms unfolding z_def [symmetric] usb_zoom_step_def Let_def by auto
qed

theorem usb_zoom_step_bounds_witness:
  "\<exists>n. usb_zoom_step a570_platform 1 usb_init = ext_call (ShootingSetZoom n) usb_init \<and> 0 < n \<and> n \<le> 15"
proof -
  have i: "zoom_pos usb_init = 0" "\<not> mode_play usb_init"
    by (simp_all add: usb_init_def usb_remote.defs as_state.defs as_init_def keyboard.defs kbd_init_def)
  show ?thesis using usb_zoom_step_bounds [of usb_init a570_platform 1] i by auto
qed

text \<open>One press, one shot: what a held switch does to the quick module.\<close>

definition quick_slice ::
  "'b as_code \<Rightarrow> virtual_remote \<Rightarrow> 'a usb_remote_scheme \<Rightarrow> 'a usb_remote_scheme" where
  "quick_slice M v s = usb_shoot_module_quick M (s\<lparr>virtual_remote_state := v\<rparr>)"

definition shots :: "'a usb_remote_scheme \<Rightarrow> nat list \<times> (nat \<Rightarrow> action_stack_t) \<times> u32" where
  "shots s = (action_stacks s, as_nodes s, task_comp_id s)"

lemma create_shots:
  "shots (snd (action_stack_create M f (s\<lparr>virtual_remote_state := v\<rparr>))) =
     shots (snd (action_stack_create M f s))"
  "fst (action_stack_create M f (s\<lparr>virtual_remote_state := v\<rparr>)) = fst (action_stack_create M f s)"
  by (auto simp: shots_def action_stack_create_def as_get_block_def Let_def split: list.splits)

lemma quick_held:
  assumes "logic_module_state s = LM_FULL_PRESS" and "\<forall>v \<in> set vs. v \<noteq> REMOTE_RELEASE"
  shows "shots (fold (quick_slice M) vs s) = shots s \<and>
    quick_stack_name (fold (quick_slice M) vs s) = quick_stack_name s \<and>
    logic_module_state (fold (quick_slice M) vs s) = LM_FULL_PRESS"
  using assms
  by (induction vs arbitrary: s) (auto simp: quick_slice_def usb_shoot_module_quick_def shots_def)

text \<open>The quick module takes one shot per press. From its released state, a press of
  the switch starts one action stack, and however long the switch is then held no other is started; when the switch
  is released the module is ready again exactly when that shot's stack has finished.\<close>

theorem quick_one_shot_per_press:
  assumes "logic_module_state s = LM_RELEASE" and "remote_pressed v" and "\<forall>v \<in> set vs. remote_pressed v"
  shows "let (c, s1) = action_stack_create M AS_SHOOT s; t = fold (quick_slice M) (v # vs) s
    in shots t = shots s1 \<and>
       (logic_module_state (quick_slice M REMOTE_RELEASE t) = LM_RELEASE \<longleftrightarrow>
          action_stack_is_finished c t)"
proof -
  let ?s = "s\<lparr>virtual_remote_state := v\<rparr>"
  have v: "v = REMOTE_HALF_PRESS \<or> v = REMOTE_FULL_PRESS"
    using assms(2) by (cases v) (simp_all add: remote_pressed_def)
  have vs: "\<forall>v \<in> set vs. v \<noteq> REMOTE_RELEASE"
    using assms(3) by (auto simp: remote_pressed_def)
  obtain c s1 where c: "action_stack_create M AS_SHOOT ?s = (c, s1)" by fastforce
  let ?u = "s1\<lparr>quick_stack_name := c, logic_module_state := LM_FULL_PRESS\<rparr>"
  have u: "quick_slice M v s = ?u"
    using assms(1) v c by (auto simp: quick_slice_def usb_shoot_module_quick_def)
  have h: "shots (fold (quick_slice M) vs ?u) = shots s1"
    "quick_stack_name (fold (quick_slice M) vs ?u) = c"
    "logic_module_state (fold (quick_slice M) vs ?u) = LM_FULL_PRESS"
    using quick_held [of ?u vs M] vs by (simp_all add: shots_def)
  have "shots s1 = shots (snd (action_stack_create M AS_SHOOT s))"
    "c = fst (action_stack_create M AS_SHOOT s)"
    using create_shots [where M = M and f = AS_SHOOT and s = s and v = v] c by simp_all
  then show ?thesis
    using h u
    by (auto simp: quick_slice_def usb_shoot_module_quick_def action_stack_is_finished_def
        split: prod.splits)
qed

theorem quick_one_shot_per_press_witness:
  "length (fst (shots (fold (quick_slice demo_code) [REMOTE_HALF_PRESS, REMOTE_FULL_PRESS]
     (usb_init\<lparr>logic_module_state := LM_RELEASE\<rparr>)))) = 1"
  using quick_one_shot_per_press [of "usb_init\<lparr>logic_module_state := LM_RELEASE\<rparr>" REMOTE_HALF_PRESS
      "[REMOTE_FULL_PRESS]" demo_code]
  by (simp add: remote_pressed_def shots_def action_stack_create_def as_get_block_def
      MAX_ACTION_STACKS_def Let_def del: fold_simps)

lemma table_at_None: "table_at fs i = None \<longleftrightarrow> i < 0 \<or> int (length fs) \<le> i"
  by (auto simp: table_at_def)

lemma usb_driver_None: "usb_driver i = None \<longleftrightarrow> i < 0 \<or> 5 \<le> i"
  by (auto simp: usb_driver_def)

text \<open>A timeslice of the remote jumps outside its tables exactly when it is enabled and the switch type
  is not one of the five drivers, or, except in play mode, the control mode is not one of the
  ten modules. When it is disabled it changes nothing and returns the old activity flag.\<close>

theorem handle_usb_remote_defined:
  fixes s :: "'a usb_remote_scheme"
  shows "(handle_usb_remote P M s = None \<longleftrightarrow> conf_remote_enable s \<noteq> 0 \<and>
      (switch_type s \<notin> {0..<5} \<or> \<not> mode_play s \<and> control_module s \<notin> {0..<10})) \<and>
   (conf_remote_enable s = 0 \<longrightarrow> handle_usb_remote P M s = Some (usb_remote_active s, s))"
proof (cases "usb_driver (switch_type s) :: (int \<Rightarrow> 'a usb_remote_scheme \<Rightarrow> 'a usb_remote_scheme) option")
  case None
  then have "switch_type s < 0 \<or> 5 \<le> switch_type s" by (simp add: usb_driver_None)
  with None show ?thesis by (auto simp: handle_usb_remote_def Let_def)
next
  case (Some drv)
  then have "\<not> (switch_type s < 0 \<or> 5 \<le> switch_type s)" by (auto simp: usb_driver_def split: if_splits)
  then show ?thesis
    using Some table_at_None [of "usb_module_play P" "switch_type s"]
      table_at_None [of "usb_module_shoot P M" "control_module s"]
      table_at_None [of "usb_module_video P" "control_module s"]
    by (auto simp: handle_usb_remote_def Let_def bind_eq_None_conv usb_module_play_def
        usb_module_shoot_def usb_module_video_def split: if_splits)
qed

theorem handle_usb_remote_defined_witness:
  "handle_usb_remote a570_platform demo_code usb_init = Some (0, usb_init)"
  using handle_usb_remote_defined [of a570_platform demo_code usb_init]
  by (simp add: usb_init_def usb_remote.defs as_state.defs as_init_def keyboard.defs kbd_init_def)

text \<open>In play mode the module that runs is chosen by the type of the switch: with any switch that has a
  driver it is the playback module even if the control mode is \<open>None\<close>, and without a switch it
  is the null module whatever the control mode, although the table is documented as one of control modes.\<close>

theorem play_module_chosen_by_switch_type:
  fixes s :: "'a usb_remote_scheme"
  assumes "conf_remote_enable s \<noteq> 0" and "mode_play s"
    and "usb_driver (switch_type s) = Some (drv :: int \<Rightarrow> 'a usb_remote_scheme \<Rightarrow> 'a usb_remote_scheme)"
    and "switch_type s \<in> {0, 1, 2, 3}"
  shows "\<exists>a. handle_usb_remote P M s =
    Some (a, ((if switch_type s = 0 then usb_null_module else usb_playback_module P)
      (drv (usb_state s) (s\<lparr>camera_mode := CAMERA_MODE_PLAYBACK\<rparr>)))\<lparr>usb_remote_active := a\<rparr>)"
  using assms
  by (auto simp: handle_usb_remote_def Let_def table_at_def usb_module_play_def)

theorem play_module_chosen_by_switch_type_witness:
  "\<exists>a t. handle_usb_remote a570_platform demo_code
     (usb_init\<lparr>mode_play := True, conf_remote_enable := 1, control_module := 0, switch_type := 1\<rparr>) = Some (a, t) \<and>
     logic_module_state t = LM_RELEASE"
  using play_module_chosen_by_switch_type [of
      "usb_init\<lparr>mode_play := True, conf_remote_enable := 1, control_module := 0, switch_type := 1\<rparr>"
      usb_one_press_switch a570_platform demo_code]
  by (auto simp: usb_driver_def usb_playback_module_def usb_one_press_switch_def)

end
