(* ===== verification/RemoteCap.thy ===== *)
theory RemoteCap
  imports Camera
begin

text \<open>
  \<open>core/remotecap.c\<close>, capture of a shot over USB: the raw hook of the shooting task makes
  the requested data types available one after the other and waits for each to be transferred;
  the PTP task transfers them (\<open>RemoteCaptureGetData\<close> of \<open>core/ptp.c\<close>); the file write task does
  the same for the JPEG (\<open>platform/generic/filewrite.c\<close>). Modelled is the configuration without
  \<open>CAM_FILEWRITETASK_MULTIPASS\<close>.

  The waiting loops of the hooks are run with the other tasks: in the \<open>n\<close>th call of
  \<open>msleep(10)\<close> those perform the operations \<open>other_tasks E n\<close>. So a statement about a hook that
  holds for all \<open>E\<close> holds for every interleaving of the tasks at that granularity.
\<close>

section \<open>State\<close>

definition PTP_CHDK_CAPTURE_JPG :: u32 where "PTP_CHDK_CAPTURE_JPG = 0x1"
definition PTP_CHDK_CAPTURE_RAW :: u32 where "PTP_CHDK_CAPTURE_RAW = 0x2"
definition PTP_CHDK_CAPTURE_DNGHDR :: u32 where "PTP_CHDK_CAPTURE_DNGHDR = 0x4"
definition PTP_CHDK_CAPTURE_NOTSET :: u32 where "PTP_CHDK_CAPTURE_NOTSET = 0x10000000"
definition HOOK_WAIT_MAX_DEFAULT :: nat where "HOOK_WAIT_MAX_DEFAULT = 3000"

lemmas capture_types = PTP_CHDK_CAPTURE_JPG_def PTP_CHDK_CAPTURE_RAW_def
  PTP_CHDK_CAPTURE_DNGHDR_def PTP_CHDK_CAPTURE_NOTSET_def

datatype chunk_status = CHUNK_STATUS_ERROR | CHUNK_STATUS_MORE | CHUNK_STATUS_LAST

text \<open>
  \<open>jpeg_chunks\<close> is the array the file write hook points to while it waits, an address and a
  length per entry; \<open>None\<close> is the null pointer. \<open>file_num_in\<close>, \<open>raw_possible_in\<close> are what
  \<open>get_target_file_num()\<close> and \<open>is_raw_possible()\<close> return.
\<close>

record remotecap = camera +
  hook_wait_max :: nat
  available_image_data :: u32
  pending_image_data :: u32
  remote_file_target :: u32
  target_file_num :: int
  raw_chunk :: "u32 \<times> u32"
  dng_hdr_chunk :: "u32 \<times> u32"
  startline :: int
  linecount :: int
  jpeg_curr_chunk :: nat
  jpeg_chunks :: "(nat \<Rightarrow> u32 \<times> u32) option"
  ignore_current_write :: bool
  file_num_in :: int
  raw_possible_in :: bool
  sleeps :: nat

record rc_port =
  has_filewritetask_hook :: bool
  cam_raw_rows :: int
  cam_raw_rowpix :: int
  cam_bits_per_pixel :: int
  max_chunks_for_jpeg :: nat
  uncached_bit :: u32

section \<open>Target and timeout\<close>

definition remotecap_get_target_support :: "rc_port \<Rightarrow> u32" where
  "remotecap_get_target_support C =
     (let ret = PTP_CHDK_CAPTURE_RAW OR PTP_CHDK_CAPTURE_DNGHDR
      in if has_filewritetask_hook C then ret OR PTP_CHDK_CAPTURE_JPG else ret)"

definition remotecap_set_timeout :: "int \<Rightarrow> 'a remotecap_scheme \<Rightarrow> 'a remotecap_scheme" where
  "remotecap_set_timeout timeout s =
     s\<lparr>hook_wait_max := (if timeout \<le> 0 then HOOK_WAIT_MAX_DEFAULT else nat (timeout div 10))\<rparr>"

definition remotecap_is_ready :: "'a remotecap_scheme \<Rightarrow> u32 \<times> int" where
  "remotecap_is_ready s =
     (if remote_file_target s \<noteq> 0
      then (available_image_data s,
            if available_image_data s \<noteq> 0 then target_file_num s else 0)
      else (PTP_CHDK_CAPTURE_NOTSET, 0))"

definition remotecap_set_available_data_type :: "u32 \<Rightarrow> 'a remotecap_scheme \<Rightarrow> 'a remotecap_scheme" where
  "remotecap_set_available_data_type type s = s\<lparr>available_image_data := type\<rparr>"

definition remotecap_reset :: "'a remotecap_scheme \<Rightarrow> 'a remotecap_scheme" where
  "remotecap_reset s =
     (remotecap_set_available_data_type 0 (s\<lparr>remote_file_target := 0\<rparr>))\<lparr>pending_image_data := 0\<rparr>"

definition remotecap_set_target ::
  "rc_port \<Rightarrow> u32 \<Rightarrow> int \<Rightarrow> int \<Rightarrow> 'a remotecap_scheme \<Rightarrow> int \<times> 'a remotecap_scheme" where
  "remotecap_set_target C type lstart lcount s =
     (if type AND NOT (remotecap_get_target_support C) \<noteq> 0 \<or> \<not> mode_rec s \<or>
         type AND PTP_CHDK_CAPTURE_RAW \<noteq> 0 \<and> \<not> raw_possible_in s
      then (0, remotecap_reset s)
      else if type = 0 then (1, remotecap_reset s)
      else if lstart < 0 \<or> lstart > cam_raw_rows C - 1 \<or> lcount < 0 \<or>
              lcount + lstart > cam_raw_rows C
      then (0, remotecap_reset s)
      else let n = (if lcount = 0 then cam_raw_rows C - lstart else lcount)
           in (1, s\<lparr>remote_file_target := type, startline := lstart, linecount := n\<rparr>))"

definition remotecap_using_dng_module :: "'a remotecap_scheme \<Rightarrow> bool" where
  "remotecap_using_dng_module s \<longleftrightarrow> remote_file_target s AND PTP_CHDK_CAPTURE_DNGHDR \<noteq> 0"

definition remotecap_type_complete :: "u32 \<Rightarrow> 'a remotecap_scheme \<Rightarrow> 'a remotecap_scheme" where
  "remotecap_type_complete type s = s\<lparr>pending_image_data := pending_image_data s AND NOT type\<rparr>"

section \<open>The file write task's side\<close>

text \<open>The first result is whether the chunk is the last one.\<close>

definition filewrite_get_jpeg_chunk ::
  "rc_port \<Rightarrow> nat \<Rightarrow> 'a remotecap_scheme \<Rightarrow> bool \<times> u32 \<times> u32" where
  "filewrite_get_jpeg_chunk C n s =
     (case jpeg_chunks s of
        None \<Rightarrow> (True, 0xFFFFFFFF, 0)
      | Some chunks \<Rightarrow>
          if n \<ge> max_chunks_for_jpeg C then (True, 0xFFFFFFFF, 0)
          else let (addr, size) = chunks n
               in (if n + 1 < max_chunks_for_jpeg C then snd (chunks (n + 1)) = 0 else True, addr, size))"

definition filewrite_set_discard_jpeg :: "bool \<Rightarrow> 'a remotecap_scheme \<Rightarrow> 'a remotecap_scheme" where
  "filewrite_set_discard_jpeg state s = s\<lparr>ignore_current_write := state\<rparr>"

definition filewrite_jpeg_complete :: "'a remotecap_scheme \<Rightarrow> bool \<times> 'a remotecap_scheme" where
  "filewrite_jpeg_complete s =
     (if ignore_current_write s
      then (True, remotecap_type_complete PTP_CHDK_CAPTURE_JPG (s\<lparr>ignore_current_write := False\<rparr>))
      else (False, s))"

section \<open>The PTP task's side\<close>

text \<open>Results: status, address, size, file position; the position is always -1 here.\<close>

definition remotecap_get_data_chunk ::
  "rc_port \<Rightarrow> u32 \<Rightarrow> 'a remotecap_scheme \<Rightarrow>
   (chunk_status \<times> u32 \<times> u32 \<times> int) \<times> 'a remotecap_scheme" where
  "remotecap_get_data_chunk C fmt s =
     (let sel = fmt AND remote_file_target s AND available_image_data s;
          (status, addr, size, s1) =
            (if sel = PTP_CHDK_CAPTURE_RAW
             then (CHUNK_STATUS_LAST, fst (raw_chunk s), snd (raw_chunk s), s)
             else if sel = PTP_CHDK_CAPTURE_JPG \<and> has_filewritetask_hook C
             then let (last_chunk, addr, size) = filewrite_get_jpeg_chunk C (jpeg_curr_chunk s) s
                  in (if last_chunk then CHUNK_STATUS_LAST else CHUNK_STATUS_MORE, addr, size,
                      s\<lparr>jpeg_curr_chunk := jpeg_curr_chunk s + 1\<rparr>)
             else if sel = PTP_CHDK_CAPTURE_DNGHDR
             then (CHUNK_STATUS_LAST, fst (dng_hdr_chunk s), snd (dng_hdr_chunk s), s)
             else (CHUNK_STATUS_LAST, 0, 0, s))
      in if addr = 0 then ((CHUNK_STATUS_ERROR, addr, size, -1), remotecap_reset s1)
         else ((status, addr, size, -1), s1))"

definition remotecap_send_complete ::
  "chunk_status \<Rightarrow> u32 \<Rightarrow> 'a remotecap_scheme \<Rightarrow> bool \<times> 'a remotecap_scheme" where
  "remotecap_send_complete rcgd_status type s =
     (let timeout_flag = (available_image_data s \<noteq> type);
          s1 = (if rcgd_status = CHUNK_STATUS_LAST then remotecap_set_available_data_type 0 s else s)
      in (\<not> (rcgd_status = CHUNK_STATUS_ERROR \<or> timeout_flag), s1))"

text \<open>
  \<open>PTP_CHDK_RemoteCaptureGetData\<close>: the response parameters (size, more chunks, position), whether
  the response code is OK, and the state. Sending is a logged call; a dummy byte is sent as
  address and size 0.
\<close>

definition ptp_remote_capture_get_data ::
  "rc_port \<Rightarrow> u32 \<Rightarrow> 'a remotecap_scheme \<Rightarrow> (u32 \<times> int \<times> int) \<times> bool \<times> 'a remotecap_scheme" where
  "ptp_remote_capture_get_data C fmt s =
     (let ((status, addr, size, pos), s1) = remotecap_get_data_chunk C fmt s;
          (p1, p2, s2) =
            (if addr = 0 \<or> size = 0 then (0, 0, ext_call (SendPtpData 0 0) s1)
             else (size, if status = CHUNK_STATUS_MORE then 1 else 0, ext_call (SendPtpData addr size) s1));
          (ok, s3) = remotecap_send_complete status fmt s2
      in ((p1, p2, pos), ok, s3))"

section \<open>The hooks\<close>

text \<open>What other tasks do to this component, and their schedule.\<close>

datatype rc_op = SetTarget u32 int int | SetTimeout int | GetData u32 | JpegComplete

fun rc_op_run :: "rc_port \<Rightarrow> rc_op \<Rightarrow> 'a remotecap_scheme \<Rightarrow> 'a remotecap_scheme" where
  "rc_op_run C (SetTarget type lstart lcount) s = snd (remotecap_set_target C type lstart lcount s)"
| "rc_op_run C (SetTimeout t) s = remotecap_set_timeout t s"
| "rc_op_run C (GetData fmt) s = snd (snd (ptp_remote_capture_get_data C fmt s))"
| "rc_op_run C JpegComplete s = snd (filewrite_jpeg_complete s)"

record rc_env =
  other_tasks :: "nat \<Rightarrow> rc_op list"
  dng_header :: "u32 \<times> u32"

definition rc_sleep :: "rc_port \<Rightarrow> rc_env \<Rightarrow> 'a remotecap_scheme \<Rightarrow> 'a remotecap_scheme" where
  "rc_sleep C E s =
     (fold (rc_op_run C) (other_tasks E (sleeps s)) (ext_call (Msleep 10) s))\<lparr>sleeps := sleeps s + 1\<rparr>"

text \<open>\<open>while (wait && ...) { msleep(10); wait--; }\<close>, which ends with the remaining \<open>wait\<close>.\<close>

fun wait_while :: "rc_port \<Rightarrow> rc_env \<Rightarrow> ('a remotecap_scheme \<Rightarrow> bool) \<Rightarrow> nat \<Rightarrow> 'a remotecap_scheme \<Rightarrow>
    nat \<times> 'a remotecap_scheme" where
  "wait_while C E cond 0 s = (0, s)"
| "wait_while C E cond (Suc wait) s =
     (if cond s then wait_while C E cond wait (rc_sleep C E s) else (Suc wait, s))"

definition remotecap_wait ::
  "rc_port \<Rightarrow> rc_env \<Rightarrow> u32 \<Rightarrow> 'a remotecap_scheme \<Rightarrow> nat \<times> 'a remotecap_scheme" where
  "remotecap_wait C E datatype s =
     (let wait = hook_wait_max s
      in wait_while C E (\<lambda>s. available_image_data s AND datatype \<noteq> 0) wait
           (remotecap_set_available_data_type datatype s))"

definition rc_offer :: "rc_port \<Rightarrow> rc_env \<Rightarrow> u32 \<Rightarrow> 'a remotecap_scheme \<Rightarrow> 'a remotecap_scheme" where
  "rc_offer C E type s =
     (let (wait, s1) = remotecap_wait C E type s in if wait = 0 then remotecap_reset s1 else s1)"

text \<open>The raw hook, in its three parts: waiting for the previous shot, the DNG header, the raw data.\<close>

definition raw_wait_previous :: "rc_port \<Rightarrow> rc_env \<Rightarrow> 'a remotecap_scheme \<Rightarrow> 'a remotecap_scheme" where
  "raw_wait_previous C E s =
     (let next_file_num = file_num_in s;
          (wait, s1) = wait_while C E (\<lambda>s. pending_image_data s \<noteq> 0) (hook_wait_max s) s;
          s2 = (if wait = 0 then remotecap_reset s1 else s1);
          s3 = s2\<lparr>pending_image_data := remote_file_target s2, target_file_num := next_file_num\<rparr>
      in if has_filewritetask_hook C
         then (filewrite_set_discard_jpeg True s3)\<lparr>jpeg_curr_chunk := 0\<rparr> else s3)"

definition raw_offer_dnghdr :: "rc_port \<Rightarrow> rc_env \<Rightarrow> 'a remotecap_scheme \<Rightarrow> 'a remotecap_scheme" where
  "raw_offer_dnghdr C E s =
     (if remote_file_target s AND PTP_CHDK_CAPTURE_DNGHDR \<noteq> 0
      then ext_call Finished (remotecap_type_complete PTP_CHDK_CAPTURE_DNGHDR
             (ext_call FreeDngHeader
               (rc_offer C E PTP_CHDK_CAPTURE_DNGHDR
                 ((ext_call Started s)\<lparr>dng_hdr_chunk := dng_header E\<rparr>))))
      else s)"

definition raw_offer_raw ::
  "rc_port \<Rightarrow> rc_env \<Rightarrow> u32 \<Rightarrow> 'a remotecap_scheme \<Rightarrow> 'a remotecap_scheme" where
  "raw_offer_raw C E rawadr s =
     (if remote_file_target s AND PTP_CHDK_CAPTURE_RAW = 0 then s
      else let s1 = ext_call Started s;
               addr = uncached_bit C OR (rawadr + word_of_int
                 (startline s1 * cam_raw_rowpix C * cam_bits_per_pixel C div 8));
               len = word_of_int (linecount s1 * cam_raw_rowpix C * cam_bits_per_pixel C div 8)
           in ext_call Finished (remotecap_type_complete PTP_CHDK_CAPTURE_RAW
                (rc_offer C E PTP_CHDK_CAPTURE_RAW (s1\<lparr>raw_chunk := (addr, len)\<rparr>))))"

definition remotecap_raw_available ::
  "rc_port \<Rightarrow> rc_env \<Rightarrow> u32 \<Rightarrow> 'a remotecap_scheme \<Rightarrow> 'a remotecap_scheme" where
  "remotecap_raw_available C E rawadr s =
     raw_offer_raw C E rawadr (raw_offer_dnghdr C E (raw_wait_previous C E s))"

definition remotecap_jpeg_available :: "rc_port \<Rightarrow> rc_env \<Rightarrow> 'a remotecap_scheme \<Rightarrow> 'a remotecap_scheme" where
  "remotecap_jpeg_available C E s =
     (if remote_file_target s AND PTP_CHDK_CAPTURE_JPG = 0 then s
      else rc_offer C E PTP_CHDK_CAPTURE_JPG s)"

definition filewrite_main_hook ::
  "rc_port \<Rightarrow> rc_env \<Rightarrow> (nat \<Rightarrow> u32 \<times> u32) \<Rightarrow> 'a remotecap_scheme \<Rightarrow> 'a remotecap_scheme" where
  "filewrite_main_hook C E pdc s =
     (remotecap_jpeg_available C E (s\<lparr>jpeg_chunks := Some pdc\<rparr>))\<lparr>jpeg_chunks := None\<rparr>"

section \<open>What operations of other tasks change\<close>

definition rc_range :: "rc_port \<Rightarrow> 'a remotecap_scheme \<Rightarrow> bool" where
  "rc_range C s \<longleftrightarrow> remote_file_target s = 0 \<or>
     0 \<le> startline s \<and> 0 < linecount s \<and> startline s + linecount s \<le> cam_raw_rows C"

lemma ext_call_rc [simp]:
  "hook_wait_max (ext_call c s) = hook_wait_max s" "remote_file_target (ext_call c s) = remote_file_target s"
  "available_image_data (ext_call c s) = available_image_data s"
  "pending_image_data (ext_call c s) = pending_image_data s"
  "raw_chunk (ext_call c s) = raw_chunk s" "startline (ext_call c s) = startline s"
  "linecount (ext_call c s) = linecount s" "sleeps (ext_call c s) = sleeps s"
  "jpeg_curr_chunk (ext_call c s) = jpeg_curr_chunk s" "jpeg_chunks (ext_call c s) = jpeg_chunks s"
  by (simp_all add: ext_call_def)

lemma reset_sel [simp]:
  "hook_wait_max (remotecap_reset s) = hook_wait_max s" "remote_file_target (remotecap_reset s) = 0"
  "available_image_data (remotecap_reset s) = 0" "pending_image_data (remotecap_reset s) = 0"
  "raw_chunk (remotecap_reset s) = raw_chunk s" "sleeps (remotecap_reset s) = sleeps s"
  "ext_calls (remotecap_reset s) = ext_calls s"
  by (simp_all add: remotecap_reset_def remotecap_set_available_data_type_def)

lemma type_complete_sel [simp]:
  "hook_wait_max (remotecap_type_complete t s) = hook_wait_max s"
  "remote_file_target (remotecap_type_complete t s) = remote_file_target s"
  "available_image_data (remotecap_type_complete t s) = available_image_data s"
  "raw_chunk (remotecap_type_complete t s) = raw_chunk s" "startline (remotecap_type_complete t s) = startline s"
  "linecount (remotecap_type_complete t s) = linecount s" "sleeps (remotecap_type_complete t s) = sleeps s"
  by (simp_all add: remotecap_type_complete_def)

lemmas rc_op_defs = remotecap_set_target_def remotecap_set_timeout_def ptp_remote_capture_get_data_def
  remotecap_get_data_chunk_def remotecap_send_complete_def filewrite_jpeg_complete_def
  remotecap_set_available_data_type_def Let_def

lemma rc_op_frame [simp]: "raw_chunk (rc_op_run C opn s) = raw_chunk s"
  by (cases opn) (auto simp: rc_op_defs split: prod.splits if_splits)

lemma rc_op_range: "rc_range C s \<Longrightarrow> rc_range C (rc_op_run C opn s)"
  by (cases opn) (auto simp: rc_range_def rc_op_defs split: prod.splits if_splits)

lemma rc_op_available:
  "available_image_data (rc_op_run C opn s) = available_image_data s \<or>
   available_image_data (rc_op_run C opn s) = 0"
  by (cases opn) (auto simp: rc_op_defs split: prod.splits if_splits)

lemma rc_op_timeout:
  "(\<forall>t. opn \<noteq> SetTimeout t) \<Longrightarrow> hook_wait_max (rc_op_run C opn s) = hook_wait_max s"
  by (cases opn) (auto simp: rc_op_defs split: prod.splits if_splits)

lemma sleep_keeps:
  assumes "\<And>opn u. opn \<in> set (other_tasks E (sleeps s)) \<Longrightarrow> Q u \<Longrightarrow> Q (rc_op_run C opn u)"
    and "\<And>u c. Q u \<Longrightarrow> Q (ext_call c u)" and "\<And>u n. Q u \<Longrightarrow> Q (u\<lparr>sleeps := n\<rparr>)"
    and "Q s"
  shows "Q (rc_sleep C E s)"
proof -
  have "Q (fold (rc_op_run C) ops u)" if "set ops \<subseteq> set (other_tasks E (sleeps s))" "Q u" for ops u
    using that by (induction ops arbitrary: u) (auto intro: assms(1))
  then show ?thesis
    using assms(2,3,4) by (simp add: rc_sleep_def)
qed

section \<open>The waiting loop\<close>

lemma wait_while_keeps:
  "(\<And>u. Q u \<Longrightarrow> Q (rc_sleep C E u)) \<Longrightarrow> Q s \<Longrightarrow> Q (snd (wait_while C E cond n s))"
  by (induction n arbitrary: s) auto

lemma wait_while_result:
  "wait_while C E cond n s = (w, s') \<Longrightarrow>
   w \<le> n \<and> (0 < w \<longrightarrow> \<not> cond s') \<and> sleeps s' = sleeps s + (n - w)"
proof (induction n arbitrary: s)
  case (Suc n)
  show ?case
  proof (cases "cond s")
    case True
    with Suc.prems have "wait_while C E cond n (rc_sleep C E s) = (w, s')" by simp
    from Suc.IH [OF this] show ?thesis by (auto simp: rc_sleep_def)
  next
    case False
    with Suc.prems show ?thesis by auto
  qed
qed simp

text \<open>An invariant of the other tasks' operations holds through an offer of data.\<close>

lemma offer_keeps:
  assumes "\<And>u. Q u \<Longrightarrow> Q (rc_sleep C E u)" and "\<And>u. Q u \<Longrightarrow> Q (remotecap_reset u)"
    and "Q (remotecap_set_available_data_type type s)"
  shows "Q (rc_offer C E type s)"
  using wait_while_keeps [OF assms(1,3)] assms(2)
  by (simp add: rc_offer_def remotecap_wait_def Let_def split_beta)

lemma offer_sleeps:
  "sleeps (rc_offer C E type s) \<le> sleeps s + hook_wait_max s"
proof -
  obtain w s1 where w: "remotecap_wait C E type s = (w, s1)" by fastforce
  with wait_while_result [of C E _ "hook_wait_max s" _ w s1] show ?thesis
    by (auto simp: rc_offer_def remotecap_wait_def Let_def remotecap_set_available_data_type_def)
qed

definition offered :: "u32 \<Rightarrow> 'a remotecap_scheme \<Rightarrow> bool" where
  "offered x s \<longleftrightarrow> available_image_data s = x \<or> available_image_data s = 0"

lemma sleep_offered:
  assumes "offered x s"
  shows "offered x (rc_sleep C E s)"
proof (rule sleep_keeps)
  show "offered x (rc_op_run C opn u)" if "offered x u" for opn u
    using that rc_op_available [of C opn u] by (auto simp: offered_def)
qed (use assms in \<open>simp_all add: offered_def\<close>)

lemma offer_not_available:
  assumes "type \<noteq> 0"
  shows "available_image_data (rc_offer C E type s) = 0"
proof -
  obtain w s1 where w: "wait_while C E (\<lambda>s. available_image_data s AND type \<noteq> 0) (hook_wait_max s)
      (remotecap_set_available_data_type type s) = (w, s1)" by fastforce
  have "offered type (remotecap_set_available_data_type type s)"
    by (simp add: offered_def remotecap_set_available_data_type_def)
  from wait_while_keeps [OF sleep_offered this] have "offered type s1"
    by (metis w snd_conv)
  moreover have "0 < w \<Longrightarrow> available_image_data s1 AND type = 0"
    using wait_while_result [OF w] by simp
  ultimately show ?thesis
    using w assms by (auto simp: rc_offer_def remotecap_wait_def Let_def offered_def)
qed

section \<open>The raw hook\<close>

lemma raw_hook_keeps:
  fixes Q :: "'a remotecap_scheme \<Rightarrow> bool"
  assumes "\<And>u. Q u \<Longrightarrow> Q (rc_sleep C E u)" and "\<And>u. Q u \<Longrightarrow> Q (remotecap_reset u)"
    and "\<And>u c. Q u \<Longrightarrow> Q (ext_call c u)" and "\<And>u t. Q u \<Longrightarrow> Q (remotecap_type_complete t u)"
    and "\<And>u x. Q u \<Longrightarrow> Q (u\<lparr>available_image_data := x\<rparr>)"
    and "\<And>u x y. Q u \<Longrightarrow> Q (u\<lparr>pending_image_data := x, target_file_num := y\<rparr>)"
    and "\<And>u x y. Q u \<Longrightarrow> Q (u\<lparr>ignore_current_write := x, jpeg_curr_chunk := y\<rparr>)"
    and "\<And>u x. Q u \<Longrightarrow> Q (u\<lparr>dng_hdr_chunk := x\<rparr>)"
    and "Q s"
  shows "Q (raw_wait_previous C E s)" and "Q (raw_offer_dnghdr C E s)"
    and "Q (raw_offer_dnghdr C E (raw_wait_previous C E s))"
proof -
  have dng: "Q (raw_offer_dnghdr C E u)" if "Q u" for u
    using offer_keeps [of Q C E PTP_CHDK_CAPTURE_DNGHDR, OF assms(1,2)] assms(3,4,5,8) that
    by (simp add: raw_offer_dnghdr_def remotecap_set_available_data_type_def)
  obtain w s1 where w: "wait_while C E (\<lambda>s. pending_image_data s \<noteq> 0) (hook_wait_max s) s = (w, s1)"
    by fastforce
  then have "Q s1" using wait_while_keeps [of Q C E s, OF assms(1,9)] by (metis snd_conv)
  then show "Q (raw_wait_previous C E s)"
    using assms(2,6,7) w
    by (simp add: raw_wait_previous_def Let_def filewrite_set_discard_jpeg_def)
  then show "Q (raw_offer_dnghdr C E (raw_wait_previous C E s))" by (rule dng)
  show "Q (raw_offer_dnghdr C E s)" using assms(9) by (rule dng)
qed

lemma rc_range_other [simp]:
  "rc_range C (ext_call c u) = rc_range C u" "rc_range C (u\<lparr>sleeps := n\<rparr>) = rc_range C u"
  "rc_range C (remotecap_reset u)" "rc_range C (remotecap_type_complete t u) = rc_range C u"
  "rc_range C (u\<lparr>available_image_data := a\<rparr>) = rc_range C u"
  "rc_range C (u\<lparr>pending_image_data := a, target_file_num := b\<rparr>) = rc_range C u"
  "rc_range C (u\<lparr>ignore_current_write := d, jpeg_curr_chunk := m\<rparr>) = rc_range C u"
  "rc_range C (u\<lparr>dng_hdr_chunk := e\<rparr>) = rc_range C u"
  by (simp_all add: rc_range_def)

lemma rc_range_sleep: "rc_range C u \<Longrightarrow> rc_range C (rc_sleep C E u)"
  by (rule sleep_keeps) (simp_all add: rc_op_range)

lemma rc_range_hook: "rc_range C s \<Longrightarrow> rc_range C (raw_offer_dnghdr C E (raw_wait_previous C E s))"
  by (rule raw_hook_keeps(3)) (simp_all add: rc_range_sleep)

lemma sleep_raw_chunk [simp]: "raw_chunk (rc_sleep C E u) = raw_chunk u"
  by (rule sleep_keeps [where Q = "\<lambda>v. raw_chunk v = raw_chunk u"]) simp_all

lemma offer_raw_chunk [simp]: "raw_chunk (rc_offer C E type s) = raw_chunk s"
  by (rule offer_keeps [where Q = "\<lambda>v. raw_chunk v = raw_chunk s"])
    (simp_all add: remotecap_set_available_data_type_def)

lemma raw_chunk_hook [simp]:
  "raw_chunk (raw_offer_dnghdr C E (raw_wait_previous C E s)) = raw_chunk s"
  by (rule raw_hook_keeps(3) [where Q = "\<lambda>v. raw_chunk v = raw_chunk s"]) simp_all

section \<open>Properties\<close>


definition demo_port :: rc_port where
  "demo_port = \<lparr>has_filewritetask_hook = True, cam_raw_rows = 2480, cam_raw_rowpix = 3336,
     cam_bits_per_pixel = 10, max_chunks_for_jpeg = 4, uncached_bit = 0x10000000\<rparr>"

definition rc_init :: remotecap where
  "rc_init = camera.extend \<lparr>tick_count = 0, remote_state_in = 0, shooting_busy = False,
     flash_ready = True, zoom_pos = 0, focus_mode = 0, mode_rec = True, mode_play = False,
     mode_video = False, state_shooting_progress = 0, state_kbd_script_run = 0,
     kbd_last_clicked = 0, kbd_last_clicked_time = 0, conf_remote_enable = 0,
     conf_remote_switch_type = 0, conf_remote_control_mode = 0, conf_synch_enable = 0,
     conf_script_shoot_delay = 0, conf_hotshoe_override = 0, ext_calls = []\<rparr>
     (remotecap.fields HOOK_WAIT_MAX_DEFAULT 0 0 0 0 (0, 0) (0, 0) 0 0 0 None False 0 True 0)"

lemma rc_init_sel [simp]:
  "mode_rec rc_init = True" "hook_wait_max rc_init = 3000" "available_image_data rc_init = 0"
  "pending_image_data rc_init = 0" "remote_file_target rc_init = 0" "raw_chunk rc_init = (0, 0)"
  "startline rc_init = 0" "linecount rc_init = 0" "raw_possible_in rc_init = True" "sleeps rc_init = 0"
  "ext_calls rc_init = []" "jpeg_chunks rc_init = None" "jpeg_curr_chunk rc_init = 0"
  by (simp_all add: rc_init_def remotecap.defs camera.defs HOOK_WAIT_MAX_DEFAULT_def)




definition no_set_timeout :: "rc_env \<Rightarrow> bool" where
  "no_set_timeout E \<longleftrightarrow> (\<forall>n. \<forall>opn \<in> set (other_tasks E n). \<forall>t. opn \<noteq> SetTimeout t)"

text \<open>C38: the raw hook never blocks for long: if no task changes the timeout meanwhile, it sleeps at most
  three times the timeout (the previous shot, the DNG header, the raw data), whatever the
  other tasks do or fail to do.\<close>

theorem raw_hook_blocks_boundedly:
  assumes "no_set_timeout E"
  shows "sleeps (remotecap_raw_available C E rawadr s) \<le> sleeps s + 3 * hook_wait_max s"
proof -
  have sl: "hook_wait_max (rc_sleep C E u) = hook_wait_max u" for u :: "'a remotecap_scheme"
    by (rule sleep_keeps [where Q = "\<lambda>v. hook_wait_max v = hook_wait_max u"])
      (use assms in \<open>auto simp: no_set_timeout_def rc_op_timeout\<close>)
  have off: "hook_wait_max (rc_offer C E t u) = hook_wait_max u" for t and u :: "'a remotecap_scheme"
    by (rule offer_keeps [where Q = "\<lambda>v. hook_wait_max v = hook_wait_max u"])
      (simp_all add: sl remotecap_set_available_data_type_def)
  obtain w s1 where w: "wait_while C E (\<lambda>s. pending_image_data s \<noteq> 0) (hook_wait_max s) s = (w, s1)"
    by fastforce
  have "hook_wait_max s1 = hook_wait_max s"
    using wait_while_keeps [of "\<lambda>v. hook_wait_max v = hook_wait_max s" C E s] sl w by (metis snd_conv)
  then have p: "hook_wait_max (raw_wait_previous C E s) = hook_wait_max s"
    "sleeps (raw_wait_previous C E s) \<le> sleeps s + hook_wait_max s"
    using w wait_while_result [OF w]
    by (simp_all add: raw_wait_previous_def Let_def filewrite_set_discard_jpeg_def)
  have d: "sleeps (raw_offer_dnghdr C E u) \<le> sleeps u + hook_wait_max u"
    "hook_wait_max (raw_offer_dnghdr C E u) = hook_wait_max u" for u :: "'a remotecap_scheme"
    using offer_sleeps [of C E PTP_CHDK_CAPTURE_DNGHDR "(ext_call Started u)\<lparr>dng_hdr_chunk := dng_header E\<rparr>"]
    by (simp_all add: raw_offer_dnghdr_def off)
  have r: "sleeps (raw_offer_raw C E rawadr u) \<le> sleeps u + hook_wait_max u" for u :: "'a remotecap_scheme"
    using offer_sleeps [of C E PTP_CHDK_CAPTURE_RAW "(ext_call Started u)\<lparr>raw_chunk := x\<rparr>" for x]
    by (simp add: raw_offer_raw_def Let_def)
  show ?thesis
    using p d [of "raw_wait_previous C E s"] r [of "raw_offer_dnghdr C E (raw_wait_previous C E s)"]
    by (simp add: remotecap_raw_available_def)
qed

theorem raw_hook_blocks_boundedly_witness:
  "sleeps (remotecap_raw_available demo_port \<lparr>other_tasks = (\<lambda>_. []), dng_header = (0, 0)\<rparr> 0
     (rc_init\<lparr>remote_file_target := 6\<rparr>)) \<le> 9000"
  using raw_hook_blocks_boundedly [of "\<lparr>other_tasks = (\<lambda>_. []), dng_header = (0, 0)\<rparr>" demo_port 0
      "rc_init\<lparr>remote_file_target := 6\<rparr>"]
  by (simp add: no_set_timeout_def)

text \<open>Nothing stale is ever offered. Once the raw hook has returned, to a camera that did not
  offer raw data or a DNG header before, neither is available, however the waits ended; a request
  for one of them over USB then gets the error status and a null address.\<close>

theorem raw_hook_offers_nothing_stale:
  assumes "available_image_data s \<in> {0, PTP_CHDK_CAPTURE_JPG}"
    and "t \<in> {PTP_CHDK_CAPTURE_RAW, PTP_CHDK_CAPTURE_DNGHDR}"
  shows "let s' = remotecap_raw_available C E rawadr s
    in available_image_data s' \<in> {0, PTP_CHDK_CAPTURE_JPG} \<and>
       fst (fst (remotecap_get_data_chunk C t s')) = CHUNK_STATUS_ERROR \<and>
       fst (snd (fst (remotecap_get_data_chunk C t s'))) = 0"
proof -
  obtain w s1 where w: "wait_while C E (\<lambda>s. pending_image_data s \<noteq> 0) (hook_wait_max s) s = (w, s1)"
    by fastforce
  have "offered PTP_CHDK_CAPTURE_JPG s" using assms(1) by (auto simp: offered_def)
  from wait_while_keeps [OF sleep_offered this] have "offered PTP_CHDK_CAPTURE_JPG s1"
    by (metis w snd_conv)
  then have p: "offered PTP_CHDK_CAPTURE_JPG (raw_wait_previous C E s)"
    using w by (simp add: raw_wait_previous_def Let_def filewrite_set_discard_jpeg_def offered_def)
  have nz: "PTP_CHDK_CAPTURE_DNGHDR \<noteq> 0" "PTP_CHDK_CAPTURE_RAW \<noteq> 0" by (simp_all add: capture_types)
  have d: "offered PTP_CHDK_CAPTURE_JPG (raw_offer_dnghdr C E u)" if "offered PTP_CHDK_CAPTURE_JPG u"
    for u :: "'a remotecap_scheme"
    using that by (simp add: raw_offer_dnghdr_def offered_def offer_not_available [OF nz(1)])
  have r: "offered PTP_CHDK_CAPTURE_JPG (raw_offer_raw C E rawadr u)" if "offered PTP_CHDK_CAPTURE_JPG u"
    for u :: "'a remotecap_scheme"
    using that by (simp add: raw_offer_raw_def Let_def offered_def offer_not_available [OF nz(2)])
  have o: "offered PTP_CHDK_CAPTURE_JPG (remotecap_raw_available C E rawadr s)"
    using r [OF d [OF p]] by (simp add: remotecap_raw_available_def)
  have tj: "t AND PTP_CHDK_CAPTURE_JPG = 0"
    using assms(2) by (auto simp: capture_types)
  have none: "t AND x AND PTP_CHDK_CAPTURE_JPG = 0" for x
    by (simp only: and.left_commute [of t x] tj) simp
  show ?thesis
    using o none by (auto simp: Let_def offered_def remotecap_get_data_chunk_def capture_types)
qed

theorem raw_hook_offers_nothing_stale_witness:
  "fst (fst (remotecap_get_data_chunk demo_port 2 (remotecap_raw_available demo_port
     \<lparr>other_tasks = (\<lambda>_. []), dng_header = (0, 0)\<rparr> 0 (rc_init\<lparr>remote_file_target := 2\<rparr>)))) =
   CHUNK_STATUS_ERROR"
  using raw_hook_offers_nothing_stale [of "rc_init\<lparr>remote_file_target := 2\<rparr>" 2 demo_port
      "\<lparr>other_tasks = (\<lambda>_. []), dng_header = (0, 0)\<rparr>" 0]
  by (simp add: capture_types Let_def)

text \<open>A timeout set to less than ten milliseconds switches capture off. It is rounded down to
  no wait at all, and the raw hook then drops the request at once, without offering anything or
  sleeping, even when no previous shot is pending.\<close>

theorem tiny_timeout_cancels_capture:
  assumes "0 < t" and "t < 10"
  shows "let s' = remotecap_raw_available C E rawadr (remotecap_set_timeout t s)
    in remote_file_target s' = 0 \<and> available_image_data s' = 0 \<and> sleeps s' = sleeps s"
  using assms
  by (simp add: remotecap_raw_available_def raw_wait_previous_def remotecap_set_timeout_def Let_def
      raw_offer_dnghdr_def raw_offer_raw_def filewrite_set_discard_jpeg_def)

theorem tiny_timeout_cancels_capture_witness:
  "remote_file_target (remotecap_raw_available demo_port \<lparr>other_tasks = (\<lambda>_. []), dng_header = (0, 0)\<rparr> 0
     (remotecap_set_timeout 5 (rc_init\<lparr>remote_file_target := 2\<rparr>))) = 0"
  using tiny_timeout_cancels_capture [of 5 demo_port "\<lparr>other_tasks = (\<lambda>_. []), dng_header = (0, 0)\<rparr>" 0
      "rc_init\<lparr>remote_file_target := 2\<rparr>"]
  by (simp add: Let_def)

text \<open>Other tasks that do nothing before the \<open>k\<close>th sleep, and fetch the raw data in it.\<close>

definition fetch_at :: "nat \<Rightarrow> nat \<Rightarrow> rc_env \<Rightarrow> bool" where
  "fetch_at n0 k E \<longleftrightarrow> (\<forall>i < k. other_tasks E (n0 + i) = []) \<and>
     other_tasks E (n0 + k) = [GetData PTP_CHDK_CAPTURE_RAW]"

definition raw_ready :: "u32 \<Rightarrow> u32 \<Rightarrow> 'a remotecap_scheme \<Rightarrow> bool" where
  "raw_ready addr len s \<longleftrightarrow> remote_file_target s = PTP_CHDK_CAPTURE_RAW \<and>
     available_image_data s = PTP_CHDK_CAPTURE_RAW \<and> raw_chunk s = (addr, len)"

lemma get_raw:
  assumes "raw_ready addr len s" and "addr \<noteq> 0" and "len \<noteq> 0"
  shows "rc_op_run C (GetData PTP_CHDK_CAPTURE_RAW) s =
    (ext_call (SendPtpData addr len) s)\<lparr>available_image_data := 0\<rparr>"
  using assms
  by (simp add: raw_ready_def rc_op_defs capture_types)

fun is_send :: "ext_call \<Rightarrow> bool" where
  "is_send (SendPtpData a l) = True"
| "is_send _ = False"

definition sent :: "'a camera_scheme \<Rightarrow> ext_call list" where
  "sent s = filter is_send (ext_calls s)"

lemma fetch_at_Suc: "fetch_at n (Suc k) E \<longleftrightarrow> other_tasks E n = [] \<and> fetch_at (Suc n) k E"
  by (auto simp: fetch_at_def less_Suc_eq_0_disj)

lemma wait_for_fetch:
  assumes "raw_ready addr len s" and "addr \<noteq> 0" and "len \<noteq> 0" and "fetch_at (sleeps s) k E" and "k < n"
  shows "\<exists>s'. wait_while C E (\<lambda>s. available_image_data s AND PTP_CHDK_CAPTURE_RAW \<noteq> 0) n s = (n - Suc k, s') \<and>
    remote_file_target s' = PTP_CHDK_CAPTURE_RAW \<and> available_image_data s' = 0 \<and>
    pending_image_data s' = pending_image_data s \<and> sent s' = sent s @ [SendPtpData addr len]"
  using assms
proof (induction k arbitrary: n s)
  case 0
  obtain m where m: "n = Suc m" using 0 by (cases n) auto
  have ready: "raw_ready addr len (ext_call (Msleep 10) s)" using 0 by (simp add: raw_ready_def)
  have "rc_sleep C E s = (ext_call (SendPtpData addr len) (ext_call (Msleep 10) s))
      \<lparr>available_image_data := 0, sleeps := sleeps s + 1\<rparr>"
    using 0 get_raw [OF ready] by (simp add: rc_sleep_def fetch_at_def)
  then show ?case
    using 0 m by (cases m) (auto simp: raw_ready_def capture_types ext_call_def sent_def)
next
  case (Suc k)
  obtain m where m: "n = Suc m" "k < m" using Suc.prems by (cases n) auto
  have f: "other_tasks E (sleeps s) = []" "fetch_at (Suc (sleeps s)) k E"
    using Suc.prems(4) by (simp_all add: fetch_at_Suc)
  have sl: "rc_sleep C E s = (ext_call (Msleep 10) s)\<lparr>sleeps := sleeps s + 1\<rparr>"
    using f by (simp add: rc_sleep_def)
  have "raw_ready addr len (rc_sleep C E s)" using Suc.prems(1) sl by (simp add: raw_ready_def)
  moreover have "fetch_at (sleeps (rc_sleep C E s)) k E" using f sl by simp
  moreover have "available_image_data s AND PTP_CHDK_CAPTURE_RAW \<noteq> 0"
    using Suc.prems(1) by (simp add: raw_ready_def capture_types)
  ultimately show ?case
    using Suc.IH [of "rc_sleep C E s" m] Suc.prems(2,3) m sl by (auto simp: ext_call_def sent_def)
qed

text \<open>A transfer that starts in time succeeds, except in the last ten milliseconds. Take a request for raw data
  only, with no previous shot pending, and a client that fetches it in the \<open>k\<close>th sleep
  of the hook. The whole chunk is sent, exactly once, and nothing remains pending. If at least one more sleep was left
  the request stands for the next shot; if it was the last one, the hook takes the transfer for a
  timeout and cancels the request although the data was sent.\<close>

theorem raw_transfer_completes:
  fixes s :: "'a remotecap_scheme"
  assumes t: "remote_file_target s = PTP_CHDK_CAPTURE_RAW" "pending_image_data s = 0"
    and E: "fetch_at (sleeps s) k E" and k: "k < hook_wait_max s"
    and s': "s' = remotecap_raw_available C E rawadr s"
    and chunk: "fst (raw_chunk s') \<noteq> 0" "snd (raw_chunk s') \<noteq> 0"
  shows "sent s' = sent s @ [SendPtpData (fst (raw_chunk s')) (snd (raw_chunk s'))] \<and>
    pending_image_data s' = 0 \<and>
    remote_file_target s' = (if k + 1 < hook_wait_max s then PTP_CHDK_CAPTURE_RAW else 0)"
proof -
  let ?u = "raw_wait_previous C E s"
  obtain m where m: "hook_wait_max s = Suc m" using k by (cases "hook_wait_max s") auto
  have u: "remote_file_target ?u = PTP_CHDK_CAPTURE_RAW" "pending_image_data ?u = PTP_CHDK_CAPTURE_RAW"
    "sleeps ?u = sleeps s" "hook_wait_max ?u = hook_wait_max s" "sent ?u = sent s"
    using t m by (simp_all add: raw_wait_previous_def Let_def filewrite_set_discard_jpeg_def sent_def)
  then have d: "raw_offer_dnghdr C E ?u = ?u" by (simp add: raw_offer_dnghdr_def capture_types)
  define addr len where "addr = fst (raw_chunk s')" and "len = snd (raw_chunk s')"
  define v where "v = (ext_call Started ?u)\<lparr>raw_chunk := (addr, len)\<rparr>"
  have nz: "PTP_CHDK_CAPTURE_RAW AND PTP_CHDK_CAPTURE_RAW \<noteq> 0" by (simp add: capture_types)
  have r: "s' = ext_call Finished (remotecap_type_complete PTP_CHDK_CAPTURE_RAW
      (rc_offer C E PTP_CHDK_CAPTURE_RAW v))"
    using nz u(1) unfolding s' v_def addr_def len_def s'
    by (simp add: remotecap_raw_available_def d raw_offer_raw_def Let_def)
  let ?w = "remotecap_set_available_data_type PTP_CHDK_CAPTURE_RAW v"
  have "raw_ready addr len ?w" "sleeps ?w = sleeps s"
    using u by (simp_all add: raw_ready_def remotecap_set_available_data_type_def v_def)
  with wait_for_fetch [of addr len ?w k E "hook_wait_max s" C] E k chunk obtain z where
    z: "wait_while C E (\<lambda>s. available_image_data s AND PTP_CHDK_CAPTURE_RAW \<noteq> 0) (hook_wait_max s) ?w =
      (hook_wait_max s - Suc k, z)" "remote_file_target z = PTP_CHDK_CAPTURE_RAW"
      "pending_image_data z = PTP_CHDK_CAPTURE_RAW" "sent z = sent s @ [SendPtpData addr len]"
    using u by (auto simp: addr_def len_def remotecap_set_available_data_type_def v_def sent_def)
  have h: "hook_wait_max v = hook_wait_max s" using u by (simp add: v_def)
  have "rc_offer C E PTP_CHDK_CAPTURE_RAW v = (if hook_wait_max s - Suc k = 0 then remotecap_reset z else z)"
    using z(1) h by (simp add: rc_offer_def remotecap_wait_def Let_def)
  then have "sent s' = sent z" "pending_image_data s' = 0"
    "remote_file_target s' = (if k + 1 < hook_wait_max s then PTP_CHDK_CAPTURE_RAW else 0)"
    using z k by (auto simp: r remotecap_type_complete_def sent_def)
  then show ?thesis using z(4) by (simp add: addr_def len_def)
qed

theorem raw_transfer_completes_witness:
  "remote_file_target (remotecap_raw_available demo_port
     \<lparr>other_tasks = (\<lambda>n. if n = 1 then [GetData 2] else []), dng_header = (0, 0)\<rparr> 0x1000
     (rc_init\<lparr>hook_wait_max := 2, remote_file_target := 2, linecount := 8\<rparr>)) = 0"
proof -
  let ?s = "rc_init\<lparr>hook_wait_max := 2, remote_file_target := 2, linecount := 8\<rparr>"
  let ?E = "\<lparr>other_tasks = (\<lambda>n. if n = 1 then [GetData 2] else []), dng_header = (0, 0)\<rparr>"
  have "raw_offer_dnghdr demo_port ?E (raw_wait_previous demo_port ?E ?s) = raw_wait_previous demo_port ?E ?s"
    by (simp add: raw_offer_dnghdr_def raw_wait_previous_def numeral_2_eq_2 Let_def capture_types
        filewrite_set_discard_jpeg_def)
  then have "raw_chunk (remotecap_raw_available demo_port ?E 0x1000 ?s) = (0x10001000, 33360)"
    by (simp add: remotecap_raw_available_def raw_offer_raw_def raw_wait_previous_def
        numeral_2_eq_2 Let_def capture_types filewrite_set_discard_jpeg_def demo_port_def)
  then show ?thesis
    using raw_transfer_completes [where s = ?s and k = 1 and E = ?E and C = demo_port and
        rawadr = "0x1000", OF _ _ _ _ refl]
    by (simp add: fetch_at_def capture_types)
qed

end
