(* ===== verification/RawPixel.thy ===== *)
theory RawPixel
  imports Prelude
begin

text \<open>
  The pixels of the raw buffer, \<open>core/raw.c\<close>: reading and writing one pixel of the packed
  formats of 10, 12 and 14 bits per pixel, and the patching of bad pixels by their neighbours. The
  buffer is a function from the byte offset; \<open>unsigned short\<close> is \<open>16 word\<close>, and storing it
  in an \<open>unsigned char\<close> keeps the low byte.
\<close>

type_synonym mem = "nat \<Rightarrow> u8"

definition lo8 :: "u16 \<Rightarrow> u8" where "lo8 v = ucast v"
definition us :: "u8 \<Rightarrow> u16" where "us b = ucast b"

text \<open>\<open>camera_sensor\<close>, and the bits per pixel the port is compiled for.\<close>

record sensor =
  bits_per_pixel :: nat
  raw_rowlen :: nat
  raw_rowpix :: nat
  raw_rows :: nat

section \<open>Writing a pixel\<close>

text \<open>\<open>p\<close> is the offset of the pixel's block, \<open>k\<close> its index in the block.\<close>

definition set_pixel10 :: "nat \<Rightarrow> nat \<Rightarrow> u16 \<Rightarrow> mem \<Rightarrow> mem" where
  "set_pixel10 p k value m =
     (if k = 0 then m(p := (m p AND 0x3F) OR lo8 (push_bit 6 value), p + 1 := lo8 (drop_bit 2 value))
      else if k = 1 then m(p := (m p AND 0xC0) OR lo8 (drop_bit 4 value),
                           p + 3 := (m (p + 3) AND 0x0F) OR lo8 (push_bit 4 value))
      else if k = 2 then m(p + 2 := (m (p + 2) AND 0x03) OR lo8 (push_bit 2 value),
                           p + 3 := (m (p + 3) AND 0xF0) OR lo8 (drop_bit 6 value))
      else if k = 3 then m(p + 2 := (m (p + 2) AND 0xFC) OR lo8 (drop_bit 8 value),
                           p + 5 := lo8 value)
      else if k = 4 then m(p + 4 := lo8 (drop_bit 2 value),
                           p + 7 := (m (p + 7) AND 0x3F) OR lo8 (push_bit 6 value))
      else if k = 5 then m(p + 6 := (m (p + 6) AND 0x0F) OR lo8 (push_bit 4 value),
                           p + 7 := (m (p + 7) AND 0xC0) OR lo8 (drop_bit 4 value))
      else if k = 6 then m(p + 6 := (m (p + 6) AND 0xF0) OR lo8 (drop_bit 6 value),
                           p + 9 := (m (p + 9) AND 0x03) OR lo8 (push_bit 2 value))
      else if k = 7 then m(p + 8 := lo8 value,
                           p + 9 := (m (p + 9) AND 0xFC) OR lo8 (drop_bit 8 value))
      else m)"

definition set_pixel12 :: "nat \<Rightarrow> nat \<Rightarrow> u16 \<Rightarrow> mem \<Rightarrow> mem" where
  "set_pixel12 p k value m =
     (if k = 0 then m(p := (m p AND 0x0F) OR lo8 (push_bit 4 value), p + 1 := lo8 (drop_bit 4 value))
      else if k = 1 then m(p := (m p AND 0xF0) OR lo8 (drop_bit 8 value), p + 3 := lo8 value)
      else if k = 2 then m(p + 2 := lo8 (drop_bit 4 value),
                           p + 5 := (m (p + 5) AND 0x0F) OR lo8 (push_bit 4 value))
      else if k = 3 then m(p + 4 := lo8 value, p + 5 := (m (p + 5) AND 0xF0) OR lo8 (drop_bit 8 value))
      else m)"

definition set_pixel14 :: "nat \<Rightarrow> nat \<Rightarrow> u16 \<Rightarrow> mem \<Rightarrow> mem" where
  "set_pixel14 p k value m =
     (if k = 0 then m(p := (m p AND 0x03) OR lo8 (push_bit 2 value), p + 1 := lo8 (drop_bit 6 value))
      else if k = 1 then m(p := (m p AND 0xFC) OR lo8 (drop_bit 12 value),
                           p + 2 := (m (p + 2) AND 0x0F) OR lo8 (push_bit 4 value),
                           p + 3 := lo8 (drop_bit 4 value))
      else if k = 2 then m(p + 2 := (m (p + 2) AND 0xF0) OR lo8 (drop_bit 10 value),
                           p + 4 := (m (p + 4) AND 0x3F) OR lo8 (push_bit 6 value),
                           p + 5 := lo8 (drop_bit 2 value))
      else if k = 3 then m(p + 4 := (m (p + 4) AND 0xC0) OR lo8 (drop_bit 8 value), p + 7 := lo8 value)
      else if k = 4 then m(p + 6 := lo8 (drop_bit 6 value),
                           p + 9 := (m (p + 9) AND 0x03) OR lo8 (push_bit 2 value))
      else if k = 5 then m(p + 8 := lo8 (drop_bit 4 value),
                           p + 9 := (m (p + 9) AND 0xFC) OR lo8 (drop_bit 12 value),
                           p + 11 := (m (p + 11) AND 0x0F) OR lo8 (push_bit 4 value))
      else if k = 6 then m(p + 10 := lo8 (drop_bit 2 value),
                           p + 11 := (m (p + 11) AND 0xF0) OR lo8 (drop_bit 10 value),
                           p + 13 := (m (p + 13) AND 0x3F) OR lo8 (push_bit 6 value))
      else if k = 7 then m(p + 12 := lo8 value, p + 13 := (m (p + 13) AND 0xC0) OR lo8 (drop_bit 8 value))
      else m)"

definition set_raw_pixel :: "sensor \<Rightarrow> nat \<Rightarrow> nat \<Rightarrow> u16 \<Rightarrow> mem \<Rightarrow> mem" where
  "set_raw_pixel S x y value m =
     (if bits_per_pixel S = 10
      then set_pixel10 (y * raw_rowlen S + (x div 8) * 10) (x mod 8) value m
      else if bits_per_pixel S = 12
      then set_pixel12 (y * raw_rowlen S + (x div 4) * 6) (x mod 4) value m
      else set_pixel14 (y * raw_rowlen S + (x div 8) * 14) (x mod 8) value m)"

section \<open>Reading a pixel\<close>

definition get_pixel10 :: "nat \<Rightarrow> nat \<Rightarrow> mem \<Rightarrow> u16" where
  "get_pixel10 p k m =
     (if k = 0 then (0x3fc AND push_bit 2 (us (m (p + 1)))) OR us (drop_bit 6 (m p))
      else if k = 1 then (0x3f0 AND push_bit 4 (us (m p))) OR us (drop_bit 4 (m (p + 3)))
      else if k = 2 then (0x3c0 AND push_bit 6 (us (m (p + 3)))) OR us (drop_bit 2 (m (p + 2)))
      else if k = 3 then (0x300 AND push_bit 8 (us (m (p + 2)))) OR us (m (p + 5))
      else if k = 4 then (0x3fc AND push_bit 2 (us (m (p + 4)))) OR us (drop_bit 6 (m (p + 7)))
      else if k = 5 then (0x3f0 AND push_bit 4 (us (m (p + 7)))) OR us (drop_bit 4 (m (p + 6)))
      else if k = 6 then (0x3c0 AND push_bit 6 (us (m (p + 6)))) OR us (drop_bit 2 (m (p + 9)))
      else if k = 7 then (0x300 AND push_bit 8 (us (m (p + 9)))) OR us (m (p + 8))
      else 0)"

definition get_pixel12 :: "nat \<Rightarrow> nat \<Rightarrow> mem \<Rightarrow> u16" where
  "get_pixel12 p k m =
     (if k = 0 then push_bit 4 (us (m (p + 1))) OR us (drop_bit 4 (m p))
      else if k = 1 then push_bit 8 (us (m p AND 0x0F)) OR us (m (p + 3))
      else if k = 2 then push_bit 4 (us (m (p + 2))) OR us (drop_bit 4 (m (p + 5)))
      else if k = 3 then push_bit 8 (us (m (p + 5) AND 0x0F)) OR us (m (p + 4))
      else 0)"

definition get_pixel14 :: "nat \<Rightarrow> nat \<Rightarrow> mem \<Rightarrow> u16" where
  "get_pixel14 p k m =
     (if k = 0 then push_bit 6 (us (m (p + 1))) OR us (drop_bit 2 (m p))
      else if k = 1 then push_bit 12 (us (m p AND 0x03)) OR push_bit 4 (us (m (p + 3))) OR
                         us (drop_bit 4 (m (p + 2)))
      else if k = 2 then push_bit 10 (us (m (p + 2) AND 0x0F)) OR push_bit 2 (us (m (p + 5))) OR
                         us (drop_bit 6 (m (p + 4)))
      else if k = 3 then push_bit 8 (us (m (p + 4) AND 0x3F)) OR us (m (p + 7))
      else if k = 4 then push_bit 6 (us (m (p + 6))) OR us (drop_bit 2 (m (p + 9)))
      else if k = 5 then push_bit 12 (us (m (p + 9) AND 0x03)) OR push_bit 4 (us (m (p + 8))) OR
                         us (drop_bit 4 (m (p + 11)))
      else if k = 6 then push_bit 10 (us (m (p + 11) AND 0x0F)) OR push_bit 2 (us (m (p + 10))) OR
                         us (drop_bit 6 (m (p + 13)))
      else if k = 7 then push_bit 8 (us (m (p + 13) AND 0x3F)) OR us (m (p + 12))
      else 0)"

definition get_raw_pixel :: "sensor \<Rightarrow> nat \<Rightarrow> nat \<Rightarrow> mem \<Rightarrow> u16" where
  "get_raw_pixel S x y m =
     (if bits_per_pixel S = 10
      then get_pixel10 (y * raw_rowlen S + (x div 8) * 10) (x mod 8) m
      else if bits_per_pixel S = 12
      then get_pixel12 (y * raw_rowlen S + (x div 4) * 6) (x mod 4) m
      else get_pixel14 (y * raw_rowlen S + (x div 8) * 14) (x mod 8) m)"

section \<open>Bad pixels\<close>

text \<open>
  \<open>conf.bad_pixel_removal\<close> is \<open>removal\<close>, and \<open>conf.save_raw && conf.dng_raw\<close> is \<open>dng\<close>. The
  loop over \<open>i\<close> and \<open>j\<close> visits the four diagonal neighbours in this order.
\<close>

definition diagonal :: "nat \<Rightarrow> nat \<Rightarrow> (nat \<times> nat) list" where
  "diagonal x y = [(x - 2, y - 2), (x - 2, y + 2), (x + 2, y - 2), (x + 2, y + 2)]"

definition count_neighbour :: "sensor \<Rightarrow> mem \<Rightarrow> nat \<times> nat \<Rightarrow> nat \<times> nat \<Rightarrow> nat \<times> nat" where
  "count_neighbour S m q acc =
     (let val = unat (get_raw_pixel S (fst q) (snd q) m)
      in if val \<noteq> 0 then (fst acc + val, snd acc + 1) else acc)"

definition patch_bad_pixel :: "sensor \<Rightarrow> int \<Rightarrow> bool \<Rightarrow> nat \<times> nat \<Rightarrow> mem \<Rightarrow> mem" where
  "patch_bad_pixel S removal dng q m =
     (let (x, y) = q in
      if x \<ge> 2 \<and> x + 2 < raw_rowpix S \<and> y \<ge> 2 \<and> y + 2 < raw_rows S
      then if removal = 1 \<or> dng
           then let (sum, nzero) = fold (count_neighbour S m) (diagonal x y) (0, 0)
                in if nzero \<noteq> 0 then set_raw_pixel S x y (word_of_nat (sum div nzero)) m else m
           else if removal = 2 then set_raw_pixel S x y 0 m
           else m
      else m)"

text \<open>The list of bad pixels; its \<open>int\<close> coordinates are passed as \<open>unsigned int\<close>.\<close>

definition patch_bad_pixels :: "sensor \<Rightarrow> int \<Rightarrow> bool \<Rightarrow> (int \<times> int) list \<Rightarrow> mem \<Rightarrow> mem" where
  "patch_bad_pixels S removal dng pixel_list m =
     fold (\<lambda>(x, y). patch_bad_pixel S removal dng (unat (word_of_int x :: u32), unat (word_of_int y :: u32)))
       pixel_list m"

section \<open>The layout of a block\<close>

text \<open>Which bits of which byte of its block a pixel occupies.\<close>

definition layout_of :: "((nat \<times> nat) \<times> u8) list \<Rightarrow> nat \<Rightarrow> nat \<Rightarrow> u8" where
  "layout_of l k i = (case map_of l (k, i) of None \<Rightarrow> 0 | Some w \<Rightarrow> w)"

definition layout10 :: "((nat \<times> nat) \<times> u8) list" where
  "layout10 =
     [((0, 0), 0xC0), ((0, 1), 0xFF), ((1, 0), 0x3F), ((1, 3), 0xF0), ((2, 2), 0xFC), ((2, 3), 0x0F),
      ((3, 2), 0x03), ((3, 5), 0xFF), ((4, 4), 0xFF), ((4, 7), 0xC0), ((5, 6), 0xF0), ((5, 7), 0x3F),
      ((6, 6), 0x0F), ((6, 9), 0xFC), ((7, 8), 0xFF), ((7, 9), 0x03)]"

definition layout12 :: "((nat \<times> nat) \<times> u8) list" where
  "layout12 =
     [((0, 0), 0xF0), ((0, 1), 0xFF), ((1, 0), 0x0F), ((1, 3), 0xFF), ((2, 2), 0xFF), ((2, 5), 0xF0),
      ((3, 4), 0xFF), ((3, 5), 0x0F)]"

definition layout14 :: "((nat \<times> nat) \<times> u8) list" where
  "layout14 =
     [((0, 0), 0xFC), ((0, 1), 0xFF), ((1, 0), 0x03), ((1, 2), 0xF0), ((1, 3), 0xFF), ((2, 2), 0x0F),
      ((2, 4), 0xC0), ((2, 5), 0xFF), ((3, 4), 0x3F), ((3, 7), 0xFF), ((4, 6), 0xFF), ((4, 9), 0xFC),
      ((5, 8), 0xFF), ((5, 9), 0x03), ((5, 11), 0xF0), ((6, 10), 0xFF), ((6, 11), 0x0F),
      ((6, 13), 0xC0), ((7, 12), 0xFF), ((7, 13), 0x3F)]"

text \<open>The part of the buffer that is a pixel.\<close>

definition pixel_part :: "((nat \<times> nat) \<times> u8) list \<Rightarrow> nat \<Rightarrow> nat \<Rightarrow> mem \<Rightarrow> mem" where
  "pixel_part l p k m = (\<lambda>j. if p \<le> j then m j AND layout_of l k (j - p) else 0)"

definition layout_disjoint :: "((nat \<times> nat) \<times> u8) list \<Rightarrow> bool" where
  "layout_disjoint l \<longleftrightarrow> list_all (\<lambda>((k, i), w). list_all (\<lambda>((k', i'), w').
     k \<noteq> k' \<and> i = i' \<longrightarrow> w AND w' = 0) l) l"

lemma layout_disjoint_and:
  assumes "layout_disjoint l" and "k \<noteq> k'"
  shows "layout_of l k i AND layout_of l k' i = 0"
  using assms
  by (auto simp: layout_of_def layout_disjoint_def list_all_iff split: option.splits dest!: map_of_SomeD)

lemma layouts_disjoint: "layout_disjoint layout10" "layout_disjoint layout12" "layout_disjoint layout14"
  by (simp_all add: layout_disjoint_def layout10_def layout12_def layout14_def)

lemma less_8: "(k :: nat) < 8 \<longleftrightarrow> k = 0 \<or> k = 1 \<or> k = 2 \<or> k = 3 \<or> k = 4 \<or> k = 5 \<or> k = 6 \<or> k = 7"
  by presburger

lemma less_4: "(k :: nat) < 4 \<longleftrightarrow> k = 0 \<or> k = 1 \<or> k = 2 \<or> k = 3"
  by presburger

lemma all_less_8: "(\<forall>n < 8. P (n :: nat)) \<longleftrightarrow> P 0 \<and> P 1 \<and> P 2 \<and> P 3 \<and> P 4 \<and> P 5 \<and> P 6 \<and> P 7"
  unfolding less_8 by blast

lemma all_less_16: "(\<forall>n < 16. P (n :: nat)) \<longleftrightarrow> (\<forall>n < 8. P n) \<and> (\<forall>n < 8. P (n + 8))"
proof -
  have "(\<forall>n < 8. P (n + 8)) \<longleftrightarrow> (\<forall>n. 8 \<le> n \<and> n < 16 \<longrightarrow> P n)"
    by (metis add.commute add_less_cancel_left le_Suc_ex le_add1 numeral_Bit0)
  then show ?thesis by (meson linorder_not_le order_less_le_trans numeral_le_iff semiring_norm)
qed

lemma byte_eqI: "\<forall>n < 8. bit a n = bit b n \<Longrightarrow> a = (b :: u8)"
  by (rule bit_word_eqI) simp

lemma short_eqI: "\<forall>n < 16. bit a n = bit b n \<Longrightarrow> a = (b :: u16)"
  by (rule bit_word_eqI) simp

lemma bit_high: "8 \<le> n \<Longrightarrow> \<not> bit (b :: u8) n"
  using bit_imp_le_length [of b n] by auto

lemmas pixel_bits = all_less_16 all_less_8 bit_simps lo8_def us_def bit_high

lemma pixel10_same:
  assumes "k < 8"
  shows "get_pixel10 p k (set_pixel10 p k v m) = v AND 0x3FF"
  using assms unfolding less_8
  by (elim disjE; simp add: get_pixel10_def set_pixel10_def; intro short_eqI; simp add: pixel_bits;
      simp add: numeral_2_eq_2 numeral_3_eq_3)

lemma pixel12_same:
  assumes "k < 4"
  shows "get_pixel12 p k (set_pixel12 p k v m) = v AND 0xFFF"
  using assms unfolding less_4
  by (elim disjE; simp add: get_pixel12_def set_pixel12_def; intro short_eqI; simp add: pixel_bits;
      simp add: numeral_2_eq_2 numeral_3_eq_3)

lemma pixel14_same:
  assumes "k < 8"
  shows "get_pixel14 p k (set_pixel14 p k v m) = v AND 0x3FFF"
  using assms unfolding less_8
  by (elim disjE; simp add: get_pixel14_def set_pixel14_def; intro short_eqI; simp add: pixel_bits;
      simp add: numeral_2_eq_2 numeral_3_eq_3)

text \<open>
  A read sees its own part only; a write of a value that fits in the pixel changes its own part only. A
  value that does not fit would spill into other pixels of the block.
\<close>

definition fits :: "nat \<Rightarrow> u16 \<Rightarrow> bool" where
  "fits b v \<longleftrightarrow> drop_bit b v = 0"

lemma fits_bit: "fits b v \<Longrightarrow> b \<le> n \<Longrightarrow> \<not> bit v n"
  unfolding fits_def using bit_drop_bit_eq [of b v] by (metis add_diff_inverse_nat bit_0_eq bot_apply comp_apply leD le_add_diff_inverse bot_bool_def)

lemma pixel10_reads:
  assumes "k < 8"
  shows "get_pixel10 p k (pixel_part layout10 p k m) = get_pixel10 p k m"
  using assms unfolding less_8
  by (elim disjE; simp add: get_pixel10_def pixel_part_def layout_of_def layout10_def;
      intro short_eqI; simp add: pixel_bits)

lemma pixel10_writes:
  assumes "k < 8" and "p \<le> j" and "fits 10 v"
  shows "set_pixel10 p k v m j AND NOT (layout_of layout10 k (j - p)) =
    m j AND NOT (layout_of layout10 k (j - p))"
proof -
  obtain i where j: "j = p + i" using assms(2) by (metis le_Suc_ex)
  note hi = fits_bit [OF assms(3)]
  show ?thesis
    using assms(1) unfolding less_8 j
    by (elim disjE; simp add: set_pixel10_def layout_of_def layout10_def; intro impI conjI;
        intro byte_eqI; simp add: pixel_bits hi)
qed

lemma pixel10_outside:
  "j < p \<or> p + 10 \<le> j \<Longrightarrow> set_pixel10 p k v m j = m j"
  by (auto simp: set_pixel10_def)

lemma pixel12_reads:
  assumes "k < 4"
  shows "get_pixel12 p k (pixel_part layout12 p k m) = get_pixel12 p k m"
  using assms unfolding less_4
  by (elim disjE; simp add: get_pixel12_def pixel_part_def layout_of_def layout12_def;
      intro short_eqI; simp add: pixel_bits)

lemma pixel12_writes:
  assumes "k < 4" and "p \<le> j" and "fits 12 v"
  shows "set_pixel12 p k v m j AND NOT (layout_of layout12 k (j - p)) =
    m j AND NOT (layout_of layout12 k (j - p))"
proof -
  obtain i where j: "j = p + i" using assms(2) by (metis le_Suc_ex)
  note hi = fits_bit [OF assms(3)]
  show ?thesis
    using assms(1) unfolding less_4 j
    by (elim disjE; simp add: set_pixel12_def layout_of_def layout12_def; intro impI conjI;
        intro byte_eqI; simp add: pixel_bits hi)
qed

lemma pixel12_outside:
  "j < p \<or> p + 6 \<le> j \<Longrightarrow> set_pixel12 p k v m j = m j"
  by (auto simp: set_pixel12_def)

lemma pixel14_reads:
  assumes "k < 8"
  shows "get_pixel14 p k (pixel_part layout14 p k m) = get_pixel14 p k m"
  using assms unfolding less_8
  by (elim disjE; simp add: get_pixel14_def pixel_part_def layout_of_def layout14_def;
      intro short_eqI; simp add: pixel_bits)

lemma pixel14_writes:
  assumes "k < 8" and "p \<le> j" and "fits 14 v"
  shows "set_pixel14 p k v m j AND NOT (layout_of layout14 k (j - p)) =
    m j AND NOT (layout_of layout14 k (j - p))"
proof -
  obtain i where j: "j = p + i" using assms(2) by (metis le_Suc_ex)
  note hi = fits_bit [OF assms(3)]
  show ?thesis
    using assms(1) unfolding less_8 j
    by (elim disjE; simp add: set_pixel14_def layout_of_def layout14_def; intro impI conjI;
        intro byte_eqI; simp add: pixel_bits hi)
qed

lemma pixel14_outside:
  "j < p \<or> p + 14 \<le> j \<Longrightarrow> set_pixel14 p k v m j = m j"
  by (auto simp: set_pixel14_def)

definition layout_within :: "nat \<Rightarrow> ((nat \<times> nat) \<times> u8) list \<Rightarrow> bool" where
  "layout_within len l \<longleftrightarrow> list_all (\<lambda>((k, i), w). i < len) l"

lemma layout_within_zero: "layout_within len l \<Longrightarrow> len \<le> i \<Longrightarrow> layout_of l k i = 0"
  by (auto simp: layout_within_def layout_of_def list_all_iff split: option.splits dest!: map_of_SomeD)

lemma fits_unat: "fits b v \<longleftrightarrow> unat v < 2 ^ b"
proof -
  have "fits b v \<longleftrightarrow> unat (drop_bit b v) = 0" by (simp add: fits_def unat_eq_zero)
  moreover have "unat (drop_bit b v) = unat v div 2 ^ b"
    by (rule trans [OF unat_drop_bit_eq drop_bit_eq_div])
  ultimately show ?thesis by (simp add: div_eq_0_iff)
qed

lemma fits_mask: "fits 10 v \<Longrightarrow> v AND 0x3FF = v" "fits 12 v \<Longrightarrow> v AND 0xFFF = v"
  "fits 14 v \<Longrightarrow> v AND 0x3FFF = v"
  by (intro short_eqI; simp add: pixel_bits fits_bit)+

lemma get_pixel_fits:
  "fits 10 (get_pixel10 p k m)" "fits 12 (get_pixel12 p k m)" "fits 14 (get_pixel14 p k m)"
  unfolding fits_def
  by (intro short_eqI; simp add: get_pixel10_def get_pixel12_def get_pixel14_def pixel_bits)+

lemma and_part:
  "x AND NOT a = y AND NOT a \<Longrightarrow> a AND b = 0 \<Longrightarrow> x AND b = (y AND b :: u8)"
  by (metis and.assoc and_not_and_other)

section \<open>Packed formats\<close>

text \<open>
  A packed format: \<open>n\<close> pixels of \<open>b\<close> bits in a block of \<open>len\<close> bytes. What it promises is that
  a pixel reads its own bits only, and that writing it changes only those.
\<close>

locale packed_format =
  fixes get_k :: "nat \<Rightarrow> nat \<Rightarrow> mem \<Rightarrow> u16"
    and set_k :: "nat \<Rightarrow> nat \<Rightarrow> u16 \<Rightarrow> mem \<Rightarrow> mem"
    and lay :: "((nat \<times> nat) \<times> u8) list"
    and n len b :: nat
  assumes same: "k < n \<Longrightarrow> fits b v \<Longrightarrow> get_k p k (set_k p k v m) = v"
    and reads: "k < n \<Longrightarrow> get_k p k (pixel_part lay p k m) = get_k p k m"
    and writes: "k < n \<Longrightarrow> p \<le> j \<Longrightarrow> fits b v \<Longrightarrow>
      set_k p k v m j AND NOT (layout_of lay k (j - p)) = m j AND NOT (layout_of lay k (j - p))"
    and outside: "j < p \<or> p + len \<le> j \<Longrightarrow> set_k p k v m j = m j"
    and disjoint: "layout_disjoint lay"
    and within: "layout_within len lay"
    and get_fits: "fits b (get_k p k m)"
    and pos: "0 < n"
begin

lemma other_pixel:
  assumes "k < n" and "k' < n" and "fits b v"
    and "p' = p \<and> k \<noteq> k' \<or> p' + len \<le> p \<or> p + len \<le> p'"
  shows "get_k p' k' (set_k p k v m) = get_k p' k' m"
proof -
  have "pixel_part lay p' k' (set_k p k v m) = pixel_part lay p' k' m"
  proof (rule ext)
    fix j
    consider "j < p'" | "p' + len \<le> j" | "p' \<le> j" "j < p' + len" by linarith
    then show "pixel_part lay p' k' (set_k p k v m) j = pixel_part lay p' k' m j"
    proof cases
      case 2
      then have "layout_of lay k' (j - p') = 0" by (intro layout_within_zero [OF within]) simp
      then show ?thesis by (simp add: pixel_part_def)
    next
      case 3
      show ?thesis
      proof (cases "p' = p \<and> k \<noteq> k'")
        case True
        with 3 writes [OF assms(1) _ assms(3), of p j m] layout_disjoint_and [OF disjoint, of k k' "j - p"]
        show ?thesis by (auto simp: pixel_part_def intro: and_part)
      next
        case False
        with assms(4) 3 have "j < p \<or> p + len \<le> j" by linarith
        then show ?thesis by (simp add: pixel_part_def outside)
      qed
    qed (simp add: pixel_part_def)
  qed
  then show ?thesis using reads [OF assms(2)] by metis
qed

definition at :: "nat \<Rightarrow> nat \<Rightarrow> nat \<Rightarrow> nat" where
  "at rowlen x y = y * rowlen + x div n * len"

lemma blocks_apart:
  assumes "x < w" and "x' < w" and "n dvd w" and "w div n * len \<le> rowlen" and "(x, y) \<noteq> (x', y')"
  shows "at rowlen x' y' = at rowlen x y \<and> x mod n \<noteq> x' mod n \<or>
    at rowlen x' y' + len \<le> at rowlen x y \<or> at rowlen x y + len \<le> at rowlen x' y'"
proof -
  have less: "a * rowlen + u div n * len + len \<le> c * rowlen" if "a < c" "u < w" for a c u
  proof -
    have "u div n < w div n" using that assms(3) pos by (metis dvd_div_mult_self div_less_iff_less_mult)
    then have "(u div n + 1) * len \<le> w div n * len" by (intro mult_right_mono) auto
    moreover have "(a + 1) * rowlen \<le> c * rowlen" using that by (intro mult_right_mono) auto
    ultimately show ?thesis using assms(4) by simp
  qed
  have block: "u div n * len + len \<le> u' div n * len" if "u div n < u' div n" for u u'
  proof -
    have "(u div n + 1) * len \<le> u' div n * len" using that by (intro mult_right_mono) auto
    then show ?thesis by simp
  qed
  consider "y < y'" | "y' < y" | "y = y'" "x div n < x' div n" | "y = y'" "x' div n < x div n"
    | "y = y'" "x div n = x' div n" by linarith
  then show ?thesis
  proof cases
    case 5
    with assms(5) have "x mod n \<noteq> x' mod n" by (metis div_mult_mod_eq)
    with 5 show ?thesis by (simp add: at_def)
  qed (use less [of y y' x] less [of y' y x'] block [of x x'] block [of x' x] assms(1,2) in
      \<open>auto simp: at_def\<close>)
qed

lemma write_then_read:
  assumes "x < w" and "x' < w" and "n dvd w" and "w div n * len \<le> rowlen" and "fits b v"
  shows "get_k (at rowlen x' y') (x' mod n) (set_k (at rowlen x y) (x mod n) v m) =
    (if (x, y) = (x', y') then v else get_k (at rowlen x' y') (x' mod n) m)"
  using other_pixel [OF _ _ assms(5) blocks_apart [OF assms(1-4)]] same [OF _ assms(5)] pos
  by auto

end

interpretation raw10: packed_format get_pixel10 set_pixel10 layout10 8 10 10
  by unfold_locales
    (simp_all add: pixel10_same pixel10_reads pixel10_writes pixel10_outside fits_mask get_pixel_fits
      layouts_disjoint, simp add: layout_within_def layout10_def)

interpretation raw12: packed_format get_pixel12 set_pixel12 layout12 4 6 12
  by unfold_locales
    (simp_all add: pixel12_same pixel12_reads pixel12_writes pixel12_outside fits_mask get_pixel_fits
      layouts_disjoint, simp add: layout_within_def layout12_def)

interpretation raw14: packed_format get_pixel14 set_pixel14 layout14 8 14 14
  by unfold_locales
    (simp_all add: pixel14_same pixel14_reads pixel14_writes pixel14_outside fits_mask get_pixel_fits
      layouts_disjoint, simp add: layout_within_def layout14_def)

section \<open>The raw buffer\<close>

text \<open>A port's sensor: one of the three formats, rows of whole blocks that do not overlap.\<close>

definition sensor_ok :: "sensor \<Rightarrow> bool" where
  "sensor_ok S \<longleftrightarrow>
     bits_per_pixel S = 10 \<and> 8 dvd raw_rowpix S \<and> raw_rowpix S div 8 * 10 \<le> raw_rowlen S \<or>
     bits_per_pixel S = 12 \<and> 4 dvd raw_rowpix S \<and> raw_rowpix S div 4 * 6 \<le> raw_rowlen S \<or>
     bits_per_pixel S = 14 \<and> 8 dvd raw_rowpix S \<and> raw_rowpix S div 8 * 14 \<le> raw_rowlen S"

lemma raw_write_read:
  assumes "sensor_ok S" and "x < raw_rowpix S" and "x' < raw_rowpix S" and "fits (bits_per_pixel S) v"
  shows "get_raw_pixel S x' y' (set_raw_pixel S x y v m) =
    (if (x, y) = (x', y') then v else get_raw_pixel S x' y' m)"
  using assms(1) unfolding sensor_ok_def
proof (elim disjE conjE)
  assume "bits_per_pixel S = 10" "8 dvd raw_rowpix S" "raw_rowpix S div 8 * 10 \<le> raw_rowlen S"
  with raw10.write_then_read [OF assms(2,3), of "raw_rowlen S" v y' y m] assms(4) show ?thesis
    by (simp add: get_raw_pixel_def set_raw_pixel_def raw10.at_def)
next
  assume "bits_per_pixel S = 12" "4 dvd raw_rowpix S" "raw_rowpix S div 4 * 6 \<le> raw_rowlen S"
  with raw12.write_then_read [OF assms(2,3), of "raw_rowlen S" v y' y m] assms(4) show ?thesis
    by (simp add: get_raw_pixel_def set_raw_pixel_def raw12.at_def)
next
  assume "bits_per_pixel S = 14" "8 dvd raw_rowpix S" "raw_rowpix S div 8 * 14 \<le> raw_rowlen S"
  with raw14.write_then_read [OF assms(2,3), of "raw_rowlen S" v y' y m] assms(4) show ?thesis
    by (simp add: get_raw_pixel_def set_raw_pixel_def raw14.at_def)
qed

lemma raw_get_fits: "sensor_ok S \<Longrightarrow> fits (bits_per_pixel S) (get_raw_pixel S x y m)"
  by (auto simp: sensor_ok_def get_raw_pixel_def get_pixel_fits)

definition neighbour_values :: "sensor \<Rightarrow> nat \<Rightarrow> nat \<Rightarrow> mem \<Rightarrow> nat list" where
  "neighbour_values S x y m =
     filter (\<lambda>v. v \<noteq> 0) (map (\<lambda>q. unat (get_raw_pixel S (fst q) (snd q) m)) (diagonal x y))"

lemma count_neighbours:
  "fold (count_neighbour S m) qs (a, c) =
     (a + sum_list (filter (\<lambda>v. v \<noteq> 0) (map (\<lambda>q. unat (get_raw_pixel S (fst q) (snd q) m)) qs)),
      c + length (filter (\<lambda>v. v \<noteq> 0) (map (\<lambda>q. unat (get_raw_pixel S (fst q) (snd q) m)) qs)))"
  by (induction qs arbitrary: a c) (simp_all add: count_neighbour_def Let_def)

lemma sum_list_between:
  assumes "\<forall>v \<in> set vs. lo \<le> v \<and> v < (hi :: nat)" and "vs \<noteq> []"
  shows "lo \<le> sum_list vs div length vs \<and> sum_list vs div length vs < hi"
proof -
  have "lo * length vs \<le> sum_list vs \<and> sum_list vs \<le> (hi - 1) * length vs"
    using assms(1) by (induction vs) auto
  moreover have "0 < hi" "0 < length vs" using assms by (cases vs; auto)+
  ultimately show ?thesis
    by (metis Suc_pred' div_le_mono le_imp_less_Suc less_not_refl nonzero_mult_div_cancel_right)
qed

lemma neighbour_mean:
  assumes "sensor_ok S" and "neighbour_values S x y m \<noteq> []"
  shows "sum_list (neighbour_values S x y m) div length (neighbour_values S x y m) < 2 ^ bits_per_pixel S"
    and "unat (word_of_nat (sum_list (neighbour_values S x y m) div
        length (neighbour_values S x y m)) :: u16) =
      sum_list (neighbour_values S x y m) div length (neighbour_values S x y m)"
proof -
  have "\<forall>v \<in> set (neighbour_values S x y m). 0 \<le> v \<and> v < 2 ^ bits_per_pixel S"
    using raw_get_fits [OF assms(1)] by (auto simp: neighbour_values_def fits_unat)
  from sum_list_between [OF this assms(2)]
  show l: "sum_list (neighbour_values S x y m) div length (neighbour_values S x y m) < 2 ^ bits_per_pixel S"
    by simp
  have "(2 :: nat) ^ bits_per_pixel S \<le> 2 ^ 16" using assms(1) by (auto simp: sensor_ok_def)
  with l show "unat (word_of_nat (sum_list (neighbour_values S x y m) div
        length (neighbour_values S x y m)) :: u16) =
      sum_list (neighbour_values S x y m) div length (neighbour_values S x y m)"
    by (simp add: unat_of_nat)
qed

lemma patch_cases:
  "patch_bad_pixel S removal dng (x, y) m =
     (if 2 \<le> x \<and> x + 2 < raw_rowpix S \<and> 2 \<le> y \<and> y + 2 < raw_rows S
      then if removal = 1 \<or> dng
           then if neighbour_values S x y m \<noteq> []
                then set_raw_pixel S x y (word_of_nat (sum_list (neighbour_values S x y m) div
                       length (neighbour_values S x y m))) m
                else m
           else if removal = 2 then set_raw_pixel S x y 0 m else m
      else m)"
proof -
  have "fold (count_neighbour S m) (diagonal x y) (0, 0) =
      (sum_list (neighbour_values S x y m), length (neighbour_values S x y m))"
    by (simp only: count_neighbours neighbour_values_def add_0)
  then show ?thesis by (simp add: patch_bad_pixel_def)
qed

lemma patch_other:
  assumes "sensor_ok S" and "x' < raw_rowpix S" and "(x', y') \<noteq> q"
  shows "get_raw_pixel S x' y' (patch_bad_pixel S removal dng q m) = get_raw_pixel S x' y' m"
proof -
  obtain x y where q: "q = (x, y)" by (cases q)
  have "fits (bits_per_pixel S) 0" by (simp add: fits_unat)
  then show ?thesis
    using raw_write_read [OF assms(1) _ assms(2)] neighbour_mean [OF assms(1)] assms(3)
    unfolding q patch_cases by (auto simp: fits_unat)
qed

section \<open>Properties\<close>

text \<open>C22: writing and reading pixels. In each of the three packed formats, a value that fits in
  the pixel's bits is read back from the pixel it was written to, and no other pixel of the image
  reads differently.\<close>

theorem raw_pixel_write_read:
  assumes "sensor_ok S" and "x < raw_rowpix S" and "x' < raw_rowpix S"
    and "unat v < 2 ^ bits_per_pixel S"
  shows "get_raw_pixel S x' y' (set_raw_pixel S x y v m) =
    (if x' = x \<and> y' = y then v else get_raw_pixel S x' y' m)"
  using raw_write_read [OF assms(1-3), of v y' y m] assms(4) by (auto simp: fits_unat)

definition demo_sensor :: sensor where
  "demo_sensor = \<lparr>bits_per_pixel = 12, raw_rowlen = 24, raw_rowpix = 16, raw_rows = 8\<rparr>"

theorem raw_pixel_write_read_witness:
  "get_raw_pixel demo_sensor 5 1 (set_raw_pixel demo_sensor 6 1 0xABC
     (set_raw_pixel demo_sensor 5 1 0x123 (\<lambda>_. 0))) = 0x123"
  using raw_pixel_write_read [of demo_sensor 6 5 "0xABC" 1 1 "set_raw_pixel demo_sensor 5 1 0x123 (\<lambda>_. 0)"]
    raw_pixel_write_read [of demo_sensor 5 5 "0x123" 1 1 "\<lambda>_. 0"]
  by (simp add: sensor_ok_def demo_sensor_def)

text \<open>Patching a bad pixel by interpolation. An inner pixel with some non-zero diagonal neighbour at distance two becomes the mean of those neighbours,
  rounded down, which lies between the smallest and the largest of them (so it fits in the
  pixel); with no such neighbour, or at the border, nothing is written. No other pixel changes.\<close>

theorem patch_bad_pixel_interpolates:
  assumes S: "sensor_ok S" and mode: "removal = 1 \<or> dng" and x: "x < raw_rowpix S" "x' < raw_rowpix S"
  shows "let vs = neighbour_values S x y m; m' = patch_bad_pixel S removal dng (x, y) m;
      inner = (2 \<le> x \<and> x + 2 < raw_rowpix S \<and> 2 \<le> y \<and> y + 2 < raw_rows S)
    in (if inner \<and> vs \<noteq> []
        then unat (get_raw_pixel S x y m') = sum_list vs div length vs \<and>
             (\<exists>v \<in> set vs. v \<le> unat (get_raw_pixel S x y m')) \<and>
             (\<exists>v \<in> set vs. unat (get_raw_pixel S x y m') \<le> v)
        else m' = m) \<and>
       ((x', y') \<noteq> (x, y) \<longrightarrow> get_raw_pixel S x' y' m' = get_raw_pixel S x' y' m)"
proof -
  define vs where "vs = neighbour_values S x y m"
  define m' where "m' = patch_bad_pixel S removal dng (x, y) m"
  define inner where "inner \<longleftrightarrow> 2 \<le> x \<and> x + 2 < raw_rowpix S \<and> 2 \<le> y \<and> y + 2 < raw_rows S"
  have mean: "unat (get_raw_pixel S x y m') = sum_list vs div length vs" if "inner" "vs \<noteq> []"
    using that mode neighbour_mean [OF S, of x y m] raw_write_read [OF S x(1) x(1)]
    by (auto simp: m'_def vs_def inner_def patch_cases fits_unat)
  have between: "(\<exists>v \<in> set vs. v \<le> sum_list vs div length vs) \<and> (\<exists>v \<in> set vs. sum_list vs div length vs \<le> v)"
    if "vs \<noteq> []"
  proof -
    have "\<forall>v \<in> set vs. Min (set vs) \<le> v \<and> v < Max (set vs) + 1" by (auto simp: less_Suc_eq_le)
    from sum_list_between [OF this that] that show ?thesis
      by (intro conjI bexI [of _ "Min (set vs)"] bexI [of _ "Max (set vs)"]) auto
  qed
  have same: "m' = m" if "\<not> (inner \<and> vs \<noteq> [])"
    using that mode by (auto simp: m'_def vs_def inner_def patch_cases)
  show ?thesis
    using mean between same patch_other [OF S x(2), of y' "(x, y)" removal dng m]
    unfolding Let_def vs_def [symmetric] m'_def [symmetric] inner_def [symmetric] by auto
qed

theorem patch_bad_pixel_interpolates_witness:
  "patch_bad_pixel demo_sensor 1 False (1, 1) (\<lambda>_. 0) = (\<lambda>_. 0)"
  using patch_bad_pixel_interpolates [of demo_sensor 1 False 1 1 1 "\<lambda>_. 0" 1]
  by (simp add: sensor_ok_def demo_sensor_def Let_def)

text \<open>Patching the whole list touches the listed pixels only: a pixel whose coordinates are not on the
  list reads the same after the run, whatever the mode and however often pixels are listed
  (coordinates outside the image, negative ones included, patch nothing).\<close>

theorem patch_bad_pixels_only_listed:
  assumes S: "sensor_ok S" and x: "x < raw_rowpix S" "x < 2 ^ 32" "y < 2 ^ 32"
    and not_listed: "(int x, int y) \<notin> (\<lambda>(a, b). (a mod 2 ^ 32, b mod 2 ^ 32)) ` set pixel_list"
  shows "get_raw_pixel S x y (patch_bad_pixels S removal dng pixel_list m) = get_raw_pixel S x y m"
  using not_listed
proof (induction pixel_list arbitrary: m)
  case (Cons p ps)
  obtain a b where p: "p = (a, b)" by (cases p)
  have u: "int (unat (word_of_int c :: u32)) = c mod 2 ^ 32" for c
    by (simp add: unat_eq_nat_uint uint_word_of_int)
  have "(x, y) \<noteq> (unat (word_of_int a :: u32), unat (word_of_int b :: u32))"
    using Cons.prems p u [of a] u [of b] by auto
  from patch_other [OF S x(1) this] Cons show ?case
    by (simp add: patch_bad_pixels_def p)
qed (simp add: patch_bad_pixels_def)

theorem patch_bad_pixels_only_listed_witness:
  "get_raw_pixel demo_sensor 5 1 (patch_bad_pixels demo_sensor 1 False [(4, 4), (-1, 3)] (\<lambda>_. 7)) =
   get_raw_pixel demo_sensor 5 1 (\<lambda>_. 7)"
  using patch_bad_pixels_only_listed [of demo_sensor 5 1 "[(4, 4), (-1, 3)]" 1 False "\<lambda>_. 7"]
  by (simp add: sensor_ok_def demo_sensor_def)

end
