(* ===== verification/Suba.thy ===== *)
theory Suba
  imports Prelude
begin

text \<open>
  The sub-allocator of \<open>core/suba.c\<close>, which hands out the memory CHDK takes from the camera.

  The memory area is addressed by offsets from its start: \<open>heap s a\<close> is the 32-bit word at
  offset \<open>a\<close>. A cell at offset \<open>c\<close> keeps its sz in the word at \<open>c\<close>; its data starts at
  \<open>c + 8\<close>, and a free cell keeps the offset of the next free cell in the first word of its data
  (\<open>POFF\<close> is the offset of \<open>next\<close> in \<open>struct cell\<close>), so that a client's write into an object
  overwrites the link. The header of the area, its first 40 bytes, is the rest of the record.
  Sizes and offsets are \<open>size_t\<close>: naturals, with the wrap at \<open>2 ^ 32\<close> written out.
  A \<open>NULL\<close> pointer is \<open>None\<close>; the two loops over the free list may run forever on a damaged
  list, so they are options, with the outer \<open>None\<close> for a call that does not return.
\<close>

section \<open>Sizes and cells\<close>

definition wrap32 :: "nat \<Rightarrow> nat" where
  "wrap32 x = x mod 2 ^ 32"

definition minus32 :: "nat \<Rightarrow> nat \<Rightarrow> nat" where
  "minus32 x y = wrap32 (x + 2 ^ 32 - wrap32 y)"

text \<open>\<open>ALIGN(s)\<close>: the next multiple of 8, computed in 32 bits.\<close>

definition ALIGN :: "nat \<Rightarrow> nat" where
  "ALIGN s = (let t = wrap32 (s + 7) in t - t mod 8)"

definition POFF :: nat where "POFF = 8"
definition hdrsiz :: nat where "hdrsiz = ALIGN 36"

definition SUBA_MAGIC :: "nat list" where
  "SUBA_MAGIC = [0xFF, 0x15, 0x15, 0x15, 0x53, 0x55, 0x42, 0x41]"

record allocator =
  magic :: "nat list"
  tail :: nat
  mincell :: nat
  area_size :: nat
  allocated_count :: nat
  allocated_size :: nat
  allocated_peak :: nat
  max_free :: nat
  heap :: "nat \<Rightarrow> nat"

definition cell_size :: "(nat \<Rightarrow> nat) \<Rightarrow> nat \<Rightarrow> nat" where
  "cell_size h c = h c"

definition cell_next :: "(nat \<Rightarrow> nat) \<Rightarrow> nat \<Rightarrow> nat" where
  "cell_next h c = h (c + 8)"

definition set_size :: "nat \<Rightarrow> nat \<Rightarrow> allocator \<Rightarrow> allocator" where
  "set_size c v s = s\<lparr>heap := (heap s)(c := v)\<rparr>"

definition set_next :: "nat \<Rightarrow> nat \<Rightarrow> allocator \<Rightarrow> allocator" where
  "set_next c v s = s\<lparr>heap := (heap s)(c + 8 := v)\<rparr>"

definition C2P :: "nat \<Rightarrow> nat" where "C2P c = wrap32 (c + POFF)"
definition P2C :: "nat \<Rightarrow> nat" where "P2C p = minus32 p POFF"

definition ISADJ :: "(nat \<Rightarrow> nat) \<Rightarrow> nat \<Rightarrow> nat \<Rightarrow> bool" where
  "ISADJ h c1 c2 \<longleftrightarrow> wrap32 (C2P c1 + cell_size h c1) = c2"

text \<open>
  \<open>suba_addr\<close> checks an offset; \<open>suba_ref\<close> checks the offset of a pointer and returns 0 for one
  outside the area.
\<close>

definition suba_addr :: "allocator \<Rightarrow> nat \<Rightarrow> nat option" where
  "suba_addr s r = (if 0 < r \<and> r \<le> area_size s then Some r else None)"

definition suba_ref :: "allocator \<Rightarrow> nat option \<Rightarrow> nat" where
  "suba_ref s p = (case p of
     None \<Rightarrow> 0
   | Some r \<Rightarrow> if 0 < r \<and> r \<le> area_size s then r else 0)"

section \<open>Operations\<close>

text \<open>
  \<open>suba_init\<close>: the area to use (\<open>None\<close> for a null pointer) is either adopted as it is or
  reset to one free cell.
\<close>

definition suba_init :: "allocator option \<Rightarrow> nat \<Rightarrow> bool \<Rightarrow> nat \<Rightarrow> allocator option" where
  "suba_init mem sz rst minc = (case mem of
     None \<Rightarrow> None
   | Some s \<Rightarrow>
       if sz \<le> hdrsiz + POFF \<or> (\<not> rst \<and> SUBA_MAGIC \<noteq> magic s) then None
       else if \<not> rst then Some s
       else
         let s = s\<lparr>magic := SUBA_MAGIC, tail := hdrsiz, mincell := ALIGN 4, area_size := sz,
               allocated_count := 0, allocated_size := 0, allocated_peak := 0,
               max_free := sz\<rparr>;
             s = (if mincell s < minc then s\<lparr>mincell := ALIGN minc\<rparr> else s)
         in Some (set_next hdrsiz (tail s) (set_size hdrsiz (sz - (hdrsiz + POFF)) s)))"

text \<open>
  The search of \<open>suba_alloc\<close> through the ring of free cells. \<open>Some (c1, c2)\<close>: \<open>c2\<close>, the cell
  after \<open>c1\<close>, is the first that is large enough; \<open>None\<close>: the ring has no such cell or a link
  leaves the area, and \<open>suba_alloc\<close> returns \<open>NULL\<close>.
\<close>

partial_function (option) find_cell :: "allocator \<Rightarrow> nat \<Rightarrow> nat \<Rightarrow> (nat \<times> nat) option option" where
  "find_cell s sz c1 = (case suba_addr s (cell_next (heap s) c1) of
     None \<Rightarrow> Some None
   | Some c2 \<Rightarrow>
       if sz \<le> cell_size (heap s) c2 then Some (Some (c1, c2))
       else if cell_next (heap s) c1 = tail s then Some None
       else find_cell s sz c2)"

declare find_cell.simps [code]

definition round_size :: "allocator \<Rightarrow> nat \<Rightarrow> nat" where
  "round_size s sz = (if sz < mincell s then mincell s else ALIGN sz)"

definition count_alloc :: "nat \<Rightarrow> allocator \<Rightarrow> allocator" where
  "count_alloc c2 s =
     (let s = s\<lparr>allocated_size := wrap32 (allocated_size s + (POFF + cell_size (heap s) c2)),
            allocated_count := wrap32 (allocated_count s + 1)\<rparr>
      in if allocated_peak s < allocated_size s then s\<lparr>allocated_peak := allocated_size s\<rparr> else s)"

definition memset0 :: "nat \<Rightarrow> nat \<Rightarrow> (nat \<Rightarrow> nat) \<Rightarrow> (nat \<Rightarrow> nat)" where
  "memset0 p n h = (\<lambda>a. if p \<le> a \<and> a < p + n then 0 else h a)"

text \<open>
  Cutting the new cell out of \<open>c2\<close>, or taking \<open>c2\<close> whole; \<open>None\<close> where the last cell of the
  ring would be used up.
\<close>

definition take_cell :: "nat \<Rightarrow> nat \<Rightarrow> nat \<Rightarrow> allocator \<Rightarrow> allocator option" where
  "take_cell sz c1 c2 s =
     (if wrap32 (POFF + sz + mincell s) < cell_size (heap s) c2 then
        let c3 = wrap32 (C2P c2 + sz);
            s = set_size c3 (minus32 (cell_size (heap s) c2) (sz + POFF)) s;
            (c1, s) = (if c1 = c2 then (c3, s) else (c1, set_next c3 (cell_next (heap s) c2) s));
            s = set_next c1 c3 s;
            s = set_size c2 sz s
        in Some (if c2 = tail s then s\<lparr>tail := c3\<rparr> else s)
      else if cell_next (heap s) c1 = tail s then None
      else Some (set_next c1 (cell_next (heap s) c2) s))"

definition suba_alloc :: "allocator \<Rightarrow> nat \<Rightarrow> bool \<Rightarrow> (allocator \<times> nat option) option" where
  "suba_alloc s sz zero =
     (let n = round_size s sz in
      case find_cell s n (tail s) of
        None \<Rightarrow> None
      | Some None \<Rightarrow> Some (s, None)
      | Some (Some (c1, c2)) \<Rightarrow>
          (case take_cell n c1 c2 s of
             None \<Rightarrow> Some (s, None)
           | Some s \<Rightarrow>
               let s = count_alloc c2 s in
               Some (if zero then s\<lparr>heap := memset0 (C2P c2) n (heap s)\<rparr> else s, Some (C2P c2))))"

text \<open>
  The search of \<open>suba_free\<close> for the free cell before \<open>ref\<close>; the inner \<open>None\<close> is its check for
  a damaged link.
\<close>

partial_function (option) insertion_point :: "allocator \<Rightarrow> nat \<Rightarrow> nat \<Rightarrow> nat option option" where
  "insertion_point s ref c1 =
     (if cell_next (heap s) c1 < ref then
        if cell_next (heap s) c1 < POFF then Some None
        else insertion_point s ref (cell_next (heap s) c1)
      else Some (Some c1))"

declare insertion_point.simps [code]

definition append_cell :: "nat \<Rightarrow> nat \<Rightarrow> nat \<Rightarrow> allocator \<Rightarrow> allocator" where
  "append_cell c1 c2 ref s =
     (if ISADJ (heap s) c1 c2
      then set_size c1 (wrap32 (cell_size (heap s) c1 + (POFF + cell_size (heap s) c2))) s
      else (set_next c1 ref (set_next c2 (cell_next (heap s) c1) s))\<lparr>tail := ref\<rparr>)"

definition splice_cell :: "nat \<Rightarrow> nat \<Rightarrow> nat \<Rightarrow> allocator \<Rightarrow> allocator" where
  "splice_cell c1 c2 ref s =
     (let c3 = cell_next (heap s) c1;
          j1 = ISADJ (heap s) c1 c2;
          j2 = ISADJ (heap s) c2 c3
      in if j1 then
           let s = (if j2 then
                      let s = (if c3 = tail s then s\<lparr>tail := c1\<rparr> else s);
                          s = set_next c1 (cell_next (heap s) c3) s
                      in set_size c1 (wrap32 (cell_size (heap s) c1 + (POFF + cell_size (heap s) c3))) s
                    else s)
           in set_size c1 (wrap32 (cell_size (heap s) c1 + (POFF + cell_size (heap s) c2))) s
         else
           let s = (if j2 then
                      let s = (if c3 = tail s then s\<lparr>tail := ref\<rparr> else s);
                          s = set_next c2 (if cell_next (heap s) c3 = c3 then ref
                                           else cell_next (heap s) c3) s
                      in set_size c2 (wrap32 (cell_size (heap s) c2 + (POFF + cell_size (heap s) c3))) s
                    else set_next c2 (cell_next (heap s) c1) s)
           in set_next c1 ref s)"

text \<open>\<open>suba_free\<close> returns \<open>int\<close>: 0, or -1 for a pointer it refuses.\<close>

definition suba_free :: "allocator \<Rightarrow> nat option \<Rightarrow> (allocator \<times> int) option" where
  "suba_free s ptr = (case ptr of
     None \<Rightarrow> Some (s, 0)
   | Some p \<Rightarrow>
       if suba_ref s (Some p) = 0 then Some (s, -1)
       else
         let c1 = tail s; c2 = P2C p; ref = suba_ref s (Some c2) in
         if max_free s < cell_size (heap s) c2 \<or> ref = 0 then Some (s, -1)
         else
           let s = s\<lparr>allocated_size := minus32 (allocated_size s) (POFF + cell_size (heap s) c2),
                     allocated_count := minus32 (allocated_count s) 1\<rparr>
           in if c1 < c2 then Some (append_cell c1 c2 ref s, 0)
              else (case insertion_point s ref c1 of
                      None \<Rightarrow> None
                    | Some None \<Rightarrow> Some (s, -1)
                    | Some (Some c1) \<Rightarrow> Some (splice_cell c1 c2 ref s, 0)))"

text \<open>\<open>suba_getmeminfo\<close>: the largest free cell, the free bytes and the number of free cells.\<close>

record meminfo =
  largest_block :: nat
  free_size :: nat
  free_block_count :: nat

definition count_cell :: "allocator \<Rightarrow> nat \<Rightarrow> meminfo \<Rightarrow> meminfo" where
  "count_cell s c m =
     \<lparr>largest_block = (if largest_block m < cell_size (heap s) c then cell_size (heap s) c
                       else largest_block m),
      free_size = wrap32 (free_size m + cell_size (heap s) c),
      free_block_count = wrap32 (free_block_count m + 1)\<rparr>"

partial_function (option) meminfo_loop :: "allocator \<Rightarrow> nat \<Rightarrow> meminfo \<Rightarrow> meminfo option" where
  "meminfo_loop s c m =
     (if cell_next (heap s) c \<noteq> tail s
      then meminfo_loop s (cell_next (heap s) c) (count_cell s (cell_next (heap s) c) m)
      else Some m)"

declare meminfo_loop.simps [code]

definition suba_getmeminfo :: "allocator \<Rightarrow> (meminfo \<times> nat \<times> nat \<times> nat) option" where
  "suba_getmeminfo s = do {
     m \<leftarrow> meminfo_loop s (tail s)
            (count_cell s (tail s) \<lparr>largest_block = 0, free_size = 0, free_block_count = 0\<rparr>);
     Some (m, allocated_size s, allocated_peak s, allocated_count s)
   }"

end
