(* ===== verification/SubaHeap.thy ===== *)
theory SubaHeap
  imports Suba
begin

text \<open>
  The abstract heap of the sub-allocator, a list of blocks in memory order, how the memory and the
  ring of free cells represent it, and the proof that \<open>suba_alloc\<close> is first fit on it.
\<close>

section \<open>What the allocator promises\<close>

text \<open>
  The abstract heap is the list of the cells in memory order, each free or in use.
  \<open>sp_alloc\<close> is first fit in that order, which never uses up the last cell; \<open>sp_free\<close> frees
  the cell and joins neighbouring free cells.
\<close>

datatype block = is_free: Free (bsize: nat) | Used (bsize: nat)

definition extent :: "block list \<Rightarrow> nat" where
  "extent bs = sum_list (map (\<lambda>b. 8 + bsize b) bs)"

definition used_extent :: "block list \<Rightarrow> nat" where
  "used_extent bs = extent (filter (\<lambda>b. \<not> is_free b) bs)"

fun sp_alloc :: "nat \<Rightarrow> nat \<Rightarrow> nat \<Rightarrow> block list \<Rightarrow> (nat \<times> block list) option" where
  "sp_alloc mc n a [] = None"
| "sp_alloc mc n a (Used m # bs) = map_option (apsnd ((#) (Used m))) (sp_alloc mc n (a + 8 + m) bs)"
| "sp_alloc mc n a (Free m # bs) =
     (if m < n then map_option (apsnd ((#) (Free m))) (sp_alloc mc n (a + 8 + m) bs)
      else if 8 + n + mc < m then Some (a + 8, Used n # Free (m - (n + 8)) # bs)
      else if bs = [] then None
      else Some (a + 8, Used m # bs))"

fun cons_block :: "block \<Rightarrow> block list \<Rightarrow> block list" where
  "cons_block (Free m) (Free k # bs) = Free (m + (8 + k)) # bs"
| "cons_block b bs = b # bs"

primrec coalesce :: "block list \<Rightarrow> block list" where
  "coalesce [] = []"
| "coalesce (b # bs) = cons_block b (coalesce bs)"

fun set_free :: "nat \<Rightarrow> nat \<Rightarrow> block list \<Rightarrow> block list" where
  "set_free r a [] = []"
| "set_free r a (b # bs) =
     (if a = r then Free (bsize b) # bs else b # set_free r (a + 8 + bsize b) bs)"

definition sp_free :: "nat \<Rightarrow> block list \<Rightarrow> block list" where
  "sp_free p bs = coalesce (set_free (p - 8) hdrsiz bs)"

text \<open>Where the cells are, which of them are free, and which objects are handed out.\<close>

fun refs :: "nat \<Rightarrow> block list \<Rightarrow> nat list" where
  "refs a [] = []"
| "refs a (b # bs) = a # refs (a + 8 + bsize b) bs"

fun free_refs :: "nat \<Rightarrow> block list \<Rightarrow> nat list" where
  "free_refs a [] = []"
| "free_refs a (b # bs) =
     (if is_free b then a # free_refs (a + 8 + bsize b) bs else free_refs (a + 8 + bsize b) bs)"

fun objects :: "nat \<Rightarrow> block list \<Rightarrow> (nat \<times> nat) list" where
  "objects a [] = []"
| "objects a (b # bs) =
     (if is_free b then objects (a + 8 + bsize b) bs
      else (a + 8, bsize b) # objects (a + 8 + bsize b) bs)"

text \<open>How the memory represents an abstract heap.\<close>

fun sized :: "(nat \<Rightarrow> nat) \<Rightarrow> nat \<Rightarrow> block list \<Rightarrow> bool" where
  "sized h a [] = True"
| "sized h a (b # bs) = (h a = bsize b \<and> sized h (a + 8 + bsize b) bs)"

fun path :: "(nat \<Rightarrow> nat) \<Rightarrow> nat \<Rightarrow> nat list \<Rightarrow> bool" where
  "path h x [] = True"
| "path h x (r # rs) = (h (x + 8) = r \<and> path h r rs)"

definition ring :: "(nat \<Rightarrow> nat) \<Rightarrow> nat list \<Rightarrow> bool" where
  "ring h rs \<longleftrightarrow> rs \<noteq> [] \<and> path h (last rs) rs"

definition wf_blocks :: "block list \<Rightarrow> bool" where
  "wf_blocks bs \<longleftrightarrow> bs \<noteq> [] \<and> is_free (last bs) \<and> (\<forall>b \<in> set bs. 8 \<le> bsize b) \<and>
     (\<forall>b \<in> set (butlast bs). 8 dvd bsize b) \<and>
     successively (\<lambda>b c. \<not> (is_free b \<and> is_free c)) bs"

definition represents :: "allocator \<Rightarrow> block list \<Rightarrow> bool" where
  "represents s bs \<longleftrightarrow> wf_blocks bs \<and> sized (heap s) hdrsiz bs \<and> ring (heap s) (free_refs hdrsiz bs) \<and>
     tail s = last (free_refs hdrsiz bs) \<and>
     area_size s = hdrsiz + extent bs \<and> max_free s = area_size s \<and>
     8 \<le> mincell s \<and> 8 dvd mincell s \<and> area_size s + mincell s < 2 ^ 32 \<and>
     allocated_count s = length (filter (\<lambda>b. \<not> is_free b) bs) \<and>
     allocated_size s = used_extent bs \<and> allocated_size s \<le> allocated_peak s"

section \<open>Cells in memory\<close>

lemma suba_consts [simp]: "POFF = 8" "hdrsiz = 40"
  by (simp_all add: POFF_def hdrsiz_def ALIGN_def wrap32_def)

lemma wrap32_small [simp]: "x < 2 ^ 32 \<Longrightarrow> wrap32 x = x"
  by (simp add: wrap32_def)

lemma minus32_small [simp]:
  assumes "y \<le> x" "x < 2 ^ 32" shows "minus32 x y = x - y"
proof -
  have "x + 2 ^ 32 - y = (x - y) + 2 ^ 32" using assms(1) by simp
  then have "minus32 x y = ((x - y) + 2 ^ 32) mod 2 ^ 32"
    using assms by (simp add: minus32_def wrap32_def)
  also have "\<dots> = x - y" using assms(2) by (subst mod_add_self2) simp
  finally show ?thesis .
qed

lemma extent_simps [simp]:
  "extent [] = 0" "extent (b # bs) = 8 + bsize b + extent bs"
  "extent (xs @ ys) = extent xs + extent ys"
  by (simp_all add: extent_def)

lemma used_extent_simps [simp]:
  "used_extent [] = 0" "used_extent (Free m # bs) = used_extent bs"
  "used_extent (Used m # bs) = 8 + m + used_extent bs"
  "used_extent (xs @ ys) = used_extent xs + used_extent ys"
  by (simp_all add: used_extent_def)

lemma refs_append [simp]: "refs a (xs @ ys) = refs a xs @ refs (a + extent xs) ys"
  by (induction xs arbitrary: a) (auto simp: add.assoc)

lemma free_refs_append [simp]:
  "free_refs a (xs @ ys) = free_refs a xs @ free_refs (a + extent xs) ys"
  by (induction xs arbitrary: a) (auto simp: add.assoc)

lemma objects_append [simp]:
  "objects a (xs @ ys) = objects a xs @ objects (a + extent xs) ys"
  by (induction xs arbitrary: a) (auto simp: add.assoc)

lemma sized_append [simp]:
  "sized h a (xs @ ys) = (sized h a xs \<and> sized h (a + extent xs) ys)"
  by (induction xs arbitrary: a) (auto simp: add.assoc)

lemma path_append [simp]: "path h x (rs @ ss) = (path h x rs \<and> path h (last (x # rs)) ss)"
  by (induction rs arbitrary: x) auto

lemma path_cong:
  assumes "\<And>r. r \<in> set (butlast (x # rs)) \<Longrightarrow> h' (r + 8) = h (r + 8)"
  shows "path h' x rs = path h x rs"
  using assms by (induction rs arbitrary: x) auto

lemma path_upd:
  "w \<notin> (\<lambda>r. r + 8) ` set (butlast (x # rs)) \<Longrightarrow> path (h(w := v)) x rs = path h x rs"
  by (rule path_cong) auto

lemma sized_cong:
  "(\<And>r. r \<in> set (refs a bs) \<Longrightarrow> h' r = h r) \<Longrightarrow> sized h' a bs = sized h a bs"
  by (induction bs arbitrary: a) auto

lemma sized_upd: "w \<notin> set (refs a bs) \<Longrightarrow> sized (h(w := v)) a bs = sized h a bs"
  by (rule sized_cong) auto

lemma free_refs_subset: "set (free_refs a bs) \<subseteq> set (refs a bs)"
  by (induction bs arbitrary: a) auto

lemma refs_ge: "r \<in> set (refs a bs) \<Longrightarrow> a \<le> r"
  by (induction bs arbitrary: a) fastforce+

lemma sized_end:
  "r \<in> set (refs a bs) \<Longrightarrow> sized h a bs \<Longrightarrow> r + 8 + h r \<le> a + extent bs"
  by (induction bs arbitrary: a) (fastforce dest: refs_ge)+

lemma refs_less: "r \<in> set (refs a bs) \<Longrightarrow> r + 8 \<le> a + extent bs"
  by (induction bs arbitrary: a) fastforce+

lemma free_refs_sorted: "sorted_wrt (<) (free_refs a bs)"
proof (induction bs arbitrary: a)
  case (Cons b bs)
  moreover have "r \<in> set (free_refs (a + 8 + bsize b) bs) \<Longrightarrow> a < r" for r
    using free_refs_subset [of "a + 8 + bsize b" bs] by (auto dest!: refs_ge subsetD)
  ultimately show ?case by auto
qed simp

lemma link_not_ref:
  "\<forall>b \<in> set bs. 8 \<le> bsize b \<Longrightarrow> r \<in> set (refs a bs) \<Longrightarrow> r + 8 \<notin> set (refs a bs)"
proof (induction bs arbitrary: a)
  case (Cons b bs)
  show ?case
  proof (cases "r = a")
    case True
    moreover have "a + 8 \<notin> set (refs (a + 8 + bsize b) bs)"
      using Cons.prems(1) by (auto dest: refs_ge)
    ultimately show ?thesis by simp
  next
    case False
    then have r: "r \<in> set (refs (a + 8 + bsize b) bs)" using Cons.prems by simp
    then have "r + 8 \<noteq> a" by (auto dest: refs_ge)
    with Cons.IH [OF _ r] Cons.prems(1) show ?thesis by auto
  qed
qed simp

section \<open>The ring of free cells\<close>

text \<open>Replacing a cell of the ring, taking one out and putting one in, the way the code does it.\<close>

lemma ring_split:
  "ring h (pre @ c # post) \<longleftrightarrow>
     (let t = last (c # post) in path h t pre \<and> h (last (t # pre) + 8) = c \<and> path h c post)"
  by (simp add: ring_def Let_def)

lemma path_same:
  assumes "path h x rs" "\<And>r. r \<in> set (butlast (x # rs)) \<Longrightarrow> h' (r + 8) = h (r + 8)"
  shows "path h' x rs"
  using assms path_cong [of x rs h' h] by simp

lemma last_notin_butlast: "distinct xs \<Longrightarrow> xs \<noteq> [] \<Longrightarrow> last xs \<notin> set (butlast xs)"
  by (induction xs rule: rev_induct) auto

lemma predecessor_in_tail:
  assumes "distinct (pre @ q # qs)" and c: "c = last (last (q # qs) # pre)"
  shows "c = last (q # qs) \<or> c \<notin> set (q # qs)"
proof (cases "pre = []")
  case False
  then have "c \<in> set pre" using c by simp
  then show ?thesis using assms(1) by auto
qed (use c in simp)

lemma path_frame:
  assumes "path h x rs" "distinct (x # rs)" "c = last (x # rs) \<or> c \<notin> set (x # rs)"
    and "\<And>r. r \<in> set (x # rs) \<Longrightarrow> r \<noteq> c \<Longrightarrow> h' (r + 8) = h (r + 8)"
  shows "path h' x rs"
proof (rule path_same [OF assms(1)])
  fix r assume r: "r \<in> set (butlast (x # rs))"
  then have m: "r \<in> set (x # rs)" by (rule in_set_butlastD)
  have "last (x # rs) \<notin> set (butlast (x # rs))" using assms(2) by (intro last_notin_butlast) auto
  then have "r \<noteq> c" using r m assms(3) by metis
  with m show "h' (r + 8) = h (r + 8)" by (rule assms(4))
qed

lemma ring_cong:
  assumes "\<And>q. q \<in> set rs \<Longrightarrow> h' (q + 8) = h (q + 8)"
  shows "ring h' rs = ring h rs"
proof (cases "rs = []")
  case False
  have "path h' (last rs) rs = path h (last rs) rs"
  proof (rule path_cong)
    fix q assume "q \<in> set (butlast (last rs # rs))"
    then have "q \<in> set rs" using in_set_butlastD [of q "last rs # rs"] False by auto
    then show "h' (q + 8) = h (q + 8)" by (rule assms)
  qed
  then show ?thesis by (simp add: ring_def)
qed (simp add: ring_def)

lemma ring_replace:
  assumes "ring h (pre @ c2 # post)" and d: "distinct (pre @ c2 # post)"
    and c1: "c1 = last (last (c2 # post) # pre)" and c3: "c3 \<notin> set pre \<union> set post"
    and h3: "h' (c3 + 8) = (if c1 = c2 then c3 else h (c2 + 8))"
    and h1: "c1 \<noteq> c2 \<Longrightarrow> h' (c1 + 8) = c3"
    and same: "\<And>r. r \<in> set pre \<union> set post \<Longrightarrow> r \<noteq> c1 \<Longrightarrow> h' (r + 8) = h (r + 8)"
  shows "ring h' (pre @ c3 # post)"
proof -
  have p: "path h (last (c2 # post)) pre" "path h c2 post"
    using assms(1) by (simp_all add: ring_split Let_def)
  show ?thesis
  proof (cases post rule: list.exhaust)
    case Nil
    show ?thesis
    proof (cases pre)
      case Nil': Nil
      then show ?thesis using Nil h3 c1 by (simp add: ring_def)
    next
      case (Cons q qs)
      have c: "c1 = last pre" "c1 \<in> set pre" using c1 Cons by simp_all
      then have "c1 \<noteq> c2" using d by auto
      have "path h' q qs"
      proof (rule path_frame [of h q qs c1])
        show "path h q qs" "distinct (q # qs)" using p(1) d Cons by simp_all
        show "c1 = last (q # qs) \<or> c1 \<notin> set (q # qs)" using c Cons by simp
        show "h' (r + 8) = h (r + 8)" if "r \<in> set (q # qs)" "r \<noteq> c1" for r
          by (rule same) (use that Cons in auto)
      qed
      moreover have "h (c2 + 8) = q" using p(1) Cons Nil by simp
      ultimately show ?thesis
        using Nil Cons c h3 h1 \<open>c1 \<noteq> c2\<close> by (simp add: ring_def)
    qed
  next
    case (Cons q qs)
    have t: "last (c2 # post) = last post" "last post \<in> set post" using Cons by simp_all
    have "c1 \<in> set pre \<union> set post" using c1 t by (cases "pre = []") auto
    then have n: "c1 \<noteq> c2" "c1 = last (q # qs) \<or> c1 \<notin> set (q # qs)"
      using d c1 Cons predecessor_in_tail [of pre q qs c1] by auto
    have "path h' (last post) pre"
    proof (rule path_frame [of h _ _ c1])
      show "h' (r + 8) = h (r + 8)" if "r \<in> set (last post # pre)" "r \<noteq> c1" for r
        by (rule same) (use that t in auto)
    qed (use p(1) d c1 t in auto)
    moreover have "path h' q qs"
    proof (rule path_frame [of h _ _ c1])
      show "h' (r + 8) = h (r + 8)" if "r \<in> set (q # qs)" "r \<noteq> c1" for r
        by (rule same) (use that Cons in auto)
    qed (use p(2) d Cons n in auto)
    ultimately show ?thesis
      using Cons t c1 h3 h1 n(1) p(2) by (auto simp: ring_split Let_def)
  qed
qed

lemma ring_remove:
  assumes "ring h (pre @ c2 # post)" and d: "distinct (pre @ c2 # post)" and "post \<noteq> []"
    and c1: "c1 = last (last post # pre)"
    and h1: "h' (c1 + 8) = h (c2 + 8)"
    and same: "\<And>r. r \<in> set pre \<union> set post \<Longrightarrow> r \<noteq> c1 \<Longrightarrow> h' (r + 8) = h (r + 8)"
  shows "ring h' (pre @ post)"
proof -
  obtain q qs where q: "post = q # qs" using assms(3) by (cases post) auto
  have p: "path h (last post) pre" "path h c2 post" "last post \<in> set post"
    using assms(1,3) by (simp_all add: ring_split Let_def)
  have n: "c1 = last (q # qs) \<or> c1 \<notin> set (q # qs)"
    using c1 d q by (intro predecessor_in_tail [of pre]) auto
  have "path h' (last post) pre"
  proof (rule path_frame [OF p(1)])
    show "h' (r + 8) = h (r + 8)" if "r \<in> set (last post # pre)" "r \<noteq> c1" for r
      by (rule same) (use that p(3) in auto)
  qed (use d p(3) c1 in auto)
  moreover have "path h' q qs"
  proof (rule path_frame [of h _ _ c1])
    show "h' (r + 8) = h (r + 8)" if "r \<in> set (q # qs)" "r \<noteq> c1" for r
      by (rule same) (use that q in auto)
  qed (use p(2) d q n in auto)
  moreover have "h' (c1 + 8) = q" using h1 p(2) q by simp
  ultimately show ?thesis using q c1 by (simp add: ring_split Let_def)
qed

lemma ring_insert:
  assumes "ring h (pre @ post)" and d: "distinct (pre @ c2 # post)" and "post \<noteq> []"
    and c1: "c1 = last (last post # pre)"
    and h1: "h' (c1 + 8) = c2" and h2: "h' (c2 + 8) = hd post"
    and same: "\<And>r. r \<in> set pre \<union> set post \<Longrightarrow> r \<noteq> c1 \<Longrightarrow> h' (r + 8) = h (r + 8)"
  shows "ring h' (pre @ c2 # post)"
proof -
  obtain q qs where q: "post = q # qs" using assms(3) by (cases post) auto
  have p: "path h (last post) pre" "path h q qs" "last post \<in> set post"
    using assms(1) q by (simp_all add: ring_split Let_def)
  have n: "c1 = last (q # qs) \<or> c1 \<notin> set (q # qs)"
    using c1 d q by (intro predecessor_in_tail [of pre]) auto
  have "path h' (last post) pre"
  proof (rule path_frame [OF p(1)])
    show "h' (r + 8) = h (r + 8)" if "r \<in> set (last post # pre)" "r \<noteq> c1" for r
      by (rule same) (use that p(3) in auto)
  qed (use d p(3) c1 in auto)
  moreover have "path h' q qs"
  proof (rule path_frame [of h _ _ c1])
    show "h' (r + 8) = h (r + 8)" if "r \<in> set (q # qs)" "r \<noteq> c1" for r
      by (rule same) (use that q in auto)
  qed (use p(2) d q n in auto)
  ultimately show ?thesis using q c1 h1 h2 by (simp add: ring_split Let_def)
qed

lemma ring_next:
  assumes "ring h (pre @ post)" "post \<noteq> []"
  shows "h (last (last post # pre) + 8) = hd post"
  using assms by (cases post) (auto simp: ring_split Let_def)

section \<open>Allocation\<close>

text \<open>The two loops walk over a prefix of the ring.\<close>

lemma find_cell_walk:
  assumes "path (heap s) c1 pre" "\<forall>r \<in> set pre. 0 < r \<and> r \<le> area_size s \<and> heap s r < n \<and> r \<noteq> tail s"
  shows "find_cell s n c1 = find_cell s n (last (c1 # pre))"
  using assms
proof (induction pre arbitrary: c1)
  case (Cons r rs)
  then have "find_cell s n c1 = find_cell s n r"
    by (subst find_cell.simps) (simp add: suba_addr_def cell_next_def cell_size_def)
  with Cons show ?case by simp
qed simp

lemma insertion_walk:
  assumes "path (heap s) c1 pre" "\<forall>r \<in> set pre. 8 \<le> r \<and> r < ref"
  shows "insertion_point s ref c1 = insertion_point s ref (last (c1 # pre))"
  using assms
proof (induction pre arbitrary: c1)
  case (Cons r rs)
  then have "insertion_point s ref c1 = insertion_point s ref r"
    by (subst insertion_point.simps) (simp add: cell_next_def)
  with Cons show ?case by simp
qed simp

text \<open>Where first fit finds its cell.\<close>

lemma sp_alloc_found:
  assumes "\<forall>b \<in> set xs. is_free b \<longrightarrow> bsize b < n" "n \<le> m"
  shows "sp_alloc mc n a (xs @ Free m # ys) =
     (if 8 + n + mc < m then Some (a + extent xs + 8, xs @ Used n # Free (m - (n + 8)) # ys)
      else if ys = [] then None
      else Some (a + extent xs + 8, xs @ Used m # ys))"
  using assms
proof (induction xs arbitrary: a)
  case (Cons b bs)
  then show ?case by (cases b) (auto simp: add.assoc)
qed simp

lemma sp_alloc_none:
  "\<forall>b \<in> set bs. is_free b \<longrightarrow> bsize b < n \<Longrightarrow> sp_alloc mc n a bs = None"
proof (induction bs arbitrary: a)
  case (Cons b bs)
  then show ?case by (cases b) auto
qed simp

lemma first_fit_cases:
  obtains (none) "\<forall>b \<in> set bs. is_free b \<longrightarrow> bsize b < n"
  | (some) xs m ys where "bs = xs @ Free m # ys" "\<forall>b \<in> set xs. is_free b \<longrightarrow> bsize b < n" "n \<le> m"
proof (cases "\<exists>b \<in> set bs. is_free b \<and> n \<le> bsize b")
  case True
  then obtain xs b ys where "bs = xs @ b # ys" "is_free b \<and> n \<le> bsize b"
      "\<forall>x \<in> set xs. \<not> (is_free x \<and> n \<le> bsize x)"
    using split_list_first_prop [OF True] by blast
  then show ?thesis by (intro some [of xs "bsize b" ys]) (auto simp: not_le)
qed (use none in \<open>auto simp: not_le\<close>)

lemma free_refs_size:
  "r \<in> set (free_refs a bs) \<Longrightarrow> sized h a bs \<Longrightarrow> \<exists>b \<in> set bs. is_free b \<and> h r = bsize b"
  by (induction bs arbitrary: a) (auto split: if_splits)

lemma free_refs_nonempty: "bs \<noteq> [] \<Longrightarrow> is_free (last bs) \<Longrightarrow> free_refs a bs \<noteq> []"
  by (cases bs rule: rev_cases) auto

lemma free_refs_range:
  assumes "represents s bs" "r \<in> set (free_refs 40 bs)"
  shows "40 \<le> r" "r + 8 + heap s r \<le> area_size s"
proof -
  have "r \<in> set (refs 40 bs)" using assms(2) free_refs_subset by blast
  then show "40 \<le> r" "r + 8 + heap s r \<le> area_size s"
    using assms(1) sized_end [of r 40 bs "heap s"] by (auto simp: represents_def dest: refs_ge)
qed

lemma find_cell_here:
  "heap s (c1 + 8) = c \<Longrightarrow> 0 < c \<Longrightarrow> c \<le> area_size s \<Longrightarrow> n \<le> heap s c \<Longrightarrow>
    find_cell s n c1 = Some (Some (c1, c))"
  by (subst find_cell.simps) (simp add: suba_addr_def cell_next_def cell_size_def)

lemma find_cell_end:
  "heap s (c1 + 8) = tail s \<Longrightarrow> 0 < tail s \<Longrightarrow> tail s \<le> area_size s \<Longrightarrow> heap s (tail s) < n \<Longrightarrow>
    find_cell s n c1 = Some None"
  by (subst find_cell.simps) (simp add: suba_addr_def cell_next_def cell_size_def)

lemma represents_distinct: "distinct (free_refs a bs)"
  using free_refs_sorted [of a bs] by (simp add: strict_sorted_iff)

text \<open>The search, in a heap that \<open>bs\<close> describes.\<close>

lemma find_cell_none:
  assumes r: "represents s bs" and "\<forall>b \<in> set bs. is_free b \<longrightarrow> bsize b < n"
  shows "find_cell s n (tail s) = Some None"
proof -
  let ?rs = "free_refs 40 bs"
  have ne: "?rs \<noteq> []" using r by (intro free_refs_nonempty) (auto simp: represents_def wf_blocks_def)
  then have split: "?rs = butlast ?rs @ [tail s]" using r by (simp add: represents_def)
  have lt: "heap s r < n" if "r \<in> set ?rs" for r
    using free_refs_size [OF that, of "heap s"] assms by (auto simp: represents_def)
  have rg: "0 < r \<and> r \<le> area_size s" if "r \<in> set ?rs" for r
    using free_refs_range [OF r that] by simp
  have p: "path (heap s) (tail s) (butlast ?rs @ [tail s])"
    using r split by (simp add: represents_def ring_def)
  have "tail s \<notin> set (butlast ?rs)"
    using last_notin_butlast [OF represents_distinct ne] r by (simp add: represents_def)
  then have "find_cell s n (tail s) = find_cell s n (last (tail s # butlast ?rs))"
    using p lt rg by (intro find_cell_walk) (auto dest: in_set_butlastD)
  also have "\<dots> = Some None"
  proof (rule find_cell_end)
    have t: "tail s \<in> set ?rs" using ne r by (simp add: represents_def)
    show "heap s (last (tail s # butlast ?rs) + 8) = tail s" using p by simp
    show "0 < tail s" "tail s \<le> area_size s" "heap s (tail s) < n" using rg [OF t] lt [OF t] by simp_all
  qed
  finally show ?thesis .
qed

lemma find_cell_some:
  assumes r: "represents s bs" and bs: "bs = xs @ Free m # ys"
    and "\<forall>b \<in> set xs. is_free b \<longrightarrow> bsize b < n" "n \<le> m"
  shows "find_cell s n (tail s) = Some (Some (last (tail s # free_refs 40 xs), 40 + extent xs))"
proof -
  let ?pre = "free_refs 40 xs" and ?c = "40 + extent xs"
  have rs: "free_refs 40 bs = ?pre @ ?c # free_refs (?c + 8 + m) ys"
    using bs by (simp add: add.assoc)
  have p: "path (heap s) (tail s) ?pre" "heap s (last (tail s # ?pre) + 8) = ?c"
    using r rs by (auto simp: represents_def ring_split Let_def)
  have lt: "heap s r < n" if "r \<in> set ?pre" for r
    using free_refs_size [OF that, of "heap s"] r bs assms(3) by (auto simp: represents_def)
  have rg: "0 < r \<and> r \<le> area_size s" if "r \<in> set (free_refs 40 bs)" for r
    using free_refs_range [OF r that] by simp
  have t: "tail s = last (?c # free_refs (?c + 8 + m) ys)"
    using r rs by (simp add: represents_def)
  then have "tail s \<in> set (?c # free_refs (?c + 8 + m) ys)" by (metis last_in_set list.discI)
  then have "tail s \<notin> set ?pre" using represents_distinct [of 40 bs] rs by auto
  then have "find_cell s n (tail s) = find_cell s n (last (tail s # ?pre))"
    using p(1) lt rg rs by (intro find_cell_walk) auto
  also have "\<dots> = Some (Some (last (tail s # ?pre), ?c))"
  proof (rule find_cell_here [OF p(2)])
    show "0 < ?c" "?c \<le> area_size s" using rg [of ?c] rs by simp_all
    show "n \<le> heap s ?c" using r bs assms(4) by (simp add: represents_def)
  qed
  finally show ?thesis .
qed

text \<open>
  A representation without the counters, what cutting a cell needs to know of the positions,
  and the two ways a cell is taken.
\<close>

definition shape :: "allocator \<Rightarrow> block list \<Rightarrow> bool" where
  "shape s bs \<longleftrightarrow> wf_blocks bs \<and> sized (heap s) 40 bs \<and> ring (heap s) (free_refs 40 bs) \<and>
     tail s = last (free_refs 40 bs) \<and> area_size s = 40 + extent bs \<and> max_free s = area_size s \<and>
     8 \<le> mincell s \<and> 8 dvd mincell s \<and> area_size s + mincell s < 2 ^ 32"

lemma represents_shape:
  "represents s bs \<longleftrightarrow> shape s bs \<and> allocated_count s = length (filter (\<lambda>b. \<not> is_free b) bs) \<and>
     allocated_size s = used_extent bs \<and> allocated_size s \<le> allocated_peak s"
  by (auto simp: represents_def shape_def)

lemma refs_less16:
  "r \<in> set (refs a bs) \<Longrightarrow> \<forall>b \<in> set bs. 8 \<le> bsize b \<Longrightarrow> r + 16 \<le> a + extent bs"
  by (induction bs arbitrary: a) fastforce+

lemma wf_blocks_split:
  assumes "wf_blocks (xs @ Free m # ys)" "8 \<le> n" "8 dvd n" "8 + n + 8 \<le> m"
  shows "wf_blocks (xs @ Used n # Free (m - (n + 8)) # ys)"
proof -
  have "8 dvd m - (n + 8)" if "8 dvd m" using that assms(3) by (simp add: dvd_diff_nat)
  with assms show ?thesis
    by (auto simp: wf_blocks_def butlast_append successively_append_iff successively_Cons split: if_splits)
qed

lemma wf_blocks_whole:
  assumes "wf_blocks (xs @ Free m # ys)" "ys \<noteq> []"
  shows "wf_blocks (xs @ Used m # ys)"
  using assms
  by (auto simp: wf_blocks_def butlast_append successively_append_iff successively_Cons split: if_splits)

lemma predecessor_cases:
  assumes "c1 = last (last (c # free_refs b ys) # free_refs a xs)"
  obtains "c1 \<in> set (free_refs a xs)" | "c1 = c" "free_refs a xs = []" "free_refs b ys = []"
  | "c1 \<in> set (free_refs b ys)"
  using assms by (metis last_ConsL last_ConsR last_in_set)

lemma take_cell_cut:
  assumes r: "shape s (xs @ Free m # ys)" and n: "8 \<le> n" "8 dvd n" "8 + n + mincell s < m"
    and c1: "c1 = last (tail s # free_refs 40 xs)" and c: "c = 40 + extent xs"
  obtains s' where "take_cell n c1 c s = Some s'"
    "shape s' (xs @ Used n # Free (m - (n + 8)) # ys)" "heap s' c = n"
    "s' = s\<lparr>heap := heap s', tail := tail s'\<rparr>"
    "\<And>a. a \<notin> {c, c + 8 + n, c + 8 + n + 8} \<union> (\<lambda>r. r + 8) ` set (free_refs 40 (xs @ Free m # ys))
       \<Longrightarrow> heap s' a = heap s a"
proof -
  let ?bs = "xs @ Free m # ys" and ?h = "heap s" and ?c3 = "c + 8 + n"
  let ?pre = "free_refs 40 xs" and ?post = "free_refs (c + 8 + m) ys"
  have rs: "free_refs 40 ?bs = ?pre @ c # ?post" by (simp add: c add.assoc)
  have big: "\<forall>b \<in> set xs. 8 \<le> bsize b" "\<forall>b \<in> set ys. 8 \<le> bsize b"
    and area: "area_size s = c + 8 + m + extent ys" "area_size s + mincell s < 2 ^ 32" "8 \<le> mincell s"
    and hc: "?h c = m" and t: "tail s = last (c # ?post)"
    using r c by (auto simp: shape_def wf_blocks_def)
  have wr: "wrap32 (8 + n + mincell s) = 8 + n + mincell s" "C2P c = c + 8"
      "wrap32 (c + 8 + n) = ?c3" "minus32 m (n + 8) = m - (n + 8)"
    using area n by (simp_all add: C2P_def)
  have inx: "40 \<le> r \<and> r + 16 \<le> c" if "r \<in> set (refs 40 xs)" for r
    using refs_less16 [OF that big(1)] refs_ge [OF that] c by simp
  have iny: "c + 8 + m \<le> r" if "r \<in> set (refs (c + 8 + m) ys)" for r
    using refs_ge [OF that] .
  have prex: "set ?pre \<subseteq> set (refs 40 xs)" and posty: "set ?post \<subseteq> set (refs (c + 8 + m) ys)"
    by (rule free_refs_subset)+
  have d: "distinct (?pre @ c # ?post)" using represents_distinct [of 40 ?bs] rs by simp
  have c1': "c1 = last (last (c # ?post) # ?pre)" using c1 t by simp
  then have c1in: "c1 \<in> set (?pre @ c # ?post)" by (cases rule: predecessor_cases) auto
  define h' where "h' = (let hA = ?h(?c3 := m - (n + 8));
       hB = (if c1 = c then hA else hA(?c3 + 8 := ?h (c + 8)))
     in hB((if c1 = c then ?c3 else c1) + 8 := ?c3, c := n))"
  let ?s' = "s\<lparr>heap := h', tail := if c = tail s then ?c3 else tail s\<rparr>"
  have refs: "r \<in> set (refs 40 ?bs)" if "r \<in> set (?pre @ c # ?post)" for r
    using that prex posty by (auto simp: c add.assoc)
  have link: "r + 8 \<notin> set (refs 40 ?bs)" if "r \<in> set (?pre @ c # ?post)" for r
    using link_not_ref [OF _ refs [OF that]] r by (auto simp: shape_def wf_blocks_def)
  have c1x: "c1 + 8 < c \<or> c1 = c \<or> c + 8 + m \<le> c1"
    using c1in inx [of c1] iny [of c1] prex posty by auto
  have h'_same: "h' a = ?h a" if "a \<noteq> c" "a \<noteq> ?c3" "a \<noteq> ?c3 + 8" "a \<noteq> c1 + 8 \<or> c1 = c" for a
    using that by (cases "c1 = c") (simp_all add: h'_def)
  have h'_c: "h' c = n" and h'_c3: "h' ?c3 = m - (n + 8)"
    and h'_n3: "h' (?c3 + 8) = (if c1 = c then ?c3 else ?h (c + 8))"
    and h'_n1: "c1 \<noteq> c \<Longrightarrow> h' (c1 + 8) = ?c3"
    using n area c1x by (auto simp: h'_def Let_def)
  have take: "take_cell n c1 c s = Some ?s'"
    using n hc wr by (auto simp: take_cell_def h'_def set_size_def set_next_def cell_size_def cell_next_def Let_def)
  have szx: "sized h' 40 xs"
  proof -
    have "h' r = ?h r" if x: "r \<in> set (refs 40 xs)" for r
    proof (rule h'_same)
      have "r \<in> set (refs 40 ?bs)" using x by simp
      then show "r \<noteq> c1 + 8 \<or> c1 = c" using link [OF c1in] by metis
    qed (use inx [OF x] in simp_all)
    then have "sized h' 40 xs = sized ?h 40 xs" by (rule sized_cong)
    then show ?thesis using r by (simp add: shape_def)
  qed
  have szy: "sized h' (c + 8 + m) ys"
  proof -
    have "h' r = ?h r" if y: "r \<in> set (refs (c + 8 + m) ys)" for r
    proof (rule h'_same)
      have "r \<in> set (refs 40 ?bs)" using y by (simp add: c add.assoc)
      then show "r \<noteq> c1 + 8 \<or> c1 = c" using link [OF c1in] by metis
    qed (use iny [OF y] n area in simp_all)
    then have "sized h' (c + 8 + m) ys = sized ?h (c + 8 + m) ys" by (rule sized_cong)
    then show ?thesis using r by (simp add: shape_def c add.assoc)
  qed
  have "ring h' (?pre @ ?c3 # ?post)"
  proof (rule ring_replace [OF _ d c1'])
    show "ring ?h (?pre @ c # ?post)" using r rs by (simp add: shape_def)
    show "?c3 \<notin> set ?pre \<union> set ?post" using inx [of ?c3] iny [of ?c3] prex posty n by auto
    show "h' (r + 8) = ?h (r + 8)" if x: "r \<in> set ?pre \<union> set ?post" "r \<noteq> c1" for r
    proof (rule h'_same)
      have "r + 16 \<le> c \<or> c + 8 + m \<le> r" using inx [of r] iny [of r] prex posty x(1) by blast
      then show "r + 8 \<noteq> c" "r + 8 \<noteq> ?c3" "r + 8 \<noteq> ?c3 + 8" using n area by linarith+
    qed (use x in simp)
  qed (use h'_n3 h'_n1 in auto)
  moreover have "c + 8 + m = ?c3 + 8 + (m - (n + 8))" using n by simp
  moreover have "(if c = tail s then ?c3 else tail s) = last (?c3 # ?post)"
  proof (cases "?post = []")
    case False
    then have "c < last ?post" using iny [of "last ?post"] posty last_in_set [of ?post] by force
    with False show ?thesis using t by simp
  qed (use t in simp)
  ultimately have "shape ?s' (xs @ Used n # Free (m - (n + 8)) # ys)"
    using r szx szy h'_c h'_c3 n c wf_blocks_split [of xs m ys n]
    by (auto simp: shape_def add.assoc)
  moreover have "h' a = ?h a"
    if "a \<notin> {c, ?c3, ?c3 + 8} \<union> (\<lambda>r. r + 8) ` set (free_refs 40 ?bs)" for a
    using that c1in rs by (intro h'_same) auto
  ultimately show thesis using h'_c take by (intro that [of ?s']) auto
qed

lemma take_cell_all:
  assumes r: "shape s (xs @ Free m # ys)" and n: "n \<le> m" "\<not> 8 + n + mincell s < m"
    and c1: "c1 = last (tail s # free_refs 40 xs)" and c: "c = 40 + extent xs"
    and ys: "ys \<noteq> []"
  obtains s' where "take_cell n c1 c s = Some s'"
    "shape s' (xs @ Used m # ys)" "heap s' c = m" "s' = s\<lparr>heap := heap s'\<rparr>"
    "\<And>a. a \<notin> (\<lambda>r. r + 8) ` set (free_refs 40 (xs @ Free m # ys)) \<Longrightarrow> heap s' a = heap s a"
proof -
  let ?bs = "xs @ Free m # ys" and ?h = "heap s"
  let ?pre = "free_refs 40 xs" and ?post = "free_refs (c + 8 + m) ys"
  have rs: "free_refs 40 ?bs = ?pre @ c # ?post" by (simp add: c add.assoc)
  have area: "area_size s = c + 8 + m + extent ys" "area_size s + mincell s < 2 ^ 32"
    and hc: "?h c = m" and t: "tail s = last (c # ?post)" and rg: "ring ?h (?pre @ c # ?post)"
    using r c rs by (auto simp: shape_def wf_blocks_def)
  have post: "?post \<noteq> []"
    using r ys by (intro free_refs_nonempty) (auto simp: shape_def wf_blocks_def split: if_splits)
  have d: "distinct (?pre @ c # ?post)" using represents_distinct [of 40 ?bs] rs by simp
  have c1': "c1 = last (last ?post # ?pre)" "c1 = last (last (c # ?post) # ?pre)"
    using c1 t post by simp_all
  from c1'(2) have c1in: "c1 \<in> set (?pre @ c # ?post)" by (cases rule: predecessor_cases) auto
  define h' where "h' = ?h(c1 + 8 := ?h (c + 8))"
  have "?h (c1 + 8) = c" using ring_next [OF rg] c1' by simp
  moreover have "c \<noteq> tail s" using t post d by (auto dest: last_in_set)
  ultimately have take: "take_cell n c1 c s = Some (s\<lparr>heap := h'\<rparr>)"
    using n area hc
    by (simp add: take_cell_def h'_def set_size_def set_next_def cell_size_def cell_next_def)
  have "c1 \<in> set (refs 40 ?bs)"
    using c1in rs free_refs_subset [of 40 ?bs] by auto
  moreover have "\<forall>b \<in> set ?bs. 8 \<le> bsize b" using r by (simp add: shape_def wf_blocks_def)
  ultimately have link: "c1 + 8 \<notin> set (refs 40 ?bs)" by (intro link_not_ref)
  have "sized ?h 40 ?bs" using r unfolding shape_def by blast
  then have "sized h' 40 ?bs" unfolding h'_def by (subst sized_upd [OF link])
  moreover have "ring h' (?pre @ ?post)"
    by (rule ring_remove [OF rg d post c1'(1)]) (auto simp: h'_def)
  ultimately have "shape (s\<lparr>heap := h'\<rparr>) (xs @ Used m # ys)"
    using r c t post wf_blocks_whole [of xs m ys] ys by (auto simp: shape_def add.assoc)
  moreover have "h' c = m" using hc link c by (auto simp: h'_def)
  moreover have "h' a = ?h a" if "a \<notin> (\<lambda>r. r + 8) ` set (free_refs 40 ?bs)" for a
    using that c1in rs by (auto simp: h'_def)
  ultimately show thesis using take by (intro that [of "s\<lparr>heap := h'\<rparr>"]) auto
qed

lemma take_cell_last:
  assumes r: "shape s (xs @ [Free m])" and n: "n \<le> m" "\<not> 8 + n + mincell s < m"
    and c1: "c1 = last (tail s # free_refs 40 xs)" and c: "c = 40 + extent xs"
  shows "take_cell n c1 c s = None"
proof -
  have rg: "ring (heap s) (free_refs 40 xs @ [c])" and t: "tail s = c"
    using r c by (auto simp: shape_def)
  then have "heap s (c1 + 8) = tail s" using ring_next [OF rg] c1 by simp
  moreover have "wrap32 (8 + n + mincell s) = 8 + n + mincell s" "heap s c = m"
    using r n c by (auto simp: shape_def)
  ultimately show ?thesis using n by (simp add: take_cell_def cell_size_def cell_next_def)
qed

lemma round_size_props:
  assumes "8 \<le> mincell s" "8 dvd mincell s" "sz \<le> 2 ^ 32 - 8"
  shows "8 \<le> round_size s sz" "8 dvd round_size s sz" "sz \<le> round_size s sz"
proof -
  have a: "ALIGN sz = (sz + 7) - (sz + 7) mod 8"
    using assms(3) by (simp add: ALIGN_def Let_def)
  then have "8 dvd ALIGN sz" "sz \<le> ALIGN sz"
    by (metis dvd_minus_mod, linarith)
  then show "8 \<le> round_size s sz" "8 dvd round_size s sz" "sz \<le> round_size s sz"
    using assms by (auto simp: round_size_def)
qed

section \<open>Objects\<close>

text \<open>The objects handed out lie inside their cells, away from the links of the free cells.\<close>

lemma objects_range: "(p, k) \<in> set (objects a bs) \<Longrightarrow> a + 8 \<le> p \<and> p + k \<le> a + extent bs"
  by (induction bs arbitrary: a) (fastforce split: if_splits)+

lemma objects_no_ref: "(p, k) \<in> set (objects a bs) \<Longrightarrow> r \<in> set (refs a bs) \<Longrightarrow> r < p \<or> p + k \<le> r"
proof (induction bs arbitrary: a)
  case (Cons b bs)
  show ?case
  proof (cases "r = a")
    case True
    then show ?thesis using objects_range [OF Cons.prems(1)] by simp
  next
    case False
    then have r: "r \<in> set (refs (a + 8 + bsize b) bs)" using Cons.prems(2) by simp
    then show ?thesis using Cons refs_ge [OF r] by (auto split: if_splits)
  qed
qed simp

lemma objects_no_link:
  assumes "\<forall>b \<in> set bs. 8 \<le> bsize b"
  shows "(p, k) \<in> set (objects a bs) \<Longrightarrow> r \<in> set (free_refs a bs) \<Longrightarrow> r + 8 < p \<or> p + k \<le> r + 8"
  using assms
proof (induction bs arbitrary: a)
  case (Cons b bs)
  let ?a = "a + 8 + bsize b"
  have f: "?a \<le> r" if "r \<in> set (free_refs ?a bs)"
    using that free_refs_subset [of ?a bs] refs_ge [of r ?a bs] by auto
  have o: "?a + 8 \<le> p" if "(p, k) \<in> set (objects ?a bs)"
    using objects_range [OF that] by simp
  show ?case
  proof (cases "is_free b")
    case True
    with Cons.prems Cons.IH [of ?a] o show ?thesis by (cases "r = a") auto
  next
    case False
    then have r: "r \<in> set (free_refs ?a bs)" using Cons.prems(2) by simp
    show ?thesis
    proof (cases "(p, k) = (a + 8, bsize b)")
      case True
      then show ?thesis using f [OF r] by simp
    next
      case False
      then show ?thesis using Cons r \<open>\<not> is_free b\<close> by auto
    qed
  qed
qed simp

lemma shape_data_write:
  assumes r: "shape s bs" and o: "(p, k) \<in> set (objects 40 bs)"
    and h: "\<And>a. a < p \<or> p + k \<le> a \<Longrightarrow> h' a = heap s a"
  shows "shape (s\<lparr>heap := h'\<rparr>) bs"
proof -
  have big: "\<forall>b \<in> set bs. 8 \<le> bsize b" using r by (simp add: shape_def wf_blocks_def)
  have "sized h' 40 bs = sized (heap s) 40 bs"
    using objects_no_ref [OF o] h by (intro sized_cong) blast
  moreover have "path h' (last rs) rs = path (heap s) (last rs) rs" if "rs = free_refs 40 bs" for rs
  proof (rule path_cong)
    fix q assume "q \<in> set (butlast (last rs # rs))"
    then have "q \<in> set rs" by (cases "rs = []") (auto dest: in_set_butlastD split: if_splits)
    then show "h' (q + 8) = heap s (q + 8)" using objects_no_link [OF big o] that h by blast
  qed
  ultimately show ?thesis using r by (simp add: shape_def ring_def)
qed

lemma count_alloc_represents:
  assumes "shape s bs" "allocated_size s + (8 + cell_size (heap s) c) < 2 ^ 32"
    "allocated_count s + 1 < 2 ^ 32"
    "allocated_count s + 1 = length (filter (\<lambda>b. \<not> is_free b) bs)"
    "allocated_size s + (8 + cell_size (heap s) c) = used_extent bs"
  shows "represents (count_alloc c s) bs"
  using assms
  by (auto simp: represents_shape shape_def count_alloc_def Let_def wrap32_small)

lemma used_count: "8 * length (filter (\<lambda>b. \<not> is_free b) bs) \<le> used_extent bs"
  unfolding used_extent_def extent_def by (induction bs) auto

lemma used_extent_le: "used_extent bs \<le> extent bs"
  unfolding used_extent_def extent_def by (induction bs) auto

text \<open>
  What the state after a successful allocation at \<open>p\<close> promises: it represents the new blocks,
  and no word of an object handed out before has changed.
\<close>

definition data_kept :: "block list \<Rightarrow> allocator \<Rightarrow> allocator \<Rightarrow> bool" where
  "data_kept bs s s' \<longleftrightarrow>
     (\<forall>(p, k) \<in> set (objects 40 bs). \<forall>a \<in> {p..<p + k}. heap s' a = heap s a)"

lemma data_keptI:
  "(\<And>p k a. (p, k) \<in> set (objects 40 bs) \<Longrightarrow> a \<in> {p..<p + k} \<Longrightarrow> heap s' a = heap s a) \<Longrightarrow>
    data_kept bs s s'"
  unfolding data_kept_def by blast

definition alloc_result ::
  "allocator \<Rightarrow> block list \<Rightarrow> nat \<Rightarrow> bool \<Rightarrow> allocator \<times> nat option \<Rightarrow> bool" where
  "alloc_result s bs n zero r = (case sp_alloc (mincell s) n hdrsiz bs of
     None \<Rightarrow> r = (s, None)
   | Some (p, bs') \<Rightarrow> snd r = Some p \<and> represents (fst r) bs' \<and> mincell (fst r) = mincell s \<and>
       data_kept bs s (fst r) \<and>
       (zero \<longrightarrow> (\<forall>a \<in> {p..<p + n}. heap (fst r) a = 0)))"

text \<open>What remains of \<open>suba_alloc\<close> once the cell is taken.\<close>

lemma alloc_finish:
  assumes r: "represents s bs" and take: "take_cell n c1 c s = Some s1" "s1 = s\<lparr>heap := h1, tail := t1\<rparr>"
    and sh: "shape s1 bs'" and hc: "h1 c = k" and n: "n \<le> k" "c + 8 < 2 ^ 32"
    and o: "(c + 8, k) \<in> set (objects 40 bs')"
    and cnt: "length (filter (\<lambda>b. \<not> is_free b) bs') = length (filter (\<lambda>b. \<not> is_free b) bs) + 1"
      "used_extent bs' = used_extent bs + (8 + k)"
    and kept: "data_kept bs s s1"
    and away: "\<And>p j. (p, j) \<in> set (objects 40 bs) \<Longrightarrow> p + j \<le> c + 8 \<or> c + 8 + k \<le> p"
    and find: "find_cell s n (tail s) = Some (Some (c1, c))" and rn: "round_size s sz = n"
    and sp: "sp_alloc (mincell s) n 40 bs = Some (c + 8, bs')"
  shows "\<exists>r. suba_alloc s sz zero = Some r \<and> alloc_result s bs n zero r"
proof -
  let ?s2 = "count_alloc c s1"
  let ?s3 = "if zero then ?s2\<lparr>heap := memset0 (c + 8) n (heap ?s2)\<rparr> else ?s2"
  have h2: "heap ?s2 = h1" using take(2) by (simp add: count_alloc_def Let_def)
  have b: "used_extent bs' < 2 ^ 32"
    using used_extent_le [of bs'] sh by (auto simp: shape_def)
  have rep2: "represents ?s2 bs'"
    using r take(2) cnt hc b used_count [of bs'] sh
    by (intro count_alloc_represents) (auto simp: represents_shape cell_size_def)
  have "represents ?s3 bs'"
  proof (cases zero)
    case True
    have "shape (?s2\<lparr>heap := memset0 (c + 8) n (heap ?s2)\<rparr>) bs'"
      using rep2 n by (intro shape_data_write [OF _ o]) (auto simp: represents_shape memset0_def)
    with True rep2 show ?thesis by (simp add: represents_shape)
  qed (use rep2 in simp)
  moreover have "data_kept bs s ?s3"
  proof (rule data_keptI)
    fix p j a assume p: "(p, j) \<in> set (objects 40 bs)" "a \<in> {p..<p + j}"
    have "heap s1 a = heap s a" using kept p unfolding data_kept_def by fastforce
    then show "heap ?s3 a = heap s a"
      using away [OF p(1)] p(2) n h2 take(2) by (auto simp: memset0_def)
  qed
  moreover have "suba_alloc s sz zero = Some (?s3, Some (c + 8))"
    using find take(1) rn n by (simp add: suba_alloc_def C2P_def Let_def)
  moreover have "mincell ?s3 = mincell s" using take(2) by (simp add: count_alloc_def Let_def)
  ultimately show ?thesis using sp by (simp add: alloc_result_def memset0_def)
qed

lemma objects_cut:
  assumes "(p, j) \<in> set (objects a (xs @ Free m # ys))"
  shows "p + j \<le> a + extent xs \<or> a + extent xs + 8 + m \<le> p"
  using assms objects_range [of p j a xs] objects_range [of p j "a + extent xs + 8 + m" ys]
  by (auto simp: add.assoc)

lemma suba_alloc_refines:
  assumes r: "represents s bs" and sz: "sz \<le> 2 ^ 32 - 8"
  shows "\<exists>r. suba_alloc s sz zero = Some r \<and> alloc_result s bs (round_size s sz) zero r"
proof -
  let ?n = "round_size s sz"
  have sh: "shape s bs" using r by (simp add: represents_shape)
  then have n: "8 \<le> ?n" "8 dvd ?n" using round_size_props [OF _ _ sz] by (auto simp: shape_def)
  show ?thesis
  proof (cases rule: first_fit_cases [of bs ?n])
    case none
    then show ?thesis
      using find_cell_none [OF r none] sp_alloc_none [OF none]
      by (simp add: suba_alloc_def alloc_result_def Let_def)
  next
    case (some xs m ys)
    let ?c = "40 + extent xs"
    let ?c1 = "last (tail s # free_refs 40 xs)"
    note find = find_cell_some [OF r some]
    have sp: "sp_alloc (mincell s) ?n 40 bs =
       (if 8 + ?n + mincell s < m then Some (?c + 8, xs @ Used ?n # Free (m - (?n + 8)) # ys)
        else if ys = [] then None else Some (?c + 8, xs @ Used m # ys))"
      using sp_alloc_found [OF some(2,3), of "mincell s" 40 ys] some(1) by simp
    have area: "?c + 8 + m < 2 ^ 32" using sh some(1) by (auto simp: shape_def)
    have big: "\<forall>b \<in> set bs. 8 \<le> bsize b" using sh by (simp add: shape_def wf_blocks_def)
    have away: "p + j \<le> ?c \<or> ?c + 8 + m \<le> p" if "(p, j) \<in> set (objects 40 bs)" for p j
      using objects_cut that some(1) by metis
    have away': "p + j \<le> ?c + 8 \<or> ?c + 8 + k \<le> p"
      if "(p, j) \<in> set (objects 40 bs)" "k \<le> m" for p j k
      using away [OF that(1)] that(2) by linarith
    have nolink: "a \<notin> (\<lambda>r. r + 8) ` set (free_refs 40 bs)"
      if "(p, j) \<in> set (objects 40 bs)" "a \<in> {p..<p + j}" for p j a
      using objects_no_link [OF big that(1)] that(2) by fastforce
    have sh': "shape s (xs @ Free m # ys)" using sh some(1) by simp
    consider (cut) "8 + ?n + mincell s < m" | (all) "\<not> 8 + ?n + mincell s < m" "ys \<noteq> []"
      | (full) "\<not> 8 + ?n + mincell s < m" "ys = []" by blast
    then show ?thesis
    proof cases
      case cut
      obtain s1 where s1: "take_cell ?n ?c1 ?c s = Some s1"
          "shape s1 (xs @ Used ?n # Free (m - (?n + 8)) # ys)" "heap s1 ?c = ?n"
          "s1 = s\<lparr>heap := heap s1, tail := tail s1\<rparr>"
          "\<And>a. a \<notin> {?c, ?c + 8 + ?n, ?c + 8 + ?n + 8} \<union> (\<lambda>r. r + 8) ` set (free_refs 40 bs)
             \<Longrightarrow> heap s1 a = heap s a"
        using take_cell_cut [OF sh' n cut refl refl] some(1) by metis
      have kept: "data_kept bs s s1"
      proof (rule data_keptI)
        show "heap s1 a = heap s a"
          if "(p, k) \<in> set (objects 40 bs)" "a \<in> {p..<p + k}" for p k a
          using s1(5) [of a] nolink [OF that] away [OF that(1)] that(2) cut by auto
      qed
      show ?thesis
        by (rule alloc_finish [OF r s1(1,4,2,3) _ _ _ _ _ kept away' find])
           (use area cut sp some(1) in \<open>auto simp: add.assoc\<close>)
    next
      case all
      obtain s1 where s1: "take_cell ?n ?c1 ?c s = Some s1"
          "shape s1 (xs @ Used m # ys)" "heap s1 ?c = m" "s1 = s\<lparr>heap := heap s1\<rparr>"
          "\<And>a. a \<notin> (\<lambda>r. r + 8) ` set (free_refs 40 bs) \<Longrightarrow> heap s1 a = heap s a"
        using take_cell_all [OF sh' some(3) all(1) refl refl all(2)] some(1) by metis
      have s1': "s1 = s\<lparr>heap := heap s1, tail := tail s\<rparr>"
        by (rule trans [OF s1(4)]) (cases s, simp)
      have kept: "data_kept bs s s1"
        by (rule data_keptI) (rule s1(5) [OF nolink])
      show ?thesis
        by (rule alloc_finish [OF r s1(1) s1' s1(2,3) some(3) _ _ _ _ kept away' find])
           (use area all sp some(1) in \<open>auto simp: add.assoc\<close>)
    next
      case full
      then have "take_cell ?n ?c1 ?c s = None"
        using take_cell_last [of s xs m ?n, OF _ some(3) _ refl refl] sh' by simp
      then show ?thesis
        using find full sp by (simp add: suba_alloc_def alloc_result_def Let_def)
    qed
  qed
qed

end
