(* ===== verification/ObjectHeap.thy ===== *)
theory ObjectHeap
  imports Prelude
begin

text \<open>
  The interface between an allocator and the code that uses it. A client asks for objects, stores
  words into the objects it owns and gives them back; \<open>client_run\<close> is a whole history of such
  requests, with the list of the objects the client owns, newest first, and the size it asked
  for. The locale \<open>object_heap\<close> states what an allocator promises, in terms of a ghost value that
  describes the heap and of the set of objects it has handed out; its lemmas show what every
  history of a client gets from that.
\<close>

section \<open>Clients\<close>

text \<open>\<open>Release i\<close> and \<open>Store i j v\<close> name an object by its position in the list of owned objects.\<close>

datatype request = Alloc nat bool | Release nat | Store nat nat nat

fun client_step ::
  "('s \<Rightarrow> nat \<Rightarrow> bool \<Rightarrow> ('s \<times> nat option) option) \<Rightarrow> ('s \<Rightarrow> nat option \<Rightarrow> ('s \<times> int) option) \<Rightarrow>
   (nat \<Rightarrow> nat \<Rightarrow> 's \<Rightarrow> 's) \<Rightarrow> request \<Rightarrow> 's \<times> (nat \<times> nat) list \<Rightarrow> ('s \<times> (nat \<times> nat) list) option" where
  "client_step alloc free put (Alloc n z) (s, own) = do {
     (s', r) \<leftarrow> alloc s n z;
     Some (s', case r of None \<Rightarrow> own | Some p \<Rightarrow> (p, n) # own)
   }"
| "client_step alloc free put (Release i) (s, own) =
     (if i < length own
      then do { (s', rc) \<leftarrow> free s (Some (fst (own ! i)));
                if rc = 0 then Some (s', take i own @ drop (Suc i) own) else None }
      else Some (s, own))"
| "client_step alloc free put (Store i j v) (s, own) =
     Some (if i < length own \<and> j < snd (own ! i) then put (fst (own ! i) + j) v s else s, own)"

fun client_run ::
  "('s \<Rightarrow> nat \<Rightarrow> bool \<Rightarrow> ('s \<times> nat option) option) \<Rightarrow> ('s \<Rightarrow> nat option \<Rightarrow> ('s \<times> int) option) \<Rightarrow>
   (nat \<Rightarrow> nat \<Rightarrow> 's \<Rightarrow> 's) \<Rightarrow> request list \<Rightarrow> 's \<times> (nat \<times> nat) list \<Rightarrow> ('s \<times> (nat \<times> nat) list) option" where
  "client_run alloc free put [] c = Some c"
| "client_run alloc free put (q # qs) c = do {
     c' \<leftarrow> client_step alloc free put q c; client_run alloc free put qs c' }"

fun in_limit :: "nat \<Rightarrow> request \<Rightarrow> bool" where
  "in_limit lim (Alloc n z) = (n \<le> lim)"
| "in_limit lim _ = True"

text \<open>Owned objects that do not overlap, and a step that changes no owned word it is not asked to.\<close>

definition own_apart :: "(nat \<times> nat) list \<Rightarrow> bool" where
  "own_apart own \<longleftrightarrow> (\<forall>i < length own. \<forall>j < length own. i \<noteq> j \<longrightarrow>
     fst (own ! i) + snd (own ! i) \<le> fst (own ! j) \<or> fst (own ! j) + snd (own ! j) \<le> fst (own ! i))"

definition own_words :: "request \<Rightarrow> (nat \<times> nat) list \<Rightarrow> (nat \<times> nat) list \<Rightarrow> nat set" where
  "own_words q own own' = {a. \<exists>(p, n) \<in> set own \<inter> set own'. a \<in> {p..<p + n}} -
     (case q of Store i j v \<Rightarrow> if i < length own then {fst (own ! i) + j} else {} | _ \<Rightarrow> {})"

section \<open>The interface\<close>

locale object_heap =
  fixes alloc :: "'s \<Rightarrow> nat \<Rightarrow> bool \<Rightarrow> ('s \<times> nat option) option"
    and free :: "'s \<Rightarrow> nat option \<Rightarrow> ('s \<times> int) option"
    and put :: "nat \<Rightarrow> nat \<Rightarrow> 's \<Rightarrow> 's"
    and word :: "'s \<Rightarrow> nat \<Rightarrow> nat"
    and inv :: "'s \<Rightarrow> 'g \<Rightarrow> bool"
    and objs :: "'g \<Rightarrow> (nat \<times> nat) set"
    and lim :: nat
  assumes alloc_ok: "inv s g \<Longrightarrow> n \<le> lim \<Longrightarrow> \<exists>s' r g'. alloc s n z = Some (s', r) \<and> inv s' g' \<and>
      (\<forall>(p, k) \<in> objs g. \<forall>a \<in> {p..<p + k}. word s' a = word s a) \<and>
      (case r of None \<Rightarrow> objs g' = objs g
       | Some p \<Rightarrow> \<exists>k \<ge> n. (p, k) \<notin> objs g \<and> objs g' = insert (p, k) (objs g))"
    and free_ok: "inv s g \<Longrightarrow> (p, k) \<in> objs g \<Longrightarrow> \<exists>s' g'. free s (Some p) = Some (s', 0) \<and> inv s' g' \<and>
      objs g' = objs g - {(p, k)} \<and>
      (\<forall>(q, j) \<in> objs g'. \<forall>a \<in> {q..<q + j}. word s' a = word s a)"
    and put_ok: "inv s g \<Longrightarrow> (p, k) \<in> objs g \<Longrightarrow> a \<in> {p..<p + k} \<Longrightarrow>
      inv (put a v s) g \<and> word (put a v s) = (word s)(a := v)"
    and objs_pos: "inv s g \<Longrightarrow> (p, k) \<in> objs g \<Longrightarrow> 0 < k"
    and objs_apart: "inv s g \<Longrightarrow> (p, k) \<in> objs g \<Longrightarrow> (q, j) \<in> objs g \<Longrightarrow> (p, k) \<noteq> (q, j) \<Longrightarrow>
      p + k \<le> q \<or> q + j \<le> p"
begin

text \<open>The client owns exactly the objects of the heap, each at least as large as it asked for.\<close>

definition owns :: "'g \<Rightarrow> (nat \<times> nat) list \<Rightarrow> bool" where
  "owns g own \<longleftrightarrow> distinct (map fst own) \<and> fst ` objs g = fst ` set own \<and>
     (\<forall>(p, n) \<in> set own. \<exists>k \<ge> n. (p, k) \<in> objs g)"

lemma owns_size: "owns g own \<Longrightarrow> i < length own \<Longrightarrow> \<exists>k \<ge> snd (own ! i). (fst (own ! i), k) \<in> objs g"
proof -
  assume o: "owns g own" and "i < length own"
  then have "(fst (own ! i), snd (own ! i)) \<in> set own" by simp
  with o show ?thesis by (fastforce simp: owns_def)
qed

lemma same_object: "inv s g \<Longrightarrow> (p, k) \<in> objs g \<Longrightarrow> (p, j) \<in> objs g \<Longrightarrow> k = j"
  using objs_apart [of s g p k p j] objs_pos [of s g p k] objs_pos [of s g p j] by fastforce

lemma owns_apart:
  assumes "inv s g" "owns g own"
  shows "own_apart own"
  unfolding own_apart_def
proof (intro allI impI)
  fix i j assume ij: "i < length own" "j < length own" "i \<noteq> j"
  obtain k where k: "snd (own ! i) \<le> k" "(fst (own ! i), k) \<in> objs g"
    using owns_size [OF assms(2) ij(1)] by blast
  obtain l where l: "snd (own ! j) \<le> l" "(fst (own ! j), l) \<in> objs g"
    using owns_size [OF assms(2) ij(2)] by blast
  have "fst (own ! i) \<noteq> fst (own ! j)"
    using assms(2) ij by (simp add: owns_def distinct_conv_nth)
  then show "fst (own ! i) + snd (own ! i) \<le> fst (own ! j) \<or> fst (own ! j) + snd (own ! j) \<le> fst (own ! i)"
    using objs_apart [OF assms(1) k(2) l(2)] k(1) l(1) by auto
qed

lemma client_alloc:
  assumes i: "inv s g" and o: "owns g own" and n: "n \<le> lim"
  shows "\<exists>s' own' g'. client_step alloc free put (Alloc n z) (s, own) = Some (s', own') \<and>
    inv s' g' \<and> owns g' own' \<and> (\<forall>a \<in> own_words (Alloc n z) own own'. word s' a = word s a)"
proof -
  obtain s' r g' where a: "alloc s n z = Some (s', r)" "inv s' g'"
      "\<forall>(p, k) \<in> objs g. \<forall>a \<in> {p..<p + k}. word s' a = word s a"
    and r: "case r of None \<Rightarrow> objs g' = objs g
       | Some p \<Rightarrow> \<exists>k \<ge> n. (p, k) \<notin> objs g \<and> objs g' = insert (p, k) (objs g)"
    using alloc_ok [OF i n, of z] by blast
  define own' where "own' = (case r of None \<Rightarrow> own | Some p \<Rightarrow> (p, n) # own)"
  have "owns g' own'"
  proof (cases r)
    case None
    then show ?thesis using r o by (simp add: own'_def owns_def)
  next
    case (Some p)
    then obtain k where k: "n \<le> k" "(p, k) \<notin> objs g" "objs g' = insert (p, k) (objs g)" using r by auto
    have "p \<notin> fst ` objs g"
    proof
      assume "p \<in> fst ` objs g"
      then obtain l where l: "(p, l) \<in> objs g" by auto
      then have "k = l" using same_object [OF a(2), of p k l] k(3) by simp
      with l k(2) show False by simp
    qed
    then show ?thesis using o k Some by (fastforce simp: own'_def owns_def)
  qed
  moreover have "word s' a = word s a" if w: "a \<in> own_words (Alloc n z) own own'" for a
  proof -
    obtain p m where p: "(p, m) \<in> set own" "a \<in> {p..<p + m}" using w by (auto simp: own_words_def)
    then obtain k where "m \<le> k" "(p, k) \<in> objs g" using o by (auto simp: owns_def)
    with p(2) a(3) show ?thesis by fastforce
  qed
  ultimately show ?thesis using a own'_def by auto
qed

lemma client_release:
  assumes i: "inv s g" and o: "owns g own"
  shows "\<exists>s' own' g'. client_step alloc free put (Release x) (s, own) = Some (s', own') \<and>
    inv s' g' \<and> owns g' own' \<and> (\<forall>a \<in> own_words (Release x) own own'. word s' a = word s a)"
proof (cases "x < length own")
  case True
  obtain p n where pn: "own ! x = (p, n)" by fastforce
  define own' where "own' = take x own @ drop (Suc x) own"
  have own: "own = take x own @ (p, n) # drop (Suc x) own" using id_take_nth_drop [OF True] pn by simp
  have "distinct (map fst (take x own @ (p, n) # drop (Suc x) own))"
    using o own by (simp add: owns_def)
  then have sub: "distinct (map fst own')" "p \<notin> fst ` set own'"
    unfolding own'_def by auto
  have "set own = set (take x own @ (p, n) # drop (Suc x) own)" using own by simp
  then have seto: "set own = insert (p, n) (set own')" unfolding own'_def by simp
  obtain k where k: "n \<le> k" "(p, k) \<in> objs g" using owns_size [OF o True] pn by auto
  obtain s' g' where f: "free s (Some p) = Some (s', 0)" "inv s' g'" "objs g' = objs g - {(p, k)}"
      "\<forall>(q, j) \<in> objs g'. \<forall>a \<in> {q..<q + j}. word s' a = word s a"
    using free_ok [OF i k(2)] by blast
  have "owns g' own'"
    unfolding owns_def
  proof (intro conjI)
    show "distinct (map fst own')" by (rule sub(1))
    have u: "j = k" if "(p, j) \<in> objs g" for j using same_object [OF i k(2) that] by simp
    have "fst ` objs g' = fst ` objs g - {p}"
    proof (intro equalityI subsetI)
      fix q assume "q \<in> fst ` objs g'"
      then obtain j where "(q, j) \<in> objs g'" by auto
      then have j: "(q, j) \<in> objs g" "(q, j) \<noteq> (p, k)" using f(3) by simp_all
      have "q \<in> fst ` objs g" by (rule image_eqI [OF _ j(1)]) simp
      moreover have "q \<noteq> p" using j u by auto
      ultimately show "q \<in> fst ` objs g - {p}" by simp
    next
      fix q assume "q \<in> fst ` objs g - {p}"
      then obtain j where "(q, j) \<in> objs g" "q \<noteq> p" by auto
      then have "(q, j) \<in> objs g'" using f(3) by simp
      then show "q \<in> fst ` objs g'" by (rule image_eqI [rotated]) simp
    qed
    also have "fst ` objs g = insert p (fst ` set own')" using o seto by (simp add: owns_def)
    also have "insert p (fst ` set own') - {p} = fst ` set own'" using sub(2) by simp
    finally show "fst ` objs g' = fst ` set own'" .
    show "\<forall>(q, m) \<in> set own'. \<exists>j \<ge> m. (q, j) \<in> objs g'"
    proof (intro ballI, clarify)
      fix q m assume q: "(q, m) \<in> set own'"
      then have "(q, m) \<in> set own" "q \<noteq> p" using seto sub(2) by force+
      then obtain j where "m \<le> j" "(q, j) \<in> objs g" using o by (auto simp: owns_def)
      with \<open>q \<noteq> p\<close> f(3) show "\<exists>j \<ge> m. (q, j) \<in> objs g'" by auto
    qed
  qed
  moreover have "word s' a = word s a" if w: "a \<in> own_words (Release x) own own'" for a
  proof -
    obtain q m where q: "(q, m) \<in> set own'" "a \<in> {q..<q + m}" using w by (auto simp: own_words_def)
    then obtain j where "m \<le> j" "(q, j) \<in> objs g'" using calculation by (auto simp: owns_def)
    with q(2) f(4) show ?thesis by fastforce
  qed
  ultimately show ?thesis using f True pn own'_def by auto
qed (use i o in auto)

lemma client_store:
  assumes i: "inv s g" and o: "owns g own"
  shows "\<exists>s' own' g'. client_step alloc free put (Store x j v) (s, own) = Some (s', own') \<and>
    inv s' g' \<and> owns g' own' \<and> (\<forall>a \<in> own_words (Store x j v) own own'. word s' a = word s a)"
proof (cases "x < length own \<and> j < snd (own ! x)")
  case True
  then obtain k where k: "snd (own ! x) \<le> k" "(fst (own ! x), k) \<in> objs g" using owns_size [OF o] by blast
  then have "fst (own ! x) + j \<in> {fst (own ! x)..<fst (own ! x) + k}" using True by simp
  from put_ok [OF i k(2) this, of v] o True show ?thesis by (auto simp: own_words_def)
qed (use i o in auto)

lemma client_step_ok:
  assumes "inv s g" "owns g own" "in_limit lim q"
  shows "\<exists>s' own' g'. client_step alloc free put q (s, own) = Some (s', own') \<and>
    inv s' g' \<and> owns g' own' \<and> (\<forall>a \<in> own_words q own own'. word s' a = word s a)"
proof (cases q)
  case (Alloc n z)
  with assms show ?thesis using client_alloc [OF assms(1,2), of n z] by simp
next
  case (Release x)
  show ?thesis unfolding Release by (rule client_release [OF assms(1,2)])
next
  case (Store x j v)
  show ?thesis unfolding Store by (rule client_store [OF assms(1,2)])
qed

lemma client_run_ok:
  assumes "inv s g" "owns g own" "\<forall>q \<in> set qs. in_limit lim q"
  shows "\<exists>s' own' g'. client_run alloc free put qs (s, own) = Some (s', own') \<and> inv s' g' \<and> owns g' own'"
  using assms
proof (induction qs arbitrary: s own g)
  case (Cons q qs)
  have "in_limit lim q" using Cons.prems by simp
  from client_step_ok [OF Cons.prems(1,2) this] obtain s1 own1 g1 where st: "client_step alloc free put q (s, own) = Some (s1, own1)" "inv s1 g1"
      "owns g1 own1" by blast
  from Cons.IH [OF st(2,3)] Cons.prems st(1) show ?case by simp
qed auto

end

end
