(* ===== verification/SubaFree.thy ===== *)
theory SubaFree
  imports SubaHeap ObjectHeap
begin

text \<open>
  Freeing in the sub-allocator: \<open>suba_free\<close> splices the cell into the ring in one of four ways and
  so frees and coalesces in the abstract heap; what \<open>suba_getmeminfo\<close> reports; and the
  sub-allocator as an instance of \<open>object_heap\<close>.
\<close>

section \<open>Freeing\<close>

lemma objects_split:
  "(p, n) \<in> set (objects a bs) \<Longrightarrow> \<exists>xs ys. bs = xs @ Used n # ys \<and> p = a + extent xs + 8"
proof (induction bs arbitrary: a)
  case (Cons b bs)
  show ?case
  proof (cases "\<not> is_free b \<and> p = a + 8 \<and> n = bsize b")
    case True
    then have "b # bs = [] @ Used n # bs" by (cases b) auto
    then show ?thesis using True by (intro exI [of _ "[]"] exI [of _ bs]) auto
  next
    case False
    then have "(p, n) \<in> set (objects (a + 8 + bsize b) bs)" using Cons.prems by (auto split: if_splits)
    from Cons.IH [OF this] obtain xs ys where
      "bs = xs @ Used n # ys" "p = a + 8 + bsize b + extent xs + 8" by blast
    then show ?thesis by (intro exI [of _ "b # xs"] exI [of _ ys]) auto
  qed
qed simp

abbreviation apart :: "block list \<Rightarrow> bool" where
  "apart \<equiv> successively (\<lambda>b c. is_free b \<longrightarrow> \<not> is_free c)"

lemma cons_block_plain: "\<not> (is_free b \<and> bs \<noteq> [] \<and> is_free (hd bs)) \<Longrightarrow> cons_block b bs = b # bs"
  by (cases "(b, bs)" rule: cons_block.cases) auto

lemma coalesce_apart: "apart bs \<Longrightarrow> coalesce bs = bs"
proof (induction bs)
  case (Cons b bs)
  then show ?case by (cases bs) (auto simp: cons_block_plain)
qed simp

lemma coalesce_append: "coalesce (xs @ ys) = foldr cons_block xs (coalesce ys)"
  by (induction xs) auto

lemma foldr_cons_block:
  "apart xs \<Longrightarrow> xs = [] \<or> zs = [] \<or> \<not> (is_free (last xs) \<and> is_free (hd zs)) \<Longrightarrow>
    foldr cons_block xs zs = xs @ zs"
proof (induction xs)
  case (Cons x xs)
  then show ?case by (cases xs) (auto simp: cons_block_plain)
qed simp

lemma objects_cons_block: "objects a (cons_block b bs) = objects a (b # bs)"
  by (cases "(b, bs)" rule: cons_block.cases) (auto simp: add.assoc)

lemma objects_coalesce: "objects a (coalesce bs) = objects a bs"
  by (induction bs arbitrary: a) (auto simp: objects_cons_block)

lemma set_free_at:
  "set_free (a + extent xs) a (xs @ b # ys) = xs @ Free (bsize b) # ys"
proof (induction xs arbitrary: a)
  case (Cons x xs)
  from Cons [of "a + 8 + bsize x"] show ?case by (simp add: ac_simps)
qed simp

text \<open>The four results of joining the freed cell with its neighbours.\<close>

lemma sp_free_at:
  assumes w: "apart (xs @ Used n # ys)"
  shows "sp_free (40 + extent xs + 8) (xs @ Used n # ys) =
    (if xs \<noteq> [] \<and> is_free (last xs)
     then butlast xs @ cons_block (Free (bsize (last xs))) (cons_block (Free n) ys)
     else xs @ cons_block (Free n) ys)"
proof -
  have a: "apart xs" "apart ys" using w by (auto simp: successively_append_iff successively_Cons)
  obtain k zs where z: "cons_block (Free n) ys = Free k # zs"
    by (cases "(Free n, ys)" rule: cons_block.cases) auto
  have "sp_free (40 + extent xs + 8) (xs @ Used n # ys) = coalesce (xs @ Free n # ys)"
    using set_free_at [of 40 xs "Used n" ys] by (simp add: sp_free_def)
  also have "\<dots> = foldr cons_block xs (Free k # zs)"
    using z coalesce_apart [OF a(2)] by (simp add: coalesce_append)
  also have "\<dots> = (if xs \<noteq> [] \<and> is_free (last xs)
     then butlast xs @ cons_block (Free (bsize (last xs))) (Free k # zs)
     else xs @ Free k # zs)"
  proof (cases xs rule: rev_cases)
    case (snoc us u)
    show ?thesis
    proof (cases u)
      case (Free m)
      then have "us = [] \<or> \<not> is_free (last us)" "apart us"
        using a(1) snoc by (auto simp: successively_append_iff)
      then have "foldr cons_block us (Free (m + (8 + k)) # zs) = us @ Free (m + (8 + k)) # zs"
        by (intro foldr_cons_block) auto
      then show ?thesis using snoc Free by simp
    next
      case (Used m)
      then have "foldr cons_block xs (Free k # zs) = xs @ Free k # zs"
        using a(1) snoc by (intro foldr_cons_block) auto
      then show ?thesis using snoc Used by simp
    qed
  qed simp
  finally show ?thesis using z by simp
qed

definition cells_ok :: "block list \<Rightarrow> bool" where
  "cells_ok bs \<longleftrightarrow> bs \<noteq> [] \<and> is_free (last bs) \<and> (\<forall>b \<in> set bs. 8 \<le> bsize b) \<and>
     (\<forall>b \<in> set (butlast bs). 8 dvd bsize b)"

lemma wf_blocks_cells: "wf_blocks bs \<longleftrightarrow> cells_ok bs \<and> apart bs"
  by (auto simp: wf_blocks_def cells_ok_def)

lemma cons_block_ok: "cells_ok (b # bs) \<Longrightarrow> cells_ok (cons_block b bs)"
  by (cases "(b, bs)" rule: cons_block.cases) (auto simp: cells_ok_def split: if_splits)

lemma cons_block_apart: "apart bs \<Longrightarrow> apart (cons_block b bs)"
  by (cases "(b, bs)" rule: cons_block.cases) (auto simp: successively_Cons)

lemma apart_coalesce: "apart (coalesce bs)"
  by (induction bs) (simp_all add: cons_block_apart)

lemma cells_ok_coalesce: "cells_ok bs \<Longrightarrow> cells_ok (coalesce bs)"
proof (induction bs)
  case (Cons b bs)
  show ?case
  proof (cases bs)
    case Nil
    with Cons.prems show ?thesis by (simp add: cons_block_plain)
  next
    case (Cons c cs)
    then have "cells_ok (coalesce bs)" using Cons.prems Cons.IH by (simp add: cells_ok_def)
    then have "cells_ok (b # coalesce bs)"
      using Cons.prems Cons by (auto simp: cells_ok_def)
    then show ?thesis by (simp add: cons_block_ok)
  qed
qed (simp add: cells_ok_def)

lemma wf_sp_free:
  assumes "wf_blocks (xs @ Used n # ys)"
  shows "wf_blocks (sp_free (40 + extent xs + 8) (xs @ Used n # ys))"
proof -
  have "cells_ok (xs @ Free n # ys)"
    using assms by (auto simp: wf_blocks_def cells_ok_def butlast_append split: if_splits)
  then show ?thesis
    using set_free_at [of 40 xs "Used n" ys]
    by (simp add: sp_free_def wf_blocks_cells cells_ok_coalesce apart_coalesce)
qed

lemma isadj_before:
  assumes r: "shape s (xs @ Used n # ys)" and c: "c = 40 + extent xs"
    and c1: "c1 = last (tail s # free_refs 40 xs)"
  shows "ISADJ (heap s) c1 c \<longleftrightarrow> xs \<noteq> [] \<and> is_free (last xs)"
proof -
  let ?bs = "xs @ Used n # ys"
  have t: "tail s \<in> set (free_refs (c + 8 + n) ys)" and ne: "free_refs (c + 8 + n) ys \<noteq> []"
  proof -
    show ne: "free_refs (c + 8 + n) ys \<noteq> []"
      using r by (intro free_refs_nonempty) (auto simp: shape_def wf_blocks_def split: if_splits)
    then show "tail s \<in> set (free_refs (c + 8 + n) ys)"
      using r by (auto simp: shape_def c add.assoc)
  qed
  have area: "area_size s = c + 8 + n + extent ys" "area_size s < 2 ^ 32"
    and sz: "sized (heap s) 40 xs" "sized (heap s) (c + 8 + n) ys"
    using r c by (auto simp: shape_def add.assoc)
  have t': "c + 8 + n \<le> tail s" "tail s + 8 + heap s (tail s) \<le> area_size s"
    using t free_refs_subset [of "c + 8 + n" ys] sized_end [OF _ sz(2), of "tail s"] area
    by (auto dest: refs_ge)
  have adj: "ISADJ (heap s) c1 c \<longleftrightarrow> c1 + 8 + heap s c1 = c" if "c1 + 8 + heap s c1 \<le> area_size s"
    using that area(2) by (simp add: ISADJ_def C2P_def cell_size_def)
  show ?thesis
  proof (cases xs rule: rev_cases)
    case Nil
    then show ?thesis using adj t' c1 by auto
  next
    case (snoc us u)
    show ?thesis
    proof (cases "is_free u")
      case True
      then have "c1 = 40 + extent us" using c1 snoc by simp
      then show ?thesis using adj sz(1) snoc True c area by auto
    next
      case u: False
      show ?thesis
      proof (cases "free_refs 40 us = []")
        case True
        then show ?thesis using adj t' c1 snoc u by auto
      next
        case False
        then have "c1 \<in> set (free_refs 40 us)" using c1 snoc u by simp
        then have "c1 \<in> set (refs 40 us)" using free_refs_subset by blast
        then have "c1 + 8 + heap s c1 \<le> 40 + extent us"
          using sized_end [of c1 40 us "heap s"] sz(1) snoc by simp
        then show ?thesis using adj snoc u c area by auto
      qed
    qed
  qed
qed

lemma isadj_after:
  assumes r: "shape s (xs @ Used n # ys)" and c: "c = 40 + extent xs"
    and c3: "c3 = hd (free_refs (c + 8 + n) ys)"
  shows "ISADJ (heap s) c c3 \<longleftrightarrow> is_free (hd ys)"
proof -
  have ys: "ys \<noteq> []" using r by (auto simp: shape_def wf_blocks_def split: if_splits)
  then obtain b zs where b: "ys = b # zs" by (cases ys) auto
  have "heap s c = n" "c + 8 + n < 2 ^ 32" using r c by (auto simp: shape_def)
  then have adj: "ISADJ (heap s) c c3 \<longleftrightarrow> c + 8 + n = c3"
    by (simp add: ISADJ_def C2P_def cell_size_def)
  show ?thesis
  proof (cases "is_free b")
    case True
    then show ?thesis using adj b c3 by simp
  next
    case False
    then have "free_refs (c + 8 + n + 8 + bsize b) zs \<noteq> []"
      using r b by (intro free_refs_nonempty) (auto simp: shape_def wf_blocks_def split: if_splits)
    then have "c3 \<in> set (refs (c + 8 + n + 8 + bsize b) zs)"
      using c3 b False free_refs_subset [of "c + 8 + n + 8 + bsize b" zs] by (auto simp: subset_iff)
    then show ?thesis using adj b False by (auto dest: refs_ge)
  qed
qed

text \<open>What splicing finds: \<open>c1\<close> and \<open>hd post\<close> are the free cells around the freed cell \<open>c\<close>.\<close>

lemma splice_setup:
  assumes r: "shape s (xs @ Used n # ys)" and c: "c = 40 + extent xs"
    and c1: "c1 = last (tail s # free_refs 40 xs)"
    and pre: "pre = free_refs 40 xs" and post: "post = free_refs (c + 8 + n) ys"
  shows "ring (heap s) (pre @ post)" "post \<noteq> []" "tail s = last post" "distinct (pre @ c # post)"
    "c1 = last (last post # pre)" "heap s (c1 + 8) = hd post" "c1 \<in> set (pre @ post)"
    "heap s c = n" "sized (heap s) 40 xs" "sized (heap s) (c + 8 + n) ys"
    "area_size s = c + 8 + n + extent ys" "area_size s < 2 ^ 32"
    "\<And>q. q \<in> set (pre @ c # post) \<Longrightarrow>
       q + 8 \<noteq> c \<and> q + 8 \<notin> set (refs 40 xs) \<and> q + 8 \<notin> set (refs (c + 8 + n) ys)"
proof -
  show ne: "post \<noteq> []"
    using r unfolding post
    by (intro free_refs_nonempty) (auto simp: shape_def wf_blocks_def split: if_splits)
  show rg: "ring (heap s) (pre @ post)" and t: "tail s = last post"
    using r ne by (auto simp: shape_def pre post c add.assoc)
  show c1': "c1 = last (last post # pre)" using c1 t pre by simp
  show "heap s (c1 + 8) = hd post" using ring_next [OF rg ne] c1' by simp
  show "c1 \<in> set (pre @ post)" using c1' ne by (cases "pre = []") auto
  have "free_refs 40 (xs @ Free n # ys) = pre @ c # post" by (simp add: pre post c add.assoc)
  then show "distinct (pre @ c # post)" using represents_distinct by metis
  show "heap s c = n" "sized (heap s) 40 xs" "sized (heap s) (c + 8 + n) ys"
    "area_size s = c + 8 + n + extent ys" "area_size s < 2 ^ 32"
    using r by (auto simp: shape_def c add.assoc)
  fix q assume "q \<in> set (pre @ c # post)"
  then have "q \<in> set (refs 40 (xs @ Used n # ys))"
    using free_refs_subset [of 40 xs] free_refs_subset [of "c + 8 + n" ys]
    by (auto simp: pre post c add.assoc)
  moreover have "\<forall>b \<in> set (xs @ Used n # ys). 8 \<le> bsize b"
    using r by (simp add: shape_def wf_blocks_def)
  ultimately have "q + 8 \<notin> set (refs 40 (xs @ Used n # ys))" by (intro link_not_ref)
  then show "q + 8 \<noteq> c \<and> q + 8 \<notin> set (refs 40 xs) \<and> q + 8 \<notin> set (refs (c + 8 + n) ys)"
    by (simp add: c add.assoc)
qed

lemma splice_frame:
  "a \<notin> {c, c + 8, c1, c1 + 8} \<Longrightarrow> heap (splice_cell c1 c c s) a = heap s a"
  by (simp add: splice_cell_def set_size_def set_next_def Let_def)

lemma splice_fields:
  "splice_cell c1 c ref s = s\<lparr>heap := heap (splice_cell c1 c ref s), tail := tail (splice_cell c1 c ref s)\<rparr>"
  by (simp add: splice_cell_def set_size_def set_next_def Let_def)

lemmas splice_simps = splice_cell_def set_size_def set_next_def cell_size_def cell_next_def Let_def

lemma shape_after:
  assumes "shape s bs" "wf_blocks bs'" "sized h' 40 bs'" "ring h' (free_refs 40 bs')"
    "t' = last (free_refs 40 bs')" "extent bs' = extent bs"
  shows "shape (s\<lparr>heap := h', tail := t'\<rparr>) bs'"
  using assms by (simp add: shape_def)

lemma splice_alone:
  assumes r: "shape s (xs @ Used n # ys)" and c: "c = 40 + extent xs"
    and c1: "c1 = last (tail s # free_refs 40 xs)"
    and j: "\<not> (xs \<noteq> [] \<and> is_free (last xs))" "\<not> is_free (hd ys)"
    and wf: "wf_blocks (xs @ Free n # ys)"
  shows "shape (splice_cell c1 c c s) (xs @ Free n # ys)"
proof -
  let ?pre = "free_refs 40 xs" and ?post = "free_refs (c + 8 + n) ys"
  note f = splice_setup [OF r c c1 refl refl]
  define h' where "h' = (heap s)(c + 8 := hd ?post, c1 + 8 := c)"
  have s': "splice_cell c1 c c s = s\<lparr>heap := h', tail := tail s\<rparr>"
    using isadj_before [OF r c c1] isadj_after [OF r c refl] j f(6)
    by (simp add: splice_simps h'_def)
  have "c1 \<noteq> c" using f(4,7) by auto
  have link: "c1 + 8 \<notin> set (refs 40 xs)" "c1 + 8 \<noteq> c" "c1 + 8 \<notin> set (refs (c + 8 + n) ys)"
    "c + 8 \<notin> set (refs 40 xs)" "c + 8 \<notin> set (refs (c + 8 + n) ys)"
    using f(13) [of c1] f(13) [of c] f(7) by auto
  have "ring h' (?pre @ c # ?post)"
  proof (rule ring_insert [OF f(1) f(4) f(2) f(5)])
    show "h' (q + 8) = heap s (q + 8)" if "q \<in> set ?pre \<union> set ?post" "q \<noteq> c1" for q
      using that f(4) by (auto simp: h'_def)
  qed (use \<open>c1 \<noteq> c\<close> in \<open>auto simp: h'_def\<close>)
  moreover have "sized h' 40 xs" "sized h' (c + 8 + n) ys" "h' c = n"
    using f(8,9,10) link by (simp_all add: h'_def sized_upd)
  ultimately show ?thesis
    unfolding s' using f(2,3) c by (intro shape_after [OF r wf]) (simp_all add: add.assoc)
qed

lemma splice_right_eq:
  assumes "\<not> ISADJ (heap s) c1 c" "ISADJ (heap s) c c3" "c3 = heap s (c1 + 8)" "c3 \<noteq> c + 8" "c3 \<noteq> c"
  shows "splice_cell c1 c c s = s\<lparr>heap := (heap s)
      (c + 8 := (if heap s (c3 + 8) = c3 then c else heap s (c3 + 8)),
       c := wrap32 (heap s c + (8 + heap s c3)), c1 + 8 := c),
     tail := (if c3 = tail s then c else tail s)\<rparr>"
  using assms by (cases s, cases "c3 = tail s") (simp_all add: splice_simps)

lemma splice_right:
  assumes r: "shape s (xs @ Used n # Free k # zs)" and c: "c = 40 + extent xs"
    and c1: "c1 = last (tail s # free_refs 40 xs)"
    and j: "\<not> (xs \<noteq> [] \<and> is_free (last xs))"
    and wf: "wf_blocks (xs @ Free (n + (8 + k)) # zs)"
  shows "shape (splice_cell c1 c c s) (xs @ Free (n + (8 + k)) # zs)"
proof -
  let ?pre = "free_refs 40 xs" and ?c3 = "c + 8 + n"
  let ?post = "free_refs (?c3 + 8 + k) zs"
  have post: "?c3 # ?post = free_refs (c + 8 + n) (Free k # zs)" by simp
  note f = splice_setup [OF r c c1 refl post]
  have n: "8 \<le> n" using r by (simp add: shape_def wf_blocks_def)
  have nx: "heap s (?c3 + 8) = ?c3 \<longleftrightarrow> c1 = ?c3"
  proof (cases ?post)
    case Nil
    show ?thesis
    proof (cases ?pre)
      case Nil': Nil
      then show ?thesis using Nil f(5,6) by simp
    next
      case (Cons q qs)
      then have "heap s (?c3 + 8) = q" "c1 \<in> set ?pre" using f(1,5) Nil by (simp_all add: ring_def)
      then show ?thesis using f(4) Cons by auto
    qed
  next
    case (Cons q qs)
    then have "heap s (?c3 + 8) = q" using f(1) by (simp add: ring_split Let_def)
    moreover have "c1 \<in> set ?pre \<union> set ?post" using f(5) Cons by (cases "?pre = []") auto
    ultimately show ?thesis using f(4) Cons by auto
  qed
  define h' where "h' = (heap s)(c + 8 := (if c1 = ?c3 then c else heap s (?c3 + 8)),
    c := n + (8 + k), c1 + 8 := c)"
  have k: "heap s ?c3 = k" "n + (8 + k) < 2 ^ 32" using f(10,11,12) by simp_all
  have s': "splice_cell c1 c c s =
      s\<lparr>heap := h', tail := (if ?c3 = tail s then c else tail s)\<rparr>"
  proof (subst splice_right_eq)
    show "\<not> ISADJ (heap s) c1 c" "ISADJ (heap s) c ?c3" "?c3 = heap s (c1 + 8)"
      using isadj_before [OF r c c1] isadj_after [OF r c refl] j f(6) by simp_all
  qed (use n nx k f(8) in \<open>simp_all add: h'_def\<close>)
  have "c1 \<noteq> c" using f(4,7) by auto
  have link: "c1 + 8 \<notin> set (refs 40 xs)" "c1 + 8 \<noteq> c" "c1 + 8 \<notin> set (refs (?c3 + 8 + k) zs)"
    "c + 8 \<notin> set (refs 40 xs)" "c + 8 \<notin> set (refs (?c3 + 8 + k) zs)"
    using f(13) [of c1] f(13) [of c] f(7) by auto
  have "c \<notin> set (refs 40 xs)" "c \<notin> set (refs (?c3 + 8 + k) zs)"
    using refs_less [of c 40 xs] refs_ge [of c "?c3 + 8 + k" zs] c by auto
  then have "sized h' 40 xs" "sized h' (?c3 + 8 + k) zs" "h' c = n + (8 + k)"
    using f(9,10) link by (simp_all add: h'_def sized_upd)
  moreover have "ring h' (?pre @ c # ?post)"
  proof (rule ring_replace [OF f(1) _ f(5)])
    show "h' (c + 8) = (if c1 = ?c3 then c else heap s (?c3 + 8))"
      using \<open>c1 \<noteq> c\<close> by (simp add: h'_def)
    show "h' (q + 8) = heap s (q + 8)" if "q \<in> set ?pre \<union> set ?post" "q \<noteq> c1" for q
    proof -
      have "q + 8 \<noteq> c" "q \<noteq> c" using that f(13) [of q] f(4) by auto
      then show ?thesis using that by (simp add: h'_def)
    qed
  qed (use f(4) in \<open>auto simp: h'_def\<close>)
  moreover have "(if ?c3 = tail s then c else tail s) = last (c # ?post)"
  proof (cases "?post = []")
    case False
    then have "last ?post \<in> set ?post" by simp
    then have "last ?post \<noteq> ?c3" using f(4) by auto
    with False show ?thesis using f(3) by simp
  qed (use f(3) in simp)
  ultimately show ?thesis
    unfolding s' using c by (intro shape_after [OF r wf]) (simp_all add: add.assoc)
qed

lemma splice_left_eq:
  assumes "ISADJ (heap s) c1 c" "\<not> ISADJ (heap s) c (heap s (c1 + 8))"
  shows "splice_cell c1 c c s =
    s\<lparr>heap := (heap s)(c1 := wrap32 (heap s c1 + (8 + heap s c))), tail := tail s\<rparr>"
  using assms by (cases s) (simp add: splice_simps)

lemma splice_left:
  assumes r: "shape s ((us @ [Free m]) @ Used n # ys)" and c: "c = 40 + extent (us @ [Free m])"
    and c1: "c1 = last (tail s # free_refs 40 (us @ [Free m]))"
    and j: "\<not> is_free (hd ys)"
    and wf: "wf_blocks (us @ Free (m + (8 + n)) # ys)"
  shows "shape (splice_cell c1 c c s) (us @ Free (m + (8 + n)) # ys)"
proof -
  let ?post = "free_refs (c + 8 + n) ys" and ?xs = "us @ [Free m]"
  note f = splice_setup [OF r c c1 refl refl]
  have c1': "c1 = 40 + extent us" using c1 by simp
  define h' where "h' = (heap s)(c1 := m + (8 + n))"
  have m: "heap s c1 = m" "m + (8 + n) < 2 ^ 32" using f(9,11,12) c1' c by simp_all
  have s': "splice_cell c1 c c s = s\<lparr>heap := h', tail := tail s\<rparr>"
  proof (subst splice_left_eq)
    show "ISADJ (heap s) c1 c" "\<not> ISADJ (heap s) c (heap s (c1 + 8))"
      using isadj_before [OF r c c1] isadj_after [OF r c refl] j f(6) by simp_all
  qed (use m f(8) in \<open>simp add: h'_def\<close>)
  have "c1 \<notin> set (refs 40 us)" "c1 \<notin> set (refs (c + 8 + n) ys)"
    using refs_less [of c1 40 us] refs_ge [of c1 "c + 8 + n" ys] c c1' by auto
  then have "sized h' 40 us" "sized h' (c + 8 + n) ys" "h' c1 = m + (8 + n)"
    using f(9,10) by (simp_all add: h'_def sized_upd)
  moreover have "ring h' (free_refs 40 ?xs @ ?post)"
  proof -
    have "h' (q + 8) = heap s (q + 8)" if "q \<in> set (free_refs 40 ?xs @ ?post)" for q
      using f(13) [of q] that c1' by (auto simp: h'_def)
    then show ?thesis using f(1) by (subst ring_cong)
  qed
  ultimately show ?thesis
    unfolding s' using c c1' f(2,3) by (intro shape_after [OF r wf]) (simp_all add: add.assoc)
qed

lemma ring_remove_last:
  assumes "ring h (pre @ [c2])" and d: "distinct (pre @ [c2])" and "pre \<noteq> []" and c1: "c1 = last pre"
    and h1: "h' (c1 + 8) = h (c2 + 8)"
    and same: "\<And>r. r \<in> set pre \<Longrightarrow> r \<noteq> c1 \<Longrightarrow> h' (r + 8) = h (r + 8)"
  shows "ring h' pre"
proof -
  obtain q qs where q: "pre = q # qs" using assms(3) by (cases pre) auto
  have p: "h (c2 + 8) = q" "path h q qs" using assms(1) q by (simp_all add: ring_def)
  have "path h' q qs"
  proof (rule path_frame [OF p(2)])
    show "h' (r + 8) = h (r + 8)" if "r \<in> set (q # qs)" "r \<noteq> c1" for r
      by (rule same) (use that q in auto)
  qed (use d q c1 in auto)
  then show ?thesis using q c1 h1 p(1) by (simp add: ring_def)
qed

lemma splice_both_eq:
  assumes "ISADJ (heap s) c1 c" "ISADJ (heap s) c c3" "c3 = heap s (c1 + 8)"
    "c1 \<noteq> c" "c1 + 8 \<noteq> c" "c1 + 8 \<noteq> c3"
  shows "splice_cell c1 c c s = s\<lparr>heap := (heap s)(c1 + 8 := heap s (c3 + 8),
       c1 := wrap32 (wrap32 (heap s c1 + (8 + heap s c3)) + (8 + heap s c))),
     tail := (if c3 = tail s then c1 else tail s)\<rparr>"
  using assms by (cases s, cases "c3 = tail s") (simp_all add: splice_simps)

lemma splice_both:
  assumes r: "shape s ((us @ [Free m]) @ Used n # Free k # zs)" and c: "c = 40 + extent (us @ [Free m])"
    and c1: "c1 = last (tail s # free_refs 40 (us @ [Free m]))"
    and wf: "wf_blocks (us @ Free (m + (8 + (n + (8 + k)))) # zs)"
  shows "shape (splice_cell c1 c c s) (us @ Free (m + (8 + (n + (8 + k)))) # zs)"
proof -
  let ?xs = "us @ [Free m]" and ?c3 = "c + 8 + n"
  let ?pre = "free_refs 40 us @ [c1]" and ?post = "free_refs (?c3 + 8 + k) zs"
  have c1': "c1 = 40 + extent us" using c1 by simp
  then have pre: "?pre = free_refs 40 ?xs" by simp
  have post: "?c3 # ?post = free_refs (c + 8 + n) (Free k # zs)" by simp
  note f = splice_setup [OF r c c1 pre post]
  have sz: "heap s c1 = m" "heap s ?c3 = k" "m + (8 + (n + (8 + k))) < 2 ^ 32"
    using f(9,10,11,12) c1' c by simp_all
  define h' where "h' = (heap s)(c1 + 8 := heap s (?c3 + 8), c1 := m + (8 + (n + (8 + k))))"
  have "c1 \<in> set (?pre @ c # ?c3 # ?post)" by simp
  note l1 = f(13) [OF this]
  have s': "splice_cell c1 c c s = s\<lparr>heap := h', tail := (if ?c3 = tail s then c1 else tail s)\<rparr>"
  proof (subst splice_both_eq)
    show "ISADJ (heap s) c1 c" "ISADJ (heap s) c ?c3" "?c3 = heap s (c1 + 8)"
      using isadj_before [OF r c c1] isadj_after [OF r c refl] f(6) by simp_all
    show "c1 \<noteq> c" "c1 + 8 \<noteq> c" "c1 + 8 \<noteq> ?c3" using c c1' l1 by auto
  qed (use sz f(8) in \<open>simp_all add: h'_def ac_simps\<close>)
  have "c1 + 8 \<notin> set (refs 40 us)" "c1 + 8 \<notin> set (refs (?c3 + 8 + k) zs)"
    "c1 \<notin> set (refs 40 us)" "c1 \<notin> set (refs (?c3 + 8 + k) zs)"
    using l1 refs_less [of c1 40 us] refs_ge [of c1 "?c3 + 8 + k" zs] c c1' by auto
  then have "sized h' 40 us" "sized h' (?c3 + 8 + k) zs" "h' c1 = m + (8 + (n + (8 + k)))"
    using f(9,10) by (simp_all add: h'_def sized_upd)
  moreover have "ring h' (?pre @ ?post)"
  proof -
    have d: "distinct (?pre @ ?c3 # ?post)" using f(4) by simp
    have h1: "h' (c1 + 8) = heap s (?c3 + 8)" by (simp add: h'_def)
    have same: "h' (q + 8) = heap s (q + 8)" if "q \<in> set (?pre @ ?post)" "q \<noteq> c1" for q
    proof -
      have "q \<in> set (?pre @ c # ?c3 # ?post)" using that(1) by auto
      from f(13) [OF this] have "q + 8 \<noteq> c1" using c1' by auto
      with that(2) show ?thesis by (simp add: h'_def)
    qed
    show ?thesis
    proof (cases "?post = []")
      case True
      have "ring h' ?pre"
        by (rule ring_remove_last [of "heap s" ?pre ?c3 c1])
          (use f(1) d h1 same True in auto)
      with True show ?thesis by simp
    next
      case False
      show ?thesis
        by (rule ring_remove [OF f(1) d False _ h1 same]) auto
    qed
  qed
  moreover have "(if ?c3 = tail s then c1 else tail s) = last (?pre @ ?post)"
  proof (cases "?post = []")
    case False
    then have "last ?post \<in> set ?post" by simp
    then have "last ?post \<noteq> ?c3" using f(4) by auto
    with False show ?thesis using f(3) by simp
  qed (use f(3) in simp)
  moreover have "c1 + 8 + (m + (8 + (n + (8 + k)))) = ?c3 + 8 + k" using c c1' by simp
  ultimately show ?thesis
    unfolding s' using c c1' by (intro shape_after [OF r wf]) (simp_all add: add.assoc)
qed

text \<open>Together: splicing the cell of an object is freeing it.\<close>

lemma splice_cell_frees:
  assumes r: "shape s (xs @ Used n # ys)" and c: "c = 40 + extent xs"
    and c1: "c1 = last (tail s # free_refs 40 xs)"
  shows "shape (splice_cell c1 c c s) (sp_free (c + 8) (xs @ Used n # ys))"
proof -
  let ?bs' = "sp_free (c + 8) (xs @ Used n # ys)"
  have wf: "wf_blocks (xs @ Used n # ys)" using r by (simp add: shape_def)
  then have wf': "wf_blocks ?bs'" using wf_sp_free c by simp
  have "apart (xs @ Used n # ys)" using wf by (simp add: wf_blocks_cells)
  from sp_free_at [OF this] have sp: "?bs' = (if xs \<noteq> [] \<and> is_free (last xs)
     then butlast xs @ cons_block (Free (bsize (last xs))) (cons_block (Free n) ys)
     else xs @ cons_block (Free n) ys)" using c by simp
  have ys: "ys \<noteq> []" using wf by (auto simp: wf_blocks_def split: if_splits)
  then obtain y zs where y: "ys = y # zs" by (cases ys) auto
  show ?thesis
  proof (cases "xs \<noteq> [] \<and> is_free (last xs)")
    case True
    then obtain us m where x: "xs = us @ [Free m]"
      by (metis append_butlast_last_id block.collapse(1))
    show ?thesis
    proof (cases y)
      case (Free k)
      have "?bs' = us @ Free (m + (8 + (n + (8 + k)))) # zs" using sp x y Free by simp
      with wf' show ?thesis
        using splice_both [of s us m n k zs c c1] r c c1 x y Free by simp
    next
      case (Used k)
      have "?bs' = us @ Free (m + (8 + n)) # ys" using sp x y Used by simp
      with wf' show ?thesis
        using splice_left [of s us m n ys c c1] r c c1 x y Used by simp
    qed
  next
    case False
    show ?thesis
    proof (cases y)
      case (Free k)
      have "?bs' = xs @ Free (n + (8 + k)) # zs" using sp False y Free by auto
      with wf' show ?thesis
        using splice_right [of s xs n k zs c c1] r c c1 False y Free by simp
    next
      case (Used k)
      have "?bs' = xs @ Free n # ys" using sp False y Used by auto
      with wf' show ?thesis
        using splice_alone [of s xs n ys c c1] r c c1 False y Used by auto
    qed
  qed
qed

lemma cons_block_counts:
  "used_extent (cons_block b bs) = used_extent (b # bs)"
  "length (filter (\<lambda>b. \<not> is_free b) (cons_block b bs)) = length (filter (\<lambda>b. \<not> is_free b) (b # bs))"
  by (cases "(b, bs)" rule: cons_block.cases; simp)+

lemma used_extent_Cons: "used_extent (b # bs) = (if is_free b then 0 else 8 + bsize b) + used_extent bs"
  by (cases b) simp_all

lemma coalesce_counts:
  "used_extent (coalesce bs) = used_extent bs"
  "length (filter (\<lambda>b. \<not> is_free b) (coalesce bs)) = length (filter (\<lambda>b. \<not> is_free b) bs)"
  by (induction bs) (auto simp: cons_block_counts used_extent_Cons)

lemma sp_free_coalesce:
  "sp_free (40 + extent xs + 8) (xs @ Used n # ys) = coalesce (xs @ Free n # ys)"
  using set_free_at [of 40 xs "Used n" ys] by (simp add: sp_free_def)

lemma insertion_point_found:
  assumes r: "shape s (xs @ Used n # ys)" and c: "c = 40 + extent xs"
    and c1: "c1 = last (tail s # free_refs 40 xs)"
  shows "insertion_point s c (tail s) = Some (Some c1)"
proof -
  note f = splice_setup [OF r c c1 refl refl]
  let ?pre = "free_refs 40 xs" and ?post = "free_refs (c + 8 + n) ys"
  have "path (heap s) (tail s) ?pre" using f(1,2,3) by (simp add: ring_def)
  moreover have "\<forall>q \<in> set ?pre. 8 \<le> q \<and> q < c"
    using free_refs_subset [of 40 xs] refs_less refs_ge c by fastforce
  ultimately have "insertion_point s c (tail s) = insertion_point s c c1"
    unfolding c1 by (rule insertion_walk)
  moreover have "hd ?post \<in> set (refs (c + 8 + n) ys)"
    using free_refs_subset hd_in_set [OF f(2)] by blast
  then have "\<not> cell_next (heap s) c1 < c"
    using f(6) by (auto simp: cell_next_def dest: refs_ge)
  ultimately show ?thesis by (subst (asm) (2) insertion_point.simps) simp
qed

lemma suba_free_refines:
  assumes r: "represents s bs" and o: "(p, n) \<in> set (objects 40 bs)"
  shows "\<exists>s'. suba_free s (Some p) = Some (s', 0) \<and> represents s' (sp_free p bs) \<and>
    data_kept (sp_free p bs) s s' \<and> mincell s' = mincell s"
proof -
  obtain xs ys where bs: "bs = xs @ Used n # ys" and p: "p = 40 + extent xs + 8"
    using objects_split [OF o] by blast
  define c where "c = 40 + extent xs"
  define c1 where "c1 = last (tail s # free_refs 40 xs)"
  have sh: "shape s (xs @ Used n # ys)" using r bs by (simp add: represents_shape)
  note f = splice_setup [OF sh c_def c1_def refl refl]
  let ?s1 = "s\<lparr>allocated_size := allocated_size s - (8 + n), allocated_count := allocated_count s - 1\<rparr>"
  let ?s2 = "splice_cell c1 c c ?s1"
  have cnt: "allocated_size s = used_extent xs + (8 + n + used_extent ys)"
    "allocated_count s = Suc (length (filter (\<lambda>b. \<not> is_free b) xs) + length (filter (\<lambda>b. \<not> is_free b) ys))"
    "allocated_size s \<le> allocated_peak s"
    using r bs by (simp_all add: represents_shape)
  have lim: "allocated_size s < 2 ^ 32" "allocated_count s < 2 ^ 32"
    using used_extent_le [of bs] used_count [of bs] r bs f(11,12) c_def
    by (simp_all add: represents_shape shape_def)
  have sh1: "shape ?s1 (xs @ Used n # ys)" using sh by (simp add: shape_def)
  have c1s: "c1 = last (tail ?s1 # free_refs 40 xs)" by (simp add: c1_def)
  have P2C: "P2C p = c" "0 < p" "p \<le> area_size s" "0 < c" "c \<le> area_size s"
    using f(11,12) p c_def by (simp_all add: P2C_def)
  have ts: "c < tail s"
  proof -
    have "tail s \<in> set (refs (c + 8 + n) ys)"
      using f(2,3) free_refs_subset [of "c + 8 + n" ys] by auto
    then show ?thesis by (auto dest: refs_ge)
  qed
  have "max_free s = area_size s" using sh by (simp add: shape_def)
  then have "suba_free s (Some p) = Some (?s2, 0)"
    using P2C ts f(8,11,12) cnt lim insertion_point_found [OF sh1 c_def c1s]
    by (simp add: suba_free_def suba_ref_def cell_size_def Let_def)
  moreover have "represents ?s2 (sp_free p bs)"
  proof -
    have "shape ?s2 (sp_free p bs)"
      using splice_cell_frees [OF sh1 c_def c1s] p bs c_def by simp
    moreover have "allocated_count ?s2 = allocated_count s - 1"
      "allocated_size ?s2 = allocated_size s - (8 + n)" "allocated_peak ?s2 = allocated_peak s"
      by (subst splice_fields, simp)+
    moreover have "sp_free p bs = coalesce (xs @ Free n # ys)" using p bs sp_free_coalesce by simp
    ultimately show ?thesis using cnt by (simp add: represents_shape coalesce_counts)
  qed
  moreover have "data_kept (sp_free p bs) s ?s2"
  proof (rule data_keptI)
    fix q j a assume q: "(q, j) \<in> set (objects 40 (sp_free p bs))" and a: "a \<in> {q..<q + j}"
    let ?bs = "xs @ Free n # ys"
    have "sp_free p bs = coalesce ?bs" using p bs sp_free_coalesce by simp
    then have q': "(q, j) \<in> set (objects 40 ?bs)" using q by (simp add: objects_coalesce)
    have fr: "set (free_refs 40 ?bs) = insert c (set (free_refs 40 xs @ free_refs (c + 8 + n) ys))"
      by (auto simp: c_def add.assoc)
    have in': "c \<in> set (free_refs 40 ?bs)" "c1 \<in> set (free_refs 40 ?bs)" using f(7) fr by auto
    have big: "\<forall>b \<in> set ?bs. 8 \<le> bsize b" using sh by (simp add: shape_def wf_blocks_def)
    have "x \<noteq> a" "x + 8 \<noteq> a" if "x \<in> set (free_refs 40 ?bs)" for x
      using objects_no_ref [OF q', of x] objects_no_link [OF big q' that] that a
        free_refs_subset [of 40 ?bs] by auto
    then have "heap ?s2 a = heap ?s1 a" using in' by (intro splice_frame) auto
    then show "heap ?s2 a = heap s a" by simp
  qed
  moreover have "mincell ?s2 = mincell s" by (subst splice_fields) simp
  ultimately show ?thesis by blast
qed

section \<open>Memory information\<close>

lemma meminfo_walk:
  assumes "path (heap s) c rs" "\<forall>r \<in> set rs. r \<noteq> tail s" "heap s (last (c # rs) + 8) = tail s"
  shows "meminfo_loop s c m = Some (fold (count_cell s) rs m)"
  using assms
proof (induction rs arbitrary: c m)
  case (Cons r rs)
  then show ?case by (subst meminfo_loop.simps) (simp add: cell_next_def)
qed (simp add: meminfo_loop.simps cell_next_def)

lemma count_cells:
  assumes "free_size m + sum_list (map (heap s) rs) < 2 ^ 32" "free_block_count m + length rs < 2 ^ 32"
  shows "fold (count_cell s) rs m =
    \<lparr>largest_block = fold max (map (heap s) rs) (largest_block m),
     free_size = free_size m + sum_list (map (heap s) rs),
     free_block_count = free_block_count m + length rs\<rparr>"
  using assms
proof (induction rs arbitrary: m)
  case (Cons r rs)
  have "count_cell s r m = \<lparr>largest_block = max (heap s r) (largest_block m),
      free_size = free_size m + heap s r, free_block_count = free_block_count m + 1\<rparr>"
    using Cons.prems by (simp add: count_cell_def cell_size_def max_def)
  with Cons show ?case by simp
qed simp

definition free_sizes :: "block list \<Rightarrow> nat list" where
  "free_sizes bs = map bsize (filter is_free bs)"

lemma free_refs_sizes: "sized h a bs \<Longrightarrow> map h (free_refs a bs) = free_sizes bs"
  by (induction bs arbitrary: a) (auto simp: free_sizes_def)

lemma area_account:
  "extent bs = used_extent bs + sum_list (free_sizes bs) + 8 * length (free_sizes bs)"
  unfolding free_sizes_def
proof (induction bs)
  case (Cons b bs)
  then show ?case by (cases b) simp_all
qed simp

lemma suba_getmeminfo_reads:
  assumes r: "represents s bs"
  shows "suba_getmeminfo s = Some (\<lparr>largest_block = Max (set (free_sizes bs)),
     free_size = sum_list (free_sizes bs), free_block_count = length (free_sizes bs)\<rparr>,
     allocated_size s, allocated_peak s, allocated_count s)"
proof -
  let ?rs = "free_refs 40 bs"
  have sh: "shape s bs" using r by (simp add: represents_shape)
  then have ne: "?rs \<noteq> []" by (intro free_refs_nonempty) (auto simp: shape_def wf_blocks_def)
  have t: "tail s = last ?rs" and rg: "ring (heap s) ?rs" using sh by (simp_all add: shape_def)
  have split: "?rs = butlast ?rs @ [tail s]" using ne t by simp
  have nt: "\<forall>q \<in> set (butlast ?rs). q \<noteq> tail s"
    using last_notin_butlast [OF represents_distinct ne] t by auto
  have "path (heap s) (tail s) (butlast ?rs @ [tail s])" using rg t split by (simp add: ring_def)
  then have p: "path (heap s) (tail s) (butlast ?rs)" "heap s (last (tail s # butlast ?rs) + 8) = tail s"
    by simp_all
  let ?m0 = "\<lparr>largest_block = 0, free_size = 0, free_block_count = 0\<rparr>"
  have sizes: "map (heap s) ?rs = free_sizes bs"
    using sh by (intro free_refs_sizes) (simp add: shape_def)
  have set': "set (map (heap s) (tail s # butlast ?rs)) = set (free_sizes bs)"
    "sum_list (map (heap s) (tail s # butlast ?rs)) = sum_list (free_sizes bs)"
    "length (tail s # butlast ?rs) = length (free_sizes bs)"
  proof -
    have "free_sizes bs = map (heap s) (butlast ?rs) @ [heap s (tail s)]"
      using sizes split by (metis list.simps(8,9) map_append)
    then show "set (map (heap s) (tail s # butlast ?rs)) = set (free_sizes bs)"
      "sum_list (map (heap s) (tail s # butlast ?rs)) = sum_list (free_sizes bs)"
      "length (tail s # butlast ?rs) = length (free_sizes bs)" by simp_all
  qed
  have lim: "sum_list (free_sizes bs) < 2 ^ 32" "length (free_sizes bs) < 2 ^ 32"
    using area_account [of bs] sh by (auto simp: shape_def)
  have "meminfo_loop s (tail s) (count_cell s (tail s) ?m0) =
      Some (fold (count_cell s) (tail s # butlast ?rs) ?m0)"
    using meminfo_walk [OF p(1) nt p(2)] by simp
  also have "\<dots> = Some \<lparr>largest_block = Max (set (free_sizes bs)),
     free_size = sum_list (free_sizes bs), free_block_count = length (free_sizes bs)\<rparr>"
  proof -
    have "fold max (map (heap s) (butlast ?rs)) (heap s (tail s)) = Max (set (free_sizes bs))"
      using set'(1) Max.set_eq_fold [of "heap s (tail s)" "map (heap s) (butlast ?rs)"] by simp
    then show ?thesis
      using count_cells [of ?m0 s "tail s # butlast ?rs"] set' lim by simp
  qed
  finally show ?thesis by (simp add: suba_getmeminfo_def)
qed

section \<open>The sub-allocator as an object heap\<close>

definition suba_put :: "nat \<Rightarrow> nat \<Rightarrow> allocator \<Rightarrow> allocator" where
  "suba_put a v s = s\<lparr>heap := (heap s)(a := v)\<rparr>"

lemma sp_alloc_objects:
  "sp_alloc mc n a bs = Some (p, bs') \<Longrightarrow>
    \<exists>k \<ge> n. (p, k) \<notin> set (objects a bs) \<and> set (objects a bs') = insert (p, k) (set (objects a bs))"
proof (induction mc n a bs arbitrary: p bs' rule: sp_alloc.induct)
  case (2 mc n a m bs)
  then obtain bs1 where b: "sp_alloc mc n (a + 8 + m) bs = Some (p, bs1)" "bs' = Used m # bs1" by auto
  from "2.IH" [OF b(1)] obtain k where k: "k \<ge> n" "(p, k) \<notin> set (objects (a + 8 + m) bs)"
      "set (objects (a + 8 + m) bs1) = insert (p, k) (set (objects (a + 8 + m) bs))" by blast
  then have "a + 8 + m + 8 \<le> p" using objects_range [of p k "a + 8 + m" bs1] by simp
  then show ?case using k b(2) by (intro exI [of _ k]) auto
next
  case (3 mc n a m bs)
  have out: "(a + 8, k) \<notin> set (objects (a + 8 + m) bs)" for k
    using objects_range [of "a + 8" k "a + 8 + m" bs] by auto
  show ?case
  proof (cases "m < n")
    case True
    with "3.prems" obtain bs1 where b: "sp_alloc mc n (a + 8 + m) bs = Some (p, bs1)" "bs' = Free m # bs1"
      by auto
    from "3.IH" [OF True b(1)] b(2) show ?thesis by simp
  next
    case False
    show ?thesis
    proof (cases "8 + n + mc < m")
      case True
      with False "3.prems" out show ?thesis by (intro exI [of _ n]) (auto simp: ac_simps)
    next
      case no: False
      with False "3.prems" out show ?thesis by (intro exI [of _ m]) (auto split: if_splits)
    qed
  qed
qed simp

lemma objects_apart:
  "(p, k) \<in> set (objects a bs) \<Longrightarrow> (q, j) \<in> set (objects a bs) \<Longrightarrow> (p, k) \<noteq> (q, j) \<Longrightarrow>
    p + k \<le> q \<or> q + j \<le> p"
proof (induction bs arbitrary: a)
  case (Cons b bs)
  let ?a = "a + 8 + bsize b"
  have "?a \<le> x" if "(x, y) \<in> set (objects ?a bs)" for x y using objects_range [OF that] by simp
  then show ?case using Cons by (auto split: if_splits)
qed simp

lemma objects_big: "(p, k) \<in> set (objects a bs) \<Longrightarrow> \<forall>b \<in> set bs. 8 \<le> bsize b \<Longrightarrow> 8 \<le> k"
  by (induction bs arbitrary: a) (auto split: if_splits)

lemma sp_free_objects:
  assumes "(p, n) \<in> set (objects 40 bs)" "\<forall>b \<in> set bs. 8 \<le> bsize b"
  shows "set (objects 40 (sp_free p bs)) = set (objects 40 bs) - {(p, n)}"
proof -
  obtain xs ys where bs: "bs = xs @ Used n # ys" and p: "p = 40 + extent xs + 8"
    using objects_split [OF assms(1)] by blast
  have n: "8 \<le> n" using objects_big [OF assms] .
  have "(p, n) \<notin> set (objects 40 xs)" "(p, n) \<notin> set (objects (40 + extent xs + 8 + n) ys)"
    using objects_range [of p n 40 xs] objects_range [of p n "40 + extent xs + 8 + n" ys] p n by auto
  moreover have "sp_free p bs = coalesce (xs @ Free n # ys)" using p bs sp_free_coalesce by simp
  ultimately show ?thesis using bs p by (auto simp: objects_coalesce add.assoc)
qed

lemma data_kept_word: "data_kept bs s s' \<Longrightarrow>
    \<forall>(p, k) \<in> set (objects 40 bs). \<forall>a \<in> {p..<p + k}. heap s' a = heap s a"
  by (simp add: data_kept_def)

interpretation suba: object_heap suba_alloc suba_free suba_put heap represents
  "\<lambda>bs. set (objects 40 bs)" "2 ^ 32 - 8"
proof
  fix s n z and bs :: "block list"
  assume r: "represents s bs" and n: "n \<le> (2 ^ 32 - 8 :: nat)"
  obtain s' res where a: "suba_alloc s n z = Some (s', res)"
      "alloc_result s bs (round_size s n) z (s', res)"
    using suba_alloc_refines [OF r n, of z] by auto
  have "n \<le> round_size s n" using r n by (intro round_size_props) (auto simp: represents_def)
  show "\<exists>s' r g'. suba_alloc s n z = Some (s', r) \<and> represents s' g' \<and>
      (\<forall>(p, k) \<in> set (objects 40 bs). \<forall>a \<in> {p..<p + k}. heap s' a = heap s a) \<and>
      (case r of None \<Rightarrow> set (objects 40 g') = set (objects 40 bs)
       | Some p \<Rightarrow> \<exists>k \<ge> n. (p, k) \<notin> set (objects 40 bs) \<and>
           set (objects 40 g') = insert (p, k) (set (objects 40 bs)))"
  proof (cases "sp_alloc (mincell s) (round_size s n) 40 bs")
    case None
    with a r show ?thesis by (intro exI [of _ s] exI [of _ None] exI [of _ bs]) (simp add: alloc_result_def)
  next
    case (Some pb)
    obtain p bs' where pb: "pb = (p, bs')" by fastforce
    from sp_alloc_objects [OF Some [unfolded pb]] obtain k where
      k: "round_size s n \<le> k" "(p, k) \<notin> set (objects 40 bs)"
      "set (objects 40 bs') = insert (p, k) (set (objects 40 bs))" by blast
    have res: "res = Some p" "represents s' bs'" and kept: "data_kept bs s s'"
      using a(2) Some pb by (simp_all add: alloc_result_def)
    have "n \<le> k" using k(1) \<open>n \<le> round_size s n\<close> by simp
    with k(2,3) have "case Some p of None \<Rightarrow> set (objects 40 bs') = set (objects 40 bs)
       | Some p \<Rightarrow> \<exists>k \<ge> n. (p, k) \<notin> set (objects 40 bs) \<and>
           set (objects 40 bs') = insert (p, k) (set (objects 40 bs))"
      by (auto intro!: exI [of _ k])
    with a(1) res data_kept_word [OF kept] show ?thesis by blast
  qed
next
  fix s p k and bs :: "block list"
  assume r: "represents s bs" and o: "(p, k) \<in> set (objects 40 bs)"
  have big: "\<forall>b \<in> set bs. 8 \<le> bsize b" using r by (simp add: represents_def wf_blocks_def)
  from suba_free_refines [OF r o] obtain s' where
    f: "suba_free s (Some p) = Some (s', 0)" "represents s' (sp_free p bs)"
    "data_kept (sp_free p bs) s s'" by blast
  show "\<exists>s' g'. suba_free s (Some p) = Some (s', 0) \<and> represents s' g' \<and>
      set (objects 40 g') = set (objects 40 bs) - {(p, k)} \<and>
      (\<forall>(q, j) \<in> set (objects 40 g'). \<forall>a \<in> {q..<q + j}. heap s' a = heap s a)"
    by (intro exI conjI) (rule f(1), rule f(2), rule sp_free_objects [OF o big],
        rule data_kept_word [OF f(3)])
  show "0 < k" using objects_big [OF o big] by simp
  fix a v assume "a \<in> {p..<p + k}"
  then have "shape (s\<lparr>heap := (heap s)(a := v)\<rparr>) bs"
    using r by (intro shape_data_write [OF _ o]) (auto simp: represents_shape)
  then show "represents (suba_put a v s) bs \<and> heap (suba_put a v s) = (heap s)(a := v)"
    using r by (simp add: suba_put_def represents_shape)
next
  fix s p k q j and bs :: "block list"
  assume "(p, k) \<in> set (objects 40 bs)" "(q, j) \<in> set (objects 40 bs)" "(p, k) \<noteq> (q, j)"
  then show "p + k \<le> q \<or> q + j \<le> p" by (rule objects_apart)
qed

lemma suba_alloc_area: "suba_alloc s n z = Some (s', r) \<Longrightarrow> area_size s' = area_size s"
  by (auto simp: suba_alloc_def take_cell_def count_alloc_def set_size_def set_next_def Let_def
      split: option.splits if_splits)

lemma suba_free_area: "suba_free s p = Some (s', r) \<Longrightarrow> area_size s' = area_size s"
  by (auto simp: suba_free_def append_cell_def splice_cell_def set_size_def set_next_def Let_def
      split: option.splits if_splits)

lemma client_step_area:
  "client_step suba_alloc suba_free suba_put q (s, own) = Some (s', own') \<Longrightarrow> area_size s' = area_size s"
  by (cases q) (auto simp: suba_put_def bind_eq_Some_conv dest: suba_alloc_area suba_free_area
      split: if_splits)

lemma client_run_area:
  "client_run suba_alloc suba_free suba_put qs (s, own) = Some (s', own') \<Longrightarrow> area_size s' = area_size s"
proof (induction qs arbitrary: s own)
  case (Cons q qs)
  then obtain s1 own1 where "client_step suba_alloc suba_free suba_put q (s, own) = Some (s1, own1)"
    "client_run suba_alloc suba_free suba_put qs (s1, own1) = Some (s', own')"
    by (auto simp: bind_eq_Some_conv)
  with Cons.IH client_step_area show ?case by metis
qed simp

lemma length_objects: "length (objects a bs) = length (filter (\<lambda>b. \<not> is_free b) bs)"
  by (induction bs arbitrary: a) auto

lemma distinct_objects: "distinct (map fst (objects a bs))"
proof (induction bs arbitrary: a)
  case (Cons b bs)
  have "a + 8 \<notin> fst ` set (objects (a + 8 + bsize b) bs)"
    using objects_range [of _ _ "a + 8 + bsize b" bs] by fastforce
  with Cons show ?case by simp
qed simp

lemma owns_count:
  assumes "suba.owns bs own"
  shows "length (filter (\<lambda>b. \<not> is_free b) bs) = length own"
proof -
  have o: "distinct (map fst own)" "fst ` set (objects 40 bs) = fst ` set own"
    using assms unfolding suba.owns_def by blast+
  have "length (objects 40 bs) = card (fst ` set (objects 40 bs))"
    using distinct_card [OF distinct_objects [of 40 bs]] by simp
  also have "\<dots> = length own" using distinct_card [OF o(1)] o(2) by simp
  finally show ?thesis by (simp add: length_objects)
qed

lemma represents_empty:
  assumes "represents s bs" "allocated_count s = 0"
  shows "bs = [Free (area_size s - 48)]"
proof -
  have bs: "\<forall>b \<in> set bs. is_free b" "apart bs" "bs \<noteq> []"
    using assms by (auto simp: represents_def wf_blocks_cells cells_ok_def filter_empty_conv)
  obtain b cs where b: "bs = b # cs" using bs(3) by (cases bs) auto
  have "cs = []" using bs(1,2) b by (cases cs) auto
  with b bs(1) assms(1) show ?thesis by (cases b) (auto simp: represents_def)
qed

section \<open>Properties\<close>

text \<open>A header is 40 bytes: an area whose every word is zero, for the examples.\<close>

definition blank_area :: allocator where
  "blank_area = \<lparr>magic = [], tail = 0, mincell = 0, area_size = 0, allocated_count = 0,
     allocated_size = 0, allocated_peak = 0, max_free = 0, heap = (\<lambda>_. 0)\<rparr>"

text \<open>A reset area, with the smallest cell its only caller (\<open>core/memmgmt.c\<close>) asks for.\<close>

lemma represents_init:
  assumes "56 \<le> sz" "sz + 8 < 2 ^ 32"
  obtains s' where "suba_init (Some s) sz True 8 = Some s'" "represents s' [Free (sz - 48)]"
    "mincell s' = 8"
proof -
  have a: "ALIGN 4 = 8" by (simp add: ALIGN_def wrap32_def)
  have "\<exists>s'. suba_init (Some s) sz True 8 = Some s' \<and> represents s' [Free (sz - 48)] \<and> mincell s' = 8"
    using assms a
    by (auto simp: suba_init_def set_size_def set_next_def represents_def wf_blocks_def ring_def Let_def)
  with that show thesis by blast
qed

text \<open>C1: allocation is first fit over the cells in memory order, and touches no live object. In
  a heap that the list \<open>bs\<close> of cells describes, a request of at most \<open>2 ^ 32 - 8\<close> bytes returns; what
  it returns is \<open>NULL\<close> with nothing changed exactly where first fit, which never uses up the last
  cell, finds no room, and otherwise the object first fit places, in a heap that the new list
  describes, with every word of the objects handed out before unchanged and the new object zeroed
  on request.\<close>

theorem suba_alloc_first_fit:
  assumes "represents s bs" and "sz \<le> 2 ^ 32 - 8"
  shows "\<exists>r. suba_alloc s sz zero = Some r \<and> alloc_result s bs (round_size s sz) zero r"
  using assms by (rule suba_alloc_refines)

theorem suba_alloc_first_fit_witness:
  "\<exists>s r. suba_init (Some blank_area) 4096 True 8 = Some s \<and> suba_alloc s 100 True = Some r \<and>
     snd r = Some 48 \<and> represents (fst r) [Used 104, Free 3936]"
proof -
  obtain s where s: "suba_init (Some blank_area) 4096 True 8 = Some s"
      "represents s [Free (4096 - 48)]" "mincell s = 8"
    by (rule represents_init [of 4096 blank_area]) auto
  have n: "round_size s 100 = 104" using s(3) by (simp add: round_size_def ALIGN_def)
  obtain r where "suba_alloc s 100 True = Some r" "alloc_result s [Free (4096 - 48)] 104 True r"
    using suba_alloc_first_fit [OF s(2), of 100 True] n by auto
  with s show ?thesis by (cases r) (auto simp: alloc_result_def)
qed

text \<open>C2: freeing coalesces. Given an object it has handed out, \<open>suba_free\<close> returns (its loop ends),
  reports success, and leaves a heap described by the list in which the cell is free and
  neighbouring free cells are joined, so that no two free cells are ever adjacent; no word of
  another object changes.\<close>

theorem suba_free_coalesces:
  assumes "represents s bs" and "(p, n) \<in> set (objects hdrsiz bs)"
  shows "\<exists>s'. suba_free s (Some p) = Some (s', 0) \<and> represents s' (sp_free p bs) \<and>
      data_kept (sp_free p bs) s s' \<and>
      successively (\<lambda>b c. \<not> (is_free b \<and> is_free c)) (sp_free p bs)"
proof -
  from suba_free_refines [OF assms(1), of p n] assms(2) obtain s' where
    f: "suba_free s (Some p) = Some (s', 0)" "represents s' (sp_free p bs)"
      "data_kept (sp_free p bs) s s'" by auto
  have "successively (\<lambda>b c. \<not> (is_free b \<and> is_free c)) (sp_free p bs)"
    using f(2) unfolding represents_def wf_blocks_def by blast
  with f show ?thesis by blast
qed

theorem suba_free_coalesces_witness:
  "\<exists>s s'. represents s [Used 104, Free 3936] \<and> suba_free s (Some 48) = Some (s', 0) \<and>
     represents s' [Free 4048]"
proof -
  obtain s0 where s0: "represents s0 [Free (4096 - 48)]" "mincell s0 = 8"
    by (rule represents_init [of 4096 blank_area]) auto
  have n: "round_size s0 100 = 104" using s0(2) by (simp add: round_size_def ALIGN_def)
  from suba_alloc_refines [OF s0(1), of 100 False] n s0(2)
  obtain s where s: "represents s [Used 104, Free 3936]" by (auto simp: alloc_result_def)
  from suba_free_coalesces [OF s, of 48 104] obtain s' where
    "suba_free s (Some 48) = Some (s', 0)" "represents s' (sp_free 48 [Used 104, Free 3936])"
    by auto
  moreover have "sp_free 48 [Used 104, Free 3936] = [Free 4048]" by (simp add: sp_free_def)
  ultimately show ?thesis using s by auto
qed

text \<open>The memory report is exact and accounts for every byte. \<open>suba_getmeminfo\<close> returns (its walk round
  the ring ends) the largest free cell, the sum and the number of the free cells, and the
  counters; header, allocated cells and free cells together are the whole area; and when nothing
  is allocated there is one free cell, all of the area but the header and the cell's own: however
  it was allocated and freed, nothing leaks and nothing stays fragmented.\<close>

theorem suba_meminfo_accounts:
  assumes "represents s bs"
  shows "\<exists>m. suba_getmeminfo s = Some (m, allocated_size s, allocated_peak s, allocated_count s) \<and>
    largest_block m = Max (set (free_sizes bs)) \<and> free_size m = sum_list (free_sizes bs) \<and>
    free_block_count m = length (free_sizes bs) \<and>
    hdrsiz + allocated_size s + free_size m + 8 * free_block_count m = area_size s \<and>
    (allocated_count s = 0 \<longrightarrow> largest_block m = area_size s - 48 \<and> free_block_count m = 1)"
proof -
  have "area_size s = 40 + extent bs" "allocated_size s = used_extent bs"
    using assms by (simp_all add: represents_def)
  then have sum: "hdrsiz + allocated_size s + sum_list (free_sizes bs) + 8 * length (free_sizes bs) = area_size s"
    using area_account [of bs] by simp
  have "free_sizes [Free (area_size s - 48)] = [area_size s - 48]" by (simp add: free_sizes_def)
  then have "allocated_count s = 0 \<longrightarrow>
      Max (set (free_sizes bs)) = area_size s - 48 \<and> length (free_sizes bs) = 1"
    using represents_empty [OF assms] by (metis Max_singleton empty_set length_Cons list.simps(15) list.size(3) One_nat_def)
  with suba_getmeminfo_reads [OF assms] sum show ?thesis by simp
qed

theorem suba_meminfo_accounts_witness:
  "\<exists>s m. represents s [Free 4048] \<and> suba_getmeminfo s = Some (m, 0, allocated_peak s, 0) \<and>
     largest_block m = 4048"
proof -
  obtain s where s: "represents s [Free (4096 - 48)]"
    by (rule represents_init [of 4096 blank_area]) auto
  then have "allocated_size s = 0" "allocated_count s = 0" by (simp_all add: represents_def)
  with s suba_meminfo_accounts [OF s] show ?thesis by (auto simp: free_sizes_def)
qed

text \<open>C23: objects belong to their owners. On a freshly initialised area, every history of requests of a
  client that frees only what it owns and stores only inside what it owns runs to its end, no
  free is refused, and the objects it then owns do not overlap, lie in the area behind the header, and
  are as many as the allocator counts. Whatever it asks next changes no word of an object it
  keeps but the word it stores.\<close>

theorem suba_objects_owned:
  assumes "suba_init (Some s0) sz True 8 = Some s1" "56 \<le> sz" "sz + 8 < 2 ^ 32"
    and "\<forall>q \<in> set (q # qs). in_limit (2 ^ 32 - 8) q"
  shows "\<exists>s own s' own'. client_run suba_alloc suba_free suba_put qs (s1, []) = Some (s, own) \<and>
    own_apart own \<and> (\<forall>(p, n) \<in> set own. 48 \<le> p \<and> p + n \<le> sz) \<and> allocated_count s = length own \<and>
    client_step suba_alloc suba_free suba_put q (s, own) = Some (s', own') \<and>
    (\<forall>a \<in> own_words q own own'. heap s' a = heap s a)"
proof -
  obtain t where "suba_init (Some s0) sz True 8 = Some t" "represents t [Free (sz - 48)]"
    using represents_init [OF assms(2,3)] by blast
  then have r1: "represents s1 [Free (sz - 48)]" using assms(1) by simp
  have "suba.owns [Free (sz - 48)] []" by (simp add: suba.owns_def)
  from suba.client_run_ok [OF r1 this, of qs] assms(4) obtain s own bs where
    run: "client_run suba_alloc suba_free suba_put qs (s1, []) = Some (s, own)"
    and r: "represents s bs" and o: "suba.owns bs own" by auto
  have "area_size s = sz"
    using client_run_area [OF run] r1 assms(2) by (simp add: represents_def)
  then have ext: "40 + extent bs = sz" using r by (simp add: represents_def)
  have "48 \<le> p \<and> p + n \<le> sz" if p: "(p, n) \<in> set own" for p n
  proof -
    obtain k where "n \<le> k" "(p, k) \<in> set (objects 40 bs)" using o p unfolding suba.owns_def by blast
    then show ?thesis using objects_range [of p k 40 bs] ext by simp
  qed
  moreover have "allocated_count s = length own" using r owns_count [OF o] by (simp add: represents_def)
  moreover have "in_limit (2 ^ 32 - 8) q" using assms(4) by simp
  ultimately show ?thesis
    using run suba.owns_apart [OF r o] suba.client_step_ok [OF r o, of q] by fast
qed

theorem suba_objects_owned_witness:
  "\<exists>s1 s own. suba_init (Some blank_area) 4096 True 8 = Some s1 \<and>
     client_run suba_alloc suba_free suba_put [Alloc 100 True, Alloc 20 False, Store 0 3 7, Release 1] (s1, []) =
       Some (s, own) \<and> allocated_count s = length own"
proof -
  obtain s1 where "suba_init (Some blank_area) 4096 True 8 = Some s1"
    by (rule represents_init [of 4096 blank_area]) auto
  from suba_objects_owned [OF this, of "Alloc 8 False" "[Alloc 100 True, Alloc 20 False, Store 0 3 7, Release 1]"]
    this show ?thesis by auto
qed

text \<open>Requests within seven bytes of \<open>2 ^ 32\<close> are answered with an object of no bytes at all: rounding
  them up wraps to zero. On a freshly initialised area such a request does not return \<open>NULL\<close>
  but the first cell, whose size is then 0, so that the link a later free writes into its data
  overwrites the next cell's header.\<close>

theorem suba_alloc_huge_request:
  assumes "suba_init (Some s0) sz True 8 = Some s" "100 \<le> sz" "sz + 8 < 2 ^ 32"
    and "2 ^ 32 - 8 < n" "n < 2 ^ 32"
  shows "\<exists>s'. suba_alloc s n zero = Some (s', Some (C2P hdrsiz)) \<and> cell_size (heap s') hdrsiz = 0 \<and>
    tail s' = C2P hdrsiz"
proof -
  have a: "ALIGN 4 = 8" by (simp add: ALIGN_def wrap32_def)
  obtain d where d: "n + 7 = 2 ^ 32 + d" "d < 8"
    using assms(4,5) by (intro that [of "n + 7 - 2 ^ 32"]) auto
  have "ALIGN n = 0" unfolding ALIGN_def d(1) using d(2) by (simp add: wrap32_def)
  then have n: "round_size t n = 0" if "mincell t = 8" for t using assms(4) that by (simp add: round_size_def)
  have s: "s = s0\<lparr>magic := SUBA_MAGIC, tail := 40, mincell := 8, area_size := sz, allocated_count := 0,
      allocated_size := 0, allocated_peak := 0, max_free := sz,
      heap := (heap s0)(40 := sz - 48, 48 := 40)\<rparr>"
    using assms(1,2) a by (cases s0) (simp add: suba_init_def set_size_def set_next_def Let_def)
  have f: "find_cell s 0 40 = Some (Some (40, 40))"
    by (rule find_cell_here) (use assms(2) in \<open>simp_all add: s\<close>)
  show ?thesis
    using f n [of s] assms(2,3)
    by (simp add: suba_alloc_def take_cell_def count_alloc_def set_size_def set_next_def cell_size_def
        cell_next_def C2P_def memset0_def Let_def s)
qed

theorem suba_alloc_huge_request_witness:
  "\<exists>s s'. suba_init (Some blank_area) 4096 True 8 = Some s \<and>
     suba_alloc s (2 ^ 32 - 1) False = Some (s', Some 48) \<and> cell_size (heap s') 40 = 0"
proof -
  obtain s where s: "suba_init (Some blank_area) 4096 True 8 = Some s"
    by (rule represents_init [of 4096 blank_area]) auto
  from suba_alloc_huge_request [OF this, of "2 ^ 32 - 1" False] s show ?thesis
    by (auto simp: C2P_def)
qed

end
