(* ===== verification/MemMgmt.thy ===== *)
theory MemMgmt
  imports SubaFree
begin

text \<open>
  \<open>core/memmgmt.c\<close>: \<open>malloc\<close> and \<open>free\<close> over up to three heaps. The ARAM and the EXMEM heap are
  areas CHDK manages itself with the sub-allocator; the third is the firmware's, whose
  \<open>canon_malloc\<close> and \<open>canon_free\<close> are parameters. Addresses are absolute here: an object of a
  CHDK heap is at the heap's start plus the offset the sub-allocator knows it by. The compile-time
  options of a port (\<open>OPT_EXMEM_MALLOC\<close>, \<open>OPT_CHDK_IN_EXMEM\<close>, \<open>OPT_EXMEM_TESTING\<close> and the same
  for ARAM) are a record.
\<close>

section \<open>One heap\<close>

text \<open>
  \<open>ch_heap\<close> is \<open>None\<close> for a null \<open>heap\<close> pointer; \<open>ch_memory\<close> is the memory the heap is
  made in, before \<open>suba_init\<close> and in a heap that is only tested.
\<close>

record chdk_heap =
  ch_heap :: "allocator option"
  ch_start :: nat
  ch_end :: nat
  ch_size :: int
  ch_memory :: allocator

definition chdk_heap_init :: "chdk_heap \<Rightarrow> chdk_heap" where
  "chdk_heap_init h = h\<lparr>ch_heap := None, ch_start := 0, ch_end := 0, ch_size := 0\<rparr>"

definition iso_skip :: "nat \<Rightarrow> nat" where
  "iso_skip memisosize = (memisosize + 3) div 4 * 4"

definition chdk_heap_create :: "nat \<Rightarrow> nat \<Rightarrow> int \<Rightarrow> bool \<Rightarrow> bool \<Rightarrow> chdk_heap \<Rightarrow> chdk_heap" where
  "chdk_heap_create memisosize mem sz chdk_in_heap heap_testing h =
     (let h = (if chdk_in_heap
               then h\<lparr>ch_start := mem + iso_skip memisosize, ch_size := sz - int (iso_skip memisosize)\<rparr>
               else h\<lparr>ch_start := mem, ch_size := sz\<rparr>);
          h = h\<lparr>ch_end := nat (int (ch_start h) + ch_size h)\<rparr>
      in if heap_testing
         then h\<lparr>ch_memory := (ch_memory h)\<lparr>heap := (\<lambda>a. if int a < ch_size h then 0xDEADBEEF
                                                          else heap (ch_memory h) a)\<rparr>\<rparr>
         else h\<lparr>ch_heap := suba_init (Some (ch_memory h)) (nat (ch_size h mod 2 ^ 32)) True 8\<rparr>)"

definition chdk_malloc :: "chdk_heap \<Rightarrow> nat \<Rightarrow> (chdk_heap \<times> nat option) option" where
  "chdk_malloc h sz = (case ch_heap h of
     None \<Rightarrow> Some (h, None)
   | Some s \<Rightarrow> do {
       (s', r) \<leftarrow> suba_alloc s sz False;
       Some (h\<lparr>ch_heap := Some s'\<rparr>, map_option ((+) (ch_start h)) r)
     })"

text \<open>A null pointer is below every heap; the first result says whether the pointer was the heap's.\<close>

definition chdk_free :: "chdk_heap \<Rightarrow> nat option \<Rightarrow> (chdk_heap \<times> bool) option" where
  "chdk_free h ptr = (case (ch_heap h, ptr) of
     (Some s, Some p) \<Rightarrow>
       if ch_start h \<le> p \<and> p < ch_end h
       then do { (s', r) \<leftarrow> suba_free s (Some (p - ch_start h)); Some (h\<lparr>ch_heap := Some s'\<rparr>, True) }
       else Some (h, False)
   | _ \<Rightarrow> Some (h, False))"

record cam_meminfo =
  start_address :: nat
  end_address :: nat
  total_size :: int
  mi_allocated_size :: int
  mi_allocated_peak :: int
  mi_allocated_count :: int
  mi_free_size :: int
  mi_free_block_max_size :: int
  mi_free_block_count :: int

definition no_meminfo :: cam_meminfo where
  "no_meminfo = \<lparr>start_address = 0, end_address = 0, total_size = 0, mi_allocated_size = 0,
     mi_allocated_peak = 0, mi_allocated_count = 0, mi_free_size = 0, mi_free_block_max_size = 0,
     mi_free_block_count = 0\<rparr>"

definition chdk_meminfo :: "chdk_heap \<Rightarrow> (cam_meminfo \<times> bool) option" where
  "chdk_meminfo h = (case ch_heap h of
     None \<Rightarrow> Some (no_meminfo, False)
   | Some s \<Rightarrow> do {
       (m, asz, peak, cnt) \<leftarrow> suba_getmeminfo s;
       Some (\<lparr>start_address = ch_start h, end_address = ch_end h, total_size = ch_size h,
         mi_allocated_size = int asz, mi_allocated_peak = int peak, mi_allocated_count = int cnt,
         mi_free_size = int (free_size m), mi_free_block_max_size = int (largest_block m),
         mi_free_block_count = int (free_block_count m)\<rparr>, True)
     })"

section \<open>The heaps of a camera\<close>

record mem_port =
  opt_exmem_malloc :: bool
  opt_aram_malloc :: bool
  opt_chdk_in_exmem :: bool
  opt_chdk_in_aram :: bool
  opt_exmem_testing :: bool
  opt_aram_testing :: bool
  exmem_buffer_size :: int
  aram_heap_start :: nat
  aram_heap_size :: int
  mem_memisosize :: nat
  mem_dryos :: bool
  mem_no_mempartinfo :: bool

record 'c memory =
  aram_heap :: chdk_heap
  exmem_heap :: chdk_heap
  canon_heap :: 'c

text \<open>\<open>exmem_alloc\<close> is the firmware's; its result, \<open>None\<close> for a null pointer, is an argument.\<close>

definition exmem_malloc_init :: "mem_port \<Rightarrow> nat option \<Rightarrow> 'c memory \<Rightarrow> 'c memory" where
  "exmem_malloc_init C mem m =
     (let h = chdk_heap_init (exmem_heap m) in
      m\<lparr>exmem_heap := (case mem of
          Some a \<Rightarrow> (if opt_exmem_malloc C
            then chdk_heap_create (mem_memisosize C) a (exmem_buffer_size C) (opt_chdk_in_exmem C)
                   (opt_exmem_testing C) h
            else h)
        | None \<Rightarrow> h)\<rparr>)"

definition aram_malloc_init :: "mem_port \<Rightarrow> 'c memory \<Rightarrow> 'c memory" where
  "aram_malloc_init C m =
     (let h = chdk_heap_init (aram_heap m) in
      m\<lparr>aram_heap := (if opt_aram_malloc C
          then chdk_heap_create (mem_memisosize C) (aram_heap_start C) (aram_heap_size C)
                 (opt_chdk_in_aram C) (opt_aram_testing C) h
          else h)\<rparr>)"

definition GetExMemInfo :: "'c memory \<Rightarrow> (cam_meminfo \<times> bool) option" where
  "GetExMemInfo m = chdk_meminfo (exmem_heap m)"

definition GetARamInfo :: "'c memory \<Rightarrow> (cam_meminfo \<times> bool) option" where
  "GetARamInfo m = chdk_meminfo (aram_heap m)"

definition combine_meminfo :: "cam_meminfo \<Rightarrow> cam_meminfo \<Rightarrow> cam_meminfo" where
  "combine_meminfo combined m = combined
     \<lparr>total_size := total_size combined + total_size m,
      mi_free_block_max_size := (if mi_free_block_max_size combined < mi_free_block_max_size m
        then mi_free_block_max_size m else mi_free_block_max_size combined),
      mi_free_size := mi_free_size combined + mi_free_size m,
      mi_free_block_count := mi_free_block_count combined + mi_free_block_count m,
      mi_allocated_size := mi_allocated_size combined + mi_allocated_size m,
      mi_allocated_peak := mi_allocated_peak combined + mi_allocated_peak m,
      mi_allocated_count := mi_allocated_count combined + mi_allocated_count m\<rparr>"

text \<open>What the firmware's \<open>GetMemInfo\<close> fills in is the argument \<open>sys\<close>.\<close>

definition GetCombinedMemInfo :: "mem_port \<Rightarrow> cam_meminfo \<Rightarrow> 'c memory \<Rightarrow> cam_meminfo option" where
  "GetCombinedMemInfo C sys m =
     (let c = sys;
          c = (if mem_dryos C then c
               else let c = c\<lparr>mi_allocated_peak := 0, total_size := 0\<rparr>
                    in if mem_no_mempartinfo C
                       then c\<lparr>mi_free_size := mi_free_block_max_size c, mi_free_block_count := 0,
                              mi_allocated_size := 0, mi_allocated_count := 0\<rparr>
                       else c);
          c = c\<lparr>start_address := 0, end_address := 0\<rparr>
      in do {
        (a, has_a) \<leftarrow> GetARamInfo m;
        let c = (if has_a then combine_meminfo c a else c);
        (e, has_e) \<leftarrow> GetExMemInfo m;
        Some (if has_e then combine_meminfo c e else c)
      })"

text \<open>\<open>size\<close> is a \<open>long\<close>, passed to the sub-allocator as \<open>unsigned\<close>.\<close>

definition chdk_malloc_all ::
  "('c \<Rightarrow> int \<Rightarrow> 'c \<times> nat option) \<Rightarrow> int \<Rightarrow> 'c memory \<Rightarrow> ('c memory \<times> nat option) option" where
  "chdk_malloc_all canon_malloc sz m = do {
     (a, p) \<leftarrow> chdk_malloc (aram_heap m) (nat (sz mod 2 ^ 32));
     let m = m\<lparr>aram_heap := a\<rparr>;
     (case p of
        Some q \<Rightarrow> Some (m, Some q)
      | None \<Rightarrow> do {
          (e, p) \<leftarrow> chdk_malloc (exmem_heap m) (nat (sz mod 2 ^ 32));
          let m = m\<lparr>exmem_heap := e\<rparr>;
          (case p of
             Some q \<Rightarrow> Some (m, Some q)
           | None \<Rightarrow> let (c, p) = canon_malloc (canon_heap m) sz
                     in Some (m\<lparr>canon_heap := c\<rparr>, p))
        })
   }"

definition chdk_free_all ::
  "('c \<Rightarrow> nat option \<Rightarrow> 'c) \<Rightarrow> nat option \<Rightarrow> 'c memory \<Rightarrow> 'c memory option" where
  "chdk_free_all canon_free p m = do {
     (a, done1) \<leftarrow> chdk_free (aram_heap m) p;
     let m = m\<lparr>aram_heap := a\<rparr>;
     if done1 then Some m
     else do {
       (e, done2) \<leftarrow> chdk_free (exmem_heap m) p;
       let m = m\<lparr>exmem_heap := e\<rparr>;
       Some (if done2 then m else m\<lparr>canon_heap := canon_free (canon_heap m) p\<rparr>)
     }
   }"

section \<open>Which heap an object belongs to\<close>

definition in_area :: "chdk_heap \<Rightarrow> nat \<Rightarrow> bool" where
  "in_area h p \<longleftrightarrow> ch_heap h \<noteq> None \<and> ch_start h \<le> p \<and> p < ch_end h"

definition heap_ok :: "chdk_heap \<Rightarrow> block list \<Rightarrow> bool" where
  "heap_ok h bs \<longleftrightarrow> (case ch_heap h of
     None \<Rightarrow> bs = []
   | Some s \<Rightarrow> represents s bs \<and> ch_end h = ch_start h + area_size s)"

definition heaps_ok :: "'c memory \<Rightarrow> block list \<Rightarrow> block list \<Rightarrow> bool" where
  "heaps_ok m as es \<longleftrightarrow> heap_ok (aram_heap m) as \<and> heap_ok (exmem_heap m) es \<and>
     (\<forall>p. \<not> (in_area (aram_heap m) p \<and> in_area (exmem_heap m) p))"

lemma chdk_free_outside: "\<not> in_area h p \<Longrightarrow> chdk_free h (Some p) = Some (h, False)"
  by (auto simp: chdk_free_def in_area_def split: option.splits)

lemma chdk_malloc_cases:
  assumes ok: "heap_ok h bs" and n: "n \<le> 2 ^ 32 - 8"
  obtains (none) "chdk_malloc h n = Some (h, None)"
  | (some) h' p k bs' where "chdk_malloc h n = Some (h', Some (ch_start h + p))" "heap_ok h' bs'"
    "in_area h (ch_start h + p)" "(p, k) \<in> set (objects hdrsiz bs')" "n \<le> k"
    "(p, k) \<notin> set (objects hdrsiz bs)" "set (objects hdrsiz bs') = insert (p, k) (set (objects hdrsiz bs))"
    "\<And>q. in_area h' q = in_area h q" "ch_start h' = ch_start h"
proof (cases "ch_heap h")
  case None
  then show thesis by (intro none) (simp add: chdk_malloc_def)
next
  case (Some s)
  then have r: "represents s bs" and e: "ch_end h = ch_start h + area_size s"
    using ok by (simp_all add: heap_ok_def)
  obtain s' r bs' where a: "suba_alloc s n False = Some (s', r)" "represents s' bs'"
    and rs: "case r of None \<Rightarrow> set (objects 40 bs') = set (objects 40 bs)
      | Some p \<Rightarrow> \<exists>k \<ge> n. (p, k) \<notin> set (objects 40 bs) \<and>
          set (objects 40 bs') = insert (p, k) (set (objects 40 bs))"
    using suba.alloc_ok [OF r, of n False] n by blast
  show thesis
  proof (cases r)
    case None
    from suba_alloc_refines [OF r, of n False] n a(1) None have "s' = s"
      by (auto simp: alloc_result_def split: option.splits)
    then have "h\<lparr>ch_heap := Some s'\<rparr> = h" using Some by (cases h) simp
    then show thesis using a(1) None Some by (intro none) (simp add: chdk_malloc_def)
  next
    case p: (Some p)
    then obtain k where k: "n \<le> k" "(p, k) \<notin> set (objects 40 bs)"
        "set (objects 40 bs') = insert (p, k) (set (objects 40 bs))" using rs by auto
    have area: "area_size s' = area_size s" using suba_alloc_area [OF a(1)] .
    have "p < area_size s'"
      using objects_range [of p k 40 bs'] k(3) objects_big [of p k 40 bs'] a(2)
      by (auto simp: represents_def wf_blocks_def)
    then show thesis
      using k p a Some e area
      by (intro some [of "h\<lparr>ch_heap := Some s'\<rparr>" p bs' k])
        (auto simp: chdk_malloc_def heap_ok_def in_area_def)
  qed
qed

lemma chdk_free_home:
  assumes ok: "heap_ok h bs" and o: "(p, k) \<in> set (objects hdrsiz bs)"
  obtains h' bs' where "chdk_free h (Some (ch_start h + p)) = Some (h', True)" "heap_ok h' bs'"
    "set (objects hdrsiz bs') = set (objects hdrsiz bs) - {(p, k)}" "\<And>q. in_area h' q = in_area h q"
proof -
  obtain s where s: "ch_heap h = Some s" "represents s bs" "ch_end h = ch_start h + area_size s"
    using ok o by (cases "ch_heap h") (auto simp: heap_ok_def)
  obtain s' bs' where f: "suba_free s (Some p) = Some (s', 0)" "represents s' bs'"
      "set (objects 40 bs') = set (objects 40 bs) - {(p, k)}"
    using suba.free_ok [OF s(2), of p k] o by auto
  have "p < area_size s"
    using objects_range [of p k 40 bs] objects_big [of p k 40 bs] o s(2)
    by (auto simp: represents_def wf_blocks_def)
  then show thesis
    using s f suba_free_area [OF f(1)]
    by (intro that [of "h\<lparr>ch_heap := Some s'\<rparr>" bs'])
      (auto simp: chdk_free_def heap_ok_def in_area_def)
qed

section \<open>Properties\<close>


text \<open>An ARAM heap of 4096 bytes at 0x1000, and a firmware allocator that counts its objects.\<close>

definition demo_memory :: "allocator \<Rightarrow> nat memory" where
  "demo_memory s =
     \<lparr>aram_heap = \<lparr>ch_heap = Some s, ch_start = 0x1000, ch_end = 0x2000, ch_size = 4096,
        ch_memory = blank_area\<rparr>,
      exmem_heap = \<lparr>ch_heap = None, ch_start = 0, ch_end = 0, ch_size = 0, ch_memory = blank_area\<rparr>,
      canon_heap = 0\<rparr>"


end
