(* ===== verification/GuiMode.thy ===== *)
theory GuiMode
  imports UsbModule
begin

text \<open>
  The GUI modes (\<open>include/gui.h\<close>, \<open>core/gui.c\<close>): which \<open>gui_handler\<close> is current, the copies of its
  mode in \<open>camera_info.state\<close>, the flags by which a change of mode asks for a redraw, the dispatch of
  a keyboard timeslice to the current handler, and the hand-over of the ALT mode from the
  keyboard task, which asks for it, to the GUI task, which carries it out. The handlers' own
  functions are reached through the structures, here through a record of functions. The drawing
  itself is not modelled.
\<close>

section \<open>Handlers\<close>

definition GUI_MODE_NONE :: int where "GUI_MODE_NONE = 0"
definition GUI_MODE_ALT :: int where "GUI_MODE_ALT = 1"
definition GUI_MODE_MENU :: int where "GUI_MODE_MENU = 2"
definition GUI_MODE_SCRIPT :: int where "GUI_MODE_SCRIPT = 3"
definition GUI_MODE_MBOX :: int where "GUI_MODE_MBOX = 4"
definition GUI_MODE_FLAG_NODRAWRESTORE :: u32 where "GUI_MODE_FLAG_NODRAWRESTORE = 1"
definition GUI_MODE_FLAG_NORESTORE_ON_SWITCH :: u32 where "GUI_MODE_FLAG_NORESTORE_ON_SWITCH = 2"

lemmas gui_mode_defs = GUI_MODE_NONE_def GUI_MODE_ALT_def GUI_MODE_MENU_def GUI_MODE_SCRIPT_def
  GUI_MODE_MBOX_def GUI_MODE_FLAG_NODRAWRESTORE_def GUI_MODE_FLAG_NORESTORE_ON_SWITCH_def

text \<open>
  The handlers as the addresses of the static structures; \<open>mboxGuiHandler\<close> is the one of
  \<open>console.c\<close>, the rest are \<open>otherGuiHandler\<close>s.
\<close>

datatype gui_handler_ref = defaultGuiHandler | altGuiHandler | menuGuiHandler | scriptGuiHandler
  | mboxGuiHandler | otherGuiHandler nat

record gui_handler =
  gh_mode :: int
  gh_flags :: u32

text \<open>
  A null member function is \<open>None\<close>. \<open>null_handler\<close> is what the camera reads through a null
  \<open>gui_handler\<close> pointer, \<open>None\<close> if it faults there.
\<close>

record 's gui_code =
  other_handler :: "nat \<Rightarrow> gui_handler"
  null_handler :: "gui_handler option"
  kbd_process_fn :: "gui_handler_ref \<Rightarrow> ('s \<Rightarrow> (int \<times> 's) option) option"
  kbd_process_menu_btn_fn :: "gui_handler_ref \<Rightarrow> ('s \<Rightarrow> 's option) option"
  touch_handler_fn :: "gui_handler_ref \<Rightarrow> (int \<Rightarrow> int \<Rightarrow> 's \<Rightarrow> (int \<times> 's) option) option"
  cam_disp_alt_text :: bool
  key_menu :: int

fun gui_struct :: "'s gui_code \<Rightarrow> gui_handler_ref \<Rightarrow> gui_handler" where
  "gui_struct G defaultGuiHandler = \<lparr>gh_mode = GUI_MODE_NONE, gh_flags = 0\<rparr>"
| "gui_struct G altGuiHandler = \<lparr>gh_mode = GUI_MODE_ALT, gh_flags = 0\<rparr>"
| "gui_struct G menuGuiHandler = \<lparr>gh_mode = GUI_MODE_MENU, gh_flags = 0\<rparr>"
| "gui_struct G scriptGuiHandler = \<lparr>gh_mode = GUI_MODE_SCRIPT, gh_flags = 0\<rparr>"
| "gui_struct G mboxGuiHandler = \<lparr>gh_mode = GUI_MODE_MBOX, gh_flags = 0\<rparr>"
| "gui_struct G (otherGuiHandler n) = other_handler G n"

definition gui_deref :: "'s gui_code \<Rightarrow> gui_handler_ref option \<Rightarrow> gui_handler option" where
  "gui_deref G p = (case p of None \<Rightarrow> null_handler G | Some h \<Rightarrow> Some (gui_struct G h))"

section \<open>State\<close>

datatype alt_mode_state = ALT_MODE_NORMAL | ALT_MODE_ENTER | ALT_MODE_LEAVE

record gui_state = usb_remote +
  gui_mode :: "gui_handler_ref option"
  gui_osd_need_restore :: bool
  gui_mode_need_redraw :: bool
  state_gui_mode :: int
  state_gui_mode_none :: bool
  state_gui_mode_alt :: bool
  redraw_buttons :: bool
  gui_current_alt_state :: alt_mode_state
  gui_user_menu_flag :: bool
  conf_user_menu_enable :: int
  conf_alt_prevent_shutdown :: int
  conf_start_sound :: int

section \<open>Operations\<close>

definition gui_set_need_restore :: "'a gui_state_scheme \<Rightarrow> 'a gui_state_scheme" where
  "gui_set_need_restore s = s\<lparr>gui_osd_need_restore := True\<rparr>"

definition gui_cancel_need_restore :: "'a gui_state_scheme \<Rightarrow> 'a gui_state_scheme" where
  "gui_cancel_need_restore s = s\<lparr>gui_osd_need_restore := False, gui_mode_need_redraw := False\<rparr>"

definition gui_set_need_redraw :: "'a gui_state_scheme \<Rightarrow> 'a gui_state_scheme" where
  "gui_set_need_redraw s = s\<lparr>gui_mode_need_redraw := True\<rparr>"

text \<open>The copies in \<open>camera_info.state\<close>, set before the test for a change.\<close>

definition gui_set_state_mode :: "int \<Rightarrow> 'a gui_state_scheme \<Rightarrow> 'a gui_state_scheme" where
  "gui_set_state_mode m s =
     s\<lparr>state_gui_mode := m, state_gui_mode_none := (m = GUI_MODE_NONE),
       state_gui_mode_alt := (m = GUI_MODE_ALT)\<rparr>"

text \<open>The rest of \<open>gui_set_mode\<close>, from an old mode \<open>om\<close> to a new mode \<open>nm\<close>.\<close>

definition gui_switch ::
  "platform \<Rightarrow> 'b gui_code \<Rightarrow> gui_handler \<Rightarrow> gui_handler_ref \<Rightarrow> 'a gui_state_scheme \<Rightarrow>
   'a gui_state_scheme" where
  "gui_switch P G om mode s =
     (let nm = gui_struct G mode;
          s1 = (if cam_touchscreen_ui P \<and>
                   ((gh_mode om = GUI_MODE_NONE) \<noteq> (gh_mode nm = GUI_MODE_NONE) \<or>
                    (gh_mode om > GUI_MODE_MENU) \<noteq> (gh_mode nm > GUI_MODE_MENU))
                then s\<lparr>redraw_buttons := True\<rparr> else s);
          s2 = (ext_call SetUsermenuState s1)\<lparr>gui_mode := Some mode, gui_osd_need_restore := False\<rparr>;
          s3 = (if gh_flags nm AND
                     (GUI_MODE_FLAG_NODRAWRESTORE OR GUI_MODE_FLAG_NORESTORE_ON_SWITCH) = 0 \<and>
                   gh_flags om AND GUI_MODE_FLAG_NORESTORE_ON_SWITCH = 0
                then gui_set_need_restore s2 else s2);
          s4 = (if gh_flags om AND GUI_MODE_FLAG_NORESTORE_ON_SWITCH \<noteq> 0
                then gui_set_need_redraw s3 else s3)
      in if cam_disp_alt_text G \<and> state_gui_mode_alt s4 then ext_call GuiResetAltHelper s4 else s4)"

definition gui_set_mode ::
  "platform \<Rightarrow> 'b gui_code \<Rightarrow> gui_handler_ref \<Rightarrow> 'a gui_state_scheme \<Rightarrow>
   (gui_handler_ref option \<times> 'a gui_state_scheme) option" where
  "gui_set_mode P G mode s0 =
     (let s = gui_set_state_mode (gh_mode (gui_struct G mode)) s0
      in if gui_mode s = Some mode then Some (gui_mode s, s)
         else do {
           om \<leftarrow> gui_deref G (gui_mode s);
           Some (gui_mode s, gui_switch P G om mode s) })"

text \<open>As a statement, the result dropped.\<close>

definition gui_enter_mode ::
  "platform \<Rightarrow> 'b gui_code \<Rightarrow> gui_handler_ref \<Rightarrow> 'a gui_state_scheme \<Rightarrow> 'a gui_state_scheme option" where
  "gui_enter_mode P G mode s = map_option snd (gui_set_mode P G mode s)"

definition gui_init :: "platform \<Rightarrow> 'b gui_code \<Rightarrow> 'a gui_state_scheme \<Rightarrow> 'a gui_state_scheme option" where
  "gui_init P G s = do {
     s1 \<leftarrow> gui_enter_mode P G defaultGuiHandler s;
     let s2 = (if conf_start_sound s1 > 0 then ext_call (PlaySound 4) s1 else s1);
     Some (ext_call (ProcessFile ''A/CHDK/badpixel.txt'') (ext_call (ProcessFile ''A/CHDK/badpixel'')
            (ext_call DrawInit (ext_call InitSplash s2)))) }"

definition gui_get_mode :: "'b gui_code \<Rightarrow> 'a gui_state_scheme \<Rightarrow> int option" where
  "gui_get_mode G s = map_option gh_mode (gui_deref G (gui_mode s))"

text \<open>A timeslice of the keyboard task goes to the current handler.\<close>

definition gui_kbd_process ::
  "platform \<Rightarrow> ('a gui_state_scheme) gui_code \<Rightarrow> 'a gui_state_scheme \<Rightarrow>
   (int \<times> 'a gui_state_scheme) option" where
  "gui_kbd_process P G s =
     (case gui_mode s of
        None \<Rightarrow> Some (0, s)
      | Some h \<Rightarrow>
          (case kbd_process_menu_btn_fn G h of
             Some f \<Rightarrow>
               if kbd_is_key_clicked P (key_menu G) s then do { s1 \<leftarrow> f s; Some (0, s1) }
               else (case kbd_process_fn G h of Some g \<Rightarrow> g s | None \<Rightarrow> Some (0, s))
           | None \<Rightarrow> (case kbd_process_fn G h of Some g \<Rightarrow> g s | None \<Rightarrow> Some (0, s))))"

definition gui_touch_process ::
  "('a gui_state_scheme) gui_code \<Rightarrow> int \<Rightarrow> int \<Rightarrow> 'a gui_state_scheme \<Rightarrow>
   (int \<times> 'a gui_state_scheme) option" where
  "gui_touch_process G x y s =
     (case gui_mode s of
        None \<Rightarrow> Some (0, s)
      | Some h \<Rightarrow> (case touch_handler_fn G h of Some f \<Rightarrow> f x y s | None \<Rightarrow> Some (0, s)))"

text \<open>\<open>conf_update_prevent_shutdown\<close> of \<open>core/conf.c\<close>.\<close>

definition conf_update_prevent_shutdown :: "'a gui_state_scheme \<Rightarrow> 'a gui_state_scheme" where
  "conf_update_prevent_shutdown s =
     (if conf_alt_prevent_shutdown s = 3 \<or>
         (conf_alt_prevent_shutdown s = 1 \<and> \<not> state_gui_mode_none s) \<or>
         (conf_alt_prevent_shutdown s = 2 \<and> state_kbd_script_run s \<noteq> 0)
      then ext_call DisableShutdown s else ext_call EnableShutdown s)"

definition gui_set_alt_mode_state :: "alt_mode_state \<Rightarrow> 'a gui_state_scheme \<Rightarrow> 'a gui_state_scheme" where
  "gui_set_alt_mode_state st s = s\<lparr>gui_current_alt_state := st\<rparr>"

definition alt_mode_enter ::
  "platform \<Rightarrow> 'b gui_code \<Rightarrow> 'a gui_state_scheme \<Rightarrow> 'a gui_state_scheme option" where
  "alt_mode_enter P G s = do {
     s1 \<leftarrow> gui_enter_mode P G
            (if state_kbd_script_run s \<noteq> 0 then scriptGuiHandler else altGuiHandler) s;
     let s2 = (ext_call VidTurnOffUpdates (conf_update_prevent_shutdown s1))\<lparr>gui_user_menu_flag := False\<rparr>;
     if conf_user_menu_enable s2 = 2 \<and> state_kbd_script_run s2 = 0
     then do {
       s3 \<leftarrow> gui_enter_mode P G menuGuiHandler (ext_call (GuiMenuInit ''user_submenu'') s2);
       Some (s3\<lparr>gui_user_menu_flag := True\<rparr>) }
     else Some s2 }"

definition alt_mode_leave ::
  "platform \<Rightarrow> 'b gui_code \<Rightarrow> 'a gui_state_scheme \<Rightarrow> 'a gui_state_scheme option" where
  "alt_mode_leave P G s = do {
     s1 \<leftarrow> gui_enter_mode P G defaultGuiHandler
            (ext_call VidTurnOnUpdates (ext_call RbfSetCodepage
              (ext_call ModuleExitAlt (ext_call ConfSave s))));
     Some (conf_update_prevent_shutdown s1) }"

definition gui_activate_alt_mode ::
  "platform \<Rightarrow> 'b gui_code \<Rightarrow> 'a gui_state_scheme \<Rightarrow> 'a gui_state_scheme option" where
  "gui_activate_alt_mode P G s = do {
     s1 \<leftarrow> (case gui_current_alt_state s of
             ALT_MODE_ENTER \<Rightarrow> alt_mode_enter P G s
           | ALT_MODE_LEAVE \<Rightarrow> alt_mode_leave P G s
           | ALT_MODE_NORMAL \<Rightarrow> Some s);
     Some (s1\<lparr>gui_current_alt_state := ALT_MODE_NORMAL\<rparr>) }"

section \<open>The copies of the mode\<close>

text \<open>The copies in \<open>camera_info.state\<close> agree with the current handler.\<close>

definition gui_mode_ok :: "'b gui_code \<Rightarrow> 'a gui_state_scheme \<Rightarrow> bool" where
  "gui_mode_ok G s \<longleftrightarrow>
     (\<exists>h. gui_mode s = Some h \<and> state_gui_mode s = gh_mode (gui_struct G h) \<and>
          state_gui_mode_none s = (gh_mode (gui_struct G h) = GUI_MODE_NONE) \<and>
          state_gui_mode_alt s = (gh_mode (gui_struct G h) = GUI_MODE_ALT))"

text \<open>Everything a change of mode may touch: the fields of the record but for these are kept.\<close>

lemma if_update:
  fixes s :: "'a gui_state_scheme"
  shows "(if c then s\<lparr>redraw_buttons := b\<rparr> else s) =
           s\<lparr>redraw_buttons := (if c then b else redraw_buttons s)\<rparr>"
    "(if c then gui_set_need_restore s else s) =
           s\<lparr>gui_osd_need_restore := (c \<or> gui_osd_need_restore s)\<rparr>"
    "(if c then gui_set_need_redraw s else s) =
           s\<lparr>gui_mode_need_redraw := (c \<or> gui_mode_need_redraw s)\<rparr>"
    "(if c then ext_call e s else s) =
           s\<lparr>ext_calls := (if c then ext_calls s @ [e] else ext_calls s)\<rparr>"
  by (cases s; simp add: gui_set_need_restore_def gui_set_need_redraw_def ext_call_def)+

lemma gui_switch_form:
  "\<exists>c n d r. gui_switch P G om h s =
     s\<lparr>redraw_buttons := r, gui_mode := Some h, gui_osd_need_restore := n,
       gui_mode_need_redraw := d, ext_calls := c\<rparr>"
  unfolding gui_switch_def Let_def if_update
  by (simp add: ext_call_def split del: if_split) (intro exI, rule refl)

lemma gui_state_id:
  "s = s\<lparr>redraw_buttons := redraw_buttons s, gui_mode := gui_mode s,
         gui_osd_need_restore := gui_osd_need_restore s, gui_mode_need_redraw := gui_mode_need_redraw s,
         ext_calls := ext_calls s\<rparr>"
  by (cases s) simp

lemma gui_enter_mode_form:
  assumes "gui_mode s \<noteq> None"
  obtains c n d r where
    "gui_enter_mode P G h s = Some (s\<lparr>state_gui_mode := gh_mode (gui_struct G h),
       state_gui_mode_none := (gh_mode (gui_struct G h) = GUI_MODE_NONE),
       state_gui_mode_alt := (gh_mode (gui_struct G h) = GUI_MODE_ALT), redraw_buttons := r,
       gui_mode := Some h, gui_osd_need_restore := n, gui_mode_need_redraw := d, ext_calls := c\<rparr>)"
proof -
  obtain g where g: "gui_mode s = Some g" using assms by blast
  let ?s = "gui_set_state_mode (gh_mode (gui_struct G h)) s"
  have "\<exists>c n d r. gui_enter_mode P G h s = Some (?s\<lparr>redraw_buttons := r, gui_mode := Some h,
          gui_osd_need_restore := n, gui_mode_need_redraw := d, ext_calls := c\<rparr>)"
  proof (cases "g = h")
    case True
    have e: "gui_mode ?s = Some h" using True g by (simp add: gui_set_state_mode_def)
    then have "gui_enter_mode P G h s = Some ?s"
      by (simp add: gui_enter_mode_def gui_set_mode_def Let_def)
    then show ?thesis using gui_state_id [of ?s] e by metis
  next
    case False
    have "gui_mode ?s = Some g" using g by (simp add: gui_set_state_mode_def)
    then have "gui_enter_mode P G h s = Some (gui_switch P G (gui_struct G g) h ?s)"
      using False by (simp add: gui_enter_mode_def gui_set_mode_def gui_deref_def Let_def)
    then show ?thesis using gui_switch_form [of P G "gui_struct G g" h ?s] by metis
  qed
  then obtain c n d r where "gui_enter_mode P G h s = Some (?s\<lparr>redraw_buttons := r, gui_mode := Some h,
          gui_osd_need_restore := n, gui_mode_need_redraw := d, ext_calls := c\<rparr>)" by blast
  then show ?thesis by (intro that) (simp add: gui_set_state_mode_def)
qed

lemma gui_set_mode_old: "gui_set_mode P G h s = Some (r, t) \<Longrightarrow> r = gui_mode s"
  by (auto simp: gui_set_mode_def gui_set_state_mode_def Let_def split: if_splits bind_splits)

lemma gui_set_mode_enter:
  "gui_mode s \<noteq> None \<Longrightarrow> gui_enter_mode P G h s = Some t \<Longrightarrow> gui_set_mode P G h s = Some (gui_mode s, t)"
  by (cases "gui_set_mode P G h s") (auto simp: gui_enter_mode_def dest: gui_set_mode_old)

lemma gui_enter_mode_ok:
  assumes "gui_mode s \<noteq> None" and "gui_enter_mode P G h s = Some t"
  shows "gui_mode_ok G t \<and> gui_mode t = Some h"
proof (rule gui_enter_mode_form [OF assms(1), of P G h])
  fix c n d r
  assume "gui_enter_mode P G h s = Some (s\<lparr>state_gui_mode := gh_mode (gui_struct G h),
       state_gui_mode_none := (gh_mode (gui_struct G h) = GUI_MODE_NONE),
       state_gui_mode_alt := (gh_mode (gui_struct G h) = GUI_MODE_ALT), redraw_buttons := r,
       gui_mode := Some h, gui_osd_need_restore := n, gui_mode_need_redraw := d, ext_calls := c\<rparr>)"
  with assms(2) show ?thesis by (auto simp: gui_mode_ok_def)
qed

lemma gui_mode_ok_set: "gui_mode_ok G s \<Longrightarrow> gui_mode s \<noteq> None"
  by (auto simp: gui_mode_ok_def)

end
