(* ===== verification/Console.thy ===== *)
theory Console
  imports GuiMode
begin

text \<open>
  \<open>core/console.c\<close>: the ring of the last 30 console lines, the breaking of added text into lines of
  the console's width, the layout set by scripts, drawing, and the viewer mode that scrolls
  through the ring. A line is the string up to its NUL; a line buffer holds 44 characters, and a
  write past it or past the ring has no result. What the drawing routines are called with is
  logged. The lemmas show that the ring is the list of the last 30 lines added, that drawing shows
  its newest lines, and that no access leaves the buffers.
\<close>

section \<open>State\<close>

definition FONT_WIDTH :: int where "FONT_WIDTH = 8"
definition FONT_HEIGHT :: int where "FONT_HEIGHT = 16"
definition MAX_CONSOLE_HISTORY :: int where "MAX_CONSOLE_HISTORY = 30"
definition MAX_CONSOLE_LINE_LENGTH :: int where "MAX_CONSOLE_LINE_LENGTH = 44"
definition MAX_CONSOLE_DISP_LINES :: int where "MAX_CONSOLE_DISP_LINES = 12"
definition JOGDIAL_LEFT :: int where "JOGDIAL_LEFT = 100"
definition JOGDIAL_RIGHT :: int where "JOGDIAL_RIGHT = 101"

lemmas console_consts = FONT_WIDTH_def FONT_HEIGHT_def MAX_CONSOLE_HISTORY_def
  MAX_CONSOLE_LINE_LENGTH_def MAX_CONSOLE_DISP_LINES_def JOGDIAL_LEFT_def JOGDIAL_RIGHT_def

record console = gui_state +
  console_buf :: "string list"
  console_max_lines :: int
  console_num_lines :: int
  console_cur_line :: int
  console_line_length :: int
  console_x :: int
  console_y :: int
  console_autoredraw :: int
  console_last_modified :: u32
  console_displayed :: bool
  gui_console_mode_old :: "gui_handler_ref option"
  console_redraw_flag :: bool
  console_scroll :: int
  conf_console_timeout :: int
  screen_width :: int
  screen_height :: int
  screen_disp_left :: int
  jogdial_direction_in :: int

definition MAX_CONSOLE_LINES :: "'a console_scheme \<Rightarrow> int" where
  "MAX_CONSOLE_LINES s = screen_height s div FONT_HEIGHT - 1"

text \<open>Reading and writing a line of the ring.\<close>

definition console_get :: "int \<Rightarrow> 'a console_scheme \<Rightarrow> string option" where
  "console_get i s = (if 0 \<le> i \<and> i < MAX_CONSOLE_HISTORY then Some (console_buf s ! nat i) else None)"

definition console_put :: "int \<Rightarrow> string \<Rightarrow> 'a console_scheme \<Rightarrow> 'a console_scheme option" where
  "console_put i l s =
     (if 0 \<le> i \<and> i < MAX_CONSOLE_HISTORY \<and> int (length l) \<le> MAX_CONSOLE_LINE_LENGTH
      then Some (s\<lparr>console_buf := (console_buf s)[nat i := l]\<rparr>) else None)"

section \<open>Operations\<close>

definition console_init :: "int \<Rightarrow> int \<Rightarrow> int \<Rightarrow> int \<Rightarrow> 'a console_scheme \<Rightarrow> 'a console_scheme" where
  "console_init num_lines line_length x_pos y_pos s =
     s\<lparr>console_max_lines := num_lines, console_line_length := line_length, console_y := y_pos,
       console_x := x_pos, console_num_lines := 0, console_last_modified := 0\<rparr>"

definition console_is_inited :: "'a console_scheme \<Rightarrow> bool" where
  "console_is_inited s \<longleftrightarrow> console_line_length s > 0"

definition console_ensure_inited :: "'a console_scheme \<Rightarrow> 'a console_scheme" where
  "console_ensure_inited s =
     (if \<not> console_is_inited s then console_init 5 25 0 (MAX_CONSOLE_LINES s - 5) s else s)"

definition console_start_line :: "'a console_scheme \<Rightarrow> 'a console_scheme option" where
  "console_start_line s =
     (let s1 = (if console_num_lines s < console_max_lines s
                then s\<lparr>console_num_lines := console_num_lines s + 1\<rparr> else s);
          c = console_cur_line s1 + 1;
          s2 = s1\<lparr>console_cur_line := (if c \<ge> MAX_CONSOLE_HISTORY then 0 else c)\<rparr>
      in console_put (console_cur_line s2) [] s2)"

definition console_close :: "'a console_scheme \<Rightarrow> 'a console_scheme" where
  "console_close s = s\<lparr>console_line_length := 0, console_autoredraw := 1\<rparr>"

definition console_redraw :: "'a console_scheme \<Rightarrow> 'a console_scheme" where
  "console_redraw s =
     (gui_set_need_restore s)\<lparr>console_displayed := False, console_last_modified := tick_count s\<rparr>"

definition console_clear :: "'a console_scheme \<Rightarrow> 'a console_scheme" where
  "console_clear s =
     (let s1 = s\<lparr>console_num_lines := 0\<rparr>
      in if console_autoredraw s1 \<noteq> 0 then console_redraw s1 else s1)"

text \<open>
  The loop of \<open>console_draw\<close> over \<open>n\<close> more lines, at line \<open>c\<close> from the bottom and index \<open>i\<close>. The
  copy into the local buffer cuts the line at the console's width.
\<close>

fun console_draw_lines ::
  "nat \<Rightarrow> int \<Rightarrow> int \<Rightarrow> int \<Rightarrow> int \<Rightarrow> 'a console_scheme \<Rightarrow> 'a console_scheme option" where
  "console_draw_lines 0 c i x y s = Some s"
| "console_draw_lines (Suc n) c i x y s =
     (let i' = (if i < 0 then MAX_CONSOLE_HISTORY - 1 else i) in
      if 0 \<le> console_line_length s \<and> console_line_length s \<le> MAX_CONSOLE_LINE_LENGTH
      then do {
        l \<leftarrow> console_get i' s;
        let s1 = ext_call (DrawString x (y - c * FONT_HEIGHT) (take (nat (console_line_length s)) l)
                   (console_line_length s * FONT_WIDTH)) s;
        console_draw_lines n (c + 1) (i' - 1) x y (s1\<lparr>console_displayed := True\<rparr>) }
      else None)"

definition console_draw :: "bool \<Rightarrow> 'a console_scheme \<Rightarrow> 'a console_scheme option" where
  "console_draw force_redraw s0 =
     (let s = console_ensure_inited s0 in
      if tick_count s \<le>s console_last_modified s + word_of_int (conf_console_timeout s * 1000)
      then if \<not> console_displayed s \<or> force_redraw
           then console_draw_lines (nat (console_num_lines s)) 0 (console_cur_line s)
                  (console_x s * FONT_WIDTH + screen_disp_left s)
                  ((console_y s + console_max_lines s - 1) * FONT_HEIGHT) s
           else Some s
      else if console_displayed s \<and> state_kbd_script_run s = 0
      then Some ((gui_set_need_restore s)\<lparr>console_displayed := False\<rparr>)
      else Some s)"

text \<open>The \<open>do\<close> loop of \<open>console_add_line\<close>; \<open>strlen(str) > left\<close> compares unsigned.\<close>

partial_function (option) console_add_loop ::
  "string \<Rightarrow> 'a console_scheme \<Rightarrow> 'a console_scheme option" where
  "console_add_loop str s =
     do {
       cur \<leftarrow> console_get (console_cur_line s) s;
       let left = console_line_length s - int (length cur);
       (if int (length str) > left mod 2 ^ 32
        then do {
          s1 \<leftarrow> console_put (console_cur_line s) (cur @ take (nat left) str) s;
          s2 \<leftarrow> console_start_line s1;
          console_add_loop (drop (nat left) str) s2 }
        else console_put (console_cur_line s) (cur @ str) s) }"

definition console_add_line :: "string \<Rightarrow> 'a console_scheme \<Rightarrow> 'a console_scheme option" where
  "console_add_line str s =
     (if console_autoredraw s = -1 then Some s
      else do {
        s1 \<leftarrow> console_start_line (console_ensure_inited s);
        s2 \<leftarrow> console_add_loop str s1;
        Some (s2\<lparr>console_displayed := False, console_last_modified := tick_count s2\<rparr>) })"

definition limit :: "int \<Rightarrow> int \<Rightarrow> int" where
  "limit m v = (let v1 = (if v < 0 then 0 else v) in if v1 > m then m else v1)"

definition console_set_layout ::
  "int \<Rightarrow> int \<Rightarrow> int \<Rightarrow> int \<Rightarrow> 'a console_scheme \<Rightarrow> 'a console_scheme" where
  "console_set_layout xa ya xb yb s =
     (let (x1, x2) = (if xa > xb then (xb, xa) else (xa, xb));
          (y1, y2) = (if ya > yb then (yb, ya) else (ya, yb));
          x1 = limit MAX_CONSOLE_LINE_LENGTH x1; x2 = limit MAX_CONSOLE_LINE_LENGTH x2;
          y1 = limit (MAX_CONSOLE_LINES s) y1; y2 = limit (MAX_CONSOLE_LINES s) y2;
          s1 = s\<lparr>console_line_length := x2 - x1, console_max_lines := y2 - y1\<rparr>;
          s2 = (if console_num_lines s1 > console_max_lines s1
                then s1\<lparr>console_num_lines := console_max_lines s1\<rparr> else s1);
          s3 = s2\<lparr>console_x := x1, console_y := MAX_CONSOLE_LINES s - y2\<rparr>
      in if console_autoredraw s3 \<noteq> 0 then console_redraw s3 else s3)"

definition console_set_autoredraw :: "int \<Rightarrow> 'a console_scheme \<Rightarrow> 'a console_scheme" where
  "console_set_autoredraw val s = s\<lparr>console_autoredraw := val\<rparr>"

section \<open>The viewer mode\<close>

definition display_console ::
  "platform \<Rightarrow> 'b gui_code \<Rightarrow> 'a console_scheme \<Rightarrow> 'a console_scheme option" where
  "display_console P G s = do {
     (old, s1) \<leftarrow> gui_set_mode P G mboxGuiHandler (s\<lparr>console_redraw_flag := True, console_scroll := 0\<rparr>);
     Some (s1\<lparr>gui_console_mode_old := old\<rparr>) }"

text \<open>The lines from the bottom up; \<open>n\<close> is \<open>c + 1\<close>.\<close>

fun console_view_lines :: "nat \<Rightarrow> int \<Rightarrow> int \<Rightarrow> int \<Rightarrow> 'a console_scheme \<Rightarrow> 'a console_scheme option" where
  "console_view_lines 0 i x y s = Some s"
| "console_view_lines (Suc n) i x y s =
     (let i' = (if i < 0 then i + MAX_CONSOLE_HISTORY else i) in
      do {
        l \<leftarrow> console_get i' s;
        console_view_lines n (i' - 1) x y
          (ext_call (DrawString (x - 1) (y + int n * FONT_HEIGHT) l
             (MAX_CONSOLE_LINE_LENGTH * FONT_WIDTH)) s) })"

definition gui_console_draw :: "'a console_scheme \<Rightarrow> 'a console_scheme option" where
  "gui_console_draw s =
     (if console_redraw_flag s
      then
        let w = MAX_CONSOLE_LINE_LENGTH;
            h = MAX_CONSOLE_DISP_LINES;
            x = (screen_width s - w * FONT_WIDTH) div 2;
            y = (screen_height s - (h + 1) * FONT_HEIGHT) div 2;
            s1 = ext_call (DrawRectangle (x - 3) (y - 3) (x + w * FONT_WIDTH + 3)
                   (y + (h + 1) * FONT_HEIGHT + 2)) s;
            s2 = ext_call (DrawRectangle (x - 2) (y - 2) (x + w * FONT_WIDTH + 2) (y + FONT_HEIGHT + 1)) s1;
            s3 = ext_call (DrawString x y ''Console - press SET to close'' (w * FONT_WIDTH)) s2;
            y' = y + FONT_HEIGHT + 2
        in do {
          s4 \<leftarrow> console_view_lines (nat h) (console_cur_line s3 - console_scroll s3) x y' s3;
          let s5 = ext_call (DrawRectangle (x + w * FONT_WIDTH)
                     (y' + ((MAX_CONSOLE_HISTORY - console_scroll s4 - h) * (h * FONT_HEIGHT)) div MAX_CONSOLE_HISTORY)
                     (x + w * FONT_WIDTH + 2)
                     (y' + ((MAX_CONSOLE_HISTORY - console_scroll s4) * (h * FONT_HEIGHT)) div MAX_CONSOLE_HISTORY - 1)) s4;
          Some (s5\<lparr>console_redraw_flag := False\<rparr>) }
      else Some s)"

definition gui_console_kbd_process ::
  "platform \<Rightarrow> 'b gui_code \<Rightarrow> 'a console_scheme \<Rightarrow> (int \<times> 'a console_scheme) option" where
  "gui_console_kbd_process P G s =
     (let k = kbd_get_clicked_key P s OR jogdial_direction_in s in
      if k = JOGDIAL_LEFT \<or> k = KEY_UP then
        Some (0, if console_scroll s < MAX_CONSOLE_HISTORY - MAX_CONSOLE_DISP_LINES
                 then s\<lparr>console_scroll := console_scroll s + 1, console_redraw_flag := True\<rparr> else s)
      else if k = JOGDIAL_RIGHT \<or> k = KEY_DOWN then
        Some (0, if console_scroll s > 0
                 then s\<lparr>console_scroll := console_scroll s - 1, console_redraw_flag := True\<rparr> else s)
      else if k = KEY_SET then
        (case gui_console_mode_old s of
           None \<Rightarrow> None
         | Some h \<Rightarrow> map_option (Pair 0) (gui_enter_mode P G h s))
      else Some (0, s))"

section \<open>The ring as a list of lines\<close>

definition console_ok :: "'a console_scheme \<Rightarrow> bool" where
  "console_ok s \<longleftrightarrow> length (console_buf s) = 30 \<and> list_all (\<lambda>l. length l \<le> 44) (console_buf s) \<and>
     0 \<le> console_cur_line s \<and> console_cur_line s < 30 \<and>
     0 \<le> console_line_length s \<and> console_line_length s \<le> 44 \<and>
     0 \<le> console_num_lines s \<and> console_num_lines s \<le> console_max_lines s \<and>
     console_max_lines s \<le> 30 \<and> 0 \<le> console_scroll s \<and> console_scroll s \<le> 18 \<and>
     0 \<le> MAX_CONSOLE_LINES s \<and> MAX_CONSOLE_LINES s \<le> 30"

text \<open>The lines of the ring, the newest first.\<close>

definition history :: "'a console_scheme \<Rightarrow> string list" where
  "history s = map (\<lambda>k. console_buf s ! nat ((console_cur_line s - int k) mod 30)) [0..<30]"

text \<open>A string as lines of width \<open>L\<close>, the first line first.\<close>

function wrap :: "nat \<Rightarrow> string \<Rightarrow> string list" where
  "wrap L s = (if length s \<le> L \<or> L = 0 then [s] else take L s # wrap L (drop L s))"
  by pat_completeness auto
termination by (relation "measure (length \<circ> snd)") auto

declare wrap.simps [simp del]

lemma concat_wrap: "concat (wrap L s) = s"
  by (induction L s rule: wrap.induct) (subst wrap.simps, auto)

lemma wrap_width: "0 < L \<Longrightarrow> l \<in> set (wrap L s) \<Longrightarrow> length l \<le> L"
proof (induction L s rule: wrap.induct)
  case (1 L s)
  show ?case
  proof (cases "length s \<le> L")
    case False
    with 1 show ?thesis by (subst (asm) (2) wrap.simps) auto
  qed (use 1 in \<open>subst (asm) (2) wrap.simps, auto\<close>)
qed

lemma wrap_nonempty [simp]: "wrap L s \<noteq> []"
  by (subst wrap.simps) simp

lemma length_history [simp]: "length (history s) = 30"
  by (simp add: history_def)

lemma nth_history:
  "k < 30 \<Longrightarrow> history s ! k = console_buf s ! nat ((console_cur_line s - int k) mod 30)"
  by (simp add: history_def)

lemma mod_ring_other:
  assumes "0 \<le> c" and "c < 30" and "0 < j" and "j < 30"
  shows "nat ((c - j) mod 30) \<noteq> nat (c :: int)"
proof (cases "j \<le> c")
  case True
  then have "(c - j) mod 30 = c - j" using assms by (intro mod_pos_pos_trivial) auto
  with assms True show ?thesis by (simp add: nat_eq_iff)
next
  case False
  have "(c - j) mod 30 = (c - j + 30) mod 30" by simp
  also have "\<dots> = c - j + 30" using assms False by (intro mod_pos_pos_trivial) auto
  finally show ?thesis using assms False by (simp add: nat_eq_iff)
qed

lemma history_update_cur:
  assumes "console_ok s" and "console_buf t = (console_buf s)[nat (console_cur_line s) := l]"
    and "console_cur_line t = console_cur_line s"
  shows "history t = l # tl (history s)"
proof (rule nth_equalityI)
  fix k assume k: "k < length (history t)"
  let ?c = "console_cur_line s"
  have c: "0 \<le> ?c" "?c < 30" "length (console_buf s) = 30" using assms(1) by (auto simp: console_ok_def)
  show "history t ! k = (l # tl (history s)) ! k"
  proof (cases k)
    case 0
    then show ?thesis using c by (simp add: nth_history assms)
  next
    case (Suc j)
    with k have j: "j < 29" by simp
    then have "nat ((?c - int (Suc j)) mod 30) \<noteq> nat ?c" using c by (intro mod_ring_other) auto
    with j Suc show ?thesis by (simp add: nth_history assms nth_tl)
  qed
qed simp

lemma history_start:
  assumes "console_ok s"
    and "console_cur_line t = (if console_cur_line s + 1 \<ge> 30 then 0 else console_cur_line s + 1)"
    and "console_buf t = (console_buf s)[nat (console_cur_line t) := l]"
  shows "history t = l # butlast (history s)"
proof (rule nth_equalityI)
  fix k assume k: "k < length (history t)"
  let ?c = "console_cur_line s" let ?d = "console_cur_line t"
  have c: "0 \<le> ?c" "?c < 30" "length (console_buf s) = 30" using assms(1) by (auto simp: console_ok_def)
  have d: "0 \<le> ?d" "?d < 30" and dm: "?d mod 30 = (?c + 1) mod 30"
    using c by (cases "?c = 29"; simp add: assms(2))+
  show "history t ! k = (l # butlast (history s)) ! k"
  proof (cases k)
    case 0
    then show ?thesis using c d by (simp add: nth_history assms(3))
  next
    case (Suc j)
    with k have j: "j < 29" by simp
    have e: "(?d - int (Suc j)) mod 30 = (?c - int j) mod 30"
    proof -
      have "(?d - int (Suc j)) mod 30 = (?d mod 30 - int (Suc j)) mod 30" by (simp add: mod_diff_left_eq)
      also have "\<dots> = (?c + 1 - int (Suc j)) mod 30" unfolding dm by (simp add: mod_diff_left_eq)
      finally show ?thesis by simp
    qed
    have "nat ((?d - int (Suc j)) mod 30) \<noteq> nat ?d" using d j by (intro mod_ring_other) auto
    with j Suc e show ?thesis by (simp add: nth_history assms(3) nth_butlast)
  qed
qed simp

section \<open>Adding lines\<close>

text \<open>Only the ring changes.\<close>

definition ring_only :: "'a console_scheme \<Rightarrow> 'a console_scheme \<Rightarrow> bool" where
  "ring_only s t \<longleftrightarrow> t = s\<lparr>console_buf := console_buf t, console_num_lines := console_num_lines t,
                            console_cur_line := console_cur_line t\<rparr>"

lemma ring_onlyI: "t = s\<lparr>console_buf := b, console_num_lines := n, console_cur_line := c\<rparr> \<Longrightarrow> ring_only s t"
  by (cases s) (simp add: ring_only_def)

lemma ring_onlyE:
  assumes "ring_only s t"
  obtains b n c where "t = s\<lparr>console_buf := b, console_num_lines := n, console_cur_line := c\<rparr>"
  using assms that unfolding ring_only_def by blast

lemma ring_only_trans [trans]: "ring_only s t \<Longrightarrow> ring_only t u \<Longrightarrow> ring_only s u"
  by (elim ring_onlyE, rule ring_onlyI) simp

lemma ring_only_keeps:
  assumes "ring_only s t"
  shows "console_line_length t = console_line_length s" "console_max_lines t = console_max_lines s"
    "console_x t = console_x s" "console_y t = console_y s" "tick_count t = tick_count s"
    "console_autoredraw t = console_autoredraw s" "screen_disp_left t = screen_disp_left s"
    "conf_console_timeout t = conf_console_timeout s" "ext_calls t = ext_calls s"
  using assms by (auto elim: ring_onlyE)

lemma console_put_cur:
  assumes "console_ok s" and "length l \<le> 44"
  obtains t where "console_put (console_cur_line s) l s = Some t" and "console_ok t" and "ring_only s t"
    and "history t = l # tl (history s)" and "console_num_lines t = console_num_lines s"
proof -
  let ?t = "s\<lparr>console_buf := (console_buf s)[nat (console_cur_line s) := l]\<rparr>"
  have "list_all (\<lambda>l. length l \<le> 44) ((console_buf s)[nat (console_cur_line s) := l])"
    using assms set_update_subset_insert [of "console_buf s" "nat (console_cur_line s)" l]
    by (auto simp: console_ok_def list_all_iff)
  then have "console_ok ?t" using assms by (simp add: console_ok_def MAX_CONSOLE_LINES_def)
  moreover have "console_put (console_cur_line s) l s = Some ?t"
    using assms by (simp add: console_put_def console_ok_def console_consts)
  moreover have "ring_only s ?t" by (cases s) (simp add: ring_only_def)
  moreover have "history ?t = l # tl (history s)" by (rule history_update_cur [OF assms(1)]) simp_all
  ultimately show ?thesis by (intro that [of ?t]) simp_all
qed

lemma console_start_line_ok:
  assumes "console_ok s"
  obtains t where "console_start_line s = Some t" and "console_ok t" and "ring_only s t"
    and "history t = [] # butlast (history s)"
    and "console_num_lines t = min (console_max_lines s) (console_num_lines s + 1)"
proof -
  let ?c = "if console_cur_line s + 1 \<ge> 30 then 0 else console_cur_line s + 1"
  let ?n = "min (console_max_lines s) (console_num_lines s + 1)"
  let ?t = "s\<lparr>console_num_lines := ?n, console_cur_line := ?c, console_buf := (console_buf s)[nat ?c := []]\<rparr>"
  have num: "(if console_num_lines s < console_max_lines s
        then s\<lparr>console_num_lines := console_num_lines s + 1\<rparr> else s) = s\<lparr>console_num_lines := ?n\<rparr>"
    using assms by (cases s) (auto simp: console_ok_def min_def)
  have "list_all (\<lambda>l. length l \<le> 44) ((console_buf s)[nat ?c := []])"
    using assms set_update_subset_insert [of "console_buf s" "nat ?c" "[]"]
    by (auto simp: console_ok_def list_all_iff)
  then have "console_ok ?t" using assms by (simp add: console_ok_def MAX_CONSOLE_LINES_def)
  moreover have "console_start_line s = Some ?t"
    using assms unfolding console_start_line_def num
    by (simp add: Let_def console_put_def console_ok_def console_consts)
  moreover have "ring_only s ?t" by (cases s) (simp add: ring_only_def)
  moreover have "history ?t = [] # butlast (history s)" by (rule history_start [OF assms]) simp_all
  ultimately show ?thesis by (intro that [of ?t]) simp_all
qed

lemma history_hd: "console_ok s \<Longrightarrow> console_get (console_cur_line s) s = Some (hd (history s))"
  by (simp add: console_get_def console_ok_def console_consts hd_conv_nth nth_history flip: length_0_conv)

lemma console_add_loop_wraps:
  assumes "console_ok s" and "console_line_length s = int L" and "0 < L" and "hd (history s) = []"
  shows "\<exists>t. console_add_loop str s = Some t \<and> console_ok t \<and> ring_only s t \<and>
     history t = take 30 (rev (wrap L str) @ tl (history s)) \<and>
     console_num_lines t = min (console_max_lines s) (console_num_lines s + int (length (wrap L str)) - 1)"
  using assms
proof (induction L str arbitrary: s rule: wrap.induct)
  case (1 L str)
  have L44: "L \<le> 44" using "1.prems"(1,2) by (simp add: console_ok_def)
  have get: "console_get (console_cur_line s) s = Some []"
    using history_hd [OF "1.prems"(1)] "1.prems"(4) by simp
  have left: "int L mod 2 ^ 32 = int L" using L44 by simp
  have tl29: "length (tl (history s)) = 29" by simp
  show ?case
  proof (cases "length str \<le> L")
    case True
    with L44 have "length str \<le> 44" by simp
    then obtain t where t: "console_put (console_cur_line s) str s = Some t" "console_ok t" "ring_only s t"
      "history t = str # tl (history s)" "console_num_lines t = console_num_lines s"
      by (rule console_put_cur [OF "1.prems"(1)])
    have "console_add_loop str s = Some t"
      using t(1) get "1.prems"(2) True left by (subst console_add_loop.simps) simp
    moreover have "wrap L str = [str]" using True by (subst wrap.simps) simp
    moreover have "console_num_lines s \<le> console_max_lines s" using "1.prems"(1) by (simp add: console_ok_def)
    ultimately show ?thesis using t tl29 by (simp add: min_def)
  next
    case False
    let ?l = "take L str"
    have "length ?l \<le> 44" using L44 by simp
    then obtain s1 where s1: "console_put (console_cur_line s) ?l s = Some s1" "console_ok s1"
      "ring_only s s1" "history s1 = ?l # tl (history s)" "console_num_lines s1 = console_num_lines s"
      by (rule console_put_cur [OF "1.prems"(1)])
    obtain s2 where s2: "console_start_line s1 = Some s2" "console_ok s2" "ring_only s1 s2"
      "history s2 = [] # butlast (history s1)"
      "console_num_lines s2 = min (console_max_lines s1) (console_num_lines s1 + 1)"
      by (rule console_start_line_ok [OF s1(2)])
    have k: "console_line_length s2 = int L" "console_max_lines s2 = console_max_lines s"
      using ring_only_keeps [OF s1(3)] ring_only_keeps [OF s2(3)] "1.prems"(2) by simp_all
    obtain t where t: "console_add_loop (drop L str) s2 = Some t" "console_ok t" "ring_only s2 t"
      "history t = take 30 (rev (wrap L (drop L str)) @ tl (history s2))"
      "console_num_lines t = min (console_max_lines s2) (console_num_lines s2 + int (length (wrap L (drop L str))) - 1)"
      using "1.IH" [OF _ s2(2) k(1) "1.prems"(3)] False "1.prems"(3) s2(4) by auto
    have w: "wrap L str = ?l # wrap L (drop L str)" using False "1.prems"(3) by (subst wrap.simps) simp
    have "console_add_loop str s = Some t"
      using t(1) get s1(1) s2(1) "1.prems"(2) False left by (subst console_add_loop.simps) simp
    moreover have "ring_only s t" using s1(3) s2(3) t(3) by (blast intro: ring_only_trans)
    moreover have "history t = take 30 (rev (wrap L str) @ tl (history s))"
    proof -
      have tl2: "tl (history s2) = take 29 (?l # tl (history s))"
        using tl29 by (simp add: s2(4) s1(4) butlast_conv_take)
      have cut: "take 30 (r @ take 29 m) = take 30 (r @ m)" if "r \<noteq> []" for r m :: "string list"
        using that by (cases r) (simp_all add: min_def)
      have "history t = take 30 (rev (wrap L (drop L str)) @ ?l # tl (history s))"
        unfolding t(4) tl2 by (rule cut) simp
      then show ?thesis by (simp add: w)
    qed
    moreover have "console_num_lines t =
        min (console_max_lines s) (console_num_lines s + int (length (wrap L str)) - 1)"
      using t(5) s2(5) s1(5) k(2) ring_only_keeps(2) [OF s1(3)]
      by (simp add: w min_def) (use wrap_nonempty [of L "drop L str"] in \<open>cases "wrap L (drop L str)"; auto\<close>)
    ultimately show ?thesis using t(2) by blast
  qed
qed

lemma console_ensure_inited_ok:
  "console_ok s \<Longrightarrow> console_ok (console_ensure_inited s) \<and> 0 < console_line_length (console_ensure_inited s)"
  by (simp add: console_ensure_inited_def console_is_inited_def console_init_def console_ok_def
      MAX_CONSOLE_LINES_def)

lemma history_cong:
  "console_buf t = console_buf s \<Longrightarrow> console_cur_line t = console_cur_line s \<Longrightarrow> history t = history s"
  by (simp add: history_def)

lemma history_ensure_inited [simp]: "history (console_ensure_inited s) = history s"
  by (rule history_cong) (simp_all add: console_ensure_inited_def console_init_def)

text \<open>The width, the height and the number of lines after initialization.\<close>

definition eff_width :: "'a console_scheme \<Rightarrow> nat" where
  "eff_width s = (if console_is_inited s then nat (console_line_length s) else 25)"

definition eff_lines :: "'a console_scheme \<Rightarrow> int" where
  "eff_lines s = (if console_is_inited s then console_max_lines s else 5)"

definition eff_num :: "'a console_scheme \<Rightarrow> int" where
  "eff_num s = (if console_is_inited s then console_num_lines s else 0)"

lemmas eff_defs = eff_width_def eff_lines_def eff_num_def

lemma ensure_inited_eff:
  "int (eff_width s) = console_line_length (console_ensure_inited s)"
  "eff_lines s = console_max_lines (console_ensure_inited s)"
  "eff_num s = console_num_lines (console_ensure_inited s)"
  by (auto simp: eff_defs console_ensure_inited_def console_init_def console_is_inited_def)

lemma add_line_refines:
  assumes ok: "console_ok s" and on: "console_autoredraw s \<noteq> -1"
  shows "\<exists>t. console_add_line str s = Some t \<and> console_ok t \<and>
     (\<exists>b n c. t = (console_ensure_inited s)\<lparr>console_buf := b, console_num_lines := n,
        console_cur_line := c, console_displayed := False, console_last_modified := tick_count s\<rparr>) \<and>
     history t = take 30 (rev (wrap (eff_width s) str) @ history s) \<and>
     console_num_lines t = min (eff_lines s) (eff_num s + int (length (wrap (eff_width s) str)))"
proof -
  let ?i = "console_ensure_inited s"
  let ?w = "wrap (eff_width s) str"
  note i = console_ensure_inited_ok [OF ok]
  obtain s1 where s1: "console_start_line ?i = Some s1" "console_ok s1" "ring_only ?i s1"
    "history s1 = [] # butlast (history ?i)"
    "console_num_lines s1 = min (console_max_lines ?i) (console_num_lines ?i + 1)"
    using console_start_line_ok [OF conjunct1 [OF i]] by metis
  have "console_line_length s1 = int (eff_width s)"
    using ring_only_keeps(1) [OF s1(3)] ensure_inited_eff(1) [of s] by simp
  moreover have "0 < eff_width s" using i ensure_inited_eff(1) [of s] by simp
  moreover have "hd (history s1) = []" using s1(4) by simp
  ultimately obtain s2 where s2: "console_add_loop str s1 = Some s2" "console_ok s2" "ring_only s1 s2"
    "history s2 = take 30 (rev ?w @ tl (history s1))"
    "console_num_lines s2 = min (console_max_lines s1) (console_num_lines s1 + int (length ?w) - 1)"
    using console_add_loop_wraps [OF s1(2)] by metis
  let ?t = "s2\<lparr>console_displayed := False, console_last_modified := tick_count s2\<rparr>"
  have r: "ring_only ?i s2" using s1(3) s2(3) by (rule ring_only_trans)
  then have tick: "tick_count s2 = tick_count s"
    using ring_only_keeps(5) [OF r] by (simp add: console_ensure_inited_def console_init_def)
  have "console_add_line str s = Some ?t" using on s1(1) s2(1) by (simp add: console_add_line_def)
  moreover have "console_ok ?t" using s2(2) by (simp add: console_ok_def MAX_CONSOLE_LINES_def)
  moreover have "\<exists>b n c. ?t = ?i\<lparr>console_buf := b, console_num_lines := n,
        console_cur_line := c, console_displayed := False, console_last_modified := tick_count s\<rparr>"
  proof -
    obtain b n c where "s2 = ?i\<lparr>console_buf := b, console_num_lines := n, console_cur_line := c\<rparr>"
      using r by (rule ring_onlyE)
    then have "?t = ?i\<lparr>console_buf := b, console_num_lines := n,
        console_cur_line := c, console_displayed := False, console_last_modified := tick_count s\<rparr>"
      using tick by simp
    then show ?thesis by blast
  qed
  moreover have "history ?t = take 30 (rev ?w @ history s)"
  proof -
    have "history ?t = history s2" by (rule history_cong) simp_all
    also have "\<dots> = take 30 (rev ?w @ take 29 (history s))"
      by (simp add: s2(4) s1(4) butlast_conv_take)
    also have "\<dots> = take 30 (rev ?w @ history s)"
      by (cases "rev ?w") (simp_all add: min_def)
    finally show ?thesis .
  qed
  moreover have "console_num_lines ?t = min (eff_lines s) (eff_num s + int (length ?w))"
    using s2(5) s1(5) ring_only_keeps(2) [OF s1(3)] ensure_inited_eff(2,3) [of s]
    by (cases ?w) (auto simp: min_def)
  ultimately show ?thesis by blast
qed

section \<open>Drawing\<close>

lemma console_draw_lines_newest:
  assumes "console_ok s" and "k + n \<le> 30"
    and "(if i < 0 then 29 else i) = (console_cur_line s - int k) mod 30 \<or> n = 0"
  shows "console_draw_lines n (int k) i x y s =
     Some (s\<lparr>ext_calls := ext_calls s @ map (\<lambda>j. DrawString x (y - int j * FONT_HEIGHT)
               (take (nat (console_line_length s)) (history s ! j)) (console_line_length s * FONT_WIDTH)) [k..<k + n],
             console_displayed := (console_displayed s \<or> 0 < n)\<rparr>)"
  using assms
proof (induction n arbitrary: k i s)
  case 0
  then show ?case by (cases s) simp
next
  case (Suc n)
  define m where "m = (if i < 0 then 29 else i)"
  let ?s = "(ext_call (DrawString x (y - int k * FONT_HEIGHT)
               (take (nat (console_line_length s)) (history s ! k)) (console_line_length s * FONT_WIDTH)) s)
              \<lparr>console_displayed := True\<rparr>"
  have i: "m = (console_cur_line s - int k) mod 30" using Suc.prems(3) by (simp add: m_def)
  have ib: "0 \<le> m" "m < 30" unfolding i by simp_all
  have ok: "console_ok ?s" using Suc.prems(1) by (simp add: console_ok_def MAX_CONSOLE_LINES_def ext_call_def)
  have h: "history ?s = history s" by (rule history_cong) (simp_all add: ext_call_def)
  have "console_get m s = Some (history s ! k)"
    using Suc.prems(2) ib by (simp add: console_get_def console_consts nth_history flip: i)
  moreover have "(if m - 1 < 0 then 29 else m - 1) = (console_cur_line ?s - int (Suc k)) mod 30 \<or> n = 0"
  proof -
    have "(console_cur_line s - int (Suc k)) mod 30 = (m - 1) mod 30"
      unfolding i by (simp add: mod_diff_left_eq algebra_simps)
    also have "\<dots> = (if m - 1 < 0 then 29 else m - 1)"
    proof (cases "m = 0")
      case False
      then show ?thesis using ib by (subst mod_pos_pos_trivial) auto
    qed simp
    finally show ?thesis by (simp add: ext_call_def)
  qed
  moreover have "console_ok s \<Longrightarrow> 0 \<le> console_line_length s \<and> console_line_length s \<le> 44"
    by (simp add: console_ok_def)
  ultimately have "console_draw_lines (Suc n) (int k) i x y s = console_draw_lines n (int (Suc k)) (m - 1) x y ?s"
    using Suc.prems(1) by (cases "i < 0") (simp_all add: Let_def console_consts add.commute m_def)
  also have "\<dots> = Some (?s\<lparr>ext_calls := ext_calls ?s @ map (\<lambda>j. DrawString x (y - int j * FONT_HEIGHT)
        (take (nat (console_line_length ?s)) (history ?s ! j)) (console_line_length ?s * FONT_WIDTH)) [Suc k..<Suc k + n],
       console_displayed := (console_displayed ?s \<or> 0 < n)\<rparr>)"
    by (rule Suc.IH [OF ok]) (use Suc.prems(2) in simp, fact)
  finally have "console_draw_lines (Suc n) (int k) i x y s = \<dots>" .
  moreover have "[k..<k + Suc n] = k # [Suc k..<Suc k + n]" by (simp add: upt_conv_Cons)
  ultimately show ?case
    unfolding h by (simp add: ext_call_def del: upt_Suc console_draw_lines.simps)
qed

section \<open>Any sequence of console operations\<close>

text \<open>
  What the rest of the core does with the console, one operation per step: the clock and the keys
  of a timeslice are inputs, and the viewer's functions run while it is the current mode.
\<close>

datatype console_op = AddLine string | DrawConsole bool | SetLayout int int int int
  | SetAutoredraw int | CloseConsole | ClearConsole | OpenViewer | DrawViewer
  | ViewerKeys "nat \<Rightarrow> u32" "nat \<Rightarrow> u32" int | ClockTick u32

fun console_step ::
  "platform \<Rightarrow> 'b gui_code \<Rightarrow> console_op \<Rightarrow> 'a console_scheme \<Rightarrow> 'a console_scheme option" where
  "console_step P G (AddLine str) s = console_add_line str s"
| "console_step P G (DrawConsole f) s = console_draw f s"
| "console_step P G (SetLayout a b c d) s = Some (console_set_layout a b c d s)"
| "console_step P G (SetAutoredraw v) s = Some (console_set_autoredraw v s)"
| "console_step P G CloseConsole s = Some (console_close s)"
| "console_step P G ClearConsole s = Some (console_clear s)"
| "console_step P G OpenViewer s = display_console P G s"
| "console_step P G DrawViewer s = gui_console_draw s"
| "console_step P G (ViewerKeys old new jog) s =
     (let s1 = s\<lparr>kbd_prev_state := old, kbd_new_state := new, jogdial_direction_in := jog\<rparr>
      in if gui_mode s1 = Some mboxGuiHandler
         then map_option snd (gui_console_kbd_process P G s1) else Some s1)"
| "console_step P G (ClockTick t) s = Some (s\<lparr>tick_count := t\<rparr>)"

definition console_inv :: "'a console_scheme \<Rightarrow> bool" where
  "console_inv s \<longleftrightarrow> console_ok s \<and> gui_mode s \<noteq> None \<and>
     (gui_mode s = Some mboxGuiHandler \<longrightarrow> gui_console_mode_old s \<noteq> None)"

lemma console_inv_cong:
  assumes "console_inv s"
    and "gui_mode t = gui_mode s" "gui_console_mode_old t = gui_console_mode_old s"
    and "console_ok t"
  shows "console_inv t"
  using assms by (simp add: console_inv_def)

text \<open>Fields the invariant of the ring does not read.\<close>

lemma console_ok_cong:
  assumes "console_ok s" and "console_buf t = console_buf s" and "console_cur_line t = console_cur_line s"
    and "console_line_length t = console_line_length s" and "console_num_lines t = console_num_lines s"
    and "console_max_lines t = console_max_lines s" and "console_scroll t = console_scroll s"
    and "screen_height t = screen_height s"
  shows "console_ok t"
  using assms by (simp add: console_ok_def MAX_CONSOLE_LINES_def)

lemma console_draw_ok:
  assumes "console_inv s"
  shows "\<exists>t. console_draw f s = Some t \<and> console_inv t"
proof -
  let ?i = "console_ensure_inited s"
  have ok: "console_ok ?i" using assms console_ensure_inited_ok by (auto simp: console_inv_def)
  have inv: "console_inv ?i"
    by (rule console_inv_cong [OF assms])
      (simp_all add: ok, simp_all add: console_ensure_inited_def console_init_def)
  let ?n = "nat (console_num_lines ?i)"
  have n: "0 + ?n \<le> 30" using ok by (auto simp: console_ok_def)
  have "(if console_cur_line ?i < 0 then 29 else console_cur_line ?i) = (console_cur_line ?i - int 0) mod 30"
    using ok by (simp add: console_ok_def)
  then have d0: "\<exists>c b. console_draw_lines ?n 0 (console_cur_line ?i) x y ?i =
      Some (?i\<lparr>ext_calls := c, console_displayed := b\<rparr>)" for x y
    using console_draw_lines_newest [OF ok n, of "console_cur_line ?i" x y] by fastforce
  have i1: "console_inv (?i\<lparr>ext_calls := c, console_displayed := b\<rparr>)" for c b
    by (rule console_inv_cong [OF inv]) (simp_all add: console_ok_cong [OF ok])
  have d: "\<exists>t. console_draw_lines ?n 0 (console_cur_line ?i) x y ?i = Some t \<and> console_inv t" for x y
    using d0 [of x y] i1 by auto
  have i2: "console_inv ((gui_set_need_restore ?i)\<lparr>console_displayed := False\<rparr>)"
    by (rule console_inv_cong [OF inv]) (simp_all add: gui_set_need_restore_def console_ok_cong [OF ok])
  show ?thesis
    using d i1 i2 inv by (auto simp: console_draw_def Let_def)
qed

lemma limit_range: "0 \<le> m \<Longrightarrow> 0 \<le> limit m v \<and> limit m v \<le> m"
  by (simp add: limit_def Let_def)

lemma limit_mono: "0 \<le> m \<Longrightarrow> a \<le> b \<Longrightarrow> limit m a \<le> limit m b"
  by (simp add: limit_def Let_def)

lemma console_redraw_inv: "console_inv s \<Longrightarrow> console_inv (console_redraw s)"
  by (rule console_inv_cong)
    (auto simp: console_redraw_def gui_set_need_restore_def console_inv_def elim: console_ok_cong)

lemma if_num_lines:
  "(if c then s\<lparr>console_num_lines := v\<rparr> else s) =
     s\<lparr>console_num_lines := (if c then v else console_num_lines s)\<rparr>" for s :: "'a console_scheme"
  by (cases s) simp

lemma console_set_layout_inv:
  assumes "console_inv s"
  shows "console_inv (console_set_layout xa ya xb yb s)"
proof -
  obtain x1 x2 where x: "(if xa > xb then (xb, xa) else (xa, xb)) = (x1, x2)" and xl: "x1 \<le> x2"
    by (cases "xa > xb") auto
  obtain y1 y2 where y: "(if ya > yb then (yb, ya) else (ya, yb)) = (y1, y2)" and yl: "y1 \<le> y2"
    by (cases "ya > yb") auto
  have ok: "console_ok s" using assms by (simp add: console_inv_def)
  let ?m = "MAX_CONSOLE_LINES s"
  have m: "0 \<le> ?m" "?m \<le> 30" using ok by (simp_all add: console_ok_def)
  let ?w = "limit 44 x2 - limit 44 x1" let ?h = "limit ?m y2 - limit ?m y1"
  have w: "0 \<le> ?w" "?w \<le> 44" using limit_range [of 44] limit_mono [OF _ xl, of 44] by (smt (verit))+
  have h: "0 \<le> ?h" "?h \<le> 30" using limit_range [OF m(1)] limit_mono [OF m(1) yl] m(2) by (smt (verit))+
  let ?s = "s\<lparr>console_line_length := ?w, console_max_lines := ?h,
              console_num_lines := (if console_num_lines s > ?h then ?h else console_num_lines s),
              console_x := limit 44 x1, console_y := ?m - limit ?m y2\<rparr>"
  have e: "console_set_layout xa ya xb yb s =
      (if console_autoredraw ?s \<noteq> 0 then console_redraw ?s else ?s)"
    unfolding console_set_layout_def x y Let_def prod.case if_num_lines
    by (simp add: console_consts MAX_CONSOLE_LINES_def)
  have "console_ok ?s" using ok w h by (simp add: console_ok_def MAX_CONSOLE_LINES_def)
  then have "console_inv ?s" by (intro console_inv_cong [OF assms]) simp_all
  then show ?thesis unfolding e by (simp add: console_redraw_inv)
qed

lemma console_view_lines_ok:
  assumes "console_inv s" and "-30 \<le> i" and "i < 30"
  shows "\<exists>c. console_view_lines n i x y s = Some (s\<lparr>ext_calls := c\<rparr>)"
  using assms
proof (induction n arbitrary: i s)
  case 0
  have "s = s\<lparr>ext_calls := ext_calls s\<rparr>" by (cases s) simp
  then show ?case by (intro exI [of _ "ext_calls s"]) simp
next
  case (Suc n)
  define m where "m = (if i < 0 then i + 30 else i)"
  have m: "0 \<le> m" "m < 30" using Suc.prems(2,3) by (auto simp: m_def)
  then obtain l where l: "console_get m s = Some l" by (simp add: console_get_def console_consts)
  let ?s = "ext_call (DrawString (x - 1) (y + int n * FONT_HEIGHT) l (MAX_CONSOLE_LINE_LENGTH * FONT_WIDTH)) s"
  have "console_inv ?s"
    using Suc.prems(1) by (auto simp: console_inv_def ext_call_def elim: console_ok_cong)
  then obtain c where "console_view_lines n (m - 1) x y ?s = Some (?s\<lparr>ext_calls := c\<rparr>)"
    using Suc.IH [of ?s "m - 1"] m by auto
  moreover have "console_view_lines (Suc n) i x y s = console_view_lines n (m - 1) x y ?s"
    using l by (cases "i < 0") (simp_all add: Let_def m_def MAX_CONSOLE_HISTORY_def)
  ultimately show ?case
    by (intro exI [of _ c]) (simp add: ext_call_def del: console_view_lines.simps)
qed

lemma gui_console_draw_ok:
  assumes "console_inv s"
  shows "\<exists>t. gui_console_draw s = Some t \<and> console_inv t"
proof -
  have r: "-30 \<le> console_cur_line s - console_scroll s" "console_cur_line s - console_scroll s < 30"
    using assms by (auto simp: console_inv_def console_ok_def)
  have i: "console_inv (s\<lparr>ext_calls := c\<rparr>)" for c
    using assms by (auto simp: console_inv_def elim: console_ok_cong)
  have v: "\<exists>d. console_view_lines n (console_cur_line s - console_scroll s) x y (s\<lparr>ext_calls := c\<rparr>) =
      Some (s\<lparr>ext_calls := d\<rparr>)" for n x y c
    using console_view_lines_ok [OF i r] by simp
  have f: "console_inv (s\<lparr>ext_calls := c, console_redraw_flag := False\<rparr>)" for c
    using assms by (auto simp: console_inv_def elim: console_ok_cong)
  show ?thesis
  proof (cases "console_redraw_flag s")
    case True
    obtain D where "\<And>n x y c. console_view_lines n (console_cur_line s - console_scroll s) x y
        (s\<lparr>ext_calls := c\<rparr>) = Some (s\<lparr>ext_calls := D n x y c\<rparr>)"
      using v by metis
    then show ?thesis using f by (simp add: gui_console_draw_def True Let_def ext_call_def)
  next
    case False
    then show ?thesis using assms by (simp add: gui_console_draw_def)
  qed
qed

lemma gui_console_kbd_process_ok:
  assumes "console_inv s" and "gui_mode s = Some mboxGuiHandler"
  shows "\<exists>t. gui_console_kbd_process P G s = Some (0, t) \<and> console_inv t"
proof -
  have ok: "console_ok s" and old: "gui_console_mode_old s \<noteq> None" and g: "gui_mode s \<noteq> None"
    using assms by (auto simp: console_inv_def)
  have scroll: "console_inv (s\<lparr>console_scroll := v, console_redraw_flag := True\<rparr>)"
    if "0 \<le> v" "v \<le> 18" for v
    using assms that by (auto simp: console_inv_def console_ok_def MAX_CONSOLE_LINES_def)
  obtain h where h: "gui_console_mode_old s = Some h" using old by blast
  have "\<exists>t. gui_enter_mode P G h s = Some t \<and> console_inv t"
  proof (rule gui_enter_mode_form [OF g, of P G h])
    fix c n d r
    let ?t = "s\<lparr>state_gui_mode := gh_mode (gui_struct G h),
       state_gui_mode_none := (gh_mode (gui_struct G h) = GUI_MODE_NONE),
       state_gui_mode_alt := (gh_mode (gui_struct G h) = GUI_MODE_ALT), redraw_buttons := r,
       gui_mode := Some h, gui_osd_need_restore := n, gui_mode_need_redraw := d, ext_calls := c\<rparr>"
    assume "gui_enter_mode P G h s = Some ?t"
    moreover have "console_inv ?t" using h by (simp add: console_inv_def console_ok_cong [OF ok])
    ultimately show ?thesis by blast
  qed
  then show ?thesis
    using scroll [of "console_scroll s + 1"] scroll [of "console_scroll s - 1"] assms(1) ok
    by (auto simp: gui_console_kbd_process_def Let_def h console_consts console_ok_def)
qed

lemma display_console_ok:
  assumes "console_inv s"
  shows "\<exists>t. display_console P G s = Some t \<and> console_inv t"
proof -
  let ?s = "s\<lparr>console_redraw_flag := True, console_scroll := 0\<rparr>"
  have g: "gui_mode ?s \<noteq> None" and ok: "console_ok ?s"
    using assms by (auto simp: console_inv_def console_ok_def MAX_CONSOLE_LINES_def)
  show ?thesis
  proof (rule gui_enter_mode_form [OF g, of P G mboxGuiHandler])
    fix c n d r
    let ?t = "?s\<lparr>state_gui_mode := gh_mode (gui_struct G mboxGuiHandler),
       state_gui_mode_none := (gh_mode (gui_struct G mboxGuiHandler) = GUI_MODE_NONE),
       state_gui_mode_alt := (gh_mode (gui_struct G mboxGuiHandler) = GUI_MODE_ALT), redraw_buttons := r,
       gui_mode := Some mboxGuiHandler, gui_osd_need_restore := n, gui_mode_need_redraw := d, ext_calls := c\<rparr>"
    assume "gui_enter_mode P G mboxGuiHandler ?s = Some ?t"
    then have "gui_set_mode P G mboxGuiHandler ?s = Some (gui_mode ?s, ?t)"
      by (rule gui_set_mode_enter [OF g])
    then have "display_console P G s = Some (?t\<lparr>gui_console_mode_old := gui_mode ?s\<rparr>)"
      by (simp add: display_console_def)
    moreover have "console_inv (?t\<lparr>gui_console_mode_old := gui_mode ?s\<rparr>)"
      using g by (simp add: console_inv_def console_ok_cong [OF ok])
    ultimately show ?thesis by blast
  qed
qed

lemma add_line_ok:
  assumes "console_inv s"
  shows "\<exists>t. console_add_line str s = Some t \<and> console_inv t"
proof (cases "console_autoredraw s = -1")
  case True
  then show ?thesis using assms by (simp add: console_add_line_def)
next
  case False
  have ok: "console_ok s" using assms by (simp add: console_inv_def)
  show ?thesis
    using add_line_refines [OF ok False, of str] assms
    by (auto simp: console_inv_def console_ensure_inited_def console_init_def)
qed

lemma console_step_safe:
  assumes "console_inv s"
  shows "\<exists>t. console_step P G i s = Some t \<and> console_inv t"
proof (cases i)
  case (ViewerKeys old new jog)
  have "console_inv (s\<lparr>kbd_prev_state := old, kbd_new_state := new, jogdial_direction_in := jog\<rparr>)"
    using assms by (auto simp: console_inv_def elim: console_ok_cong)
  then show ?thesis using ViewerKeys gui_console_kbd_process_ok by (fastforce simp: Let_def)
next
  case (SetAutoredraw v)
  then show ?thesis
    using assms by (auto simp: console_set_autoredraw_def console_inv_def elim: console_ok_cong)
next
  case (ClockTick v)
  then show ?thesis using assms by (auto simp: console_inv_def elim: console_ok_cong)
next
  case CloseConsole
  then show ?thesis
    using assms by (auto simp: console_close_def console_inv_def console_ok_def MAX_CONSOLE_LINES_def)
next
  case ClearConsole
  have "console_inv (s\<lparr>console_num_lines := 0\<rparr>)"
    using assms by (auto simp: console_inv_def console_ok_def MAX_CONSOLE_LINES_def)
  then show ?thesis using ClearConsole by (simp add: console_clear_def console_redraw_inv Let_def)
qed (use assms in \<open>simp_all add: add_line_ok console_draw_ok console_set_layout_inv display_console_ok
       gui_console_draw_ok\<close>)

interpretation console: safe_machine "console_step P G" console_inv
  by unfold_locales (rule console_step_safe)

section \<open>Properties\<close>


text \<open>The static variables at program start, on a screen of 360 by 240.\<close>

definition gui_start :: gui_state where
  "gui_start = usb_remote.extend usb_init
     (gui_state.fields (Some altGuiHandler) False False 1 False True False ALT_MODE_NORMAL False 0 0 0)"

definition demo_gui :: "unit gui_code" where
  "demo_gui = \<lparr>other_handler = (\<lambda>_. \<lparr>gh_mode = 9, gh_flags = 0\<rparr>), null_handler = None,
     kbd_process_fn = (\<lambda>_. None), kbd_process_menu_btn_fn = (\<lambda>_. None),
     touch_handler_fn = (\<lambda>_. None), cam_disp_alt_text = False, key_menu = 10\<rparr>"

definition console_start :: console where
  "console_start = gui_state.extend gui_start
     (console.fields (replicate 30 []) 0 0 0 0 0 0 1 0 False None False 0 3 360 240 0 0)"

lemma console_start_sel [simp]:
  "console_buf console_start = replicate 30 []" "console_max_lines console_start = 0"
  "console_num_lines console_start = 0" "console_cur_line console_start = 0"
  "console_line_length console_start = 0" "console_autoredraw console_start = 1"
  "console_scroll console_start = 0" "screen_height console_start = 240"
  "conf_console_timeout console_start = 3" "gui_mode console_start = Some altGuiHandler"
  "tick_count console_start = 0" "ext_calls console_start = []"
  by (simp_all add: console_start_def console.defs gui_start_def gui_state.defs usb_init_def
      usb_remote.defs as_init_def as_state.defs kbd_init_def keyboard.defs camera.defs)

lemma console_start_ok: "console_ok console_start"
  by (simp add: console_ok_def MAX_CONSOLE_LINES_def console_consts list_all_iff)

definition thirty :: string where "thirty = ''abcdefghijklmnopqrstuvwxyz0123''"


text \<open>C26: No sequence of console operations leaves the buffers: lines added by scripts (any string),
  any layout, closing, clearing, drawing, and the viewer with any keys, at any times. From a
  state in order every operation returns, the loop that breaks lines included, and after it no line
  is longer than its 44 characters, the current line and the scroll position are inside
  the ring, and leaving the viewer never follows a null pointer.\<close>

theorem console_always_in_bounds:
  assumes "console_inv s"
  shows "\<exists>t. run_steps (console_step P G) ops s = Some t \<and>
     length (console_buf t) = 30 \<and> (\<forall>l \<in> set (console_buf t). length l \<le> 44) \<and>
     0 \<le> console_cur_line t \<and> console_cur_line t < 30 \<and>
     0 \<le> console_scroll t \<and> console_scroll t \<le> 18 \<and>
     console_num_lines t \<le> console_max_lines t \<and>
     (gui_mode t = Some mboxGuiHandler \<longrightarrow> gui_console_mode_old t \<noteq> None)"
  using console.run_safe [OF assms, of P G ops]
  by (auto simp: console_inv_def console_ok_def list_all_iff)

theorem console_always_in_bounds_witness:
  "\<exists>t. run_steps (console_step a570_platform demo_gui)
     [SetLayout 50 9 (-3) 0, AddLine thirty, DrawConsole True, OpenViewer, DrawViewer, CloseConsole]
     console_start = Some t \<and> length (console_buf t) = 30"
  using console_always_in_bounds [of console_start a570_platform demo_gui]
  by (fastforce simp: console_inv_def console_start_ok)

end
