(* ===== verification/Script.thy ===== *)
theory Script
  imports Console
begin

text \<open>
  \<open>core/script.c\<close>: the life of a script, from its start out of the ALT mode, through the action stack
  that runs it, one slice of the script language per keyboard timeslice, to its end: by itself, by
  the terminate key, or on request of another task. The script language (Lua or uBASIC) is a
  loadable module behind a table of functions, a parameter here (\<open>script_api\<close>). File operations and
  calls into other modules are logged.
\<close>

section \<open>State\<close>

definition SCRIPT_STATE_INACTIVE :: int where "SCRIPT_STATE_INACTIVE = 0"
definition SCRIPT_STATE_RAN :: int where "SCRIPT_STATE_RAN = 1"
definition SCRIPT_STATE_INTERRUPTED :: int where "SCRIPT_STATE_INTERRUPTED = 2"
definition SCRIPT_RUN_RUNNING :: int where "SCRIPT_RUN_RUNNING = 1"
definition DTYPE_TABLE :: int where "DTYPE_TABLE = 1"

lemmas script_consts = SCRIPT_STATE_INACTIVE_def SCRIPT_STATE_RAN_def SCRIPT_STATE_INTERRUPTED_def
  SCRIPT_RUN_RUNNING_def DTYPE_TABLE_def

datatype lang_id = LANG_CONSOLE_TEXT_TERMINATED | LANG_CONSOLE_TEXT_INTERRUPTED
  | LANG_CONSOLE_TEXT_AUTOSTARTED | LANG_CONSOLE_TEXT_STARTED | LANG_CONSOLE_TEXT_FINISHED

record sc_param =
  sp_name :: "string option"
  sp_desc :: string
  sp_val :: int
  sp_def_val :: int
  sp_old_val :: int
  sp_range :: int
  sp_range_type :: int
  sp_data_type :: int
  sp_option_count :: int
  sp_options :: "string list"

text \<open>\<open>lang_str\<close> is the text of a message, \<open>open_result_in\<close> what the next \<open>open\<close> returns.\<close>

record script_state = console +
  running_script_stack_name :: u32
  script_terminate_key :: int
  script_terminate_key_name :: string
  script_terminate_request :: bool
  print_screen_p :: int
  print_screen_d :: int
  print_screen_file :: string
  old_gui_handler :: "gui_handler_ref option"
  osd_title_line :: int
  auto_started :: int
  kbd_last_checked_time :: u32
  conf_script_file :: string
  script_params :: "sc_param list"
  lang_str :: "lang_id \<Rightarrow> string"
  open_result_in :: int

text \<open>\<open>libscriptapi\<close>: a slice of the script, its restore routine, its reset, and loading it.\<close>

record 's script_api =
  sa_script_run :: "'s \<Rightarrow> (int \<times> 's) option"
  sa_run_restore :: "'s \<Rightarrow> (int \<times> 's) option"
  sa_script_reset :: "'s \<Rightarrow> 's option"
  sa_script_start_file :: "string \<Rightarrow> 's \<Rightarrow> (int \<times> 's) option"

section \<open>Copying the console to a file\<close>

definition script_print_screen_init :: "'a script_state_scheme \<Rightarrow> 'a script_state_scheme" where
  "script_print_screen_init s =
     (let s1 = s\<lparr>print_screen_p := 0\<rparr>
      in if print_screen_d s1 \<ge> 0
         then (ext_call (CloseFile (print_screen_d s1)) s1)\<lparr>print_screen_d := -1\<rparr> else s1)"

definition script_print_screen_end :: "'a script_state_scheme \<Rightarrow> 'a script_state_scheme" where
  "script_print_screen_end s =
     (if print_screen_d s \<ge> 0
      then (ext_call (CloseFile (print_screen_d s)) s)\<lparr>print_screen_d := -1, print_screen_p := 0\<rparr>
      else s)"

text \<open>\<open>while (val > 9999) val -= 10000\<close>, and \<open>sprintf\<close> with \<open>%04d\<close>.\<close>

function log_number :: "int \<Rightarrow> int" where
  "log_number val = (if val > 9999 then log_number (val - 10000) else val)"
  by pat_completeness auto
termination by (relation "measure nat") auto

declare log_number.simps [simp del]

function digits :: "nat \<Rightarrow> string" where
  "digits n = (if n < 10 then [char_of (48 + n)] else digits (n div 10) @ [char_of (48 + n mod 10)])"
  by pat_completeness auto
termination by (relation "measure id") auto

declare digits.simps [simp del]

definition format_04d :: "int \<Rightarrow> string" where
  "format_04d v =
     (let ds = digits (nat \<bar>v\<bar>); w = (if v < 0 then 3 else 4)
      in (if v < 0 then ''-'' else []) @ replicate (w - length ds) CHR ''0'' @ ds)"

definition log_file_name :: "int \<Rightarrow> string" where
  "log_file_name v = ''A/CHDK/LOGS/LOG_'' @ format_04d v @ ''.TXT''"

text \<open>\<open>val\<close> is a 32-bit \<open>int\<close>; the name goes into a buffer of 25 characters with the NUL.\<close>

definition script_print_screen_statement :: "u32 \<Rightarrow> 'a script_state_scheme \<Rightarrow> 'a script_state_scheme option" where
  "script_print_screen_statement v s0 =
     (let s = s0\<lparr>print_screen_p := sint v\<rparr> in
      if v \<noteq> 0 then
        let s1 = (if print_screen_d s \<ge> 0 then ext_call (CloseFile (print_screen_d s)) s else s);
            trunc = \<not> v <s 0;
            val = sint (if v <s 0 then - v else v);
            name = log_file_name (log_number val)
        in if length name \<le> 24
           then
             let s2 = (ext_call (OpenFile name trunc) s1)
                        \<lparr>print_screen_file := name, print_screen_d := open_result_in s1\<rparr>
             in Some (if print_screen_d s2 \<ge> 0 then ext_call (LseekEnd (print_screen_d s2)) s2 else s2)
           else None
      else Some (script_print_screen_end s))"

definition script_console_add_line :: "lang_id \<Rightarrow> 'a script_state_scheme \<Rightarrow> 'a script_state_scheme option" where
  "script_console_add_line str_id s = do {
     let str = lang_str s str_id;
     s1 \<leftarrow> console_add_line str s;
     Some (if print_screen_p s1 \<noteq> 0 \<and> print_screen_d s1 \<ge> 0
           then ext_call (WriteFile (print_screen_d s1) [char_of (10 :: nat)])
                  (ext_call (WriteFile (print_screen_d s1) str) s1)
           else s1) }"

definition script_console_add_error :: "lang_id \<Rightarrow> 'a script_state_scheme \<Rightarrow> 'a script_state_scheme option" where
  "script_console_add_error str_id s = script_console_add_line str_id (console_set_autoredraw 1 s)"

section \<open>The end of a script\<close>

text \<open>Which mode the GUI goes back to, if a mode was saved when the script started.\<close>

definition script_old_mode :: "gui_handler_ref \<Rightarrow> 'a script_state_scheme \<Rightarrow> gui_handler_ref" where
  "script_old_mode h s =
     (if h = altGuiHandler \<and> state_gui_mode_none s then defaultGuiHandler
      else if h = defaultGuiHandler \<and> state_gui_mode_alt s then altGuiHandler
      else h)"

definition script_end ::
  "platform \<Rightarrow> 'b gui_code \<Rightarrow> ('a script_state_scheme) script_api \<Rightarrow> 'a script_state_scheme \<Rightarrow>
   'a script_state_scheme option" where
  "script_end P G A s = do {
     let s1 = s\<lparr>state_kbd_script_run := SCRIPT_STATE_INACTIVE, osd_title_line := 1,
                script_terminate_key := KEY_SHOOT_FULL\<rparr>;
     let s2 = console_set_autoredraw 1 (script_print_screen_end s1);
     s3 \<leftarrow> (case old_gui_handler s2 of
              None \<Rightarrow> Some s2
            | Some h \<Rightarrow> do {
                t \<leftarrow> gui_enter_mode P G (script_old_mode h s2) s2;
                Some (t\<lparr>old_gui_handler := None\<rparr>) });
     s4 \<leftarrow> sa_script_reset A s3;
     let s5 = (action_stack_kill (running_script_stack_name s4) s4)\<lparr>running_script_stack_name := -1\<rparr>;
     let s6 = kbd_key_release_all P (ext_call (ShotHistogramSet 0) s5);
     Some (conf_update_prevent_shutdown (ext_call (ConfSetAutosave 1) s6)) }"

section \<open>Running a script\<close>

definition action_stack_AS_SCRIPT_RUN ::
  "platform \<Rightarrow> 'b gui_code \<Rightarrow> ('a script_state_scheme) script_api \<Rightarrow> 'a script_state_scheme \<Rightarrow>
   (int \<times> 'a script_state_scheme) option" where
  "action_stack_AS_SCRIPT_RUN P G A s =
     (if state_kbd_script_run s \<noteq> 0
      then do {
        (rv, s1) \<leftarrow> sa_script_run A s;
        if rv \<noteq> SCRIPT_RUN_RUNNING
        then do { s2 \<leftarrow> script_end P G A s1; Some (1, s2) }
        else Some (0, s1) }
      else do { (_, s1) \<leftarrow> action_pop_func 0 s; Some (1, s1) })"

text \<open>\<open>AS_OTHER 0\<close> is the address of \<open>action_stack_AS_SCRIPT_RUN\<close>.\<close>

definition AS_SCRIPT_RUN :: action_func where "AS_SCRIPT_RUN = AS_OTHER 0"

definition script_stack_start :: "'b as_code \<Rightarrow> 'a script_state_scheme \<Rightarrow> u32 \<times> 'a script_state_scheme" where
  "script_stack_start M s =
     (let (c, s1) = action_stack_create M AS_SCRIPT_RUN
            (s\<lparr>script_terminate_request := False, state_kbd_script_run := SCRIPT_STATE_RAN\<rparr>)
      in (c, s1\<lparr>running_script_stack_name := c\<rparr>))"

definition script_is_running :: "'a script_state_scheme \<Rightarrow> bool" where
  "script_is_running s \<longleftrightarrow> \<not> action_stack_is_finished (running_script_stack_name s) s"

definition script_set_terminate_key :: "int \<Rightarrow> string \<Rightarrow> 'a script_state_scheme \<Rightarrow> 'a script_state_scheme" where
  "script_set_terminate_key key keyname s =
     s\<lparr>script_terminate_key := key, script_terminate_key_name := take 19 keyname\<rparr>"

definition script_get_alt_text :: "'a script_state_scheme \<Rightarrow> string" where
  "script_get_alt_text s =
     (if script_terminate_key s \<noteq> KEY_SHOOT_FULL \<and> state_kbd_script_run s \<noteq> 0
      then ''<EXIT='' @ script_terminate_key_name s @ ''>'' else ''<ALT>'')"

definition script_check_terminate ::
  "platform \<Rightarrow> 'b gui_code \<Rightarrow> ('a script_state_scheme) script_api \<Rightarrow> 'a script_state_scheme \<Rightarrow>
   'a script_state_scheme option" where
  "script_check_terminate P G A s =
     (if state_kbd_script_run s \<noteq> 0 \<and> script_terminate_request s
      then do { s1 \<leftarrow> script_console_add_error LANG_CONSOLE_TEXT_TERMINATED s; script_end P G A s1 }
      else Some s)"

definition gui_script_kbd_process ::
  "platform \<Rightarrow> 'b gui_code \<Rightarrow> ('a script_state_scheme) script_api \<Rightarrow> 'a script_state_scheme \<Rightarrow>
   (int \<times> 'a script_state_scheme) option" where
  "gui_script_kbd_process P G A s =
     (if kbd_is_key_clicked P (script_terminate_key s) s
      then do {
        s1 \<leftarrow> script_console_add_error LANG_CONSOLE_TEXT_INTERRUPTED s;
        if state_kbd_script_run s1 = SCRIPT_STATE_INTERRUPTED
        then do { s2 \<leftarrow> script_end P G A s1; Some (0, s2) }
        else do {
          (r, s2) \<leftarrow> sa_run_restore A (s1\<lparr>state_kbd_script_run := SCRIPT_STATE_INTERRUPTED\<rparr>);
          if r = 0 then do { s3 \<leftarrow> script_end P G A s2; Some (0, s3) } else Some (0, s2) } }
      else Some (0, s))"

text \<open>
  \<open>script_wait_terminate\<close>, called from another task: \<open>env\<close> is what the keyboard task does during
  each \<open>msleep(10)\<close>. \<open>None\<close> when the script is still active after the last of them.
\<close>

fun wait_inactive :: "('a script_state_scheme \<Rightarrow> 'a script_state_scheme option) list \<Rightarrow>
    'a script_state_scheme \<Rightarrow> 'a script_state_scheme option" where
  "wait_inactive env s =
     (if state_kbd_script_run s = SCRIPT_STATE_INACTIVE then Some s
      else (case env of
          [] \<Rightarrow> None
        | f # fs \<Rightarrow> do { s1 \<leftarrow> f (ext_call (Msleep 10) s); wait_inactive fs s1 }))"

definition script_wait_terminate :: "('a script_state_scheme \<Rightarrow> 'a script_state_scheme option) list \<Rightarrow>
    'a script_state_scheme \<Rightarrow> 'a script_state_scheme option" where
  "script_wait_terminate env s =
     (if state_kbd_script_run s = SCRIPT_STATE_INACTIVE then Some s
      else wait_inactive env (s\<lparr>script_terminate_request := True\<rparr>))"

section \<open>Starting a script from the GUI\<close>

fun set_variables :: "sc_param list \<Rightarrow> 'a script_state_scheme \<Rightarrow> 'a script_state_scheme" where
  "set_variables [] s = s"
| "set_variables (p # ps) s =
     set_variables ps
       (case sp_name p of
          None \<Rightarrow> s
        | Some n \<Rightarrow> ext_call (ScriptSetVariable n (sp_val p) (sp_range p = 1)
                      (sp_data_type p = DTYPE_TABLE) (sp_option_count p)) s)"

definition script_start_gui ::
  "platform \<Rightarrow> 'c as_code \<Rightarrow> 'b gui_code \<Rightarrow> ('a script_state_scheme) script_api \<Rightarrow> int \<Rightarrow>
   'a script_state_scheme \<Rightarrow> (u32 \<times> 'a script_state_scheme) option" where
  "script_start_gui P M G A autostart s =
     (if conf_script_file s = [] then Some (0, s)
      else do {
        let s1 = ext_call StopUsbHPtimer
                   ((ext_call (ShotHistogramSet 0) s)\<lparr>auto_started := autostart\<rparr>);
        let s2 = kbd_key_release_all P (s1\<lparr>kbd_last_clicked := 0, kbd_last_checked_time := tick_count s1\<rparr>);
        let s3 = ext_call SaveParamsValues (script_print_screen_init (console_close s2));
        s4 \<leftarrow> script_console_add_line
               (if autostart \<noteq> 0 then LANG_CONSOLE_TEXT_AUTOSTARTED else LANG_CONSOLE_TEXT_STARTED) s3;
        (r, s5) \<leftarrow> sa_script_start_file A (conf_script_file s4) (ext_call ModuleSetScriptLang s4);
        if r = 0 then Some (-1, s5)
        else do {
          (old, s6) \<leftarrow> gui_set_mode P G scriptGuiHandler
                        (conf_update_prevent_shutdown (set_variables (script_params s5) s5));
          Some (script_stack_start M (s6\<lparr>old_gui_handler := old\<rparr>)) } })"

section \<open>The table of action stacks\<close>

definition same_table :: "'a script_state_scheme \<Rightarrow> 'a script_state_scheme \<Rightarrow> bool" where
  "same_table s t \<longleftrightarrow> action_stacks t = action_stacks s \<and> free_stacks t = free_stacks s \<and>
     as_brk t = as_brk s \<and> num_stacks t = num_stacks s \<and> as_nodes t = as_nodes s \<and>
     task_comp_id t = task_comp_id s"

lemma same_table_ok: "same_table s t \<Longrightarrow> as_ok t = as_ok s"
  by (simp add: same_table_def as_ok_def)

lemma same_table_ids: "same_table s t \<Longrightarrow> running_ids t = running_ids s"
  by (simp add: same_table_def running_ids_def)

lemma kill_form:
  "\<exists>a n nd f. action_stack_kill c s =
     s\<lparr>action_stacks := a, num_stacks := n, as_nodes := nd, free_stacks := f\<rparr>"
proof -
  have id: "s = s\<lparr>action_stacks := action_stacks s, num_stacks := num_stacks s, as_nodes := as_nodes s,
              free_stacks := free_stacks s\<rparr>" by (cases s) simp
  have same: ?thesis if "action_stack_kill c s = s"
    unfolding that by (intro exI) (rule id)
  have fin: "\<exists>a n nd f. action_stack_finish p s =
     s\<lparr>action_stacks := a, num_stacks := n, as_nodes := nd, free_stacks := f\<rparr>"
    if "comp_id (as_nodes s p) \<noteq> 0" for p
    using that by (simp add: action_stack_finish_def) (intro exI, rule refl)
  show ?thesis
  proof (cases "find (\<lambda>p. comp_id (as_nodes s p) = c) (action_stacks s)")
    case None
    then show ?thesis by (intro same) (simp add: action_stack_kill_def)
  next
    case (Some p)
    show ?thesis
    proof (cases "comp_id (as_nodes s p) = 0")
      case True
      then show ?thesis using Some
        by (intro same) (simp add: action_stack_kill_def action_stack_finish_def)
    next
      case False
      then show ?thesis using Some fin by (simp add: action_stack_kill_def)
    qed
  qed
qed

section \<open>What a script leaves behind\<close>

text \<open>
  The contract of the script language's reset: it returns, and apart from calls into other modules
  it touches nothing of the core.
\<close>

definition reset_ok :: "('a script_state_scheme) script_api \<Rightarrow> bool" where
  "reset_ok A \<longleftrightarrow> (\<forall>s. \<exists>c. sa_script_reset A s = Some (s\<lparr>ext_calls := c\<rparr>))"

lemma print_screen_end_form:
  "\<exists>c d p. d < 0 \<and> script_print_screen_end s = s\<lparr>ext_calls := c, print_screen_d := d, print_screen_p := p\<rparr>"
proof (cases "print_screen_d s \<ge> 0")
  case True
  then have e: "script_print_screen_end s =
      s\<lparr>ext_calls := ext_calls s @ [CloseFile (print_screen_d s)], print_screen_d := -1, print_screen_p := 0\<rparr>"
    by (simp add: script_print_screen_end_def ext_call_def)
  show ?thesis unfolding e by (rule exI [of _ "ext_calls s @ [CloseFile (print_screen_d s)]"],
      rule exI [of _ "-1"], rule exI [of _ 0]) simp
next
  case False
  then have e: "script_print_screen_end s = s" by (simp add: script_print_screen_end_def)
  have "s = s\<lparr>ext_calls := ext_calls s, print_screen_d := print_screen_d s, print_screen_p := print_screen_p s\<rparr>"
    by (cases s) simp
  then have "\<exists>c p. s = s\<lparr>ext_calls := c, print_screen_d := print_screen_d s, print_screen_p := p\<rparr>"
    by (intro exI)
  moreover have "print_screen_d s < 0" using False by simp
  ultimately show ?thesis unfolding e by blast
qed

lemma prevent_shutdown_form: "\<exists>c. conf_update_prevent_shutdown s = s\<lparr>ext_calls := c\<rparr>"
  by (auto simp: conf_update_prevent_shutdown_def ext_call_def)

text \<open>Restoring the mode.\<close>

lemma restore_mode:
  assumes "gui_mode s \<noteq> None"
  shows "\<exists>t. (case old_gui_handler s of
              None \<Rightarrow> Some s
            | Some h \<Rightarrow> do {
                t \<leftarrow> gui_enter_mode P G (script_old_mode h s) s;
                Some (t\<lparr>old_gui_handler := None\<rparr>) }) = Some t \<and>
     same_table s t \<and> old_gui_handler t = None \<and>
     gui_mode t = (case old_gui_handler s of None \<Rightarrow> gui_mode s | Some h \<Rightarrow> Some (script_old_mode h s)) \<and>
     (\<exists>c m n a r g q d. t = s\<lparr>state_gui_mode := m, state_gui_mode_none := n,
        state_gui_mode_alt := a, redraw_buttons := r, gui_mode := g, gui_osd_need_restore := q,
        gui_mode_need_redraw := d, ext_calls := c, old_gui_handler := None\<rparr>)"
proof (cases "old_gui_handler s")
  case None
  have "s = s\<lparr>state_gui_mode := state_gui_mode s, state_gui_mode_none := state_gui_mode_none s,
      state_gui_mode_alt := state_gui_mode_alt s, redraw_buttons := redraw_buttons s,
      gui_mode := gui_mode s, gui_osd_need_restore := gui_osd_need_restore s,
      gui_mode_need_redraw := gui_mode_need_redraw s, ext_calls := ext_calls s,
      old_gui_handler := None\<rparr>"
    using None by (cases s) simp
  then have "\<exists>c m n a r g q d. s = s\<lparr>state_gui_mode := m, state_gui_mode_none := n,
        state_gui_mode_alt := a, redraw_buttons := r, gui_mode := g, gui_osd_need_restore := q,
        gui_mode_need_redraw := d, ext_calls := c, old_gui_handler := None\<rparr>"
    by (intro exI)
  then show ?thesis using None by (simp add: same_table_def)
next
  case (Some h)
  show ?thesis
  proof (rule gui_enter_mode_form [OF assms, of P G "script_old_mode h s"])
    fix c n d r
    let ?t = "s\<lparr>state_gui_mode := gh_mode (gui_struct G (script_old_mode h s)),
       state_gui_mode_none := (gh_mode (gui_struct G (script_old_mode h s)) = GUI_MODE_NONE),
       state_gui_mode_alt := (gh_mode (gui_struct G (script_old_mode h s)) = GUI_MODE_ALT),
       redraw_buttons := r, gui_mode := Some (script_old_mode h s), gui_osd_need_restore := n,
       gui_mode_need_redraw := d, ext_calls := c\<rparr>"
    assume "gui_enter_mode P G (script_old_mode h s) s = Some ?t"
    moreover have "\<exists>c' m n' a r' g q d'. ?t\<lparr>old_gui_handler := None\<rparr> = s\<lparr>state_gui_mode := m,
        state_gui_mode_none := n', state_gui_mode_alt := a, redraw_buttons := r', gui_mode := g,
        gui_osd_need_restore := q, gui_mode_need_redraw := d', ext_calls := c', old_gui_handler := None\<rparr>"
      by (intro exI) (rule refl)
    moreover have "same_table s (?t\<lparr>old_gui_handler := None\<rparr>)" by (simp add: same_table_def)
    ultimately show ?thesis using Some
      by (intro exI [of _ "?t\<lparr>old_gui_handler := None\<rparr>"]) simp
  qed
qed

lemma kill_same_table: "same_table s t \<Longrightarrow> same_table (action_stack_kill c s) (action_stack_kill c t)"
  by (auto simp: same_table_def action_stack_kill_def action_stack_finish_def split: option.splits)

lemma release_all_mod:
  "kbd_key_release_all P s = s\<lparr>kbd_mod_state := kbd_mod_state (kbd_key_release_all P s)\<rparr>"
  by (simp add: kbd_key_release_all_def Let_def)

lemma release_all_mod_cong:
  "kbd_mod_state t = kbd_mod_state s \<Longrightarrow>
     kbd_mod_state (kbd_key_release_all P t) = kbd_mod_state (kbd_key_release_all P s)"
  by (simp add: kbd_key_release_all_def Let_def)

lemma script_end_result:
  assumes A: "reset_ok A" and g: "gui_mode s \<noteq> None"
  shows "\<exists>t. script_end P G A s = Some t \<and>
     same_table (action_stack_kill (running_script_stack_name s) s) t \<and>
     active_stack t = active_stack s \<and> running_script_stack_name t = -1 \<and>
     state_kbd_script_run t = SCRIPT_STATE_INACTIVE \<and> script_terminate_key t = KEY_SHOOT_FULL \<and>
     print_screen_d t < 0 \<and> console_autoredraw t = 1 \<and> old_gui_handler t = None \<and>
     gui_mode t = (case old_gui_handler s of None \<Rightarrow> gui_mode s | Some h \<Rightarrow> Some (script_old_mode h s)) \<and>
     kbd_mod_state t = kbd_mod_state (kbd_key_release_all P s)"
proof -
  let ?s1 = "s\<lparr>state_kbd_script_run := SCRIPT_STATE_INACTIVE, osd_title_line := 1,
                script_terminate_key := KEY_SHOOT_FULL\<rparr>"
  obtain c d p where d: "d < 0" and e2: "script_print_screen_end ?s1 =
      ?s1\<lparr>ext_calls := c, print_screen_d := d, print_screen_p := p\<rparr>"
    using print_screen_end_form [of ?s1] by blast
  let ?s2 = "?s1\<lparr>ext_calls := c, print_screen_d := d, print_screen_p := p, console_autoredraw := 1\<rparr>"
  have g2: "gui_mode ?s2 \<noteq> None" using g by simp
  have om: "script_old_mode h ?s2 = script_old_mode h s" for h by (simp add: script_old_mode_def)
  obtain s3 where s3: "(case old_gui_handler ?s2 of
              None \<Rightarrow> Some ?s2
            | Some h \<Rightarrow> do {
                t \<leftarrow> gui_enter_mode P G (script_old_mode h ?s2) ?s2;
                Some (t\<lparr>old_gui_handler := None\<rparr>) }) = Some s3"
    "same_table ?s2 s3" "old_gui_handler s3 = None"
    "gui_mode s3 = (case old_gui_handler ?s2 of None \<Rightarrow> gui_mode ?s2 | Some h \<Rightarrow> Some (script_old_mode h ?s2))"
    and f3: "\<exists>c m n a r g q d. s3 = ?s2\<lparr>state_gui_mode := m, state_gui_mode_none := n,
        state_gui_mode_alt := a, redraw_buttons := r, gui_mode := g, gui_osd_need_restore := q,
        gui_mode_need_redraw := d, ext_calls := c, old_gui_handler := None\<rparr>"
    using restore_mode [OF g2, of P G] by blast
  have k3: "running_script_stack_name s3 = running_script_stack_name s"
    "state_kbd_script_run s3 = SCRIPT_STATE_INACTIVE" "script_terminate_key s3 = KEY_SHOOT_FULL"
    "print_screen_d s3 = d" "console_autoredraw s3 = 1" "kbd_mod_state s3 = kbd_mod_state s"
    "active_stack s3 = active_stack s"
    using f3 by auto
  obtain c4 where s4: "sa_script_reset A s3 = Some (s3\<lparr>ext_calls := c4\<rparr>)" using A by (auto simp: reset_ok_def)
  let ?s4 = "s3\<lparr>ext_calls := c4\<rparr>"
  let ?k = "action_stack_kill (running_script_stack_name s) ?s4"
  obtain a n nd f where k: "?k = ?s4\<lparr>action_stacks := a, num_stacks := n, as_nodes := nd, free_stacks := f\<rparr>"
    using kill_form by blast
  let ?s5 = "?k\<lparr>running_script_stack_name := -1\<rparr>"
  let ?m = "kbd_mod_state (kbd_key_release_all P s)"
  have s6: "kbd_key_release_all P (ext_call (ShotHistogramSet 0) ?s5) =
      (ext_call (ShotHistogramSet 0) ?s5)\<lparr>kbd_mod_state := ?m\<rparr>"
  proof -
    have "kbd_mod_state (ext_call (ShotHistogramSet 0) ?s5) = kbd_mod_state s"
      using k3(6) by (simp add: k ext_call_def)
    from release_all_mod_cong [OF this, of P] show ?thesis
      using release_all_mod [of P "ext_call (ShotHistogramSet 0) ?s5"] by simp
  qed
  obtain c7 where s7: "conf_update_prevent_shutdown (ext_call (ConfSetAutosave 1)
      ((ext_call (ShotHistogramSet 0) ?s5)\<lparr>kbd_mod_state := ?m\<rparr>)) =
      (ext_call (ConfSetAutosave 1) ((ext_call (ShotHistogramSet 0) ?s5)\<lparr>kbd_mod_state := ?m\<rparr>))\<lparr>ext_calls := c7\<rparr>"
    using prevent_shutdown_form by blast
  let ?t = "(ext_call (ConfSetAutosave 1) ((ext_call (ShotHistogramSet 0) ?s5)\<lparr>kbd_mod_state := ?m\<rparr>))\<lparr>ext_calls := c7\<rparr>"
  have "script_end P G A s = Some ?t"
    unfolding script_end_def console_set_autoredraw_def Let_def e2 s3(1)
    by (simp add: s4 k3(1) s6 s7)
  moreover have "same_table (action_stack_kill (running_script_stack_name s) s) ?t"
  proof -
    have "same_table s ?s4" using s3(2) by (simp add: same_table_def)
    from kill_same_table [OF this] show ?thesis by (simp add: same_table_def ext_call_def)
  qed
  moreover have "gui_mode ?t = (case old_gui_handler s of None \<Rightarrow> gui_mode s | Some h \<Rightarrow> Some (script_old_mode h s))"
    using s3(4) om by (cases "old_gui_handler s") (simp_all add: k ext_call_def)
  ultimately show ?thesis
    using k3 d s3(3) by (intro exI [of _ ?t]) (simp add: k ext_call_def)
qed

section \<open>The script on its stack\<close>

definition script_code_ok ::
  "platform \<Rightarrow> 'b gui_code \<Rightarrow> ('a script_state_scheme) script_api \<Rightarrow>
   ('a script_state_scheme) as_code \<Rightarrow> bool" where
  "script_code_ok P G A M \<longleftrightarrow> fn_at M (fn_addr M AS_SCRIPT_RUN) = Some AS_SCRIPT_RUN \<and>
     other_func M 0 = action_stack_AS_SCRIPT_RUN P G A"

text \<open>The next function of the active stack \<open>p\<close> is the one that runs the script.\<close>

definition script_on_top :: "'b as_code \<Rightarrow> nat \<Rightarrow> 'a script_state_scheme \<Rightarrow> bool" where
  "script_on_top M p s \<longleftrightarrow> active_stack s = Some p \<and> state_kbd_script_run s \<noteq> 0 \<and>
     (let n = as_nodes s p in 1 \<le> stack_ptr n \<and> stack_ptr n < 48 \<and>
        stack n (stack_ptr n) = AS_FUNC_ENTRY \<and> stack n (stack_ptr n - 1) = fn_addr M AS_SCRIPT_RUN)"

text \<open>The active stack \<open>p\<close> is the one of the running script.\<close>

definition script_owns :: "nat \<Rightarrow> 'a script_state_scheme \<Rightarrow> bool" where
  "script_owns p s \<longleftrightarrow> as_ok s \<and> active_stack s = Some p \<and> p \<in> set (action_stacks s) \<and>
     comp_id (as_nodes s p) = running_script_stack_name s \<and> gui_mode s \<noteq> None \<and>
     0 \<le> stack_ptr (as_nodes s p)"

lemma kill_own_stack:
  assumes "script_owns p s"
  shows "action_stack_kill (running_script_stack_name s) s = action_stack_finish p s"
proof -
  obtain q where q: "find (\<lambda>p. comp_id (as_nodes s p) = running_script_stack_name s) (action_stacks s) = Some q"
    using assms by (cases "find (\<lambda>p. comp_id (as_nodes s p) = running_script_stack_name s) (action_stacks s)")
      (auto simp: script_owns_def find_None_iff)
  then have "q \<in> set (action_stacks s)" "comp_id (as_nodes s q) = comp_id (as_nodes s p)"
    using assms by (auto simp: find_Some_iff script_owns_def)
  then have "q = p"
    using assms by (auto simp: script_owns_def as_ok_def node_ids_def distinct_map inj_on_def)
  with q show ?thesis by (simp add: action_stack_kill_def)
qed

lemma finished_block:
  assumes "script_owns p s"
  shows "let t = action_stack_finish p s in comp_id (as_nodes t p) = 0 \<and> stack_ptr (as_nodes t p) = -1 \<and>
     p \<in> set (free_stacks t) \<and> p \<notin> set (action_stacks t)"
proof -
  have "comp_id (as_nodes s p) \<noteq> 0" using assms by (auto simp: script_owns_def as_ok_def node_ids_def)
  moreover have "distinct (action_stacks s)" using assms by (simp add: script_owns_def as_ok_def)
  ultimately show ?thesis by (simp add: action_stack_finish_def Let_def)
qed

lemma script_call:
  assumes M: "script_code_ok P G A M" and top: "script_on_top M p s"
  shows "action_stack_process P M s =
     do { (r, s1) \<leftarrow> action_stack_AS_SCRIPT_RUN P G A s; action_stack_process_loop P M r s1 }"
proof -
  have t: "active_stack s = Some p" "1 \<le> stack_ptr (as_nodes s p)" "stack_ptr (as_nodes s p) < 48"
    "stack (as_nodes s p) (stack_ptr (as_nodes s p)) = AS_FUNC_ENTRY"
    "stack (as_nodes s p) (stack_ptr (as_nodes s p) - 1) = fn_addr M AS_SCRIPT_RUN"
    using top by (auto simp: script_on_top_def Let_def)
  have m: "fn_at M (fn_addr M AS_SCRIPT_RUN) = Some (AS_OTHER 0)"
    "other_func M 0 = action_stack_AS_SCRIPT_RUN P G A"
    using M by (auto simp: script_code_ok_def AS_SCRIPT_RUN_def)
  have "action_top 0 s = Some AS_FUNC_ENTRY" "action_top 1 s = Some (fn_addr M AS_SCRIPT_RUN)"
    using t by (simp_all add: action_top_def in_stack_def ACTION_STACK_SIZE_def Let_def)
  then show ?thesis
    unfolding action_stack_process_def
    using t m by (subst action_stack_process_loop.simps) (simp add: action_call_def)
qed

section \<open>Properties\<close>


text \<open>C27: A script's timeslice. When the script's stack has its turn and the script language
  reports that it is still running, the timeslice is over with the state the language left. When it
  reports the end or an error, the script is ended inside its own stack's turn: processing still
  returns, the stack is released exactly once (it is on the free list, the table is in order, all
  other stacks run on), the script is inactive, its keys are released, its log file closed and
  console output switched on, and the GUI is back in the mode it was started from.\<close>

theorem script_timeslice:
  assumes M: "script_code_ok P G A M" and A: "reset_ok A" and top: "script_on_top M p s"
    and run: "sa_script_run A s = Some (rv, s1)" and own: "script_owns p s1"
  shows "if rv = SCRIPT_RUN_RUNNING then action_stack_process P M s = Some s1
     else \<exists>t. action_stack_process P M s = Some t \<and> as_ok t \<and>
       running_ids t = running_ids s1 - {running_script_stack_name s1} \<and>
       p \<in> set (free_stacks t) \<and> p \<notin> set (action_stacks t) \<and>
       state_kbd_script_run t = SCRIPT_STATE_INACTIVE \<and> print_screen_d t < 0 \<and> console_autoredraw t = 1 \<and>
       kbd_mod_state t = kbd_mod_state (kbd_key_release_all P s1) \<and>
       gui_mode t = (case old_gui_handler s1 of None \<Rightarrow> gui_mode s1 | Some h \<Rightarrow> Some (script_old_mode h s1))"
proof -
  have on: "state_kbd_script_run s \<noteq> 0" using top by (simp add: script_on_top_def)
  have act: "active_stack s1 = Some p" and g: "gui_mode s1 \<noteq> None" and ptr: "0 \<le> stack_ptr (as_nodes s1 p)"
    and ok: "as_ok s1" and mem: "p \<in> set (action_stacks s1)"
    and id: "comp_id (as_nodes s1 p) = running_script_stack_name s1"
    using own by (auto simp: script_owns_def)
  show ?thesis
  proof (cases "rv = SCRIPT_RUN_RUNNING")
    case True
    then have "action_stack_process P M s = action_stack_process_loop P M 0 s1"
      unfolding script_call [OF M top] using on run by (simp add: action_stack_AS_SCRIPT_RUN_def)
    also have "\<dots> = Some s1" using act ptr by (subst action_stack_process_loop.simps) simp
    finally show ?thesis using True by simp
  next
    case False
    obtain t where t: "script_end P G A s1 = Some t"
      "same_table (action_stack_kill (running_script_stack_name s1) s1) t" "active_stack t = active_stack s1"
      "state_kbd_script_run t = SCRIPT_STATE_INACTIVE" "print_screen_d t < 0" "console_autoredraw t = 1"
      "gui_mode t = (case old_gui_handler s1 of None \<Rightarrow> gui_mode s1 | Some h \<Rightarrow> Some (script_old_mode h s1))"
      "kbd_mod_state t = kbd_mod_state (kbd_key_release_all P s1)"
      using script_end_result [OF A g, of P G] by blast
    have tab: "same_table (action_stack_finish p s1) t" using t(2) by (simp add: kill_own_stack [OF own])
    have blk: "comp_id (as_nodes t p) = 0" "stack_ptr (as_nodes t p) = -1" "p \<in> set (free_stacks t)"
      "p \<notin> set (action_stacks t)"
      using finished_block [OF own] tab by (auto simp: same_table_def Let_def)
    have "action_stack_process P M s = action_stack_process_loop P M 1 t"
      unfolding script_call [OF M top] using on run False t(1) by (simp add: action_stack_AS_SCRIPT_RUN_def)
    also have "\<dots> = Some t"
      using t(3) act blk by (subst action_stack_process_loop.simps) (simp add: action_stack_finish_def)
    finally have "action_stack_process P M s = Some t" .
    moreover have "as_ok t" "running_ids t = running_ids s1 - {running_script_stack_name s1}"
      using finish_ok [OF ok mem] id same_table_ok [OF tab] same_table_ids [OF tab] by simp_all
    ultimately show ?thesis using False t blk by auto
  qed
qed

text \<open>C30: However a script ends, nothing of it stays. \<open>script_end\<close> returns in any state with a GUI mode
  and a table of stacks in order; afterwards no script runs, the table is in order without the script's stack
  and with every other one, the simulated keys are up, the terminate key is the shutter again,
  the console prints, the log file is closed, and the GUI is in the mode saved at the start, except
  that a user who left the ALT mode meanwhile stays out of it, and one who entered it stays in.\<close>

theorem script_end_cleans_up:
  assumes "reset_ok A" and "gui_mode s \<noteq> None" and "as_ok s" and "-1 \<notin> running_ids s"
  shows "\<exists>t. script_end P G A s = Some t \<and> as_ok t \<and>
     running_ids t = running_ids s - {running_script_stack_name s} \<and> \<not> script_is_running t \<and>
     state_kbd_script_run t = SCRIPT_STATE_INACTIVE \<and> script_terminate_key t = KEY_SHOOT_FULL \<and>
     script_get_alt_text t = ''<ALT>'' \<and> print_screen_d t < 0 \<and> console_autoredraw t = 1 \<and>
     kbd_mod_state t = kbd_mod_state (kbd_key_release_all P s) \<and> old_gui_handler t = None \<and>
     (case old_gui_handler s of
        None \<Rightarrow> gui_mode t = gui_mode s
      | Some h \<Rightarrow> gui_mode t = Some (script_old_mode h s) \<and>
          (h = altGuiHandler \<and> state_gui_mode_none s \<longrightarrow> gui_mode t = Some defaultGuiHandler) \<and>
          (h = defaultGuiHandler \<and> state_gui_mode_alt s \<longrightarrow> gui_mode t = Some altGuiHandler))"
proof -
  obtain t where t: "script_end P G A s = Some t"
    "same_table (action_stack_kill (running_script_stack_name s) s) t" "running_script_stack_name t = -1"
    "state_kbd_script_run t = SCRIPT_STATE_INACTIVE" "script_terminate_key t = KEY_SHOOT_FULL"
    "print_screen_d t < 0" "console_autoredraw t = 1" "old_gui_handler t = None"
    "gui_mode t = (case old_gui_handler s of None \<Rightarrow> gui_mode s | Some h \<Rightarrow> Some (script_old_mode h s))"
    "kbd_mod_state t = kbd_mod_state (kbd_key_release_all P s)"
    using script_end_result [OF assms(1,2), of P G] by blast
  have "as_ok t" "running_ids t = running_ids s - {running_script_stack_name s}"
    using kill_ok [OF assms(3)] same_table_ok [OF t(2)] same_table_ids [OF t(2)] by simp_all
  moreover from this have "\<not> script_is_running t"
    using assms(4) t(3) by (simp add: script_is_running_def is_finished_running)
  moreover have "script_get_alt_text t = ''<ALT>''" by (simp add: script_get_alt_text_def t)
  ultimately show ?thesis
    using t by (cases "old_gui_handler s") (simp_all add: script_old_mode_def)
qed

text \<open>The console message of a script that is stopped.\<close>

lemma add_error_result:
  assumes "console_ok s"
  shows "\<exists>t. script_console_add_error m s = Some t \<and> same_table s t \<and> gui_mode t = gui_mode s \<and>
     running_script_stack_name t = running_script_stack_name s \<and> old_gui_handler t = old_gui_handler s \<and>
     state_kbd_script_run t = state_kbd_script_run s \<and> state_gui_mode_none t = state_gui_mode_none s \<and>
     state_gui_mode_alt t = state_gui_mode_alt s \<and>
     hd (history t) = last (wrap (eff_width s) (lang_str s m))"
proof -
  let ?s = "s\<lparr>console_autoredraw := 1\<rparr>"
  have ok: "console_ok ?s" by (rule console_ok_cong [OF assms]) simp_all
  have "console_autoredraw ?s \<noteq> -1" by simp
  from add_line_refines [OF ok this, of "lang_str s m"] obtain t b n c where t:
    "console_add_line (lang_str s m) ?s = Some t"
    "t = (console_ensure_inited ?s)\<lparr>console_buf := b, console_num_lines := n, console_cur_line := c,
       console_displayed := False, console_last_modified := tick_count ?s\<rparr>"
    "history t = take 30 (rev (wrap (eff_width ?s) (lang_str s m)) @ history ?s)"
    by blast
  have w: "eff_width ?s = eff_width s" by (simp add: eff_width_def console_is_inited_def)
  have h: "hd (history t) = last (wrap (eff_width s) (lang_str s m))"
    unfolding t(3) w by (simp add: hd_rev)
  have f: "same_table s t \<and> gui_mode t = gui_mode s \<and>
     running_script_stack_name t = running_script_stack_name s \<and> old_gui_handler t = old_gui_handler s \<and>
     state_kbd_script_run t = state_kbd_script_run s \<and> state_gui_mode_none t = state_gui_mode_none s \<and>
     state_gui_mode_alt t = state_gui_mode_alt s"
    by (simp add: t(2) same_table_def console_ensure_inited_def console_init_def)
  have "history (ext_call x (ext_call y t)) = history t" for x y
    by (rule history_cong) (simp_all add: ext_call_def)
  with t(1) f h show ?thesis
    by (auto simp: script_console_add_error_def script_console_add_line_def console_set_autoredraw_def
        same_table_def ext_call_def)
qed

text \<open>C32: A request to terminate is honoured. When another task asks for the end of a running script and waits,
  the first keyboard timeslice that checks for requests ends the script, whatever the
  script does, so the wait is over after it; the script's stack is gone and all others run on.\<close>

theorem script_terminate_request_honoured:
  assumes A: "reset_ok A" and g: "gui_mode s \<noteq> None" and ok: "as_ok s" and con: "console_ok s"
    and on: "state_kbd_script_run s \<noteq> SCRIPT_STATE_INACTIVE"
  shows "\<exists>t. script_wait_terminate (script_check_terminate P G A # env) s = Some t \<and>
     state_kbd_script_run t = SCRIPT_STATE_INACTIVE \<and>
     as_ok t \<and> running_ids t = running_ids s - {running_script_stack_name s}"
proof -
  let ?s = "ext_call (Msleep 10) (s\<lparr>script_terminate_request := True\<rparr>)"
  have con': "console_ok ?s" by (rule console_ok_cong [OF con]) (simp_all add: ext_call_def)
  obtain s1 where s1: "script_console_add_error LANG_CONSOLE_TEXT_TERMINATED ?s = Some s1" "same_table ?s s1"
    "gui_mode s1 = gui_mode ?s" "running_script_stack_name s1 = running_script_stack_name ?s"
    using add_error_result [OF con', of LANG_CONSOLE_TEXT_TERMINATED] by blast
  have "gui_mode s1 \<noteq> None" using g s1(3) by (simp add: ext_call_def)
  from script_end_result [OF A this, of P G] obtain t where t: "script_end P G A s1 = Some t"
    "same_table (action_stack_kill (running_script_stack_name s1) s1) t"
    "state_kbd_script_run t = SCRIPT_STATE_INACTIVE"
    by blast
  have "same_table s s1" using s1(2) by (simp add: same_table_def ext_call_def)
  note st = same_table_ok [OF this] same_table_ids [OF this]
  have "as_ok t" "running_ids t = running_ids s - {running_script_stack_name s}"
    using kill_ok [of s1] ok st same_table_ok [OF t(2)] same_table_ids [OF t(2)] s1(4)
    by (simp_all add: ext_call_def)
  moreover have "script_check_terminate P G A ?s = Some t"
    using on s1(1) t(1) by (simp add: script_check_terminate_def SCRIPT_STATE_INACTIVE_def ext_call_def)
  then have "script_wait_terminate (script_check_terminate P G A # env) s = Some t"
    using on t(3) by (simp add: script_wait_terminate_def)
  ultimately show ?thesis using t(3) by blast
qed

section \<open>A script at work\<close>

text \<open>A script language whose script ends in its first slice.\<close>

definition demo_api :: "script_state script_api" where
  "demo_api = \<lparr>sa_script_run = (\<lambda>s. Some (0, s)), sa_run_restore = (\<lambda>s. Some (0, s)),
     sa_script_reset = (\<lambda>s. Some (s\<lparr>ext_calls := []\<rparr>)), sa_script_start_file = (\<lambda>_ s. Some (1, s))\<rparr>"

definition demo_script_code :: "script_state as_code" where
  "demo_script_code = \<lparr>fn_addr = (\<lambda>f. if f = AS_OTHER 0 then 36 else 4),
     fn_at = (\<lambda>a. if a = 36 then Some (AS_OTHER 0) else Some AS_SLEEP),
     other_func = (\<lambda>_. action_stack_AS_SCRIPT_RUN a570_platform demo_gui demo_api)\<rparr>"

definition script_idle :: script_state where
  "script_idle = console.extend console_start
     (script_state.fields (-1) 7 [] False 0 (-1) [] None 0 0 0 ''A/CHDK/SCRIPTS/EDI.BAS'' [] (\<lambda>_. ''msg'') 3)"

lemma script_idle_sel [simp]:
  "action_stacks script_idle = []" "free_stacks script_idle = []" "num_stacks script_idle = 0"
  "task_comp_id script_idle = 1" "as_brk script_idle = 0" "running_script_stack_name script_idle = -1"
  "gui_mode script_idle = Some altGuiHandler" "old_gui_handler script_idle = None"
  "state_gui_mode_none script_idle = False" "state_kbd_script_run script_idle = 0"
  "console_buf script_idle = replicate 30 []" "console_max_lines script_idle = 0"
  "console_num_lines script_idle = 0" "console_cur_line script_idle = 0"
  "console_line_length script_idle = 0" "console_scroll script_idle = 0" "screen_height script_idle = 240"
  by (simp_all add: script_idle_def script_state.defs console_start_def console.defs gui_start_def
      gui_state.defs usb_init_def usb_remote.defs as_init_def as_state.defs kbd_init_def keyboard.defs
      camera.defs)

lemma script_idle_ok: "as_ok script_idle" "console_ok script_idle" "running_ids script_idle = {}"
  by (simp_all add: as_ok_def running_ids_def console_ok_def MAX_CONSOLE_LINES_def console_consts list_all_iff)

lemma demo_reset_ok: "reset_ok demo_api"
  by (auto simp: reset_ok_def demo_api_def)


text \<open>The script started, its turn to run.\<close>

definition script_turn :: script_state where
  "script_turn = (snd (script_stack_start demo_script_code script_idle))
     \<lparr>active_stack := Some 0, old_gui_handler := Some altGuiHandler\<rparr>"

lemma demo_script_addr: "fn_addr demo_script_code AS_SCRIPT_RUN = 36"
  by (simp add: demo_script_code_def AS_SCRIPT_RUN_def)

lemma script_turn_eq:
  "script_turn = script_idle\<lparr>script_terminate_request := False, state_kbd_script_run := 1, as_brk := 1,
     action_stacks := [0], as_nodes := (as_nodes script_idle)(0 :=
       \<lparr>stack = (\<lambda>_. 0)(0 := 36, 1 := AS_FUNC_ENTRY), stack_ptr = 1, comp_id = 1, delay_target_ticks = 0\<rparr>),
     num_stacks := 1, task_comp_id := 2, running_script_stack_name := 1, active_stack := Some 0,
     old_gui_handler := Some altGuiHandler\<rparr>"
  by (simp add: script_turn_def script_stack_start_def action_stack_create_def as_get_block_def
      MAX_ACTION_STACKS_def Let_def demo_script_addr script_consts)

lemma script_turn_ok:
  "script_code_ok a570_platform demo_gui demo_api demo_script_code"
  "script_on_top demo_script_code 0 script_turn" "script_owns 0 script_turn"
  by (simp add: script_code_ok_def demo_script_code_def AS_SCRIPT_RUN_def)
    (simp_all add: script_turn_eq script_on_top_def script_owns_def as_ok_def Let_def demo_script_addr)

theorem script_timeslice_witness:
  "\<exists>t. action_stack_process a570_platform demo_script_code script_turn = Some t \<and>
     running_ids t = {} \<and> state_kbd_script_run t = 0"
proof -
  have ids: "running_ids script_turn = {running_script_stack_name script_turn}"
    by (simp add: script_turn_eq running_ids_def)
  have run: "sa_script_run demo_api script_turn = Some (0, script_turn)" by (simp add: demo_api_def)
  show ?thesis
    using script_timeslice [OF script_turn_ok(1) demo_reset_ok script_turn_ok(2) run script_turn_ok(3)] ids
    by (auto simp: script_consts)
qed

theorem script_end_cleans_up_witness:
  "\<exists>t. script_end a570_platform demo_gui demo_api (script_idle
     \<lparr>old_gui_handler := Some altGuiHandler, state_gui_mode_none := True\<rparr>) = Some t \<and>
     gui_mode t = Some defaultGuiHandler"
proof -
  have "as_ok (script_idle\<lparr>old_gui_handler := Some altGuiHandler, state_gui_mode_none := True\<rparr>)"
    "running_ids (script_idle\<lparr>old_gui_handler := Some altGuiHandler, state_gui_mode_none := True\<rparr>) = {}"
    by (simp_all add: as_ok_def running_ids_def)
  then show ?thesis
    using script_end_cleans_up [OF demo_reset_ok, of "script_idle
      \<lparr>old_gui_handler := Some altGuiHandler, state_gui_mode_none := True\<rparr>" a570_platform demo_gui]
    by auto
qed

theorem script_terminate_request_honoured_witness:
  "\<exists>t. script_wait_terminate [script_check_terminate a570_platform demo_gui demo_api]
     (script_idle\<lparr>state_kbd_script_run := 1\<rparr>) = Some t \<and> state_kbd_script_run t = 0"
proof -
  have "as_ok (script_idle\<lparr>state_kbd_script_run := 1\<rparr>)" "console_ok (script_idle\<lparr>state_kbd_script_run := 1\<rparr>)"
    using script_idle_ok by (simp_all add: as_ok_def console_ok_def MAX_CONSOLE_LINES_def)
  then show ?thesis
    using script_terminate_request_honoured [OF demo_reset_ok,
        of "script_idle\<lparr>state_kbd_script_run := 1\<rparr>" a570_platform demo_gui "[]"]
    by (auto simp: SCRIPT_STATE_INACTIVE_def)
qed

end
