(* ===== verification/KbdProcess.thy ===== *)
theory KbdProcess
  imports Script
begin

text \<open>
  \<open>core/kbd_process.c\<close>: the keyboard task's loop body. It debounces nothing and owns no keys; it decides
  who sees the buttons: the ALT mode switch with the emulation of a long press of the ALT button,
  auto repeat for menus, the USB remote, the current GUI mode, and the action stacks, in this
  order. Besides, the start of a script from the ALT mode (\<open>alt_mode_script_run\<close> and the first
  line of \<open>gui_chdk_kbd_process\<close> in \<open>core/gui.c\<close>).
\<close>

section \<open>State\<close>

definition KBD_REPEAT_DELAY :: int where "KBD_REPEAT_DELAY = 175"
definition KBD_INITIAL_DELAY :: int where "KBD_INITIAL_DELAY = 500"
definition CAM_EMUL_KEYPRESS_DELAY :: int where "CAM_EMUL_KEYPRESS_DELAY = 40"
definition CAM_EMUL_KEYPRESS_DURATION :: int where "CAM_EMUL_KEYPRESS_DURATION = 5"
definition SCRIPT_AUTOSTART_ALT :: int where "SCRIPT_AUTOSTART_ALT = 3"

lemmas kbd_consts = KBD_REPEAT_DELAY_def KBD_INITIAL_DELAY_def CAM_EMUL_KEYPRESS_DELAY_def
  CAM_EMUL_KEYPRESS_DURATION_def SCRIPT_AUTOSTART_ALT_def

record kbd_task = script_state +
  last_kbd_key :: int
  last_kbd_time :: u32
  press_count :: int
  kbd_blocked :: int
  key_pressed :: int
  script_run_on_alt_flag :: bool
  is_shutter_half_press :: bool
  md_af_tuning :: bool
  md_af_on_flag :: int
  md_detect_tick :: u32
  md_af_on_delay :: u32
  md_af_on_time :: u32
  cam_af_led :: int
  conf_alt_mode_button :: int
  conf_script_startup :: int
  conf_remote_enable_scripts :: int
  ts_touched_in :: bool

text \<open>The functions of other files the loop calls through tables or that are not modelled.\<close>

record 's kbd_code =
  kc_actions :: "'s as_code"
  kc_gui :: "'s gui_code"
  kc_script :: "'s script_api"
  kc_alt_buttons :: "'s \<Rightarrow> (int \<times> 's) option"
  kc_start_ptp_script :: "'s \<Rightarrow> 's option"

section \<open>Auto repeat\<close>

definition kbd_get_autoclicked_key ::
  "platform \<Rightarrow> 'a kbd_task_scheme \<Rightarrow> int \<times> 'a kbd_task_scheme" where
  "kbd_get_autoclicked_key P s =
     (let key = kbd_get_clicked_key P s in
      if key \<noteq> 0 \<and> key \<noteq> last_kbd_key s
      then (key, s\<lparr>last_kbd_key := key, press_count := 0, last_kbd_time := tick_count s\<rparr>)
      else if last_kbd_key s \<noteq> 0 \<and> kbd_is_key_pressed P (last_kbd_key s) s
      then let t = tick_count s in
        if elapsed t (last_kbd_time s) >
             (if press_count s \<noteq> 0 then KBD_REPEAT_DELAY else KBD_INITIAL_DELAY)
        then (last_kbd_key s, s\<lparr>press_count := press_count s + 1, last_kbd_time := t\<rparr>)
        else (0, s)
      else (0, s\<lparr>last_kbd_key := 0\<rparr>))"

section \<open>The ALT mode\<close>

definition kbd_is_blocked :: "'a kbd_task_scheme \<Rightarrow> int" where
  "kbd_is_blocked s = kbd_blocked s"

definition enter_alt :: "'a kbd_task_scheme \<Rightarrow> 'a kbd_task_scheme" where
  "enter_alt s = gui_set_alt_mode_state ALT_MODE_ENTER ((clear_usb_power s)\<lparr>kbd_blocked := 1\<rparr>)"

definition exit_alt :: "'a kbd_task_scheme \<Rightarrow> 'a kbd_task_scheme" where
  "exit_alt s = gui_set_alt_mode_state ALT_MODE_LEAVE (s\<lparr>kbd_blocked := 0\<rparr>)"

definition alt_mode_script_run ::
  "platform \<Rightarrow> ('a kbd_task_scheme) kbd_code \<Rightarrow> 'a kbd_task_scheme \<Rightarrow>
   (bool \<times> 'a kbd_task_scheme) option" where
  "alt_mode_script_run P K s =
     (let (ready, s1) =
            (if conf_remote_enable s \<noteq> 0 \<and> conf_remote_enable_scripts s \<noteq> 0
             then (let (n, t) = get_usb_power SINGLE_PULSE s in (n > 5, t)) else (False, s))
      in if kbd_is_key_clicked P KEY_SHOOT_FULL s1 \<or> ready \<or> script_run_on_alt_flag s1
         then do {
           (_, s2) \<leftarrow> script_start_gui P (kc_actions K) (kc_gui K) (kc_script K) 0
                        (s1\<lparr>script_run_on_alt_flag := False\<rparr>);
           Some (True, s2) }
         else Some (False, s1))"

text \<open>\<open>kc_alt_buttons\<close> is the rest of \<open>gui_chdk_kbd_process\<close>, the shortcuts.\<close>

definition gui_chdk_kbd_process ::
  "platform \<Rightarrow> ('a kbd_task_scheme) kbd_code \<Rightarrow> 'a kbd_task_scheme \<Rightarrow>
   (int \<times> 'a kbd_task_scheme) option" where
  "gui_chdk_kbd_process P K s = do {
     (run, s1) \<leftarrow> alt_mode_script_run P K s;
     if run then Some (0, s1) else kc_alt_buttons K s1 }"

section \<open>The loop body\<close>

definition md_af_led :: "'a kbd_task_scheme \<Rightarrow> 'a kbd_task_scheme" where
  "md_af_led s =
     (if md_af_tuning s
      then
        if md_af_on_flag s = 1 \<and> md_detect_tick s + md_af_on_delay s \<le> tick_count s
        then ext_call (CameraSetLed (cam_af_led s) 1 200) (s\<lparr>md_af_on_flag := 2\<rparr>)
        else if md_af_on_flag s = 2 \<and>
                md_detect_tick s + md_af_on_delay s + md_af_on_time s \<le> tick_count s
        then ext_call (CameraSetLed (cam_af_led s) 0 0) (s\<lparr>md_af_on_flag := 0\<rparr>)
        else s
      else s)"

text \<open>What is noted of the keys before anything else looks at them.\<close>

definition note_keys :: "platform \<Rightarrow> 'a kbd_task_scheme \<Rightarrow> 'a kbd_task_scheme" where
  "note_keys P s =
     (let s1 = (if kbd_get_pressed_key P s = 0 then s\<lparr>last_kbd_key := 0\<rparr> else s);
          s2 = (if kbd_get_clicked_key P s1 \<noteq> 0
                then s1\<lparr>kbd_last_clicked := kbd_get_clicked_key P s1,
                        kbd_last_clicked_time := tick_count s1\<rparr> else s1)
      in s2\<lparr>is_shutter_half_press := kbd_is_key_pressed P KEY_SHOOT_HALF s2\<rparr>)"

text \<open>The switch while the ALT button is down or its long press is emulated.\<close>

definition alt_button_step :: "platform \<Rightarrow> 'a kbd_task_scheme \<Rightarrow> 'a kbd_task_scheme" where
  "alt_button_step P s =
     (let D = CAM_EMUL_KEYPRESS_DELAY; E = CAM_EMUL_KEYPRESS_DELAY + CAM_EMUL_KEYPRESS_DURATION in
      if kbd_is_key_pressed P (conf_alt_mode_button s) s \<or> (key_pressed s \<ge> D \<and> key_pressed s < E)
      then
        let s1 = (if key_pressed s \<le> E then s\<lparr>key_pressed := key_pressed s + 1\<rparr> else s)
        in if key_pressed s1 = D then kbd_key_press P (conf_alt_mode_button s1) s1
           else if key_pressed s1 = E then kbd_key_release P (conf_alt_mode_button s1) s1
           else s1
      else if kbd_get_pressed_key P s = 0
      then
        let s1 = (if key_pressed s < D
                  then if kbd_blocked s = 0
                       then enter_alt (if conf_script_startup s = SCRIPT_AUTOSTART_ALT
                                       then s\<lparr>script_run_on_alt_flag := True\<rparr> else s)
                       else exit_alt s
                  else s)
        in s1\<lparr>key_pressed := 0\<rparr>
      else s)"

text \<open>
  The part after the ALT switch. \<open>ts_process_touch\<close> exists on touch screen cameras; its result is an
  input.
\<close>

definition kbd_process_rest ::
  "platform \<Rightarrow> ('a kbd_task_scheme) kbd_code \<Rightarrow> 'a kbd_task_scheme \<Rightarrow>
   (int \<times> 'a kbd_task_scheme) option" where
  "kbd_process_rest P K s = do {
     let s1 = (if cam_touchscreen_ui P \<and> ts_touched_in s then gui_set_need_restore s else s);
     s2 \<leftarrow> (if kbd_blocked s1 = 0 \<or> usb_remote_active s1 \<noteq> 0
            then do { (r, t) \<leftarrow> handle_usb_remote P (kc_actions K) s1; Some (t\<lparr>kbd_blocked := r\<rparr>) }
            else Some s1);
     (r, s3) \<leftarrow> gui_kbd_process P (kc_gui K) s2;
     if r \<noteq> 0 then Some (1, s3)
     else do {
       s4 \<leftarrow> action_stack_process_all P (kc_actions K) s3;
       s5 \<leftarrow> kc_start_ptp_script K s4;
       Some (kbd_blocked s5, s5) } }"

definition kbd_process ::
  "platform \<Rightarrow> ('a kbd_task_scheme) kbd_code \<Rightarrow> 'a kbd_task_scheme \<Rightarrow>
   (int \<times> 'a kbd_task_scheme) option" where
  "kbd_process P K s0 = do {
     let s1 = md_af_led (if usb_HPtimer_handle s0 = 0 then usb_remote_key s0 else s0);
     s2 \<leftarrow> script_check_terminate P (kc_gui K) (kc_script K) s1;
     let s = note_keys P s2;
     if key_pressed s \<noteq> 0 \<and> usb_remote_active s = 0
     then Some (1, alt_button_step P s)
     else if is_shutter_half_press s \<and> kbd_is_key_pressed P (conf_alt_mode_button s) s
     then Some (0, s)
     else if kbd_is_key_pressed P (conf_alt_mode_button s) s
     then Some (1, kbd_key_release_all P (s\<lparr>key_pressed := 1\<rparr>))
     else kbd_process_rest P K s }"

section \<open>What a timeslice does before it decides\<close>

text \<open>The state the decisions are made in, when no script is terminated.\<close>

definition kbd_noted :: "platform \<Rightarrow> 'a kbd_task_scheme \<Rightarrow> 'a kbd_task_scheme" where
  "kbd_noted P s = note_keys P (md_af_led (if usb_HPtimer_handle s = 0 then usb_remote_key s else s))"

lemma usb_remote_key_keeps_kbd:
  fixes s :: "'a kbd_task_scheme"
  shows "key_pressed (usb_remote_key s) = key_pressed s" "kbd_blocked (usb_remote_key s) = kbd_blocked s"
    "script_terminate_request (usb_remote_key s) = script_terminate_request s"
    "conf_alt_mode_button (usb_remote_key s) = conf_alt_mode_button s"
    "gui_current_alt_state (usb_remote_key s) = gui_current_alt_state s"
    "script_run_on_alt_flag (usb_remote_key s) = script_run_on_alt_flag s"
    "conf_script_startup (usb_remote_key s) = conf_script_startup s"
    "kbd_mod_state (usb_remote_key s) = kbd_mod_state s"
    "kbd_new_state (usb_remote_key s) = kbd_new_state s"
    "usb_remote_active (usb_remote_key s) = usb_remote_active s"
    "state_kbd_script_run (usb_remote_key s) = state_kbd_script_run s"
  by (simp_all add: usb_remote_key_def usb_buffer_insert_def Let_def)

lemma md_af_led_keeps_kbd:
  fixes s :: "'a kbd_task_scheme"
  shows "key_pressed (md_af_led s) = key_pressed s" "kbd_blocked (md_af_led s) = kbd_blocked s"
    "script_terminate_request (md_af_led s) = script_terminate_request s"
    "conf_alt_mode_button (md_af_led s) = conf_alt_mode_button s"
    "gui_current_alt_state (md_af_led s) = gui_current_alt_state s"
    "script_run_on_alt_flag (md_af_led s) = script_run_on_alt_flag s"
    "conf_script_startup (md_af_led s) = conf_script_startup s"
    "kbd_mod_state (md_af_led s) = kbd_mod_state s"
    "kbd_new_state (md_af_led s) = kbd_new_state s"
    "usb_remote_active (md_af_led s) = usb_remote_active s"
    "state_kbd_script_run (md_af_led s) = state_kbd_script_run s"
  by (simp_all add: md_af_led_def ext_call_def)

lemma key_query_cong:
  "kbd_new_state t = kbd_new_state s \<Longrightarrow> kbd_is_key_pressed P k t = kbd_is_key_pressed P k s"
  "kbd_new_state t = kbd_new_state s \<Longrightarrow> kbd_get_pressed_key P t = kbd_get_pressed_key P s"
  by (simp_all add: kbd_is_key_pressed_def kbd_get_pressed_key_def split: option.splits)

lemma key_query_upd:
  fixes s :: "'a kbd_task_scheme"
  shows "kbd_is_key_pressed P k (s\<lparr>last_kbd_key := a\<rparr>) = kbd_is_key_pressed P k s"
    "kbd_is_key_pressed P k (s\<lparr>kbd_last_clicked := b, kbd_last_clicked_time := c\<rparr>) = kbd_is_key_pressed P k s"
    "kbd_is_key_pressed P k (s\<lparr>last_kbd_key := a, kbd_last_clicked := b, kbd_last_clicked_time := c\<rparr>) =
       kbd_is_key_pressed P k s"
  by (rule key_query_cong, simp)+

lemma note_keys_keeps_kbd:
  fixes s :: "'a kbd_task_scheme"
  shows "key_pressed (note_keys P s) = key_pressed s" "kbd_blocked (note_keys P s) = kbd_blocked s"
    "script_terminate_request (note_keys P s) = script_terminate_request s"
    "conf_alt_mode_button (note_keys P s) = conf_alt_mode_button s"
    "gui_current_alt_state (note_keys P s) = gui_current_alt_state s"
    "script_run_on_alt_flag (note_keys P s) = script_run_on_alt_flag s"
    "conf_script_startup (note_keys P s) = conf_script_startup s"
    "kbd_mod_state (note_keys P s) = kbd_mod_state s"
    "kbd_new_state (note_keys P s) = kbd_new_state s"
    "usb_remote_active (note_keys P s) = usb_remote_active s"
    "state_kbd_script_run (note_keys P s) = state_kbd_script_run s"
    "is_shutter_half_press (note_keys P s) = kbd_is_key_pressed P KEY_SHOOT_HALF s"
  by (simp_all add: note_keys_def Let_def key_query_upd)

lemmas keeps_kbd = usb_remote_key_keeps_kbd md_af_led_keeps_kbd note_keys_keeps_kbd

lemma key_query_led:
  fixes s :: "'a kbd_task_scheme"
  shows "kbd_is_key_pressed P k (md_af_led s) = kbd_is_key_pressed P k s"
    "kbd_is_key_pressed P k (usb_remote_key s) = kbd_is_key_pressed P k s"
  by (rule key_query_cong, rule keeps_kbd)+

lemma kbd_noted_keeps:
  fixes s :: "'a kbd_task_scheme"
  shows "key_pressed (kbd_noted P s) = key_pressed s" "kbd_blocked (kbd_noted P s) = kbd_blocked s"
    "script_terminate_request (kbd_noted P s) = script_terminate_request s"
    "conf_alt_mode_button (kbd_noted P s) = conf_alt_mode_button s"
    "gui_current_alt_state (kbd_noted P s) = gui_current_alt_state s"
    "script_run_on_alt_flag (kbd_noted P s) = script_run_on_alt_flag s"
    "conf_script_startup (kbd_noted P s) = conf_script_startup s"
    "kbd_mod_state (kbd_noted P s) = kbd_mod_state s"
    "kbd_new_state (kbd_noted P s) = kbd_new_state s"
    "usb_remote_active (kbd_noted P s) = usb_remote_active s"
    "state_kbd_script_run (kbd_noted P s) = state_kbd_script_run s"
    "is_shutter_half_press (kbd_noted P s) = kbd_is_key_pressed P KEY_SHOOT_HALF s"
  by (simp_all add: kbd_noted_def keeps_kbd key_query_led)

text \<open>No script is about to be terminated.\<close>

definition quiet :: "'a kbd_task_scheme \<Rightarrow> bool" where
  "quiet s \<longleftrightarrow> (state_kbd_script_run s = 0 \<or> \<not> script_terminate_request s)"

lemma kbd_process_decides:
  assumes "quiet s"
  shows "kbd_process P K s =
     (if key_pressed s \<noteq> 0 \<and> usb_remote_active s = 0 then Some (1, alt_button_step P (kbd_noted P s))
      else if kbd_is_key_pressed P KEY_SHOOT_HALF s \<and> kbd_is_key_pressed P (conf_alt_mode_button s) s
      then Some (0, kbd_noted P s)
      else if kbd_is_key_pressed P (conf_alt_mode_button s) s
      then Some (1, kbd_key_release_all P ((kbd_noted P s)\<lparr>key_pressed := 1\<rparr>))
      else kbd_process_rest P K (kbd_noted P s))"
proof -
  let ?s1 = "md_af_led (if usb_HPtimer_handle s = 0 then usb_remote_key s else s)"
  have "script_check_terminate P (kc_gui K) (kc_script K) ?s1 = Some ?s1"
    using assms by (cases "usb_HPtimer_handle s = 0")
      (auto simp: quiet_def script_check_terminate_def keeps_kbd)
  moreover have "kbd_is_key_pressed P k (kbd_noted P s) = kbd_is_key_pressed P k s" for k
    by (rule key_query_cong) (rule kbd_noted_keeps)
  ultimately show ?thesis
    unfolding kbd_process_def Let_def by (simp add: kbd_noted_def [symmetric] kbd_noted_keeps)
qed

section \<open>The ALT button\<close>

text \<open>A timeslice with new key words, at a time.\<close>

definition kbd_slice ::
  "platform \<Rightarrow> ('a kbd_task_scheme) kbd_code \<Rightarrow> (nat \<Rightarrow> u32) \<times> u32 \<Rightarrow> 'a kbd_task_scheme \<Rightarrow>
   (int \<times> 'a kbd_task_scheme) option" where
  "kbd_slice P K i s = kbd_process P K
     (s\<lparr>kbd_prev_state := kbd_new_state s, kbd_new_state := fst i, tick_count := snd i\<rparr>)"

text \<open>A timeslice that hides the keys from the firmware.\<close>

definition hidden_slice ::
  "platform \<Rightarrow> ('a kbd_task_scheme) kbd_code \<Rightarrow> (nat \<Rightarrow> u32) \<times> u32 \<Rightarrow> 'a kbd_task_scheme \<Rightarrow>
   'a kbd_task_scheme option" where
  "hidden_slice P K i s =
     (case kbd_slice P K i s of Some (r, t) \<Rightarrow> if r = 1 then Some t else None | None \<Rightarrow> None)"

text \<open>The ALT button has the map entry \<open>e\<close>; it is not a simulated video key.\<close>

definition alt_ok :: "platform \<Rightarrow> keymap_entry \<Rightarrow> 'a kbd_task_scheme \<Rightarrow> bool" where
  "alt_ok P e s \<longleftrightarrow> find_key (keymap P) (conf_alt_mode_button s) = Some e \<and> canonkey e \<noteq> 0 \<and>
     \<not> (kbd_simulate_video_key P \<and> conf_alt_mode_button s = KEY_VIDEO) \<and>
     quiet s \<and> usb_remote_active s = 0"

definition alt_down :: "platform \<Rightarrow> keymap_entry \<Rightarrow> (nat \<Rightarrow> u32) \<times> u32 \<Rightarrow> bool" where
  "alt_down P e i \<longleftrightarrow> fst i (grp e) AND canonkey e = 0 \<and>
     (case find_key (keymap P) KEY_SHOOT_HALF of None \<Rightarrow> True | Some h \<Rightarrow> fst i (grp h) AND canonkey h \<noteq> 0)"

definition all_up :: "platform \<Rightarrow> keymap_entry \<Rightarrow> (nat \<Rightarrow> u32) \<times> u32 \<Rightarrow> bool" where
  "all_up P e i \<longleftrightarrow> fst i (grp e) AND canonkey e \<noteq> 0 \<and>
     first_key (keymap P) (\<lambda>e. fst i (grp e) AND canonkey e = 0) = 0"

text \<open>What the firmware sees of the ALT button.\<close>

definition alt_seen :: "keymap_entry \<Rightarrow> 'a kbd_task_scheme \<Rightarrow> u32" where
  "alt_seen e s = kbd_mod_state s (grp e) AND canonkey e"

text \<open>The counter after a timeslice, \<open>d\<close> for the button down.\<close>

definition alt_next :: "bool \<Rightarrow> int \<Rightarrow> int" where
  "alt_next d k =
     (if k = 0 then (if d then 1 else 0)
      else if d \<or> (40 \<le> k \<and> k < 45) then (if k \<le> 45 then k + 1 else k) else 0)"

text \<open>One timeslice with the ALT button down or every key up.\<close>

definition alt_flips :: "bool \<Rightarrow> 'a kbd_task_scheme \<Rightarrow> bool" where
  "alt_flips d s \<longleftrightarrow> \<not> d \<and> key_pressed s < 40"

definition alt_after :: "bool \<Rightarrow> 'a kbd_task_scheme \<Rightarrow> 'a kbd_task_scheme \<Rightarrow> bool" where
  "alt_after f s t \<longleftrightarrow> conf_script_startup t = conf_script_startup s \<and>
     (if f
      then (if kbd_blocked s = 0
            then kbd_blocked t = 1 \<and> gui_current_alt_state t = ALT_MODE_ENTER \<and>
                 script_run_on_alt_flag t =
                   (script_run_on_alt_flag s \<or> conf_script_startup s = SCRIPT_AUTOSTART_ALT)
            else kbd_blocked t = 0 \<and> gui_current_alt_state t = ALT_MODE_LEAVE \<and>
                 script_run_on_alt_flag t = script_run_on_alt_flag s)
      else kbd_blocked t = kbd_blocked s \<and> gui_current_alt_state t = gui_current_alt_state s \<and>
           script_run_on_alt_flag t = script_run_on_alt_flag s)"

lemma alt_after_step: "alt_after False s t \<Longrightarrow> alt_after f t u \<Longrightarrow> alt_after f s u"
  by (simp add: alt_after_def)

lemma press_key_state:
  fixes s :: "'a kbd_task_scheme"
  assumes "find_key (keymap P) k = Some e" and "\<not> (kbd_simulate_video_key P \<and> k = KEY_VIDEO)"
  shows "kbd_key_press P k s = s\<lparr>kbd_mod_state := (kbd_mod_state s)
           (grp e := kbd_mod_state s (grp e) AND NOT (canonkey e))\<rparr>"
    "kbd_key_release P k s = s\<lparr>kbd_mod_state := (kbd_mod_state s)
           (grp e := kbd_mod_state s (grp e) OR canonkey e)\<rparr>"
  using assms by (auto simp: kbd_key_press_def kbd_key_release_def)

lemma release_all_seen:
  "m AND c = c \<Longrightarrow> (m OR x) AND c = (c :: u32)"
  by (auto simp: bit_eq_iff bit_simps)

lemma release_all_alt_seen:
  "alt_seen e s = canonkey e \<Longrightarrow> alt_seen e (kbd_key_release_all P s) = canonkey e"
  by (auto simp: alt_seen_def kbd_key_release_all_def Let_def release_all_seen)

lemma alt_button_held:
  fixes s :: "'a kbd_task_scheme"
  assumes e: "find_key (keymap P) (conf_alt_mode_button s) = Some e"
    "\<not> (kbd_simulate_video_key P \<and> conf_alt_mode_button s = KEY_VIDEO)"
    and held: "kbd_is_key_pressed P (conf_alt_mode_button s) s \<or> (40 \<le> key_pressed s \<and> key_pressed s < 45)"
  shows "\<exists>k m. alt_button_step P s = s\<lparr>key_pressed := k, kbd_mod_state := m\<rparr> \<and>
     k = (if key_pressed s \<le> 45 then key_pressed s + 1 else key_pressed s) \<and>
     m (grp e) AND canonkey e = (if k = 40 then 0 else if k = 45 then canonkey e else alt_seen e s)"
proof -
  define k where "k = (if key_pressed s \<le> 45 then key_pressed s + 1 else key_pressed s)"
  let ?m = "kbd_mod_state s"
  let ?n = "if k = 40 then ?m(grp e := ?m (grp e) AND NOT (canonkey e))
            else if k = 45 then ?m(grp e := ?m (grp e) OR canonkey e) else ?m"
  have s1: "(if key_pressed s \<le> 45 then s\<lparr>key_pressed := key_pressed s + 1\<rparr> else s) = s\<lparr>key_pressed := k\<rparr>"
    by (cases s) (simp add: k_def)
  have m: "s\<lparr>key_pressed := k\<rparr> = s\<lparr>key_pressed := k, kbd_mod_state := ?m\<rparr>" by (cases s) simp
  have "alt_button_step P s = s\<lparr>key_pressed := k, kbd_mod_state := ?n\<rparr>"
    using held e m by (auto simp: alt_button_step_def kbd_consts s1 Let_def press_key_state)
  moreover have "?n (grp e) AND canonkey e = (if k = 40 then 0 else if k = 45 then canonkey e else alt_seen e s)"
    by (simp add: alt_seen_def)
  ultimately show ?thesis unfolding k_def by blast
qed

lemma quiet_cong:
  "state_kbd_script_run t = state_kbd_script_run s \<Longrightarrow>
     script_terminate_request t = script_terminate_request s \<Longrightarrow> quiet t = quiet s"
  by (simp add: quiet_def)

lemma alt_button_up:
  assumes "\<not> kbd_is_key_pressed P (conf_alt_mode_button s) s" and "kbd_get_pressed_key P s = 0"
    and "\<not> (40 \<le> key_pressed s \<and> key_pressed s < 45)"
  shows "let t = alt_button_step P s in key_pressed t = 0 \<and> kbd_mod_state t = kbd_mod_state s \<and>
     conf_alt_mode_button t = conf_alt_mode_button s \<and> usb_remote_active t = usb_remote_active s \<and>
     state_kbd_script_run t = state_kbd_script_run s \<and>
     script_terminate_request t = script_terminate_request s \<and> alt_after (alt_flips False s) s t"
  using assms
  by (auto simp: alt_button_step_def kbd_consts Let_def alt_after_def alt_flips_def enter_alt_def exit_alt_def
      gui_set_alt_mode_state_def clear_usb_power_def)

lemma alt_slice:
  fixes s :: "'a kbd_task_scheme"
  assumes ok: "alt_ok P e s" and i: "if d then alt_down P e i else all_up P e i"
    and k: "0 < key_pressed s \<or> d \<and> key_pressed s = 0"
    and seen: "key_pressed s = 0 \<Longrightarrow> alt_seen e s = canonkey e"
  shows "\<exists>t. hidden_slice P K i s = Some t \<and> alt_ok P e t \<and> key_pressed t = alt_next d (key_pressed s) \<and>
     alt_after (alt_flips d s) s t \<and>
     alt_seen e t = (if key_pressed t = 40 then 0 else if key_pressed t = 45 then canonkey e else alt_seen e s)"
proof -
  let ?s = "s\<lparr>kbd_prev_state := kbd_new_state s, kbd_new_state := fst i, tick_count := snd i\<rparr>"
  define u where "u = kbd_noted P ?s"
  have e: "find_key (keymap P) (conf_alt_mode_button s) = Some e"
    and v: "\<not> (kbd_simulate_video_key P \<and> conf_alt_mode_button s = KEY_VIDEO)"
    and act: "usb_remote_active s = 0" and q: "quiet s"
    using ok by (auto simp: alt_ok_def)
  have u: "key_pressed u = key_pressed s" "kbd_blocked u = kbd_blocked s"
    "script_terminate_request u = script_terminate_request s"
    "conf_alt_mode_button u = conf_alt_mode_button s" "gui_current_alt_state u = gui_current_alt_state s"
    "script_run_on_alt_flag u = script_run_on_alt_flag s" "conf_script_startup u = conf_script_startup s"
    "kbd_mod_state u = kbd_mod_state s" "kbd_new_state u = fst i" "usb_remote_active u = usb_remote_active s"
    "state_kbd_script_run u = state_kbd_script_run s"
    by (simp_all add: u_def kbd_noted_keeps)
  have q': "quiet ?s" using q by (simp add: quiet_def)
  have down: "kbd_is_key_pressed P (conf_alt_mode_button s) ?s = d" "kbd_is_key_pressed P (conf_alt_mode_button s) u = d"
    using i e u(9) by (auto simp: kbd_is_key_pressed_def alt_down_def all_up_def split: if_splits)
  have none: "kbd_get_pressed_key P u = 0" if "\<not> d"
    using i that u(9) by (simp add: kbd_get_pressed_key_def all_up_def)
  have half: "\<not> kbd_is_key_pressed P KEY_SHOOT_HALF ?s" if d
    using i that by (auto simp: kbd_is_key_pressed_def alt_down_def split: option.splits)
  note decide = kbd_process_decides [OF q', of P K, folded u_def]
  show ?thesis
  proof (cases "key_pressed s = 0")
    case True
    with k have d by simp
    let ?t = "kbd_key_release_all P (u\<lparr>key_pressed := 1\<rparr>)"
    have t: "?t = u\<lparr>key_pressed := 1, kbd_mod_state := kbd_mod_state ?t\<rparr>"
      by (simp add: kbd_key_release_all_def Let_def)
    have "alt_seen e (u\<lparr>key_pressed := 1\<rparr>) = canonkey e" using seen [OF True] by (simp add: alt_seen_def u)
    then have "alt_seen e ?t = canonkey e" by (rule release_all_alt_seen)
    moreover have "hidden_slice P K i s = Some ?t"
      unfolding hidden_slice_def kbd_slice_def decide using True \<open>d\<close> half down by simp
    moreover have "alt_ok P e ?t \<and> key_pressed ?t = 1 \<and> alt_after False s ?t"
      by (subst (1 2 3) t) (use ok in \<open>simp add: alt_ok_def quiet_def u alt_after_def\<close>)
    ultimately show ?thesis
      using seen [OF True] True \<open>d\<close> by (simp add: alt_next_def alt_flips_def)
  next
    case False
    with k have pos: "0 < key_pressed s" by simp
    have h: "hidden_slice P K i s = Some (alt_button_step P u)"
      unfolding hidden_slice_def kbd_slice_def decide using False act by simp
    show ?thesis
    proof (cases "d \<or> (40 \<le> key_pressed s \<and> key_pressed s < 45)")
      case True
      then obtain c m where st: "alt_button_step P u = u\<lparr>key_pressed := c, kbd_mod_state := m\<rparr>"
        "c = (if key_pressed u \<le> 45 then key_pressed u + 1 else key_pressed u)"
        "m (grp e) AND canonkey e = (if c = 40 then 0 else if c = 45 then canonkey e else alt_seen e u)"
        using alt_button_held [of P u e] e v down(2) u by auto
      have "alt_seen e u = alt_seen e s" by (simp add: alt_seen_def u)
      moreover have "\<not> alt_flips d s" using True by (auto simp: alt_flips_def)
      moreover have "c = alt_next d (key_pressed s)" using True False st(2) u by (simp add: alt_next_def)
      ultimately show ?thesis
        unfolding h st(1) using ok st(3) by (simp add: alt_ok_def quiet_def u alt_after_def alt_seen_def)
    next
      case False
      let ?t = "alt_button_step P u"
      have "\<not> kbd_is_key_pressed P (conf_alt_mode_button u) u" using False down u by simp
      from alt_button_up [OF this none] False u
      have t: "key_pressed ?t = 0" "kbd_mod_state ?t = kbd_mod_state s"
        "conf_alt_mode_button ?t = conf_alt_mode_button s" "usb_remote_active ?t = usb_remote_active s"
        "state_kbd_script_run ?t = state_kbd_script_run s"
        "script_terminate_request ?t = script_terminate_request s" "alt_after (alt_flips False u) u ?t"
        by (simp_all add: Let_def)
      have "alt_after (alt_flips d s) s ?t"
        using t(7) False by (simp add: alt_after_def alt_flips_def u)
      then show ?thesis
        unfolding h using ok t False pos by (simp add: alt_ok_def quiet_def alt_next_def alt_seen_def)
    qed
  qed
qed

lemma run_steps_append:
  "run_steps f (xs @ ys) s = do { t \<leftarrow> run_steps f xs s; run_steps f ys t }"
  by (induction xs arbitrary: s) (auto split: bind_splits)

lemma alt_downs:
  assumes "alt_ok P e s" and "key_pressed s = 0" and "alt_seen e s = canonkey e"
    and "\<forall>i \<in> set ds. alt_down P e i"
  shows "\<exists>t. run_steps (hidden_slice P K) ds s = Some t \<and> alt_ok P e t \<and>
     key_pressed t = min (int (length ds)) 46 \<and> alt_after False s t \<and>
     alt_seen e t = (if 40 \<le> length ds \<and> length ds < 45 then 0 else canonkey e)"
  using assms(4)
proof (induction ds rule: rev_induct)
  case Nil
  then show ?case using assms(1,2,3) by (simp add: alt_after_def)
next
  case (snoc i ds)
  then obtain t where t: "run_steps (hidden_slice P K) ds s = Some t" "alt_ok P e t"
    "key_pressed t = min (int (length ds)) 46" "alt_after False s t"
    "alt_seen e t = (if 40 \<le> length ds \<and> length ds < 45 then 0 else canonkey e)" by auto
  have i: "if True then alt_down P e i else all_up P e i" using snoc.prems by simp
  have k: "0 < key_pressed t \<or> True \<and> key_pressed t = 0" using t(3) by auto
  have sn: "key_pressed t = 0 \<Longrightarrow> alt_seen e t = canonkey e" using t(3,5) by auto
  obtain v where v: "hidden_slice P K i t = Some v" "alt_ok P e v"
    "key_pressed v = alt_next True (key_pressed t)" "alt_after (alt_flips True t) t v"
    "alt_seen e v = (if key_pressed v = 40 then 0 else if key_pressed v = 45 then canonkey e else alt_seen e t)"
    using alt_slice [OF t(2) i k sn] by blast
  have "key_pressed v = min (int (length (ds @ [i]))) 46"
    using v(3) t(3) by (auto simp: alt_next_def)
  moreover have "alt_seen e v = (if 40 \<le> length (ds @ [i]) \<and> length (ds @ [i]) < 45 then 0 else canonkey e)"
    using v(5) t(5) calculation by auto
  moreover have "alt_after False s v" using alt_after_step [OF t(4)] v(4) by (simp add: alt_flips_def)
  ultimately show ?case using t(1) v(1,2) by (simp add: run_steps_append)
qed

lemma alt_ups:
  assumes "alt_ok P e s" and "40 \<le> key_pressed s" and "key_pressed s \<le> 45"
    and "int (length us) = 46 - key_pressed s" and "\<forall>i \<in> set us. all_up P e i"
    and "key_pressed s = 45 \<longrightarrow> alt_seen e s = canonkey e"
  shows "\<exists>t. run_steps (hidden_slice P K) us s = Some t \<and> key_pressed t = 0 \<and> alt_after False s t \<and>
     alt_seen e t = canonkey e"
  using assms
proof (induction us arbitrary: s)
  case (Cons i us)
  have i: "if False then alt_down P e i else all_up P e i" using Cons.prems(5) by simp
  have k: "0 < key_pressed s \<or> False \<and> key_pressed s = 0" using Cons.prems(2) by auto
  have z: "key_pressed s = 0 \<Longrightarrow> alt_seen e s = canonkey e" using Cons.prems(2) by simp
  obtain v where v: "hidden_slice P K i s = Some v" "alt_ok P e v"
    "key_pressed v = alt_next False (key_pressed s)" "alt_after (alt_flips False s) s v"
    "alt_seen e v = (if key_pressed v = 40 then 0 else if key_pressed v = 45 then canonkey e else alt_seen e s)"
    using alt_slice [OF Cons.prems(1) i k z] by blast
  have f: "alt_after False s v" using v(4) Cons.prems(2) by (simp add: alt_flips_def)
  show ?case
  proof (cases "key_pressed s = 45")
    case True
    then have "us = []" "key_pressed v = 0" using Cons.prems(4) v(3) by (auto simp: alt_next_def)
    then show ?thesis using v True f Cons.prems(6) by simp
  next
    case False
    then have n: "key_pressed v = key_pressed s + 1" using v(3) Cons.prems(2,3) by (simp add: alt_next_def)
    obtain t where t: "run_steps (hidden_slice P K) us v = Some t" "key_pressed t = 0"
      "alt_after False v t" "alt_seen e t = canonkey e"
      using Cons.IH [OF v(2)] Cons.prems(2-5) False n v(5) by auto
    then show ?thesis using v(1) alt_after_step [OF f t(3)] by simp
  qed
qed simp

section \<open>Properties\<close>


definition kbd_start :: kbd_task where
  "kbd_start = script_state.extend script_idle
     (kbd_task.fields 0 0 0 0 0 False False False 0 0 0 0 0 KEY_PRINT 0 0 False)"

lemma kbd_start_sel [simp]:
  "key_pressed kbd_start = 0" "kbd_blocked kbd_start = 0" "conf_alt_mode_button kbd_start = KEY_PRINT"
  "usb_remote_active kbd_start = 0" "state_kbd_script_run kbd_start = 0" "conf_script_startup kbd_start = 0"
  "kbd_mod_state kbd_start = (\<lambda>_. 0xFFFFFFFF)" "gui_mode kbd_start = Some altGuiHandler"
  "script_run_on_alt_flag kbd_start = False" "gui_current_alt_state kbd_start = ALT_MODE_NORMAL"
  "conf_user_menu_enable kbd_start = 0"
  by (simp_all add: kbd_start_def kbd_task.defs script_idle_def script_state.defs console_start_def
      console.defs gui_start_def gui_state.defs usb_init_def usb_remote.defs as_init_def as_state.defs
      kbd_init_def keyboard.defs camera.defs)

definition demo_kbd :: "kbd_task kbd_code" where
  "demo_kbd = \<lparr>kc_actions = \<lparr>fn_addr = (\<lambda>_. 4), fn_at = (\<lambda>_. None), other_func = (\<lambda>_ _. None)\<rparr>,
     kc_gui = \<lparr>other_handler = (\<lambda>_. \<lparr>gh_mode = 9, gh_flags = 0\<rparr>), null_handler = None,
       kbd_process_fn = (\<lambda>_. None), kbd_process_menu_btn_fn = (\<lambda>_. None),
       touch_handler_fn = (\<lambda>_. None), cam_disp_alt_text = False, key_menu = 10\<rparr>,
     kc_script = \<lparr>sa_script_run = (\<lambda>s. Some (0, s)), sa_run_restore = (\<lambda>s. Some (0, s)),
       sa_script_reset = Some, sa_script_start_file = (\<lambda>_ s. Some (1, s))\<rparr>,
     kc_alt_buttons = (\<lambda>s. Some (0, s)), kc_start_ptp_script = Some\<rparr>"

text \<open>The print button of the a570, down and up.\<close>

definition print_down :: "(nat \<Rightarrow> u32) \<times> u32" where
  "print_down = ((\<lambda>_. 0xFFFFFFFF)(2 := 0xFFFFF7FF), 0)"

definition print_up :: "(nat \<Rightarrow> u32) \<times> u32" where
  "print_up = (\<lambda>_. 0xFFFFFFFF, 0)"


section \<open>Handing the ALT mode over\<close>

text \<open>
  The keyboard task asks for a change of the ALT mode, the GUI task carries it out. The GUI task
  may be preempted while it does (it saves the configuration to the card, for one): \<open>kbd\<close> is what the
  keyboard task does in between, after the request was read and before it is reset.
\<close>

definition gui_activate_preempted ::
  "platform \<Rightarrow> 'b gui_code \<Rightarrow> ('a kbd_task_scheme \<Rightarrow> 'a kbd_task_scheme) \<Rightarrow> 'a kbd_task_scheme \<Rightarrow>
   'a kbd_task_scheme option" where
  "gui_activate_preempted P G kbd s = do {
     s1 \<leftarrow> (case gui_current_alt_state s of
             ALT_MODE_ENTER \<Rightarrow> alt_mode_enter P G s
           | ALT_MODE_LEAVE \<Rightarrow> alt_mode_leave P G s
           | ALT_MODE_NORMAL \<Rightarrow> Some s);
     Some ((kbd s1)\<lparr>gui_current_alt_state := ALT_MODE_NORMAL\<rparr>) }"

lemma gui_activate_not_preempted: "gui_activate_preempted P G (\<lambda>s. s) s = gui_activate_alt_mode P G s"
  by (simp add: gui_activate_preempted_def gui_activate_alt_mode_def)

text \<open>The keyboard task and the GUI task agree on whether CHDK has the keys.\<close>

definition alt_agreed :: "'a kbd_task_scheme \<Rightarrow> bool" where
  "alt_agreed s \<longleftrightarrow> (kbd_blocked s = 0 \<longleftrightarrow> state_gui_mode_none s)"

lemma enter_mode_keeps:
  fixes s :: "'a kbd_task_scheme"
  assumes "gui_mode s \<noteq> None"
  shows "\<exists>t. gui_enter_mode P G h s = Some t \<and> gui_mode t \<noteq> None \<and> kbd_blocked t = kbd_blocked s \<and>
     state_gui_mode_none t = (gh_mode (gui_struct G h) = GUI_MODE_NONE) \<and>
     conf_user_menu_enable t = conf_user_menu_enable s \<and> state_kbd_script_run t = state_kbd_script_run s"
  by (rule gui_enter_mode_form [OF assms, of P G h]) auto

lemma prevent_shutdown_keeps:
  fixes s :: "'a kbd_task_scheme"
  shows "gui_mode (conf_update_prevent_shutdown s) = gui_mode s"
    "kbd_blocked (conf_update_prevent_shutdown s) = kbd_blocked s"
    "state_gui_mode_none (conf_update_prevent_shutdown s) = state_gui_mode_none s"
    "conf_user_menu_enable (conf_update_prevent_shutdown s) = conf_user_menu_enable s"
    "state_kbd_script_run (conf_update_prevent_shutdown s) = state_kbd_script_run s"
  by (simp_all add: conf_update_prevent_shutdown_def ext_call_def)

lemma alt_mode_enter_result:
  fixes s :: "'a kbd_task_scheme"
  assumes "gui_mode s \<noteq> None"
  shows "\<exists>t. alt_mode_enter P G s = Some t \<and> gui_mode t \<noteq> None \<and> kbd_blocked t = kbd_blocked s \<and>
     \<not> state_gui_mode_none t"
proof -
  let ?h = "if state_kbd_script_run s \<noteq> 0 then scriptGuiHandler else altGuiHandler"
  have "gh_mode (gui_struct G ?h) \<noteq> GUI_MODE_NONE" by (simp add: gui_mode_defs)
  then obtain s1 where s1: "gui_enter_mode P G ?h s = Some s1" "gui_mode s1 \<noteq> None"
    "kbd_blocked s1 = kbd_blocked s" "\<not> state_gui_mode_none s1"
    using enter_mode_keeps [OF assms, of P G ?h] by blast
  let ?s2 = "(ext_call VidTurnOffUpdates (conf_update_prevent_shutdown s1))\<lparr>gui_user_menu_flag := False\<rparr>"
  have s2: "gui_mode ?s2 \<noteq> None" "kbd_blocked ?s2 = kbd_blocked s" "\<not> state_gui_mode_none ?s2"
    using s1 by (simp_all add: ext_call_def prevent_shutdown_keeps)
  let ?s3 = "ext_call (GuiMenuInit ''user_submenu'') ?s2"
  have "gui_mode ?s3 \<noteq> None" "kbd_blocked ?s3 = kbd_blocked s" using s2 by (simp_all add: ext_call_def)
  then obtain s4 where s4: "gui_enter_mode P G menuGuiHandler ?s3 = Some s4" "gui_mode s4 \<noteq> None"
    "kbd_blocked s4 = kbd_blocked s" "\<not> state_gui_mode_none s4"
    using enter_mode_keeps [of ?s3 P G menuGuiHandler] by (auto simp: gui_mode_defs)
  show ?thesis
    unfolding alt_mode_enter_def s1(1) using s2 s4 by (simp add: Let_def)
qed

lemma alt_mode_leave_result:
  fixes s :: "'a kbd_task_scheme"
  assumes "gui_mode s \<noteq> None"
  shows "\<exists>t. alt_mode_leave P G s = Some t \<and> gui_mode t \<noteq> None \<and> kbd_blocked t = kbd_blocked s \<and>
     state_gui_mode_none t"
proof -
  let ?s = "ext_call VidTurnOnUpdates (ext_call RbfSetCodepage (ext_call ModuleExitAlt (ext_call ConfSave s)))"
  have "gui_mode ?s \<noteq> None" "kbd_blocked ?s = kbd_blocked s" using assms by (simp_all add: ext_call_def)
  then obtain t where "gui_enter_mode P G defaultGuiHandler ?s = Some t" "gui_mode t \<noteq> None"
    "kbd_blocked t = kbd_blocked s" "state_gui_mode_none t"
    using enter_mode_keeps [of ?s P G defaultGuiHandler] by (auto simp: gui_mode_defs)
  then show ?thesis unfolding alt_mode_leave_def by (simp add: prevent_shutdown_keeps)
qed

text \<open>C29: The hand-over of the ALT mode. If the GUI task gets to carry a request out undisturbed, the
  two tasks agree afterwards: CHDK has the keys exactly if the GUI has left the normal mode, and the
  request is done. If the user enters the ALT mode again while the GUI task is still leaving it
  (writing the configuration file), the reset at the end wipes the new request out: the keyboard
  task keeps the keys from the camera, the GUI stays in the normal mode, and carrying out requests
  again changes nothing.\<close>

theorem alt_mode_handover:
  assumes g: "gui_mode s \<noteq> None"
  shows "(\<exists>t. gui_activate_alt_mode P G (enter_alt s) = Some t \<and> alt_agreed t \<and> kbd_blocked t = 1 \<and>
        gui_current_alt_state t = ALT_MODE_NORMAL) \<and>
     (\<exists>t. gui_activate_alt_mode P G (exit_alt s) = Some t \<and> alt_agreed t \<and> kbd_blocked t = 0 \<and>
        gui_current_alt_state t = ALT_MODE_NORMAL) \<and>
     (\<exists>t. gui_activate_preempted P G enter_alt (exit_alt s) = Some t \<and> \<not> alt_agreed t \<and> kbd_blocked t = 1 \<and>
        (\<exists>u. gui_activate_alt_mode P G t = Some u \<and> \<not> alt_agreed u))"
proof (intro conjI)
  have e: "gui_mode (enter_alt s) \<noteq> None" "kbd_blocked (enter_alt s) = 1"
    "gui_current_alt_state (enter_alt s) = ALT_MODE_ENTER"
    using g by (simp_all add: enter_alt_def gui_set_alt_mode_state_def clear_usb_power_def)
  have x: "gui_mode (exit_alt s) \<noteq> None" "kbd_blocked (exit_alt s) = 0"
    "gui_current_alt_state (exit_alt s) = ALT_MODE_LEAVE"
    using g by (simp_all add: exit_alt_def gui_set_alt_mode_state_def)
  obtain t where t: "alt_mode_enter P G (enter_alt s) = Some t" "kbd_blocked t = 1" "\<not> state_gui_mode_none t"
    using alt_mode_enter_result [OF e(1), of P G] e(2) by auto
  show "\<exists>t. gui_activate_alt_mode P G (enter_alt s) = Some t \<and> alt_agreed t \<and> kbd_blocked t = 1 \<and>
        gui_current_alt_state t = ALT_MODE_NORMAL"
    using t e(3) by (simp add: gui_activate_alt_mode_def alt_agreed_def)
  obtain t where t: "alt_mode_leave P G (exit_alt s) = Some t" "kbd_blocked t = 0" "state_gui_mode_none t"
    using alt_mode_leave_result [OF x(1), of P G] x(2) by auto
  show "\<exists>t. gui_activate_alt_mode P G (exit_alt s) = Some t \<and> alt_agreed t \<and> kbd_blocked t = 0 \<and>
        gui_current_alt_state t = ALT_MODE_NORMAL"
    using t x(3) by (simp add: gui_activate_alt_mode_def alt_agreed_def)
  have "gui_activate_preempted P G enter_alt (exit_alt s) =
      Some ((enter_alt t)\<lparr>gui_current_alt_state := ALT_MODE_NORMAL\<rparr>)"
    using t(1) x(3) by (simp add: gui_activate_preempted_def)
  moreover have "kbd_blocked (enter_alt t) = 1" "state_gui_mode_none (enter_alt t) = state_gui_mode_none t"
    by (simp_all add: enter_alt_def gui_set_alt_mode_state_def clear_usb_power_def)
  ultimately show "\<exists>t. gui_activate_preempted P G enter_alt (exit_alt s) = Some t \<and> \<not> alt_agreed t \<and>
        kbd_blocked t = 1 \<and> (\<exists>u. gui_activate_alt_mode P G t = Some u \<and> \<not> alt_agreed u)"
    using t(3) by (simp add: alt_agreed_def gui_activate_alt_mode_def)
qed

theorem alt_mode_handover_witness:
  "\<exists>t. gui_activate_preempted a570_platform (kc_gui demo_kbd) enter_alt (exit_alt kbd_start) = Some t \<and>
     \<not> alt_agreed t"
  using alt_mode_handover [of kbd_start a570_platform "kc_gui demo_kbd"] by auto

end
