(* ===== verification/Tokenizer.thy ===== *)
theory Tokenizer
  imports Prelude
begin

text \<open>
  The tokenizer of uBASIC scripts, \<open>lib/ubasic/tokenizer.c\<close>. The program text is a list of
  characters; the C string ends at a NUL character after it, so the character at the
  text's length is NUL and reading beyond it is out of bounds, which is \<open>None\<close>. \<open>ptr\<close> and
  \<open>nextptr\<close> are offsets into the text. A token is the name of its enumerator, without the
  prefix \<open>TOKENIZER_\<close>.
\<close>

type_synonym ubasic_token = string

record tokenizer =
  tk_ptr :: nat
  tk_nextptr :: nat
  current_token :: ubasic_token
  current_line :: int

section \<open>The keyword table\<close>

text \<open>The four parts of the table \<open>keywords\<close>, in its order.\<close>

definition keywords_statements :: "(string \<times> ubasic_token) list" where
  "keywords_statements =
    [(''<>'', ''NE''), (''<='', ''LE''), (''>='', ''GE''), (''<'', ''LT''), (''>'', ''GT''),
     (''not'', ''LNOT''), (''or'', ''LOR''), (''and'', ''LAND''), (''let'', ''LET''),
     (''if'', ''IF''), (''then'', ''THEN''), (''else'', ''ELSE''), (''endif'', ''ENDIF''),
     (''select'', ''SELECT''), (''case_else'', ''CASE_ELSE''), (''case'', ''CASE''),
     (''end_select'', ''END_SELECT''), (''for'', ''FOR''), (''to'', ''TO''), (''next'', ''NEXT''),
     (''step'', ''STEP''), (''do'', ''DO''), (''until'', ''UNTIL''), (''while'', ''WHILE''),
     (''wend'', ''WEND''), (''goto'', ''GOTO''), (''gosub'', ''GOSUB''), (''return'', ''RETURN''),
     (''rem'', ''REM''), (''cls'', ''CLS''), (''print_screen'', ''PRINT_SCREEN''),
     (''print'', ''PRINT''), (''random'', ''RANDOM''), (''click'', ''CLICK''),
     (''playsound'', ''PLAY_SOUND''), (''press'', ''PRESS''), (''release'', ''RELEASE''),
     (''shoot'', ''SHOOT''), (''set_console_layout'', ''SET_CONSOLE_LAYOUT''),
     (''set_console_autoredraw'', ''SET_CONSOLE_AUTOREDRAW''),
     (''console_redraw'', ''CONSOLE_REDRAW''), (''sleep'', ''SLEEP'')]"

definition keywords_get :: "(string \<times> ubasic_token) list" where
  "keywords_get =
    [(''get_av96'', ''GET_AV96''), (''get_av'', ''GET_USER_AV_ID''), (''get_bv96'', ''GET_BV96''),
     (''get_capture_mode'', ''GET_CAPTURE_MODE''), (''get_display_mode'', ''GET_DISPLAY_MODE''),
     (''get_day_seconds'', ''GET_DAY_SECONDS''), (''get_disk_size'', ''GET_DISK_SIZE''),
     (''get_dof'', ''GET_DOF''), (''get_far_limit'', ''GET_FAR_LIMIT''),
     (''get_free_disk_space'', ''GET_FREE_DISK_SPACE''),
     (''get_focal_length'', ''GET_FOCAL_LENGTH''), (''get_focus_mode'', ''GET_FOCUS_MODE''),
     (''get_focus_ok'', ''GET_FOCUS_OK''), (''get_focus_state'', ''GET_FOCUS_STATE''),
     (''get_focus'', ''GET_FOCUS''), (''get_sd_over_modes'', ''GET_SD_OVER_MODES''),
     (''get_hyp_dist'', ''GET_HYPERFOCAL_DIST''), (''get_iso_market'', ''GET_ISO_MARKET''),
     (''get_iso_mode'', ''GET_ISO_MODE''), (''get_iso_real'', ''GET_ISO_REAL''),
     (''get_iso'', ''GET_ISO_MODE''), (''get_jpg_count'', ''GET_JPG_COUNT''),
     (''get_min_stack_dist'', ''GET_MIN_STACK_DIST''),
     (''get_movie_status'', ''GET_MOVIE_STATUS''), (''get_mode'', ''GET_MODE''),
     (''get_near_limit'', ''GET_NEAR_LIMIT''), (''get_platform_id'', ''GET_PLATFORM_ID''),
     (''get_propset'', ''GET_PROPSET''), (''get_prop'', ''GET_PROP''),
     (''get_quality'', ''GET_QUALITY''), (''get_raw_support'', ''GET_RAW_SUPPORT''),
     (''get_raw_count'', ''GET_RAW_COUNT''), (''get_raw_nr'', ''GET_RAW_NR''),
     (''get_raw'', ''GET_RAW''), (''get_resolution'', ''GET_RESOLUTION''),
     (''get_sv96'', ''GET_SV96''), (''get_temperature'', ''GET_TEMPERATURE''),
     (''get_tick_count'', ''GET_TICK_COUNT''), (''get_time'', ''GET_TIME''),
     (''get_tv96'', ''GET_TV96''), (''get_user_av_id'', ''GET_USER_AV_ID''),
     (''get_user_av96'', ''GET_USER_AV96''), (''get_user_tv_id'', ''GET_USER_TV_ID''),
     (''get_user_tv96'', ''GET_USER_TV96''), (''get_video_recording'', ''GET_VIDEO_RECORDING''),
     (''get_video_button'', ''GET_VIDEO_BUTTON''), (''get_vbatt'', ''GET_VBATT''),
     (''get_zoom_steps'', ''GET_ZOOM_STEPS''), (''get_zoom'', ''GET_ZOOM''),
     (''get_exp_count'', ''GET_EXP_COUNT''), (''get_config_value'', ''GET_CONFIG_VALUE''),
     (''swap_partitions'', ''SWAP_PARTITIONS'')]"

definition keywords_set :: "(string \<times> ubasic_token) list" where
  "keywords_set =
    [(''set_av96_direct'', ''SET_AV96_DIRECT''), (''set_av_rel'', ''SET_USER_AV_BY_ID_REL''),
     (''set_av96'', ''SET_AV96''), (''set_av'', ''SET_USER_AV_BY_ID''),
     (''set_capture_mode_canon'', ''SET_CAPTURE_MODE_CANON''),
     (''set_capture_mode'', ''SET_CAPTURE_MODE''), (''set_backlight'', ''SET_BACKLIGHT''),
     (''set_lcd_display'', ''SET_LCDDISPLAY''),
     (''set_draw_title_line'', ''SET_DRAW_TITLE_LINE''),
     (''get_draw_title_line'', ''GET_DRAW_TITLE_LINE''), (''set_focus'', ''SET_FOCUS''),
     (''set_iso_mode'', ''SET_ISO_MODE''), (''set_iso_real'', ''SET_ISO_REAL''),
     (''set_iso'', ''SET_ISO_MODE''), (''set_led'', ''SET_LED''),
     (''set_movie_status'', ''SET_MOVIE_STATUS''), (''set_nd_filter'', ''SET_ND_FILTER''),
     (''set_prop'', ''SET_PROP''), (''set_quality'', ''SET_QUALITY''),
     (''set_raw_nr'', ''SET_RAW_NR''), (''set_raw'', ''SET_RAW''),
     (''set_resolution'', ''SET_RESOLUTION''), (''set_remote_timing'', ''SET_REMOTE_TIMING''),
     (''set_sv96'', ''SET_SV96''), (''set_tv96_direct'', ''SET_TV96_DIRECT''),
     (''set_tv_rel'', ''SET_USER_TV_BY_ID_REL''), (''set_tv96'', ''SET_TV96''),
     (''set_tv'', ''SET_USER_TV_BY_ID''), (''set_user_av_by_id_rel'', ''SET_USER_AV_BY_ID_REL''),
     (''set_user_av_by_id'', ''SET_USER_AV_BY_ID''), (''set_user_av96'', ''SET_USER_AV96''),
     (''set_user_tv_by_id_rel'', ''SET_USER_TV_BY_ID_REL''),
     (''set_user_tv_by_id'', ''SET_USER_TV_BY_ID''), (''set_user_tv96'', ''SET_USER_TV96''),
     (''set_zoom_speed'', ''SET_ZOOM_SPEED''), (''set_zoom_rel'', ''SET_ZOOM_REL''),
     (''set_zoom'', ''SET_ZOOM''), (''set_record'', ''SET_RECORD''),
     (''set_config_value'', ''SET_CONFIG_VALUE''), (''set_yield'', ''SET_YIELD'')]"

definition keywords_other :: "(string \<times> ubasic_token) list" where
  "keywords_other =
    [(''wait_click'', ''WAIT_CLICK''), (''is_pressed'', ''IS_PRESSED''), (''is_key'', ''IS_KEY''),
     (''set_exit_key'', ''SET_EXIT_KEY''), (''wheel_right'', ''WHEEL_RIGHT''),
     (''wheel_left'', ''WHEEL_LEFT''), (''@title'', ''REM''), (''@subtitle'', ''REM''),
     (''@param'', ''REM''), (''@default'', ''REM''), (''@range'', ''REM''),
     (''@values'', ''REM''), (''@chdk_version'', ''REM''),
     (''md_detect_motion'', ''MD_DETECT_MOTION''), (''md_get_cell_diff'', ''MD_GET_CELL_DIFF''),
     (''md_get_cell_val'', ''MD_GET_CELL_VAL''), (''md_af_led_control'', ''MD_AF_LED_CONTROL''),
     (''autostarted'', ''SCRIPT_AUTOSTARTED''), (''get_autostart'', ''GET_SCRIPT_AUTOSTART''),
     (''set_autostart'', ''SET_SCRIPT_AUTOSTART''), (''get_usb_power'', ''GET_USB_POWER''),
     (''usb_force_active'', ''FORCE_USB_PRESENT''), (''usb_sync_wait'', ''USB_SYNC_WAIT''),
     (''exit_alt'', ''EXIT_ALT''), (''enter_alt'', ''ENTER_ALT''),
     (''get_alt_mode'', ''GET_ALT_MODE''), (''shut_down'', ''SHUT_DOWN''),
     (''get_shooting'', ''GET_SHOOTING''), (''get_drive_mode'', ''GET_DRIVE_MODE''),
     (''get_flash_mode'', ''GET_FLASH_MODE''), (''get_flash_ready'', ''GET_FLASH_READY''),
     (''get_IS_mode'', ''GET_IS_MODE''), (''set_ev'', ''SET_EV''), (''get_ev'', ''GET_EV''),
     (''get_orientation_sensor'', ''GET_ORIENTATION_SENSOR''),
     (''get_nd_present'', ''GET_ND_PRESENT''), (''get_histo_range'', ''GET_HISTO_RANGE''),
     (''shot_histo_enable'', ''SHOT_HISTO_ENABLE''), (''set_aelock'', ''SET_AELOCK''),
     (''set_aflock'', ''SET_AFLOCK''), (''set_mf'', ''SET_MF''),
     (''is_capture_mode_valid'', ''IS_CAPTURE_MODE_VALID''), (''reboot'', ''REBOOT''),
     (''iso_to_sv96'', ''ISO_TO_SV96''), (''sv96_to_iso'', ''SV96_TO_ISO''),
     (''iso_real_to_market'', ''ISO_REAL_TO_MARKET''),
     (''iso_market_to_real'', ''ISO_MARKET_TO_REAL''),
     (''sv96_real_to_market'', ''SV96_REAL_TO_MARKET''),
     (''sv96_market_to_real'', ''SV96_MARKET_TO_REAL''),
     (''aperture_to_av96'', ''APERTURE_TO_AV96''), (''av96_to_aperture'', ''AV96_TO_APERTURE''),
     (''usec_to_tv96'', ''USEC_TO_TV96''), (''tv96_to_usec'', ''TV96_TO_USEC''),
     (''seconds_to_tv96'', ''SECONDS_TO_TV96''), (''end'', ''END'')]"

definition keyword_table :: "(string \<times> ubasic_token) list" where
  "keyword_table = keywords_statements @ keywords_get @ keywords_set @ keywords_other"

section \<open>Characters\<close>

definition char_at :: "string \<Rightarrow> nat \<Rightarrow> char option" where
  "char_at prog i =
     (if i < length prog then Some (prog ! i)
      else if i = length prog then Some CHR 0x00
      else None)"

definition is_blank :: "char \<Rightarrow> bool" where
  "is_blank c \<longleftrightarrow> c = CHR '' '' \<or> c = CHR 0x09 \<or> c = CHR 0x0D"

definition isdigit :: "char \<Rightarrow> bool" where
  "isdigit c \<longleftrightarrow> 48 \<le> (of_char c :: nat) \<and> (of_char c :: nat) \<le> 57"

definition is_letter :: "char \<Rightarrow> bool" where
  "is_letter c \<longleftrightarrow> 97 \<le> (of_char c :: nat) \<and> (of_char c :: nat) \<le> 122 \<or>
     65 \<le> (of_char c :: nat) \<and> (of_char c :: nat) \<le> 90"

definition ends_label :: "char \<Rightarrow> bool" where
  "ends_label c \<longleftrightarrow> c = CHR '' '' \<or> c = CHR 0x0D \<or> c = CHR 0x0A \<or> c = CHR 0x09"

text \<open>The token of a single character; \<open>ERROR\<close> is the enumerator 0.\<close>

definition singlechar :: "char \<Rightarrow> ubasic_token" where
  "singlechar c =
     (if c = CHR 0x0A then ''CR''
      else if c = CHR '','' then ''COMMA''
      else if c = CHR '';'' then ''SEMICOLON''
      else if c = CHR ''+'' then ''PLUS''
      else if c = CHR ''-'' then ''MINUS''
      else if c = CHR 0x26 then ''AND''
      else if c = CHR ''|'' then ''OR''
      else if c = CHR ''^'' then ''XOR''
      else if c = CHR ''*'' then ''ASTR''
      else if c = CHR ''/'' then ''SLASH''
      else if c = CHR ''%'' then ''MOD''
      else if c = CHR ''('' then ''LEFTPAREN''
      else if c = CHR '')'' then ''RIGHTPAREN''
      else if c = CHR ''='' then ''EQ''
      else ''ERROR'')"

section \<open>Scanning loops\<close>

text \<open>\<open>while (p( *ptr)) ptr++\<close>, for a \<open>p\<close> that is false for NUL.\<close>

definition skip_while :: "(char \<Rightarrow> bool) \<Rightarrow> string \<Rightarrow> nat \<Rightarrow> nat" where
  "skip_while p prog i = i + length (takeWhile p (drop i prog))"

text \<open>
  \<open>do ++nextptr while (!p( *nextptr))\<close>, for a \<open>p\<close> that is false for NUL: it does not stop at the end
  of the text.
\<close>

definition scan_to :: "(char \<Rightarrow> bool) \<Rightarrow> string \<Rightarrow> nat \<Rightarrow> nat option" where
  "scan_to p prog i =
     (let rest = drop (i + 1) prog; n = length (takeWhile (\<lambda>c. \<not> p c) rest)
      in if n < length rest then Some (i + 1 + n) else None)"

definition MAX_NUMLEN :: nat where "MAX_NUMLEN = 6"

text \<open>The loop over the digits, from index \<open>i\<close>: the first index that is not a digit.\<close>

function scan_number :: "string \<Rightarrow> nat \<Rightarrow> nat \<Rightarrow> nat option" where
  "scan_number prog ptr i =
     (if i < MAX_NUMLEN + 1
      then if \<not> (ptr + i < length prog \<and> isdigit (prog ! (ptr + i)))
           then if i > 0 then Some i else None
           else scan_number prog ptr (i + 1)
      else None)"
  by auto
termination by (relation "measure (\<lambda>(prog, ptr, i). MAX_NUMLEN + 1 - i)") auto

declare scan_number.simps [simp del]

text \<open>
  The lines skipped by a carriage return: the loop moves past each \<open>CR\<close> and the blanks after it. Returns the
  position and the number of lines.
\<close>

function skip_lines :: "string \<Rightarrow> nat \<Rightarrow> int \<Rightarrow> nat \<times> int" where
  "skip_lines prog ptr line =
     (if ptr < length prog \<and> singlechar (prog ! ptr) = ''CR''
      then skip_lines prog (skip_while is_blank prog (ptr + 1)) (line + 1)
      else (ptr, line))"
  by auto
termination
  by (relation "measure (\<lambda>(prog, ptr, line). length prog - ptr)") (auto simp: skip_while_def)

declare skip_lines.simps [simp del]

definition find_keyword :: "string \<Rightarrow> (string \<times> ubasic_token) option" where
  "find_keyword text = find (\<lambda>(kw, t). take (length kw) text = kw) keyword_table"

section \<open>The next token\<close>

text \<open>The keyword at the position, or a variable.\<close>

definition word_at :: "string \<Rightarrow> char \<Rightarrow> tokenizer \<Rightarrow> ubasic_token \<times> tokenizer" where
  "word_at prog c s =
     (case find_keyword (drop (tk_ptr s) prog) of
        Some (kw, t) \<Rightarrow>
          let n = tk_ptr s + length kw;
              n' = (if t = ''REM''
                    then skip_while (\<lambda>d. d \<noteq> CHR 0x0D \<and> d \<noteq> CHR 0x0A) prog n else n)
          in (t, s\<lparr>tk_nextptr := n'\<rparr>)
      | None \<Rightarrow>
          if is_letter c then (''VARIABLE'', s\<lparr>tk_nextptr := tk_ptr s + 1\<rparr>)
          else (''ERROR'', s))"

text \<open>The token that starts at \<open>tk_ptr\<close>, where the character is \<open>c\<close>, not NUL and not blank.\<close>

definition token_at :: "string \<Rightarrow> char \<Rightarrow> tokenizer \<Rightarrow> (ubasic_token \<times> tokenizer) option" where
  "token_at prog c s0 =
     (let ptr = tk_ptr s0; s = s0\<lparr>tk_nextptr := ptr + 1\<rparr> in
      if isdigit c
      then (case scan_number prog ptr 0 of
              Some i \<Rightarrow> Some (''NUMBER'', s\<lparr>tk_nextptr := ptr + i\<rparr>)
            | None \<Rightarrow> Some (''ERROR'', s))
      else if c = CHR '':''
      then do {
        n \<leftarrow> scan_to ends_label prog ptr;
        Some (''LABEL'', s\<lparr>tk_nextptr := n\<rparr>)
      }
      else if singlechar c \<noteq> ''ERROR''
      then if singlechar c = ''CR''
           then let (p, line) = skip_lines prog ptr (current_line s)
                in Some (''CR'', s\<lparr>tk_ptr := p - 1, tk_nextptr := p - 1 + 1, current_line := line\<rparr>)
           else Some (singlechar c, s\<lparr>tk_nextptr := ptr + 1\<rparr>)
      else if c = CHR 0x22
      then do {
        n \<leftarrow> scan_to (\<lambda>d. d = CHR 0x22) prog ptr;
        Some (''STRING'', s\<lparr>tk_nextptr := n + 1\<rparr>)
      }
      else Some (word_at prog c s))"

definition get_next_token :: "string \<Rightarrow> tokenizer \<Rightarrow> (ubasic_token \<times> tokenizer) option" where
  "get_next_token prog s0 =
     (let s = s0\<lparr>tk_ptr := skip_while is_blank prog (tk_ptr s0)\<rparr> in do {
        c \<leftarrow> char_at prog (tk_ptr s);
        if c = CHR 0x00 then Some (''ENDOFINPUT'', s) else token_at prog c s
      })"

section \<open>The interface\<close>

definition tokenizer_finished :: "string \<Rightarrow> tokenizer \<Rightarrow> bool" where
  "tokenizer_finished prog s \<longleftrightarrow>
     char_at prog (tk_ptr s) = Some CHR 0x00 \<or> current_token s = ''ENDOFINPUT''"

definition tokenizer_next :: "string \<Rightarrow> tokenizer \<Rightarrow> tokenizer option" where
  "tokenizer_next prog s =
     (if tokenizer_finished prog s then Some s
      else
        let p = skip_while (\<lambda>c. c = CHR '' '' \<or> c = CHR 0x09) prog (tk_nextptr s) in do {
        (t, s1) \<leftarrow> get_next_token prog (s\<lparr>tk_ptr := p\<rparr>);
        Some (s1\<lparr>current_token := t\<rparr>)
      })"

partial_function (option) skip_leading_lines :: "string \<Rightarrow> tokenizer \<Rightarrow> tokenizer option" where
  "skip_leading_lines prog s =
     (if current_token s = ''CR'' \<and> \<not> tokenizer_finished prog s
      then do { s1 \<leftarrow> tokenizer_next prog s; skip_leading_lines prog s1 }
      else Some s)"

definition tokenizer_init :: "string \<Rightarrow> tokenizer \<Rightarrow> tokenizer option" where
  "tokenizer_init prog s0 = do {
     (t, s) \<leftarrow> get_next_token prog (s0\<lparr>tk_ptr := 0, current_line := 1\<rparr>);
     skip_leading_lines prog (s\<lparr>current_token := t\<rparr>)
   }"

text \<open>\<open>atoi\<close> at a number token, where the text starts with its digits.\<close>

definition digit_value :: "char \<Rightarrow> int" where
  "digit_value c = int (of_char c :: nat) - 48"

definition tokenizer_num :: "string \<Rightarrow> tokenizer \<Rightarrow> int" where
  "tokenizer_num prog s =
     foldl (\<lambda>n c. n * 10 + digit_value c) 0 (takeWhile isdigit (drop (tk_ptr s) prog))"

text \<open>
  \<open>memcpy(dest, ptr + 1, string_len); dest[string_len] = 0\<close>: \<open>dest\<close> is the destination array, and a write
  outside it is \<open>None\<close>. If the token is another one, or no end is found, nothing is written.
\<close>

definition copy_text :: "string \<Rightarrow> nat \<Rightarrow> string \<Rightarrow> string option" where
  "copy_text str len dest =
     (let n = (if len < length str then len else length str)
      in if n < length dest then Some (take n str @ [CHR 0x00] @ drop (n + 1) dest) else None)"

definition tokenizer_string :: "string \<Rightarrow> string \<Rightarrow> nat \<Rightarrow> tokenizer \<Rightarrow> string option" where
  "tokenizer_string prog dest len s =
     (if current_token s \<noteq> ''STRING'' then Some dest
      else case scan_to (\<lambda>d. d = CHR 0x22) prog (tk_ptr s) of
        None \<Rightarrow> Some dest
      | Some e \<Rightarrow> copy_text (take (e - tk_ptr s - 1) (drop (tk_ptr s + 1) prog)) len dest)"

definition tokenizer_label :: "string \<Rightarrow> string \<Rightarrow> nat \<Rightarrow> tokenizer \<Rightarrow> string option" where
  "tokenizer_label prog dest len s =
     (if current_token s \<noteq> ''LABEL'' then Some dest
      else case scan_to ends_label prog (tk_ptr s) of
        None \<Rightarrow> Some dest
      | Some e \<Rightarrow> copy_text (take (e - tk_ptr s - 1) (drop (tk_ptr s + 1) prog)) len dest)"

definition tokenizer_variable_num :: "string \<Rightarrow> tokenizer \<Rightarrow> int option" where
  "tokenizer_variable_num prog s = do {
     c \<leftarrow> char_at prog (tk_ptr s);
     let n = int (of_char c :: nat);
     Some (n - (if n \<ge> 97 then 97 else 65 - 26))
   }"

definition tokenizer_line_number :: "tokenizer \<Rightarrow> int" where
  "tokenizer_line_number s = current_line s"

section \<open>The table lists longer keyword_table first\<close>

fun starts_with :: "string \<Rightarrow> string \<Rightarrow> bool" where
  "starts_with [] text = True"
| "starts_with (k # ks) [] = False"
| "starts_with (k # ks) (c # cs) = (if k = c then starts_with ks cs else False)"

fun shadows_none :: "string \<Rightarrow> (string \<times> 't) list \<Rightarrow> bool" where
  "shadows_none k [] = True"
| "shadows_none k ((k', t) # ks) = (if starts_with k k' then False else shadows_none k ks)"

fun no_shadow :: "(string \<times> 't) list \<Rightarrow> bool" where
  "no_shadow [] = True"
| "no_shadow ((k, t) # ks) = (if shadows_none k ks then no_shadow ks else False)"

text \<open>
  The check runs over all pairs of the table; these rules stop the simplifier from
  visiting the table again at every step.
\<close>

lemma check_cong:
  "starts_with k k' = starts_with k k'" "shadows_none k ks = shadows_none k ks"
  "no_shadow ks = no_shadow ks"
  by (rule refl)+

lemma keywords_no_shadow: "no_shadow keyword_table"
  unfolding keyword_table_def keywords_statements_def keywords_get_def keywords_set_def
    keywords_other_def append_Cons append_Nil
  by (simp only: starts_with.simps shadows_none.simps no_shadow.simps char.inject simp_thms if_True
      if_False cong: check_cong)

lemma starts_with_take: "starts_with k str \<longleftrightarrow> take (length k) str = k"
  by (induction k str rule: starts_with.induct) auto

lemma shadows_none_iff: "shadows_none k ks \<longleftrightarrow> (\<forall>(k', t) \<in> set ks. take (length k) k' \<noteq> k)"
  by (induction k ks rule: shadows_none.induct) (auto simp: starts_with_take)

lemma find_longest:
  assumes "no_shadow ks" and "find (\<lambda>(kw, t). take (length kw) text = kw) ks = Some (kw, t)"
    and "(kw', t') \<in> set ks" and "take (length kw') text = kw'"
  shows "length kw' \<le> length kw"
  using assms
proof (induction ks rule: no_shadow.induct)
  case (2 k t0 ks)
  show ?case
  proof (cases "take (length k) text = k")
    case True
    then have kw: "kw = k" using 2 by simp
    show ?thesis
    proof (rule ccontr)
      assume long: "\<not> length kw' \<le> length kw"
      then have "(kw', t') \<in> set ks" using 2 kw by auto
      moreover have "take (length k) kw' = k"
        using True 2(5) long kw by (metis linorder_linear min.absorb1 take_take)
      ultimately show False using 2(2) by (auto simp: shadows_none_iff split: if_splits)
    qed
  next
    case False
    with 2 show ?thesis by (auto split: if_splits)
  qed
qed simp

text \<open>What the tokens of the table are not.\<close>

definition plain_entry :: "string \<times> ubasic_token \<Rightarrow> bool" where
  "plain_entry e \<longleftrightarrow> fst e \<noteq> [] \<and> snd e \<noteq> ''CR'' \<and> snd e \<noteq> ''ENDOFINPUT''"

lemma keywords_plain: "list_all plain_entry keyword_table"
  unfolding keyword_table_def
  by (simp add: keywords_statements_def plain_entry_def; simp add: keywords_get_def plain_entry_def;
      simp add: keywords_set_def plain_entry_def; simp add: keywords_other_def plain_entry_def)

lemma find_keyword_Some:
  assumes "find_keyword text = Some (kw, t)"
  shows "(kw, t) \<in> set keyword_table" and "take (length kw) text = kw" and "kw \<noteq> []"
    and "t \<noteq> ''CR''" and "t \<noteq> ''ENDOFINPUT''"
proof -
  show m: "(kw, t) \<in> set keyword_table" and "take (length kw) text = kw"
    using assms by (auto simp: find_keyword_def find_Some_iff in_set_conv_nth)
  from m keywords_plain have "plain_entry (kw, t)" by (metis list_all_iff)
  then show "kw \<noteq> []" "t \<noteq> ''CR''" "t \<noteq> ''ENDOFINPUT''" by (simp_all add: plain_entry_def)
qed

section \<open>Progress\<close>

lemma skip_while_bounds: "i \<le> length prog \<Longrightarrow> i \<le> skip_while p prog i \<and> skip_while p prog i \<le> length prog"
  using length_takeWhile_le [of p "drop i prog"] by (simp add: skip_while_def)

lemma skip_while_stops:
  assumes "skip_while p prog i < length prog"
  shows "\<not> p (prog ! skip_while p prog i)"
proof -
  have "length (takeWhile p (drop i prog)) < length (drop i prog)"
    using assms by (simp add: skip_while_def)
  from nth_length_takeWhile [OF this] show ?thesis
    using assms by (simp add: skip_while_def)
qed

lemma skip_while_idle: "i < length prog \<Longrightarrow> \<not> p (prog ! i) \<Longrightarrow> skip_while p prog i = i"
  by (simp add: skip_while_def Cons_nth_drop_Suc [symmetric])

lemma scan_to_bounds: "scan_to p prog i = Some n \<Longrightarrow> i < n \<and> n < length prog"
  by (auto simp: scan_to_def Let_def split: if_splits)

lemma takeWhile_shorter: "length (takeWhile p xs) < length xs \<longleftrightarrow> (\<exists>x \<in> set xs. \<not> p x)"
  by (induction xs) auto

lemma scan_to_None: "scan_to p prog i = None \<longleftrightarrow> (\<forall>j. i < j \<and> j < length prog \<longrightarrow> \<not> p (prog ! j))"
proof -
  have "(\<exists>c \<in> set (drop (i + 1) prog). p c) \<longleftrightarrow> (\<exists>j. i < j \<and> j < length prog \<and> p (prog ! j))"
  proof
    assume "\<exists>c \<in> set (drop (i + 1) prog). p c"
    then obtain n where "n < length prog - (i + 1)" "p (prog ! (i + 1 + n))"
      by (auto simp: in_set_conv_nth)
    then show "\<exists>j. i < j \<and> j < length prog \<and> p (prog ! j)" by (intro exI [of _ "i + 1 + n"]) simp
  next
    assume "\<exists>j. i < j \<and> j < length prog \<and> p (prog ! j)"
    then obtain j where "i < j" "j < length prog" "p (prog ! j)" by blast
    then show "\<exists>c \<in> set (drop (i + 1) prog). p c"
      by (intro bexI [of _ "prog ! j"]) (auto simp: in_set_conv_nth intro!: exI [of _ "j - (i + 1)"])
  qed
  then show ?thesis
    using takeWhile_shorter [of "\<lambda>c. \<not> p c" "drop (i + 1) prog"] by (auto simp: scan_to_def Let_def)
qed

definition digits_at :: "string \<Rightarrow> nat \<Rightarrow> string" where
  "digits_at prog ptr = takeWhile isdigit (drop ptr prog)"

lemma digit_at:
  assumes "i \<le> length (digits_at prog ptr)"
  shows "ptr + i < length prog \<and> isdigit (prog ! (ptr + i)) \<longleftrightarrow> i < length (digits_at prog ptr)"
proof (cases "i < length (digits_at prog ptr)")
  case True
  have "length (digits_at prog ptr) \<le> length (drop ptr prog)"
    unfolding digits_at_def by (rule length_takeWhile_le)
  with True have "ptr + i < length prog" by simp
  moreover have "isdigit (digits_at prog ptr ! i)"
    using nth_mem [OF True] by (auto simp: digits_at_def dest: set_takeWhileD)
  then have "isdigit (prog ! (ptr + i))"
    using True \<open>ptr + i < length prog\<close> by (simp add: digits_at_def takeWhile_nth)
  ultimately show ?thesis using True by simp
next
  case False
  with assms have i: "i = length (takeWhile isdigit (drop ptr prog))" by (simp add: digits_at_def)
  have "\<not> isdigit (prog ! (ptr + i))" if "ptr + i < length prog"
    using nth_length_takeWhile [of isdigit "drop ptr prog"] that i by simp
  with False show ?thesis by blast
qed

lemma scan_number_digits:
  "i \<le> length (digits_at prog ptr) \<Longrightarrow> scan_number prog ptr i =
     (if 0 < length (digits_at prog ptr) \<and> length (digits_at prog ptr) \<le> MAX_NUMLEN \<and> i \<le> MAX_NUMLEN
      then Some (length (digits_at prog ptr)) else None)"
proof (induction prog ptr i rule: scan_number.induct)
  case (1 prog ptr i)
  then show ?case
    using digit_at [OF 1(2)] by (subst scan_number.simps) (auto simp: less_Suc_eq_le)
qed

lemma digits_bounds: "ptr \<le> length prog \<Longrightarrow> ptr + length (digits_at prog ptr) \<le> length prog"
  using length_takeWhile_le [of isdigit "drop ptr prog"] by (simp add: digits_at_def)

lemma skip_lines_result:
  assumes "skip_lines prog i line = (p, line')" and "i \<le> length prog"
  shows "i \<le> p \<and> p \<le> length prog \<and>
    (i < length prog \<and> singlechar (prog ! i) = ''CR'' \<longrightarrow> i < p) \<and>
    (p < length prog \<longrightarrow> singlechar (prog ! p) \<noteq> ''CR'')"
  using assms
proof (induction prog i line rule: skip_lines.induct)
  case (1 prog i line)
  show ?case
  proof (cases "i < length prog \<and> singlechar (prog ! i) = ''CR''")
    case True
    have b: "i + 1 \<le> skip_while is_blank prog (i + 1) \<and> skip_while is_blank prog (i + 1) \<le> length prog"
      using True by (intro skip_while_bounds) auto
    have "skip_lines prog (skip_while is_blank prog (i + 1)) (line + 1) = (p, line')"
      using 1(2) True by (subst (asm) skip_lines.simps) simp
    from 1(1) [OF True this] b show ?thesis by auto
  next
    case False
    with 1(2,3) show ?thesis by (subst (asm) skip_lines.simps) auto
  qed
qed

lemma skip_lines_blank:
  assumes "skip_lines prog i line = (p, line')" and "p < length prog"
    and "i < length prog \<longrightarrow> \<not> is_blank (prog ! i)"
  shows "\<not> is_blank (prog ! p)"
  using assms
proof (induction prog i line rule: skip_lines.induct)
  case (1 prog i line)
  show ?case
  proof (cases "i < length prog \<and> singlechar (prog ! i) = ''CR''")
    case True
    have "skip_lines prog (skip_while is_blank prog (i + 1)) (line + 1) = (p, line')"
      using 1(2) True by (subst (asm) skip_lines.simps) simp
    from 1(1) [OF True this 1(3)] show ?thesis by (auto dest: skip_while_stops)
  next
    case False
    with 1(2) have "p = i" by (subst (asm) skip_lines.simps) auto
    with 1 show ?thesis by simp
  qed
qed

text \<open>A text without NUL characters: the C string is the whole of it.\<close>

definition c_text :: "string \<Rightarrow> bool" where
  "c_text prog \<longleftrightarrow> CHR 0x00 \<notin> set prog"

lemma char_at_cases:
  assumes "i \<le> length prog" and "c_text prog"
  shows "char_at prog i = Some c \<longleftrightarrow>
    (if c = CHR 0x00 then i = length prog else i < length prog \<and> c = prog ! i)"
  using assms by (auto simp: char_at_def c_text_def in_set_conv_nth)

lemma take_prefix_length: "take (length kw) (drop i prog) = kw \<Longrightarrow> i \<le> length prog \<Longrightarrow> i + length kw \<le> length prog"
  by (metis add.commute le_diff_conv2 length_drop length_take min.absorb_iff2 min.commute)

lemma singlechar_end: "singlechar c \<noteq> ''ENDOFINPUT''"
  by (simp add: singlechar_def)

text \<open>A token that is not the end of the input has at least one character.\<close>

definition advances :: "string \<Rightarrow> nat \<Rightarrow> tokenizer \<Rightarrow> bool" where
  "advances prog p s \<longleftrightarrow> p \<le> tk_ptr s \<and> tk_ptr s < tk_nextptr s \<and> tk_nextptr s \<le> length prog"

lemma word_at_advances:
  assumes "tk_ptr s < length prog" and "tk_nextptr s = tk_ptr s + 1"
  shows "advances prog (tk_ptr s) (snd (word_at prog c s)) \<and> fst (word_at prog c s) \<noteq> ''CR'' \<and>
    fst (word_at prog c s) \<noteq> ''ENDOFINPUT''"
proof (cases "find_keyword (drop (tk_ptr s) prog)")
  case None
  with assms show ?thesis by (simp add: word_at_def advances_def)
next
  case (Some e)
  obtain kw t where e: "e = (kw, t)" by (cases e)
  note k = find_keyword_Some [OF Some [unfolded e]]
  have "tk_ptr s + length kw \<le> length prog"
    using take_prefix_length [OF k(2)] assms(1) by simp
  with skip_while_bounds [OF this] Some e
  obtain n where "word_at prog c s = (t, s\<lparr>tk_nextptr := n\<rparr>)" "tk_ptr s + length kw \<le> n" "n \<le> length prog"
    by (cases "t = ''REM''") (simp_all add: word_at_def Let_def)
  moreover have "tk_ptr s < n" using calculation(2) k(3) by (cases kw) auto
  ultimately show ?thesis using k(4,5) by (simp add: advances_def)
qed

lemma token_at_advances:
  assumes "token_at prog c s0 = Some (t, s)" and "tk_ptr s0 < length prog" and "c = prog ! tk_ptr s0"
  shows "advances prog (tk_ptr s0) s \<and> t \<noteq> ''ENDOFINPUT'' \<and>
    (t = ''CR'' \<longrightarrow> tk_nextptr s < length prog \<longrightarrow>
       singlechar (prog ! tk_nextptr s) \<noteq> ''CR'' \<and> (is_blank c \<or> \<not> is_blank (prog ! tk_nextptr s)))"
proof -
  let ?s = "s0\<lparr>tk_nextptr := tk_ptr s0 + 1\<rparr>"
  consider "isdigit c" | "\<not> isdigit c" "c = CHR '':''" | "\<not> isdigit c" "c \<noteq> CHR '':''" "singlechar c = ''CR''"
    | "\<not> isdigit c" "c \<noteq> CHR '':''" "singlechar c \<noteq> ''CR''" "singlechar c \<noteq> ''ERROR''"
    | "\<not> isdigit c" "c \<noteq> CHR '':''" "singlechar c = ''ERROR''" "c = CHR 0x22"
    | "\<not> isdigit c" "c \<noteq> CHR '':''" "singlechar c = ''ERROR''" "c \<noteq> CHR 0x22" by blast
  then show ?thesis
  proof cases
    case 1
    with assms digits_bounds [of "tk_ptr s0" prog] scan_number_digits [of 0 prog "tk_ptr s0"] show ?thesis
      by (auto simp: token_at_def Let_def advances_def split: if_splits)
  next
    case 2
    then show ?thesis
      using assms(1) by (auto simp: token_at_def Let_def advances_def bind_eq_Some_conv dest: scan_to_bounds)
  next
    case 3
    obtain q line where q: "skip_lines prog (tk_ptr s0) (current_line s0) = (q, line)" by fastforce
    have "s = ?s\<lparr>tk_ptr := q - 1, tk_nextptr := q - 1 + 1, current_line := line\<rparr>" "t = ''CR''"
      using 3 assms(1) q by (simp_all add: token_at_def Let_def)
    with 3 skip_lines_result [OF q] skip_lines_blank [OF q] assms show ?thesis
      by (auto simp: advances_def)
  next
    case 4
    with assms singlechar_end show ?thesis by (auto simp: token_at_def Let_def advances_def)
  next
    case 5
    then show ?thesis
      using assms(1) by (auto simp: token_at_def Let_def advances_def bind_eq_Some_conv dest: scan_to_bounds)
  next
    case 6
    then have "(t, s) = word_at prog c ?s" using assms(1) by (simp add: token_at_def Let_def)
    with word_at_advances [of ?s prog c] assms(2) show ?thesis
      by (auto dest: sym)
  qed
qed

lemma get_next_token_advances:
  assumes "get_next_token prog s0 = Some (t, s)" and "tk_ptr s0 \<le> length prog" and "c_text prog"
  shows "tk_ptr s0 \<le> tk_ptr s \<and> tk_ptr s \<le> length prog \<and>
    (t \<noteq> ''ENDOFINPUT'' \<longrightarrow> tk_ptr s < tk_nextptr s \<and> tk_nextptr s \<le> length prog) \<and>
    (t = ''CR'' \<longrightarrow> tk_nextptr s < length prog \<longrightarrow>
       singlechar (prog ! tk_nextptr s) \<noteq> ''CR'' \<and> \<not> is_blank (prog ! tk_nextptr s))"
proof -
  let ?p = "skip_while is_blank prog (tk_ptr s0)"
  let ?s = "s0\<lparr>tk_ptr := ?p\<rparr>"
  have b: "tk_ptr s0 \<le> ?p" "?p \<le> length prog" using skip_while_bounds [OF assms(2)] by simp_all
  show ?thesis
  proof (cases "?p = length prog")
    case True
    then have "char_at prog ?p = Some CHR 0x00" by (simp add: char_at_def)
    with assms(1) b show ?thesis by (auto simp: get_next_token_def Let_def)
  next
    case False
    then have lt: "?p < length prog" using b by simp
    then have c: "char_at prog ?p = Some (prog ! ?p)" "prog ! ?p \<noteq> CHR 0x00"
      using assms(3) by (auto simp: char_at_def c_text_def in_set_conv_nth)
    then have "token_at prog (prog ! ?p) ?s = Some (t, s)"
      using assms(1) by (simp add: get_next_token_def Let_def)
    from token_at_advances [OF this] lt b skip_while_stops [of is_blank prog "tk_ptr s0"] show ?thesis
      by (auto simp: advances_def)
  qed
qed

lemma token_at_CR: "token_at prog c s0 = Some (''CR'', s) \<Longrightarrow> singlechar c = ''CR''"
proof (rule ccontr)
  assume t: "token_at prog c s0 = Some (''CR'', s)" and c: "singlechar c \<noteq> ''CR''"
  have "fst (word_at prog c (s0\<lparr>tk_nextptr := tk_ptr s0 + 1\<rparr>)) \<noteq> ''CR''"
    using find_keyword_Some(4) by (auto simp: word_at_def Let_def split: option.splits)
  then show False
    using t c by (auto simp: token_at_def Let_def bind_eq_Some_conv split: if_splits option.splits)
qed

fun token_run :: "string \<Rightarrow> nat \<Rightarrow> tokenizer \<Rightarrow> tokenizer option" where
  "token_run prog 0 s = Some s"
| "token_run prog (Suc n) s = do { s1 \<leftarrow> tokenizer_next prog s; token_run prog n s1 }"

lemma next_advances:
  assumes "tokenizer_next prog s = Some s'" and "\<not> tokenizer_finished prog s"
    and "tk_nextptr s \<le> length prog" and "c_text prog"
  shows "current_token s' = ''ENDOFINPUT'' \<or> tk_nextptr s < tk_nextptr s' \<and> tk_nextptr s' \<le> length prog"
proof -
  let ?p = "skip_while (\<lambda>c. c = CHR '' '' \<or> c = CHR 0x09) prog (tk_nextptr s)"
  have p: "tk_nextptr s \<le> ?p" "?p \<le> length prog" using skip_while_bounds [OF assms(3)] by simp_all
  from assms(1,2) obtain t s1 where g: "get_next_token prog (s\<lparr>tk_ptr := ?p\<rparr>) = Some (t, s1)"
    and s': "s' = s1\<lparr>current_token := t\<rparr>"
    by (auto simp: tokenizer_next_def Let_def bind_eq_Some_conv)
  from get_next_token_advances [OF g] p assms(4) show ?thesis by (auto simp: s')
qed

lemma finished_stays: "tokenizer_finished prog s \<Longrightarrow> token_run prog n s = Some s"
  by (induction n) (simp_all add: tokenizer_next_def)

lemma run_finishes:
  assumes "token_run prog n s = Some s'" and "length prog < tk_nextptr s + n"
    and "tk_nextptr s \<le> length prog" and "c_text prog"
  shows "tokenizer_finished prog s'"
  using assms
proof (induction n arbitrary: s)
  case (Suc n)
  show ?case
  proof (cases "tokenizer_finished prog s")
    case True
    with Suc.prems(1) finished_stays [OF True, of "Suc n"] show ?thesis by simp
  next
    case False
    from Suc.prems(1) obtain s1 where s1: "tokenizer_next prog s = Some s1" "token_run prog n s1 = Some s'"
      by (auto simp: bind_eq_Some_conv)
    from next_advances [OF s1(1) False Suc.prems(3,4)] show ?thesis
    proof
      assume "current_token s1 = ''ENDOFINPUT''"
      then have "tokenizer_finished prog s1" by (simp add: tokenizer_finished_def)
      with s1(2) finished_stays [of prog s1 n] show ?thesis by simp
    next
      assume "tk_nextptr s < tk_nextptr s1 \<and> tk_nextptr s1 \<le> length prog"
      with Suc.IH [OF s1(2)] Suc.prems(2,4) show ?thesis by simp
    qed
  qed
qed simp

lemma after_cr:
  assumes "tokenizer_next prog s = Some s'" and "\<not> tokenizer_finished prog s"
    and "tk_nextptr s \<le> length prog" and "c_text prog"
    and "tk_nextptr s < length prog \<longrightarrow>
      singlechar (prog ! tk_nextptr s) \<noteq> ''CR'' \<and> \<not> is_blank (prog ! tk_nextptr s)"
  shows "current_token s' \<noteq> ''CR''"
proof -
  let ?n = "tk_nextptr s"
  have skip: "skip_while q prog ?n = ?n" if "\<And>c. q c \<Longrightarrow> is_blank c" for q
    using assms(3,5) that skip_while_idle [of ?n prog q] by (cases "?n = length prog") (auto simp: skip_while_def)
  have p: "skip_while (\<lambda>c. c = CHR '' '' \<or> c = CHR 0x09) prog ?n = ?n" "skip_while is_blank prog ?n = ?n"
    by (rule skip; auto simp: is_blank_def)+
  from assms(1,2) p obtain t s1 where g: "get_next_token prog (s\<lparr>tk_ptr := ?n\<rparr>) = Some (t, s1)"
    and s': "s' = s1\<lparr>current_token := t\<rparr>"
    by (auto simp: tokenizer_next_def Let_def bind_eq_Some_conv)
  show ?thesis
  proof (cases "?n = length prog")
    case True
    then have "t = ''ENDOFINPUT''" using g p by (auto simp: get_next_token_def Let_def char_at_def)
    then show ?thesis by (simp add: s')
  next
    case False
    then have "?n < length prog" using assms(3) by simp
    then have c: "char_at prog ?n = Some (prog ! ?n)" "prog ! ?n \<noteq> CHR 0x00"
      using assms(4) by (auto simp: char_at_def c_text_def in_set_conv_nth)
    then have "token_at prog (prog ! ?n) (s\<lparr>tk_ptr := ?n\<rparr>) = Some (t, s1)"
      using g p by (simp add: get_next_token_def Let_def)
    then have "t = ''CR'' \<Longrightarrow> singlechar (prog ! ?n) = ''CR''" by (auto dest: token_at_CR)
    with assms(5) \<open>?n < length prog\<close> show ?thesis by (auto simp: s')
  qed
qed

text \<open>\<open>tokenizer_init\<close> skips the leading lines in at most one call of \<open>tokenizer_next\<close>.\<close>

lemma tokenizer_init_once:
  assumes "c_text prog"
  shows "tokenizer_init prog s0 = do {
      (t, s) \<leftarrow> get_next_token prog (s0\<lparr>tk_ptr := 0, current_line := 1\<rparr>);
      let s1 = s\<lparr>current_token := t\<rparr>;
      if t = ''CR'' \<and> \<not> tokenizer_finished prog s1 then tokenizer_next prog s1 else Some s1
    }"
proof (cases "get_next_token prog (s0\<lparr>tk_ptr := 0, current_line := 1\<rparr>)")
  case None
  then show ?thesis by (simp add: tokenizer_init_def)
next
  case (Some r)
  obtain t s where r: "r = (t, s)" by (cases r)
  let ?s = "s\<lparr>current_token := t\<rparr>"
  show ?thesis
  proof (cases "t = ''CR'' \<and> \<not> tokenizer_finished prog ?s")
    case False
    then show ?thesis
      using Some r by (simp add: tokenizer_init_def, subst skip_leading_lines.simps) (auto simp: Let_def)
  next
    case True
    have a: "tk_nextptr ?s \<le> length prog" "tk_nextptr ?s < length prog \<longrightarrow>
        singlechar (prog ! tk_nextptr ?s) \<noteq> ''CR'' \<and> \<not> is_blank (prog ! tk_nextptr ?s)"
      using get_next_token_advances [OF Some [unfolded r]] assms True by auto
    have "skip_leading_lines prog ?s = tokenizer_next prog ?s"
    proof (cases "tokenizer_next prog ?s")
      case (Some s')
      have "\<not> tokenizer_finished prog ?s" using True by (rule conjunct2)
      from after_cr [OF Some this a(1) assms a(2)] have "current_token s' \<noteq> ''CR''" .
      then have "skip_leading_lines prog s' = Some s'" by (subst skip_leading_lines.simps) simp
      with Some True show ?thesis by (subst skip_leading_lines.simps) auto
    qed (use True in \<open>subst skip_leading_lines.simps, auto\<close>)
    moreover have "t = ''CR''" "\<not> tokenizer_finished prog ?s" using True by auto
    ultimately show ?thesis using Some r by (auto simp: tokenizer_init_def Let_def)
  qed
qed

lemma copy_text_own_size:
  "copy_text str (length dest) dest =
     (if length dest \<le> length str then None
      else Some (str @ [CHR 0x00] @ drop (length str + 1) dest))"
  by (simp add: copy_text_def)

lemma number_value:
  assumes "\<forall>c \<in> set cs. isdigit c"
  shows "0 \<le> foldl (\<lambda>n c. n * 10 + digit_value c) 0 cs \<and>
    foldl (\<lambda>n c. n * 10 + digit_value c) 0 cs < 10 ^ length cs"
  using assms
proof (induction cs rule: rev_induct)
  case (snoc c cs)
  then have "0 \<le> digit_value c" "digit_value c \<le> 9" by (auto simp: digit_value_def isdigit_def)
  with snoc show ?case by auto
qed simp

section \<open>Properties\<close>

text \<open>Keywords are matched longest first. The match is the first keyword of the table
  that the text starts with, and the table is ordered so that no other keyword the
  text starts with is longer; so a keyword that begins with another one (\<open>print_screen\<close>,
  \<open>print\<close>) is never cut short.\<close>

theorem tokenizer_longest_match:
  assumes "find_keyword str = Some (kw, t)" and "(kw', t') \<in> set keyword_table"
    and "take (length kw') str = kw'"
  shows "length kw' \<le> length kw \<and> take (length kw) str = kw"
  using find_longest [OF keywords_no_shadow _ assms(2,3)] find_keyword_Some(2) [OF assms(1)] assms(1)
  by (simp add: find_keyword_def)

theorem tokenizer_longest_match_witness:
  "\<not> (\<exists>t. find_keyword ''print_screen 1'' = Some (''print'', t))"
proof
  assume "\<exists>t. find_keyword ''print_screen 1'' = Some (''print'', t)"
  then obtain t where "find_keyword ''print_screen 1'' = Some (''print'', t)" by blast
  from tokenizer_longest_match [OF this, of "''print_screen''" "''PRINT_SCREEN''"] show False
    by (simp add: keyword_table_def keywords_statements_def)
qed


definition tk_start :: tokenizer where
  "tk_start = \<lparr>tk_ptr = 0, tk_nextptr = 0, current_token = ''ERROR'', current_line = 0\<rparr>"


text \<open>The only token at which the tokenizer reads past the end of the program text is a label with no
  blank or line end after it, or a string with no closing quote.\<close>

theorem tokenizer_out_of_bounds:
  assumes "c_text prog" and "tk_ptr s \<le> length prog"
  shows "get_next_token prog s = None \<longleftrightarrow>
    (let p = skip_while is_blank prog (tk_ptr s) in p < length prog \<and>
      (prog ! p = CHR '':'' \<and> (\<forall>j. p < j \<and> j < length prog \<longrightarrow> \<not> ends_label (prog ! j)) \<or>
       prog ! p = CHR 0x22 \<and> (\<forall>j. p < j \<and> j < length prog \<longrightarrow> prog ! j \<noteq> CHR 0x22)))"
proof -
  let ?p = "skip_while is_blank prog (tk_ptr s)"
  have b: "?p \<le> length prog" using skip_while_bounds [OF assms(2)] by simp
  show ?thesis
  proof (cases "?p = length prog")
    case True
    then show ?thesis by (simp add: get_next_token_def char_at_def Let_def)
  next
    case False
    then have lt: "?p < length prog" using b by simp
    then have c: "char_at prog ?p = Some (prog ! ?p)" "prog ! ?p \<noteq> CHR 0x00"
      using assms(1) by (auto simp: char_at_def c_text_def in_set_conv_nth)
    have quote: "\<not> isdigit CHR 0x22" "\<not> isdigit CHR '':''" "singlechar CHR 0x22 = ''ERROR''"
      by (simp_all add: isdigit_def singlechar_def)
    show ?thesis
      using lt c quote
      by (auto simp: get_next_token_def token_at_def Let_def bind_eq_None_conv scan_to_None
          split: option.splits prod.splits)
  qed
qed

theorem tokenizer_out_of_bounds_witness:
  "get_next_token '':end'' tk_start = None"
  using tokenizer_out_of_bounds [of "'':end''" tk_start]
  by (auto simp: c_text_def tk_start_def skip_while_def is_blank_def ends_label_def Let_def
      less_Suc_eq numeral_eq_Suc)

text \<open>Numbers have at most six digits. At a digit, up to six digits are one number token that
  spans all of them, and its value is between 0 and 999999; seven or more are an error
  token of a single character, so the next token starts inside the same number.\<close>

theorem tokenizer_number_limit:
  assumes p: "p = skip_while is_blank prog (tk_ptr s)" and d: "p < length prog" "isdigit (prog ! p)"
  shows "let n = length (digits_at prog p) in
    if n \<le> 6
    then \<exists>s'. get_next_token prog s = Some (''NUMBER'', s') \<and> tk_ptr s' = p \<and> tk_nextptr s' = p + n \<and>
           0 < n \<and> 0 \<le> tokenizer_num prog s' \<and> tokenizer_num prog s' < 10 ^ n
    else \<exists>s'. get_next_token prog s = Some (''ERROR'', s') \<and> tk_nextptr s' = p + 1"
proof -
  have n: "0 < length (digits_at prog p)" using digit_at [of 0 prog p] d by simp
  have c: "char_at prog p = Some (prog ! p)" "prog ! p \<noteq> CHR 0x00"
    using d by (auto simp: char_at_def isdigit_def)
  have "get_next_token prog s = token_at prog (prog ! p) (s\<lparr>tk_ptr := p\<rparr>)"
    using p c by (simp add: get_next_token_def Let_def)
  then have g: "get_next_token prog s =
      (if length (digits_at prog p) \<le> 6
       then Some (''NUMBER'', s\<lparr>tk_ptr := p, tk_nextptr := p + length (digits_at prog p)\<rparr>)
       else Some (''ERROR'', s\<lparr>tk_ptr := p, tk_nextptr := p + 1\<rparr>))"
    using d n by (simp add: token_at_def scan_number_digits MAX_NUMLEN_def)
  have "\<forall>c \<in> set (digits_at prog p). isdigit c"
    by (auto simp: digits_at_def dest: set_takeWhileD)
  from number_value [OF this] g n show ?thesis
    by (auto simp: Let_def tokenizer_num_def digits_at_def)
qed

theorem tokenizer_number_limit_witness:
  "\<exists>s'. get_next_token ''1234567'' tk_start = Some (''ERROR'', s') \<and> tk_nextptr s' = 1"
  using tokenizer_number_limit [of 0 "''1234567''" tk_start]
  by (simp add: skip_while_def is_blank_def tk_start_def isdigit_def digits_at_def)

text \<open>Copying a string token overflows a full buffer by one. Callers pass an array and its size as the
  limit. A string of fewer characters is copied whole and terminated; one of at least
  that many characters puts the terminating NUL one element past the end of the array.\<close>

theorem tokenizer_string_overflow:
  assumes "current_token s = ''STRING''" and "scan_to (\<lambda>d. d = CHR 0x22) prog (tk_ptr s) = Some e"
  shows "let str = take (e - tk_ptr s - 1) (drop (tk_ptr s + 1) prog) in
    (tokenizer_string prog dest (length dest) s = None \<longleftrightarrow> length dest \<le> length str) \<and>
    (length str < length dest \<longrightarrow> tokenizer_string prog dest (length dest) s =
       Some (str @ [CHR 0x00] @ drop (length str + 1) dest))"
proof -
  define str where "str = take (e - tk_ptr s - 1) (drop (tk_ptr s + 1) prog)"
  have "tokenizer_string prog dest (length dest) s = copy_text str (length dest) dest"
    using assms by (simp add: tokenizer_string_def str_def)
  then show ?thesis
    unfolding Let_def str_def [symmetric] by (simp add: copy_text_own_size)
qed

theorem tokenizer_string_overflow_witness:
  "tokenizer_string [CHR 0x22, CHR ''a'', CHR ''b'', CHR 0x22] ''xx'' (length ''xx'')
     (tk_start\<lparr>current_token := ''STRING''\<rparr>) = None"
proof -
  let ?s = "tk_start\<lparr>current_token := ''STRING''\<rparr>"
  have "scan_to (\<lambda>d. d = CHR 0x22) [CHR 0x22, CHR ''a'', CHR ''b'', CHR 0x22] (tk_ptr ?s) = Some 3"
    by (simp add: tk_start_def scan_to_def Let_def)
  from tokenizer_string_overflow [OF _ this, of "''xx''"] show ?thesis
    by (simp add: tk_start_def)
qed

end
