(* ===== verification/UbasicVm.thy ===== *)
theory UbasicVm
  imports KbdProcess Tokenizer
begin

text \<open>
  The state of the uBASIC interpreter, \<open>lib/ubasic/ubasic.c\<close>, and the operations that touch only
  it: reading tokens, variables, jumps, and the control statements without an expression. The
  static variables of the file are the record \<open>ubasic_vm\<close>. An array access outside an array and a loop that
  does not end (looking for a line that does not exist) are \<open>None\<close>; running into a label or string that is not
  closed is too, see \<open>Tokenizer\<close>.
\<close>

section \<open>State\<close>

datatype ubasic_errors = UBASIC_E_NONE | UBASIC_E_PARSE | UBASIC_E_UNK_STATEMENT | UBASIC_E_UNK_KEY
  | UBASIC_E_UNK_LABEL | UBASIC_E_GOSUB_STACK_EXHAUSTED | UBASIC_E_UNMATCHED_RETURN
  | UBASIC_E_IF_STACK_EXHAUSTED | UBASIC_E_UNMATCHED_IF | UBASIC_E_SELECT_STACK_EXHAUSTED
  | UBASIC_E_UNMATCHED_END_SELECT | UBASIC_E_FOR_STACK_EXHAUSTED | UBASIC_E_UNMATCHED_NEXT
  | UBASIC_E_DO_STACK_EXHAUSTED | UBASIC_E_UNMATCHED_UNTIL | UBASIC_E_WHILE_STACK_EXHAUSTED
  | UBASIC_E_UNMATCHED_WEND | UBASIC_E_UNKNOWN_ERROR

definition MAX_STRINGLEN :: nat where "MAX_STRINGLEN = 40"
definition MAX_GOSUB_STACK_DEPTH :: int where "MAX_GOSUB_STACK_DEPTH = 10"
definition MAX_IF_STACK_DEPTH :: int where "MAX_IF_STACK_DEPTH = 4"
definition MAX_SELECT_STACK_DEPTH :: int where "MAX_SELECT_STACK_DEPTH = 4"
definition MAX_WHILE_STACK_DEPTH :: int where "MAX_WHILE_STACK_DEPTH = 4"
definition MAX_DO_STACK_DEPTH :: int where "MAX_DO_STACK_DEPTH = 4"
definition MAX_FOR_STACK_DEPTH :: int where "MAX_FOR_STACK_DEPTH = 4"
definition MAX_VARNUM :: int where "MAX_VARNUM = 52"
definition YIELD_MAX_LINES_DEFAULT :: u32 where "YIELD_MAX_LINES_DEFAULT = 1"
definition YIELD_MAX_MS_DEFAULT :: u32 where "YIELD_MAX_MS_DEFAULT = 10"

lemmas depth_defs = MAX_GOSUB_STACK_DEPTH_def MAX_IF_STACK_DEPTH_def MAX_SELECT_STACK_DEPTH_def
  MAX_WHILE_STACK_DEPTH_def MAX_DO_STACK_DEPTH_def MAX_FOR_STACK_DEPTH_def

record select_state =
  select_value :: u32
  case_run :: int

record for_state =
  line_after_for :: int
  for_variable :: int
  for_to :: u32
  for_step :: u32

text \<open>
  The arrays are lists of their declared size; \<open>variables\<close> is only accessed through \<open>ubasic_get_variable\<close> and
  \<open>ubasic_set_variable\<close>, which check the index. Elements of type \<open>short\<close> are integers cut by \<open>short\<close>.
\<close>

record ubasic_vm =
  program_ptr :: string
  tk :: tokenizer
  string_buf :: string
  gosub_stack :: "int list"
  gosub_stack_ptr :: int
  if_stack :: "int list"
  if_stack_ptr :: int
  select_stack :: "select_state list"
  select_stack_ptr :: int
  while_stack :: "int list"
  while_stack_ptr :: int
  do_stack :: "int list"
  do_stack_ptr :: int
  for_stack :: "for_state list"
  for_stack_ptr :: int
  variables :: "int \<Rightarrow> u32"
  ended :: bool
  ubasic_as_ret_var_num :: int
  yield_max_lines :: u32
  yield_max_ms :: u32
  flag_yield :: bool
  ubasic_error :: ubasic_errors

definition short :: "int \<Rightarrow> int" where
  "short i = sint (word_of_int i :: u16)"

definition array_get :: "'a list \<Rightarrow> int \<Rightarrow> 'a option" where
  "array_get xs i = (if 0 \<le> i \<and> i < int (length xs) then Some (xs ! nat i) else None)"

definition array_put :: "int \<Rightarrow> 'a \<Rightarrow> 'a list \<Rightarrow> 'a list option" where
  "array_put i x xs = (if 0 \<le> i \<and> i < int (length xs) then Some (xs[nat i := x]) else None)"

text \<open>The C string in an array: it has to end inside.\<close>

definition c_str :: "string \<Rightarrow> string option" where
  "c_str b = (if CHR 0x00 \<in> set b then Some (takeWhile (\<lambda>c. c \<noteq> CHR 0x00) b) else None)"

section \<open>Tokens\<close>

definition tok :: "ubasic_vm \<Rightarrow> ubasic_token" where
  "tok v = current_token (tk v)"

definition cur_line :: "ubasic_vm \<Rightarrow> int" where
  "cur_line v = tokenizer_line_number (tk v)"

definition vm_next :: "ubasic_vm \<Rightarrow> ubasic_vm option" where
  "vm_next v = do { t \<leftarrow> tokenizer_next (program_ptr v) (tk v); Some (v\<lparr>tk := t\<rparr>) }"

definition vm_fail :: "ubasic_errors \<Rightarrow> ubasic_vm \<Rightarrow> ubasic_vm" where
  "vm_fail e v = v\<lparr>ended := True, ubasic_error := e\<rparr>"

definition accept :: "ubasic_token \<Rightarrow> ubasic_vm \<Rightarrow> ubasic_vm option" where
  "accept t v =
     (if t \<noteq> tok v
      then do { v1 \<leftarrow> vm_next v; Some (vm_fail UBASIC_E_PARSE v1) }
      else vm_next v)"

text \<open>The loops that skip tokens.\<close>

partial_function (option) skip_until :: "(ubasic_token \<Rightarrow> bool) \<Rightarrow> ubasic_vm \<Rightarrow> ubasic_vm option" where
  "skip_until p v = (if p (tok v) then Some v else do { v1 \<leftarrow> vm_next v; skip_until p v1 })"

definition line_end :: "ubasic_token \<Rightarrow> bool" where
  "line_end t \<longleftrightarrow> t = ''CR'' \<or> t = ''ENDOFINPUT''"

definition accept_cr :: "ubasic_vm \<Rightarrow> ubasic_vm option" where
  "accept_cr v = do { v1 \<leftarrow> skip_until line_end v; accept ''CR'' v1 }"

text \<open>\<open>tokenizer_string(string, sizeof(string))\<close>.\<close>

definition read_string :: "ubasic_vm \<Rightarrow> ubasic_vm option" where
  "read_string v = do {
     b \<leftarrow> tokenizer_string (program_ptr v) (string_buf v) MAX_STRINGLEN (tk v);
     Some (v\<lparr>string_buf := b\<rparr>) }"

definition variable_num :: "ubasic_vm \<Rightarrow> int option" where
  "variable_num v = tokenizer_variable_num (program_ptr v) (tk v)"

section \<open>Variables\<close>

definition ubasic_set_variable :: "int \<Rightarrow> u32 \<Rightarrow> ubasic_vm \<Rightarrow> ubasic_vm" where
  "ubasic_set_variable varnum value v =
     (if varnum \<ge> 0 \<and> varnum < MAX_VARNUM
      then v\<lparr>variables := (variables v)(varnum := value)\<rparr> else v)"

definition ubasic_get_variable :: "int \<Rightarrow> ubasic_vm \<Rightarrow> u32" where
  "ubasic_get_variable varnum v =
     (if varnum \<ge> 0 \<and> varnum < MAX_VARNUM then variables v varnum else 0)"

definition ubasic_set_as_ret :: "u32 \<Rightarrow> ubasic_vm \<Rightarrow> ubasic_vm" where
  "ubasic_set_as_ret md_ret v =
     (if ubasic_as_ret_var_num v \<ge> 0
      then ubasic_set_variable (ubasic_as_ret_var_num v) md_ret v else v)"

definition varfactor :: "ubasic_vm \<Rightarrow> (u32 \<times> ubasic_vm) option" where
  "varfactor v = do {
     n \<leftarrow> variable_num v;
     v1 \<leftarrow> accept ''VARIABLE'' v;
     Some (ubasic_get_variable n v, v1) }"

text \<open>A variable name as an argument: \<open>var = tokenizer_variable_num(); accept(TOKENIZER_VARIABLE)\<close>.\<close>

definition variable_arg :: "ubasic_vm \<Rightarrow> (int \<times> ubasic_vm) option" where
  "variable_arg v = do { n \<leftarrow> variable_num v; v1 \<leftarrow> accept ''VARIABLE'' v; Some (n, v1) }"

definition ubasic_init :: "string \<Rightarrow> ubasic_vm \<Rightarrow> ubasic_vm option" where
  "ubasic_init program v = do {
     t \<leftarrow> tokenizer_init program (tk v);
     Some (v\<lparr>program_ptr := program, tk := t, gosub_stack_ptr := 0, if_stack_ptr := 0,
             select_stack_ptr := 0, while_stack_ptr := 0, do_stack_ptr := 0, for_stack_ptr := 0,
             ended := False, yield_max_lines := YIELD_MAX_LINES_DEFAULT,
             yield_max_ms := YIELD_MAX_MS_DEFAULT, flag_yield := False,
             ubasic_error := UBASIC_E_NONE\<rparr>) }"

section \<open>Jumps\<close>

definition restart :: "ubasic_vm \<Rightarrow> ubasic_vm option" where
  "restart v = do { t \<leftarrow> tokenizer_init (program_ptr v) (tk v); Some (v\<lparr>tk := t\<rparr>) }"

partial_function (option) find_line :: "int \<Rightarrow> ubasic_vm \<Rightarrow> ubasic_vm option" where
  "find_line n v = (if cur_line v = n then Some v else do { v1 \<leftarrow> vm_next v; find_line n v1 })"

definition jump_line :: "int \<Rightarrow> ubasic_vm \<Rightarrow> ubasic_vm option" where
  "jump_line linenum v = do {
     v1 \<leftarrow> restart v;
     v2 \<leftarrow> find_line linenum v1;
     accept ''CR'' v2 }"

text \<open>The loop of \<open>jump_label\<close>; \<open>cur\<close> is the local array \<open>currLabel\<close>.\<close>

partial_function (option) label_loop :: "string \<Rightarrow> string \<Rightarrow> ubasic_vm \<Rightarrow> ubasic_vm option" where
  "label_loop label cur v =
     (if tok v = ''ENDOFINPUT'' then Some v
      else do {
        v1 \<leftarrow> vm_next v;
        if tok v1 = ''LABEL'' then do {
          cur1 \<leftarrow> tokenizer_label (program_ptr v1) cur MAX_STRINGLEN (tk v1);
          v2 \<leftarrow> vm_next v1;
          l \<leftarrow> c_str cur1;
          if label = l then accept ''CR'' v2 else label_loop label cur1 v2 }
        else label_loop label cur v1 })"

text \<open>\<open>script_run\<close> is \<open>camera_info.state.state_kbd_script_run\<close>.\<close>

definition jump_label :: "int \<Rightarrow> string \<Rightarrow> ubasic_vm \<Rightarrow> (int \<times> ubasic_vm) option" where
  "jump_label script_run label v = do {
     v1 \<leftarrow> restart v;
     v2 \<leftarrow> label_loop label (replicate MAX_STRINGLEN CHR 0x00) v1;
     if tok v2 = ''ENDOFINPUT''
     then Some (0, if script_run = 1 then v2\<lparr>ubasic_error := UBASIC_E_UNK_LABEL\<rparr> else v2)
     else Some (1, v2) }"

text \<open>\<open>jump_label(string)\<close>.\<close>

definition jump_string :: "int \<Rightarrow> ubasic_vm \<Rightarrow> ubasic_vm option" where
  "jump_string script_run v = do {
     l \<leftarrow> c_str (string_buf v);
     (_, v1) \<leftarrow> jump_label script_run l v;
     Some v1 }"

definition goto_statement :: "int \<Rightarrow> ubasic_vm \<Rightarrow> ubasic_vm option" where
  "goto_statement script_run v = do {
     v1 \<leftarrow> accept ''GOTO'' v;
     if tok v1 = ''STRING'' then do {
       v2 \<leftarrow> read_string v1;
       v3 \<leftarrow> vm_next v2;
       jump_string script_run v3 }
     else Some (vm_fail UBASIC_E_UNK_LABEL v1) }"

text \<open>The \<open>do\<close> loop over the rest of the line does not stop at the end of the program.\<close>

definition gosub_statement :: "int \<Rightarrow> ubasic_vm \<Rightarrow> ubasic_vm option" where
  "gosub_statement script_run v = do {
     v1 \<leftarrow> accept ''GOSUB'' v;
     if tok v1 = ''STRING'' then do {
       v2 \<leftarrow> read_string v1;
       v3 \<leftarrow> vm_next v2;
       v4 \<leftarrow> skip_until (\<lambda>t. t = ''CR'') v3;
       v5 \<leftarrow> accept ''CR'' v4;
       if gosub_stack_ptr v5 < MAX_GOSUB_STACK_DEPTH then do {
         g \<leftarrow> array_put (gosub_stack_ptr v5) (short (cur_line v5)) (gosub_stack v5);
         jump_string script_run
           (v5\<lparr>gosub_stack := g, gosub_stack_ptr := gosub_stack_ptr v5 + 1\<rparr>) }
       else Some (vm_fail UBASIC_E_GOSUB_STACK_EXHAUSTED v5) }
     else Some (vm_fail UBASIC_E_UNK_LABEL v1) }"

definition return_statement :: "ubasic_vm \<Rightarrow> ubasic_vm option" where
  "return_statement v = do {
     v1 \<leftarrow> accept ''RETURN'' v;
     if gosub_stack_ptr v1 > 0 then do {
       n \<leftarrow> array_get (gosub_stack v1) (gosub_stack_ptr v1 - 1);
       jump_line n (v1\<lparr>gosub_stack_ptr := gosub_stack_ptr v1 - 1\<rparr>) }
     else Some (vm_fail UBASIC_E_UNMATCHED_RETURN v1) }"

section \<open>Simple statements\<close>

definition rem_statement :: "ubasic_vm \<Rightarrow> ubasic_vm option" where
  "rem_statement v = do { v1 \<leftarrow> accept ''REM'' v; accept ''CR'' v1 }"

definition end_statement :: "ubasic_vm \<Rightarrow> ubasic_vm option" where
  "end_statement v = do { v1 \<leftarrow> accept ''END'' v; Some (v1\<lparr>ended := True\<rparr>) }"

definition do_statement :: "ubasic_vm \<Rightarrow> ubasic_vm option" where
  "do_statement v = do {
     v1 \<leftarrow> accept ''DO'' v;
     v2 \<leftarrow> accept ''CR'' v1;
     if do_stack_ptr v2 < MAX_DO_STACK_DEPTH then do {
       d \<leftarrow> array_put (do_stack_ptr v2) (short (cur_line v2)) (do_stack v2);
       Some (v2\<lparr>do_stack := d, do_stack_ptr := do_stack_ptr v2 + 1\<rparr>) }
     else Some (vm_fail UBASIC_E_DO_STACK_EXHAUSTED v2) }"

definition wend_statement :: "ubasic_vm \<Rightarrow> ubasic_vm option" where
  "wend_statement v = do {
     v1 \<leftarrow> accept ''WEND'' v;
     if while_stack_ptr v1 > 0 then do {
       n \<leftarrow> array_get (while_stack v1) (while_stack_ptr v1 - 1);
       jump_line n v1 }
     else Some (vm_fail UBASIC_E_UNMATCHED_WEND v1) }"

text \<open>\<open>next\<close>: without a matching \<open>for\<close> nothing of the array is read.\<close>

definition next_statement :: "ubasic_vm \<Rightarrow> ubasic_vm option" where
  "next_statement v = do {
     v1 \<leftarrow> accept ''NEXT'' v;
     (var, v2) \<leftarrow> variable_arg v1;
     if for_stack_ptr v2 > 0 then do {
       f \<leftarrow> array_get (for_stack v2) (for_stack_ptr v2 - 1);
       if var = for_variable f then
         (let value = ubasic_get_variable var v2 + for_step f;
              v3 = ubasic_set_variable var value v2
          in if 0 <s for_step f \<and> value \<le>s for_to f \<or> for_step f <s 0 \<and> for_to f \<le>s value
             then jump_line (line_after_for f) v3
             else accept ''CR'' (v3\<lparr>for_stack_ptr := for_stack_ptr v3 - 1\<rparr>))
       else Some (vm_fail UBASIC_E_UNMATCHED_NEXT v2) }
     else Some (vm_fail UBASIC_E_UNMATCHED_NEXT v2) }"

section \<open>The branches of a conditional\<close>

definition endif_statement :: "ubasic_vm \<Rightarrow> ubasic_vm option" where
  "endif_statement v =
     (if if_stack_ptr v > 0 then do {
        v1 \<leftarrow> accept ''ENDIF'' v;
        v2 \<leftarrow> accept ''CR'' v1;
        Some (v2\<lparr>if_stack_ptr := if_stack_ptr v2 - 1\<rparr>) }
      else Some (vm_fail UBASIC_E_UNMATCHED_IF v))"

text \<open>
  Skipping to the \<open>else\<close> or \<open>endif\<close> of a conditional that is false: \<open>ec\<close> and \<open>nc\<close> are \<open>else_cntr\<close>
  and \<open>endif_cntr\<close>, \<open>sl\<close> is \<open>f_sl\<close>, \<open>nt\<close> is \<open>f_nt\<close>. The result says whether the code returns with an error.
\<close>

definition leave_if :: "int \<Rightarrow> int \<Rightarrow> int \<times> int" where
  "leave_if ec nc = (if nc - 1 \<noteq> ec then ec - 1 else ec, nc - 1)"

partial_function (option) if_skip ::
  "int \<Rightarrow> int \<Rightarrow> bool \<Rightarrow> ubasic_vm \<Rightarrow> (bool \<times> ubasic_vm) option" where
  "if_skip ec nc sl v =
     (if tok v = ''ENDOFINPUT'' \<or>
         (tok v = ''ELSE'' \<or> tok v = ''ENDIF'') \<and> ec = 0 \<and> nc = 0
      then Some (False, v)
      else
        let e1 = (if tok v = ''IF'' then ec + 1 else ec);
            n1 = (if tok v = ''IF'' then nc + 1 else nc);
            s1 = (if tok v = ''IF'' then False else sl);
            nt = (tok v = ''THEN'')
        in do {
          v1 \<leftarrow> (if nt then vm_next v else Some v);
          let s2 = (s1 \<or> nt \<and> tok v1 \<noteq> ''CR'');
          let e2 = (if tok v1 = ''ELSE'' then e1 - 1 else e1);
          if tok v1 = ''ELSE'' \<and> e2 < 0 then Some (True, vm_fail UBASIC_E_UNMATCHED_IF v1)
          else if \<not> s2 \<and> tok v1 = ''ENDIF'' \<or> s2 \<and> tok v1 = ''CR'' then do {
            v2 \<leftarrow> (if nt then Some v1 else vm_next v1);
            if_skip (fst (leave_if e2 n1)) (snd (leave_if e2 n1)) False v2 }
          else if tok v1 = ''ENDIF'' then Some (True, vm_fail UBASIC_E_PARSE v1)
          else do {
            v2 \<leftarrow> (if nt then Some v1 else vm_next v1);
            if_skip e2 n1 s2 v2 } })"

text \<open>Skipping the \<open>else\<close> branch of a conditional that is true; \<open>nc\<close> is \<open>endif_cntr\<close>.\<close>

definition else_then :: "int \<Rightarrow> ubasic_vm \<Rightarrow> (bool \<times> bool \<times> int \<times> ubasic_vm) option" where
  "else_then nc v =
     (if tok v = ''THEN'' then do {
        v1 \<leftarrow> vm_next v;
        if tok v1 = ''CR'' then Some (False, True, nc, v1)
        else do {
          v2 \<leftarrow> skip_until (\<lambda>t. t = ''ENDIF'' \<or> line_end t) v1;
          if tok v2 = ''ENDIF'' then Some (True, False, nc - 1, vm_fail UBASIC_E_PARSE v2)
          else Some (False, False, nc - 1, v2) } }
      else Some (False, False, nc, v))"

partial_function (option) else_skip :: "int \<Rightarrow> ubasic_vm \<Rightarrow> (bool \<times> ubasic_vm) option" where
  "else_skip nc v =
     (if tok v = ''ENDOFINPUT'' \<or> tok v = ''ENDIF'' \<and> nc = 0 then Some (False, v)
      else do {
        (err, nt, n1, v1) \<leftarrow> else_then (if tok v = ''IF'' then nc + 1 else nc) v;
        if err then Some (True, v1)
        else do {
          v2 \<leftarrow> (if nt then Some v1 else vm_next v1);
          else_skip (if tok v1 = ''ENDIF'' then n1 - 1 else n1) v2 } })"

definition else_statement :: "ubasic_vm \<Rightarrow> ubasic_vm option" where
  "else_statement v0 = do {
     v \<leftarrow> accept ''ELSE'' v0;
     if if_stack_ptr v > 0 then do {
       r \<leftarrow> array_get (if_stack v) (if_stack_ptr v - 1);
       if tok v = ''CR'' then do {
         v1 \<leftarrow> accept ''CR'' v;
         if r = 0 then Some v1
         else do {
           (err, v2) \<leftarrow> else_skip 0 v1;
           if err then Some v2 else endif_statement v2 } }
       else Some (vm_fail UBASIC_E_PARSE v) }
     else Some (vm_fail UBASIC_E_PARSE v) }"

section \<open>The end of a selection\<close>

definition dec_select_stack :: "ubasic_vm \<Rightarrow> ubasic_vm" where
  "dec_select_stack v =
     (if select_stack_ptr v > 0 then v\<lparr>select_stack_ptr := select_stack_ptr v - 1\<rparr>
      else vm_fail UBASIC_E_UNMATCHED_END_SELECT v)"

definition end_select_statement :: "ubasic_vm \<Rightarrow> ubasic_vm option" where
  "end_select_statement v =
     (if select_stack_ptr v > 0 then do {
        v1 \<leftarrow> accept ''END_SELECT'' v;
        v2 \<leftarrow> accept ''CR'' v1;
        Some (dec_select_stack v2) }
      else Some (vm_fail UBASIC_E_UNMATCHED_END_SELECT v))"

partial_function (option) skip_rems :: "ubasic_vm \<Rightarrow> ubasic_vm option" where
  "skip_rems v = (if tok v = ''REM'' then do { v1 \<leftarrow> rem_statement v; skip_rems v1 } else Some v)"

text \<open>The static variables before a program is loaded.\<close>

definition ubasic_static :: ubasic_vm where
  "ubasic_static = \<lparr>program_ptr = [], tk = tk_start, string_buf = replicate MAX_STRINGLEN CHR 0x00,
     gosub_stack = replicate 10 0, gosub_stack_ptr = 0, if_stack = replicate 4 0, if_stack_ptr = 0,
     select_stack = replicate 4 \<lparr>select_value = 0, case_run = 0\<rparr>, select_stack_ptr = 0,
     while_stack = replicate 4 0, while_stack_ptr = 0, do_stack = replicate 4 0, do_stack_ptr = 0,
     for_stack = replicate 4 \<lparr>line_after_for = 0, for_variable = 0, for_to = 0, for_step = 0\<rparr>,
     for_stack_ptr = 0, variables = (\<lambda>_. 0), ended = False, ubasic_as_ret_var_num = 0,
     yield_max_lines = 0, yield_max_ms = 0, flag_yield = False, ubasic_error = UBASIC_E_NONE\<rparr>"

text \<open>The loops are executable.\<close>

declare skip_leading_lines.simps [code] skip_until.simps [code] find_line.simps [code] label_loop.simps [code]
  if_skip.simps [code] else_skip.simps [code] skip_rems.simps [code]

end
