(* ===== verification/UbasicExpr.thy ===== *)
theory UbasicExpr
  imports UbasicVm "HOL-Library.Signed_Division"
begin

text \<open>
  Expressions of uBASIC: \<open>factor\<close>, \<open>term\<close>, \<open>expr\<close> and \<open>relation\<close> of \<open>lib/ubasic/ubasic.c\<close>, and the key
  functions of \<open>modules/script_key_funcs.c\<close>. The interpreter runs in the keyboard task; functions of the core that are not
  modelled and firmware calls are the parameter \<open>ue_call\<close>. A C \<open>int\<close> is a 32-bit word whose
  arithmetic wraps; a division by zero is \<open>None\<close>.

  The recursion of the parser and its loops take a fuel argument; \<open>ub_fuel\<close>, the length of the program and
  two, is always enough (\<open>expr_enough\<close> in \<open>UbasicInv\<close>), as each step consumes a token.
\<close>

section \<open>State and environment\<close>

record ubasic = kbd_task +
  ub :: ubasic_vm

text \<open>
  \<open>ue_call f args\<close> is the value of the C expression \<open>f(args)\<close> as an \<open>int\<close>, and the state after it; a name that
  is not a function stands for the value of the variable.
\<close>

record 's ubasic_env =
  ue_platform :: platform
  ue_code :: "'s as_code"
  ue_call :: "string \<Rightarrow> u32 list \<Rightarrow> 's \<Rightarrow> u32 \<times> 's"
  ue_reboot :: "string option \<Rightarrow> 's \<Rightarrow> 's"
  ue_load_file :: "string \<Rightarrow> string option"

definition vm_do :: "(ubasic_vm \<Rightarrow> ubasic_vm option) \<Rightarrow> 'a ubasic_scheme \<Rightarrow> 'a ubasic_scheme option" where
  "vm_do f s = do { v \<leftarrow> f (ub s); Some (s\<lparr>ub := v\<rparr>) }"

definition vm_get :: "(ubasic_vm \<Rightarrow> ('r \<times> ubasic_vm) option) \<Rightarrow> 'a ubasic_scheme \<Rightarrow> ('r \<times> 'a ubasic_scheme) option" where
  "vm_get f s = do { (r, v) \<leftarrow> f (ub s); Some (r, s\<lparr>ub := v\<rparr>) }"

definition vm_upd :: "(ubasic_vm \<Rightarrow> ubasic_vm) \<Rightarrow> 'a ubasic_scheme \<Rightarrow> 'a ubasic_scheme" where
  "vm_upd f s = s\<lparr>ub := f (ub s)\<rparr>"

definition utok :: "'a ubasic_scheme \<Rightarrow> ubasic_token" where
  "utok s = tok (ub s)"

definition of_bool32 :: "bool \<Rightarrow> u32" where
  "of_bool32 b = (if b then 1 else 0)"

section \<open>Keys\<close>

definition keynames :: "(int \<times> string) list" where
  "keynames =
     [(KEY_UP, ''up''), (KEY_DOWN, ''down''), (KEY_LEFT, ''left''), (KEY_RIGHT, ''right''),
      (KEY_SET, ''set''), (KEY_SHOOT_HALF, ''shoot_half''), (KEY_SHOOT_FULL, ''shoot_full''),
      (KEY_SHOOT_FULL_ONLY, ''shoot_full_only''), (KEY_ZOOM_IN, ''zoom_in''),
      (KEY_ZOOM_OUT, ''zoom_out''), (10, ''menu''), (11, ''display''), (KEY_PRINT, ''print''),
      (13, ''erase''), (14, ''iso''), (15, ''flash''), (KEY_MF, ''mf''), (17, ''macro''),
      (KEY_VIDEO, ''video''), (19, ''timer''), (20, ''expo_corr''), (21, ''fe''), (22, ''face''),
      (30, ''zoom_assist''), (31, ''ae_lock''), (32, ''metering_mode''), (33, ''playback''),
      (40, ''help''), (41, ''mode''), (43, ''wifi''), (44, ''framing_assist''), (46, ''auto''),
      (0xFF, ''remote''), (0xFFFF, ''no_key'')]"

definition script_keyid_by_name :: "string \<Rightarrow> int" where
  "script_keyid_by_name n = (case find (\<lambda>(k, kn). kn = n) keynames of Some (k, _) \<Rightarrow> k | None \<Rightarrow> 0)"

definition script_key_is_pressed :: "platform \<Rightarrow> int \<Rightarrow> 'a ubasic_scheme \<Rightarrow> u32 \<times> 'a ubasic_scheme" where
  "script_key_is_pressed P k s =
     (if k = 0xFF then (let (r, s1) = get_usb_power USB_STATE s in (word_of_int r, s1))
      else if k > 0 then (of_bool32 (kbd_is_key_pressed P k s), s)
      else (0, s))"

definition script_key_is_clicked :: "int \<Rightarrow> 'a ubasic_scheme \<Rightarrow> u32" where
  "script_key_is_clicked k s = (if k > 0 then of_bool32 (kbd_last_clicked s = k) else 0)"

definition ubasic_get_key_arg :: "'a ubasic_scheme \<Rightarrow> (int \<times> 'a ubasic_scheme) option" where
  "ubasic_get_key_arg s = do {
     s1 \<leftarrow> vm_do read_string s;
     s2 \<leftarrow> vm_do vm_next s1;
     n \<leftarrow> c_str (string_buf (ub s2));
     let k = script_keyid_by_name n;
     Some (k, if k \<le> 0 then vm_upd (\<lambda>v. v\<lparr>ubasic_error := UBASIC_E_UNK_KEY\<rparr>) s2 else s2) }"

section \<open>Operators\<close>

text \<open>The operators of each level with their meaning.\<close>

definition c_div :: "u32 \<Rightarrow> u32 \<Rightarrow> u32 option" where
  "c_div a b = (if b = 0 then None else Some (word_of_int (sint a sdiv sint b)))"

definition c_mod :: "u32 \<Rightarrow> u32 \<Rightarrow> u32 option" where
  "c_mod a b = (if b = 0 then None else Some (word_of_int (sint a smod sint b)))"

type_synonym operator = "u32 \<Rightarrow> u32 \<Rightarrow> u32 option"

definition term_op :: "ubasic_token \<Rightarrow> operator option" where
  "term_op op =
     (if op = ''ASTR'' then Some (\<lambda>a b. Some (a * b))
      else if op = ''SLASH'' then Some c_div
      else if op = ''MOD'' then Some c_mod
      else if op = ''LT'' then Some (\<lambda>a b. Some (of_bool32 (a <s b)))
      else if op = ''GT'' then Some (\<lambda>a b. Some (of_bool32 (b <s a)))
      else if op = ''EQ'' then Some (\<lambda>a b. Some (of_bool32 (a = b)))
      else if op = ''NE'' then Some (\<lambda>a b. Some (of_bool32 (a \<noteq> b)))
      else if op = ''LE'' then Some (\<lambda>a b. Some (of_bool32 (a \<le>s b)))
      else if op = ''GE'' then Some (\<lambda>a b. Some (of_bool32 (b \<le>s a)))
      else if op = ''OR'' then Some (\<lambda>a b. Some (a OR b))
      else if op = ''XOR'' then Some (\<lambda>a b. Some (a XOR b))
      else None)"

definition expr_op :: "ubasic_token \<Rightarrow> operator option" where
  "expr_op op =
     (if op = ''PLUS'' then Some (\<lambda>a b. Some (a + b))
      else if op = ''MINUS'' then Some (\<lambda>a b. Some (a - b))
      else if op = ''AND'' then Some (\<lambda>a b. Some (a AND b))
      else if op = ''LOR'' then Some (\<lambda>a b. Some (of_bool32 (a \<noteq> 0 \<or> b \<noteq> 0)))
      else if op = ''XOR'' then Some (\<lambda>a b. Some a)
      else None)"

definition relation_op :: "ubasic_token \<Rightarrow> operator option" where
  "relation_op op =
     (if op = ''LAND'' then Some (\<lambda>a b. Some (of_bool32 (a \<noteq> 0 \<and> b \<noteq> 0))) else None)"

text \<open>
  The loop of the three levels: while the token is one of the level's operators, read the next
  operand and combine.
\<close>

fun operators ::
  "nat \<Rightarrow> (ubasic_token \<Rightarrow> operator option) \<Rightarrow>
   ('a ubasic_scheme \<Rightarrow> (u32 \<times> 'a ubasic_scheme) option) \<Rightarrow> u32 \<Rightarrow> 'a ubasic_scheme \<Rightarrow>
   (u32 \<times> 'a ubasic_scheme) option" where
  "operators 0 ops operand r s = None"
| "operators (Suc n) ops operand r s =
     (case ops (utok s) of
        None \<Rightarrow> Some (r, s)
      | Some f \<Rightarrow> do {
          s1 \<leftarrow> vm_do vm_next s;
          (r2, s2) \<leftarrow> operand s1;
          r' \<leftarrow> f r r2;
          operators n ops operand r' s2 })"

section \<open>Functions without arguments\<close>

text \<open>
  The functions a factor may be, with the number of expressions they take. The next definitions are their
  values.
\<close>

definition factor_args :: "ubasic_token \<Rightarrow> nat option" where
  "factor_args t =
     (if t \<in> set [''GET_VBATT'', ''GET_DAY_SECONDS'', ''GET_TICK_COUNT'', ''GET_MODE'', ''GET_RAW_NR'',
        ''SCRIPT_AUTOSTARTED'', ''GET_SCRIPT_AUTOSTART'', ''GET_EXP_COUNT'', ''GET_MOVIE_STATUS'',
        ''GET_PLATFORM_ID'', ''GET_DRIVE_MODE'', ''GET_FOCUS_MODE'', ''GET_FOCUS_STATE'', ''GET_FOCUS_OK'',
        ''GET_DISPLAY_MODE'', ''GET_FLASH_MODE'', ''GET_SHOOTING'', ''GET_FLASH_READY'', ''GET_IS_MODE'',
        ''GET_EV'', ''GET_RESOLUTION'', ''GET_QUALITY'', ''GET_ORIENTATION_SENSOR'', ''GET_ZOOM_STEPS'',
        ''GET_ND_PRESENT'', ''GET_PROPSET'', ''GET_TV96'', ''GET_USER_TV96'', ''GET_USER_TV_ID'',
        ''GET_AV96'', ''GET_USER_AV96'', ''GET_USER_AV_ID'', ''GET_ZOOM'', ''GET_FOCUS'',
        ''GET_NEAR_LIMIT'', ''GET_FAR_LIMIT'', ''GET_DOF'', ''GET_HYPERFOCAL_DIST'', ''GET_SD_OVER_MODES'',
        ''GET_ISO_MARKET'', ''GET_ISO_REAL'', ''GET_BV96'', ''GET_SV96'', ''GET_ISO_MODE'',
        ''GET_DISK_SIZE'', ''GET_FREE_DISK_SPACE'', ''GET_JPG_COUNT'', ''GET_VIDEO_BUTTON'',
        ''GET_VIDEO_RECORDING'', ''GET_RAW_COUNT'', ''GET_RAW'', ''GET_CAPTURE_MODE'',
        ''GET_FOCAL_LENGTH'', ''GET_MIN_STACK_DIST'', ''GET_DRAW_TITLE_LINE'', ''GET_ALT_MODE'',
        ''GET_RAW_SUPPORT''] then Some 0
      else if t \<in> set [''GET_PROP'', ''GET_TEMPERATURE'', ''GET_TIME'', ''IS_CAPTURE_MODE_VALID'',
        ''SWAP_PARTITIONS'', ''ISO_TO_SV96'', ''SV96_TO_ISO'', ''ISO_REAL_TO_MARKET'',
        ''ISO_MARKET_TO_REAL'', ''SV96_REAL_TO_MARKET'', ''SV96_MARKET_TO_REAL'', ''APERTURE_TO_AV96'',
        ''AV96_TO_APERTURE'', ''USEC_TO_TV96'', ''TV96_TO_USEC'', ''FORCE_USB_PRESENT''] then Some 1
      else if t \<in> set [''RANDOM'', ''GET_HISTO_RANGE'', ''GET_CONFIG_VALUE'', ''SECONDS_TO_TV96'']
      then Some 2
      else None)"

text \<open>The dispatch on functions whose value is a call of one unmodelled function, or an unmodelled variable.\<close>

definition core_calls :: "(ubasic_token \<times> string) list" where
  "core_calls =
     [(''GET_RAW_NR'', ''conf.raw_nr''), (''GET_EXP_COUNT'', ''get_exposure_counter''),
      (''GET_MOVIE_STATUS'', ''get_movie_status''), (''GET_PLATFORM_ID'', ''conf.platformid''),
      (''GET_DRIVE_MODE'', ''shooting_get_drive_mode''),
      (''GET_FOCUS_MODE'', ''shooting_get_real_focus_mode''),
      (''GET_FOCUS_STATE'', ''shooting_get_focus_state''), (''GET_FOCUS_OK'', ''shooting_get_focus_ok''),
      (''GET_DISPLAY_MODE'', ''shooting_get_display_mode''),
      (''GET_FLASH_MODE'', ''shooting_get_flash_mode''), (''GET_SHOOTING'', ''shooting_in_progress''),
      (''GET_FLASH_READY'', ''shooting_is_flash''), (''GET_IS_MODE'', ''shooting_get_is_mode''),
      (''GET_EV'', ''shooting_get_ev_correction1''), (''GET_RESOLUTION'', ''shooting_get_resolution''),
      (''GET_PROPSET'', ''camera_info.props.propset''), (''GET_TV96'', ''shooting_get_tv96''),
      (''GET_USER_TV96'', ''shooting_get_user_tv96''), (''GET_USER_TV_ID'', ''shooting_get_user_tv_id''),
      (''GET_AV96'', ''shooting_get_av96''), (''GET_USER_AV96'', ''shooting_get_user_av96''),
      (''GET_USER_AV_ID'', ''shooting_get_user_av_id''), (''GET_ZOOM'', ''shooting_get_zoom''),
      (''GET_FOCUS'', ''shooting_get_subject_distance''),
      (''GET_HYPERFOCAL_DIST'', ''shooting_get_hyperfocal_distance''),
      (''GET_SD_OVER_MODES'', ''sd_over_modes''), (''GET_ISO_MARKET'', ''shooting_get_iso_market''),
      (''GET_ISO_REAL'', ''shooting_get_iso_real''), (''GET_BV96'', ''shooting_get_bv96''),
      (''GET_SV96'', ''shooting_get_sv96_real''), (''GET_ISO_MODE'', ''shooting_get_iso_mode''),
      (''GET_DISK_SIZE'', ''GetTotalCardSpaceKb''), (''GET_FREE_DISK_SPACE'', ''GetFreeCardSpaceKb''),
      (''GET_JPG_COUNT'', ''GetJpgCount''), (''GET_VIDEO_RECORDING'', ''is_video_recording''),
      (''GET_RAW_COUNT'', ''GetRawCount''), (''GET_PROP'', ''shooting_get_prop''),
      (''GET_RAW'', ''conf.save_raw''), (''SWAP_PARTITIONS'', ''swap_partitions'')]"

definition conversion_calls :: "(ubasic_token \<times> string) list" where
  "conversion_calls =
     [(''ISO_TO_SV96'', ''shooting_get_sv96_from_iso''), (''SV96_TO_ISO'', ''shooting_get_iso_from_sv96''),
      (''ISO_REAL_TO_MARKET'', ''shooting_iso_real_to_market''),
      (''ISO_MARKET_TO_REAL'', ''shooting_iso_market_to_real''),
      (''SV96_REAL_TO_MARKET'', ''shooting_sv96_real_to_market''),
      (''SV96_MARKET_TO_REAL'', ''shooting_sv96_market_to_real''),
      (''APERTURE_TO_AV96'', ''shooting_get_av96_from_aperture''),
      (''AV96_TO_APERTURE'', ''shooting_get_aperture_from_av96''),
      (''USEC_TO_TV96'', ''shooting_get_tv96_from_shutter_speed((float)x/1000000.0)''),
      (''TV96_TO_USEC'', ''(int)(shooting_get_shutter_speed_from_tv96(x) * 1000000.0 + 0.5)''),
      (''SECONDS_TO_TV96'', ''shooting_get_tv96_from_shutter_speed((float)n/(float)d)''),
      (''FORCE_USB_PRESENT'', ''force_usb_state'')]"

text \<open>Values read from modelled state.\<close>

definition state_value :: "platform \<Rightarrow> ubasic_token \<Rightarrow> 'a ubasic_scheme \<Rightarrow> u32 option" where
  "state_value P t s =
     (if t = ''GET_TICK_COUNT'' then Some (tick_count s)
      else if t = ''GET_MODE'' then
        Some (if mode_play s then 1 else if mode_video s then 2 else 0)
      else if t = ''SCRIPT_AUTOSTARTED'' then Some (word_of_int (auto_started s))
      else if t = ''GET_SCRIPT_AUTOSTART'' then Some (word_of_int (conf_script_startup s))
      else if t = ''GET_ZOOM_STEPS'' then Some (word_of_int (zoom_points P))
      else if t = ''GET_VIDEO_BUTTON'' then Some (of_bool32 (cam_has_video_button P))
      else if t = ''GET_DRAW_TITLE_LINE'' then Some (word_of_int (osd_title_line s))
      else if t = ''GET_ALT_MODE'' then Some (of_bool32 (state_gui_mode s \<noteq> 0))
      else None)"

section \<open>Functions of several calls\<close>

definition low16 :: "u32 \<Rightarrow> u32" where
  "low16 w = ucast (ucast w :: u16)"

text \<open>\<open>shooting_update_dof_values()\<close>, then a member of \<open>camera_info.dof_values\<close>.\<close>

definition dof_value :: "('a ubasic_scheme) ubasic_env \<Rightarrow> string \<Rightarrow> 'a ubasic_scheme \<Rightarrow> u32 \<times> 'a ubasic_scheme" where
  "dof_value E member s = ue_call E member [] (snd (ue_call E ''shooting_update_dof_values'' [] s))"

definition get_time :: "('a ubasic_scheme) ubasic_env \<Rightarrow> u32 \<Rightarrow> 'a ubasic_scheme \<Rightarrow> u32 \<times> 'a ubasic_scheme" where
  "get_time E mode s0 =
     (let s = snd (ue_call E ''get_localtime'' [] s0) in
      if mode = 0 then ue_call E ''ttm->tm_sec'' [] s
      else if mode = 1 then ue_call E ''ttm->tm_min'' [] s
      else if mode = 2 then ue_call E ''ttm->tm_hour'' [] s
      else if mode = 3 then ue_call E ''ttm->tm_mday'' [] s
      else if mode = 4 then (let (r, s1) = ue_call E ''ttm->tm_mon'' [] s in (r + 1, s1))
      else if mode = 5 then (let (r, s1) = ue_call E ''ttm->tm_year'' [] s in (1900 + r, s1))
      else (0, s))"

definition get_day_seconds :: "('a ubasic_scheme) ubasic_env \<Rightarrow> 'a ubasic_scheme \<Rightarrow> u32 \<times> 'a ubasic_scheme" where
  "get_day_seconds E s =
     (let s1 = snd (ue_call E ''get_localtime'' [] s);
          (h, s2) = ue_call E ''ttm->tm_hour'' [] s1;
          (m, s3) = ue_call E ''ttm->tm_min'' [] s2;
          (sec, s4) = ue_call E ''ttm->tm_sec'' [] s3
      in (h * 3600 + m * 60 + sec, s4))"

definition get_temperature :: "('a ubasic_scheme) ubasic_env \<Rightarrow> u32 \<Rightarrow> 'a ubasic_scheme \<Rightarrow> u32 \<times> 'a ubasic_scheme" where
  "get_temperature E temp s =
     (if temp = 0 then ue_call E ''get_optical_temp'' [] s
      else if temp = 1 then ue_call E ''get_ccd_temp'' [] s
      else if temp = 2 then ue_call E ''get_battery_temp'' [] s
      else (0, s))"

definition get_nd_present :: "('a ubasic_scheme) ubasic_env \<Rightarrow> 'a ubasic_scheme \<Rightarrow> u32 \<times> 'a ubasic_scheme" where
  "get_nd_present E s =
     (let (nd, s1) = ue_call E ''camera_info.cam_has_nd_filter'' [] s in
      if nd = 0 then (0, s1)
      else (let (iris, s2) = ue_call E ''camera_info.cam_has_iris_diaphragm'' [] s1
            in (if iris = 0 then 1 else 2, s2)))"

text \<open>\<open>if (conf_getValue(id, &configVal) == CONF_VALUE) configVal.numb else def\<close>.\<close>

definition config_value :: "('a ubasic_scheme) ubasic_env \<Rightarrow> u32 \<Rightarrow> u32 \<Rightarrow> 'a ubasic_scheme \<Rightarrow> u32 \<times> 'a ubasic_scheme" where
  "config_value E cid def s =
     (let (r, s1) = ue_call E ''conf_getValue'' [cid] s
      in if r = 1 then ue_call E ''configVal.numb'' [] s1 else (def, s1))"

text \<open>
  \<open>random\<close>: seeds the generator with the brightness, the battery and the clock, pushes a delay of up to 9 ms, and
  gives up the timeslice. \<open>rand()\<close> is not negative.
\<close>

definition random_value ::
  "('a ubasic_scheme) ubasic_env \<Rightarrow> u32 \<Rightarrow> u32 \<Rightarrow> 'a ubasic_scheme \<Rightarrow> (u32 \<times> 'a ubasic_scheme) option" where
  "random_value E mn mx s = (
     let (bv, s1) = ue_call E ''shooting_get_bv96'' [] s;
         (vbatt, s2) = ue_call E ''stat_get_vbatt'' [] s1;
         s3 = snd (ue_call E ''srand'' [bv + low16 vbatt + tick_count s2] s2);
         (r1, s4) = ue_call E ''rand'' [] s3
     in do {
       d \<leftarrow> c_mod r1 10;
       s5 \<leftarrow> action_push_delay (ue_code E) d s4;
       let (r2, s6) = ue_call E ''rand'' [] (vm_upd (\<lambda>v. v\<lparr>flag_yield := True\<rparr>) s5);
       m \<leftarrow> c_mod r2 (mx - mn + 1);
       Some (mn + m, s6) })"

definition arg :: "nat \<Rightarrow> u32 list \<Rightarrow> u32" where
  "arg i as = (if i < length as then as ! i else 0)"

definition special_value ::
  "('a ubasic_scheme) ubasic_env \<Rightarrow> ubasic_token \<Rightarrow> u32 list \<Rightarrow> 'a ubasic_scheme \<Rightarrow>
   (u32 \<times> 'a ubasic_scheme) option" where
  "special_value E t as s =
     (if t = ''GET_VBATT'' then Some (apfst low16 (ue_call E ''stat_get_vbatt'' [] s))
     else if t = ''GET_DAY_SECONDS'' then Some (get_day_seconds E s)
     else if t = ''GET_QUALITY'' then
       Some (let (p, s1) = ue_call E ''camera_info.props.quality'' [] s
             in ue_call E ''shooting_get_prop'' [p] s1)
     else if t = ''GET_ORIENTATION_SENSOR'' then
       Some (let (p, s1) = ue_call E ''camera_info.props.orientation_sensor'' [] s
             in ue_call E ''shooting_get_prop'' [p] s1)
     else if t = ''GET_ND_PRESENT'' then Some (get_nd_present E s)
     else if t = ''GET_NEAR_LIMIT'' then Some (dof_value E ''near_limit'' s)
     else if t = ''GET_FAR_LIMIT'' then Some (dof_value E ''far_limit'' s)
     else if t = ''GET_DOF'' then Some (dof_value E ''depth_of_field'' s)
     else if t = ''GET_MIN_STACK_DIST'' then Some (dof_value E ''min_stack_distance'' s)
     else if t = ''GET_CAPTURE_MODE'' then
       Some (if mode_rec s then ue_call E ''camera_info.state.mode_shooting'' [] s else (0, s))
     else if t = ''GET_FOCAL_LENGTH'' then
       Some (let (z, s1) = ue_call E ''lens_get_zoom_point'' [] s in ue_call E ''get_focal_length'' [z] s1)
     else if t = ''GET_RAW_SUPPORT'' then
       Some (let (r, s1) = ue_call E ''is_raw_possible'' [] s
             in (of_bool32 (r \<noteq> 0 \<and> \<not> mode_play s1), s1))
     else if t = ''RANDOM'' then random_value E (arg 0 as) (arg 1 as) s
     else if t = ''GET_HISTO_RANGE'' then
       Some (apfst low16 (ue_call E ''shot_histogram_get_range'' as s))
     else if t = ''GET_TEMPERATURE'' then Some (get_temperature E (arg 0 as) s)
     else if t = ''GET_TIME'' then Some (get_time E (arg 0 as) s)
     else if t = ''IS_CAPTURE_MODE_VALID'' then
       Some (apfst (\<lambda>r. of_bool32 (r \<noteq> -1)) (ue_call E ''shooting_mode_chdk2canon'' as s))
     else if t = ''GET_CONFIG_VALUE'' then Some (config_value E (arg 0 as) (arg 1 as) s)
     else None)"

text \<open>The value of a function of \<open>factor_args\<close>, its arguments read.\<close>

definition factor_value ::
  "('a ubasic_scheme) ubasic_env \<Rightarrow> ubasic_token \<Rightarrow> u32 list \<Rightarrow> 'a ubasic_scheme \<Rightarrow>
   (u32 \<times> 'a ubasic_scheme) option" where
  "factor_value E t as s =
     (case map_of (core_calls @ conversion_calls) t of
        Some f \<Rightarrow> Some (ue_call E f as s)
      | None \<Rightarrow>
     (case state_value (ue_platform E) t s of
        Some r \<Rightarrow> Some (r, s)
      | None \<Rightarrow> special_value E t as s))"

section \<open>The parser\<close>

text \<open>\<open>n\<close> expressions, one after the other.\<close>

fun exprs ::
  "('a ubasic_scheme \<Rightarrow> (u32 \<times> 'a ubasic_scheme) option) \<Rightarrow> nat \<Rightarrow> 'a ubasic_scheme \<Rightarrow>
   (u32 list \<times> 'a ubasic_scheme) option" where
  "exprs ex 0 s = Some ([], s)"
| "exprs ex (Suc n) s = do {
     (a, s1) \<leftarrow> ex s;
     (as, s2) \<leftarrow> exprs ex n s1;
     Some (a # as, s2) }"

text \<open>\<open>get_usb_power\<close> of an \<open>int\<close>: any other number gives 0.\<close>

definition usb_power_value :: "u32 \<Rightarrow> 'a ubasic_scheme \<Rightarrow> u32 \<times> 'a ubasic_scheme" where
  "usb_power_value mode s =
     apfst word_of_int
       (if mode = 0 then get_usb_power SINGLE_PULSE s
        else if mode = 1 then get_usb_power USB_STATE s
        else if mode = 2 then get_usb_power BUFFERED_PULSE s
        else if mode = 3 then get_usb_power PULSE_COUNT s
        else if mode = 4 then get_usb_power LM_PULSE_COUNT s
        else if mode = 5 then get_usb_power HPTIMER_ERROR_COUNT s
        else (0, s))"

text \<open>The end of an argument list that may be left out.\<close>

definition no_arg :: "ubasic_token \<Rightarrow> bool" where
  "no_arg t \<longleftrightarrow> t = ''CR'' \<or> t = ''ELSE''"

text \<open>
  The body of \<open>factor\<close>; \<open>fac\<close>, \<open>ex\<close> and \<open>rel\<close> are the recursive calls of \<open>factor\<close>, \<open>expr\<close> and
  \<open>relation\<close>.
\<close>

definition factor_body ::
  "('a ubasic_scheme) ubasic_env \<Rightarrow>
   ('a ubasic_scheme \<Rightarrow> (u32 \<times> 'a ubasic_scheme) option) \<Rightarrow>
   ('a ubasic_scheme \<Rightarrow> (u32 \<times> 'a ubasic_scheme) option) \<Rightarrow>
   ('a ubasic_scheme \<Rightarrow> (u32 \<times> 'a ubasic_scheme) option) \<Rightarrow>
   'a ubasic_scheme \<Rightarrow> (u32 \<times> 'a ubasic_scheme) option" where
  "factor_body E fac ex rel s =
     (let t = utok s in
      if t = ''NUMBER'' then do {
        s1 \<leftarrow> vm_do (accept t) s;
        Some (word_of_int (tokenizer_num (program_ptr (ub s)) (tk (ub s))), s1) }
      else if t = ''LEFTPAREN'' then do {
        s1 \<leftarrow> vm_do (accept t) s;
        (r, s2) \<leftarrow> rel s1;
        s3 \<leftarrow> vm_do (accept ''RIGHTPAREN'') s2;
        Some (r, s3) }
      else if t = ''PLUS'' then do { s1 \<leftarrow> vm_do (accept t) s; fac s1 }
      else if t = ''MINUS'' then do { s1 \<leftarrow> vm_do (accept t) s; (r, s2) \<leftarrow> fac s1; Some (- r, s2) }
      else if t = ''LNOT'' then do {
        s1 \<leftarrow> vm_do (accept t) s;
        (r, s2) \<leftarrow> rel s1;
        Some (of_bool32 (r = 0), s2) }
      else if t = ''GET_USB_POWER'' then do {
        s1 \<leftarrow> vm_do (accept t) s;
        (mode, s2) \<leftarrow> (if no_arg (utok s1) then Some (0, s1) else ex s1);
        Some (usb_power_value mode s2) }
      else if t = ''IS_KEY'' then do {
        s1 \<leftarrow> vm_do (accept t) s;
        (k, s2) \<leftarrow> ubasic_get_key_arg s1;
        Some (script_key_is_clicked k s2, s2) }
      else if t = ''IS_PRESSED'' then do {
        s1 \<leftarrow> vm_do (accept t) s;
        (k, s2) \<leftarrow> ubasic_get_key_arg s1;
        Some (script_key_is_pressed (ue_platform E) k s2) }
      else (case factor_args t of
          Some n \<Rightarrow> do {
            s1 \<leftarrow> vm_do (accept t) s;
            (as, s2) \<leftarrow> exprs ex n s1;
            factor_value E t as s2 }
        | None \<Rightarrow> vm_get varfactor s))"

definition term_from ::
  "nat \<Rightarrow> ('a ubasic_scheme \<Rightarrow> (u32 \<times> 'a ubasic_scheme) option) \<Rightarrow>
   'a ubasic_scheme \<Rightarrow> (u32 \<times> 'a ubasic_scheme) option" where
  "term_from n fac s = do { (r, s1) \<leftarrow> fac s; operators n term_op fac r s1 }"

definition expr_from ::
  "nat \<Rightarrow> ('a ubasic_scheme \<Rightarrow> (u32 \<times> 'a ubasic_scheme) option) \<Rightarrow>
   'a ubasic_scheme \<Rightarrow> (u32 \<times> 'a ubasic_scheme) option" where
  "expr_from n fac s = do { (r, s1) \<leftarrow> term_from n fac s; operators n expr_op (term_from n fac) r s1 }"

definition relation_from ::
  "nat \<Rightarrow> ('a ubasic_scheme \<Rightarrow> (u32 \<times> 'a ubasic_scheme) option) \<Rightarrow>
   'a ubasic_scheme \<Rightarrow> (u32 \<times> 'a ubasic_scheme) option" where
  "relation_from n fac s = do { (r, s1) \<leftarrow> expr_from n fac s; operators n relation_op (expr_from n fac) r s1 }"

fun factor_n :: "('a ubasic_scheme) ubasic_env \<Rightarrow> nat \<Rightarrow> 'a ubasic_scheme \<Rightarrow> (u32 \<times> 'a ubasic_scheme) option" where
  "factor_n E 0 s = None"
| "factor_n E (Suc n) s =
     factor_body E (factor_n E n) (expr_from n (factor_n E n)) (relation_from n (factor_n E n)) s"

definition ub_fuel :: "'a ubasic_scheme \<Rightarrow> nat" where
  "ub_fuel s = length (program_ptr (ub s)) + 2"

definition expr :: "('a ubasic_scheme) ubasic_env \<Rightarrow> 'a ubasic_scheme \<Rightarrow> (u32 \<times> 'a ubasic_scheme) option" where
  "expr E s = expr_from (ub_fuel s) (factor_n E (ub_fuel s)) s"

definition relation :: "('a ubasic_scheme) ubasic_env \<Rightarrow> 'a ubasic_scheme \<Rightarrow> (u32 \<times> 'a ubasic_scheme) option" where
  "relation E s = relation_from (ub_fuel s) (factor_n E (ub_fuel s)) s"

end
