(* ===== verification/UbasicText.thy ===== *)
theory UbasicText
  imports UbasicVm
begin

text \<open>
  Program text and tokens: the text of a list of lexemes, each after a blank, and the proof that the tokenizer
  reads that list back from it.
\<close>

section \<open>Lexemes\<close>

text \<open>The tokens of an expression over numbers, variables and operators.\<close>

datatype lexeme = NumL nat | VarL int | OpL ubasic_token

definition operator_texts :: "(ubasic_token \<times> string) list" where
  "operator_texts =
     [(''ASTR'', ''*''), (''SLASH'', ''/''), (''MOD'', ''%''), (''LT'', ''<''), (''GT'', ''>''),
      (''EQ'', ''=''), (''NE'', ''<>''), (''LE'', ''<=''), (''GE'', ''>=''), (''OR'', ''|''),
      (''XOR'', ''^''), (''PLUS'', ''+''), (''MINUS'', ''-''), (''AND'', [CHR 0x26]), (''LOR'', ''or''),
      (''LAND'', ''and''), (''LNOT'', ''not''), (''LEFTPAREN'', ''(''), (''RIGHTPAREN'', '')'')]"

text \<open>Variables are numbered \<open>a\<close> to \<open>z\<close>, then \<open>A\<close> to \<open>Z\<close>.\<close>

definition variable_char :: "int \<Rightarrow> char" where
  "variable_char i = char_of (if i < 26 then nat (97 + i) else nat (39 + i))"

fun lexeme_text :: "lexeme \<Rightarrow> string" where
  "lexeme_text (NumL n) = digits n"
| "lexeme_text (VarL i) = [variable_char i]"
| "lexeme_text (OpL t) = (case map_of operator_texts t of Some x \<Rightarrow> x | None \<Rightarrow> [])"

fun lexeme_ok :: "lexeme \<Rightarrow> bool" where
  "lexeme_ok (NumL n) \<longleftrightarrow> n < 1000000"
| "lexeme_ok (VarL i) \<longleftrightarrow> 0 \<le> i \<and> i < MAX_VARNUM"
| "lexeme_ok (OpL t) \<longleftrightarrow> t \<in> fst ` set operator_texts"

definition lexemes_text :: "lexeme list \<Rightarrow> string" where
  "lexemes_text ls = concat (map (\<lambda>l. CHR '' '' # lexeme_text l) ls)"

text \<open>The tokenizer is at a lexeme.\<close>

fun at_lexeme :: "lexeme \<Rightarrow> string \<Rightarrow> tokenizer \<Rightarrow> bool" where
  "at_lexeme (NumL n) prog t \<longleftrightarrow> current_token t = ''NUMBER'' \<and> tokenizer_num prog t = int n"
| "at_lexeme (VarL i) prog t \<longleftrightarrow>
     current_token t = ''VARIABLE'' \<and> tokenizer_variable_num prog t = Some i"
| "at_lexeme (OpL x) prog t \<longleftrightarrow> current_token t = x"

section \<open>Numbers\<close>

lemma digit_char: "d < 10 \<Longrightarrow> isdigit (char_of (48 + d)) \<and> digit_value (char_of (48 + d)) = int d"
  by (simp add: isdigit_def digit_value_def)

lemma digits_props:
  shows
  "\<forall>c \<in> set (digits n). isdigit c" and "digits n \<noteq> []"
  and "foldl (\<lambda>m c. m * 10 + digit_value c) 0 (digits n) = int n"
  and "n < 10 ^ k \<Longrightarrow> 0 < k \<Longrightarrow> length (digits n) \<le> k"
proof -
  have "(\<forall>c \<in> set (digits n). isdigit c) \<and> digits n \<noteq> [] \<and>
    foldl (\<lambda>m c. m * 10 + digit_value c) 0 (digits n) = int n \<and>
    (\<forall>k. n < 10 ^ k \<longrightarrow> 0 < k \<longrightarrow> length (digits n) \<le> k)"
  proof (induction n rule: digits.induct)
    case (1 n)
    show ?case
    proof (cases "n < 10")
      case True
      then show ?thesis by (simp add: digits.simps [of n] digit_char)
    next
      case False
      note IH = 1 [OF False]
      have "length (digits n) \<le> k" if "n < 10 ^ k" "0 < k" for k
      proof (cases k)
        case (Suc j)
        have "n div 10 < 10 ^ j" using that(1) Suc by (simp add: div_less_iff_less_mult mult.commute)
        moreover have "0 < j" using that(1) Suc False by (cases j) auto
        ultimately show ?thesis using IH Suc False by (simp add: digits.simps [of n])
      qed (use that in simp)
      moreover have "int (n div 10 * 10 + n mod 10) = int n" by (simp only: div_mult_mod_eq)
      then have "int (n div 10) * 10 + int (n mod 10) = int n"
        by (simp only: of_nat_add of_nat_mult of_nat_numeral)
      ultimately show ?thesis
        using IH False digit_char [of "n mod 10"] by (auto simp: digits.simps [of n])
    qed
  qed
  then show "\<forall>c \<in> set (digits n). isdigit c" "digits n \<noteq> []"
    "foldl (\<lambda>m c. m * 10 + digit_value c) 0 (digits n) = int n"
    "n < 10 ^ k \<Longrightarrow> 0 < k \<Longrightarrow> length (digits n) \<le> k" by auto
qed

section \<open>Names\<close>

text \<open>No keyword is a letter followed by a separator.\<close>

definition separator :: "char \<Rightarrow> bool" where
  "separator c \<longleftrightarrow> c = CHR '' '' \<or> c = CHR 0x0A"

fun long_name :: "string \<Rightarrow> bool" where
  "long_name [] \<longleftrightarrow> False"
| "long_name [a] \<longleftrightarrow> \<not> is_letter a"
| "long_name (a # b # cs) \<longleftrightarrow> \<not> separator b"

fun long_names :: "(string \<times> ubasic_token) list \<Rightarrow> bool" where
  "long_names [] = True"
| "long_names ((kw, t) # ks) = (if long_name kw then long_names ks else False)"

lemma long_names_append: "long_names (xs @ ys) \<longleftrightarrow> long_names xs \<and> long_names ys"
  by (induction xs rule: long_names.induct) auto

lemma long_names_in: "long_names ks \<Longrightarrow> (kw, t) \<in> set ks \<Longrightarrow> long_name kw"
  by (induction ks rule: long_names.induct) (auto split: if_splits)

lemma long_names_cong: "long_names ks = long_names ks"
  by (rule refl)

lemma keywords_long_names:
  "long_names keywords_statements" "long_names keywords_get" "long_names keywords_set" "long_names keywords_other"
  unfolding keywords_statements_def keywords_get_def keywords_set_def keywords_other_def
  by (simp_all only: long_names.simps long_name.simps is_letter_def separator_def char.inject simp_thms
      of_char_Char if_True if_False cong: long_names_cong) simp_all

lemma find_keyword_letter:
  assumes "is_letter a" and "separator c"
  shows "find_keyword (a # c # rest) = None"
proof -
  have "take (length kw) (a # c # rest) \<noteq> kw" if "(kw, t) \<in> set keyword_table" for kw t
  proof -
    have "long_names keyword_table"
      using keywords_long_names by (simp add: keyword_table_def long_names_append)
    from this that have "long_name kw" by (rule long_names_in)
    then show ?thesis using assms by (cases kw rule: long_name.cases) auto
  qed
  then show ?thesis by (auto simp: find_keyword_def find_None_iff)
qed

text \<open>The operators that are words of the table.\<close>

lemma find_keyword_starts:
  "find_keyword str = find (\<lambda>(kw, t). starts_with kw str) keyword_table"
  by (simp add: find_keyword_def starts_with_take)

lemma find_keyword_operators:
  assumes "separator c"
  shows "find_keyword (CHR ''<'' # CHR ''>'' # c # rest) = Some (''<>'', ''NE'')"
    "find_keyword (CHR ''<'' # CHR ''='' # c # rest) = Some (''<='', ''LE'')"
    "find_keyword (CHR ''>'' # CHR ''='' # c # rest) = Some (''>='', ''GE'')"
    "find_keyword (CHR ''<'' # c # rest) = Some (''<'', ''LT'')"
    "find_keyword (CHR ''>'' # c # rest) = Some (''>'', ''GT'')"
    "find_keyword (CHR ''n'' # CHR ''o'' # CHR ''t'' # c # rest) = Some (''not'', ''LNOT'')"
    "find_keyword (CHR ''o'' # CHR ''r'' # c # rest) = Some (''or'', ''LOR'')"
    "find_keyword (CHR ''a'' # CHR ''n'' # CHR ''d'' # c # rest) = Some (''and'', ''LAND'')"
  using assms
  unfolding find_keyword_starts keyword_table_def keywords_statements_def append_Cons append_Nil
  by (auto simp: separator_def)

section \<open>Reading a lexeme\<close>

fun lexeme_token :: "lexeme \<Rightarrow> ubasic_token" where
  "lexeme_token (NumL n) = ''NUMBER''"
| "lexeme_token (VarL i) = ''VARIABLE''"
| "lexeme_token (OpL x) = x"

lemma letter_facts:
  "is_letter x \<Longrightarrow> \<not> isdigit x \<and> \<not> is_blank x \<and> x \<noteq> CHR '':'' \<and> x \<noteq> CHR 0x22 \<and> x \<noteq> CHR 0x00 \<and>
    singlechar x = ''ERROR''"
proof -
  assume x: "is_letter x"
  have ne: "x \<noteq> y" if "\<not> is_letter y" for y using x that by auto
  have c: "\<not> is_letter (CHR 0x00)" "\<not> is_letter (CHR 0x09)" "\<not> is_letter (CHR 0x0A)" "\<not> is_letter (CHR 0x0D)"
    "\<not> is_letter CHR '' ''" "\<not> is_letter CHR '':''" "\<not> is_letter (CHR 0x22)" "\<not> is_letter CHR '',''"
    "\<not> is_letter CHR '';''" "\<not> is_letter CHR ''+''" "\<not> is_letter CHR ''-''" "\<not> is_letter (CHR 0x26)"
    "\<not> is_letter CHR ''|''" "\<not> is_letter CHR ''^''" "\<not> is_letter CHR ''*''" "\<not> is_letter CHR ''/''"
    "\<not> is_letter CHR ''%''" "\<not> is_letter CHR ''(''" "\<not> is_letter CHR '')''" "\<not> is_letter CHR ''=''"
    by (simp_all add: is_letter_def)
  have "\<not> isdigit x" using x by (auto simp: is_letter_def isdigit_def)
  then show ?thesis by (simp add: is_blank_def singlechar_def c [THEN ne])
qed

lemma digit_facts: "isdigit x \<Longrightarrow> \<not> is_blank x \<and> x \<noteq> CHR 0x00"
  by (auto simp: isdigit_def is_blank_def)

lemma separator_not_digit: "separator c \<Longrightarrow> \<not> isdigit c"
  by (auto simp: separator_def isdigit_def)

lemma variable_char_letter:
  assumes "0 \<le> i" and "i < MAX_VARNUM"
  shows "is_letter (variable_char i)"
    and "int (of_char (variable_char i) :: nat) - (if int (of_char (variable_char i) :: nat) \<ge> 97 then 97 else 65 - 26) = i"
proof -
  let ?m = "nat (if i < 26 then 97 + i else 39 + i)"
  have "?m < 256" using assms by (auto simp: MAX_VARNUM_def)
  then have c: "of_char (variable_char i) = ?m" unfolding variable_char_def by auto
  show "is_letter (variable_char i)" unfolding is_letter_def c using assms by (auto simp: MAX_VARNUM_def)
  show "int (of_char (variable_char i) :: nat) - (if int (of_char (variable_char i) :: nat) \<ge> 97 then 97 else 65 - 26) = i"
    unfolding c using assms by (auto simp: MAX_VARNUM_def)
qed

lemma token_at_number:
  assumes "n < 1000000" and "separator c" and "drop p prog = digits n @ c # post" and "tk_ptr t = p"
    and "isdigit x"
  shows "token_at prog x t = Some (''NUMBER'', t\<lparr>tk_nextptr := p + length (digits n)\<rparr>)"
    and "tokenizer_num prog t = int n"
proof -
  have tw: "takeWhile isdigit (digits n @ c # post) = digits n"
    using digits_props(1) [of n] separator_not_digit [OF assms(2)] by (induction "digits n") auto
  then have d: "digits_at prog p = digits n" using assms(3) by (simp add: digits_at_def)
  have "length (digits n) \<le> 6" using digits_props(4) [of n 6] assms(1) by simp
  then have "scan_number prog p 0 = Some (length (digits n))"
    using digits_props(2) [of n] by (simp add: scan_number_digits d MAX_NUMLEN_def)
  then show "token_at prog x t = Some (''NUMBER'', t\<lparr>tk_nextptr := p + length (digits n)\<rparr>)"
    using assms(4,5) by (simp add: token_at_def)
  show "tokenizer_num prog t = int n"
    using assms(3,4) tw digits_props(3) [of n] by (simp add: tokenizer_num_def)
qed

lemma token_at_variable:
  assumes "is_letter x" and "separator c" and "drop p prog = x # c # post" and "tk_ptr t = p"
  shows "token_at prog x t = Some (''VARIABLE'', t\<lparr>tk_nextptr := p + 1\<rparr>)"
  using letter_facts [OF assms(1)] find_keyword_letter [OF assms(1,2)] assms
  by (simp add: token_at_def word_at_def)

lemma token_at_operator:
  assumes "(y, txt) \<in> set operator_texts" and "separator c"
    and "drop p prog = txt @ c # post" and "tk_ptr t = p"
  shows "token_at prog (hd txt) t = Some (y, t\<lparr>tk_nextptr := p + length txt\<rparr>)"
proof -
  note f = find_keyword_operators [OF assms(2), of post]
  show ?thesis
    using assms(1) unfolding operator_texts_def list.set
    by (elim insertE emptyE;
        use assms(3,4) f in \<open>simp add: token_at_def word_at_def isdigit_def singlechar_def\<close>)
qed

lemma lexeme_head:
  assumes "lexeme_ok l"
  obtains x xs where "lexeme_text l = x # xs" "\<not> is_blank x" "x \<noteq> CHR 0x00"
proof (cases l)
  case (NumL n)
  obtain x xs where "digits n = x # xs" using digits_props(2) [of n] by (cases "digits n") auto
  with NumL digits_props(1) [of n] digit_facts [of x] show ?thesis by (intro that) auto
next
  case (VarL i)
  with assms letter_facts [OF variable_char_letter(1)] show ?thesis by (intro that) auto
next
  case (OpL y)
  then have "y \<in> fst ` set operator_texts" using assms by simp
  then have "\<exists>x xs. lexeme_text (OpL y) = x # xs \<and> \<not> is_blank x \<and> x \<noteq> CHR 0x00"
    unfolding operator_texts_def list.set image_insert fst_conv
    by (elim insertE) (simp_all add: operator_texts_def is_blank_def)
  with OpL that show ?thesis by blast
qed

lemma operator_text_in: "y \<in> fst ` set operator_texts \<Longrightarrow> (y, lexeme_text (OpL y)) \<in> set operator_texts"
  unfolding operator_texts_def list.set image_insert fst_conv
  by (elim insertE) (simp_all add: operator_texts_def)

lemma token_at_lexeme:
  assumes "lexeme_ok l" and "separator c" and "drop p prog = lexeme_text l @ c # post" and "tk_ptr t = p"
  shows "token_at prog (hd (lexeme_text l)) t =
      Some (lexeme_token l, t\<lparr>tk_nextptr := p + length (lexeme_text l)\<rparr>)"
    and "at_lexeme l prog (t\<lparr>tk_nextptr := n, current_token := lexeme_token l\<rparr>)"
proof -
  have lt: "p < length prog"
  proof (rule ccontr)
    assume "\<not> p < length prog"
    with assms(3) show False by simp
  qed
  then have nth: "prog ! p = hd (lexeme_text l @ c # post)"
    using hd_drop_conv_nth [of p prog] assms(3) by simp
  show "token_at prog (hd (lexeme_text l)) t =
      Some (lexeme_token l, t\<lparr>tk_nextptr := p + length (lexeme_text l)\<rparr>)"
  proof (cases l)
    case (NumL m)
    have "isdigit (hd (digits m))" using digits_props(1,2) [of m] by (cases "digits m") auto
    with NumL token_at_number(1) [of m c p prog post t "hd (digits m)"] assms show ?thesis by simp
  next
    case (VarL i)
    with token_at_variable [of "variable_char i" c p prog post t] variable_char_letter(1) [of i] assms
    show ?thesis by simp
  next
    case (OpL y)
    with token_at_operator [OF operator_text_in assms(2), of y p prog post t] assms show ?thesis by simp
  qed
  show "at_lexeme l prog (t\<lparr>tk_nextptr := n, current_token := lexeme_token l\<rparr>)"
  proof (cases l)
    case (NumL m)
    let ?t = "t\<lparr>tk_nextptr := n, current_token := lexeme_token l\<rparr>"
    have "isdigit (hd (digits m))" using digits_props(1,2) [of m] by (cases "digits m") auto
    with NumL token_at_number(2) [of m c p prog post ?t "hd (digits m)"] assms show ?thesis by simp
  next
    case (VarL i)
    then have "prog ! p = variable_char i" using nth by simp
    with VarL lt assms variable_char_letter(2) [of i] show ?thesis
      by (simp add: tokenizer_variable_num_def char_at_def Let_def)
  qed simp
qed

lemma next_lexeme:
  assumes prog: "prog = pre @ CHR '' '' # lexeme_text l @ c # post"
    and ok: "lexeme_ok l" "separator c" and t: "tk_nextptr t = length pre" "\<not> tokenizer_finished prog t"
  obtains u where "tokenizer_next prog t = Some u" "at_lexeme l prog u"
    "tk_nextptr u = length pre + 1 + length (lexeme_text l)" "\<not> tokenizer_finished prog u"
proof -
  obtain x xs where x: "lexeme_text l = x # xs" "\<not> is_blank x" "x \<noteq> CHR 0x00"
    using ok(1) by (rule lexeme_head)
  let ?p = "length pre + 1"
  let ?t = "t\<lparr>tk_ptr := ?p\<rparr>"
  have d: "drop ?p prog = lexeme_text l @ c # post" by (simp add: prog)
  have skip: "skip_while (\<lambda>c. c = CHR '' '' \<or> c = CHR 0x09) prog (length pre) = ?p"
    using x by (simp add: skip_while_def prog is_blank_def)
  have idle: "skip_while is_blank prog ?p = ?p"
    using x by (simp add: skip_while_def d [simplified])
  have nth: "?p < length prog" "prog ! ?p = x" by (simp_all add: prog x(1) nth_append)
  have tok: "lexeme_token l \<noteq> ''ENDOFINPUT''"
  proof (cases l)
    case (OpL y)
    then have "y \<in> fst ` set operator_texts" using ok(1) by simp
    with OpL show ?thesis by (auto simp: operator_texts_def)
  qed simp_all
  let ?u = "?t\<lparr>tk_nextptr := ?p + length (lexeme_text l), current_token := lexeme_token l\<rparr>"
  have "get_next_token prog ?t = Some (lexeme_token l, ?t\<lparr>tk_nextptr := ?p + length (lexeme_text l)\<rparr>)"
    using token_at_lexeme(1) [OF ok d, of ?t] x nth idle
    by (simp add: get_next_token_def Let_def char_at_def)
  then have "tokenizer_next prog t = Some ?u" using t skip by (simp add: tokenizer_next_def Let_def)
  moreover have "at_lexeme l prog ?u" using token_at_lexeme(2) [OF ok d, of ?t] by simp
  moreover have "\<not> tokenizer_finished prog ?u"
    using nth x tok by (simp add: tokenizer_finished_def char_at_def)
  ultimately show ?thesis by (intro that) simp_all
qed

lemma next_newline:
  assumes prog: "prog = pre @ CHR 0x0A # post" and t: "tk_nextptr t = length pre" "\<not> tokenizer_finished prog t"
  obtains u where "tokenizer_next prog t = Some u" "current_token u = ''CR''"
proof -
  let ?p = "length pre"
  have skip: "skip_while q prog ?p = ?p" if "\<not> q (CHR 0x0A)" for q
    using that by (simp add: skip_while_def prog)
  have nth: "?p < length prog" "prog ! ?p = CHR 0x0A" by (simp_all add: prog)
  obtain q n where "skip_lines prog ?p (current_line t) = (q, n)" by (cases "skip_lines prog ?p (current_line t)")
  then have "\<exists>s. get_next_token prog (t\<lparr>tk_ptr := ?p\<rparr>) = Some (''CR'', s)"
    using nth skip [of is_blank]
    by (simp add: get_next_token_def Let_def char_at_def token_at_def isdigit_def singlechar_def is_blank_def)
  then obtain s where "get_next_token prog (t\<lparr>tk_ptr := ?p\<rparr>) = Some (''CR'', s)" by blast
  with t skip [of "\<lambda>c. c = CHR '' '' \<or> c = CHR 0x09"] show ?thesis
    by (intro that) (auto simp: tokenizer_next_def Let_def)
qed

section \<open>Reading a list of lexemes\<close>

text \<open>From \<open>t\<close>, at the first lexeme, the tokenizer comes to \<open>t'\<close>, behind the last.\<close>

fun lexeme_stream :: "string \<Rightarrow> lexeme list \<Rightarrow> tokenizer \<Rightarrow> tokenizer \<Rightarrow> bool" where
  "lexeme_stream prog [] t t' \<longleftrightarrow> t' = t"
| "lexeme_stream prog (l # ls) t t' \<longleftrightarrow>
     at_lexeme l prog t \<and> (\<exists>u. tokenizer_next prog t = Some u \<and> lexeme_stream prog ls u t')"

lemma reads_text:
  assumes "list_all lexeme_ok ls" and "prog = pre @ lexemes_text ls @ CHR 0x0A # post"
    and "tk_nextptr t = length pre" and "\<not> tokenizer_finished prog t"
  shows "\<exists>u t'. tokenizer_next prog t = Some u \<and> lexeme_stream prog ls u t' \<and> current_token t' = ''CR''"
  using assms
proof (induction ls arbitrary: pre t)
  case Nil
  from next_newline [of prog pre post t] Nil show ?case by (auto simp: lexemes_text_def)
next
  case (Cons l ls)
  obtain c rest where c: "lexemes_text ls @ CHR 0x0A # post = c # rest" "separator c"
    by (cases ls) (auto simp: lexemes_text_def separator_def)
  have prog: "prog = pre @ CHR '' '' # lexeme_text l @ c # rest"
    using Cons.prems(2) c(1) by (simp add: lexemes_text_def)
  obtain u where u: "tokenizer_next prog t = Some u" "at_lexeme l prog u"
    "tk_nextptr u = length pre + 1 + length (lexeme_text l)" "\<not> tokenizer_finished prog u"
    using next_lexeme [OF prog _ c(2) Cons.prems(3,4)] Cons.prems(1) by auto
  have "prog = (pre @ CHR '' '' # lexeme_text l) @ lexemes_text ls @ CHR 0x0A # post"
    using prog c(1) by simp
  from Cons.IH [OF _ this _ u(4)] u(3) Cons.prems(1)
  obtain u' t' where "tokenizer_next prog u = Some u'" "lexeme_stream prog ls u' t'" "current_token t' = ''CR''"
    by auto
  with u(1,2) show ?case by auto
qed

end
