(* ===== verification/UbasicParse.thy ===== *)
theory UbasicParse
  imports UbasicExpr UbasicText
begin

text \<open>
  The expression parser against a reference: expressions as trees, with the value of a tree and the
  tokens it is written with. Parsing the tokens gives the value of the tree.
\<close>

section \<open>Expressions\<close>

datatype binop = Times | Divide | Modulo | Less | Greater | Equal | Unequal | LessEqual | GreaterEqual
  | BitOr | BitXor | Plus | Minus | BitAnd | Or | And

datatype uexp = Num nat | Var int | Positive uexp | Negative uexp | Not uexp | Bin binop uexp uexp

fun op_token :: "binop \<Rightarrow> ubasic_token" where
  "op_token Times = ''ASTR''" | "op_token Divide = ''SLASH''" | "op_token Modulo = ''MOD''"
| "op_token Less = ''LT''" | "op_token Greater = ''GT''" | "op_token Equal = ''EQ''"
| "op_token Unequal = ''NE''" | "op_token LessEqual = ''LE''" | "op_token GreaterEqual = ''GE''"
| "op_token BitOr = ''OR''" | "op_token BitXor = ''XOR''" | "op_token Plus = ''PLUS''"
| "op_token Minus = ''MINUS''" | "op_token BitAnd = ''AND''" | "op_token Or = ''LOR''"
| "op_token And = ''LAND''"

text \<open>Comparisons bind like multiplication, \<open>and\<close> weakest.\<close>

fun op_level :: "binop \<Rightarrow> nat" where
  "op_level Plus = 2" | "op_level Minus = 2" | "op_level BitAnd = 2" | "op_level Or = 2"
| "op_level And = 1" | "op_level _ = 3"

text \<open>The meaning of the operators on the integers the words stand for.\<close>

definition truth :: "bool \<Rightarrow> int" where
  "truth b = (if b then 1 else 0)"

fun op_value :: "binop \<Rightarrow> int \<Rightarrow> int \<Rightarrow> int option" where
  "op_value Times a b = Some (a * b)"
| "op_value Divide a b = (if b = 0 then None else Some (a sdiv b))"
| "op_value Modulo a b = (if b = 0 then None else Some (a smod b))"
| "op_value Less a b = Some (truth (a < b))"
| "op_value Greater a b = Some (truth (a > b))"
| "op_value Equal a b = Some (truth (a = b))"
| "op_value Unequal a b = Some (truth (a \<noteq> b))"
| "op_value LessEqual a b = Some (truth (a \<le> b))"
| "op_value GreaterEqual a b = Some (truth (a \<ge> b))"
| "op_value BitOr a b = Some (a OR b)"
| "op_value BitXor a b = Some (a XOR b)"
| "op_value Plus a b = Some (a + b)"
| "op_value Minus a b = Some (a - b)"
| "op_value BitAnd a b = Some (a AND b)"
| "op_value Or a b = Some (truth (a \<noteq> 0 \<or> b \<noteq> 0))"
| "op_value And a b = Some (truth (a \<noteq> 0 \<and> b \<noteq> 0))"

text \<open>Values are cut to 32 bits.\<close>

definition wrap32 :: "int \<Rightarrow> int" where
  "wrap32 i = sint (word_of_int i :: u32)"

fun uexp_value :: "(int \<Rightarrow> int) \<Rightarrow> uexp \<Rightarrow> int option" where
  "uexp_value env (Num n) = Some (wrap32 (int n))"
| "uexp_value env (Var i) = Some (wrap32 (env i))"
| "uexp_value env (Positive e) = uexp_value env e"
| "uexp_value env (Negative e) = map_option (\<lambda>a. wrap32 (- a)) (uexp_value env e)"
| "uexp_value env (Not e) = map_option (\<lambda>a. truth (a = 0)) (uexp_value env e)"
| "uexp_value env (Bin op e1 e2) = do {
     a \<leftarrow> uexp_value env e1;
     b \<leftarrow> uexp_value env e2;
     map_option wrap32 (op_value op a b) }"

text \<open>
  The tokens of an expression where an operand of level \<open>k\<close> is wanted: 4 for an operand of a sign, 0 for
  an expression that stands alone. \<open>not\<close> takes everything to its right, so it is only free at level 0.
\<close>

definition paren :: "bool \<Rightarrow> lexeme list \<Rightarrow> lexeme list" where
  "paren b ls = (if b then [OpL ''LEFTPAREN''] @ ls @ [OpL ''RIGHTPAREN''] else ls)"

fun uexp_lexemes :: "nat \<Rightarrow> uexp \<Rightarrow> lexeme list" where
  "uexp_lexemes k (Num n) = [NumL n]"
| "uexp_lexemes k (Var i) = [VarL i]"
| "uexp_lexemes k (Positive e) = OpL ''PLUS'' # uexp_lexemes 4 e"
| "uexp_lexemes k (Negative e) = OpL ''MINUS'' # uexp_lexemes 4 e"
| "uexp_lexemes k (Not e) = paren (0 < k) (OpL ''LNOT'' # uexp_lexemes 0 e)"
| "uexp_lexemes k (Bin op e1 e2) =
     paren (op_level op < k)
       (uexp_lexemes (op_level op) e1 @ OpL (op_token op) # uexp_lexemes (Suc (op_level op)) e2)"

fun uexp_ok :: "uexp \<Rightarrow> bool" where
  "uexp_ok (Num n) \<longleftrightarrow> n < 1000000"
| "uexp_ok (Var i) \<longleftrightarrow> 0 \<le> i \<and> i < MAX_VARNUM"
| "uexp_ok (Positive e) \<longleftrightarrow> uexp_ok e"
| "uexp_ok (Negative e) \<longleftrightarrow> uexp_ok e"
| "uexp_ok (Not e) \<longleftrightarrow> uexp_ok e"
| "uexp_ok (Bin op e1 e2) \<longleftrightarrow> uexp_ok e1 \<and> uexp_ok e2"

section \<open>Operators\<close>

text \<open>The levels of the parser.\<close>

definition level_op :: "nat \<Rightarrow> ubasic_token \<Rightarrow> operator option" where
  "level_op k = (if k = 1 then relation_op else if k = 2 then expr_op else if k = 3 then term_op else (\<lambda>_. None))"

lemma sint_word_of_int_sint: "sint (word_of_int (sint a) :: u32) = sint (a :: u32)"
  by simp

lemma sint_zero: "sint (a :: u32) = 0 \<longleftrightarrow> a = 0"
  using signed_word_eqI [of a 0] by auto

lemma of_bool32_sint: "sint (of_bool32 b) = truth b"
  by (simp add: of_bool32_def truth_def)

lemma wrap32_truth: "wrap32 (truth b) = truth b"
  by (simp add: wrap32_def truth_def)

lemma word_op: "sint (x :: u32) = wrap32 i \<longleftrightarrow> x = word_of_int i"
  unfolding wrap32_def using signed_word_eqI by blast

lemma level_op_value:
  "\<exists>f. level_op (op_level op) (op_token op) = Some f \<and>
     (\<forall>a b. map_option sint (f a b) = map_option wrap32 (op_value op (sint a) (sint b)))"
proof -
  have eq: "sint a = sint b \<longleftrightarrow> a = b" for a b :: u32
    using signed_word_eqI by blast
  have bits: "word_of_int (sint a OR sint b) = (a OR b :: u32)"
    "word_of_int (sint a XOR sint b) = (a XOR b :: u32)"
    "word_of_int (sint a AND sint b) = (a AND b :: u32)" for a b :: u32
    by (simp_all add: of_int_or_eq of_int_xor_eq of_int_and_eq)
  show ?thesis
    by (cases op)
       (simp_all add: level_op_def term_op_def expr_op_def relation_op_def of_bool32_sint wrap32_truth
         word_op word_sless_alt word_sle_eq eq sint_zero bits c_div_def c_mod_def)
qed


lemma level_op_below: "op_level op < k \<Longrightarrow> level_op k (op_token op) = None"
  by (cases op) (simp_all add: level_op_def term_op_def expr_op_def relation_op_def)

lemma level_op_paren: "level_op k ''RIGHTPAREN'' = None"
  by (simp add: level_op_def term_op_def expr_op_def relation_op_def)

lemma op_level_range: "op_level op \<in> {1, 2, 3}"
  by (cases op) simp_all

section \<open>Values on words\<close>

definition op_word :: "binop \<Rightarrow> operator" where
  "op_word op = the (level_op (op_level op) (op_token op))"

lemma level_op_word: "level_op (op_level op) (op_token op) = Some (op_word op)"
  using level_op_value [of op] by (auto simp: op_word_def)

fun uexp_word :: "(int \<Rightarrow> u32) \<Rightarrow> uexp \<Rightarrow> u32 option" where
  "uexp_word env (Num n) = Some (word_of_int (int n))"
| "uexp_word env (Var i) = Some (env i)"
| "uexp_word env (Positive e) = uexp_word env e"
| "uexp_word env (Negative e) = map_option uminus (uexp_word env e)"
| "uexp_word env (Not e) = map_option (\<lambda>a. of_bool32 (a = 0)) (uexp_word env e)"
| "uexp_word env (Bin op e1 e2) = do {
     a \<leftarrow> uexp_word env e1;
     b \<leftarrow> uexp_word env e2;
     op_word op a b }"

lemma uexp_word_value:
  "map_option sint (uexp_word env e) = uexp_value (\<lambda>i. sint (env i)) e"
proof (induction e)
  case (Negative e)
  have "sint (- a) = wrap32 (- sint a)" for a :: u32 by (simp add: word_op)
  then show ?case by (simp flip: Negative add: option.map_comp comp_def)
next
  case (Not e)
  have "sint (of_bool32 (a = 0)) = truth (sint a = 0)" for a :: u32
    by (simp add: of_bool32_sint sint_zero)
  then show ?case by (simp flip: Not add: option.map_comp comp_def)
next
  case (Bin op e1 e2)
  have "map_option sint (op_word op a b) = map_option wrap32 (op_value op (sint a) (sint b))" for a b
    using level_op_value [of op] by (auto simp: op_word_def)
  then show ?case
    by (cases "uexp_word env e1"; cases "uexp_word env e2") (simp_all flip: Bin)
qed (simp_all add: wrap32_def)

section \<open>The parser on a stream of tokens\<close>

definition move :: "tokenizer \<Rightarrow> 'a ubasic_scheme \<Rightarrow> 'a ubasic_scheme" where
  "move t s = s\<lparr>ub := (ub s)\<lparr>tk := t\<rparr>\<rparr>"

lemma move_simps [simp]:
  "ub (move t s) = (ub s)\<lparr>tk := t\<rparr>" "utok (move t s) = current_token t"
  "s\<lparr>ub := (ub s)\<lparr>tk := t\<rparr>\<rparr> = move t s" "(move t s)\<lparr>ub := (ub s)\<lparr>tk := u\<rparr>\<rparr> = move u s"
  by (simp_all add: move_def utok_def tok_def)

lemma next_move:
  "tokenizer_next (program_ptr (ub s)) t = Some u \<Longrightarrow> vm_do vm_next (move t s) = Some (move u s)"
  by (simp add: vm_do_def vm_next_def)

lemma accept_move:
  "tokenizer_next (program_ptr (ub s)) t = Some u \<Longrightarrow> current_token t = x \<Longrightarrow>
   vm_do (accept x) (move t s) = Some (move u s)"
  by (simp add: vm_do_def vm_next_def accept_def tok_def)

lemma stream_append:
  "lexeme_stream prog (xs @ ys) t t' \<longleftrightarrow> (\<exists>u. lexeme_stream prog xs t u \<and> lexeme_stream prog ys u t')"
  by (induction xs arbitrary: t) auto

definition parse_level ::
  "('a ubasic_scheme) ubasic_env \<Rightarrow> nat \<Rightarrow> nat \<Rightarrow> 'a ubasic_scheme \<Rightarrow> (u32 \<times> 'a ubasic_scheme) option" where
  "parse_level E n k =
     (if k = 1 then relation_from n (factor_n E n) else if k = 2 then expr_from n (factor_n E n)
      else if k = 3 then term_from n (factor_n E n) else factor_n E n)"

lemma parse_level_down:
  "k \<in> {1, 2, 3} \<Longrightarrow> parse_level E n k s = do {
     (r, s1) \<leftarrow> parse_level E n (Suc k) s; operators n (level_op k) (parse_level E n (Suc k)) r s1 }"
  by (auto simp: parse_level_def level_op_def relation_from_def expr_from_def term_from_def)

text \<open>
  Tokens \<open>ls\<close> stand for an operand of level \<open>k\<close> with value \<open>w\<close>: the parser of the level comes, behind them, to its loop with the
  value, if no operator of a stronger level follows.
\<close>

definition parses ::
  "('a ubasic_scheme) ubasic_env \<Rightarrow> 'a ubasic_scheme \<Rightarrow> nat \<Rightarrow> nat \<Rightarrow> lexeme list \<Rightarrow> u32 option \<Rightarrow> bool" where
  "parses E s n k ls w \<longleftrightarrow> (\<forall>t t'. lexeme_stream (program_ptr (ub s)) ls t t' \<longrightarrow>
     (\<forall>j. k < j \<longrightarrow> level_op j (current_token t') = None) \<longrightarrow>
     (\<exists>m. n \<le> m + length ls \<and> parse_level E n k (move t s) = do {
        r \<leftarrow> w; operators m (level_op k) (parse_level E n (Suc k)) r (move t' s) }))"

definition parses_alone ::
  "('a ubasic_scheme) ubasic_env \<Rightarrow> 'a ubasic_scheme \<Rightarrow> nat \<Rightarrow> lexeme list \<Rightarrow> u32 option \<Rightarrow> bool" where
  "parses_alone E s n ls w \<longleftrightarrow> (\<forall>t t'. lexeme_stream (program_ptr (ub s)) ls t t' \<longrightarrow>
     (\<forall>j. level_op j (current_token t') = None) \<longrightarrow>
     parse_level E n 1 (move t s) = do { r \<leftarrow> w; Some (r, move t' s) })"

lemma parses_result:
  assumes "parses E s n k ls w" and "length ls < n" and "lexeme_stream (program_ptr (ub s)) ls t t'"
    and "\<forall>j. k \<le> j \<longrightarrow> level_op j (current_token t') = None"
  shows "parse_level E n k (move t s) = do { r \<leftarrow> w; Some (r, move t' s) }"
proof -
  obtain m where m: "n \<le> m + length ls" "parse_level E n k (move t s) = do {
      r \<leftarrow> w; operators m (level_op k) (parse_level E n (Suc k)) r (move t' s) }"
    using assms unfolding parses_def by (meson less_imp_le)
  then obtain m' where "m = Suc m'" using assms(2) by (cases m) auto
  with m(2) assms(4) show ?thesis by simp
qed

lemma parses_down:
  assumes "parses E s n (Suc k) ls w" and "length ls < n" and "k \<in> {1, 2, 3}"
  shows "parses E s n k ls w"
  unfolding parses_def
proof (intro allI impI)
  fix t t'
  assume t: "lexeme_stream (program_ptr (ub s)) ls t t'" "\<forall>j. k < j \<longrightarrow> level_op j (current_token t') = None"
  then have "parse_level E n (Suc k) (move t s) = do { r \<leftarrow> w; Some (r, move t' s) }"
    using parses_result [OF assms(1,2)] by simp
  then have "parse_level E n k (move t s) = do {
      r \<leftarrow> w; operators n (level_op k) (parse_level E n (Suc k)) r (move t' s) }"
    using parse_level_down [OF assms(3), of E n "move t s"] by (cases w) simp_all
  then show "\<exists>m. n \<le> m + length ls \<and> parse_level E n k (move t s) = do {
        r \<leftarrow> w; operators m (level_op k) (parse_level E n (Suc k)) r (move t' s) }"
    by (intro exI [of _ n]) simp
qed

lemma parses_lower:
  assumes "parses E s n l ls w" and "length ls < n" and "1 \<le> k" and "k \<le> l" and "l \<le> 4"
  shows "parses E s n k ls w"
  using assms
proof (induction "l - k" arbitrary: l)
  case (Suc d)
  then obtain l' where l': "l = Suc l'" by (cases l) auto
  with Suc.prems Suc.hyps(2) have "l' \<in> {1, 2, 3}" by auto
  from parses_down [OF _ Suc.prems(2) this] Suc.prems(1) l' have "parses E s n l' ls w" by simp
  with Suc.hyps(1) [of l'] Suc.hyps(2) Suc.prems l' show ?case by simp
qed simp

lemma parses_alone_from:
  "parses E s n 1 ls w \<Longrightarrow> length ls < n \<Longrightarrow> parses_alone E s n ls w"
  using parses_result unfolding parses_alone_def by blast

text \<open>A factor.\<close>

lemma parses_factor:
  assumes "\<And>t t'. lexeme_stream (program_ptr (ub s)) ls t t' \<Longrightarrow>
    (\<forall>j. 4 < j \<longrightarrow> level_op j (current_token t') = None) \<Longrightarrow>
    factor_n E n (move t s) = do { r \<leftarrow> w; Some (r, move t' s) }" and "length ls < n"
  shows "parses E s n 4 ls w"
  unfolding parses_def
proof (intro allI impI)
  fix t t'
  assume "lexeme_stream (program_ptr (ub s)) ls t t'" "\<forall>j. 4 < j \<longrightarrow> level_op j (current_token t') = None"
  from assms(1) [OF this] have "factor_n E n (move t s) = do { r \<leftarrow> w; Some (r, move t' s) }" .
  with assms(2) show "\<exists>m. n \<le> m + length ls \<and> parse_level E n 4 (move t s) = do {
      r \<leftarrow> w; operators m (level_op 4) (parse_level E n (Suc 4)) r (move t' s) }"
    by (intro exI [of _ n]) (cases n; simp add: parse_level_def level_op_def)
qed

lemma parses_number:
  assumes "1 < n"
  shows "parses E s n 4 [NumL x] (Some (word_of_int (int x)))"
proof (rule parses_factor)
  fix t t'
  assume "lexeme_stream (program_ptr (ub s)) [NumL x] t t'"
  moreover obtain n' where "n = Suc n'" using assms by (cases n) auto
  ultimately show "factor_n E n (move t s) = do { r \<leftarrow> Some (word_of_int (int x)); Some (r, move t' s) }"
    using accept_move [of s t t' "''NUMBER''"] by (auto simp: factor_body_def)
qed (use assms in simp)

lemma parses_variable:
  assumes "1 < n" and "0 \<le> i" and "i < MAX_VARNUM"
  shows "parses E s n 4 [VarL i] (Some (variables (ub s) i))"
proof (rule parses_factor)
  fix t t'
  assume "lexeme_stream (program_ptr (ub s)) [VarL i] t t'"
  then have t: "current_token t = ''VARIABLE''" "tokenizer_variable_num (program_ptr (ub s)) t = Some i"
    "tokenizer_next (program_ptr (ub s)) t = Some t'" by auto
  obtain n' where "n = Suc n'" using assms by (cases n) auto
  moreover have "factor_args ''VARIABLE'' = None" by (simp add: factor_args_def)
  ultimately show "factor_n E n (move t s) = do { r \<leftarrow> Some (variables (ub s) i); Some (r, move t' s) }"
    using t assms(2,3)
    by (simp add: factor_body_def vm_get_def varfactor_def variable_num_def accept_def tok_def vm_next_def
        ubasic_get_variable_def)
qed (use assms in simp)

lemma parses_sign:
  assumes p: "parses E s n 4 ls w" and n: "length ls < n"
  shows "parses E s (Suc n) 4 (OpL ''PLUS'' # ls) w"
    and "parses E s (Suc n) 4 (OpL ''MINUS'' # ls) (map_option uminus w)"
proof -
  have "factor_n E n (move u s) = do { r \<leftarrow> w; Some (r, move t' s) }"
    if "lexeme_stream (program_ptr (ub s)) ls u t'" "\<forall>j. 4 < j \<longrightarrow> level_op j (current_token t') = None" for u t'
    using parses_result [OF p n that(1)] that(2) by (simp add: parse_level_def level_op_def)
  note f = this
  show "parses E s (Suc n) 4 (OpL ''PLUS'' # ls) w"
  proof (rule parses_factor)
    fix t t'
    assume a: "lexeme_stream (program_ptr (ub s)) (OpL ''PLUS'' # ls) t t'"
      "\<forall>j. 4 < j \<longrightarrow> level_op j (current_token t') = None"
    then obtain u where "tokenizer_next (program_ptr (ub s)) t = Some u" "current_token t = ''PLUS''"
      "lexeme_stream (program_ptr (ub s)) ls u t'" by auto
    with a(2) f show "factor_n E (Suc n) (move t s) = do { r \<leftarrow> w; Some (r, move t' s) }"
      using accept_move [of s t u "''PLUS''"] by (simp add: factor_body_def)
  qed (use n in simp)
  show "parses E s (Suc n) 4 (OpL ''MINUS'' # ls) (map_option uminus w)"
  proof (rule parses_factor)
    fix t t'
    assume a: "lexeme_stream (program_ptr (ub s)) (OpL ''MINUS'' # ls) t t'"
      "\<forall>j. 4 < j \<longrightarrow> level_op j (current_token t') = None"
    then obtain u where "tokenizer_next (program_ptr (ub s)) t = Some u" "current_token t = ''MINUS''"
      "lexeme_stream (program_ptr (ub s)) ls u t'" by auto
    with a(2) f show "factor_n E (Suc n) (move t s) = do { r \<leftarrow> map_option uminus w; Some (r, move t' s) }"
      using accept_move [of s t u "''MINUS''"] by (cases w) (simp_all add: factor_body_def)
  qed (use n in simp)
qed

text \<open>Parentheses, and \<open>not\<close>, start over with the weakest operators.\<close>

lemma relation_level: "relation_from n (factor_n E n) = parse_level E n 1"
  by (simp add: parse_level_def)

lemma parses_paren:
  assumes p: "parses_alone E s n ls w" and n: "length ls + 1 < n"
  shows "parses E s (Suc n) 4 (paren True ls) w"
proof (rule parses_factor)
  fix t t'
  assume "lexeme_stream (program_ptr (ub s)) (paren True ls) t t'"
  then obtain u v where u: "current_token t = ''LEFTPAREN''" "tokenizer_next (program_ptr (ub s)) t = Some u"
      "lexeme_stream (program_ptr (ub s)) ls u v" "current_token v = ''RIGHTPAREN''"
      "tokenizer_next (program_ptr (ub s)) v = Some t'"
    by (auto simp: paren_def stream_append)
  have "parse_level E n 1 (move u s) = do { r \<leftarrow> w; Some (r, move v s) }"
    using p u(3,4) level_op_paren by (simp add: parses_alone_def)
  then show "factor_n E (Suc n) (move t s) = do { r \<leftarrow> w; Some (r, move t' s) }"
    using accept_move [of s t u "''LEFTPAREN''"] accept_move [of s v t' "''RIGHTPAREN''"] u
    by (cases w) (simp_all add: factor_body_def relation_level)
qed (use n in \<open>simp add: paren_def\<close>)

lemma parses_not:
  assumes p: "parses_alone E s n ls w" and n: "length ls < n"
  shows "parses_alone E s (Suc n) (OpL ''LNOT'' # ls) (map_option (\<lambda>a. of_bool32 (a = 0)) w)"
  unfolding parses_alone_def
proof (intro allI impI)
  fix t t'
  let ?w = "map_option (\<lambda>a. of_bool32 (a = 0)) w"
  assume "lexeme_stream (program_ptr (ub s)) (OpL ''LNOT'' # ls) t t'"
    and e: "\<forall>j. level_op j (current_token t') = None"
  then obtain u where u: "current_token t = ''LNOT''" "tokenizer_next (program_ptr (ub s)) t = Some u"
      "lexeme_stream (program_ptr (ub s)) ls u t'" by auto
  have "parse_level E n 1 (move u s) = do { r \<leftarrow> w; Some (r, move t' s) }"
    using p u(3) e by (simp add: parses_alone_def)
  then have "parse_level E (Suc n) 4 (move t s) = do { r \<leftarrow> ?w; Some (r, move t' s) }"
    using accept_move [of s t u "''LNOT''"] u
    by (cases w) (simp_all add: parse_level_def [of E "Suc n"] factor_body_def relation_level)
  with e show "parse_level E (Suc n) 1 (move t s) = do { r \<leftarrow> ?w; Some (r, move t' s) }"
    by (cases w) (simp_all add: parse_level_down numeral_eq_Suc)
qed

text \<open>A binary operator at its own level.\<close>

lemma parses_bin:
  assumes p1: "parses E s n l ls1 w1" and p2: "parses E s n (Suc l) ls2 w2"
    and l: "l = op_level op" and n: "length ls1 + 1 + length ls2 < n"
  shows "parses E s n l (ls1 @ OpL (op_token op) # ls2) (do { a \<leftarrow> w1; b \<leftarrow> w2; op_word op a b })"
  unfolding parses_def
proof (intro allI impI)
  fix t t'
  let ?prog = "program_ptr (ub s)"
  let ?sub = "parse_level E n (Suc l)"
  assume st: "lexeme_stream ?prog (ls1 @ OpL (op_token op) # ls2) t t'"
    and e: "\<forall>j. l < j \<longrightarrow> level_op j (current_token t') = None"
  from st obtain u v where u: "lexeme_stream ?prog ls1 t u" "current_token u = op_token op"
      "tokenizer_next ?prog u = Some v" "lexeme_stream ?prog ls2 v t'"
    by (auto simp: stream_append)
  have "\<forall>j. l < j \<longrightarrow> level_op j (current_token u) = None" using u(2) level_op_below l by simp
  then obtain m where m: "n \<le> m + length ls1" "parse_level E n l (move t s) = do {
      r \<leftarrow> w1; operators m (level_op l) ?sub r (move u s) }"
    using p1 u(1) unfolding parses_def by meson
  then obtain m' where m': "m = Suc m'" using n by (cases m) auto
  have "?sub (move v s) = do { r \<leftarrow> w2; Some (r, move t' s) }"
    using parses_result [OF p2 _ u(4)] e n by simp
  moreover have "level_op l (op_token op) = Some (op_word op)" using l level_op_word by simp
  ultimately have "operators m (level_op l) ?sub a (move u s) =
      do { b \<leftarrow> w2; r \<leftarrow> op_word op a b; operators m' (level_op l) ?sub r (move t' s) }" for a
    using next_move [OF u(3)] u(2) m' by (cases w2) simp_all
  then have "parse_level E n l (move t s) = do {
      r \<leftarrow> do { a \<leftarrow> w1; b \<leftarrow> w2; op_word op a b }; operators m' (level_op l) ?sub r (move t' s) }"
    using m(2) by (cases w1; cases w2) simp_all
  with m(1) m' show "\<exists>m. n \<le> m + length (ls1 @ OpL (op_token op) # ls2) \<and> parse_level E n l (move t s) = do {
      r \<leftarrow> do { a \<leftarrow> w1; b \<leftarrow> w2; op_word op a b }; operators m (level_op l) ?sub r (move t' s) }"
    by (intro exI [of _ m']) auto
qed

text \<open>What an operand of level \<open>l\<close> is at the weaker levels, and in parentheses at the stronger ones.\<close>

lemma parses_anywhere:
  assumes p: "\<And>n. length ls < n \<Longrightarrow> parses E s n l ls w" and l: "1 \<le> l" "l \<le> 4"
    and n: "length (paren (l < k) ls) < n"
  shows "k = 0 \<Longrightarrow> parses_alone E s n (paren (l < k) ls) w"
    and "1 \<le> k \<Longrightarrow> k \<le> 4 \<Longrightarrow> parses E s n k (paren (l < k) ls) w"
proof -
  have alone: "parses_alone E s m ls w" if "length ls < m" for m
    using parses_alone_from [OF parses_lower [OF p [OF that] that order_refl l] that] .
  then show "k = 0 \<Longrightarrow> parses_alone E s n (paren (l < k) ls) w"
    using n by (simp add: paren_def)
  assume k: "1 \<le> k" "k \<le> 4"
  show "parses E s n k (paren (l < k) ls) w"
  proof (cases "l < k")
    case True
    obtain n' where n': "n = Suc n'" using n by (cases n) auto
    with True n have "length ls + 1 < n'" by (simp add: paren_def)
    then have "parses E s n 4 (paren True ls) w" using parses_paren [OF alone [of n']] n' by simp
    then show ?thesis using parses_lower [of E s n 4] n k True by simp
  next
    case False
    with n have "parses E s n l ls w" "length ls < n" using p by (simp_all add: paren_def)
    from parses_lower [OF this k(1)] False l show ?thesis by (simp add: paren_def)
  qed
qed

lemma parses_uexp:
  assumes "uexp_ok e" and "length (uexp_lexemes k e) < n"
  shows "(k = 0 \<longrightarrow> parses_alone E s n (uexp_lexemes k e) (uexp_word (variables (ub s)) e)) \<and>
    (1 \<le> k \<and> k \<le> 4 \<longrightarrow> parses E s n k (uexp_lexemes k e) (uexp_word (variables (ub s)) e))"
  using assms
proof (induction e arbitrary: k n)
  case (Num x)
  show ?case
    using parses_anywhere [of "[NumL x]" E s 4 _ k n] parses_number [of _ E s x] Num by (simp add: paren_def)
next
  case (Var i)
  show ?case
    using parses_anywhere [of "[VarL i]" E s 4 _ k n] parses_variable [of _ i E s] Var by (simp add: paren_def)
next
  case (Positive e)
  have "parses E s m 4 (OpL ''PLUS'' # uexp_lexemes 4 e) (uexp_word (variables (ub s)) e)"
    if "length (OpL ''PLUS'' # uexp_lexemes 4 e) < m" for m
  proof -
    from that obtain m' where m: "m = Suc m'" "length (uexp_lexemes 4 e) < m'" by (cases m) auto
    then have "parses E s m' 4 (uexp_lexemes 4 e) (uexp_word (variables (ub s)) e)"
      using Positive.IH [of 4 m'] Positive.prems(1) by simp
    from parses_sign(1) [OF this m(2)] m(1) show ?thesis by simp
  qed
  from parses_anywhere [OF this, where k = k and n = n] Positive.prems show ?case by (simp add: paren_def)
next
  case (Negative e)
  have "parses E s m 4 (OpL ''MINUS'' # uexp_lexemes 4 e) (uexp_word (variables (ub s)) (Negative e))"
    if "length (OpL ''MINUS'' # uexp_lexemes 4 e) < m" for m
  proof -
    from that obtain m' where m: "m = Suc m'" "length (uexp_lexemes 4 e) < m'" by (cases m) auto
    then have "parses E s m' 4 (uexp_lexemes 4 e) (uexp_word (variables (ub s)) e)"
      using Negative.IH [of 4 m'] Negative.prems(1) by simp
    from parses_sign(2) [OF this m(2)] m(1) show ?thesis by simp
  qed
  from parses_anywhere [OF this, where k = k and n = n] Negative.prems show ?case by (simp add: paren_def)
next
  case (Not e)
  let ?ls = "OpL ''LNOT'' # uexp_lexemes 0 e"
  have alone: "parses_alone E s m ?ls (uexp_word (variables (ub s)) (Not e))" if "length ?ls < m" for m
  proof -
    from that obtain m' where m: "m = Suc m'" "length (uexp_lexemes 0 e) < m'" by (cases m) auto
    then have "parses_alone E s m' (uexp_lexemes 0 e) (uexp_word (variables (ub s)) e)"
      using Not.IH [of 0 m'] Not.prems(1) by simp
    from parses_not [OF this m(2)] m(1) show ?thesis by simp
  qed
  show ?case
  proof (cases "k = 0")
    case False
    obtain n' where n': "n = Suc n'" using Not.prems by (cases n) auto
    with False Not.prems have "length ?ls + 1 < n'" by (simp add: paren_def)
    then have "parses E s n 4 (paren True ?ls) (uexp_word (variables (ub s)) (Not e))"
      using parses_paren [OF alone [of n']] n' by simp
    then show ?thesis using parses_lower [of E s n 4] Not.prems False by simp
  qed (use alone Not.prems in \<open>simp add: paren_def\<close>)
next
  case (Bin op e1 e2)
  let ?l = "op_level op"
  let ?ls = "uexp_lexemes ?l e1 @ OpL (op_token op) # uexp_lexemes (Suc ?l) e2"
  have l: "1 \<le> ?l" "?l \<le> 3" using op_level_range [of op] by auto
  have "parses E s m ?l ?ls (uexp_word (variables (ub s)) (Bin op e1 e2))" if "length ?ls < m" for m
    using parses_bin [of E s m ?l _ _ _ _ op] Bin.IH(1) [of ?l m] Bin.IH(2) [of "Suc ?l" m] that l Bin.prems(1)
    by simp
  from parses_anywhere [OF this, where k = k and n = n] Bin.prems l show ?case by (cases "k = 0") simp_all
qed


lemma uexp_lexemes_ok: "uexp_ok e \<Longrightarrow> list_all lexeme_ok (uexp_lexemes k e)"
proof (induction e arbitrary: k)
  case (Bin op e1 e2)
  have "op_token op \<in> fst ` set operator_texts" by (cases op) (simp_all add: operator_texts_def)
  with Bin show ?case by (simp add: paren_def operator_texts_def)
qed (simp_all add: paren_def operator_texts_def)

lemma lexemes_text_length: "length ls \<le> length (lexemes_text ls)"
  by (induction ls) (simp_all add: lexemes_text_def)

section \<open>Properties\<close>

text \<open>C40: the tokenizer inverts printing. From the text of a list of numbers below a million, variables and
  operators, each after a blank, and a line end, the tokenizer reads back exactly these tokens, with their
  values, and then the line end.\<close>

theorem tokenizer_reads_back:
  assumes "list_all lexeme_ok ls" and "prog = pre @ lexemes_text ls @ CHR 0x0A # post"
    and "tk_nextptr t = length pre" and "\<not> tokenizer_finished prog t"
  shows "\<exists>u t'. tokenizer_next prog t = Some u \<and> lexeme_stream prog ls u t' \<and> current_token t' = ''CR''"
  using assms by (rule reads_text)

definition tk_at_line :: tokenizer where
  "tk_at_line = \<lparr>tk_ptr = 0, tk_nextptr = 1, current_token = ''CR'', current_line = 1\<rparr>"

theorem tokenizer_reads_back_witness:
  "\<exists>u t'. tokenizer_next (CHR 0x0A # lexemes_text [VarL 0, OpL ''LE'', NumL 42] @ [CHR 0x0A]) tk_at_line = Some u \<and>
     lexeme_stream (CHR 0x0A # lexemes_text [VarL 0, OpL ''LE'', NumL 42] @ [CHR 0x0A])
       [VarL 0, OpL ''LE'', NumL 42] u t' \<and> current_token t' = ''CR''"
  by (rule tokenizer_reads_back [of _ _ "[CHR 0x0A]" "[]"])
     (simp_all add: tk_at_line_def tokenizer_finished_def char_at_def MAX_VARNUM_def operator_texts_def)

text \<open>C5: an expression has the value its text says. Where the text of an expression follows, with the
  parentheses that the levels ask for (comparisons like multiplication, \<open>not\<close> up to the end), reading it
  gives the value of the expression tree in 32-bit arithmetic, or no result exactly when the tree divides by
  zero, and nothing of the state changes but the position, which is the line end.\<close>

theorem ubasic_expression_value:
  assumes ok: "uexp_ok e"
    and prog: "program_ptr (ub s) = pre @ lexemes_text (uexp_lexemes 0 e) @ CHR 0x0A # post"
    and pos: "tk_nextptr (tk (ub s)) = length pre"
    and more: "\<not> tokenizer_finished (program_ptr (ub s)) (tk (ub s))"
  shows "\<exists>t'. current_token t' = ''CR'' \<and>
    map_option (\<lambda>(r, s'). (sint r, s')) (do { s1 \<leftarrow> vm_do vm_next s; relation E s1 }) =
    map_option (\<lambda>i. (i, s\<lparr>ub := (ub s)\<lparr>tk := t'\<rparr>\<rparr>)) (uexp_value (\<lambda>i. sint (variables (ub s) i)) e)"
proof -
  let ?prog = "program_ptr (ub s)"
  let ?ls = "uexp_lexemes 0 e"
  obtain u t' where u: "tokenizer_next ?prog (tk (ub s)) = Some u" "lexeme_stream ?prog ?ls u t'"
    "current_token t' = ''CR''"
    using reads_text [OF uexp_lexemes_ok [OF ok] prog pos more] by blast
  have "length ?ls < ub_fuel s" using lexemes_text_length [of ?ls] by (simp add: ub_fuel_def prog)
  then have "parses_alone E s (ub_fuel s) ?ls (uexp_word (variables (ub s)) e)"
    using parses_uexp [OF ok] by blast
  moreover have "level_op j ''CR'' = None" for j
    by (simp add: level_op_def term_op_def expr_op_def relation_op_def)
  ultimately have "relation E (move u s) = do { r \<leftarrow> uexp_word (variables (ub s)) e; Some (r, move t' s) }"
    using u(2,3) by (simp add: relation_def relation_level parses_alone_def ub_fuel_def)
  moreover have "vm_do vm_next s = Some (move u s)"
    using u(1) by (simp add: vm_do_def vm_next_def)
  ultimately show ?thesis
    using u(3) by (intro exI [of _ t'])
      (cases "uexp_word (variables (ub s)) e"; simp flip: uexp_word_value)
qed

text \<open>\<open>1 + 2 < 4\<close> is 2.\<close>

definition demo_line :: "string \<Rightarrow> ubasic_vm" where
  "demo_line line = ubasic_static\<lparr>program_ptr := CHR 0x0A # line @ [CHR 0x0A], tk := tk_at_line\<rparr>"

theorem ubasic_expression_value_witness:
  "\<forall>E (s :: ubasic). \<exists>s'. map_option (\<lambda>(r, s'). (sint r, s'))
     (do { s1 \<leftarrow> vm_do vm_next (s\<lparr>ub := demo_line '' 1 + 2 < 4''\<rparr>); relation E s1 }) = Some (2, s')"
proof (intro allI)
  fix E and s :: ubasic
  let ?e = "Bin Plus (Num 1) (Bin Less (Num 2) (Num 4))"
  let ?s = "s\<lparr>ub := demo_line '' 1 + 2 < 4''\<rparr>"
  have t: "lexemes_text (uexp_lexemes 0 ?e) = '' 1 + 2 < 4''"
    by (simp add: lexemes_text_def paren_def operator_texts_def digits.simps char_of_eq_iff)
  have "\<exists>t'. current_token t' = ''CR'' \<and>
    map_option (\<lambda>(r, s'). (sint r, s')) (do { s1 \<leftarrow> vm_do vm_next ?s; relation E s1 }) =
    map_option (\<lambda>i. (i, ?s\<lparr>ub := (ub ?s)\<lparr>tk := t'\<rparr>\<rparr>)) (uexp_value (\<lambda>i. sint (variables (ub ?s) i)) ?e)"
    by (rule ubasic_expression_value [of ?e ?s "[CHR 0x0A]" "[]" E])
       (use t in \<open>simp_all add: demo_line_def ubasic_static_def tk_at_line_def tokenizer_finished_def char_at_def\<close>)
  moreover have "uexp_value (\<lambda>i. sint (variables (ub ?s) i)) ?e = Some 2"
    by (simp add: wrap32_def truth_def)
  ultimately show "\<exists>s'. map_option (\<lambda>(r, s'). (sint r, s')) (do { s1 \<leftarrow> vm_do vm_next ?s; relation E s1 }) = Some (2, s')"
    by auto
qed

end
