(* ===== verification/UbasicStmt.thy ===== *)
theory UbasicStmt
  imports UbasicExpr
begin

text \<open>
  The statements of uBASIC, \<open>lib/ubasic/ubasic.c\<close>: conditionals, selections, loops, output, actions and the calls into the
  core; \<open>line_statement\<close>, the timeslice \<open>ubasic_run\<close>, and the table of functions through which
  \<open>core/script.c\<close> uses the interpreter, \<open>modules/ubasic.c\<close>.
\<close>

section \<open>Variables, loops\<close>

definition let_statement :: "('a ubasic_scheme) ubasic_env \<Rightarrow> 'a ubasic_scheme \<Rightarrow> 'a ubasic_scheme option" where
  "let_statement E s = do {
     var \<leftarrow> variable_num (ub s);
     s1 \<leftarrow> vm_do (accept ''VARIABLE'') s;
     s2 \<leftarrow> vm_do (accept ''EQ'') s1;
     (r, s3) \<leftarrow> expr E s2;
     vm_do accept_cr (vm_upd (ubasic_set_variable var r) s3) }"

definition push_for :: "for_state \<Rightarrow> ubasic_vm \<Rightarrow> ubasic_vm option" where
  "push_for f v =
     (if for_stack_ptr v < MAX_FOR_STACK_DEPTH then do {
        fs \<leftarrow> array_put (for_stack_ptr v) f (for_stack v);
        Some (v\<lparr>for_stack := fs, for_stack_ptr := for_stack_ptr v + 1\<rparr>) }
      else Some (vm_fail UBASIC_E_FOR_STACK_EXHAUSTED v))"

definition for_statement :: "('a ubasic_scheme) ubasic_env \<Rightarrow> 'a ubasic_scheme \<Rightarrow> 'a ubasic_scheme option" where
  "for_statement E s = do {
     s1 \<leftarrow> vm_do (accept ''FOR'') s;
     (var, s2) \<leftarrow> vm_get variable_arg s1;
     s3 \<leftarrow> vm_do (accept ''EQ'') s2;
     (from, s4) \<leftarrow> expr E s3;
     s5 \<leftarrow> vm_do (accept ''TO'') (vm_upd (ubasic_set_variable var from) s4);
     (to, s6) \<leftarrow> expr E s5;
     (step, s7) \<leftarrow> (if utok s6 \<noteq> ''CR''
                    then do { t \<leftarrow> vm_do (accept ''STEP'') s6; expr E t }
                    else Some (1, s6));
     s8 \<leftarrow> vm_do (accept ''CR'') s7;
     vm_do (push_for \<lparr>line_after_for = short (cur_line (ub s8)), for_variable = short var,
                      for_to = to, for_step = step\<rparr>) s8 }"

definition until_jump :: "u32 \<Rightarrow> ubasic_vm \<Rightarrow> ubasic_vm option" where
  "until_jump r v =
     (if do_stack_ptr v > 0 then
        if r = 0 then do {
          n \<leftarrow> array_get (do_stack v) (do_stack_ptr v - 1);
          jump_line n v }
        else accept_cr (v\<lparr>do_stack_ptr := do_stack_ptr v - 1\<rparr>)
      else Some (vm_fail UBASIC_E_UNMATCHED_UNTIL v))"

definition until_statement :: "('a ubasic_scheme) ubasic_env \<Rightarrow> 'a ubasic_scheme \<Rightarrow> 'a ubasic_scheme option" where
  "until_statement E s = do {
     s1 \<leftarrow> vm_do (accept ''UNTIL'') s;
     (r, s2) \<leftarrow> relation E s1;
     vm_do (until_jump r) s2 }"

text \<open>The loop's line is pushed unless it is on top already; \<open>True\<close> for an exhausted stack.\<close>

definition push_while :: "ubasic_vm \<Rightarrow> (bool \<times> ubasic_vm) option" where
  "push_while v =
     (if while_stack_ptr v < MAX_WHILE_STACK_DEPTH then do {
        on_top \<leftarrow> (if while_stack_ptr v = 0 then Some False
                   else map_option (\<lambda>n. n = cur_line v) (array_get (while_stack v) (while_stack_ptr v - 1)));
        if on_top then Some (False, v)
        else do {
          w \<leftarrow> array_put (while_stack_ptr v) (short (cur_line v)) (while_stack v);
          Some (False, v\<lparr>while_stack := w, while_stack_ptr := while_stack_ptr v + 1\<rparr>) } }
      else Some (True, vm_fail UBASIC_E_WHILE_STACK_EXHAUSTED v))"

partial_function (option) wend_skip :: "int \<Rightarrow> ubasic_vm \<Rightarrow> ubasic_vm option" where
  "wend_skip c v =
     (if (tok v \<noteq> ''WEND'' \<or> c \<noteq> 0) \<and> tok v \<noteq> ''ENDOFINPUT''
      then do {
        v1 \<leftarrow> vm_next v;
        wend_skip (if tok v = ''WHILE'' then c + 1 else if tok v = ''WEND'' then c - 1 else c) v1 }
      else Some v)"

definition while_branch :: "u32 \<Rightarrow> ubasic_vm \<Rightarrow> ubasic_vm option" where
  "while_branch r v =
     (if while_stack_ptr v > 0 then
        if r = 0 then do {
          v1 \<leftarrow> wend_skip 0 v;
          v2 \<leftarrow> accept ''WEND'' (v1\<lparr>while_stack_ptr := while_stack_ptr v1 - 1\<rparr>);
          accept ''CR'' v2 }
        else accept_cr v
      else Some (vm_fail UBASIC_E_UNMATCHED_WEND v))"

definition while_statement :: "('a ubasic_scheme) ubasic_env \<Rightarrow> 'a ubasic_scheme \<Rightarrow> 'a ubasic_scheme option" where
  "while_statement E s = do {
     s1 \<leftarrow> vm_do (accept ''WHILE'') s;
     (full, s2) \<leftarrow> vm_get push_while s1;
     if full then Some s2
     else do {
       (r, s3) \<leftarrow> relation E s2;
       vm_do (while_branch r) s3 } }"

section \<open>Conditionals\<close>

text \<open>
  The multi-line form, at the line end after \<open>then\<close>. The stack keeps the condition as a \<open>short\<close>.
\<close>

definition multi_line_if :: "u32 \<Rightarrow> ubasic_vm \<Rightarrow> ubasic_vm option" where
  "multi_line_if r v =
     (if if_stack_ptr v < MAX_IF_STACK_DEPTH then do {
        st \<leftarrow> array_put (if_stack_ptr v) (short (sint r)) (if_stack v);
        v1 \<leftarrow> accept ''CR'' (v\<lparr>if_stack := st, if_stack_ptr := if_stack_ptr v + 1\<rparr>);
        if r \<noteq> 0 then Some v1
        else do {
          (err, v2) \<leftarrow> if_skip 0 0 False v1;
          if err \<or> tok v2 = ''ELSE'' then Some v2 else endif_statement v2 } }
      else Some (vm_fail UBASIC_E_IF_STACK_EXHAUSTED v))"

definition if_statement ::
  "('a ubasic_scheme) ubasic_env \<Rightarrow> ('a ubasic_scheme \<Rightarrow> 'a ubasic_scheme option) \<Rightarrow>
   'a ubasic_scheme \<Rightarrow> 'a ubasic_scheme option" where
  "if_statement E stmt s = do {
     s1 \<leftarrow> vm_do (accept ''IF'') s;
     (r, s2) \<leftarrow> relation E s1;
     s3 \<leftarrow> vm_do (accept ''THEN'') s2;
     if ended (ub s3) then Some s3
     else if utok s3 = ''CR'' then vm_do (multi_line_if r) s3
     else if r \<noteq> 0 then stmt s3
     else do {
       s4 \<leftarrow> vm_do vm_next s3;
       s5 \<leftarrow> vm_do (skip_until (\<lambda>t. t = ''ELSE'' \<or> line_end t)) s4;
       if utok s5 = ''ELSE'' then do { s6 \<leftarrow> vm_do (accept ''ELSE'') s5; stmt s6 }
       else vm_do (accept ''CR'') s5 } }"

section \<open>Selections\<close>

text \<open>The rest of a list of values; \<open>eq\<close> says whether one of them was the selected value.\<close>

partial_function (option) case_list ::
  "('a ubasic_scheme) ubasic_env \<Rightarrow> u32 \<Rightarrow> bool \<Rightarrow> 'a ubasic_scheme \<Rightarrow> (bool \<times> 'a ubasic_scheme) option" where
  "case_list E sel eq s =
     (if utok s = ''COMMA'' then do {
        s1 \<leftarrow> vm_do (accept ''COMMA'') s;
        (r, s2) \<leftarrow> expr E s1;
        case_list E sel (eq \<or> sel = r) s2 }
      else Some (eq, s))"

definition case_value ::
  "('a ubasic_scheme) ubasic_env \<Rightarrow> u32 \<Rightarrow> 'a ubasic_scheme \<Rightarrow> (bool \<times> 'a ubasic_scheme) option" where
  "case_value E sel s = do {
     (v1, s1) \<leftarrow> expr E s;
     if utok s1 = ''TO'' then do {
       s2 \<leftarrow> vm_do (accept ''TO'') s1;
       (v2, s3) \<leftarrow> expr E s2;
       Some (if v1 <s v2 then v1 \<le>s sel \<and> sel \<le>s v2 else v2 \<le>s sel \<and> sel \<le>s v1, s3) }
     else case_list E sel (sel = v1) s1 }"

text \<open>
  The statement of a \<open>case\<close> that applies. After a \<open>gosub\<close> the interpreter goes back to the line after it, to look for
  what follows the \<open>case\<close>; the second result is the line the \<open>gosub\<close> went to.
\<close>

definition case_execute ::
  "('a ubasic_scheme \<Rightarrow> 'a ubasic_scheme option) \<Rightarrow> 'a ubasic_scheme \<Rightarrow>
   (bool \<times> bool \<times> int \<times> 'a ubasic_scheme) option" where
  "case_execute stmt s = do {
     let case_goto = (utok s = ''GOTO'');
     let case_gosub = (utok s = ''GOSUB'');
     let ln = cur_line (ub s);
     s1 \<leftarrow> stmt s;
     let gosub_ln = (if case_gosub then cur_line (ub s1) else 0);
     s2 \<leftarrow> (if case_gosub then vm_do (jump_line (ln + 1)) s1 else Some s1);
     Some (case_goto, case_gosub, gosub_ln, s2) }"

text \<open>After a \<open>gosub\<close>: the subroutine returns behind the \<open>end_select\<close>, if that came next.\<close>

definition case_gosub_jump :: "bool \<Rightarrow> int \<Rightarrow> ubasic_vm \<Rightarrow> ubasic_vm option" where
  "case_gosub_jump case_gosub gosub_ln v =
     (if case_gosub then do {
        g \<leftarrow> array_put (gosub_stack_ptr v - 1) (short (cur_line v)) (gosub_stack v);
        jump_line gosub_ln (v\<lparr>gosub_stack := g\<rparr>) }
      else Some v)"

definition after_case :: "bool \<Rightarrow> bool \<Rightarrow> int \<Rightarrow> ubasic_vm \<Rightarrow> ubasic_vm option" where
  "after_case case_goto case_gosub gosub_ln v0 =
     (if case_goto then Some (dec_select_stack v0)
      else do {
        v \<leftarrow> skip_rems v0;
        if tok v \<noteq> ''CASE'' \<and> tok v \<noteq> ''CASE_ELSE'' \<and> tok v \<noteq> ''END_SELECT''
        then Some (vm_fail UBASIC_E_PARSE v)
        else do {
          v1 \<leftarrow> (if tok v = ''END_SELECT'' then end_select_statement v else Some v);
          case_gosub_jump case_gosub gosub_ln v1 } })"

definition set_case_run :: "ubasic_vm \<Rightarrow> ubasic_vm option" where
  "set_case_run v = do {
     c \<leftarrow> array_get (select_stack v) (select_stack_ptr v - 1);
     st \<leftarrow> array_put (select_stack_ptr v - 1) (c\<lparr>case_run := 1\<rparr>) (select_stack v);
     Some (v\<lparr>select_stack := st\<rparr>) }"

definition case_statement ::
  "('a ubasic_scheme) ubasic_env \<Rightarrow> ('a ubasic_scheme \<Rightarrow> 'a ubasic_scheme option) \<Rightarrow>
   'a ubasic_scheme \<Rightarrow> 'a ubasic_scheme option" where
  "case_statement E stmt s0 = do {
     s \<leftarrow> vm_do (accept ''CASE'') s0;
     if select_stack_ptr (ub s) > 0 then do {
       c \<leftarrow> array_get (select_stack (ub s)) (select_stack_ptr (ub s) - 1);
       (gt, gs, ln, s4) \<leftarrow>
         (if case_run c = 0 then do {
            (eq, s1) \<leftarrow> case_value E (select_value c) s;
            s2 \<leftarrow> vm_do (accept ''SEMICOLON'') s1;
            if eq then do {
              (gt, gs, ln, s3) \<leftarrow> case_execute stmt s2;
              s4 \<leftarrow> vm_do set_case_run s3;
              Some (gt, gs, ln, s4) }
            else do { s3 \<leftarrow> vm_do accept_cr s2; Some (False, False, 0, s3) } }
          else do { s1 \<leftarrow> vm_do accept_cr s; Some (False, False, 0, s1) });
       vm_do (after_case gt gs ln) s4 }
     else Some (vm_upd (vm_fail UBASIC_E_UNMATCHED_END_SELECT) s) }"

definition after_case_else :: "bool \<Rightarrow> bool \<Rightarrow> int \<Rightarrow> ubasic_vm \<Rightarrow> ubasic_vm option" where
  "after_case_else case_goto case_gosub gosub_ln v0 =
     (if case_goto then Some (dec_select_stack v0)
      else do {
        v \<leftarrow> skip_rems v0;
        if tok v \<noteq> ''END_SELECT'' then Some (vm_fail UBASIC_E_PARSE v)
        else do {
          v1 \<leftarrow> end_select_statement v;
          case_gosub_jump case_gosub gosub_ln v1 } })"

definition case_else_statement ::
  "('a ubasic_scheme \<Rightarrow> 'a ubasic_scheme option) \<Rightarrow> 'a ubasic_scheme \<Rightarrow> 'a ubasic_scheme option" where
  "case_else_statement stmt s0 = do {
     s \<leftarrow> vm_do (accept ''CASE_ELSE'') s0;
     if select_stack_ptr (ub s) > 0 then do {
       c \<leftarrow> array_get (select_stack (ub s)) (select_stack_ptr (ub s) - 1);
       (gt, gs, ln, s1) \<leftarrow>
         (if case_run c = 0 then case_execute stmt s
          else do { s1 \<leftarrow> vm_do accept_cr s; Some (False, False, 0, s1) });
       vm_do (after_case_else gt gs ln) s1 }
     else Some (vm_upd (vm_fail UBASIC_E_UNMATCHED_END_SELECT) s) }"

definition push_select :: "u32 \<Rightarrow> ubasic_vm \<Rightarrow> (bool \<times> ubasic_vm) option" where
  "push_select r v =
     (if select_stack_ptr v < MAX_SELECT_STACK_DEPTH then do {
        st \<leftarrow> array_put (select_stack_ptr v) \<lparr>select_value = r, case_run = 0\<rparr> (select_stack v);
        let v1 = v\<lparr>select_stack := st, select_stack_ptr := select_stack_ptr v + 1\<rparr>;
        if tok v1 \<noteq> ''CASE'' then Some (False, vm_fail UBASIC_E_PARSE v1) else Some (True, v1) }
      else Some (False, vm_fail UBASIC_E_SELECT_STACK_EXHAUSTED v))"

definition select_statement ::
  "('a ubasic_scheme) ubasic_env \<Rightarrow> ('a ubasic_scheme \<Rightarrow> 'a ubasic_scheme option) \<Rightarrow>
   'a ubasic_scheme \<Rightarrow> 'a ubasic_scheme option" where
  "select_statement E stmt s = do {
     s1 \<leftarrow> vm_do (accept ''SELECT'') s;
     (r, s2) \<leftarrow> expr E s1;
     s3 \<leftarrow> vm_do (accept ''CR'') s2;
     s4 \<leftarrow> vm_do skip_rems s3;
     (ok, s5) \<leftarrow> vm_get (push_select r) s4;
     if ok then case_statement E stmt s5 else Some s5 }"

section \<open>Output\<close>

text \<open>\<open>sprintf\<close> with \<open>%d\<close>.\<close>

definition show_int :: "int \<Rightarrow> string" where
  "show_int i = (if i < 0 then CHR ''-'' # digits (nat (- i)) else digits (nat i))"

text \<open>\<open>script_console_add_line\<close> for a text instead of the number of a message.\<close>

definition script_console_add_text :: "string \<Rightarrow> 'a ubasic_scheme \<Rightarrow> 'a ubasic_scheme option" where
  "script_console_add_text str s = do {
     s1 \<leftarrow> console_add_line str s;
     Some (if print_screen_p s1 \<noteq> 0 \<and> print_screen_d s1 \<ge> 0
           then ext_call (WriteFile (print_screen_d s1) [char_of (10 :: nat)])
                  (ext_call (WriteFile (print_screen_d s1) str) s1)
           else s1) }"

text \<open>One pass of the loop of \<open>print\<close>; \<open>buf\<close> is the text in the array of 128 characters so far.\<close>

definition print_item ::
  "('a ubasic_scheme) ubasic_env \<Rightarrow> string \<Rightarrow> 'a ubasic_scheme \<Rightarrow> (string \<times> 'a ubasic_scheme) option" where
  "print_item E buf s =
     (if utok s = ''STRING'' then do {
        s1 \<leftarrow> vm_do read_string s;
        str \<leftarrow> c_str (string_buf (ub s1));
        s2 \<leftarrow> vm_do vm_next s1;
        Some (buf @ str, s2) }
      else if utok s = ''COMMA'' then do { s1 \<leftarrow> vm_do vm_next s; Some (buf @ '' '', s1) }
      else if utok s = ''SEMICOLON'' then do { s1 \<leftarrow> vm_do vm_next s; Some (buf, s1) }
      else do { (r, s1) \<leftarrow> expr E s; Some (buf @ show_int (sint r), s1) })"

partial_function (option) print_loop ::
  "('a ubasic_scheme) ubasic_env \<Rightarrow> string \<Rightarrow> 'a ubasic_scheme \<Rightarrow> (string \<times> 'a ubasic_scheme) option" where
  "print_loop E buf s = do {
     (b, s1) \<leftarrow> print_item E buf s;
     if length b \<ge> 128 then None
     else if utok s1 \<noteq> ''ELSE'' \<and> \<not> line_end (utok s1) then print_loop E b s1
     else Some (b, s1) }"

definition print_stmt :: "('a ubasic_scheme) ubasic_env \<Rightarrow> 'a ubasic_scheme \<Rightarrow> 'a ubasic_scheme option" where
  "print_stmt E s = do {
     s1 \<leftarrow> vm_do (accept ''PRINT'') s;
     (b, s2) \<leftarrow> print_loop E [] s1;
     s3 \<leftarrow> script_console_add_text b s2;
     vm_do accept_cr s3 }"

definition cls_statement :: "'a ubasic_scheme \<Rightarrow> 'a ubasic_scheme option" where
  "cls_statement s = do {
     s1 \<leftarrow> vm_do (accept ''CLS'') s;
     vm_do (accept ''CR'') (console_clear s1) }"

section \<open>Keys, delays, shots\<close>

definition yield :: "'a ubasic_scheme \<Rightarrow> 'a ubasic_scheme" where
  "yield s = vm_upd (\<lambda>v. v\<lparr>flag_yield := True\<rparr>) s"

text \<open>\<open>click\<close>, \<open>press\<close> and \<open>release\<close> differ in what they push.\<close>

definition key_statement ::
  "ubasic_token \<Rightarrow> (u32 \<Rightarrow> 'a ubasic_scheme \<Rightarrow> 'a ubasic_scheme option) \<Rightarrow>
   'a ubasic_scheme \<Rightarrow> 'a ubasic_scheme option" where
  "key_statement t push s = do {
     s1 \<leftarrow> vm_do (accept t) s;
     (k, s2) \<leftarrow> ubasic_get_key_arg s1;
     s3 \<leftarrow> (if k > 0 then do { t \<leftarrow> push (word_of_int k) s2; Some (yield t) } else Some s2);
     vm_do accept_cr s3 }"

definition click_statement :: "('a ubasic_scheme) ubasic_env \<Rightarrow> 'a ubasic_scheme \<Rightarrow> 'a ubasic_scheme option" where
  "click_statement E = key_statement ''CLICK'' (action_push_click (ue_platform E) (ue_code E))"

definition press_statement :: "('a ubasic_scheme) ubasic_env \<Rightarrow> 'a ubasic_scheme \<Rightarrow> 'a ubasic_scheme option" where
  "press_statement E = key_statement ''PRESS'' (action_push_press (ue_platform E) (ue_code E))"

definition release_statement :: "('a ubasic_scheme) ubasic_env \<Rightarrow> 'a ubasic_scheme \<Rightarrow> 'a ubasic_scheme option" where
  "release_statement E = key_statement ''RELEASE'' (action_push_release (ue_platform E) (ue_code E))"

text \<open>The action functions of the interpreter; \<open>AS_OTHER 1\<close> and \<open>AS_OTHER 2\<close> are their addresses.\<close>

definition AS_UBASIC_SLEEP :: action_func where "AS_UBASIC_SLEEP = AS_OTHER 1"
definition AS_UBASIC_WAIT_CLICK :: action_func where "AS_UBASIC_WAIT_CLICK = AS_OTHER 2"

definition action_stack_AS_UBASIC_SLEEP :: "'a ubasic_scheme \<Rightarrow> (int \<times> 'a ubasic_scheme) option" where
  "action_stack_AS_UBASIC_SLEEP s = do {
     t \<leftarrow> action_top 2 s;
     if t \<le> tick_count s
     then do { (_, s1) \<leftarrow> action_pop_func 1 s; Some (1, s1) }
     else Some (0, s) }"

definition sleep_delay :: "u32 \<Rightarrow> 'a ubasic_scheme \<Rightarrow> u32" where
  "sleep_delay d0 s =
     (let delay = (if d0 = -1 then 86400000 else d0)
      in if 0 <s delay then delay + tick_count s else 0)"

definition sleep_statement :: "('a ubasic_scheme) ubasic_env \<Rightarrow> 'a ubasic_scheme \<Rightarrow> 'a ubasic_scheme option" where
  "sleep_statement E s = do {
     s1 \<leftarrow> vm_do (accept ''SLEEP'') s;
     (r, s2) \<leftarrow> expr E s1;
     let delay = sleep_delay r s2;
     s3 \<leftarrow> (if 0 <s delay
            then do { t \<leftarrow> action_push delay s2; action_push_func (ue_code E) AS_UBASIC_SLEEP t }
            else Some s2);
     vm_do accept_cr (yield s3) }"

definition shoot_statement :: "('a ubasic_scheme) ubasic_env \<Rightarrow> 'a ubasic_scheme \<Rightarrow> 'a ubasic_scheme option" where
  "shoot_statement E s = do {
     s1 \<leftarrow> vm_do (accept ''SHOOT'') s;
     let s2 = vm_upd (\<lambda>v. v\<lparr>ubasic_as_ret_var_num := -1\<rparr>) s1;
     s3 \<leftarrow> (if utok s2 \<noteq> ''CR''
            then do { n \<leftarrow> variable_num (ub s2);
                      vm_do (accept ''VARIABLE'') (vm_upd (\<lambda>v. v\<lparr>ubasic_as_ret_var_num := n\<rparr>) s2) }
            else Some s2);
     s4 \<leftarrow> action_push_shoot (ue_platform E) (ue_code E) 1 s3;
     vm_do accept_cr (yield s4) }"

definition action_stack_AS_UBASIC_WAIT_CLICK :: "'a ubasic_scheme \<Rightarrow> (int \<times> 'a ubasic_scheme) option" where
  "action_stack_AS_UBASIC_WAIT_CLICK s = do {
     t \<leftarrow> action_top 2 s;
     if t \<le> tick_count s \<or> kbd_last_clicked s \<noteq> 0
     then do {
       let s1 = (if kbd_last_clicked s = 0 then s\<lparr>kbd_last_clicked := 0xFFFF\<rparr>
                 else s\<lparr>kbd_last_checked_time := kbd_last_clicked_time s\<rparr>);
       (_, s2) \<leftarrow> action_pop_func 1 s1;
       Some (1, s2) }
     else Some (0, s) }"

definition wait_click_statement :: "('a ubasic_scheme) ubasic_env \<Rightarrow> 'a ubasic_scheme \<Rightarrow> 'a ubasic_scheme option" where
  "wait_click_statement E s = do {
     s1 \<leftarrow> vm_do (accept ''WAIT_CLICK'') s;
     (d, s2) \<leftarrow> (if no_arg (utok s1) then Some (-1, s1)
                 else do { (r, t) \<leftarrow> expr E s1; Some (if r = 0 then -1 else r, t) });
     let delay = sleep_delay d s2;
     s3 \<leftarrow> vm_do accept_cr s2;
     let s4 = (if kbd_last_clicked_time s3 \<le> kbd_last_checked_time s3
               then s3\<lparr>kbd_last_clicked := 0\<rparr> else s3);
     s5 \<leftarrow> action_push delay s4;
     s6 \<leftarrow> action_push_func (ue_code E) AS_UBASIC_WAIT_CLICK s5;
     (r, s7) \<leftarrow> action_stack_AS_UBASIC_WAIT_CLICK s6;
     Some (if r = 0 then yield s7 else s7) }"

definition is_key_statement :: "'a ubasic_scheme \<Rightarrow> 'a ubasic_scheme option" where
  "is_key_statement s = do {
     s1 \<leftarrow> vm_do (accept ''IS_KEY'') s;
     (var, s2) \<leftarrow> vm_get variable_arg s1;
     (k, s3) \<leftarrow> ubasic_get_key_arg s2;
     vm_do accept_cr (vm_upd (ubasic_set_variable var (script_key_is_clicked k s3)) s3) }"

definition set_exit_key_statement :: "'a ubasic_scheme \<Rightarrow> 'a ubasic_scheme option" where
  "set_exit_key_statement s = do {
     s1 \<leftarrow> vm_do (accept ''SET_EXIT_KEY'') s;
     s2 \<leftarrow> (if utok s1 = ''STRING'' then do {
              t \<leftarrow> vm_do read_string s1;
              n \<leftarrow> c_str (string_buf (ub t));
              let k = script_keyid_by_name n;
              Some (if k \<le> 0 then vm_upd (vm_fail UBASIC_E_UNK_KEY) t
                    else script_set_terminate_key k n t) }
            else Some (vm_upd (vm_fail UBASIC_E_UNK_KEY) s1));
     vm_do accept_cr s2 }"

section \<open>Statements with parameters\<close>

text \<open>
  Most statements read a fixed number of expressions, have an effect, and skip the rest of the line.
\<close>

definition param_statement ::
  "('a ubasic_scheme) ubasic_env \<Rightarrow> ubasic_token \<Rightarrow> nat \<Rightarrow>
   (u32 list \<Rightarrow> 'a ubasic_scheme \<Rightarrow> 'a ubasic_scheme option) \<Rightarrow>
   'a ubasic_scheme \<Rightarrow> 'a ubasic_scheme option" where
  "param_statement E t n eff s = do {
     s1 \<leftarrow> vm_do (accept t) s;
     (as, s2) \<leftarrow> exprs (expr E) n s1;
     s3 \<leftarrow> eff as s2;
     vm_do accept_cr s3 }"

definition SET_NOW :: u32 where "SET_NOW = 1"
definition SET_LATER :: u32 where "SET_LATER = 0"

definition do_call :: "('a ubasic_scheme) ubasic_env \<Rightarrow> string \<Rightarrow> u32 list \<Rightarrow> 'a ubasic_scheme \<Rightarrow> 'a ubasic_scheme" where
  "do_call E f as s = snd (ue_call E f as s)"

text \<open>Functions of an \<open>int\<close>, and of a \<open>short\<close>, to which the argument is converted.\<close>

definition int_calls :: "(ubasic_token \<times> string) list" where
  "int_calls =
     [(''PLAY_SOUND'', ''play_sound''), (''SET_USER_TV_BY_ID'', ''shooting_set_user_tv_by_id''),
      (''SET_USER_TV_BY_ID_REL'', ''shooting_set_user_tv_by_id_rel''),
      (''SET_USER_AV_BY_ID'', ''shooting_set_user_av_by_id''),
      (''SET_USER_AV_BY_ID_REL'', ''shooting_set_user_av_by_id_rel''),
      (''SET_ZOOM'', ''shooting_set_zoom''), (''SET_ZOOM_REL'', ''shooting_set_zoom_rel''),
      (''SET_ZOOM_SPEED'', ''shooting_set_zoom_speed''), (''SET_ISO_MODE'', ''shooting_set_iso_mode''),
      (''SHOT_HISTO_ENABLE'', ''shot_histogram_set''), (''SET_RECORD'', ''shooting_set_playrec_mode''),
      (''SET_CAPTURE_MODE'', ''shooting_set_mode_chdk''), (''SET_MOVIE_STATUS'', ''set_movie_status''),
      (''SET_RAW'', ''conf.save_raw =''), (''SET_RAW_NR'', ''conf.raw_nr ='')]"

definition short_calls :: "(ubasic_token \<times> string) list" where
  "short_calls =
     [(''SET_USER_TV96'', ''shooting_set_user_tv96''), (''SET_USER_AV96'', ''shooting_set_user_av96'')]"

text \<open>The \<open>uB_\<close> functions: at once while a shot is in progress, later otherwise.\<close>

definition override_calls :: "(ubasic_token \<times> string) list" where
  "override_calls =
     [(''SET_AV96'', ''shooting_set_av96''), (''SET_AV96_DIRECT'', ''shooting_set_av96_direct''),
      (''SET_TV96'', ''shooting_set_tv96''), (''SET_TV96_DIRECT'', ''shooting_set_tv96_direct''),
      (''SET_SV96'', ''shooting_set_sv96''), (''SET_ND_FILTER'', ''shooting_set_nd_filter_state''),
      (''SET_ISO_REAL'', ''shooting_set_iso_real'')]"

definition override_call :: "('a ubasic_scheme) ubasic_env \<Rightarrow> string \<Rightarrow> u32 \<Rightarrow> 'a ubasic_scheme \<Rightarrow> 'a ubasic_scheme" where
  "override_call E f v s =
     (let (p, s1) = ue_call E ''shooting_in_progress'' [] s
      in do_call E f [v, if p \<noteq> 0 then SET_NOW else SET_LATER] s1)"

definition on_off_calls :: "(ubasic_token \<times> string \<times> string) list" where
  "on_off_calls =
     [(''SET_AELOCK'', ''DoAELock'', ''UnlockAE''), (''SET_AFLOCK'', ''DoAFLock'', ''UnlockAF''),
      (''SET_BACKLIGHT'', ''TurnOnBackLight'', ''TurnOffBackLight''),
      (''SET_LCDDISPLAY'', ''TurnOnDisplay'', ''TurnOffDisplay''),
      (''SET_MF'', ''DoMFLock'', ''UnlockMF'')]"

text \<open>\<open>set_focus\<close>: at once in MF, with AF lock or in video mode.\<close>

definition set_focus :: "('a ubasic_scheme) ubasic_env \<Rightarrow> u32 \<Rightarrow> 'a ubasic_scheme \<Rightarrow> 'a ubasic_scheme" where
  "set_focus E sd s =
     (let (can, s1) = ue_call E ''shooting_can_focus'' [] s in
      if can = 0 then s1
      else
        let (p, s2) = ue_call E ''camera_info.props.af_lock'' [] s1;
            (lock, s3) = ue_call E ''shooting_get_prop'' [p] s2
        in if lock \<noteq> 0 then do_call E ''shooting_set_focus'' [sd, SET_NOW] s3
           else let (mf, s4) = ue_call E ''shooting_get_focus_mode'' [] s3
                in do_call E ''shooting_set_focus''
                     [sd, if mf \<noteq> 0 \<or> mode_video s4 then SET_NOW else SET_LATER] s4)"

definition set_prop_of :: "('a ubasic_scheme) ubasic_env \<Rightarrow> string \<Rightarrow> u32 \<Rightarrow> 'a ubasic_scheme \<Rightarrow> 'a ubasic_scheme" where
  "set_prop_of E prop v s = (let (p, s1) = ue_call E prop [] s in do_call E ''shooting_set_prop'' [p, v] s1)"

definition set_autostart :: "u32 \<Rightarrow> 'a ubasic_scheme \<Rightarrow> 'a ubasic_scheme" where
  "set_autostart to s =
     ext_call ConfSave (if 0 \<le>s to \<and> to \<le>s 3 then s\<lparr>conf_script_startup := sint to\<rparr> else s)"

text \<open>The statements of one parameter whose effect is on modelled state or takes several calls.\<close>

definition one_param_effect ::
  "('a ubasic_scheme) ubasic_env \<Rightarrow> ubasic_token \<Rightarrow> (u32 \<Rightarrow> 'a ubasic_scheme \<Rightarrow> 'a ubasic_scheme option) option" where
  "one_param_effect E t =
     (if t = ''PRINT_SCREEN'' then Some script_print_screen_statement
      else if t = ''SET_CONSOLE_AUTOREDRAW'' then Some (\<lambda>v s. Some (console_set_autoredraw (sint v) s))
      else if t = ''SET_FOCUS'' then Some (\<lambda>v s. Some (set_focus E v s))
      else if t = ''SET_EV'' then
        Some (\<lambda>v s. Some (set_prop_of E ''camera_info.props.ev_correction_2'' v
                            (set_prop_of E ''camera_info.props.ev_correction_1'' v s)))
      else if t = ''SET_RESOLUTION'' then Some (\<lambda>v s. Some (set_prop_of E ''camera_info.props.resolution'' v s))
      else if t = ''SET_QUALITY'' then Some (\<lambda>v s. Some (set_prop_of E ''camera_info.props.quality'' v s))
      else if t = ''SET_SCRIPT_AUTOSTART'' then Some (\<lambda>v s. Some (set_autostart v s))
      else if t = ''EXIT_ALT'' then Some (\<lambda>v s. Some (exit_alt s))
      else if t = ''ENTER_ALT'' then Some (\<lambda>v s. Some (enter_alt s))
      else if t = ''SET_DRAW_TITLE_LINE'' then
        Some (\<lambda>v s. Some (s\<lparr>osd_title_line := (if v \<noteq> 0 then 1 else 0)\<rparr>))
      else if t = ''SET_CAPTURE_MODE_CANON'' then
        Some (\<lambda>v s. Some (do_call E ''shooting_set_mode_canon'' [if v <s 0 then v AND 0xFFFF else v] s))
      else if t = ''USB_SYNC_WAIT'' then
        Some (\<lambda>v s. Some (s\<lparr>usb_sync_wait_flag := (if v \<noteq> 0 then 1 else 0)\<rparr>))
      else if t = ''SET_REMOTE_TIMING'' then
        Some (\<lambda>v s. Some (if 0 <s v then ext_call (StartUsbHPtimer (sint v)) s
                         else ext_call StopUsbHPtimer s))
      else None)"

text \<open>The dispatch over all of them.\<close>

definition one_param :: 
  "('a ubasic_scheme) ubasic_env \<Rightarrow> ubasic_token \<Rightarrow> (u32 \<Rightarrow> 'a ubasic_scheme \<Rightarrow> 'a ubasic_scheme option) option" where
  "one_param E t =
     (case map_of int_calls t of
        Some f \<Rightarrow> Some (\<lambda>v s. Some (do_call E f [v] s))
      | None \<Rightarrow>
     (case map_of short_calls t of
        Some f \<Rightarrow> Some (\<lambda>v s. Some (do_call E f [word_of_int (short (sint v))] s))
      | None \<Rightarrow>
     (case map_of override_calls t of
        Some f \<Rightarrow> Some (\<lambda>v s. Some (override_call E f v s))
      | None \<Rightarrow>
     (case map_of on_off_calls t of
        Some (on, off) \<Rightarrow> Some (\<lambda>v s. Some (do_call E (if 0 <s v then on else off) [] s))
      | None \<Rightarrow> one_param_effect E t))))"

definition set_config_value :: "('a ubasic_scheme) ubasic_env \<Rightarrow> u32 \<Rightarrow> u32 \<Rightarrow> 'a ubasic_scheme \<Rightarrow> 'a ubasic_scheme" where
  "set_config_value E cid v s =
     (let (r, s1) = ue_call E ''conf_getValue'' [cid] s
      in if r = 1 then do_call E ''conf_setValue'' [cid, v] s1 else s1)"

text \<open>\<open>set_yield\<close>: zero stands for the default.\<close>

definition set_yield :: "u32 \<Rightarrow> u32 \<Rightarrow> ubasic_vm \<Rightarrow> ubasic_vm" where
  "set_yield lines ms v =
     v\<lparr>yield_max_lines := (if lines \<noteq> 0 then lines else YIELD_MAX_LINES_DEFAULT),
       yield_max_ms := (if ms \<noteq> 0 then ms else YIELD_MAX_MS_DEFAULT)\<rparr>"

text \<open>\<open>md_af_led_control\<close>, with the minimum of the statistics it resets.\<close>

definition md_af_led_control ::
  "('a ubasic_scheme) ubasic_env \<Rightarrow> u32 \<Rightarrow> u32 \<Rightarrow> 'a ubasic_scheme \<Rightarrow> 'a ubasic_scheme" where
  "md_af_led_control E delay time s =
     (let s1 = s\<lparr>md_af_on_delay := delay, md_af_on_time := time\<rparr> in
      if 0 <s time \<and> cam_af_led s \<ge> 0
      then do_call E ''camera_info.perf.af_led.min ='' [-1]
             (do_call E ''memset(&camera_info.perf.af_led)'' [] (s1\<lparr>md_af_tuning := True\<rparr>))
      else s1\<lparr>md_af_tuning := False\<rparr>)"

definition more_params ::
  "('a ubasic_scheme) ubasic_env \<Rightarrow> ubasic_token \<Rightarrow>
   (nat \<times> (u32 list \<Rightarrow> 'a ubasic_scheme \<Rightarrow> 'a ubasic_scheme)) option" where
  "more_params E t =
     (if t = ''SET_PROP'' then Some (2, \<lambda>as s. do_call E ''shooting_set_prop'' as s)
      else if t = ''SET_CONSOLE_LAYOUT'' then
        Some (4, \<lambda>as s. console_set_layout (sint (arg 0 as)) (sint (arg 1 as)) (sint (arg 2 as))
                          (sint (arg 3 as)) s)
      else if t = ''SET_YIELD'' then Some (2, \<lambda>as s. vm_upd (set_yield (arg 0 as) (arg 1 as)) s)
      else if t = ''SET_CONFIG_VALUE'' then
        Some (2, \<lambda>as s. set_config_value E (arg 0 as) (arg 1 as) s)
      else if t = ''MD_AF_LED_CONTROL'' then
        Some (2, \<lambda>as s. md_af_led_control E (arg 0 as) (arg 1 as) s)
      else if t = ''CONSOLE_REDRAW'' then Some (0, \<lambda>as s. console_redraw s)
      else if t = ''WHEEL_LEFT'' then Some (0, \<lambda>as s. do_call E ''JogDial_CCW'' [] s)
      else if t = ''WHEEL_RIGHT'' then Some (0, \<lambda>as s. do_call E ''JogDial_CW'' [] s)
      else None)"

definition set_led_statement :: "('a ubasic_scheme) ubasic_env \<Rightarrow> 'a ubasic_scheme \<Rightarrow> 'a ubasic_scheme option" where
  "set_led_statement E s = do {
     s1 \<leftarrow> vm_do (accept ''SET_LED'') s;
     (led, s2) \<leftarrow> expr E s1;
     (state, s3) \<leftarrow> expr E s2;
     (bright, s4) \<leftarrow> (if no_arg (utok s3) then Some (200, s3) else expr E s3);
     vm_do accept_cr (ext_call (CameraSetLed (sint led) (sint state) (sint bright)) s4) }"

definition reboot_statement :: "('a ubasic_scheme) ubasic_env \<Rightarrow> 'a ubasic_scheme \<Rightarrow> 'a ubasic_scheme option" where
  "reboot_statement E s = do {
     s1 \<leftarrow> vm_do (accept ''REBOOT'') s;
     if utok s1 = ''STRING'' then do {
       s2 \<leftarrow> vm_do read_string s1;
       s3 \<leftarrow> vm_do vm_next s2;
       n \<leftarrow> c_str (string_buf (ub s3));
       Some (ue_reboot E (Some n) s3) }
     else Some (ue_reboot E None s1) }"

text \<open>
  \<open>shut_down\<close> has no \<open>break\<close>: the backlight statement follows, with the token \<open>SHUT_DOWN\<close>.
\<close>

definition shut_down_case :: "('a ubasic_scheme) ubasic_env \<Rightarrow> 'a ubasic_scheme \<Rightarrow> 'a ubasic_scheme option" where
  "shut_down_case E s = do {
     s1 \<leftarrow> vm_do (accept ''SHUT_DOWN'') s;
     s2 \<leftarrow> vm_do accept_cr (do_call E ''camera_shutdown_in_a_second'' [] s1);
     param_statement E ''SHUT_DOWN'' 1
       (\<lambda>as t. Some (do_call E (if 0 <s arg 0 as then ''TurnOnBackLight'' else ''TurnOffBackLight'') [] t)) s2 }"

section \<open>The old syntax: a variable to store a value in\<close>

definition get_var_calls :: "(ubasic_token \<times> string) list" where
  "get_var_calls =
     [(''GET_TV96'', ''shooting_get_tv96''), (''GET_USER_TV96'', ''shooting_get_user_tv96''),
      (''GET_USER_TV_ID'', ''shooting_get_user_tv_id''), (''GET_AV96'', ''shooting_get_av96''),
      (''GET_USER_AV96'', ''shooting_get_user_av96''), (''GET_USER_AV_ID'', ''shooting_get_user_av_id''),
      (''GET_ZOOM'', ''shooting_get_zoom''), (''GET_FOCUS'', ''shooting_get_subject_distance''),
      (''GET_HYPERFOCAL_DIST'', ''shooting_get_hyperfocal_distance''),
      (''GET_ISO_MARKET'', ''shooting_get_iso_market''), (''GET_ISO_REAL'', ''shooting_get_iso_real''),
      (''GET_BV96'', ''shooting_get_bv96''), (''GET_SV96'', ''shooting_get_sv96_real''),
      (''GET_ISO_MODE'', ''shooting_get_iso_mode''), (''GET_VBATT'', ''stat_get_vbatt''),
      (''GET_DISK_SIZE'', ''GetTotalCardSpaceKb''), (''GET_FREE_DISK_SPACE'', ''GetFreeCardSpaceKb''),
      (''GET_JPG_COUNT'', ''GetJpgCount''), (''GET_RAW_COUNT'', ''GetRawCount'')]"

definition get_var_dof :: "(ubasic_token \<times> string) list" where
  "get_var_dof = [(''GET_NEAR_LIMIT'', ''near_limit''), (''GET_FAR_LIMIT'', ''far_limit''),
                  (''GET_DOF'', ''depth_of_field'')]"

definition get_var_function ::
  "('a ubasic_scheme) ubasic_env \<Rightarrow> ubasic_token \<Rightarrow> ('a ubasic_scheme \<Rightarrow> u32 \<times> 'a ubasic_scheme) option" where
  "get_var_function E t =
     (case map_of get_var_calls t of
        Some f \<Rightarrow> Some (ue_call E f [])
      | None \<Rightarrow> map_option (dof_value E) (map_of get_var_dof t))"

definition get_int_var_statement ::
  "ubasic_token \<Rightarrow> ('a ubasic_scheme \<Rightarrow> u32 \<times> 'a ubasic_scheme) \<Rightarrow>
   'a ubasic_scheme \<Rightarrow> 'a ubasic_scheme option" where
  "get_int_var_statement t f s = do {
     s1 \<leftarrow> vm_do (accept t) s;
     (var, s2) \<leftarrow> vm_get variable_arg s1;
     let (r, s3) = f s2;
     vm_do accept_cr (vm_upd (ubasic_set_variable var r) s3) }"

definition get_prop_statement :: "('a ubasic_scheme) ubasic_env \<Rightarrow> 'a ubasic_scheme \<Rightarrow> 'a ubasic_scheme option" where
  "get_prop_statement E s = do {
     s1 \<leftarrow> vm_do (accept ''GET_PROP'') s;
     (p, s2) \<leftarrow> expr E s1;
     (var, s3) \<leftarrow> vm_get variable_arg s2;
     let (r, s4) = ue_call E ''shooting_get_prop'' [p] s3;
     vm_do accept_cr (vm_upd (ubasic_set_variable var r) s4) }"

definition get_config_value_statement :: "('a ubasic_scheme) ubasic_env \<Rightarrow> 'a ubasic_scheme \<Rightarrow> 'a ubasic_scheme option" where
  "get_config_value_statement E s = do {
     s1 \<leftarrow> vm_do (accept ''GET_CONFIG_VALUE'') s;
     (cid, s2) \<leftarrow> expr E s1;
     (def, s3) \<leftarrow> expr E s2;
     (var, s4) \<leftarrow> vm_get variable_arg s3;
     let (r, s5) = config_value E cid def s4;
     vm_do accept_cr (vm_upd (ubasic_set_variable var r) s5) }"

section \<open>Motion detection\<close>

text \<open>An expression and the token after it, a separator.\<close>

definition expr_sep :: "('a ubasic_scheme) ubasic_env \<Rightarrow> 'a ubasic_scheme \<Rightarrow> (u32 \<times> 'a ubasic_scheme) option" where
  "expr_sep E s = do { (r, s1) \<leftarrow> expr E s; s2 \<leftarrow> vm_do vm_next s1; Some (r, s2) }"

text \<open>A separator and an expression, unless the line is at its end.\<close>

definition opt_expr ::
  "('a ubasic_scheme) ubasic_env \<Rightarrow> u32 \<Rightarrow> 'a ubasic_scheme \<Rightarrow> (u32 \<times> 'a ubasic_scheme) option" where
  "opt_expr E def s =
     (if no_arg (utok s) then Some (def, s) else do { s1 \<leftarrow> vm_do vm_next s; expr E s1 })"

fun opt_exprs ::
  "('a ubasic_scheme) ubasic_env \<Rightarrow> u32 list \<Rightarrow> 'a ubasic_scheme \<Rightarrow> (u32 list \<times> 'a ubasic_scheme) option" where
  "opt_exprs E [] s = Some ([], s)"
| "opt_exprs E (d # ds) s = do {
     (r, s1) \<leftarrow> opt_expr E d s;
     (rs, s2) \<leftarrow> opt_exprs E ds s1;
     Some (r # rs, s2) }"

definition md_get_cell_statement ::
  "('a ubasic_scheme) ubasic_env \<Rightarrow> ubasic_token \<Rightarrow> string \<Rightarrow> 'a ubasic_scheme \<Rightarrow> 'a ubasic_scheme option" where
  "md_get_cell_statement E t f s = do {
     s1 \<leftarrow> vm_do (accept t) s;
     (col, s2) \<leftarrow> expr_sep E s1;
     (row, s3) \<leftarrow> expr_sep E s2;
     (var, s4) \<leftarrow> vm_get variable_arg s3;
     s5 \<leftarrow> vm_do accept_cr s4;
     let (r, s6) = ue_call E f [col, row] s5;
     Some (vm_upd (ubasic_set_variable var r) s6) }"

text \<open>
  The optional arguments: clipping region mode, its columns and rows, parameters, pixel step, and
  milliseconds before the trigger.
\<close>

definition md_detect_motion_statement ::
  "('a ubasic_scheme) ubasic_env \<Rightarrow> 'a ubasic_scheme \<Rightarrow> 'a ubasic_scheme option" where
  "md_detect_motion_statement E s = do {
     s1 \<leftarrow> vm_do (accept ''MD_DETECT_MOTION'') s;
     (as, s2) \<leftarrow> exprs (expr_sep E) 7 s1;
     var \<leftarrow> variable_num (ub s2);
     s3 \<leftarrow> vm_do (accept ''VARIABLE'') (vm_upd (\<lambda>v. v\<lparr>ubasic_as_ret_var_num := var\<rparr>) s2);
     (bs, s4) \<leftarrow> opt_exprs E [0, 0, 0, 0, 0, 0, 1, 0] s3;
     s5 \<leftarrow> vm_do accept_cr s4;
     Some (yield (do_call E ''md_init_motion_detector'' (as @ bs) s5)) }"

section \<open>The statement\<close>

text \<open>
  The dispatch in the order of the cases' groups: \<open>stmt\<close> is the recursive call of \<open>statement\<close>,
  for a statement on the line of an \<open>if\<close> or a \<open>case\<close>.
\<close>

definition control_statement ::
  "('a ubasic_scheme) ubasic_env \<Rightarrow> ('a ubasic_scheme \<Rightarrow> 'a ubasic_scheme option) \<Rightarrow> ubasic_token \<Rightarrow>
   ('a ubasic_scheme \<Rightarrow> 'a ubasic_scheme option) option" where
  "control_statement E stmt t =
     (if t = ''IF'' then Some (if_statement E stmt)
      else if t = ''ELSE'' then Some (vm_do else_statement)
      else if t = ''ENDIF'' then Some (vm_do endif_statement)
      else if t = ''SELECT'' then Some (select_statement E stmt)
      else if t = ''CASE'' then Some (case_statement E stmt)
      else if t = ''CASE_ELSE'' then Some (case_else_statement stmt)
      else if t = ''GOTO'' then Some (\<lambda>s. vm_do (goto_statement (state_kbd_script_run s)) s)
      else if t = ''GOSUB'' then Some (\<lambda>s. vm_do (gosub_statement (state_kbd_script_run s)) s)
      else if t = ''RETURN'' then Some (vm_do return_statement)
      else if t = ''FOR'' then Some (for_statement E)
      else if t = ''NEXT'' then Some (vm_do next_statement)
      else if t = ''DO'' then Some (vm_do do_statement)
      else if t = ''UNTIL'' then Some (until_statement E)
      else if t = ''WHILE'' then Some (while_statement E)
      else if t = ''WEND'' then Some (vm_do wend_statement)
      else if t = ''END'' then Some (vm_do end_statement)
      else if t = ''LET'' then Some (\<lambda>s. do { s1 \<leftarrow> vm_do (accept t) s; let_statement E s1 })
      else if t = ''VARIABLE'' then Some (let_statement E)
      else if t = ''REM'' then Some (vm_do rem_statement)
      else None)"

definition io_statement ::
  "('a ubasic_scheme) ubasic_env \<Rightarrow> ubasic_token \<Rightarrow> ('a ubasic_scheme \<Rightarrow> 'a ubasic_scheme option) option" where
  "io_statement E t =
     (if t = ''PRINT'' then Some (print_stmt E)
      else if t = ''SLEEP'' then Some (sleep_statement E)
      else if t = ''CLICK'' then Some (click_statement E)
      else if t = ''PRESS'' then Some (press_statement E)
      else if t = ''RELEASE'' then Some (release_statement E)
      else if t = ''SHOOT'' then Some (shoot_statement E)
      else if t = ''CLS'' then Some cls_statement
      else if t = ''WAIT_CLICK'' then Some (wait_click_statement E)
      else if t = ''IS_KEY'' then Some is_key_statement
      else if t = ''SET_EXIT_KEY'' then Some set_exit_key_statement
      else if t = ''GET_PROP'' then Some (get_prop_statement E)
      else if t = ''GET_CONFIG_VALUE'' then Some (get_config_value_statement E)
      else if t = ''SET_LED'' then Some (set_led_statement E)
      else if t = ''REBOOT'' then Some (reboot_statement E)
      else if t = ''SHUT_DOWN'' then Some (shut_down_case E)
      else if t = ''MD_DETECT_MOTION'' then Some (md_detect_motion_statement E)
      else if t = ''MD_GET_CELL_DIFF'' then Some (md_get_cell_statement E t ''md_get_cell_diff'')
      else if t = ''MD_GET_CELL_VAL'' then Some (md_get_cell_statement E t ''md_get_cell_val'')
      else None)"

definition param_case ::
  "('a ubasic_scheme) ubasic_env \<Rightarrow> ubasic_token \<Rightarrow> ('a ubasic_scheme \<Rightarrow> 'a ubasic_scheme option) option" where
  "param_case E t =
     (case get_var_function E t of
        Some f \<Rightarrow> Some (get_int_var_statement t f)
      | None \<Rightarrow>
     (case one_param E t of
        Some f \<Rightarrow> Some (param_statement E t 1 (\<lambda>as. f (arg 0 as)))
      | None \<Rightarrow>
     (case more_params E t of
        Some (n, f) \<Rightarrow> Some (param_statement E t n (\<lambda>as s. Some (f as s)))
      | None \<Rightarrow> None)))"

definition statement_body ::
  "('a ubasic_scheme) ubasic_env \<Rightarrow> ('a ubasic_scheme \<Rightarrow> 'a ubasic_scheme option) \<Rightarrow>
   'a ubasic_scheme \<Rightarrow> 'a ubasic_scheme option" where
  "statement_body E stmt s =
     (case control_statement E stmt (utok s) of
        Some f \<Rightarrow> f s
      | None \<Rightarrow>
     (case io_statement E (utok s) of
        Some f \<Rightarrow> f s
      | None \<Rightarrow>
     (case param_case E (utok s) of
        Some f \<Rightarrow> f s
      | None \<Rightarrow> Some (vm_upd (vm_fail UBASIC_E_UNK_STATEMENT) s))))"

fun statement_n :: "('a ubasic_scheme) ubasic_env \<Rightarrow> nat \<Rightarrow> 'a ubasic_scheme \<Rightarrow> 'a ubasic_scheme option" where
  "statement_n E 0 s = None"
| "statement_n E (Suc n) s = statement_body E (statement_n E n) s"

definition statement :: "('a ubasic_scheme) ubasic_env \<Rightarrow> 'a ubasic_scheme \<Rightarrow> 'a ubasic_scheme option" where
  "statement E s = statement_n E (ub_fuel s) s"

section \<open>Lines and timeslices\<close>

text \<open>Up to 99 labels and comments before a statement; \<open>True\<close> when the limit is reached at a label.\<close>

fun skip_labels :: "nat \<Rightarrow> 'a ubasic_scheme \<Rightarrow> (bool \<times> 'a ubasic_scheme) option" where
  "skip_labels 0 s = Some (False, s)"
| "skip_labels (Suc c) s =
     (if utok s = ''LABEL'' then
        if c = 0 then Some (True, s)
        else do {
          s1 \<leftarrow> vm_do (accept ''LABEL'') s;
          s2 \<leftarrow> vm_do (accept ''CR'') s1;
          skip_labels c s2 }
      else if utok s = ''REM'' then do { s1 \<leftarrow> vm_do rem_statement s; skip_labels c s1 }
      else Some (False, s))"

definition line_statement :: "('a ubasic_scheme) ubasic_env \<Rightarrow> 'a ubasic_scheme \<Rightarrow> 'a ubasic_scheme option" where
  "line_statement E s = do {
     (full, s1) \<leftarrow> skip_labels 100 s;
     if full then Some s1 else statement E s1 }"

definition SCRIPT_RUN_ENDED :: int where "SCRIPT_RUN_ENDED = 0"
definition SCRIPT_RUN_ERROR :: int where "SCRIPT_RUN_ERROR = -1"

fun ubasic_errstrings :: "ubasic_errors \<Rightarrow> string" where
  "ubasic_errstrings UBASIC_E_NONE = ''No err''"
| "ubasic_errstrings UBASIC_E_PARSE = ''Parse err''"
| "ubasic_errstrings UBASIC_E_UNK_STATEMENT = ''Unk stmt''"
| "ubasic_errstrings UBASIC_E_UNK_KEY = ''Unk key''"
| "ubasic_errstrings UBASIC_E_UNK_LABEL = ''Unk label''"
| "ubasic_errstrings UBASIC_E_GOSUB_STACK_EXHAUSTED = ''gosub: Stack ful''"
| "ubasic_errstrings UBASIC_E_UNMATCHED_RETURN = ''bad return''"
| "ubasic_errstrings UBASIC_E_IF_STACK_EXHAUSTED = ''if: Stack ful''"
| "ubasic_errstrings UBASIC_E_UNMATCHED_IF = ''bad endif''"
| "ubasic_errstrings UBASIC_E_SELECT_STACK_EXHAUSTED = ''select: Stack ful''"
| "ubasic_errstrings UBASIC_E_UNMATCHED_END_SELECT = ''bad end_select''"
| "ubasic_errstrings UBASIC_E_FOR_STACK_EXHAUSTED = ''for: Stack ful''"
| "ubasic_errstrings UBASIC_E_UNMATCHED_NEXT = ''bad next''"
| "ubasic_errstrings UBASIC_E_DO_STACK_EXHAUSTED = ''do: Stack ful''"
| "ubasic_errstrings UBASIC_E_UNMATCHED_UNTIL = ''bad until''"
| "ubasic_errstrings UBASIC_E_WHILE_STACK_EXHAUSTED = ''while: Stack ful''"
| "ubasic_errstrings UBASIC_E_UNMATCHED_WEND = ''bad wend''"
| "ubasic_errstrings UBASIC_E_UNKNOWN_ERROR = ''Unk err''"

definition error_text :: "ubasic_vm \<Rightarrow> string" where
  "error_text v =
     ''uBASIC:'' @ show_int (cur_line v) @ '' '' @ ubasic_errstrings (ubasic_error v) @ '' ''"

text \<open>The messages of a script that is over, and the result of the timeslice.\<close>

definition finish_run :: "'a ubasic_scheme \<Rightarrow> (int \<times> 'a ubasic_scheme) option" where
  "finish_run s =
     (if ubasic_error (ub s) \<noteq> UBASIC_E_NONE
      then do {
        s1 \<leftarrow> script_console_add_text (error_text (ub s)) (console_set_autoredraw 1 s);
        s2 \<leftarrow> script_console_add_error LANG_CONSOLE_TEXT_TERMINATED s1;
        Some (SCRIPT_RUN_ERROR, s2) }
      else do {
        s1 \<leftarrow> script_console_add_error LANG_CONSOLE_TEXT_FINISHED s;
        Some (SCRIPT_RUN_ENDED, s1) })"

definition program_over :: "ubasic_vm \<Rightarrow> bool" where
  "program_over v \<longleftrightarrow> ended v \<or> tokenizer_finished (program_ptr v) (tk v)"

text \<open>
  The loop of \<open>ubasic_run\<close>, with \<open>lines\<close> so far. The clock is read anew after each line, so the time
  limit can stop it earlier; \<open>tick\<close> are the values it shows, one per line, and a clock that is not
  modelled any further stands still.
\<close>

partial_function (option) run_loop ::
  "('a ubasic_scheme) ubasic_env \<Rightarrow> u32 \<Rightarrow> u32 \<Rightarrow> u32 list \<Rightarrow> 'a ubasic_scheme \<Rightarrow>
   (int \<times> 'a ubasic_scheme) option" where
  "run_loop E start lines ticks s =
     (if program_over (ub s) then finish_run s
      else do {
        s1 \<leftarrow> line_statement E s;
        if flag_yield (ub s1) then Some (SCRIPT_RUN_RUNNING, s1)
        else
          let s2 = (case ticks of t # _ \<Rightarrow> s1\<lparr>tick_count := t\<rparr> | [] \<Rightarrow> s1) in
          if lines + 1 < yield_max_lines (ub s2) \<and> tick_count s2 - start < yield_max_ms (ub s2)
          then run_loop E start (lines + 1) (tl ticks) s2
          else Some (SCRIPT_RUN_RUNNING, s2) })"

definition ubasic_run ::
  "('a ubasic_scheme) ubasic_env \<Rightarrow> u32 list \<Rightarrow> 'a ubasic_scheme \<Rightarrow> (int \<times> 'a ubasic_scheme) option" where
  "ubasic_run E ticks s =
     run_loop E (tick_count s) 0 ticks (vm_upd (\<lambda>v. v\<lparr>flag_yield := False\<rparr>) s)"

section \<open>The script module\<close>

text \<open>
  \<open>modules/ubasic.c\<close>: loading a file, a script variable by its name, and the label a script that is interrupted
  goes on from. The cache of the last file's text is not modelled; loading the file anew reads the same text as long as
  the file does not change.
\<close>

definition ubasic_init_file ::
  "('a ubasic_scheme) ubasic_env \<Rightarrow> string \<Rightarrow> 'a ubasic_scheme \<Rightarrow> (int \<times> 'a ubasic_scheme) option" where
  "ubasic_init_file E filename s =
     (case ue_load_file E filename of
        None \<Rightarrow> Some (0, s)
      | Some text \<Rightarrow> do { s1 \<leftarrow> vm_do (ubasic_init text) s; Some (1, s1) })"

definition ubasic_run_restore :: "'a ubasic_scheme \<Rightarrow> (int \<times> 'a ubasic_scheme) option" where
  "ubasic_run_restore s = vm_get (jump_label (state_kbd_script_run s) ''restore'') s"

definition variable_index :: "char \<Rightarrow> int" where
  "variable_index c = (let n = int (of_char c :: nat) in n - (if n \<ge> 97 then 97 else 65 - 26))"

definition set_script_variable :: "string \<Rightarrow> int \<Rightarrow> 'a ubasic_scheme \<Rightarrow> 'a ubasic_scheme option" where
  "set_script_variable name value s =
     (case name of
        [] \<Rightarrow> Some (vm_upd (ubasic_set_variable (variable_index CHR 0x00) (word_of_int value)) s)
      | c # _ \<Rightarrow> Some (vm_upd (ubasic_set_variable (variable_index c) (word_of_int value)) s))"

definition libubasic :: "('a ubasic_scheme) ubasic_env \<Rightarrow> ('a ubasic_scheme) script_api" where
  "libubasic E = \<lparr>sa_script_run = ubasic_run E [], sa_run_restore = ubasic_run_restore,
     sa_script_reset = (\<lambda>s. Some s), sa_script_start_file = ubasic_init_file E\<rparr>"

declare wend_skip.simps [code] case_list.simps [code] print_loop.simps [code] console_add_loop.simps [code]
  run_loop.simps [code]

section \<open>Programs to execute\<close>

text \<open>Lines of a program, and an environment in which every function outside the model returns 0.\<close>

fun program_text :: "string list \<Rightarrow> string" where
  "program_text [] = []"
| "program_text (l # ls) = l @ CHR 0x0A # program_text ls"

definition demo_task :: "ubasic_vm \<Rightarrow> ubasic" where
  "demo_task v = kbd_task.extend kbd_start (ubasic.fields v)"

definition demo_env :: "string \<Rightarrow> ubasic ubasic_env" where
  "demo_env text = \<lparr>ue_platform = a570_platform,
     ue_code = \<lparr>fn_addr = (\<lambda>_. 4), fn_at = (\<lambda>_. None), other_func = (\<lambda>_ _. None)\<rparr>,
     ue_call = (\<lambda>f as s. (0, s)), ue_reboot = (\<lambda>n s. s), ue_load_file = (\<lambda>f. Some text)\<rparr>"

end
