(* ===== verification/UbasicInv.thy ===== *)
theory UbasicInv
  imports UbasicStmt
begin

text \<open>
  What expressions keep: they only move on in the program (\<open>eats\<close>) and leave the control stacks and variables
  alone, which bounds the recursion of the parser (\<open>expr_enough\<close>).
\<close>

section \<open>Moving on in the program\<close>

text \<open>A position inside the program, and how much of it is left.\<close>

definition tk_ok :: "ubasic_vm \<Rightarrow> bool" where
  "tk_ok v \<longleftrightarrow> c_text (program_ptr v) \<and>
     (tok v \<noteq> ''ENDOFINPUT'' \<longrightarrow>
        tk_ptr (tk v) < length (program_ptr v) \<and> tk_nextptr (tk v) \<le> length (program_ptr v))"

definition togo :: "ubasic_vm \<Rightarrow> nat" where
  "togo v = (if tok v = ''ENDOFINPUT'' then 0 else Suc (length (program_ptr v) - tk_nextptr (tk v)))"

lemma tk_ok_finished:
  assumes "tk_ok v"
  shows "tokenizer_finished (program_ptr v) (tk v) \<longleftrightarrow> tok v = ''ENDOFINPUT''"
proof -
  have "prog ! i \<noteq> CHR 0x00" if "i < length prog" "c_text prog" for prog and i :: nat
    using that by (auto simp: c_text_def in_set_conv_nth)
  with assms show ?thesis
    by (auto simp: tk_ok_def tokenizer_finished_def tok_def char_at_def split: if_splits)
qed

lemma tk_ok_cong: "tk v' = tk v \<Longrightarrow> program_ptr v' = program_ptr v \<Longrightarrow> tk_ok v' = tk_ok v \<and> togo v' = togo v"
  by (simp add: tk_ok_def togo_def tok_def)

lemma next_form: "vm_next v = Some v' \<Longrightarrow> \<exists>t. v' = v\<lparr>tk := t\<rparr>"
  by (auto simp: vm_next_def bind_eq_Some_conv)

lemma next_ok:
  assumes "vm_next v = Some v'" and "tk_ok v"
  shows "tk_ok v' \<and> togo v' \<le> togo v \<and> (tok v \<noteq> ''ENDOFINPUT'' \<longrightarrow> togo v' < togo v) \<and>
    (tok v = ''ENDOFINPUT'' \<longrightarrow> v' = v)"
proof -
  let ?prog = "program_ptr v"
  obtain t where t: "tokenizer_next ?prog (tk v) = Some t" "v' = v\<lparr>tk := t\<rparr>"
    using assms(1) by (auto simp: vm_next_def bind_eq_Some_conv)
  show ?thesis
  proof (cases "tok v = ''ENDOFINPUT''")
    case True
    then have "t = tk v" using t(1) tk_ok_finished [OF assms(2)] by (simp add: tokenizer_next_def)
    with True t(2) assms(2) show ?thesis by simp
  next
    case False
    then have nf: "\<not> tokenizer_finished ?prog (tk v)" using tk_ok_finished [OF assms(2)] by simp
    have c: "tk_nextptr (tk v) \<le> length ?prog" "c_text ?prog" using assms(2) False by (simp_all add: tk_ok_def)
    let ?p = "skip_while (\<lambda>c. c = CHR '' '' \<or> c = CHR 0x09) ?prog (tk_nextptr (tk v))"
    have p: "tk_nextptr (tk v) \<le> ?p" "?p \<le> length ?prog" using skip_while_bounds [OF c(1)] by simp_all
    obtain x s1 where g: "get_next_token ?prog ((tk v)\<lparr>tk_ptr := ?p\<rparr>) = Some (x, s1)"
      and ts: "t = s1\<lparr>current_token := x\<rparr>"
      using t(1) nf by (auto simp: tokenizer_next_def Let_def bind_eq_Some_conv)
    have a: "x \<noteq> ''ENDOFINPUT'' \<longrightarrow> tk_ptr s1 < tk_nextptr s1 \<and> tk_nextptr s1 \<le> length ?prog" "?p \<le> tk_ptr s1"
      using get_next_token_advances [OF g _ c(2)] p(2) by simp_all
    show ?thesis
      using a p c False by (auto simp: tk_ok_def togo_def tok_def t(2) ts)
  qed
qed

section \<open>What expressions do to the interpreter\<close>

definition eats :: "ubasic_vm \<Rightarrow> ubasic_vm \<Rightarrow> bool" where
  "eats v v' \<longleftrightarrow>
     (\<exists>t b e f r. v' = v\<lparr>tk := t, string_buf := b, ended := e, flag_yield := f, ubasic_error := r\<rparr> \<and>
        length b = length (string_buf v)) \<and>
     (\<exists>n. token_run (program_ptr v) n (tk v) = Some (tk v'))"

lemma eatsI:
  assumes "v' = v\<lparr>tk := t, string_buf := b, ended := e, flag_yield := f, ubasic_error := r\<rparr>"
    and "length b = length (string_buf v)" and "token_run (program_ptr v) n (tk v) = Some t"
  shows "eats v v'"
  using assms unfolding eats_def by force

lemma eats_refl [simp]: "eats v v"
  by (rule eatsI [where t = "tk v" and b = "string_buf v" and e = "ended v" and f = "flag_yield v"
        and r = "ubasic_error v" and n = 0]) simp_all

lemma token_run_add:
  "token_run prog n s = Some s1 \<Longrightarrow> token_run prog m s1 = Some s2 \<Longrightarrow> token_run prog (n + m) s = Some s2"
  by (induction n arbitrary: s) (auto simp: bind_eq_Some_conv)

lemma eats_trans [trans]: "eats u v \<Longrightarrow> eats v w \<Longrightarrow> eats u w"
proof -
  assume a: "eats u v" "eats v w"
  then obtain t b e f r n m where w: "w = u\<lparr>tk := t, string_buf := b, ended := e, flag_yield := f, ubasic_error := r\<rparr>"
    "length b = length (string_buf u)" "token_run (program_ptr u) n (tk u) = Some (tk v)"
    "token_run (program_ptr u) m (tk v) = Some t" unfolding eats_def by fastforce
  from w(1,2) token_run_add [OF w(3,4)] show ?thesis by (rule eatsI)
qed

lemma eats_next: "vm_next v = Some v' \<Longrightarrow> eats v v'"
proof -
  assume "vm_next v = Some v'"
  then obtain t where t: "tokenizer_next (program_ptr v) (tk v) = Some t" "v' = v\<lparr>tk := t\<rparr>"
    by (auto simp: vm_next_def bind_eq_Some_conv)
  show ?thesis
    by (rule eatsI [where t = t and b = "string_buf v" and e = "ended v" and f = "flag_yield v"
          and r = "ubasic_error v" and n = 1]) (simp_all add: t)
qed

lemma eats_togo: "eats v v' \<Longrightarrow> tk_ok v \<Longrightarrow> tk_ok v' \<and> togo v' \<le> togo v"
proof -
  have *: "token_run (program_ptr u) n (tk u) = Some t \<Longrightarrow> tk_ok u \<Longrightarrow>
      tk_ok (u\<lparr>tk := t\<rparr>) \<and> togo (u\<lparr>tk := t\<rparr>) \<le> togo u" for n t u
  proof (induction n arbitrary: u)
    case (Suc n)
    then obtain t1 where t1: "tokenizer_next (program_ptr u) (tk u) = Some t1"
      "token_run (program_ptr u) n t1 = Some t" by (auto simp: bind_eq_Some_conv)
    then have "vm_next u = Some (u\<lparr>tk := t1\<rparr>)" by (simp add: vm_next_def)
    from next_ok [OF this Suc.prems(2)] Suc.IH [of "u\<lparr>tk := t1\<rparr>"] t1(2) show ?case by simp
  qed (simp add: tk_ok_def togo_def tok_def)
  assume "eats v v'" "tk_ok v"
  with * [of v _ "tk v'"] tk_ok_cong [of v' "v\<lparr>tk := tk v'\<rparr>"] show ?thesis by (auto simp: eats_def)
qed

text \<open>Changes of the flags only.\<close>

lemma eats_fail [simp]: "eats v (vm_fail e v)"
  by (rule eatsI [where t = "tk v" and b = "string_buf v" and e = True and f = "flag_yield v" and r = e and n = 0])
     (simp_all add: vm_fail_def)

lemma eats_yield [simp]: "eats v (v\<lparr>flag_yield := f\<rparr>)"
  by (rule eatsI [where t = "tk v" and b = "string_buf v" and e = "ended v" and f = f and r = "ubasic_error v" and n = 0])
     simp_all

lemma eats_error [simp]: "eats v (v\<lparr>ubasic_error := r\<rparr>)"
  by (rule eatsI [where t = "tk v" and b = "string_buf v" and e = "ended v" and f = "flag_yield v" and r = r and n = 0])
     simp_all

lemma eats_accept: "accept t v = Some v' \<Longrightarrow> eats v v'"
proof (cases "t = tok v")
  case False
  assume "accept t v = Some v'"
  with False obtain v1 where "vm_next v = Some v1" "v' = vm_fail UBASIC_E_PARSE v1"
    by (auto simp: accept_def bind_eq_Some_conv)
  with eats_trans [OF eats_next eats_fail] show ?thesis by blast
qed (simp add: accept_def eats_next)

lemma accept_togo:
  assumes "accept t v = Some v'" and "tok v \<noteq> ''ENDOFINPUT''" and "tk_ok v"
  shows "togo v' < togo v"
proof -
  obtain v1 where "vm_next v = Some v1" "v' = v1 \<or> v' = vm_fail UBASIC_E_PARSE v1"
    using assms(1) by (auto simp: accept_def bind_eq_Some_conv split: if_splits)
  with next_ok [OF _ assms(3)] assms(2) show ?thesis by (auto simp: vm_fail_def togo_def tok_def)
qed

lemma copy_text_length: "copy_text str n dest = Some b \<Longrightarrow> length b = length dest"
  by (auto simp: copy_text_def Let_def split: if_splits)

lemma eats_read_string: "read_string v = Some v' \<Longrightarrow> eats v v'"
proof -
  assume "read_string v = Some v'"
  then obtain b where b: "tokenizer_string (program_ptr v) (string_buf v) MAX_STRINGLEN (tk v) = Some b"
    "v' = v\<lparr>string_buf := b\<rparr>" by (auto simp: read_string_def bind_eq_Some_conv)
  have l: "length b = length (string_buf v)"
    using b(1) by (auto simp: tokenizer_string_def dest: copy_text_length split: if_splits option.splits)
  show ?thesis
    by (rule eatsI [where t = "tk v" and b = b and e = "ended v" and f = "flag_yield v" and r = "ubasic_error v" and n = 0])
       (simp_all add: b(2) l)
qed

lemma eats_varfactor: "varfactor v = Some (r, v') \<Longrightarrow> eats v v'"
  by (auto simp: varfactor_def bind_eq_Some_conv dest: eats_accept)

lemma eats_variable_arg: "variable_arg v = Some (r, v') \<Longrightarrow> eats v v'"
  by (auto simp: variable_arg_def bind_eq_Some_conv dest: eats_accept)

lemma eats_skip_until:
  assumes "skip_until p v = Some v'"
  shows "eats v v'"
proof (rule skip_until.raw_induct [where P = "\<lambda>p v v'. eats v v'", OF _ assms])
  fix su q v v'
  assume IH: "\<And>q v v'. su q v = Some v' \<Longrightarrow> eats v v'"
    and "(if q (tok v) then Some v else vm_next v \<bind> su q) = Some v'"
  then show "eats v v'"
    by (auto simp: bind_eq_Some_conv split: if_splits dest!: IH eats_next intro: eats_trans)
qed

section \<open>Expressions\<close>

text \<open>The contract of the unmodelled functions: they do not touch the interpreter.\<close>

definition calls_ok :: "('a ubasic_scheme) ubasic_env \<Rightarrow> bool" where
  "calls_ok E \<longleftrightarrow> (\<forall>f as s. ub (snd (ue_call E f as s)) = ub s) \<and> (\<forall>n s. ub (ue_reboot E n s) = ub s)"

lemma demo_calls_ok: "calls_ok (demo_env text)"
  by (simp add: calls_ok_def demo_env_def)

lemma demo_task_ub [simp]: "ub (demo_task v) = v"
  by (simp add: demo_task_def ubasic.defs kbd_task.defs kbd_start_def script_idle_def script_state.defs console_start_def
      console.defs gui_start_def gui_state.defs usb_init_def usb_remote.defs as_init_def as_state.defs
      kbd_init_def keyboard.defs camera.defs)

definition eater :: "('a ubasic_scheme \<Rightarrow> ('r \<times> 'a ubasic_scheme) option) \<Rightarrow> bool" where
  "eater p \<longleftrightarrow> (\<forall>s r s'. p s = Some (r, s') \<longrightarrow> eats (ub s) (ub s'))"

lemma eaterD: "eater p \<Longrightarrow> p s = Some (r, s') \<Longrightarrow> eats (ub s) (ub s')"
  by (auto simp: eater_def)

lemma vm_do_Some: "vm_do f s = Some s' \<longleftrightarrow> (\<exists>v. f (ub s) = Some v \<and> s' = s\<lparr>ub := v\<rparr>)"
  by (auto simp: vm_do_def bind_eq_Some_conv)

lemma vm_get_Some: "vm_get f s = Some (r, s') \<longleftrightarrow> (\<exists>v. f (ub s) = Some (r, v) \<and> s' = s\<lparr>ub := v\<rparr>)"
  by (auto simp: vm_get_def bind_eq_Some_conv)

lemma vm_upd_ub [simp]: "ub (vm_upd f s) = f (ub s)"
  by (simp add: vm_upd_def)

lemma eater_operators: "eater sub \<Longrightarrow> eater (operators n ops sub r)"
proof (induction n arbitrary: r)
  case (Suc n)
  show ?case
    unfolding eater_def
  proof (intro allI impI)
    fix s x s'
    assume a: "operators (Suc n) ops sub r s = Some (x, s')"
    show "eats (ub s) (ub s')"
    proof (cases "ops (utok s)")
      case (Some f)
      with a obtain s1 r2 s2 r' where s: "vm_do vm_next s = Some s1" "sub s1 = Some (r2, s2)"
        "operators n ops sub r' s2 = Some (x, s')" by (auto simp: bind_eq_Some_conv)
      have "eats (ub s) (ub s1)" using s(1) eats_next by (auto simp: vm_do_Some)
      also have "eats (ub s1) (ub s2)" using eaterD [OF Suc.prems s(2)] .
      also have "eats (ub s2) (ub s')" using eaterD [OF Suc.IH [OF Suc.prems] s(3)] .
      finally show ?thesis .
    qed (use a in simp)
  qed
qed (simp add: eater_def)

lemma eater_bind:
  assumes "eater p" and "\<And>r. eater (q r)"
  shows "eater (\<lambda>s. do { (r, s1) \<leftarrow> p s; q r s1 })"
  using assms unfolding eater_def by (fastforce simp: bind_eq_Some_conv intro: eats_trans)

lemma eater_levels:
  assumes "eater fac"
  shows "eater (term_from n fac)" and "eater (expr_from n fac)" and "eater (relation_from n fac)"
proof -
  show t: "eater (term_from n fac)"
    unfolding term_from_def by (intro eater_bind eater_operators assms)
  then show e: "eater (expr_from n fac)"
    unfolding expr_from_def by (intro eater_bind eater_operators)
  then show "eater (relation_from n fac)"
    unfolding relation_from_def by (intro eater_bind eater_operators)
qed

lemma eater_exprs: "eater ex \<Longrightarrow> eater (exprs ex n)"
proof (induction n)
  case (Suc n)
  from Suc.IH [OF Suc.prems] Suc.prems show ?case
    unfolding eater_def by (fastforce simp: bind_eq_Some_conv intro: eats_trans)
qed (simp add: eater_def)

lemma eats_key_arg: "ubasic_get_key_arg s = Some (k, s') \<Longrightarrow> eats (ub s) (ub s')"
  by (auto simp: ubasic_get_key_arg_def bind_eq_Some_conv vm_do_Some Let_def split: if_splits dest!: eats_read_string eats_next
      intro: eats_trans eats_trans [OF eats_trans eats_error])

text \<open>The functions of the core.\<close>

lemma call_ub:
  assumes "calls_ok E"
  shows "ub (snd (ue_call E f as s)) = ub s" and "ue_call E f as s = (r, s1) \<Longrightarrow> ub s1 = ub s"
    and "ub (ue_reboot E n s) = ub s"
  using assms unfolding calls_ok_def by (auto dest: spec [of _ f] spec [of _ as] spec [of _ s])
    (metis snd_conv)

lemma push_ub: "action_push v s = Some s' \<Longrightarrow> ub s' = ub s"
  by (auto simp: action_push_def upd_node_def Let_def split: option.splits if_splits)

lemma push_func_ub: "action_push_func M f s = Some s' \<Longrightarrow> ub s' = ub s"
  by (auto simp: action_push_func_def bind_eq_Some_conv dest!: push_ub)

lemma push_delay_ub: "action_push_delay M d s = Some s' \<Longrightarrow> ub s' = ub s"
  by (auto simp: action_push_delay_def bind_eq_Some_conv dest!: push_ub push_func_ub)

lemma random_ub:
  assumes "calls_ok E" and "random_value E a b s = Some (r, s')"
  shows "eats (ub s) (ub s')"
  using assms(2)
  by (auto simp: random_value_def Let_def case_prod_beta bind_eq_Some_conv call_ub(1) [OF assms(1)]
      dest!: push_delay_ub)

lemma usb_power_ub: "ub (snd (usb_power_value m s)) = ub s"
  by (simp add: usb_power_value_def Let_def)

lemma key_pressed_ub: "ub (snd (script_key_is_pressed P k s)) = ub s"
  by (simp add: script_key_is_pressed_def)

lemmas value_defs = get_time_def get_day_seconds_def get_temperature_def get_nd_present_def dof_value_def
  config_value_def

lemma special_value_ub:
  assumes "calls_ok E" and "special_value E t as s = Some (r, s')"
  shows "eats (ub s) (ub s')"
proof (cases "t = (''RANDOM'' :: ubasic_token)")
  case True
  then have "random_value E (arg 0 as) (arg 1 as) s = Some (r, s')"
    using assms(2) by (simp add: special_value_def)
  then show ?thesis by (rule random_ub [OF assms(1)])
next
  case False
  note c = call_ub(1) [OF assms(1)]
  have "ub s' = ub s"
    using assms(2) False
    by (auto simp: special_value_def case_prod_beta Let_def c value_defs apfst_def map_prod_def split: if_splits
      dest!: call_ub(2) [OF assms(1)])
  then show ?thesis by simp
qed

lemma factor_value_ub:
  assumes "calls_ok E" and "factor_value E t as s = Some (r, s')"
  shows "eats (ub s) (ub s')"
proof (cases "map_of (core_calls @ conversion_calls) t")
  case None
  have "factor_value E t as s =
      (case state_value (ue_platform E) t s of Some r \<Rightarrow> Some (r, s) | None \<Rightarrow> special_value E t as s)"
    unfolding factor_value_def None option.case by (rule refl)
  then show ?thesis
    using assms(2) special_value_ub [OF assms(1), of t as s r s']
    by (cases "state_value (ue_platform E) t s") simp_all
next
  case (Some f)
  with assms(2) have "ue_call E f as s = (r, s')" by (simp add: factor_value_def)
  then show ?thesis using call_ub(2) [OF assms(1)] by simp
qed

lemma eater_factor_body:
  assumes ok: "calls_ok E" and p: "eater fac" "eater ex" "eater rel"
  shows "eater (factor_body E fac ex rel)"
  unfolding eater_def
proof (intro allI impI)
  fix s r s'
  assume f: "factor_body E fac ex rel s = Some (r, s')"
  note d = eaterD [OF p(1)] eaterD [OF p(2)] eaterD [OF p(3)] eats_key_arg eats_accept
    eaterD [OF eater_exprs [OF p(2)]] factor_value_ub [OF ok] eats_varfactor
  note e = eats_trans eats_trans [OF eats_trans]
  have u: "usb_power_value m t = (x, s'') \<Longrightarrow> ub s'' = ub t"
    "script_key_is_pressed P k t = (x, s'') \<Longrightarrow> ub s'' = ub t" for t :: "'a ubasic_scheme" and m x s'' P k
    using usb_power_ub [of m t] key_pressed_ub [of P k t] by simp_all
  consider "utok s = ''NUMBER''" | "utok s = ''LEFTPAREN''" | "utok s = ''PLUS''" | "utok s = ''MINUS''"
    | "utok s = ''LNOT''" | "utok s = ''GET_USB_POWER''" | "utok s = ''IS_KEY''" | "utok s = ''IS_PRESSED''"
    | "utok s \<notin> {''NUMBER'', ''LEFTPAREN'', ''PLUS'', ''MINUS'', ''LNOT'', ''GET_USB_POWER'', ''IS_KEY'', ''IS_PRESSED''}"
    by auto
  then show "eats (ub s) (ub s')"
  proof cases
    case 6
    with f obtain s1 m t where t: "vm_do (accept (utok s)) s = Some s1"
      "(if no_arg (utok s1) then Some (0, s1) else ex s1) = Some (m, t)" "usb_power_value m t = (r, s')"
      by (auto simp: factor_body_def bind_eq_Some_conv)
    have "eats (ub s) (ub s1)" using t(1) eats_accept by (auto simp: vm_do_Some)
    also have "eats (ub s1) (ub t)" using t(2) eaterD [OF p(2)] by (auto split: if_splits)
    finally show ?thesis using u(1) [OF t(3)] by simp
  next
    case 8
    with f obtain s1 k t where t: "vm_do (accept (utok s)) s = Some s1" "ubasic_get_key_arg s1 = Some (k, t)"
      "script_key_is_pressed (ue_platform E) k t = (r, s')"
      by (auto simp: factor_body_def bind_eq_Some_conv)
    have "eats (ub s) (ub s1)" using t(1) eats_accept by (auto simp: vm_do_Some)
    also have "eats (ub s1) (ub t)" using t(2) by (rule eats_key_arg)
    finally show ?thesis using u(2) [OF t(3)] by simp
  next
    case 9
    with f show ?thesis
      by (cases "factor_args (utok s)")
         (auto simp: factor_body_def Let_def bind_eq_Some_conv vm_do_Some vm_get_Some dest!: d intro: e)
  qed (use f in \<open>auto simp: factor_body_def bind_eq_Some_conv vm_do_Some dest!: d intro: e\<close>)
qed

lemma eater_factor: "calls_ok E \<Longrightarrow> eater (factor_n E n)"
proof (induction n)
  case (Suc n)
  note f = Suc.IH [OF Suc.prems]
  have "eater (factor_body E (factor_n E n) (expr_from n (factor_n E n)) (relation_from n (factor_n E n)))"
    by (intro eater_factor_body Suc.prems f eater_levels)
  then show ?case by (simp add: eater_def)
qed (simp add: eater_def)

lemma eats_expr: "calls_ok E \<Longrightarrow> expr E s = Some (r, s') \<Longrightarrow> eats (ub s) (ub s')"
  unfolding expr_def by (rule eaterD [OF eater_levels(2) [OF eater_factor]])

lemma eats_relation: "calls_ok E \<Longrightarrow> relation E s = Some (r, s') \<Longrightarrow> eats (ub s) (ub s')"
  unfolding relation_def by (rule eaterD [OF eater_levels(3) [OF eater_factor]])

section \<open>The recursion is bounded\<close>

text \<open>Two parsers agree on states with at most \<open>K\<close> of the program to go.\<close>

definition agree ::
  "nat \<Rightarrow> ('a ubasic_scheme \<Rightarrow> 'r option) \<Rightarrow> ('a ubasic_scheme \<Rightarrow> 'r option) \<Rightarrow> bool" where
  "agree K p p' \<longleftrightarrow> (\<forall>s. tk_ok (ub s) \<and> togo (ub s) \<le> K \<longrightarrow> p s = p' s)"

lemma agreeD: "agree K p p' \<Longrightarrow> tk_ok (ub s) \<Longrightarrow> togo (ub s) \<le> K \<Longrightarrow> p s = p' s"
  by (simp add: agree_def)

lemma agree_operators:
  assumes "agree K sub sub'" and "eater sub" and "ops ''ENDOFINPUT'' = None"
    and "tk_ok (ub s)" and "togo (ub s) \<le> K" and "togo (ub s) < n" and "togo (ub s) < m"
  shows "operators n ops sub r s = operators m ops sub' r s"
  using assms(4-7)
proof (induction n arbitrary: m r s)
  case (Suc n)
  then obtain m' where m: "m = Suc m'" by (cases m) auto
  show ?case
  proof (cases "ops (utok s)")
    case (Some f)
    then have t: "tok (ub s) \<noteq> ''ENDOFINPUT''" using assms(3) by (auto simp: utok_def)
    show ?thesis
    proof (cases "vm_next (ub s)")
      case (Some v)
      let ?s = "s\<lparr>ub := v\<rparr>"
      note v = next_ok [OF Some Suc.prems(1)]
      have "operators n ops sub r' s2 = operators m' ops sub' r' s2" if "sub ?s = Some (r2, s2)" for r2 s2 r'
      proof -
        have "eats v (ub s2)" using eaterD [OF assms(2) that] by simp
        from eats_togo [OF this] v t Suc.prems m show ?thesis by (intro Suc.IH) auto
      qed
      moreover have "sub ?s = sub' ?s" using agreeD [OF assms(1), of ?s] v t Suc.prems by simp
      ultimately show ?thesis using m \<open>ops (utok s) = Some f\<close> Some
        by (cases "sub' ?s") (auto simp: vm_do_def bind_eq_Some_conv intro!: Option.bind_cong)
    qed (use m Some in \<open>simp add: vm_do_def\<close>)
  qed (simp add: m)
qed simp

lemma agree_level:
  assumes "agree K fac fac'" and "eater fac" and "ops ''ENDOFINPUT'' = None" and "K < n" and "K < m"
  shows "agree K (\<lambda>s. do { (r, s1) \<leftarrow> fac s; operators n ops fac r s1 })
                 (\<lambda>s. do { (r, s1) \<leftarrow> fac' s; operators m ops fac' r s1 })"
  unfolding agree_def
proof (intro allI impI)
  fix s :: "'a ubasic_scheme"
  assume s: "tk_ok (ub s) \<and> togo (ub s) \<le> K"
  have "operators n ops fac r s1 = operators m ops fac' r s1" if "fac s = Some (r, s1)" for r s1
    using eats_togo [OF eaterD [OF assms(2) that]] s assms by (intro agree_operators [where ops = ops, OF assms(1-3)]) auto
  moreover have "fac s = fac' s" using agreeD [OF assms(1)] s by simp
  ultimately show "(do { (r, s1) \<leftarrow> fac s; operators n ops fac r s1 }) =
      (do { (r, s1) \<leftarrow> fac' s; operators m ops fac' r s1 })"
    by (cases "fac' s") auto
qed

lemma agree_levels:
  assumes "agree K fac fac'" and "eater fac" and "K < n" and "K < m"
  shows "agree K (expr_from n fac) (expr_from m fac')" and "agree K (relation_from n fac) (relation_from m fac')"
proof -
  have o: "term_op ''ENDOFINPUT'' = None" "expr_op ''ENDOFINPUT'' = None" "relation_op ''ENDOFINPUT'' = None"
    by (simp_all add: term_op_def expr_op_def relation_op_def)
  have t: "agree K (term_from n fac) (term_from m fac')"
    unfolding term_from_def by (rule agree_level [where ops = term_op, OF assms(1,2) o(1) assms(3,4)])
  show e: "agree K (expr_from n fac) (expr_from m fac')"
    unfolding expr_from_def by (rule agree_level [where ops = expr_op, OF t eater_levels(1) [OF assms(2)] o(2) assms(3,4)])
  show "agree K (relation_from n fac) (relation_from m fac')"
    unfolding relation_from_def by (rule agree_level [where ops = relation_op, OF e eater_levels(2) [OF assms(2)] o(3) assms(3,4)])
qed

lemma agree_exprs:
  assumes "agree K ex ex'" and "eater ex"
  shows "agree K (exprs ex n) (exprs ex' n)"
proof (induction n)
  case (Suc n)
  show ?case
    unfolding agree_def
  proof (intro allI impI)
    fix s :: "'a ubasic_scheme"
    assume s: "tk_ok (ub s) \<and> togo (ub s) \<le> K"
    have "exprs ex n s1 = exprs ex' n s1" if "ex s = Some (r, s1)" for r s1
      using eats_togo [OF eaterD [OF assms(2) that]] s agreeD [OF Suc.IH] by auto
    moreover have "ex s = ex' s" using agreeD [OF assms(1)] s by simp
    ultimately show "exprs ex (Suc n) s = exprs ex' (Suc n) s" by (cases "ex' s") auto
  qed
qed (simp add: agree_def)

lemma agree_factor_body:
  assumes a: "agree K fac fac'" "agree K ex ex'" "agree K rel rel'" "eater ex"
    and s: "tk_ok (ub s)" "togo (ub s) \<le> Suc K" "utok s \<noteq> ''ENDOFINPUT''"
  shows "factor_body E fac ex rel s = factor_body E fac' ex' rel' s"
proof (cases "accept (utok s) (ub s)")
  case (Some v)
  let ?s = "s\<lparr>ub := v\<rparr>"
  have acc: "vm_do (accept (utok s)) s = Some ?s" using Some by (simp add: vm_do_def)
  have v: "tk_ok (ub ?s)" "togo (ub ?s) \<le> K"
    using accept_togo [OF Some] eats_togo [OF eats_accept [OF Some]] s by (auto simp: utok_def)
  have "fac ?s = fac' ?s" "ex ?s = ex' ?s" "rel ?s = rel' ?s" "exprs ex n ?s = exprs ex' n ?s" for n
    using agreeD [OF a(1) v] agreeD [OF a(2) v] agreeD [OF a(3) v] agreeD [OF agree_exprs [OF a(2,4)] v] by simp_all
  then show ?thesis
    unfolding factor_body_def Let_def acc by (simp split: option.splits)
next
  case None
  then have acc: "vm_do (accept (utok s)) s = None" by (simp add: vm_do_def)
  show ?thesis unfolding factor_body_def Let_def acc by (simp split: option.splits)
qed

lemma agree_factor:
  assumes "calls_ok E" and "K < n" and "K < m"
  shows "agree K (factor_n E n) (factor_n E m)"
  using assms(2,3)
proof (induction K arbitrary: n m)
  case 0
  then obtain n' m' where nm: "n = Suc n'" "m = Suc m'" by (metis gr0_implies_Suc)
  show ?case
    unfolding agree_def nm
  proof (intro allI impI)
    fix s :: "'a ubasic_scheme"
    assume "tk_ok (ub s) \<and> togo (ub s) \<le> 0"
    then have "utok s = ''ENDOFINPUT''" by (auto simp: togo_def utok_def split: if_splits)
    then show "factor_n E (Suc n') s = factor_n E (Suc m') s"
      by (simp add: factor_body_def factor_args_def)
  qed
next
  case (Suc K)
  then obtain n' m' where nm: "n = Suc n'" "m = Suc m'" "K < n'" "K < m'" by (cases n; cases m) auto
  note f = Suc.IH [OF nm(3,4)]
  note l = agree_levels [OF f eater_factor [OF assms(1)] nm(3,4)]
  show ?case
    unfolding agree_def nm(1,2)
  proof (intro allI impI)
    fix s :: "'a ubasic_scheme"
    assume s: "tk_ok (ub s) \<and> togo (ub s) \<le> Suc K"
    show "factor_n E (Suc n') s = factor_n E (Suc m') s"
    proof (cases "utok s = ''ENDOFINPUT''")
      case True
      then show ?thesis by (simp add: factor_body_def factor_args_def)
    next
      case False
      from agree_factor_body [OF f l eater_levels(2) [OF eater_factor [OF assms(1)]] _ _ False] s
      show ?thesis by simp
    qed
  qed
qed

lemma expr_enough:
  assumes "calls_ok E" and "tk_ok (ub s)" and "ub_fuel s \<le> n"
  shows "expr E s = expr_from n (factor_n E n) s" and "relation E s = relation_from n (factor_n E n) s"
proof -
  let ?K = "Suc (length (program_ptr (ub s)))"
  have t: "togo (ub s) \<le> ?K" by (simp add: togo_def)
  have "agree ?K (factor_n E (ub_fuel s)) (factor_n E n)"
    using assms(3) by (intro agree_factor [OF assms(1)]) (simp_all add: ub_fuel_def)
  from agree_levels [OF this eater_factor [OF assms(1)], of "ub_fuel s" n] assms(3)
  have "agree ?K (expr_from (ub_fuel s) (factor_n E (ub_fuel s))) (expr_from n (factor_n E n))"
    "agree ?K (relation_from (ub_fuel s) (factor_n E (ub_fuel s))) (relation_from n (factor_n E n))"
    by (simp_all add: ub_fuel_def)
  from this [THEN agreeD, OF assms(2) t] show "expr E s = expr_from n (factor_n E n) s"
    "relation E s = relation_from n (factor_n E n) s" by (simp_all add: expr_def relation_def)
qed

end
