(* ===== verification/UbasicCtl.thy ===== *)
theory UbasicCtl
  imports UbasicInv
begin

text \<open>
  The invariant of the interpreter, \<open>vm_inv\<close>: the arrays have their declared size, every stack pointer is inside
  its array, and the tokenizer is at a position it reaches from the start of the program. Every statement, every line and every
  timeslice keeps it and does not change the program (\<open>kept\<close>).
\<close>

section \<open>Positions in the program\<close>

lemma init_tk_ok:
  assumes t: "tokenizer_init prog t0 = Some t" and c: "c_text prog"
    and v: "tk v = t" "program_ptr v = prog"
  shows "tk_ok v"
proof -
  obtain x s where g: "get_next_token prog (t0\<lparr>tk_ptr := 0, current_line := 1\<rparr>) = Some (x, s)"
    and u: "(if x = ''CR'' \<and> \<not> tokenizer_finished prog (s\<lparr>current_token := x\<rparr>)
             then tokenizer_next prog (s\<lparr>current_token := x\<rparr>) else Some (s\<lparr>current_token := x\<rparr>)) = Some t"
    using t unfolding tokenizer_init_once [OF c] by (auto simp: bind_eq_Some_conv Let_def)
  let ?w = "v\<lparr>tk := s\<lparr>current_token := x\<rparr>\<rparr>"
  have "tk_ok ?w" using get_next_token_advances [OF g _ c] c v(2) by (auto simp: tk_ok_def tok_def)
  moreover have "v = ?w \<or> vm_next ?w = Some v"
    using u v by (auto simp: vm_next_def bind_eq_Some_conv split: if_splits)
  ultimately show ?thesis by (metis next_ok)
qed

text \<open>A position the interpreter gets to from the start of the program.\<close>

definition on_path :: "ubasic_vm \<Rightarrow> bool" where
  "on_path v \<longleftrightarrow> c_text (program_ptr v) \<and>
     (\<exists>s i k. tokenizer_init (program_ptr v) s = Some i \<and> token_run (program_ptr v) k i = Some (tk v))"

lemma on_path_eats: "on_path v \<Longrightarrow> eats v w \<Longrightarrow> on_path w"
proof -
  assume "on_path v" "eats v w"
  moreover obtain n where "token_run (program_ptr v) n (tk v) = Some (tk w)" "program_ptr w = program_ptr v"
    using calculation(2) by (auto simp: eats_def)
  ultimately show ?thesis unfolding on_path_def by (metis token_run_add)
qed

lemma on_path_tk_ok: "on_path v \<Longrightarrow> tk_ok v"
proof -
  assume "on_path v"
  then obtain s i k where c: "c_text (program_ptr v)" and i: "tokenizer_init (program_ptr v) s = Some i"
    and k: "token_run (program_ptr v) k i = Some (tk v)" by (auto simp: on_path_def)
  have "tk_ok (v\<lparr>tk := i\<rparr>)" by (rule init_tk_ok [OF i c]) simp_all
  moreover have "eats (v\<lparr>tk := i\<rparr>) v"
    by (rule eatsI [where t = "tk v" and b = "string_buf v" and e = "ended v" and f = "flag_yield v" and r = "ubasic_error v"])
       (use k in auto)
  ultimately show ?thesis using eats_togo by blast
qed

section \<open>The invariant\<close>

definition stacks_ok :: "ubasic_vm \<Rightarrow> bool" where
  "stacks_ok v \<longleftrightarrow> length (string_buf v) = MAX_STRINGLEN \<and>
     int (length (gosub_stack v)) = MAX_GOSUB_STACK_DEPTH \<and>
     0 \<le> gosub_stack_ptr v \<and> gosub_stack_ptr v \<le> MAX_GOSUB_STACK_DEPTH \<and>
     int (length (if_stack v)) = MAX_IF_STACK_DEPTH \<and>
     0 \<le> if_stack_ptr v \<and> if_stack_ptr v \<le> MAX_IF_STACK_DEPTH \<and>
     int (length (select_stack v)) = MAX_SELECT_STACK_DEPTH \<and>
     0 \<le> select_stack_ptr v \<and> select_stack_ptr v \<le> MAX_SELECT_STACK_DEPTH \<and>
     int (length (while_stack v)) = MAX_WHILE_STACK_DEPTH \<and>
     0 \<le> while_stack_ptr v \<and> while_stack_ptr v \<le> MAX_WHILE_STACK_DEPTH \<and>
     int (length (do_stack v)) = MAX_DO_STACK_DEPTH \<and>
     0 \<le> do_stack_ptr v \<and> do_stack_ptr v \<le> MAX_DO_STACK_DEPTH \<and>
     int (length (for_stack v)) = MAX_FOR_STACK_DEPTH \<and>
     0 \<le> for_stack_ptr v \<and> for_stack_ptr v \<le> MAX_FOR_STACK_DEPTH"

definition vm_inv :: "ubasic_vm \<Rightarrow> bool" where
  "vm_inv v \<longleftrightarrow> stacks_ok v \<and> on_path v"

definition kept :: "ubasic_vm \<Rightarrow> ubasic_vm \<Rightarrow> bool" where
  "kept v v' \<longleftrightarrow> (vm_inv v \<longrightarrow> vm_inv v' \<and> program_ptr v' = program_ptr v)"

lemma kept_refl [simp]: "kept v v"
  by (simp add: kept_def)

lemma kept_trans [trans]: "kept u v \<Longrightarrow> kept v w \<Longrightarrow> kept u w"
  by (simp add: kept_def)

lemma kept_eats:
  assumes "eats v v'"
  shows "kept v v'"
proof -
  have "stacks_ok v \<Longrightarrow> stacks_ok v'" "program_ptr v' = program_ptr v"
    using assms by (auto simp: eats_def stacks_ok_def)
  with on_path_eats [OF _ assms] show ?thesis by (simp add: kept_def vm_inv_def)
qed

lemmas kept_steps = eats_next [THEN kept_eats] eats_accept [THEN kept_eats] eats_read_string [THEN kept_eats]
  eats_varfactor [THEN kept_eats] eats_variable_arg [THEN kept_eats] eats_skip_until [THEN kept_eats]

text \<open>Updates that do not move the tokenizer.\<close>

lemma kept_updates:
  "kept v (vm_fail e v)" "kept v (ubasic_set_variable n x v)" "kept v (v\<lparr>ended := b\<rparr>)"
  "kept v (v\<lparr>ubasic_error := e\<rparr>)" "kept v (v\<lparr>flag_yield := b\<rparr>)" "kept v (v\<lparr>ubasic_as_ret_var_num := i\<rparr>)"
  "kept v (set_yield x y v)" "kept v (dec_select_stack v)" "kept v (ubasic_set_as_ret x v)"
  by (simp_all add: kept_def vm_inv_def stacks_ok_def vm_fail_def ubasic_set_variable_def set_yield_def
      dec_select_stack_def ubasic_set_as_ret_def on_path_def)

lemma kept_tk:
  assumes "vm_inv v \<Longrightarrow> stacks_ok v'" and "tk v' = tk v" and "program_ptr v' = program_ptr v"
  shows "kept v v'"
  using assms by (auto simp: kept_def vm_inv_def on_path_def)

lemma array_put_length: "array_put i x xs = Some ys \<Longrightarrow> length ys = length xs"
  by (auto simp: array_put_def split: if_splits)

section \<open>Loading a program\<close>

text \<open>The static arrays have their size; everything else \<open>ubasic_init\<close> sets up.\<close>

definition arrays_ok :: "ubasic_vm \<Rightarrow> bool" where
  "arrays_ok v \<longleftrightarrow> length (string_buf v) = MAX_STRINGLEN \<and>
     int (length (gosub_stack v)) = MAX_GOSUB_STACK_DEPTH \<and> int (length (if_stack v)) = MAX_IF_STACK_DEPTH \<and>
     int (length (select_stack v)) = MAX_SELECT_STACK_DEPTH \<and> int (length (while_stack v)) = MAX_WHILE_STACK_DEPTH \<and>
     int (length (do_stack v)) = MAX_DO_STACK_DEPTH \<and> int (length (for_stack v)) = MAX_FOR_STACK_DEPTH"

lemma init_inv:
  assumes "ubasic_init prog v = Some v'" and "arrays_ok v" and "c_text prog"
  shows "vm_inv v' \<and> program_ptr v' = prog"
proof -
  obtain t where t: "tokenizer_init prog (tk v) = Some t"
    and v': "v' = v\<lparr>program_ptr := prog, tk := t, gosub_stack_ptr := 0, if_stack_ptr := 0,
             select_stack_ptr := 0, while_stack_ptr := 0, do_stack_ptr := 0, for_stack_ptr := 0,
             ended := False, yield_max_lines := YIELD_MAX_LINES_DEFAULT,
             yield_max_ms := YIELD_MAX_MS_DEFAULT, flag_yield := False, ubasic_error := UBASIC_E_NONE\<rparr>"
    using assms(1) by (auto simp: ubasic_init_def bind_eq_Some_conv)
  have "token_run prog 0 t = Some t" by simp
  with t assms(3) have "on_path v'" by (auto simp: on_path_def v' simp del: token_run.simps)
  then show ?thesis
    using assms(2) by (simp add: vm_inv_def stacks_ok_def arrays_ok_def v' depth_defs)
qed

lemma static_arrays: "arrays_ok ubasic_static"
  by (simp add: arrays_ok_def ubasic_static_def depth_defs)

section \<open>Jumps\<close>

lemma kept_restart:
  assumes "restart v = Some v'"
  shows "kept v v'"
proof (rule kept_def [THEN iffD2], rule impI)
  assume i: "vm_inv v"
  obtain t where t: "tokenizer_init (program_ptr v) (tk v) = Some t" "v' = v\<lparr>tk := t\<rparr>"
    using assms by (auto simp: restart_def bind_eq_Some_conv)
  have "token_run (program_ptr v) 0 t = Some t" by simp
  with i t have "on_path v'" by (auto simp: vm_inv_def on_path_def simp del: token_run.simps)
  then show "vm_inv v' \<and> program_ptr v' = program_ptr v" using i t(2) by (simp add: vm_inv_def stacks_ok_def)
qed

lemma kept_find_line:
  assumes "find_line n v = Some v'"
  shows "kept v v'"
proof (rule find_line.raw_induct [where P = "\<lambda>n v v'. kept v v'", OF _ assms])
  fix fl n v v'
  assume IH: "\<And>n v v'. fl n v = Some v' \<Longrightarrow> kept v v'"
    and "(if cur_line v = n then Some v else vm_next v \<bind> fl n) = Some v'"
  then show "kept v v'"
    by (auto simp: bind_eq_Some_conv split: if_splits dest!: IH kept_steps intro: kept_trans)
qed

lemma kept_jump_line: "jump_line n v = Some v' \<Longrightarrow> kept v v'"
  by (auto simp: jump_line_def bind_eq_Some_conv dest!: kept_restart kept_find_line kept_steps
      intro: kept_trans [OF kept_trans])

lemma kept_label_loop:
  assumes "label_loop l c v = Some v'"
  shows "kept v v'"
proof (rule label_loop.raw_induct [where P = "\<lambda>l c v v'. kept v v'", OF _ assms])
  fix fl l c v v'
  assume IH: "\<And>l c v v'. fl l c v = Some v' \<Longrightarrow> kept v v'"
    and a: "(if tok v = ''ENDOFINPUT'' then Some v
       else do {
         v1 \<leftarrow> vm_next v;
         if tok v1 = ''LABEL'' then do {
           cur1 \<leftarrow> tokenizer_label (program_ptr v1) c MAX_STRINGLEN (tk v1);
           v2 \<leftarrow> vm_next v1;
           l' \<leftarrow> c_str cur1;
           if l = l' then accept ''CR'' v2 else fl l cur1 v2 }
         else fl l c v1 }) = Some v'"
  then show "kept v v'"
    by (auto simp: bind_eq_Some_conv split: if_splits dest!: IH kept_steps intro: kept_trans kept_trans [OF kept_trans])
qed

lemma kept_jump_label: "jump_label r l v = Some (x, v') \<Longrightarrow> kept v v'"
  by (auto simp: jump_label_def bind_eq_Some_conv split: if_splits dest!: kept_restart kept_label_loop
      intro: kept_trans kept_trans [OF kept_trans kept_updates(4)])

lemma kept_jump_string: "jump_string r v = Some v' \<Longrightarrow> kept v v'"
  by (auto simp: jump_string_def bind_eq_Some_conv dest!: kept_jump_label)

section \<open>Control statements\<close>

text \<open>Pushing on a stack that is not full, and dropping what is on top.\<close>

lemma kept_push_gosub:
  assumes "array_put (gosub_stack_ptr v) x (gosub_stack v) = Some g" and "gosub_stack_ptr v < MAX_GOSUB_STACK_DEPTH"
  shows "kept v (v\<lparr>gosub_stack := g, gosub_stack_ptr := gosub_stack_ptr v + 1\<rparr>)"
  using assms by (intro kept_tk) (auto simp: vm_inv_def stacks_ok_def array_put_length)

lemma kept_push_do:
  assumes "array_put (do_stack_ptr v) x (do_stack v) = Some g" and "do_stack_ptr v < MAX_DO_STACK_DEPTH"
  shows "kept v (v\<lparr>do_stack := g, do_stack_ptr := do_stack_ptr v + 1\<rparr>)"
  using assms by (intro kept_tk) (auto simp: vm_inv_def stacks_ok_def array_put_length)

lemma kept_push_if:
  assumes "array_put (if_stack_ptr v) x (if_stack v) = Some g" and "if_stack_ptr v < MAX_IF_STACK_DEPTH"
  shows "kept v (v\<lparr>if_stack := g, if_stack_ptr := if_stack_ptr v + 1\<rparr>)"
  using assms by (intro kept_tk) (auto simp: vm_inv_def stacks_ok_def array_put_length)

lemma kept_push_for: "push_for f v = Some v' \<Longrightarrow> kept v v'"
proof -
  have "kept v (v\<lparr>for_stack := w, for_stack_ptr := for_stack_ptr v + 1\<rparr>)"
    if "array_put (for_stack_ptr v) f (for_stack v) = Some w" "for_stack_ptr v < MAX_FOR_STACK_DEPTH" for w
    using that by (intro kept_tk) (auto simp: vm_inv_def stacks_ok_def array_put_length)
  then show "push_for f v = Some v' \<Longrightarrow> kept v v'"
    by (auto simp: push_for_def bind_eq_Some_conv kept_updates split: if_splits)
qed

lemma kept_push_while: "push_while v = Some (b, v') \<Longrightarrow> kept v v'"
proof -
  have "kept v (v\<lparr>while_stack := w, while_stack_ptr := while_stack_ptr v + 1\<rparr>)"
    if "array_put (while_stack_ptr v) x (while_stack v) = Some w" "while_stack_ptr v < MAX_WHILE_STACK_DEPTH" for x w
    using that by (intro kept_tk) (auto simp: vm_inv_def stacks_ok_def array_put_length)
  then show "push_while v = Some (b, v') \<Longrightarrow> kept v v'"
    by (auto simp: push_while_def bind_eq_Some_conv kept_updates split: if_splits)
qed

lemma kept_push_select: "push_select r v = Some (b, v') \<Longrightarrow> kept v v'"
proof -
  have *: "kept v (v\<lparr>select_stack := w, select_stack_ptr := select_stack_ptr v + 1\<rparr>)"
    if "array_put (select_stack_ptr v) x (select_stack v) = Some w" "select_stack_ptr v < MAX_SELECT_STACK_DEPTH" for x w
    using that by (intro kept_tk) (auto simp: vm_inv_def stacks_ok_def array_put_length)
  show "push_select r v = Some (b, v') \<Longrightarrow> kept v v'"
    by (auto simp: push_select_def bind_eq_Some_conv kept_updates Let_def split: if_splits
        intro: * kept_trans [OF * kept_updates(1)])
qed

lemma kept_pops:
  "0 < gosub_stack_ptr v \<Longrightarrow> kept v (v\<lparr>gosub_stack_ptr := gosub_stack_ptr v - 1\<rparr>)"
  "0 < do_stack_ptr v \<Longrightarrow> kept v (v\<lparr>do_stack_ptr := do_stack_ptr v - 1\<rparr>)"
  "0 < for_stack_ptr v \<Longrightarrow> kept v (v\<lparr>for_stack_ptr := for_stack_ptr v - 1\<rparr>)"
  "0 < if_stack_ptr v \<Longrightarrow> kept v (v\<lparr>if_stack_ptr := if_stack_ptr v - 1\<rparr>)"
  "0 < while_stack_ptr v \<Longrightarrow> kept v (v\<lparr>while_stack_ptr := while_stack_ptr v - 1\<rparr>)"
  by (rule kept_tk, simp_all add: vm_inv_def stacks_ok_def)+

lemma kept_goto: "goto_statement r v = Some v' \<Longrightarrow> kept v v'"
  by (auto simp: goto_statement_def bind_eq_Some_conv kept_updates split: if_splits
      dest!: kept_steps kept_jump_string intro: kept_trans kept_trans [OF _ kept_updates(1)] kept_trans [OF kept_trans])

lemma kept_gosub:
  assumes "gosub_statement r v = Some v'"
  shows "kept v v'"
proof -
  obtain v1 where v1: "kept v v1" and r: "(if tok v1 = ''STRING'' then do {
       v2 \<leftarrow> read_string v1;
       v3 \<leftarrow> vm_next v2;
       v4 \<leftarrow> skip_until (\<lambda>t. t = ''CR'') v3;
       v5 \<leftarrow> accept ''CR'' v4;
       if gosub_stack_ptr v5 < MAX_GOSUB_STACK_DEPTH then do {
         g \<leftarrow> array_put (gosub_stack_ptr v5) (short (cur_line v5)) (gosub_stack v5);
         jump_string r (v5\<lparr>gosub_stack := g, gosub_stack_ptr := gosub_stack_ptr v5 + 1\<rparr>) }
       else Some (vm_fail UBASIC_E_GOSUB_STACK_EXHAUSTED v5) }
     else Some (vm_fail UBASIC_E_UNK_LABEL v1)) = Some v'"
    using assms by (auto simp: gosub_statement_def bind_eq_Some_conv dest: kept_steps)
  show ?thesis
  proof (cases "tok v1 = ''STRING''")
    case True
    with r obtain v2 v3 v4 v5 where s: "kept v1 v2" "kept v2 v3" "kept v3 v4" "kept v4 v5"
      and v': "(if gosub_stack_ptr v5 < MAX_GOSUB_STACK_DEPTH then do {
         g \<leftarrow> array_put (gosub_stack_ptr v5) (short (cur_line v5)) (gosub_stack v5);
         jump_string r (v5\<lparr>gosub_stack := g, gosub_stack_ptr := gosub_stack_ptr v5 + 1\<rparr>) }
       else Some (vm_fail UBASIC_E_GOSUB_STACK_EXHAUSTED v5)) = Some v'"
      by (auto simp: bind_eq_Some_conv dest!: kept_steps)
    have "kept v5 v'"
      using v' by (auto simp: bind_eq_Some_conv kept_updates split: if_splits
          dest!: kept_push_gosub kept_jump_string intro: kept_trans)
    with v1 s show ?thesis by (blast intro: kept_trans)
  qed (use r v1 in \<open>auto intro: kept_trans kept_updates\<close>)
qed

lemma kept_return: "return_statement v = Some v' \<Longrightarrow> kept v v'"
  by (auto simp: return_statement_def bind_eq_Some_conv split: if_splits dest!: kept_steps kept_jump_line kept_pops(1)
      intro: kept_trans kept_trans [OF _ kept_updates(1)])

lemma kept_rem: "rem_statement v = Some v' \<Longrightarrow> kept v v'"
  by (auto simp: rem_statement_def bind_eq_Some_conv dest!: kept_steps intro: kept_trans)

lemma kept_skip_rems:
  assumes "skip_rems v = Some v'"
  shows "kept v v'"
proof (rule skip_rems.raw_induct [where P = "\<lambda>v v'. kept v v'", OF _ assms])
  fix f v v'
  assume IH: "\<And>v v'. f v = Some v' \<Longrightarrow> kept v v'"
    and "(if tok v = ''REM'' then rem_statement v \<bind> f else Some v) = Some v'"
  then show "kept v v'"
    by (auto simp: bind_eq_Some_conv split: if_splits dest!: IH kept_rem intro: kept_trans)
qed

lemma kept_end: "end_statement v = Some v' \<Longrightarrow> kept v v'"
  by (auto simp: end_statement_def bind_eq_Some_conv dest!: kept_steps intro: kept_trans [OF _ kept_updates(3)])

lemma kept_do: "do_statement v = Some v' \<Longrightarrow> kept v v'"
  by (auto simp: do_statement_def bind_eq_Some_conv split: if_splits dest!: kept_steps kept_push_do
      intro: kept_trans kept_trans [OF _ kept_updates(1)] kept_trans [OF kept_trans kept_updates(1)])

lemma kept_wend: "wend_statement v = Some v' \<Longrightarrow> kept v v'"
  by (auto simp: wend_statement_def bind_eq_Some_conv split: if_splits dest!: kept_steps kept_jump_line
      intro: kept_trans kept_trans [OF _ kept_updates(1)])

lemma kept_endif: "endif_statement v = Some v' \<Longrightarrow> kept v v'"
proof -
  assume e: "endif_statement v = Some v'"
  show ?thesis
  proof (cases "if_stack_ptr v > 0")
    case True
    with e obtain v1 v2 where s: "accept ''ENDIF'' v = Some v1" "accept ''CR'' v1 = Some v2"
      "v' = v2\<lparr>if_stack_ptr := if_stack_ptr v2 - 1\<rparr>"
      by (auto simp: endif_statement_def bind_eq_Some_conv)
    have "if_stack_ptr v2 = if_stack_ptr v" using eats_trans [OF s(1,2) [THEN eats_accept]] by (auto simp: eats_def)
    with s True kept_pops(4) [of v2] show ?thesis by (auto dest!: kept_steps intro: kept_trans)
  qed (use e in \<open>auto simp: endif_statement_def kept_updates\<close>)
qed

lemma kept_end_select: "end_select_statement v = Some v' \<Longrightarrow> kept v v'"
  by (auto simp: end_select_statement_def bind_eq_Some_conv kept_updates split: if_splits dest!: kept_steps
      intro: kept_trans [OF kept_trans kept_updates(8)])

lemma kept_next:
  assumes "next_statement v = Some v'"
  shows "kept v v'"
proof -
  obtain v1 var v2 where s: "accept ''NEXT'' v = Some v1" "variable_arg v1 = Some (var, v2)"
    and r: "(if for_stack_ptr v2 > 0 then do {
       f \<leftarrow> array_get (for_stack v2) (for_stack_ptr v2 - 1);
       if var = for_variable f then
         (let value = ubasic_get_variable var v2 + for_step f;
              v3 = ubasic_set_variable var value v2
          in if 0 <s for_step f \<and> value \<le>s for_to f \<or> for_step f <s 0 \<and> for_to f \<le>s value
             then jump_line (line_after_for f) v3
             else accept ''CR'' (v3\<lparr>for_stack_ptr := for_stack_ptr v3 - 1\<rparr>))
       else Some (vm_fail UBASIC_E_UNMATCHED_NEXT v2) }
     else Some (vm_fail UBASIC_E_UNMATCHED_NEXT v2)) = Some v'"
    using assms by (auto simp: next_statement_def bind_eq_Some_conv)
  have p: "for_stack_ptr (ubasic_set_variable n x v2) = for_stack_ptr v2" for n x
    by (simp add: ubasic_set_variable_def)
  have "kept (ubasic_set_variable n x v2) ((ubasic_set_variable n x v2)\<lparr>for_stack_ptr := for_stack_ptr v2 - 1\<rparr>)"
    if "0 < for_stack_ptr v2" for n x
    using kept_pops(3) [of "ubasic_set_variable n x v2"] that by (simp add: p)
  then have "kept v2 v'"
    using r by (auto simp: Let_def bind_eq_Some_conv kept_updates p split: if_splits
        dest!: kept_jump_line kept_steps
        intro: kept_trans [OF kept_updates(2)] kept_trans [OF kept_trans [OF kept_updates(2)]])
  with s show ?thesis by (auto dest!: kept_steps intro: kept_trans)
qed

section \<open>Conditionals and selections\<close>

lemma bind_eq_SomeE:
  assumes "m \<bind> f = Some y" obtains x where "m = Some x" and "f x = Some y"
  using assms by (cases m) auto

lemma if_eq_Some:
  assumes "(if b then x else y) = Some z" and "b \<Longrightarrow> x = Some z \<Longrightarrow> P" and "\<not> b \<Longrightarrow> y = Some z \<Longrightarrow> P"
  shows P
  using assms by (cases b) simp_all

lemma kept_opt_next: "(if b then Some v else vm_next v) = Some v' \<Longrightarrow> kept v v'"
  by (auto split: if_splits dest: kept_steps)

lemma kept_opt_next': "(if b then vm_next v else Some v) = Some v' \<Longrightarrow> kept v v'"
  by (auto split: if_splits dest: kept_steps)

lemma kept_if_skip:
  assumes "if_skip ec nc sl v = Some r"
  shows "kept v (snd r)"
proof (rule if_skip.raw_induct [where P = "\<lambda>ec nc sl v r. kept v (snd r)", OF _ assms])
  fix f and ec nc :: int and sl v and r :: "bool \<times> ubasic_vm"
  let ?nt = "tok v = ''THEN''"
  let ?e1 = "if tok v = ''IF'' then ec + 1 else ec" and ?n1 = "if tok v = ''IF'' then nc + 1 else nc"
  assume IH: "\<And>ec nc sl v r. f ec nc sl v = Some r \<Longrightarrow> kept v (snd r)"
    and r: "(if tok v = ''ENDOFINPUT'' \<or> (tok v = ''ELSE'' \<or> tok v = ''ENDIF'') \<and> ec = 0 \<and> nc = 0
      then Some (False, v)
      else
        let e1 = ?e1; n1 = ?n1; s1 = (if tok v = ''IF'' then False else sl); nt = ?nt
        in do {
          v1 \<leftarrow> (if nt then vm_next v else Some v);
          let s2 = (s1 \<or> nt \<and> tok v1 \<noteq> ''CR'');
          let e2 = (if tok v1 = ''ELSE'' then e1 - 1 else e1);
          if tok v1 = ''ELSE'' \<and> e2 < 0 then Some (True, vm_fail UBASIC_E_UNMATCHED_IF v1)
          else if \<not> s2 \<and> tok v1 = ''ENDIF'' \<or> s2 \<and> tok v1 = ''CR'' then do {
            v2 \<leftarrow> (if nt then Some v1 else vm_next v1);
            f (fst (leave_if e2 n1)) (snd (leave_if e2 n1)) False v2 }
          else if tok v1 = ''ENDIF'' then Some (True, vm_fail UBASIC_E_PARSE v1)
          else do {
            v2 \<leftarrow> (if nt then Some v1 else vm_next v1);
            f e2 n1 s2 v2 } }) = Some r"
  show "kept v (snd r)"
  proof (cases "tok v = ''ENDOFINPUT'' \<or> (tok v = ''ELSE'' \<or> tok v = ''ENDIF'') \<and> ec = 0 \<and> nc = 0")
    case False
    obtain v1 e2 s2 where v1: "(if ?nt then vm_next v else Some v) = Some v1" and
      v2: "(if tok v1 = ''ELSE'' \<and> e2 < 0 then Some (True, vm_fail UBASIC_E_UNMATCHED_IF v1)
          else if \<not> s2 \<and> tok v1 = ''ENDIF'' \<or> s2 \<and> tok v1 = ''CR'' then do {
            v2 \<leftarrow> (if ?nt then Some v1 else vm_next v1);
            f (fst (leave_if e2 ?n1)) (snd (leave_if e2 ?n1)) False v2 }
          else if tok v1 = ''ENDIF'' then Some (True, vm_fail UBASIC_E_PARSE v1)
          else do {
            v2 \<leftarrow> (if ?nt then Some v1 else vm_next v1);
            f e2 ?n1 s2 v2 }) = Some r"
      using r unfolding Let_def if_not_P [OF False] by (elim bind_eq_SomeE) blast
    have go: "kept v1 (snd r)" if "(do { v2 \<leftarrow> (if ?nt then Some v1 else vm_next v1); f e n b v2 }) = Some r" for e n b
      using that by (auto elim!: bind_eq_SomeE dest!: IH kept_opt_next intro: kept_trans)
    have "kept v1 (snd r)"
      by (rule if_eq_Some [OF v2], force simp: kept_updates, rule if_eq_Some, assumption, erule go,
          rule if_eq_Some, assumption, force simp: kept_updates, erule go)
    with kept_opt_next' [OF v1] show ?thesis by (rule kept_trans)
  qed (use r in auto)
qed

lemma kept_else_then: "else_then nc v = Some (e, b, n, v') \<Longrightarrow> kept v v'"
  by (auto simp: else_then_def bind_eq_Some_conv split: if_splits dest!: kept_steps
      intro: kept_trans kept_trans [OF kept_trans kept_updates(1)])

lemma kept_else_skip:
  assumes "else_skip nc v = Some r"
  shows "kept v (snd r)"
proof (rule else_skip.raw_induct [where P = "\<lambda>nc v r. kept v (snd r)", OF _ assms])
  fix f and nc :: int and v and r :: "bool \<times> ubasic_vm"
  assume IH: "\<And>nc v r. f nc v = Some r \<Longrightarrow> kept v (snd r)"
    and "(if tok v = ''ENDOFINPUT'' \<or> tok v = ''ENDIF'' \<and> nc = 0 then Some (False, v)
      else do {
        (err, nt, n1, v1) \<leftarrow> else_then (if tok v = ''IF'' then nc + 1 else nc) v;
        if err then Some (True, v1)
        else do {
          v2 \<leftarrow> (if nt then Some v1 else vm_next v1);
          f (if tok v1 = ''ENDIF'' then n1 - 1 else n1) v2 } }) = Some r"
  then show "kept v (snd r)"
    by (auto elim!: if_eq_Some bind_eq_SomeE dest!: IH kept_else_then kept_opt_next intro: kept_trans kept_trans [OF kept_trans])
qed

lemma kept_else: "else_statement v = Some v' \<Longrightarrow> kept v v'"
proof -
  assume e: "else_statement v = Some v'"
  have "kept v v'" if "kept v u" "kept u w" "else_skip 0 w = Some (b, x)" "if b then Some x = Some v' else kept x v'"
    for u w b x
    using that kept_else_skip [OF that(3)] by (auto split: if_splits intro: kept_trans kept_trans [OF kept_trans])
  with e show ?thesis
    by (auto simp: else_statement_def bind_eq_Some_conv split: if_splits dest!: kept_steps kept_endif
        intro: kept_trans kept_trans [OF _ kept_updates(1)])
qed

lemma kept_multi_line_if:
  assumes "multi_line_if r v = Some v'"
  shows "kept v v'"
proof (cases "if_stack_ptr v < MAX_IF_STACK_DEPTH")
  case True
  with assms obtain st v1 where s: "array_put (if_stack_ptr v) (short (sint r)) (if_stack v) = Some st"
    "accept ''CR'' (v\<lparr>if_stack := st, if_stack_ptr := if_stack_ptr v + 1\<rparr>) = Some v1"
    and r: "(if r \<noteq> 0 then Some v1
        else do {
          (err, v2) \<leftarrow> if_skip 0 0 False v1;
          if err \<or> tok v2 = ''ELSE'' then Some v2 else endif_statement v2 }) = Some v'"
    by (auto simp: multi_line_if_def bind_eq_Some_conv)
  have "kept v1 v'"
    using r by (auto elim!: if_eq_Some bind_eq_SomeE dest!: kept_if_skip kept_endif intro: kept_trans)
  with kept_push_if [OF s(1) True] s(2) show ?thesis by (auto dest!: kept_steps intro: kept_trans)
qed (use assms in \<open>auto simp: multi_line_if_def kept_updates\<close>)

lemma kept_until_jump: "until_jump r v = Some v' \<Longrightarrow> kept v v'"
  by (auto simp: until_jump_def accept_cr_def bind_eq_Some_conv kept_updates split: if_splits
      dest!: kept_jump_line kept_steps kept_pops(2) intro: kept_trans kept_trans [OF kept_trans])

lemma kept_accept_cr: "accept_cr v = Some v' \<Longrightarrow> kept v v'"
  by (auto simp: accept_cr_def bind_eq_Some_conv dest!: kept_steps intro: kept_trans)

lemma kept_wend_skip:
  assumes "wend_skip c v = Some v'"
  shows "kept v v' \<and> while_stack_ptr v' = while_stack_ptr v"
proof (rule wend_skip.raw_induct [where P = "\<lambda>c v v'. kept v v' \<and> while_stack_ptr v' = while_stack_ptr v", OF _ assms])
  fix f and c :: int and v v'
  assume IH: "\<And>c v v'. f c v = Some v' \<Longrightarrow> kept v v' \<and> while_stack_ptr v' = while_stack_ptr v"
    and r: "(if (tok v \<noteq> ''WEND'' \<or> c \<noteq> 0) \<and> tok v \<noteq> ''ENDOFINPUT''
      then do {
        v1 \<leftarrow> vm_next v;
        f (if tok v = ''WHILE'' then c + 1 else if tok v = ''WEND'' then c - 1 else c) v1 }
      else Some v) = Some v'"
  have "while_stack_ptr v1 = while_stack_ptr v" if "vm_next v = Some v1" for v1
    using next_form [OF that] by auto
  with r show "kept v v' \<and> while_stack_ptr v' = while_stack_ptr v"
    by (auto elim!: if_eq_Some bind_eq_SomeE dest!: IH dest: kept_steps intro: kept_trans)
qed

lemma kept_while_branch: "while_branch r v = Some v' \<Longrightarrow> kept v v'"
proof -
  assume w: "while_branch r v = Some v'"
  have "kept v v'" if "wend_skip 0 v = Some v1" "0 < while_stack_ptr v"
    "accept ''WEND'' (v1\<lparr>while_stack_ptr := while_stack_ptr v1 - 1\<rparr>) = Some v2" "accept ''CR'' v2 = Some v'" for v1 v2
    using kept_wend_skip [OF that(1)] that kept_pops(5) [of v1] by (auto dest!: kept_steps intro: kept_trans)
  with w show ?thesis
    by (auto simp: while_branch_def bind_eq_Some_conv kept_updates split: if_splits dest: kept_accept_cr)
qed

lemma kept_set_case_run: "set_case_run v = Some v' \<Longrightarrow> kept v v'"
  by (auto simp: set_case_run_def bind_eq_Some_conv array_put_length vm_inv_def stacks_ok_def intro!: kept_tk)

lemma kept_case_gosub_jump: "case_gosub_jump b n v = Some v' \<Longrightarrow> kept v v'"
proof -
  have "kept v (v\<lparr>gosub_stack := g\<rparr>)" if "array_put i x (gosub_stack v) = Some g" for i x g
    using that by (auto simp: array_put_length vm_inv_def stacks_ok_def intro!: kept_tk)
  then show "case_gosub_jump b n v = Some v' \<Longrightarrow> kept v v'"
    by (auto simp: case_gosub_jump_def bind_eq_Some_conv split: if_splits dest!: kept_jump_line intro: kept_trans)
qed

lemma kept_after_case: "after_case gt gs ln v = Some v' \<Longrightarrow> kept v v'"
  by (auto simp: after_case_def kept_updates elim!: if_eq_Some bind_eq_SomeE
      dest!: kept_skip_rems kept_end_select kept_case_gosub_jump
      intro: kept_trans kept_trans [OF _ kept_updates(1)] kept_trans [OF kept_trans])

lemma kept_after_case_else: "after_case_else gt gs ln v = Some v' \<Longrightarrow> kept v v'"
  by (auto simp: after_case_else_def kept_updates elim!: if_eq_Some bind_eq_SomeE
      dest!: kept_skip_rems kept_end_select kept_case_gosub_jump
      intro: kept_trans kept_trans [OF _ kept_updates(1)] kept_trans [OF kept_trans])

end
