(* ===== verification/UbasicRun.thy ===== *)
theory UbasicRun
  imports UbasicCtl
begin

text \<open>
  Every statement, line and timeslice of the interpreter keeps the invariant \<open>vm_inv\<close> of \<open>UbasicCtl\<close>,
  for every implementation of the functions outside the model that leaves the interpreter alone (\<open>calls_ok\<close>).
\<close>

section \<open>Functions of the core\<close>

text \<open>None of them touches the interpreter.\<close>

lemma console_put_ub: "console_put i l s = Some s' \<Longrightarrow> ub s' = ub (s :: 'a ubasic_scheme)"
  by (auto simp: console_put_def split: if_splits)

lemma console_start_ub: "console_start_line s = Some s' \<Longrightarrow> ub s' = ub (s :: 'a ubasic_scheme)"
  by (auto simp: console_start_line_def Let_def split: if_splits dest!: console_put_ub)

lemma console_loop_ub:
  assumes "console_add_loop str (s :: 'a ubasic_scheme) = Some s'"
  shows "ub s' = ub s"
proof (rule console_add_loop.raw_induct [where P = "\<lambda>str (s :: 'a ubasic_scheme) s'. ub s' = ub s", OF _ assms])
  fix f str and s s' :: "'a ubasic_scheme"
  assume IH: "\<And>str s s'. f str s = Some s' \<Longrightarrow> ub s' = ub (s :: 'a ubasic_scheme)"
    and r: "(do {
       cur \<leftarrow> console_get (console_cur_line s) s;
       let left = console_line_length s - int (length cur);
       (if int (length str) > left mod 2 ^ 32
        then do {
          s1 \<leftarrow> console_put (console_cur_line s) (cur @ take (nat left) str) s;
          s2 \<leftarrow> console_start_line s1;
          f (drop (nat left) str) s2 }
        else console_put (console_cur_line s) (cur @ str) s) }) = Some s'"
  show "ub s' = ub s"
    using r unfolding Let_def by (elim bind_eq_SomeE if_eq_Some) (simp_all add: IH console_put_ub console_start_ub)
qed

lemma console_add_ub: "console_add_line str s = Some s' \<Longrightarrow> ub s' = ub (s :: 'a ubasic_scheme)"
  by (auto simp: console_add_line_def console_ensure_inited_def console_init_def
      elim!: if_eq_Some bind_eq_SomeE dest!: console_loop_ub console_start_ub)

lemma console_text_ub:
  "script_console_add_text str s = Some s' \<Longrightarrow> ub s' = ub s"
  "script_console_add_error l s = Some s' \<Longrightarrow> ub s' = ub (s :: 'a ubasic_scheme)"
  by (auto simp: script_console_add_text_def script_console_add_error_def script_console_add_line_def
      console_set_autoredraw_def ext_call_def Let_def elim!: bind_eq_SomeE dest!: console_add_ub)

lemma effects_ub [simp]:
  "ub (console_clear s) = ub s" "ub (console_redraw s) = ub s" "ub (console_set_autoredraw i s) = ub s"
  "ub (console_set_layout a b c d s) = ub s" "ub (ext_call x s) = ub s" "ub (script_set_terminate_key k n s) = ub s"
  "ub (enter_alt s) = ub s" "ub (exit_alt s) = ub s" "ub (set_autostart v s) = ub (s :: 'a ubasic_scheme)"
  by (simp_all add: console_clear_def console_redraw_def console_set_autoredraw_def console_set_layout_def
      ext_call_def script_set_terminate_key_def enter_alt_def exit_alt_def clear_usb_power_def gui_set_alt_mode_state_def
      set_autostart_def Let_def gui_set_need_restore_def case_prod_beta)

lemma print_screen_ub: "script_print_screen_statement v s = Some s' \<Longrightarrow> ub s' = ub (s :: 'a ubasic_scheme)"
  by (auto simp: script_print_screen_statement_def script_print_screen_end_def Let_def split: if_splits)

lemma push_key_ub:
  "action_push_press P M k s = Some s' \<Longrightarrow> ub s' = ub s"
  "action_push_release P M k s = Some s' \<Longrightarrow> ub s' = ub s"
  "action_push_click P M k s = Some s' \<Longrightarrow> ub s' = ub (s :: 'a ubasic_scheme)"
  by (auto simp: action_push_press_def action_push_release_def action_push_click_def elim!: bind_eq_SomeE
      dest!: push_delay_ub push_func_ub push_ub)

lemma push_shoot_ub: "action_push_shoot P M r s = Some s' \<Longrightarrow> ub s' = ub (s :: 'a ubasic_scheme)"
  by (auto simp: action_push_shoot_def Let_def elim!: bind_eq_SomeE dest!: push_key_ub push_func_ub push_ub)

lemma pop_ub: "action_pop s = Some (r, s') \<Longrightarrow> ub s' = ub (s :: 'a ubasic_scheme)"
  by (auto simp: action_pop_def upd_node_def Let_def split: option.splits if_splits)

lemma pops_ub: "action_pops n s = Some s' \<Longrightarrow> ub s' = ub (s :: 'a ubasic_scheme)"
  by (induction n arbitrary: s) (auto elim!: bind_eq_SomeE dest!: pop_ub)

lemma wait_action_ub: "action_stack_AS_UBASIC_WAIT_CLICK s = Some (r, s') \<Longrightarrow> ub s' = ub s"
  by (auto simp: action_stack_AS_UBASIC_WAIT_CLICK_def action_pop_func_def Let_def elim!: if_eq_Some bind_eq_SomeE
      dest!: pops_ub pop_ub split: if_splits)

lemma do_call_ub: "calls_ok E \<Longrightarrow> ub (do_call E f as s) = ub s"
  by (simp add: do_call_def call_ub(1))

lemma vm_do_kept: "vm_do f s = Some s' \<Longrightarrow> (\<And>v v'. f v = Some v' \<Longrightarrow> kept v v') \<Longrightarrow> kept (ub s) (ub s')"
  by (auto simp: vm_do_Some)

lemma vm_get_kept: "vm_get f s = Some (r, s') \<Longrightarrow> (\<And>v r v'. f v = Some (r, v') \<Longrightarrow> kept v v') \<Longrightarrow> kept (ub s) (ub s')"
  by (auto simp: vm_get_Some)

lemma do_steps:
  "vm_do (accept t) s = Some s' \<Longrightarrow> kept (ub s) (ub s')"
  "vm_do vm_next s = Some s' \<Longrightarrow> kept (ub s) (ub s')"
  "vm_do read_string s = Some s' \<Longrightarrow> kept (ub s) (ub s')"
  "vm_do accept_cr s = Some s' \<Longrightarrow> kept (ub s) (ub s')"
  "vm_do (skip_until p) s = Some s' \<Longrightarrow> kept (ub s) (ub s')"
  "vm_do (multi_line_if r) s = Some s' \<Longrightarrow> kept (ub s) (ub s')"
  "vm_do (push_for f) s = Some s' \<Longrightarrow> kept (ub s) (ub s')"
  "vm_do (until_jump r) s = Some s' \<Longrightarrow> kept (ub s) (ub s')"
  "vm_do (while_branch r) s = Some s' \<Longrightarrow> kept (ub s) (ub s')"
  "vm_do (jump_line n) s = Some s' \<Longrightarrow> kept (ub s) (ub s')"
  "vm_do set_case_run s = Some s' \<Longrightarrow> kept (ub s) (ub s')"
  "vm_do (after_case gt gs ln) s = Some s' \<Longrightarrow> kept (ub s) (ub s')"
  "vm_do (after_case_else gt gs ln) s = Some s' \<Longrightarrow> kept (ub s) (ub s')"
  "vm_do skip_rems s = Some s' \<Longrightarrow> kept (ub s) (ub s')"
  "vm_do rem_statement s = Some s' \<Longrightarrow> kept (ub s) (ub s')"
  "vm_do else_statement s = Some s' \<Longrightarrow> kept (ub s) (ub s')"
  "vm_do endif_statement s = Some s' \<Longrightarrow> kept (ub s) (ub s')"
  "vm_do (goto_statement i) s = Some s' \<Longrightarrow> kept (ub s) (ub s')"
  "vm_do (gosub_statement i) s = Some s' \<Longrightarrow> kept (ub s) (ub s')"
  "vm_do return_statement s = Some s' \<Longrightarrow> kept (ub s) (ub s')"
  "vm_do next_statement s = Some s' \<Longrightarrow> kept (ub s) (ub s')"
  "vm_do do_statement s = Some s' \<Longrightarrow> kept (ub s) (ub s')"
  "vm_do wend_statement s = Some s' \<Longrightarrow> kept (ub s) (ub s')"
  "vm_do end_statement s = Some s' \<Longrightarrow> kept (ub s) (ub s')"
  by (erule vm_do_kept, blast intro: kept_steps kept_accept_cr kept_multi_line_if kept_push_for kept_until_jump
      kept_while_branch kept_jump_line kept_set_case_run kept_after_case kept_after_case_else kept_skip_rems kept_rem
      kept_else kept_endif kept_goto kept_gosub kept_return kept_next kept_do kept_wend kept_end)+

lemma get_steps:
  "vm_get variable_arg s = Some (n, s') \<Longrightarrow> kept (ub s) (ub s')"
  "vm_get push_while s = Some (b, s') \<Longrightarrow> kept (ub s) (ub s')"
  "vm_get (push_select r) s = Some (b, s') \<Longrightarrow> kept (ub s) (ub s')"
  by (erule vm_get_kept, blast intro: kept_steps kept_push_while kept_push_select)+

lemma kept_key_arg: "ubasic_get_key_arg s = Some (k, s') \<Longrightarrow> kept (ub s) (ub s')"
  by (rule kept_eats, rule eats_key_arg)

text \<open>A predicate for the parts of statements.\<close>

definition keeper :: "('a ubasic_scheme \<Rightarrow> ('r \<times> 'a ubasic_scheme) option) \<Rightarrow> bool" where
  "keeper p \<longleftrightarrow> (\<forall>s r s'. p s = Some (r, s') \<longrightarrow> kept (ub s) (ub s'))"

definition stmt_keeper :: "('a ubasic_scheme \<Rightarrow> 'a ubasic_scheme option) \<Rightarrow> bool" where
  "stmt_keeper p \<longleftrightarrow> (\<forall>s s'. p s = Some s' \<longrightarrow> kept (ub s) (ub s'))"

lemma keeperD: "keeper p \<Longrightarrow> p s = Some (r, s') \<Longrightarrow> kept (ub s) (ub s')"
  by (auto simp: keeper_def)

lemma stmt_keeperD: "stmt_keeper p \<Longrightarrow> p s = Some s' \<Longrightarrow> kept (ub s) (ub s')"
  by (auto simp: stmt_keeper_def)

lemma keeper_expr: "calls_ok E \<Longrightarrow> keeper (expr E)" "calls_ok E \<Longrightarrow> keeper (relation E)"
  unfolding keeper_def by (blast intro: kept_eats eats_expr eats_relation)+

lemma keeper_exprs: "keeper p \<Longrightarrow> keeper (exprs p n)"
  unfolding keeper_def
proof (induction n)
  case (Suc n)
  then show ?case by (fastforce elim!: bind_eq_SomeE intro: kept_trans)
qed simp

lemma kept_expr:
  assumes "calls_ok E"
  shows "expr E s = Some (r, s') \<Longrightarrow> kept (ub s) (ub s')" and "relation E s = Some (r, s') \<Longrightarrow> kept (ub s) (ub s')"
    and "exprs (expr E) n s = Some (rs, s') \<Longrightarrow> kept (ub s) (ub s')"
  by (erule keeperD [OF keeper_expr(1) [OF assms]] keeperD [OF keeper_expr(2) [OF assms]]
      keeperD [OF keeper_exprs [OF keeper_expr(1) [OF assms]]])+

lemma kept_expr_sep:
  assumes ok: "calls_ok E"
  shows "expr_sep E s = Some (r, s') \<Longrightarrow> kept (ub s) (ub s')"
  unfolding expr_sep_def by (auto elim!: bind_eq_SomeE dest!: do_steps(2) kept_expr(1) [OF ok] intro: kept_trans)

lemma kept_opt_expr:
  assumes ok: "calls_ok E"
  shows "opt_expr E d s = Some (r, s') \<Longrightarrow> kept (ub s) (ub s')"
  unfolding opt_expr_def
  by (auto elim!: bind_eq_SomeE if_eq_Some dest!: do_steps(2) kept_expr(1) [OF ok] intro: kept_trans)

lemma kept_opt_exprs:
  assumes "calls_ok E"
  shows "opt_exprs E ds s = Some (rs, s') \<Longrightarrow> kept (ub s) (ub s')"
proof (induction ds arbitrary: s rs)
  case (Cons d ds)
  then show ?case by (auto elim!: bind_eq_SomeE dest!: kept_opt_expr [OF assms] Cons.IH intro: kept_trans)
qed simp

section \<open>Statements\<close>

lemma set_var_kept: "kept v (ubasic_set_variable n x v)" and yield_kept: "kept (ub s) (ub (yield s))"
  by (simp_all add: kept_updates yield_def)

text \<open>
  Each of the next proofs takes a statement apart into its steps; \<open>kept_chain\<close> lets simplification follow the
  invariant from step to step.
\<close>

lemma kept_chain: "(vm_inv v \<Longrightarrow> vm_inv v' \<and> program_ptr v' = program_ptr v) \<Longrightarrow> kept v v'"
  by (simp add: kept_def)

lemma keptD: "kept v v' \<Longrightarrow> vm_inv v \<Longrightarrow> vm_inv v' \<and> program_ptr v' = program_ptr v"
  by (simp add: kept_def)

lemma upd_inv [simp]:
  "vm_inv (vm_fail e v) = vm_inv v" "program_ptr (vm_fail e v) = program_ptr v"
  "vm_inv (ubasic_set_variable n x v) = vm_inv v" "program_ptr (ubasic_set_variable n x v) = program_ptr v"
  "vm_inv (v\<lparr>flag_yield := b\<rparr>) = vm_inv v" "vm_inv (v\<lparr>ubasic_as_ret_var_num := i\<rparr>) = vm_inv v"
  "vm_inv (v\<lparr>ubasic_error := e\<rparr>) = vm_inv v"
  "vm_inv (set_yield x y v) = vm_inv v" "program_ptr (set_yield x y v) = program_ptr v"
  "ub (yield s) = (ub s)\<lparr>flag_yield := True\<rparr>"
  by (simp_all add: vm_inv_def stacks_ok_def vm_fail_def ubasic_set_variable_def set_yield_def
      on_path_def yield_def)

lemma kept_let:
  assumes ok: "calls_ok E"
  shows "let_statement E s = Some s' \<Longrightarrow> kept (ub s) (ub s')"
  unfolding let_statement_def
  by (auto simp: kept_def elim!: bind_eq_SomeE dest!: do_steps kept_expr [OF ok])

lemma kept_for:
  assumes ok: "calls_ok E"
  shows "for_statement E s = Some s' \<Longrightarrow> kept (ub s) (ub s')"
  unfolding for_statement_def
  by (auto simp: kept_def elim!: bind_eq_SomeE if_eq_Some dest!: do_steps get_steps kept_expr [OF ok])

lemma kept_until:
  assumes ok: "calls_ok E"
  shows "until_statement E s = Some s' \<Longrightarrow> kept (ub s) (ub s')"
  unfolding until_statement_def
  by (auto simp: kept_def elim!: bind_eq_SomeE if_eq_Some dest!: do_steps get_steps kept_expr [OF ok])

lemma kept_while:
  assumes ok: "calls_ok E"
  shows "while_statement E s = Some s' \<Longrightarrow> kept (ub s) (ub s')"
  unfolding while_statement_def
  by (auto simp: kept_def elim!: bind_eq_SomeE if_eq_Some dest!: do_steps get_steps kept_expr [OF ok])

lemma kept_if:
  assumes ok: "calls_ok E" and st: "stmt_keeper stmt"
  shows "if_statement E stmt s = Some s' \<Longrightarrow> kept (ub s) (ub s')"
  unfolding if_statement_def
  by (auto simp: kept_def elim!: bind_eq_SomeE if_eq_Some dest!: do_steps get_steps kept_expr [OF ok] stmt_keeperD [OF st])

lemma kept_case_list:
  assumes ok: "calls_ok E" and "case_list E sel eq s = Some r"
  shows "kept (ub s) (ub (snd r))"
proof (rule case_list.raw_induct [where P = "\<lambda>E sel eq s r. calls_ok E \<longrightarrow> kept (ub s) (ub (snd r))", OF _ assms(2),
      THEN mp, OF _ ok])
  fix f E and sel :: u32 and eq and s :: "'a ubasic_scheme" and r :: "bool \<times> 'a ubasic_scheme"
  assume IH: "\<And>E sel eq s r. f E sel eq s = Some r \<Longrightarrow> calls_ok E \<longrightarrow> kept (ub s) (ub (snd r))"
    and r: "(if utok s = ''COMMA'' then do {
        s1 \<leftarrow> vm_do (accept ''COMMA'') s;
        (r, s2) \<leftarrow> expr E s1;
        f E sel (eq \<or> sel = r) s2 }
      else Some (eq, s)) = Some r"
  show "calls_ok E \<longrightarrow> kept (ub s) (ub (snd r))"
  proof
    assume ok: "calls_ok E"
    show "kept (ub s) (ub (snd r))"
      using r by (auto simp: kept_def elim!: bind_eq_SomeE if_eq_Some dest!: do_steps(1) kept_expr [OF ok]
          IH [THEN mp, OF _ ok])
  qed
qed

lemma kept_case_value:
  assumes ok: "calls_ok E"
  shows "case_value E sel s = Some (eq, s') \<Longrightarrow> kept (ub s) (ub s')"
  unfolding case_value_def
  by (auto simp: kept_def elim!: bind_eq_SomeE if_eq_Some dest!: do_steps(1) kept_expr [OF ok] kept_case_list [OF ok])

lemma kept_case_execute:
  assumes st: "stmt_keeper stmt"
  shows "case_execute stmt s = Some (gt, gs, ln, s') \<Longrightarrow> kept (ub s) (ub s')"
  unfolding case_execute_def Let_def
  by (auto simp: kept_def elim!: bind_eq_SomeE if_eq_Some dest!: do_steps(10) stmt_keeperD [OF st])

lemma kept_case:
  assumes ok: "calls_ok E" and st: "stmt_keeper stmt"
  shows "case_statement E stmt s = Some s' \<Longrightarrow> kept (ub s) (ub s')"
  unfolding case_statement_def
  by (auto simp: kept_def elim!: bind_eq_SomeE if_eq_Some dest!: do_steps kept_case_value [OF ok] kept_case_execute [OF st])

lemma kept_case_else_stmt:
  assumes st: "stmt_keeper stmt"
  shows "case_else_statement stmt s = Some s' \<Longrightarrow> kept (ub s) (ub s')"
  unfolding case_else_statement_def
  by (auto simp: kept_def elim!: bind_eq_SomeE if_eq_Some dest!: do_steps kept_case_execute [OF st])

lemma kept_select:
  assumes ok: "calls_ok E" and st: "stmt_keeper stmt"
  shows "select_statement E stmt s = Some s' \<Longrightarrow> kept (ub s) (ub s')"
  unfolding select_statement_def
  by (auto simp: kept_def elim!: bind_eq_SomeE if_eq_Some
      dest!: do_steps get_steps kept_expr [OF ok] kept_case [OF ok st])

text \<open>Output, keys, actions.\<close>

lemma kept_print_item:
  assumes ok: "calls_ok E"
  shows "print_item E buf s = Some (b, s') \<Longrightarrow> kept (ub s) (ub s')"
  unfolding print_item_def
  by (auto simp: kept_def elim!: bind_eq_SomeE if_eq_Some dest!: do_steps kept_expr [OF ok])

lemma kept_print_loop:
  assumes ok: "calls_ok E" and "print_loop E buf s = Some r"
  shows "kept (ub s) (ub (snd r))"
proof (rule print_loop.raw_induct [where P = "\<lambda>E buf s r. calls_ok E \<longrightarrow> kept (ub s) (ub (snd r))", OF _ assms(2),
      THEN mp, OF _ ok])
  fix f E buf and s :: "'a ubasic_scheme" and r :: "string \<times> 'a ubasic_scheme"
  assume IH: "\<And>E buf s r. f E buf s = Some r \<Longrightarrow> calls_ok E \<longrightarrow> kept (ub s) (ub (snd r))"
    and r: "(do {
     (b, s1) \<leftarrow> print_item E buf s;
     if length b \<ge> 128 then None
     else if utok s1 \<noteq> ''ELSE'' \<and> \<not> line_end (utok s1) then f E b s1
     else Some (b, s1) }) = Some r"
  show "calls_ok E \<longrightarrow> kept (ub s) (ub (snd r))"
  proof
    assume ok: "calls_ok E"
    show "kept (ub s) (ub (snd r))"
      using r by (auto simp: kept_def elim!: bind_eq_SomeE if_eq_Some dest!: kept_print_item [OF ok]
          IH [THEN mp, OF _ ok])
  qed
qed

lemma kept_print:
  assumes ok: "calls_ok E"
  shows "print_stmt E s = Some s' \<Longrightarrow> kept (ub s) (ub s')"
  unfolding print_stmt_def
  by (auto simp: kept_def elim!: bind_eq_SomeE dest!: do_steps kept_print_loop [OF ok] console_text_ub)

lemma kept_cls: "cls_statement s = Some s' \<Longrightarrow> kept (ub s) (ub s')"
  unfolding cls_statement_def by (auto simp: kept_def elim!: bind_eq_SomeE dest!: do_steps)

lemma kept_key:
  assumes push: "\<And>v s s'. push v s = Some s' \<Longrightarrow> ub s' = ub s"
  shows "key_statement t push s = Some s' \<Longrightarrow> kept (ub s) (ub s')"
  unfolding key_statement_def
  by (auto simp: kept_def elim!: bind_eq_SomeE if_eq_Some dest!: do_steps kept_key_arg push)

lemma kept_keys:
  "click_statement E s = Some s' \<Longrightarrow> kept (ub s) (ub s')"
  "press_statement E s = Some s' \<Longrightarrow> kept (ub s) (ub s')"
  "release_statement E s = Some s' \<Longrightarrow> kept (ub s) (ub s')"
  unfolding click_statement_def press_statement_def release_statement_def
  by (erule kept_key [rotated], blast intro: push_key_ub)+

lemma kept_sleep:
  assumes ok: "calls_ok E"
  shows "sleep_statement E s = Some s' \<Longrightarrow> kept (ub s) (ub s')"
  unfolding sleep_statement_def Let_def
  by (auto simp: kept_def elim!: bind_eq_SomeE if_eq_Some dest!: do_steps kept_expr [OF ok] push_ub push_func_ub)

lemma kept_shoot: "shoot_statement E s = Some s' \<Longrightarrow> kept (ub s) (ub s')"
  unfolding shoot_statement_def Let_def
  by (auto simp: kept_def elim!: bind_eq_SomeE if_eq_Some dest!: do_steps push_shoot_ub)

lemma kept_wait_click:
  assumes ok: "calls_ok E"
  shows "wait_click_statement E s = Some s' \<Longrightarrow> kept (ub s) (ub s')"
  unfolding wait_click_statement_def Let_def
  by (auto simp: kept_def elim!: bind_eq_SomeE if_eq_Some split: if_splits
      dest!: do_steps kept_expr [OF ok] push_ub push_func_ub wait_action_ub)

lemma kept_is_key: "is_key_statement s = Some s' \<Longrightarrow> kept (ub s) (ub s')"
  unfolding is_key_statement_def
  by (auto simp: kept_def elim!: bind_eq_SomeE dest!: do_steps get_steps kept_key_arg)

lemma kept_set_exit_key: "set_exit_key_statement s = Some s' \<Longrightarrow> kept (ub s) (ub s')"
  unfolding set_exit_key_statement_def Let_def
  by (auto simp: kept_def elim!: bind_eq_SomeE if_eq_Some split: if_splits dest!: do_steps)

text \<open>Statements with parameters.\<close>

lemma kept_param:
  assumes ok: "calls_ok E" and eff: "\<And>as s s'. eff as s = Some s' \<Longrightarrow> kept (ub s) (ub s')"
  shows "param_statement E t n eff s = Some s' \<Longrightarrow> kept (ub s) (ub s')"
  unfolding param_statement_def
  by (auto simp: kept_def elim!: bind_eq_SomeE dest!: do_steps kept_expr [OF ok] eff)

lemma one_param_ub:
  assumes ok: "calls_ok E" and "one_param E t = Some f" and "f v s = Some s'"
  shows "ub s' = ub s"
proof -
  note c = call_ub(1) [OF ok] do_call_ub [OF ok]
  have "ub s' = ub s" if "one_param_effect E t = Some f"
    using that assms(3) by (auto simp: one_param_effect_def c set_focus_def set_prop_of_def case_prod_beta Let_def
        elim!: if_eq_Some dest!: print_screen_ub split: if_splits)
  with assms(2,3) show ?thesis
    by (auto simp: one_param_def c override_call_def case_prod_beta split: option.splits)
qed

lemma more_params_kept:
  assumes ok: "calls_ok E" and "more_params E t = Some (n, f)"
  shows "kept (ub s) (ub (f as s))"
proof -
  note c = call_ub(1) [OF ok] do_call_ub [OF ok]
  show ?thesis
    using assms(2) unfolding more_params_def
    by (elim if_eq_Some; clarsimp?)
       (simp_all add: c set_config_value_def md_af_led_control_def case_prod_beta Let_def kept_updates)
qed

lemma get_var_ub:
  assumes ok: "calls_ok E" and "get_var_function E t = Some f"
  shows "ub (snd (f s)) = ub s"
  using assms(2) by (auto simp: get_var_function_def dof_value_def call_ub(1) [OF ok] split: option.splits)

lemma kept_set_led:
  assumes ok: "calls_ok E"
  shows "set_led_statement E s = Some s' \<Longrightarrow> kept (ub s) (ub s')"
  unfolding set_led_statement_def
  by (auto simp: kept_def elim!: bind_eq_SomeE if_eq_Some dest!: do_steps kept_expr [OF ok])

lemma kept_reboot:
  assumes ok: "calls_ok E"
  shows "reboot_statement E s = Some s' \<Longrightarrow> kept (ub s) (ub s')"
  unfolding reboot_statement_def
  by (auto simp: kept_def call_ub(3) [OF ok] elim!: bind_eq_SomeE if_eq_Some dest!: do_steps)

lemma kept_shut_down:
  assumes ok: "calls_ok E" and "shut_down_case E s = Some s'"
  shows "kept (ub s) (ub s')"
proof -
  obtain s1 s2 where s: "vm_do (accept ''SHUT_DOWN'') s = Some s1"
    "vm_do accept_cr (do_call E ''camera_shutdown_in_a_second'' [] s1) = Some s2"
    and p: "param_statement E ''SHUT_DOWN'' 1
       (\<lambda>as t. Some (do_call E (if 0 <s arg 0 as then ''TurnOnBackLight'' else ''TurnOffBackLight'') [] t)) s2 = Some s'"
    using assms(2) by (auto simp: shut_down_case_def elim!: bind_eq_SomeE)
  have "kept (ub s2) (ub s')"
    by (rule kept_param [OF ok _ p]) (auto simp: do_call_ub [OF ok])
  then show ?thesis using do_steps(1) [OF s(1)] do_steps(4) [OF s(2)] by (simp add: kept_def do_call_ub [OF ok])
qed

lemma kept_get_var:
  assumes f: "\<And>s. ub (snd (f s)) = ub s"
  shows "get_int_var_statement t f s = Some s' \<Longrightarrow> kept (ub s) (ub s')"
  unfolding get_int_var_statement_def
  by (auto simp: kept_def f case_prod_beta Let_def elim!: bind_eq_SomeE dest!: do_steps get_steps)

lemma kept_get_prop:
  assumes ok: "calls_ok E"
  shows "get_prop_statement E s = Some s' \<Longrightarrow> kept (ub s) (ub s')"
  unfolding get_prop_statement_def
  by (auto simp: kept_def call_ub(1) [OF ok] case_prod_beta Let_def elim!: bind_eq_SomeE
      dest!: do_steps get_steps kept_expr [OF ok])

lemma kept_get_config_value:
  assumes ok: "calls_ok E"
  shows "get_config_value_statement E s = Some s' \<Longrightarrow> kept (ub s) (ub s')"
proof -
  have c: "ub (snd (config_value E x y t)) = ub t" for x y and t :: "'a ubasic_scheme"
    by (simp add: config_value_def case_prod_beta call_ub(1) [OF ok])
  show "get_config_value_statement E s = Some s' \<Longrightarrow> kept (ub s) (ub s')"
    unfolding get_config_value_statement_def
    by (auto simp: kept_def c case_prod_beta Let_def elim!: bind_eq_SomeE
        dest!: do_steps get_steps kept_expr [OF ok])
qed

lemma kept_md_get_cell:
  assumes ok: "calls_ok E"
  shows "md_get_cell_statement E t f s = Some s' \<Longrightarrow> kept (ub s) (ub s')"
  unfolding md_get_cell_statement_def
  by (auto simp: kept_def call_ub(1) [OF ok] case_prod_beta Let_def elim!: bind_eq_SomeE
      dest!: do_steps get_steps kept_expr_sep [OF ok])

lemma kept_md_detect:
  assumes ok: "calls_ok E" and "md_detect_motion_statement E s = Some s'"
  shows "kept (ub s) (ub s')"
proof -
  obtain s1 as s2 var s3 bs s4 s5 where s: "vm_do (accept ''MD_DETECT_MOTION'') s = Some s1"
    "exprs (expr_sep E) 7 s1 = Some (as, s2)"
    "vm_do (accept ''VARIABLE'') (vm_upd (\<lambda>v. v\<lparr>ubasic_as_ret_var_num := var\<rparr>) s2) = Some s3"
    "opt_exprs E [0, 0, 0, 0, 0, 0, 1, 0] s3 = Some (bs, s4)" "vm_do accept_cr s4 = Some s5"
    "s' = yield (do_call E ''md_init_motion_detector'' (as @ bs) s5)"
    using assms(2) unfolding md_detect_motion_statement_def by (auto elim!: bind_eq_SomeE)
  have "keeper (expr_sep E)" using kept_expr_sep [OF ok] by (auto simp: keeper_def)
  from keeperD [OF keeper_exprs [OF this] s(2)] show ?thesis
    using do_steps(1) [OF s(1)] do_steps(1) [OF s(3)] kept_opt_exprs [OF ok s(4)] do_steps(4) [OF s(5)]
    by (simp add: kept_def s(6) do_call_ub [OF ok])
qed

section \<open>The dispatch, lines and timeslices\<close>

lemma kept_control:
  assumes ok: "calls_ok E" and st: "stmt_keeper stmt" and f: "control_statement E stmt t = Some f"
  shows "stmt_keeper f"
proof -
  have lt: "stmt_keeper (\<lambda>s. do { s1 \<leftarrow> vm_do (accept x) s; let_statement E s1 })" for x
    unfolding stmt_keeper_def
    by (auto elim!: bind_eq_SomeE dest!: do_steps(1) kept_let [OF ok] intro: kept_trans)
  note d = kept_if [OF ok st] kept_select [OF ok st] kept_case [OF ok st] kept_case_else_stmt [OF st] kept_for [OF ok]
    kept_until [OF ok] kept_while [OF ok] kept_let [OF ok] do_steps
  have s: "stmt_keeper (if_statement E stmt)" "stmt_keeper (vm_do else_statement)" "stmt_keeper (vm_do endif_statement)"
    "stmt_keeper (select_statement E stmt)" "stmt_keeper (case_statement E stmt)" "stmt_keeper (case_else_statement stmt)"
    "stmt_keeper (\<lambda>s. vm_do (goto_statement (state_kbd_script_run s)) s)"
    "stmt_keeper (\<lambda>s. vm_do (gosub_statement (state_kbd_script_run s)) s)"
    "stmt_keeper (vm_do return_statement)" "stmt_keeper (for_statement E)" "stmt_keeper (vm_do next_statement)"
    "stmt_keeper (vm_do do_statement)" "stmt_keeper (until_statement E)" "stmt_keeper (while_statement E)"
    "stmt_keeper (vm_do wend_statement)" "stmt_keeper (vm_do end_statement)" "stmt_keeper (let_statement E)"
    "stmt_keeper (vm_do rem_statement)"
    unfolding stmt_keeper_def by (blast dest: d)+
  show ?thesis
    using f unfolding control_statement_def by (elim if_eq_Some; clarsimp simp: s lt)
qed

lemma kept_io:
  assumes ok: "calls_ok E" and f: "io_statement E t = Some f"
  shows "stmt_keeper f"
proof -
  note d = kept_print [OF ok] kept_sleep [OF ok] kept_keys kept_shoot kept_cls kept_wait_click [OF ok] kept_is_key
    kept_set_exit_key kept_get_prop [OF ok] kept_get_config_value [OF ok] kept_set_led [OF ok] kept_reboot [OF ok]
    kept_shut_down [OF ok] kept_md_detect [OF ok] kept_md_get_cell [OF ok]
  have s: "stmt_keeper (print_stmt E)" "stmt_keeper (sleep_statement E)" "stmt_keeper (click_statement E)"
    "stmt_keeper (press_statement E)" "stmt_keeper (release_statement E)" "stmt_keeper (shoot_statement E)"
    "stmt_keeper cls_statement" "stmt_keeper (wait_click_statement E)" "stmt_keeper is_key_statement"
    "stmt_keeper set_exit_key_statement" "stmt_keeper (get_prop_statement E)" "stmt_keeper (get_config_value_statement E)"
    "stmt_keeper (set_led_statement E)" "stmt_keeper (reboot_statement E)" "stmt_keeper (shut_down_case E)"
    "stmt_keeper (md_detect_motion_statement E)" "stmt_keeper (md_get_cell_statement E x g)" for x g
    unfolding stmt_keeper_def by (blast dest: d)+
  show ?thesis
    using f unfolding io_statement_def by (elim if_eq_Some; clarsimp simp: s)
qed

lemma kept_param_case:
  assumes ok: "calls_ok E" and f: "param_case E t = Some f"
  shows "stmt_keeper f"
proof (cases "get_var_function E t")
  case (Some g)
  have "stmt_keeper (get_int_var_statement t g)"
    using kept_get_var [where f = g, OF get_var_ub [OF ok Some]] by (auto simp: stmt_keeper_def)
  with Some f show ?thesis by (auto simp: param_case_def)
next
  case n: None
  show ?thesis
  proof (cases "one_param E t")
    case (Some g)
    have "stmt_keeper (param_statement E t 1 (\<lambda>as. g (arg 0 as)))"
      unfolding stmt_keeper_def using kept_param [OF ok, of "\<lambda>as. g (arg 0 as)"] one_param_ub [OF ok Some] kept_refl by metis
    with n Some f show ?thesis by (auto simp: param_case_def)
  next
    case None
    with n f obtain k g where g: "more_params E t = Some (k, g)" "f = param_statement E t k (\<lambda>as s. Some (g as s))"
      by (auto simp: param_case_def split: option.splits)
    show ?thesis
      unfolding stmt_keeper_def g(2) using kept_param [OF ok, of "\<lambda>as s. Some (g as s)"] more_params_kept [OF ok g(1)] by blast
  qed
qed

lemma kept_statement_body:
  assumes ok: "calls_ok E" and st: "stmt_keeper stmt"
  shows "stmt_keeper (statement_body E stmt)"
  unfolding stmt_keeper_def
proof (intro allI impI)
  fix s s' assume "statement_body E stmt s = Some s'"
  then consider f where "control_statement E stmt (utok s) = Some f" "f s = Some s'"
    | f where "io_statement E (utok s) = Some f" "f s = Some s'"
    | f where "param_case E (utok s) = Some f" "f s = Some s'"
    | "s' = vm_upd (vm_fail UBASIC_E_UNK_STATEMENT) s"
    unfolding statement_body_def by (auto split: option.splits)
  then show "kept (ub s) (ub s')"
    by cases (auto dest: stmt_keeperD [OF kept_control [OF ok st]] stmt_keeperD [OF kept_io [OF ok]]
        stmt_keeperD [OF kept_param_case [OF ok]] simp: kept_updates)
qed

lemma kept_statement_n: "calls_ok E \<Longrightarrow> stmt_keeper (statement_n E n)"
proof (induction n)
  case (Suc n)
  from kept_statement_body [OF Suc.prems Suc.IH [OF Suc.prems]] show ?case by (simp add: stmt_keeper_def)
qed (simp add: stmt_keeper_def)

lemma kept_skip_labels: "skip_labels n s = Some (b, s') \<Longrightarrow> kept (ub s) (ub s')"
proof (induction n arbitrary: s)
  case (Suc n)
  from Suc.prems show ?case
    by (auto elim!: if_eq_Some bind_eq_SomeE dest!: do_steps Suc.IH intro: kept_trans kept_trans [OF kept_trans])
qed simp

lemma kept_line:
  assumes ok: "calls_ok E"
  shows "line_statement E s = Some s' \<Longrightarrow> kept (ub s) (ub s')"
  by (auto simp: line_statement_def statement_def elim!: if_eq_Some bind_eq_SomeE
      dest!: kept_skip_labels stmt_keeperD [OF kept_statement_n [OF ok]] intro: kept_trans)

lemma finish_ub: "finish_run s = Some (r, s') \<Longrightarrow> ub s' = ub s"
  by (auto simp: finish_run_def elim!: if_eq_Some bind_eq_SomeE dest!: console_text_ub)

lemma kept_run_loop:
  assumes ok: "calls_ok E" and "run_loop E st n ts s = Some r"
  shows "kept (ub s) (ub (snd r))"
proof (rule run_loop.raw_induct [where P = "\<lambda>E st n ts s r. calls_ok E \<longrightarrow> kept (ub s) (ub (snd r))", OF _ assms(2),
      THEN mp, OF _ ok])
  fix f E and st n :: u32 and ts and s :: "'a ubasic_scheme" and r :: "int \<times> 'a ubasic_scheme"
  assume IH: "\<And>E st n ts s r. f E st n ts s = Some r \<Longrightarrow> calls_ok E \<longrightarrow> kept (ub s) (ub (snd r))"
    and r: "(if program_over (ub s) then finish_run s
      else do {
        s1 \<leftarrow> line_statement E s;
        if flag_yield (ub s1) then Some (SCRIPT_RUN_RUNNING, s1)
        else
          let s2 = (case ts of t # _ \<Rightarrow> s1\<lparr>tick_count := t\<rparr> | [] \<Rightarrow> s1) in
          if n + 1 < yield_max_lines (ub s2) \<and> tick_count s2 - st < yield_max_ms (ub s2)
          then f E st (n + 1) (tl ts) s2
          else Some (SCRIPT_RUN_RUNNING, s2) }) = Some r"
  show "calls_ok E \<longrightarrow> kept (ub s) (ub (snd r))"
  proof
    assume ok: "calls_ok E"
    have t: "ub (case ts of t # _ \<Rightarrow> s1\<lparr>tick_count := t\<rparr> | [] \<Rightarrow> s1) = ub s1" for s1 :: "'a ubasic_scheme"
      by (cases ts) simp_all
    show "kept (ub s) (ub (snd r))"
      using r unfolding Let_def
      by (cases r) (auto simp: t elim!: bind_eq_SomeE if_eq_Some dest!: kept_line [OF ok] finish_ub
          IH [THEN mp, OF _ ok] intro: kept_trans)
  qed
qed

section \<open>The recursion of statements is bounded\<close>

text \<open>Two interpretations of the statement on the same line agree from \<open>u\<close> on.\<close>

definition agree_from :: "ubasic_vm \<Rightarrow> ('a ubasic_scheme \<Rightarrow> 'r option) \<Rightarrow> ('a ubasic_scheme \<Rightarrow> 'r option) \<Rightarrow> bool" where
  "agree_from u p p' \<longleftrightarrow> (\<forall>s. eats u (ub s) \<longrightarrow> p s = p' s)"

lemma agree_fromD: "agree_from u p p' \<Longrightarrow> eats u (ub s) \<Longrightarrow> p s = p' s"
  by (simp add: agree_from_def)

lemma agree_from_eats: "agree_from u p p' \<Longrightarrow> eats u v \<Longrightarrow> agree_from v p p'"
  unfolding agree_from_def by (blast intro: eats_trans)

lemma do_eats:
  "vm_do (accept t) s = Some s' \<Longrightarrow> eats (ub s) (ub s')" "vm_do vm_next s = Some s' \<Longrightarrow> eats (ub s) (ub s')"
  "vm_do (skip_until p) s = Some s' \<Longrightarrow> eats (ub s) (ub s')" "vm_do accept_cr s = Some s' \<Longrightarrow> eats (ub s) (ub s')"
  by (auto simp: vm_do_Some accept_cr_def bind_eq_Some_conv dest!: eats_accept eats_next eats_skip_until intro: eats_trans)

lemma agree_if:
  assumes ok: "calls_ok E" and s1: "vm_do (accept ''IF'') s = Some s1" and a: "agree_from (ub s1) stmt stmt'"
  shows "if_statement E stmt s = if_statement E stmt' s"
  unfolding if_statement_def s1
  by (auto intro!: Option.bind_cong agree_fromD [OF a] dest!: eats_relation [OF ok] do_eats) (blast intro: eats_trans)+

lemma agree_case_execute: "stmt s = stmt' s \<Longrightarrow> case_execute stmt s = case_execute stmt' s"
  by (simp add: case_execute_def)

lemma eats_case_list:
  assumes ok: "calls_ok E" and "case_list E sel eq s = Some r"
  shows "eats (ub s) (ub (snd r))"
proof (rule case_list.raw_induct [where P = "\<lambda>E sel eq s r. calls_ok E \<longrightarrow> eats (ub s) (ub (snd r))", OF _ assms(2),
      THEN mp, OF _ ok])
  fix f E and sel :: u32 and eq and s :: "'a ubasic_scheme" and r :: "bool \<times> 'a ubasic_scheme"
  assume IH: "\<And>E sel eq s r. f E sel eq s = Some r \<Longrightarrow> calls_ok E \<longrightarrow> eats (ub s) (ub (snd r))"
    and r: "(if utok s = ''COMMA'' then do {
        s1 \<leftarrow> vm_do (accept ''COMMA'') s;
        (r, s2) \<leftarrow> expr E s1;
        f E sel (eq \<or> sel = r) s2 }
      else Some (eq, s)) = Some r"
  show "calls_ok E \<longrightarrow> eats (ub s) (ub (snd r))"
  proof
    assume ok: "calls_ok E"
    show "eats (ub s) (ub (snd r))"
      using r by (auto elim!: bind_eq_SomeE if_eq_Some dest!: do_eats(1) eats_expr [OF ok] IH [THEN mp, OF _ ok]
          intro: eats_trans eats_trans [OF eats_trans])
  qed
qed

lemma eats_case_value:
  assumes ok: "calls_ok E" and v: "case_value E sel s = Some (eq, s')"
  shows "eats (ub s) (ub s')"
proof -
  obtain v1 s1 where s1: "expr E s = Some (v1, s1)"
    and r: "(if utok s1 = ''TO'' then do {
         s2 \<leftarrow> vm_do (accept ''TO'') s1;
         (v2, s3) \<leftarrow> expr E s2;
         Some (if v1 <s v2 then v1 \<le>s sel \<and> sel \<le>s v2 else v2 \<le>s sel \<and> sel \<le>s v1, s3) }
       else case_list E sel (sel = v1) s1) = Some (eq, s')"
    using v unfolding case_value_def by (auto elim!: bind_eq_SomeE)
  have "eats (ub s1) (ub s')"
    using r by (auto elim!: bind_eq_SomeE if_eq_Some dest!: do_eats(1) eats_expr [OF ok] eats_case_list [OF ok]
        intro: eats_trans)
  with eats_expr [OF ok s1] show ?thesis by (rule eats_trans)
qed

lemma agree_case:
  assumes ok: "calls_ok E" and a: "\<And>s1. vm_do (accept ''CASE'') s = Some s1 \<Longrightarrow> agree_from (ub s1) stmt stmt'"
  shows "case_statement E stmt s = case_statement E stmt' s"
proof (cases "vm_do (accept ''CASE'') s")
  case (Some s1)
  note a = agree_fromD [OF a [OF Some]]
  have x: "case_execute stmt t = case_execute stmt' t" if "eats (ub s1) (ub t)" for t
    by (rule agree_case_execute, rule a [OF that])
  show ?thesis
    unfolding case_statement_def Some
    by (auto intro!: Option.bind_cong if_cong x dest!: eats_case_value [OF ok] do_eats) (blast intro: eats_trans)+
qed (simp add: case_statement_def)

lemma agree_case_else:
  assumes s1: "vm_do (accept ''CASE_ELSE'') s = Some s1" and a: "agree_from (ub s1) stmt stmt'"
  shows "case_else_statement stmt s = case_else_statement stmt' s"
  unfolding case_else_statement_def s1
  by (auto intro!: Option.bind_cong if_cong agree_case_execute agree_fromD [OF a])

lemma agree_from_togo: "agree K p p' \<Longrightarrow> tk_ok u \<Longrightarrow> togo u \<le> K \<Longrightarrow> agree_from u p p'"
  unfolding agree_from_def agree_def using eats_togo by fastforce

lemma eats_skip_rems:
  assumes "skip_rems v = Some v'"
  shows "eats v v'"
proof (rule skip_rems.raw_induct [where P = "\<lambda>v v'. eats v v'", OF _ assms])
  fix f v v'
  assume IH: "\<And>v v'. f v = Some v' \<Longrightarrow> eats v v'"
    and "(if tok v = ''REM'' then rem_statement v \<bind> f else Some v) = Some v'"
  then show "eats v v'"
    by (auto simp: rem_statement_def elim!: bind_eq_SomeE if_eq_Some dest!: IH eats_accept
        intro: eats_trans eats_trans [OF eats_trans])
qed

lemma push_select_tk: "push_select r v = Some (b, v') \<Longrightarrow> tk v' = tk v \<and> program_ptr v' = program_ptr v"
  by (auto simp: push_select_def vm_fail_def Let_def elim!: bind_eq_SomeE if_eq_Some)

text \<open>A state after the first token of a statement, with less of the program to go.\<close>

lemma first_token:
  assumes "vm_do (accept t) s = Some s1" and "tk_ok (ub s)" and "utok s \<noteq> ''ENDOFINPUT''" and "togo (ub s) \<le> Suc K"
  shows "tk_ok (ub s1) \<and> togo (ub s1) \<le> K"
proof -
  obtain v where v: "accept t (ub s) = Some v" "s1 = s\<lparr>ub := v\<rparr>" using assms(1) by (auto simp: vm_do_Some)
  from accept_togo [OF v(1)] eats_togo [OF eats_accept [OF v(1)] assms(2)] assms(2-4) show ?thesis
    by (auto simp: v(2) utok_def)
qed

lemma agree_select:
  assumes ok: "calls_ok E" and s1: "vm_do (accept ''SELECT'') s = Some s1"
    and t: "tk_ok (ub s1) \<and> togo (ub s1) \<le> K" and a: "agree K stmt stmt'"
  shows "select_statement E stmt s = select_statement E stmt' s"
proof -
  have "case_statement E stmt s5 = case_statement E stmt' s5"
    if "expr E s1 = Some (r, s2)" "vm_do (accept ''CR'') s2 = Some s3" "vm_do skip_rems s3 = Some s4"
      "vm_get (push_select r) s4 = Some (b, s5)" for r s2 s3 s4 b s5
  proof (rule agree_case [OF ok])
    fix s6 assume s6: "vm_do (accept ''CASE'') s5 = Some s6"
    have "eats (ub s1) (ub s2)" using eats_expr [OF ok that(1)] .
    also have "eats (ub s2) (ub s3)" using do_eats(1) [OF that(2)] .
    also have "eats (ub s3) (ub s4)" using that(3) eats_skip_rems by (auto simp: vm_do_Some)
    finally have "tk_ok (ub s4) \<and> togo (ub s4) \<le> K" using eats_togo t by fastforce
    then have "tk_ok (ub s5) \<and> togo (ub s5) \<le> K"
      using that(4) push_select_tk tk_ok_cong [of "ub s5" "ub s4"] by (auto simp: vm_get_Some)
    then have "tk_ok (ub s6) \<and> togo (ub s6) \<le> K" using eats_togo [OF do_eats(1) [OF s6]] by simp
    with agree_from_togo [OF a] show "agree_from (ub s6) stmt stmt'" by simp
  qed
  then show ?thesis
    unfolding select_statement_def s1 by (auto intro!: Option.bind_cong if_cong)
qed

lemma agree_statement_body:
  assumes ok: "calls_ok E" and a: "agree K stmt stmt'" and s: "tk_ok (ub s)" "togo (ub s) \<le> Suc K"
  shows "statement_body E stmt s = statement_body E stmt' s"
proof -
  have e: "if_statement E stmt s = if_statement E stmt' s" if t: "utok s = ''IF''"
  proof (cases "vm_do (accept ''IF'') s")
    case (Some s1)
    with first_token [OF Some s(1) _ s(2)] t agree_if [OF ok Some agree_from_togo [OF a]] show ?thesis by simp
  qed (simp add: if_statement_def)
  have e1: "select_statement E stmt s = select_statement E stmt' s" if t: "utok s = ''SELECT''"
  proof (cases "vm_do (accept ''SELECT'') s")
    case (Some s1)
    with first_token [OF Some s(1) _ s(2)] t agree_select [OF ok Some _ a] show ?thesis by simp
  qed (simp add: select_statement_def)
  have e2: "case_statement E stmt s = case_statement E stmt' s" if t: "utok s = ''CASE''"
    using first_token [OF _ s(1) _ s(2)] t agree_from_togo [OF a] by (intro agree_case [OF ok]) auto
  have e3: "case_else_statement stmt s = case_else_statement stmt' s" if t: "utok s = ''CASE_ELSE''"
  proof (cases "vm_do (accept ''CASE_ELSE'') s")
    case (Some s1)
    with first_token [OF Some s(1) _ s(2)] t agree_case_else [OF Some agree_from_togo [OF a]] show ?thesis by simp
  qed (simp add: case_else_statement_def)
  have "rel_option (\<lambda>f f'. f s = f' s) (control_statement E stmt (utok s)) (control_statement E stmt' (utok s))"
    unfolding control_statement_def using e e1 e2 e3 by simp
  then show ?thesis unfolding statement_body_def by (auto elim!: option.rel_cases)
qed

lemma agree_statement:
  assumes ok: "calls_ok E" and "K < n" and "K < m"
  shows "agree K (statement_n E n) (statement_n E m)"
  using assms(2,3)
proof (induction K arbitrary: n m)
  case 0
  then obtain n' m' where nm: "n = Suc n'" "m = Suc m'" by (metis gr0_implies_Suc)
  have "statement_body E p s = statement_body E q s" if "utok s = ''ENDOFINPUT''" for p q and s :: "'a ubasic_scheme"
    using that by (simp add: statement_body_def control_statement_def)
  then show ?case by (auto simp: agree_def nm togo_def utok_def split: if_splits)
next
  case (Suc K)
  then obtain n' m' where nm: "n = Suc n'" "m = Suc m'" "K < n'" "K < m'" by (cases n; cases m) auto
  show ?case
    unfolding agree_def nm(1,2) using agree_statement_body [OF ok Suc.IH [OF nm(3,4)]] by simp
qed

lemma statement_enough:
  assumes "calls_ok E" and "tk_ok (ub s)" and "ub_fuel s \<le> n"
  shows "statement E s = statement_n E n s"
proof -
  have "agree (Suc (length (program_ptr (ub s)))) (statement_n E (ub_fuel s)) (statement_n E n)"
    using assms(3) by (intro agree_statement [OF assms(1)]) (simp_all add: ub_fuel_def)
  from agreeD [OF this assms(2)] show ?thesis by (simp add: statement_def togo_def)
qed

section \<open>The life of a program\<close>

lemma kept_restore: "ubasic_run_restore s = Some (r, s') \<Longrightarrow> kept (ub s) (ub s')"
  by (auto simp: ubasic_run_restore_def vm_get_Some dest: kept_jump_label)

lemma kept_set_script_variable: "set_script_variable n i s = Some s' \<Longrightarrow> kept (ub s) (ub s')"
  by (auto simp: set_script_variable_def kept_updates split: list.splits)

text \<open>
  What happens to a program: it is loaded, runs in timeslices, is interrupted and goes on at the label \<open>restore\<close>,
  gets variables and results from outside, and in between the rest of the firmware runs.
\<close>

inductive ubasic_life :: "('a ubasic_scheme) ubasic_env \<Rightarrow> string \<Rightarrow> 'a ubasic_scheme \<Rightarrow> bool" for E prog where
  load: "arrays_ok (ub s) \<Longrightarrow> ue_load_file E f = Some prog \<Longrightarrow> ubasic_init_file E f s = Some (1, s') \<Longrightarrow>
    ubasic_life E prog s'"
| slice: "ubasic_life E prog s \<Longrightarrow> ubasic_run E ticks s = Some (r, s') \<Longrightarrow> ubasic_life E prog s'"
| restore: "ubasic_life E prog s \<Longrightarrow> ubasic_run_restore s = Some (r, s') \<Longrightarrow> ubasic_life E prog s'"
| variable: "ubasic_life E prog s \<Longrightarrow> set_script_variable n i s = Some s' \<Longrightarrow> ubasic_life E prog s'"
| as_result: "ubasic_life E prog s \<Longrightarrow> ubasic_life E prog (vm_upd (ubasic_set_as_ret r) s)"
| elsewhere: "ubasic_life E prog s \<Longrightarrow> ub t = ub s \<Longrightarrow> ubasic_life E prog t"


text \<open>What \<open>core/script.c\<close> relies on: resetting the module succeeds and changes nothing of the script's state.\<close>

lemma libubasic_reset_ok: "reset_ok (libubasic E)"
proof -
  have "\<exists>c. Some s = Some (s\<lparr>ext_calls := c\<rparr>)" for s :: "'a ubasic_scheme"
    by (rule exI [of _ "ext_calls s"]) simp
  then show ?thesis by (simp add: reset_ok_def libubasic_def)
qed

definition loop_program :: string where
  "loop_program = program_text [''for i=1 to 3'', ''a=a+i'', ''next i'', ''end'']"

lemma loop_program_text: "c_text loop_program"
  by (simp add: loop_program_def c_text_def)




end
