(* ===== verification/UbasicJump.thy ===== *)
theory UbasicJump
  imports UbasicCtl
begin

text \<open>
  Where jumps go. The interpreter finds a line by reading the program again from its start, until the line number of
  the tokenizer is the one it looks for; the first token with that number is the end of the line before. What a
  loop or a subroutine call remembers is such a number.
\<close>

section \<open>Line numbers\<close>

lemma skip_lines_line:
  "skip_lines prog p l = (q, m) \<Longrightarrow> l \<le> m \<and> (p < length prog \<and> singlechar (prog ! p) = ''CR'' \<longrightarrow> l < m)"
proof (induction prog p l arbitrary: q m rule: skip_lines.induct)
  case (1 prog p l)
  show ?case
  proof (cases "p < length prog \<and> singlechar (prog ! p) = ''CR''")
    case True
    with 1(2) have "skip_lines prog (skip_while is_blank prog (p + 1)) (l + 1) = (q, m)"
      by (subst (asm) skip_lines.simps) simp
    from 1(1) [OF True this] show ?thesis by simp
  qed (use 1(2) in \<open>subst (asm) skip_lines.simps, auto\<close>)
qed

text \<open>Only the end of a line changes the number, and it always does.\<close>

lemma token_at_line:
  assumes "token_at prog c s = Some (t, s')" and "tk_ptr s < length prog" and "c = prog ! tk_ptr s"
  shows "if t = ''CR'' then current_line s < current_line s' else current_line s' = current_line s"
proof (cases "t = ''CR''")
  case True
  then have c: "singlechar c = ''CR''" using token_at_CR assms(1) by simp
  then have "c = CHR 0x0A" by (simp add: singlechar_def split: if_splits)
  moreover obtain q m where q: "skip_lines prog (tk_ptr s) (current_line s) = (q, m)" by fastforce
  ultimately have "current_line s' = m" using assms(1) c by (auto simp: token_at_def Let_def isdigit_def)
  with skip_lines_line [OF q] c assms(2,3) True show ?thesis by simp
next
  case False
  then show ?thesis
    using assms(1)
    by (auto simp: token_at_def word_at_def Let_def bind_eq_Some_conv split: if_splits option.splits prod.splits)
qed

lemma get_next_line:
  assumes "get_next_token prog s = Some (t, s')"
  shows "if t = ''CR'' then current_line s < current_line s' else current_line s' = current_line s"
proof -
  let ?p = "skip_while is_blank prog (tk_ptr s)"
  let ?s = "s\<lparr>tk_ptr := ?p\<rparr>"
  obtain c where c: "char_at prog ?p = Some c" "(if c = CHR 0x00 then Some (''ENDOFINPUT'', ?s) else token_at prog c ?s) = Some (t, s')"
    using assms by (auto simp: get_next_token_def Let_def bind_eq_Some_conv)
  show ?thesis
  proof (cases "c = CHR 0x00")
    case False
    then have "?p < length prog" "c = prog ! ?p" using c(1) by (auto simp: char_at_def split: if_splits)
    with token_at_line [of prog c ?s t s'] c(2) False show ?thesis by (auto split: if_splits)
  qed (use c in auto)
qed

lemma next_line:
  assumes "tokenizer_next prog s = Some s'" and "\<not> tokenizer_finished prog s"
  shows "if current_token s' = ''CR'' then current_line s < current_line s' else current_line s' = current_line s"
proof -
  obtain t s1 p where "get_next_token prog (s\<lparr>tk_ptr := p\<rparr>) = Some (t, s1)" "s' = s1\<lparr>current_token := t\<rparr>"
    using assms by (auto simp: tokenizer_next_def Let_def bind_eq_Some_conv)
  with get_next_line [OF this(1)] show ?thesis by (auto split: if_splits)
qed

lemma next_line_mono: "tokenizer_next prog s = Some s' \<Longrightarrow> current_line s \<le> current_line s'"
  using next_line [of prog s s'] by (cases "tokenizer_finished prog s") (auto simp: tokenizer_next_def split: if_splits)

lemma run_line_mono: "token_run prog n s = Some s' \<Longrightarrow> current_line s \<le> current_line s'"
proof (induction n arbitrary: s)
  case (Suc n)
  then show ?case by (fastforce elim!: bind_eq_SomeE dest!: next_line_mono intro: order_trans)
qed simp

section \<open>The start of a program\<close>

text \<open>
  The state of the tokenizer before does not matter, except for what it leaves alone when the text has no token.
\<close>

lemma get_next_token_indep:
  assumes "get_next_token prog s = Some (t, s')" and "t \<noteq> ''ENDOFINPUT''"
    and "tk_ptr r = tk_ptr s" and "current_line r = current_line s"
  shows "\<exists>x. get_next_token prog r = Some (t, s'\<lparr>current_token := x\<rparr>)"
proof -
  let ?p = "skip_while is_blank prog (tk_ptr s)"
  let ?s = "s\<lparr>tk_ptr := ?p\<rparr>" and ?r = "r\<lparr>tk_ptr := ?p\<rparr>"
  obtain c where c: "char_at prog ?p = Some c" "c \<noteq> CHR 0x00" "token_at prog c ?s = Some (t, s')"
    using assms(1,2) by (auto simp: get_next_token_def Let_def bind_eq_Some_conv split: if_splits)
  have eq: "?r\<lparr>tk_nextptr := n\<rparr> = ?s\<lparr>tk_nextptr := n, current_token := current_token r\<rparr>" for n
    using assms(3,4) by simp
  have "\<exists>x. token_at prog c ?r = Some (t, s'\<lparr>current_token := x\<rparr>)"
    using c(3) eq
    by (auto simp: token_at_def word_at_def Let_def bind_eq_Some_conv assms(4) intro!: exI [of _ "current_token r"]
        split: if_splits option.splits prod.splits)
  with c assms(3) show ?thesis by (simp add: get_next_token_def Let_def)
qed

lemma init_indep:
  assumes "tokenizer_init prog s = Some i" and "current_token i \<noteq> ''ENDOFINPUT''" and "c_text prog"
  shows "tokenizer_init prog r = Some i"
proof -
  obtain t u where g: "get_next_token prog (s\<lparr>tk_ptr := 0, current_line := 1\<rparr>) = Some (t, u)"
    and i: "(let s1 = u\<lparr>current_token := t\<rparr> in
      if t = ''CR'' \<and> \<not> tokenizer_finished prog s1 then tokenizer_next prog s1 else Some s1) = Some i"
    using assms(1) unfolding tokenizer_init_once [OF assms(3)] by (auto simp: bind_eq_Some_conv)
  have "t \<noteq> ''ENDOFINPUT''" using i assms(2) by (auto simp: Let_def split: if_splits)
  from get_next_token_indep [OF g this, of "r\<lparr>tk_ptr := 0, current_line := 1\<rparr>"]
  obtain x where x: "get_next_token prog (r\<lparr>tk_ptr := 0, current_line := 1\<rparr>) = Some (t, u\<lparr>current_token := x\<rparr>)" by auto
  from i show ?thesis unfolding tokenizer_init_once [OF assms(3)] x by simp
qed

lemma init_not_cr:
  assumes "tokenizer_init prog s = Some i" and "c_text prog"
  shows "current_token i \<noteq> ''CR''"
proof -
  obtain t u where g: "get_next_token prog (s\<lparr>tk_ptr := 0, current_line := 1\<rparr>) = Some (t, u)"
    and i: "(let s1 = u\<lparr>current_token := t\<rparr> in
      if t = ''CR'' \<and> \<not> tokenizer_finished prog s1 then tokenizer_next prog s1 else Some s1) = Some i"
    using assms(1) unfolding tokenizer_init_once [OF assms(2)] by (auto simp: bind_eq_Some_conv)
  note a = get_next_token_advances [OF g _ assms(2)]
  show ?thesis
  proof (cases "t = ''CR''")
    case True
    let ?s = "u\<lparr>current_token := t\<rparr>"
    have b: "tk_ptr ?s < tk_nextptr ?s" "tk_nextptr ?s \<le> length prog"
      "tk_nextptr ?s < length prog \<longrightarrow> singlechar (prog ! tk_nextptr ?s) \<noteq> ''CR'' \<and> \<not> is_blank (prog ! tk_nextptr ?s)"
      using a True by auto
    then have "char_at prog (tk_ptr ?s) = Some (prog ! tk_ptr ?s)" "prog ! tk_ptr ?s \<noteq> CHR 0x00"
      using assms(2) by (auto simp: char_at_def c_text_def in_set_conv_nth)
    then have f: "\<not> tokenizer_finished prog ?s" using True by (simp add: tokenizer_finished_def)
    then have "tokenizer_next prog ?s = Some i" using i True by (simp add: Let_def)
    from after_cr [OF this f b(2) assms(2) b(3)] show ?thesis .
  qed (use i in auto)
qed

section \<open>The line a jump comes to\<close>

text \<open>\<open>t\<close> is the first token after the line end \<open>c\<close>, and \<open>n\<close> the number the line end has.\<close>

definition line_start :: "string \<Rightarrow> int \<Rightarrow> tokenizer \<Rightarrow> bool" where
  "line_start prog n t \<longleftrightarrow> (\<exists>s i k c. tokenizer_init prog s = Some i \<and> token_run prog k i = Some c \<and>
     current_token c = ''CR'' \<and> current_line c = n \<and> tokenizer_next prog c = Some t)"

lemma cur_line_tk: "cur_line v = current_line (tk v)"
  by (simp add: cur_line_def tokenizer_line_number_def)

lemma tk_ok_step:
  assumes "tokenizer_next (program_ptr v) (tk v) = Some t" and "tk_ok v"
  shows "tk_ok (v\<lparr>tk := t\<rparr>) \<and> (tok v = ''ENDOFINPUT'' \<longrightarrow> t = tk v)"
proof -
  have "vm_next v = Some (v\<lparr>tk := t\<rparr>)" using assms(1) by (simp add: vm_next_def)
  from next_ok [OF this assms(2)] have "tk_ok (v\<lparr>tk := t\<rparr>)" "tok v = ''ENDOFINPUT'' \<Longrightarrow> v\<lparr>tk := t\<rparr> = v" by auto
  moreover have "v\<lparr>tk := t\<rparr> = v \<Longrightarrow> t = tk v" by (metis ubasic_vm.select_convs(2) ubasic_vm.surjective ubasic_vm.update_convs(2))
  ultimately show ?thesis by blast
qed

lemma run_to_cr_line:
  assumes "token_run (program_ptr v) (Suc k) (tk v) = Some c" and "current_token c = ''CR''" and "tk_ok v"
    and "tok v \<noteq> ''ENDOFINPUT''"
  shows "cur_line v < current_line c"
  using assms
proof (induction k arbitrary: v)
  case 0
  then have "tokenizer_next (program_ptr v) (tk v) = Some c" by (auto elim!: bind_eq_SomeE)
  with next_line [OF this] tk_ok_finished [OF 0(3)] 0(2,4) show ?case by (simp add: cur_line_tk)
next
  case (Suc k)
  then obtain t where t: "tokenizer_next (program_ptr v) (tk v) = Some t"
    "token_run (program_ptr v) (Suc k) t = Some c" by (auto elim!: bind_eq_SomeE)
  let ?w = "v\<lparr>tk := t\<rparr>"
  have ok: "tk_ok ?w" using tk_ok_step [OF t(1) Suc.prems(3)] by simp
  have "tok ?w \<noteq> ''ENDOFINPUT''"
  proof
    assume "tok ?w = ''ENDOFINPUT''"
    then have "tokenizer_finished (program_ptr v) t" by (simp add: tokenizer_finished_def tok_def)
    with t(2) finished_stays have "c = t" by (metis option.inject)
    with Suc.prems(2) \<open>tok ?w = ''ENDOFINPUT''\<close> show False by (simp add: tok_def)
  qed
  with Suc.IH [of ?w] t(2) ok Suc.prems(2) have "current_line t < current_line c" by (simp add: cur_line_tk)
  with next_line_mono [OF t(1)] show ?case by (simp add: cur_line_tk)
qed

lemma run_not_over:
  assumes "token_run prog k i = Some c" and "current_token c \<noteq> ''ENDOFINPUT''"
  shows "current_token i \<noteq> ''ENDOFINPUT''"
  using assms finished_stays [of prog i k] by (auto simp: tokenizer_finished_def)

lemma find_line_run:
  assumes "token_run (program_ptr v) k (tk v) = Some c" and "current_token c = ''CR''" and "tk_ok v"
  shows "find_line (current_line c) v = Some (v\<lparr>tk := c\<rparr>)"
  using assms
proof (induction k arbitrary: v)
  case 0
  then show ?case by (subst find_line.simps) (auto simp: cur_line_tk)
next
  case (Suc k)
  have e: "tok v \<noteq> ''ENDOFINPUT''" using run_not_over [OF Suc.prems(1)] Suc.prems(2) by (simp add: tok_def)
  obtain t where t: "tokenizer_next (program_ptr v) (tk v) = Some t" "token_run (program_ptr v) k t = Some c"
    using Suc.prems(1) by (auto elim!: bind_eq_SomeE)
  have "cur_line v \<noteq> current_line c" using run_to_cr_line [OF Suc.prems e] by simp
  moreover have "find_line (current_line c) (v\<lparr>tk := t\<rparr>) = Some (v\<lparr>tk := c\<rparr>)"
    using Suc.IH [of "v\<lparr>tk := t\<rparr>"] t(2) Suc.prems(2) tk_ok_step [OF t(1) Suc.prems(3)] by simp
  ultimately show ?case using t(1) by (subst find_line.simps) (simp add: vm_next_def)
qed

lemma jump_to_start:
  assumes "c_text (program_ptr v)" and "line_start (program_ptr v) n t"
  shows "jump_line n v = Some (v\<lparr>tk := t\<rparr>)"
proof -
  let ?prog = "program_ptr v"
  obtain s i k c where i: "tokenizer_init ?prog s = Some i" and c: "token_run ?prog k i = Some c"
    "current_token c = ''CR''" "current_line c = n" "tokenizer_next ?prog c = Some t"
    using assms(2) by (auto simp: line_start_def)
  have "current_token i \<noteq> ''ENDOFINPUT''" using run_not_over [OF c(1)] c(2) by simp
  with init_indep [OF i _ assms(1)] have r: "restart v = Some (v\<lparr>tk := i\<rparr>)" by (simp add: restart_def)
  have "tk_ok (v\<lparr>tk := i\<rparr>)" by (rule init_tk_ok [OF i assms(1)]) simp_all
  with find_line_run [of "v\<lparr>tk := i\<rparr>" k c] c have "find_line n (v\<lparr>tk := i\<rparr>) = Some (v\<lparr>tk := c\<rparr>)" by simp
  with r c(2,4) show ?thesis by (simp add: jump_line_def accept_def tok_def vm_next_def)
qed

lemma run_last: "token_run prog (Suc k) i = Some c \<Longrightarrow> \<exists>b. token_run prog k i = Some b \<and> tokenizer_next prog b = Some c"
  by (induction k arbitrary: i) (auto elim!: bind_eq_SomeE)

lemma after_line_end:
  assumes p: "on_path v" and cr: "tok v = ''CR''" and n: "vm_next v = Some w"
  shows "line_start (program_ptr v) (cur_line v) (tk w) \<and> cur_line w = cur_line v \<and> 0 < cur_line v"
proof -
  let ?prog = "program_ptr v"
  obtain s i k where i: "tokenizer_init ?prog s = Some i" "token_run ?prog k i = Some (tk v)" and c: "c_text ?prog"
    using p by (auto simp: on_path_def)
  have w: "tokenizer_next ?prog (tk v) = Some (tk w)" using n by (auto simp: vm_next_def bind_eq_Some_conv)
  have ls: "line_start ?prog (cur_line v) (tk w)"
    unfolding line_start_def using i cr w by (auto simp: tok_def cur_line_tk)
  have "k \<noteq> 0" using init_not_cr [OF i(1) c] i(2) cr by (cases k) (auto simp: tok_def)
  then obtain k' b where b: "token_run ?prog k' i = Some b" "tokenizer_next ?prog b = Some (tk v)"
    using i(2) run_last by (metis not0_implies_Suc)
  let ?b = "v\<lparr>tk := b\<rparr>"
  have okb: "tk_ok ?b"
  proof -
    have "tk_ok (v\<lparr>tk := i\<rparr>)" by (rule init_tk_ok [OF i(1) c]) simp_all
    moreover have "eats (v\<lparr>tk := i\<rparr>) ?b"
      by (rule eatsI [where t = b and b = "string_buf v" and e = "ended v" and f = "flag_yield v" and r = "ubasic_error v"])
         (use b(1) in auto)
    ultimately show ?thesis using eats_togo by blast
  qed
  have nb: "vm_next ?b = Some v" using b(2) by (simp add: vm_next_def)
  have okv: "tk_ok v" using next_ok [OF nb okb] by simp
  have fb: "\<not> tokenizer_finished ?prog b"
    using b(2) cr okb tk_ok_finished [OF okb] next_ok [OF nb okb] by (auto simp: tok_def tokenizer_next_def)
  obtain t u q where g: "get_next_token ?prog (b\<lparr>tk_ptr := q\<rparr>) = Some (t, u)" "tk v = u\<lparr>current_token := t\<rparr>"
    "q \<le> length ?prog"
  proof -
    let ?q = "skip_while (\<lambda>c. c = CHR '' '' \<or> c = CHR 0x09) ?prog (tk_nextptr b)"
    have "tk_nextptr b \<le> length ?prog" using okb fb by (auto simp: tk_ok_def tok_def tokenizer_finished_def)
    from skip_while_bounds [OF this] have "?q \<le> length ?prog" by simp
    with b(2) fb that show ?thesis by (auto simp: tokenizer_next_def Let_def bind_eq_Some_conv)
  qed
  have "singlechar (?prog ! tk_nextptr (tk v)) \<noteq> ''CR'' \<and> \<not> is_blank (?prog ! tk_nextptr (tk v))"
    if "tk_nextptr (tk v) < length ?prog"
    using get_next_token_advances [OF g(1) _ c] g(2,3) cr that by (simp add: tok_def)
  with after_cr [OF w _ _ c] okv cr tk_ok_finished [OF okv] have "tok w \<noteq> ''CR''" by (auto simp: tok_def tk_ok_def)
  with next_line [OF w] tk_ok_finished [OF okv] cr have "cur_line w = cur_line v" by (simp add: tok_def cur_line_tk)
  moreover have "0 < cur_line v"
  proof -
    obtain t1 u1 where "get_next_token ?prog (s\<lparr>tk_ptr := 0, current_line := 1\<rparr>) = Some (t1, u1)"
      "current_line u1 \<le> current_line i"
      using i(1) next_line_mono unfolding tokenizer_init_once [OF c]
      by (fastforce simp: bind_eq_Some_conv Let_def split: if_splits)
    with get_next_line [OF this(1)] run_line_mono [OF i(2)] show ?thesis by (auto simp: cur_line_tk split: if_splits)
  qed
  ultimately show ?thesis using ls by simp
qed

section \<open>Subroutines\<close>

text \<open>A jump changes the tokenizer and the error flags only.\<close>

definition jumps :: "ubasic_vm \<Rightarrow> ubasic_vm \<Rightarrow> bool" where
  "jumps v v' \<longleftrightarrow> (\<exists>t e b. v' = v\<lparr>tk := t, ended := b, ubasic_error := e\<rparr>)"

lemma jumpsI: "v' = v\<lparr>tk := t, ended := b, ubasic_error := e\<rparr> \<Longrightarrow> jumps v v'"
  by (auto simp: jumps_def)

lemma jumps_trans: "jumps u v \<Longrightarrow> jumps v w \<Longrightarrow> jumps u w"
  unfolding jumps_def by (elim exE) (simp, blast)

lemma jumps_next: "vm_next v = Some v' \<Longrightarrow> jumps v v'"
proof -
  assume "vm_next v = Some v'"
  then obtain t where "v' = v\<lparr>tk := t, ended := ended v, ubasic_error := ubasic_error v\<rparr>" using next_form by fastforce
  then show ?thesis by (rule jumpsI)
qed

lemma jumps_restart: "restart v = Some v' \<Longrightarrow> jumps v v'"
proof -
  assume "restart v = Some v'"
  then obtain t where "v' = v\<lparr>tk := t, ended := ended v, ubasic_error := ubasic_error v\<rparr>"
    by (auto simp: restart_def bind_eq_Some_conv)
  then show ?thesis by (rule jumpsI)
qed

lemma jumps_fail: "jumps v (vm_fail e v)" "jumps v (v\<lparr>ubasic_error := e\<rparr>)" "jumps v v"
proof -
  show "jumps v (vm_fail e v)" by (rule jumpsI [where t = "tk v" and b = True and e = e]) (simp add: vm_fail_def)
  show "jumps v (v\<lparr>ubasic_error := e\<rparr>)" by (rule jumpsI [where t = "tk v" and b = "ended v" and e = e]) simp
  show "jumps v v" by (rule jumpsI [where t = "tk v" and b = "ended v" and e = "ubasic_error v"]) simp
qed

lemma jumps_accept: "accept t v = Some v' \<Longrightarrow> jumps v v'"
  by (auto simp: accept_def elim!: bind_eq_SomeE if_eq_Some dest!: jumps_next intro: jumps_trans jumps_fail)

lemma jumps_label_loop:
  assumes "label_loop l c v = Some v'"
  shows "jumps v v'"
proof (rule label_loop.raw_induct [where P = "\<lambda>l c v v'. jumps v v'", OF _ assms])
  fix f l c v v'
  assume IH: "\<And>l c v v'. f l c v = Some v' \<Longrightarrow> jumps v v'"
    and "(if tok v = ''ENDOFINPUT'' then Some v
       else do {
         v1 \<leftarrow> vm_next v;
         if tok v1 = ''LABEL'' then do {
           cur1 \<leftarrow> tokenizer_label (program_ptr v1) c MAX_STRINGLEN (tk v1);
           v2 \<leftarrow> vm_next v1;
           l' \<leftarrow> c_str cur1;
           if l = l' then accept ''CR'' v2 else f l cur1 v2 }
         else f l c v1 }) = Some v'"
  then show "jumps v v'"
    by (auto elim!: bind_eq_SomeE if_eq_Some dest!: IH jumps_next jumps_accept
        intro: jumps_fail jumps_trans jumps_trans [OF jumps_trans])
qed

lemma jumps_string: "jump_string r v = Some v' \<Longrightarrow> jumps v v'"
  by (auto simp: jump_string_def jump_label_def elim!: bind_eq_SomeE if_eq_Some split: if_splits
      dest!: jumps_restart jumps_label_loop intro: jumps_trans jumps_trans [OF jumps_trans jumps_fail(2)])

lemma skip_until_buf:
  assumes "skip_until p v = Some w"
  shows "skip_until p (v\<lparr>string_buf := b\<rparr>) = Some (w\<lparr>string_buf := b\<rparr>)"
proof (rule skip_until.raw_induct [where P = "\<lambda>p v w. skip_until p (v\<lparr>string_buf := b\<rparr>) = Some (w\<lparr>string_buf := b\<rparr>)",
      OF _ assms])
  fix su p v w
  assume IH: "\<And>p v w. su p v = Some w \<Longrightarrow> skip_until p (v\<lparr>string_buf := b\<rparr>) = Some (w\<lparr>string_buf := b\<rparr>)"
    and r: "(if p (tok v) then Some v else vm_next v \<bind> su p) = Some w"
  have n: "vm_next (v\<lparr>string_buf := b\<rparr>) = Some (u\<lparr>string_buf := b\<rparr>)" if "vm_next v = Some u" for u
    using that by (auto simp: vm_next_def bind_eq_Some_conv)
  show "skip_until p (v\<lparr>string_buf := b\<rparr>) = Some (w\<lparr>string_buf := b\<rparr>)"
    using r by (subst skip_until.simps) (auto simp: tok_def elim!: bind_eq_SomeE if_eq_Some dest!: n IH)
qed

text \<open>\<open>t\<close> is the first token after the line \<open>v\<close> stands in.\<close>

definition after_line :: "ubasic_vm \<Rightarrow> tokenizer \<Rightarrow> bool" where
  "after_line v t \<longleftrightarrow> (\<exists>w x. skip_until (\<lambda>t. t = ''CR'') v = Some w \<and> vm_next w = Some x \<and> tk x = t)"

lemma skip_until_done: "skip_until p v = Some w \<Longrightarrow> p (tok w)"
proof (rule skip_until.raw_induct [where P = "\<lambda>p v w. p (tok w)"])
  fix su p v w
  assume "\<And>p v w. su p v = Some w \<Longrightarrow> p (tok w)" "(if p (tok v) then Some v else vm_next v \<bind> su p) = Some w"
  then show "p (tok w)" by (auto elim!: bind_eq_SomeE if_eq_Some)
qed

lemma short_id: "0 \<le> i \<Longrightarrow> i \<le> 32767 \<Longrightarrow> short i = i"
  by (simp add: short_def signed_of_int signed_take_bit_int_eq_self)

text \<open>The steps of a \<open>gosub\<close> that is carried out.\<close>

lemma gosub_calls:
  assumes v: "on_path v" "tok v = ''GOSUB''" and g: "gosub_statement r v = Some w"
    and c: "gosub_stack_ptr w = gosub_stack_ptr v + 1"
  shows "\<exists>t. after_line v t \<and> line_start (program_ptr v) (current_line t) t \<and> 0 < current_line t \<and>
    array_get (gosub_stack w) (gosub_stack_ptr v) = Some (short (current_line t)) \<and> program_ptr w = program_ptr v"
proof -
  obtain v1 where v1: "vm_next v = Some v1" "accept ''GOSUB'' v = Some v1" using g v(2)
    by (auto simp: gosub_statement_def accept_def elim!: bind_eq_SomeE)
  have p1: "gosub_stack_ptr v1 = gosub_stack_ptr v" using next_form [OF v1(1)] by auto
  have s: "tok v1 = ''STRING''"
    using g c p1 by (auto simp: gosub_statement_def v1(2) vm_fail_def split: if_splits)
  with g v1 obtain v2 v3 v4 v5 where st: "read_string v1 = Some v2" "vm_next v2 = Some v3"
    "skip_until (\<lambda>t. t = ''CR'') v3 = Some v4" "accept ''CR'' v4 = Some v5"
    and rest: "(if gosub_stack_ptr v5 < MAX_GOSUB_STACK_DEPTH then do {
         g \<leftarrow> array_put (gosub_stack_ptr v5) (short (cur_line v5)) (gosub_stack v5);
         jump_string r (v5\<lparr>gosub_stack := g, gosub_stack_ptr := gosub_stack_ptr v5 + 1\<rparr>) }
       else Some (vm_fail UBASIC_E_GOSUB_STACK_EXHAUSTED v5)) = Some w"
    by (auto simp: gosub_statement_def elim!: bind_eq_SomeE)
  have "eats v v1" using v1(1) by (rule eats_next)
  also have "eats v1 v2" using st(1) by (rule eats_read_string)
  also have "eats v2 v3" using st(2) by (rule eats_next)
  also have "eats v3 v4" using st(3) by (rule eats_skip_until)
  finally have e4: "eats v v4" .
  have cr: "tok v4 = ''CR''" using skip_until_done [OF st(3)] .
  then have n5: "vm_next v4 = Some v5" using st(4) by (simp add: accept_def)
  have e5: "eats v v5" by (rule eats_trans [OF e4 eats_next [OF n5]])
  then have f5: "program_ptr v5 = program_ptr v" "gosub_stack_ptr v5 = gosub_stack_ptr v"
    by (auto simp: eats_def)
  have pp: "program_ptr v4 = program_ptr v" using e4 by (auto simp: eats_def)
  note l = after_line_end [OF on_path_eats [OF v(1) e4] cr n5]
  have "gosub_stack_ptr v5 < MAX_GOSUB_STACK_DEPTH"
    using rest c f5(2) by (auto simp: vm_fail_def split: if_splits)
  with rest obtain gs where gs: "array_put (gosub_stack_ptr v5) (short (cur_line v5)) (gosub_stack v5) = Some gs"
    "jump_string r (v5\<lparr>gosub_stack := gs, gosub_stack_ptr := gosub_stack_ptr v5 + 1\<rparr>) = Some w"
    by (auto elim!: bind_eq_SomeE)
  have w: "gosub_stack w = gs" "program_ptr w = program_ptr v5" using jumps_string [OF gs(2)] by (auto simp: jumps_def)
  have get: "array_get gs (gosub_stack_ptr v) = Some (short (cur_line v5))"
    using gs(1) f5 by (auto simp: array_put_def array_get_def split: if_splits)
  obtain b where b: "v2 = v1\<lparr>string_buf := b\<rparr>" using st(1) by (auto simp: read_string_def bind_eq_Some_conv)
  have n3: "vm_next v1 = Some (v3\<lparr>string_buf := string_buf v1\<rparr>)"
    using st(2) b by (auto simp: vm_next_def bind_eq_Some_conv)
  have "skip_until (\<lambda>t. t = ''CR'') (v3\<lparr>string_buf := string_buf v1\<rparr>) = Some (v4\<lparr>string_buf := string_buf v1\<rparr>)"
    by (rule skip_until_buf [OF st(3)])
  with v1(1) n3 s v(2) have sk: "skip_until (\<lambda>t. t = ''CR'') v = Some (v4\<lparr>string_buf := string_buf v1\<rparr>)"
    by (subst skip_until.simps, simp, subst skip_until.simps, simp)
  have nx: "vm_next (v4\<lparr>string_buf := string_buf v1\<rparr>) = Some (v5\<lparr>string_buf := string_buf v1\<rparr>)"
    using n5 by (auto simp: vm_next_def bind_eq_Some_conv)
  have "after_line v (tk v5)" unfolding after_line_def using sk nx by auto
  with l get w f5 pp show ?thesis by (intro exI [of _ "tk v5"]) (auto simp: cur_line_tk)
qed

text \<open>C11: a subroutine comes back to the line after its \<open>gosub\<close>. When \<open>gosub\<close> is carried out, there is a
  first token after its line, and a \<open>return\<close> that finds the call on top of the stack, wherever it stands in the program,
  goes on with that token and drops the call. Line numbers are kept as \<open>short\<close>, so the line has to be
  one of the first 32767.
\<close>

theorem gosub_return:
  assumes "vm_inv v" and "tok v = ''GOSUB''" and "gosub_statement r v = Some w"
    and "gosub_stack_ptr w = gosub_stack_ptr v + 1"
  shows "\<exists>t. after_line v t \<and> (current_line t \<le> 32767 \<longrightarrow>
    (\<forall>x x1. program_ptr x = program_ptr v \<and> gosub_stack x = gosub_stack w \<and> gosub_stack_ptr x = gosub_stack_ptr w \<and>
       accept ''RETURN'' x = Some x1 \<longrightarrow>
       return_statement x = Some (x1\<lparr>gosub_stack_ptr := gosub_stack_ptr v, tk := t\<rparr>)))"
proof -
  obtain t where t: "after_line v t" "line_start (program_ptr v) (current_line t) t" "0 < current_line t"
    "array_get (gosub_stack w) (gosub_stack_ptr v) = Some (short (current_line t))"
    using gosub_calls [OF _ assms(2-4)] assms(1) by (auto simp: vm_inv_def)
  have c: "c_text (program_ptr v)" "0 \<le> gosub_stack_ptr v"
    using assms(1) by (simp_all add: vm_inv_def on_path_def stacks_ok_def)
  have "return_statement x = Some (x1\<lparr>gosub_stack_ptr := gosub_stack_ptr v, tk := t\<rparr>)"
    if "current_line t \<le> 32767" "program_ptr x = program_ptr v" "gosub_stack x = gosub_stack w"
      "gosub_stack_ptr x = gosub_stack_ptr w" "accept ''RETURN'' x = Some x1" for x x1
  proof -
    have x1: "program_ptr x1 = program_ptr v" "gosub_stack x1 = gosub_stack w"
      "gosub_stack_ptr x1 = gosub_stack_ptr v + 1"
      using jumps_accept [OF that(5)] that(2-4) assms(4) by (auto simp: jumps_def)
    let ?x = "x1\<lparr>gosub_stack_ptr := gosub_stack_ptr x1 - 1\<rparr>"
    have "jump_line (current_line t) ?x = Some (?x\<lparr>tk := t\<rparr>)"
      by (rule jump_to_start) (use x1 c t(2) in simp_all)
    with x1 t(3,4) that(1,5) c(2) short_id [of "current_line t"] show ?thesis
      by (simp add: return_statement_def)
  qed
  with t(1) show ?thesis by blast
qed

definition gosub_program :: string where
  "gosub_program = program_text [''gosub '' @ [CHR 0x22] @ ''a'' @ [CHR 0x22], ''end'', '':a'', ''return'']"

theorem gosub_return_witness:
  "\<exists>v w x t. ubasic_init gosub_program ubasic_static = Some v \<and> gosub_statement 1 v = Some w \<and> cur_line w = 4 \<and>
     return_statement w = Some x \<and> after_line v t \<and> tk x = t \<and> current_line t = 2 \<and> gosub_stack_ptr x = 0"
proof -
  have "(do { v \<leftarrow> ubasic_init gosub_program ubasic_static; w \<leftarrow> gosub_statement 1 v;
        x1 \<leftarrow> accept ''RETURN'' w; u \<leftarrow> skip_until (\<lambda>t. t = ''CR'') v; y \<leftarrow> vm_next u;
        Some (tok v, gosub_stack_ptr v, gosub_stack_ptr w, cur_line w, program_ptr w = program_ptr v,
          current_line (tk y)) }) = Some (''GOSUB'', 0, 1, 4, True, 2)"
    by code_simp
  then obtain v w x1 u y where v: "ubasic_init gosub_program ubasic_static = Some v" "tok v = ''GOSUB''"
    "gosub_stack_ptr v = 0" and w: "gosub_statement 1 v = Some w" "gosub_stack_ptr w = 1" "cur_line w = 4"
    "program_ptr w = program_ptr v" "accept ''RETURN'' w = Some x1"
    and u: "skip_until (\<lambda>t. t = ''CR'') v = Some u" "vm_next u = Some y" "current_line (tk y) = 2"
    by (auto simp: bind_eq_Some_conv)
  have "vm_inv v" using init_inv [OF v(1) static_arrays] by (simp add: gosub_program_def c_text_def)
  from gosub_return [OF this v(2) w(1)] v(3) w(2) obtain t where t: "after_line v t"
    "current_line t \<le> 32767 \<longrightarrow> (\<forall>x x1. program_ptr x = program_ptr v \<and> gosub_stack x = gosub_stack w \<and>
       gosub_stack_ptr x = gosub_stack_ptr w \<and> accept ''RETURN'' x = Some x1 \<longrightarrow>
       return_statement x = Some (x1\<lparr>gosub_stack_ptr := gosub_stack_ptr v, tk := t\<rparr>))" by auto
  have "current_line t = 2" using t(1) u by (auto simp: after_line_def)
  with t w v show ?thesis by auto
qed

end
