(* ===== verification/UbasicLoops.thy ===== *)
theory UbasicLoops
  imports UbasicRun UbasicJump
begin

text \<open>
  What loops, conditionals and timeslices do, over the jumps of \<open>UbasicJump\<close> and the invariant of \<open>UbasicRun\<close>.
\<close>

section \<open>Counting loops\<close>

lemma push_for_ok:
  assumes "push_for f v = Some v'" and "\<not> ended v'" and "0 \<le> for_stack_ptr v"
  shows "array_get (for_stack v') (for_stack_ptr v' - 1) = Some f" and "0 < for_stack_ptr v'" and "tk v' = tk v"
    and "program_ptr v' = program_ptr v" and "\<not> ended v"
  using assms
  by (auto simp: push_for_def vm_fail_def array_put_def array_get_def elim!: bind_eq_SomeE if_eq_Some split: if_splits)

lemma accept_alive: "accept t v = Some v' \<Longrightarrow> \<not> ended v' \<Longrightarrow> tok v = t \<and> vm_next v = Some v'"
  by (auto simp: accept_def vm_fail_def elim!: bind_eq_SomeE split: if_splits)

lemma for_frame:
  assumes ok: "calls_ok E" and inv: "vm_inv (ub s)" and f: "for_statement E s = Some s'" and alive: "\<not> ended (ub s')"
  shows "\<exists>f. array_get (for_stack (ub s')) (for_stack_ptr (ub s') - 1) = Some f \<and> 0 < for_stack_ptr (ub s') \<and>
    line_after_for f = short (cur_line (ub s')) \<and> 0 < cur_line (ub s') \<and>
    line_start (program_ptr (ub s')) (cur_line (ub s')) (tk (ub s'))"
proof -
  obtain s7 s8 fr where k: "kept (ub s) (ub s7)" and cr: "vm_do (accept ''CR'') s7 = Some s8"
    and p: "vm_do (push_for fr) s8 = Some s'" and fr: "line_after_for fr = short (cur_line (ub s8))"
  proof -
    obtain s1 var s2 s3 a s4 s5 b s6 step s7 s8 where st: "vm_do (accept ''FOR'') s = Some s1"
      "vm_get variable_arg s1 = Some (var, s2)" "vm_do (accept ''EQ'') s2 = Some s3" "expr E s3 = Some (a, s4)"
      "vm_do (accept ''TO'') (vm_upd (ubasic_set_variable var a) s4) = Some s5" "expr E s5 = Some (b, s6)"
      "(if utok s6 \<noteq> ''CR'' then do { t \<leftarrow> vm_do (accept ''STEP'') s6; expr E t } else Some (1, s6)) = Some (step, s7)"
      "vm_do (accept ''CR'') s7 = Some s8"
      "vm_do (push_for \<lparr>line_after_for = short (cur_line (ub s8)), for_variable = short var, for_to = b, for_step = step\<rparr>) s8 = Some s'"
      using f unfolding for_statement_def by (elim bind_eq_SomeE) (auto elim!: bind_eq_SomeE)
    have "kept (ub s6) (ub s7)"
      using st(7) by (auto simp: kept_def elim!: bind_eq_SomeE if_eq_Some dest!: do_steps kept_expr [OF ok])
    with do_steps(1) [OF st(1)] get_steps(1) [OF st(2)] do_steps(1) [OF st(3)] kept_expr(1) [OF ok st(4)]
      do_steps(1) [OF st(5)] kept_expr(1) [OF ok st(6)] have "kept (ub s) (ub s7)" by (simp add: kept_def)
    from that [OF this st(8,9)] show thesis by simp
  qed
  obtain v8 where v8: "accept ''CR'' (ub s7) = Some v8" "ub s8 = v8" using cr by (auto simp: vm_do_Some)
  have pu: "push_for fr v8 = Some (ub s')" using p v8(2) by (auto simp: vm_do_Some)
  have i7: "vm_inv (ub s7)" using k inv by (simp add: kept_def)
  with kept_steps(2) [OF v8(1)] have "vm_inv v8" by (simp add: kept_def)
  then have "0 \<le> for_stack_ptr v8" by (simp add: vm_inv_def stacks_ok_def)
  note q = push_for_ok [OF pu alive this]
  note a = accept_alive [OF v8(1) q(5)]
  have "line_start (program_ptr (ub s7)) (cur_line (ub s7)) (tk v8) \<and> cur_line v8 = cur_line (ub s7) \<and> 0 < cur_line (ub s7)"
    using a i7 by (intro after_line_end) (simp_all add: vm_inv_def)
  moreover have "program_ptr v8 = program_ptr (ub s7)" using next_form a by fastforce
  ultimately show ?thesis using q fr v8(2) by (simp add: cur_line_tk)
qed



section \<open>Conditionals\<close>

lemma multi_line_if_top:
  assumes "multi_line_if r v = Some w" and "r \<noteq> 0" and "\<not> ended w" and "0 \<le> if_stack_ptr v"
  shows "array_get (if_stack w) (if_stack_ptr w - 1) = Some (short (sint r)) \<and> 0 < if_stack_ptr w"
proof -
  have c: "if_stack_ptr v < MAX_IF_STACK_DEPTH"
    using assms(1,3) by (auto simp: multi_line_if_def vm_fail_def split: if_splits)
  with assms(1,2) obtain st where st: "array_put (if_stack_ptr v) (short (sint r)) (if_stack v) = Some st"
    "accept ''CR'' (v\<lparr>if_stack := st, if_stack_ptr := if_stack_ptr v + 1\<rparr>) = Some w"
    by (auto simp: multi_line_if_def elim!: bind_eq_SomeE)
  from jumps_accept [OF st(2)] st(1) assms(4) show ?thesis
    by (auto simp: jumps_def array_put_def array_get_def split: if_splits)
qed

text \<open>What the \<open>else\<close> of a conditional does depends on the low 16 bits of the condition, as the stack keeps them. After a condition that is
  true the \<open>else\<close> that ends its first branch skips the second one, unless the condition is a multiple of 65536: then the
  program runs the second branch too.
\<close>

theorem else_after_true_branch:
  assumes "multi_line_if r v = Some w" and "r \<noteq> 0" and "\<not> ended w" and "vm_inv v"
    and "if_stack x = if_stack w" and "if_stack_ptr x = if_stack_ptr w"
    and "accept ''ELSE'' x = Some x1" and "tok x1 = ''CR''" and "accept ''CR'' x1 = Some x2"
  shows "else_statement x =
    (if (ucast r :: u16) = 0 then Some x2
     else do { (err, x3) \<leftarrow> else_skip 0 x2; if err then Some x3 else endif_statement x3 })"
proof -
  have "0 \<le> if_stack_ptr v" using assms(4) by (simp add: vm_inv_def stacks_ok_def)
  from multi_line_if_top [OF assms(1-3) this] have t: "array_get (if_stack x1) (if_stack_ptr x1 - 1) = Some (short (sint r))"
    "0 < if_stack_ptr x1" using jumps_accept [OF assms(7)] assms(5,6) by (auto simp: jumps_def)
  have w: "(word_of_int (sint r) :: u16) = ucast r" by (rule bit_word_eqI) (simp add: bit_simps)
  have s: "short (sint r) = 0 \<longleftrightarrow> (ucast r :: u16) = 0" by (simp add: short_def w signed_eq_0_iff del: of_int_sint)
  show ?thesis
    using assms(7-9) t by (simp add: else_statement_def s)
qed

definition if_program :: string where
  "if_program = program_text [''if 65536 then'', ''a=1'', ''else'', ''a=2'', ''endif'']"

theorem else_after_true_branch_witness:
  "\<exists>v w x x1. ubasic_init if_program ubasic_static = Some v \<and>
     (do { u \<leftarrow> skip_until (\<lambda>t. t = ''CR'') v; multi_line_if 65536 u }) = Some w \<and> cur_line w = 2 \<and>
     skip_until (\<lambda>t. t = ''ELSE'') w = Some x \<and> else_statement x = Some x1 \<and> cur_line x1 = 4 \<and> tok x1 = ''VARIABLE''"
proof -
  have "(do { v \<leftarrow> ubasic_init if_program ubasic_static; u \<leftarrow> skip_until (\<lambda>t. t = ''CR'') v; w \<leftarrow> multi_line_if 65536 u;
        x \<leftarrow> skip_until (\<lambda>t. t = ''ELSE'') w; x1 \<leftarrow> accept ''ELSE'' x; x2 \<leftarrow> accept ''CR'' x1;
        Some ((ended w, cur_line w, if_stack x = if_stack w, if_stack_ptr x = if_stack_ptr w), tok x1, cur_line x2, tok x2) }) =
      Some ((False, 2, True, True), ''CR'', 4, ''VARIABLE'')"
    by code_simp
  then obtain v u w x x1 x2 where v: "ubasic_init if_program ubasic_static = Some v"
    and u: "skip_until (\<lambda>t. t = ''CR'') v = Some u" and w: "multi_line_if 65536 u = Some w" "\<not> ended w" "cur_line w = 2"
    and x: "skip_until (\<lambda>t. t = ''ELSE'') w = Some x" "if_stack x = if_stack w" "if_stack_ptr x = if_stack_ptr w"
      "accept ''ELSE'' x = Some x1" "tok x1 = ''CR''" "accept ''CR'' x1 = Some x2" "cur_line x2 = 4" "tok x2 = ''VARIABLE''"
    by (auto simp: bind_eq_Some_conv)
  have "vm_inv v" using init_inv [OF v static_arrays] by (simp add: if_program_def c_text_def)
  with keptD [OF kept_steps(6) [OF u]] have "vm_inv u" by simp
  from else_after_true_branch [OF w(1) _ w(2) this x(2-6)] have "else_statement x = Some x2" by simp
  with v u w x show ?thesis by auto
qed

section \<open>The first line\<close>

text \<open>No jump comes back to the first line of a program. Looking for its number the interpreter stops at the first token,
  where it expects the end of a line: a \<open>wend\<close> of a loop that begins on the first line ends the script with a parse error.
\<close>

theorem first_line_jump_fails:
  assumes "c_text (program_ptr v)" and "restart v = Some i"
  shows "jump_line (cur_line i) v = map_option (vm_fail UBASIC_E_PARSE) (vm_next i)"
proof -
  have "tok i \<noteq> ''CR''"
    using init_not_cr [OF _ assms(1)] assms(2) by (auto simp: restart_def tok_def bind_eq_Some_conv)
  with assms(2) show ?thesis
    by (simp add: jump_line_def find_line.simps accept_def map_option_bind) (cases "vm_next i"; simp)
qed

theorem first_line_jump_fails_witness:
  "\<exists>v w. ubasic_init (program_text [''while 1'', ''wend'']) ubasic_static = Some v \<and> cur_line v = 1 \<and>
     jump_line 1 v = Some w \<and> ended w \<and> ubasic_error w = UBASIC_E_PARSE"
proof -
  have "(do { v \<leftarrow> ubasic_init (program_text [''while 1'', ''wend'']) ubasic_static; i \<leftarrow> restart v; n \<leftarrow> vm_next i;
        Some (cur_line v, cur_line i) }) = Some (1, 1)" by code_simp
  then obtain v i n where v: "ubasic_init (program_text [''while 1'', ''wend'']) ubasic_static = Some v" "cur_line v = 1"
    "restart v = Some i" "cur_line i = 1" "vm_next i = Some n" by (auto simp: bind_eq_Some_conv)
  have "c_text (program_ptr v)" using v(1) by (auto simp: ubasic_init_def bind_eq_Some_conv c_text_def)
  from first_line_jump_fails [OF this v(3)] v show ?thesis by (auto simp: vm_fail_def)
qed

section \<open>Timeslices\<close>

text \<open>\<open>n\<close> lines one after the other, with the clock.\<close>

fun run_lines :: "('a ubasic_scheme) ubasic_env \<Rightarrow> u32 list \<Rightarrow> nat \<Rightarrow> 'a ubasic_scheme \<Rightarrow> 'a ubasic_scheme option" where
  "run_lines E ts 0 s = Some s"
| "run_lines E ts (Suc n) s = do {
     s1 \<leftarrow> line_statement E s;
     run_lines E (tl ts) n (case ts of t # _ \<Rightarrow> s1\<lparr>tick_count := t\<rparr> | [] \<Rightarrow> s1) }"

definition slice_ends ::
  "('a ubasic_scheme) ubasic_env \<Rightarrow> 'a ubasic_scheme \<Rightarrow> int \<Rightarrow> 'a ubasic_scheme \<Rightarrow> bool" where
  "slice_ends E t r s' \<longleftrightarrow>
     (if program_over (ub t) then finish_run t = Some (r, s')
      else r = SCRIPT_RUN_RUNNING \<and>
        (\<exists>s1. line_statement E t = Some s1 \<and> (s' = s1 \<or> (\<exists>k. s' = s1\<lparr>tick_count := k\<rparr>))))"

lemma run_loop_lines:
  assumes "run_loop E st l ts s = Some q" and "l \<noteq> -1"
  shows "\<exists>n t. run_lines E ts n s = Some t \<and> (n = 0 \<or> unat l + n < unat (yield_max_lines (ub t))) \<and>
    slice_ends E t (fst q) (snd q)"
proof (rule run_loop.raw_induct [where P = "\<lambda>E st l ts s q. l \<noteq> -1 \<longrightarrow> (\<exists>n t. run_lines E ts n s = Some t \<and>
      (n = 0 \<or> unat l + n < unat (yield_max_lines (ub t))) \<and> slice_ends E t (fst q) (snd q))", OF _ assms(1),
      THEN mp, OF _ assms(2)])
  fix f E and st l :: u32 and ts and s :: "'a ubasic_scheme" and q
  assume IH: "\<And>E st l ts s q. f E st l ts s = Some q \<Longrightarrow> l \<noteq> -1 \<longrightarrow> (\<exists>n t. run_lines E ts n s = Some t \<and>
      (n = 0 \<or> unat l + n < unat (yield_max_lines (ub t))) \<and> slice_ends E t (fst q) (snd q))"
    and r: "(if program_over (ub s) then finish_run s
      else do {
        s1 \<leftarrow> line_statement E s;
        if flag_yield (ub s1) then Some (SCRIPT_RUN_RUNNING, s1)
        else
          let s2 = (case ts of t # _ \<Rightarrow> s1\<lparr>tick_count := t\<rparr> | [] \<Rightarrow> s1) in
          if l + 1 < yield_max_lines (ub s2) \<and> tick_count s2 - st < yield_max_ms (ub s2)
          then f E st (l + 1) (tl ts) s2
          else Some (SCRIPT_RUN_RUNNING, s2) }) = Some q"
  show "l \<noteq> -1 \<longrightarrow> (\<exists>n t. run_lines E ts n s = Some t \<and>
      (n = 0 \<or> unat l + n < unat (yield_max_lines (ub t))) \<and> slice_ends E t (fst q) (snd q))"
  proof
    assume l: "l \<noteq> -1"
    show "\<exists>n t. run_lines E ts n s = Some t \<and> (n = 0 \<or> unat l + n < unat (yield_max_lines (ub t))) \<and>
        slice_ends E t (fst q) (snd q)"
    proof (cases "program_over (ub s)")
      case True
      with r show ?thesis by (intro exI [of _ 0] exI [of _ s]) (simp add: slice_ends_def)
    next
      case False
      with r obtain s1 where s1: "line_statement E s = Some s1" by (auto elim!: bind_eq_SomeE)
      let ?s2 = "case ts of t # _ \<Rightarrow> s1\<lparr>tick_count := t\<rparr> | [] \<Rightarrow> s1"
      consider "q = (SCRIPT_RUN_RUNNING, s1)" | "q = (SCRIPT_RUN_RUNNING, ?s2)"
        | "l + 1 < yield_max_lines (ub ?s2)" "f E st (l + 1) (tl ts) ?s2 = Some q"
        using r False s1 by (auto simp: Let_def split: if_splits)
      then show ?thesis
      proof cases
        case 3
        then have "l + 1 \<noteq> -1" by (metis word_order.extremum_strict)
        with IH [OF 3(2)] obtain n t where n: "run_lines E (tl ts) n ?s2 = Some t"
          "n = 0 \<or> unat (l + 1) + n < unat (yield_max_lines (ub t))" "slice_ends E t (fst q) (snd q)" by blast
        have u: "unat (l + 1) = unat l + 1" using l by (metis Suc_eq_plus1 add.commute unatSuc add_eq_0_iff)
        have "unat l + Suc n < unat (yield_max_lines (ub t))"
        proof (cases "n = 0")
          case True
          then have "t = ?s2" using n(1) by simp
          with 3(1) u True show ?thesis by (simp add: word_less_nat_alt)
        qed (use n(2) u in simp)
        with n s1 show ?thesis by (intro exI [of _ "Suc n"] exI [of _ t]) simp
      qed ((rule exI [of _ "0 :: nat"], rule exI [of _ s],
            use False s1 in \<open>auto simp: slice_ends_def split: list.splits\<close>)+)
    qed
  qed
qed

text \<open>C14: the contract of a timeslice. It executes whole lines, one after the other; the first line only if the program is not
  over, and the next ones only while fewer have been executed than the limit in force allows. It ends in one of
  three ways: the program goes on, after at least one line; it is over without an error, with the message that it finished;
  or with one, with a message of the error and its line.
\<close>

theorem ubasic_slice_contract:
  assumes "ubasic_run E ticks s = Some (r, s')"
  shows "\<exists>n t. run_lines E ticks n (vm_upd (\<lambda>v. v\<lparr>flag_yield := False\<rparr>) s) = Some t \<and>
    (n = 0 \<or> n < unat (yield_max_lines (ub t))) \<and>
    (if \<not> program_over (ub t)
     then r = SCRIPT_RUN_RUNNING \<and>
       (\<exists>s1. line_statement E t = Some s1 \<and> (s' = s1 \<or> (\<exists>k. s' = s1\<lparr>tick_count := k\<rparr>)))
     else if ubasic_error (ub t) = UBASIC_E_NONE
     then r = SCRIPT_RUN_ENDED \<and> script_console_add_error LANG_CONSOLE_TEXT_FINISHED t = Some s'
     else r = SCRIPT_RUN_ERROR \<and>
       (\<exists>s1. script_console_add_text (error_text (ub t)) (console_set_autoredraw 1 t) = Some s1 \<and>
             script_console_add_error LANG_CONSOLE_TEXT_TERMINATED s1 = Some s'))"
proof -
  obtain n t where t: "run_lines E ticks n (vm_upd (\<lambda>v. v\<lparr>flag_yield := False\<rparr>) s) = Some t"
    "n = 0 \<or> n < unat (yield_max_lines (ub t))" "slice_ends E t r s'"
    using run_loop_lines [OF assms [unfolded ubasic_run_def]] by auto
  show ?thesis
    by (rule exI [of _ n], rule exI [of _ t])
       (use t in \<open>auto simp: slice_ends_def finish_run_def elim!: bind_eq_SomeE split: if_splits\<close>)
qed

theorem ubasic_slice_contract_witness:
  "\<exists>v s r t n. ubasic_init (program_text [''end'']) ubasic_static = Some v \<and>
     ubasic_run (demo_env []) [] (demo_task (v\<lparr>yield_max_lines := 5\<rparr>)) = Some (r, s) \<and> r = SCRIPT_RUN_ENDED \<and>
     run_lines (demo_env []) [] n (demo_task (v\<lparr>yield_max_lines := 5\<rparr>)) = Some t \<and> n < 5 \<and>
     script_console_add_error LANG_CONSOLE_TEXT_FINISHED t = Some s"
proof -
  let ?E = "demo_env []"
  have "(do { v \<leftarrow> ubasic_init (program_text [''end'']) ubasic_static;
        (r, s) \<leftarrow> ubasic_run ?E [] (demo_task (v\<lparr>yield_max_lines := 5\<rparr>));
        Some (r, flag_yield v, yield_max_lines (ub s)) }) = Some (SCRIPT_RUN_ENDED, False, 5)" by code_simp
  then obtain v r s where v: "ubasic_init (program_text [''end'']) ubasic_static = Some v" "\<not> flag_yield v"
    "ubasic_run ?E [] (demo_task (v\<lparr>yield_max_lines := 5\<rparr>)) = Some (r, s)" "r = SCRIPT_RUN_ENDED"
    "yield_max_lines (ub s) = 5" by (auto simp: bind_eq_Some_conv)
  from ubasic_slice_contract [OF v(3)] v(4) obtain n t where
    t: "run_lines ?E [] n (vm_upd (\<lambda>v. v\<lparr>flag_yield := False\<rparr>) (demo_task (v\<lparr>yield_max_lines := 5\<rparr>))) = Some t"
    "n = 0 \<or> n < unat (yield_max_lines (ub t))" "script_console_add_error LANG_CONSOLE_TEXT_FINISHED t = Some s"
    by (auto simp: SCRIPT_RUN_ENDED_def SCRIPT_RUN_ERROR_def SCRIPT_RUN_RUNNING_def split: if_splits)
  have "vm_upd (\<lambda>v. v\<lparr>flag_yield := False\<rparr>) (demo_task (v\<lparr>yield_max_lines := 5\<rparr>)) = demo_task (v\<lparr>yield_max_lines := 5\<rparr>)"
    using v(2) by (simp add: vm_upd_def demo_task_def ubasic.defs kbd_task.defs)
  moreover have "yield_max_lines (ub t) = 5" using console_text_ub(2) [OF t(3)] v(5) by simp
  ultimately have "run_lines ?E [] n (demo_task (v\<lparr>yield_max_lines := 5\<rparr>)) = Some t" "n < 5" using t by auto
  with t(3) v show ?thesis by blast
qed

end
