(* ===== verification/MotionDetector.thy ===== *)
theory MotionDetector
  imports KbdProcess ActionFrames "HOL-Library.Signed_Division"
begin

text \<open>
  \<open>modules/motion_detector.c\<close>: the grid of cells over the viewport, the comparison of the average of each
  cell with the one of the previous picture, and the action that runs a detection, once per keyboard
  timeslice, on the stack of the script that asked for it.

  The viewport is a list of bytes from the start of the active buffer on; a read outside of it, an
  access outside of the arrays of 1024 cells, a division by zero and a loop that does not end have no
  result (\<open>None\<close>). A C \<open>int\<close> is an \<open>int\<close> whose sums and products are reduced by \<open>c_int\<close> where a script's
  arguments can make them wrap, or a 32-bit word where it is a time. \<open>OPT_MD_DEBUG\<close>, the debug
  log of the module, is not compiled in. \<open>vp_thumb_fw\<close> is \<open>THUMB_FW\<close>: the format of the buffer of the
  newer cameras.
\<close>

section \<open>State\<close>

definition MD_MEASURE_MODE_U :: int where "MD_MEASURE_MODE_U = 0"
definition MD_MEASURE_MODE_Y :: int where "MD_MEASURE_MODE_Y = 1"
definition MD_MEASURE_MODE_V :: int where "MD_MEASURE_MODE_V = 2"
definition MD_MEASURE_MODE_R :: int where "MD_MEASURE_MODE_R = 3"
definition MD_MEASURE_MODE_G :: int where "MD_MEASURE_MODE_G = 4"
definition MD_MEASURE_MODE_B :: int where "MD_MEASURE_MODE_B = 5"

definition MD_DO_IMMEDIATE_SHOOT :: u32 where "MD_DO_IMMEDIATE_SHOOT = 1"
definition MD_NO_SHUTTER_RELEASE_ON_SHOOT :: u32 where "MD_NO_SHUTTER_RELEASE_ON_SHOOT = 8"

definition MD_REGION_NONE :: int where "MD_REGION_NONE = 0"
definition MD_REGION_INCLUDE :: int where "MD_REGION_INCLUDE = 1"
definition MD_REGION_EXCLUDE :: int where "MD_REGION_EXCLUDE = 2"

definition MOTION_DETECTOR_CELLS :: int where "MOTION_DETECTOR_CELLS = 1024"

lemmas md_consts = MD_MEASURE_MODE_U_def MD_MEASURE_MODE_Y_def MD_MEASURE_MODE_V_def
  MD_MEASURE_MODE_R_def MD_MEASURE_MODE_G_def MD_MEASURE_MODE_B_def MD_DO_IMMEDIATE_SHOOT_def
  MD_NO_SHUTTER_RELEASE_ON_SHOOT_def MD_REGION_NONE_def MD_REGION_INCLUDE_def
  MD_REGION_EXCLUDE_def MOTION_DETECTOR_CELLS_def

text \<open>The result of a C \<open>int\<close> operation.\<close>

definition c_int :: "int \<Rightarrow> int" where
  "c_int x = sint (word_of_int x :: u32)"

record motion_detector_s =
  md_prev :: "int list"
  md_diff :: "u8 list"
  md_columns :: int
  md_rows :: int
  md_threshold :: int
  md_pixel_measure_mode :: int
  md_timeout :: u32
  md_measure_interval :: u32
  md_last_measure_time :: u32
  md_start_time :: u32
  md_running :: bool
  md_detected_cells :: int
  md_grid :: int
  md_clip_mode :: int
  md_clip_row1 :: int
  md_clip_column1 :: int
  md_clip_row2 :: int
  md_clip_column2 :: int
  md_previous_ready :: bool
  md_return_value :: int
  md_parameters :: u32
  md_pixels_step :: int
  md_msecs_before_trigger :: u32
  md_points :: int

text \<open>\<open>time_counter\<close> of \<open>include/camera_info.h\<close>.\<close>

record time_counter =
  tc_tick_count :: u32
  tc_last :: u32
  tc_min :: u32
  tc_max :: u32
  tc_sum :: u32
  tc_count :: u32

text \<open>
  \<open>md_viewport\<close> is what \<open>vid_get_viewport_active_buffer\<close> returns, \<open>md_scan_ticks\<close> the time the measurement
  takes, both given by the firmware.
\<close>

record md_task = kbd_task +
  motion_detector :: motion_detector_s
  md_af_led_on :: int
  md_af_led_time :: time_counter
  md_viewport :: "u8 list option"
  md_scan_ticks :: u32

text \<open>What the functions of the viewport and \<open>camera_screen\<close> give, fixed for a camera and its mode.\<close>

record viewport =
  vp_thumb_fw :: bool
  vp_image_offset :: int
  vp_height :: int
  vp_width :: int
  vp_byte_width :: int
  vp_yscale :: int
  vp_display_xoffset :: int
  vp_display_yoffset :: int
  screen_width :: int
  screen_height :: int

definition md_upd :: "(motion_detector_s \<Rightarrow> motion_detector_s) \<Rightarrow> 'a md_task_scheme \<Rightarrow> 'a md_task_scheme" where
  "md_upd f s = s\<lparr>motion_detector := f (motion_detector s)\<rparr>"

section \<open>Starting a detection\<close>

text \<open>The loop that takes columns or rows away until the grid fits into the arrays.\<close>

partial_function (option) md_fit_grid :: "int \<Rightarrow> int \<Rightarrow> (int \<times> int) option" where
  "md_fit_grid columns rows =
     (if c_int (columns * rows) > MOTION_DETECTOR_CELLS
      then if columns > rows then md_fit_grid (columns - 1) rows else md_fit_grid columns (rows - 1)
      else Some (columns, rows))"

declare md_fit_grid.simps [code]

text \<open>The arguments of \<open>md_init_motion_detector\<close>, in their order.\<close>

record md_args =
  a_columns :: u32
  a_rows :: u32
  a_pixel_measure_mode :: u32
  a_timeout :: u32
  a_measure_interval :: u32
  a_threshold :: u32
  a_draw_grid :: u32
  a_clip_mode :: u32
  a_clip_column1 :: u32
  a_clip_row1 :: u32
  a_clip_column2 :: u32
  a_clip_row2 :: u32
  a_parameters :: u32
  a_pixels_step :: u32
  a_msecs_before_trigger :: u32

definition at_least :: "int \<Rightarrow> u32 \<Rightarrow> u32" where
  "at_least m x = (if sint x < m then word_of_int m else x)"

definition md_configure :: "md_args \<Rightarrow> u32 \<Rightarrow> motion_detector_s \<Rightarrow> motion_detector_s option" where
  "md_configure a tick d = do {
     let mode = sint (a_pixel_measure_mode a);
     let columns = (if sint (a_columns a) < 1 then 3 else sint (a_columns a));
     let rows = (if sint (a_rows a) < 1 then 3 else sint (a_rows a));
     (columns, rows) \<leftarrow> md_fit_grid columns rows;
     let interval = at_least 0 (a_measure_interval a);
     let c1 = sint (a_clip_column1 a);
     let c2 = sint (a_clip_column2 a);
     let r1 = sint (a_clip_row1 a);
     let r2 = sint (a_clip_row2 a);
     let clip_mode = sint (a_clip_mode a);
     Some (d\<lparr>md_msecs_before_trigger := at_least 0 (a_msecs_before_trigger a),
       md_parameters := a_parameters a,
       md_pixels_step := sint (at_least 1 (a_pixels_step a)),
       md_columns := columns,
       md_rows := rows,
       md_return_value := 0,
       md_pixel_measure_mode :=
         (if mode \<notin> {MD_MEASURE_MODE_Y, MD_MEASURE_MODE_U, MD_MEASURE_MODE_V, MD_MEASURE_MODE_R,
                     MD_MEASURE_MODE_G, MD_MEASURE_MODE_B} then MD_MEASURE_MODE_Y else mode),
       md_timeout := at_least 0 (a_timeout a),
       md_measure_interval := interval,
       md_threshold := sint (at_least 0 (a_threshold a)),
       md_grid := sint (a_draw_grid a),
       md_clip_column1 := min c1 c2, md_clip_column2 := max c1 c2,
       md_clip_row1 := min r1 r2, md_clip_row2 := max r1 r2,
       md_clip_mode := (if clip_mode \<notin> {MD_REGION_NONE, MD_REGION_INCLUDE, MD_REGION_EXCLUDE}
                        then MD_REGION_NONE else clip_mode),
       md_detected_cells := 0,
       md_previous_ready := False,
       md_start_time := tick,
       md_last_measure_time := tick - interval,
       md_running := True\<rparr>) }"

text \<open>\<open>AS_OTHER 1\<close> is the address of \<open>action_stack_AS_MOTION_DETECTOR\<close>.\<close>

definition AS_MOTION_DETECTOR :: action_func where "AS_MOTION_DETECTOR = AS_OTHER 1"

definition md_init_motion_detector ::
  "'b as_code \<Rightarrow> md_args \<Rightarrow> 'a md_task_scheme \<Rightarrow> (int \<times> 'a md_task_scheme) option" where
  "md_init_motion_detector M a s = do {
     d \<leftarrow> md_configure a (tick_count s) (motion_detector s);
     s1 \<leftarrow> action_push_func M AS_MOTION_DETECTOR (s\<lparr>motion_detector := d, md_af_led_on := 100\<rparr>);
     Some (1, gui_set_need_restore s1) }"

section \<open>Measuring a cell\<close>

definition md_clip_value :: "int \<Rightarrow> int" where
  "md_clip_value v = (if v < 0 then 0 else if v > 255 then 255 else v)"

definition md_byte :: "u8 list \<Rightarrow> int \<Rightarrow> u8 option" where
  "md_byte img i = (if 0 \<le> i \<and> i < int (length img) then Some (img ! nat i) else None)"

definition md_in_region :: "motion_detector_s \<Rightarrow> int \<Rightarrow> int \<Rightarrow> bool" where
  "md_in_region d row col \<longleftrightarrow>
     col + 1 \<ge> md_clip_column1 d \<and> col + 1 \<le> md_clip_column2 d \<and>
     row + 1 \<ge> md_clip_row1 d \<and> row + 1 \<le> md_clip_row2 d"

definition md_measured :: "motion_detector_s \<Rightarrow> int \<Rightarrow> int \<Rightarrow> bool" where
  "md_measured d row col \<longleftrightarrow>
     md_clip_mode d = MD_REGION_NONE \<or>
     md_clip_mode d = MD_REGION_EXCLUDE \<and> \<not> md_in_region d row col \<or>
     md_clip_mode d = MD_REGION_INCLUDE \<and> md_in_region d row col"

text \<open>Bytes per group of pixels, \<open>xs\<close>.\<close>

definition md_xs :: "viewport \<Rightarrow> int" where
  "md_xs V = (if vp_thumb_fw V then 4 else 6)"

text \<open>
  The value of the pixel at byte \<open>x\<close> of the row at \<open>y\<close>: the luminance \<open>Y\<close>, one of the signed colour
  differences \<open>U\<close> and \<open>V\<close> of its group, or a colour computed from them.
\<close>

definition md_value :: "viewport \<Rightarrow> int \<Rightarrow> u8 list \<Rightarrow> int \<Rightarrow> int \<Rightarrow> int option" where
  "md_value V mode img y x =
     (let at = (\<lambda>i. md_byte img (vp_image_offset V + i));
          uvx = (if vp_thumb_fw V then x - x smod 4 else if x mod 2 = 1 then x - 3 else x);
          bias = (if vp_thumb_fw V then 128 else 0)
      in if mode = MD_MEASURE_MODE_Y then do { v \<leftarrow> at (y + x + 1); Some (uint v) }
         else if mode = MD_MEASURE_MODE_U then do { u \<leftarrow> at (y + uvx); Some (sint u) }
         else if mode = MD_MEASURE_MODE_V then do { v \<leftarrow> at (y + uvx + 2); Some (sint v) }
         else if mode = MD_MEASURE_MODE_R then do {
           cy \<leftarrow> at (y + x + 1); cv \<leftarrow> at (y + uvx + 2);
           Some (md_clip_value ((uint cy * 4096 + (sint cv - bias) * 5743 + 2048) div 4096)) }
         else if mode = MD_MEASURE_MODE_G then do {
           cy \<leftarrow> at (y + x + 1); cu \<leftarrow> at (y + uvx); cv \<leftarrow> at (y + uvx + 2);
           Some (md_clip_value ((uint cy * 4096 - (sint cu - bias) * 1411 - (sint cv - bias) * 2925
                                  + 2048) div 4096)) }
         else if mode = MD_MEASURE_MODE_B then do {
           cy \<leftarrow> at (y + x + 1); cu \<leftarrow> at (y + uvx);
           Some (md_clip_value ((uint cy * 4096 + (sint cu - bias) * 7258 + 2048) div 4096)) }
         else Some 0)"

text \<open>The loop over the bytes of a row of a cell, with the sum and the number of the values so far.\<close>

partial_function (option) md_scan_row ::
  "viewport \<Rightarrow> int \<Rightarrow> u8 list \<Rightarrow> int \<Rightarrow> int \<Rightarrow> int \<Rightarrow> int \<Rightarrow> int \<Rightarrow> int \<times> int \<Rightarrow> (int \<times> int) option" where
  "md_scan_row V mode img y x_start x_end x_step x acc =
     (if x < x_end \<and> \<not> (vp_thumb_fw V \<and> x_start + md_xs V \<ge> x_end)
      then do {
        val \<leftarrow> md_value V mode img y x;
        md_scan_row V mode img y x_start x_end x_step (c_int (x + x_step))
          (c_int (fst acc + val), snd acc + 1) }
      else Some acc)"

partial_function (option) md_scan_cell ::
  "viewport \<Rightarrow> int \<Rightarrow> u8 list \<Rightarrow> int \<Rightarrow> int \<Rightarrow> int \<Rightarrow> int \<Rightarrow> int \<Rightarrow> int \<Rightarrow> int \<times> int \<Rightarrow> (int \<times> int) option" where
  "md_scan_cell V mode img x_start x_end x_step y_end y_step y acc =
     (if y < y_end
      then do {
        acc1 \<leftarrow> md_scan_row V mode img y x_start x_end x_step x_start acc;
        md_scan_cell V mode img x_start x_end x_step y_end y_step (c_int (y + y_step)) acc1 }
      else Some acc)"

declare md_scan_row.simps [code] md_scan_cell.simps [code]

text \<open>The offsets of a row of cells, \<open>(y_start, y_end)\<close>, and of a column, \<open>(x_start, x_end)\<close>, and the steps.\<close>

definition md_row_bytes :: "viewport \<Rightarrow> int" where
  "md_row_bytes V = (if vp_thumb_fw V then vp_byte_width V else vp_byte_width V * vp_yscale V)"

definition md_y_range :: "viewport \<Rightarrow> motion_detector_s \<Rightarrow> int \<Rightarrow> int \<times> int" where
  "md_y_range V d row =
     (let y_start = (row * vp_height V sdiv md_rows d) * md_row_bytes V
      in (y_start, y_start + (vp_height V sdiv md_rows d) * md_row_bytes V))"

definition md_x_range :: "viewport \<Rightarrow> motion_detector_s \<Rightarrow> int \<Rightarrow> int \<times> int" where
  "md_x_range V d col =
     (if vp_thumb_fw V
      then let x_start = col * vp_width V * 2 sdiv md_columns d;
               x_end = x_start + vp_width V * 2 sdiv md_columns d
           in (x_start + x_start smod md_xs V, x_end)
      else let x_start = (col * vp_width V sdiv md_columns d) * 3
           in (x_start, x_start + (vp_width V sdiv md_columns d) * 3))"

definition md_x_step :: "viewport \<Rightarrow> motion_detector_s \<Rightarrow> int" where
  "md_x_step V d =
     (if vp_thumb_fw V
      then let x_step = c_int (md_pixels_step d * 2)
           in if (md_pixel_measure_mode d = MD_MEASURE_MODE_U \<or> md_pixel_measure_mode d = MD_MEASURE_MODE_V)
                 \<and> x_step < 4 then 4 else x_step
      else c_int (md_pixels_step d * 3))"

definition md_y_step :: "viewport \<Rightarrow> motion_detector_s \<Rightarrow> int" where
  "md_y_step V d = c_int (md_pixels_step d * md_row_bytes V)"

definition md_store :: "int \<Rightarrow> int \<Rightarrow> int \<Rightarrow> motion_detector_s \<Rightarrow> motion_detector_s option" where
  "md_store idx diff cur d =
     (if 0 \<le> idx \<and> idx < MOTION_DETECTOR_CELLS
      then Some (d\<lparr>md_diff := (md_diff d)[nat idx := word_of_int diff],
                   md_prev := (md_prev d)[nat idx := cur]\<rparr>)
      else None)"

definition md_cell ::
  "viewport \<Rightarrow> u8 list \<Rightarrow> u32 \<Rightarrow> int \<Rightarrow> int \<Rightarrow> int \<Rightarrow> motion_detector_s \<Rightarrow> motion_detector_s option" where
  "md_cell V img tick row col idx d =
     (if md_measured d row col then do {
        let (y_start, y_end) = md_y_range V d row;
        let (x_start, x_end) = md_x_range V d col;
        (cur, points) \<leftarrow> md_scan_cell V (md_pixel_measure_mode d) img x_start x_end (md_x_step V d)
                            y_end (md_y_step V d) y_start (0, 0);
        let d1 = d\<lparr>md_points := points\<rparr>;
        if 0 \<le> idx \<and> idx < MOTION_DETECTOR_CELLS \<and> points \<noteq> 0 then do {
          let diff = \<bar>c_int (cur - md_prev d1 ! nat idx) sdiv points\<bar>;
          md_store idx diff cur
            (if diff > md_threshold d1 \<and> md_start_time d1 + md_msecs_before_trigger d1 <s tick
             then d1\<lparr>md_detected_cells := md_detected_cells d1 + 1\<rparr> else d1) }
        else None }
      else md_store idx 0 0 d)"

fun md_cells_of_row ::
  "viewport \<Rightarrow> u8 list \<Rightarrow> u32 \<Rightarrow> int \<Rightarrow> int list \<Rightarrow> int \<times> motion_detector_s \<Rightarrow>
   (int \<times> motion_detector_s) option" where
  "md_cells_of_row V img tick row [] (idx, d) = Some (idx, d)"
| "md_cells_of_row V img tick row (col # cols) (idx, d) = do {
     d1 \<leftarrow> md_cell V img tick row col idx d;
     md_cells_of_row V img tick row cols (idx + 1, d1) }"

fun md_rows_of_grid ::
  "viewport \<Rightarrow> u8 list \<Rightarrow> u32 \<Rightarrow> int list \<Rightarrow> int \<times> motion_detector_s \<Rightarrow>
   (int \<times> motion_detector_s) option" where
  "md_rows_of_grid V img tick [] (idx, d) = Some (idx, d)"
| "md_rows_of_grid V img tick (row # rows) (idx, d) = do {
     r \<leftarrow> md_cells_of_row V img tick row [0..md_columns d - 1] (idx, d);
     md_rows_of_grid V img tick rows r }"

definition md_measure ::
  "viewport \<Rightarrow> u8 list \<Rightarrow> u32 \<Rightarrow> motion_detector_s \<Rightarrow> motion_detector_s option" where
  "md_measure V img tick d =
     map_option snd (md_rows_of_grid V img tick [0..md_rows d - 1] (0, d))"

section \<open>A timeslice of the detection\<close>

definition md_kbd_sched_immediate_shoot ::
  "platform \<Rightarrow> 'b as_code \<Rightarrow> u32 \<Rightarrow> 'a md_task_scheme \<Rightarrow> 'a md_task_scheme option" where
  "md_kbd_sched_immediate_shoot P M no_release s = do {
     (_, s1) \<leftarrow> action_pop_func 0 s;
     s2 \<leftarrow> (if no_release = 0 then action_push_release P M (word_of_int KEY_SHOOT_FULL) s1 else Some s1);
     s3 \<leftarrow> (if 0 < cam_key_press_delay P then action_push_delay M (cam_key_press_delay P) s2
            else Some s2);
     s4 \<leftarrow> action_push_func M AS_MOTION_DETECTOR s3;
     let s5 = kbd_key_press P KEY_SHOOT_FULL s4;
     Some (if md_af_tuning s5 then s5\<lparr>md_af_on_flag := 1\<rparr> else s5) }"

text \<open>A picture is measured, and compared with the previous one if there is one.\<close>

definition md_detect_picture ::
  "platform \<Rightarrow> 'b as_code \<Rightarrow> viewport \<Rightarrow> u8 list \<Rightarrow> 'a md_task_scheme \<Rightarrow> (int \<times> 'a md_task_scheme) option" where
  "md_detect_picture P M V img s = do {
     let tick = tick_count s;
     d \<leftarrow> md_measure V img tick (motion_detector s);
     let s1 = s\<lparr>motion_detector := d\<rparr>;
     if \<not> md_previous_ready d
     then let t = tick_count s1 + md_scan_ticks s1
       in Some (1, md_upd (\<lambda>d. d\<lparr>md_previous_ready := True, md_start_time := t,
                               md_last_measure_time := t - md_measure_interval d\<rparr>) s1)
     else if md_detected_cells d > 0 \<and> md_start_time d + md_msecs_before_trigger d <s tick
     then do {
       let s2 = md_upd (\<lambda>d. d\<lparr>md_running := False, md_return_value := md_detected_cells d\<rparr>) s1;
       s3 \<leftarrow> (if md_parameters d AND MD_DO_IMMEDIATE_SHOOT \<noteq> 0
              then md_kbd_sched_immediate_shoot P M (md_parameters d AND MD_NO_SHUTTER_RELEASE_ON_SHOOT) s2
              else Some s2);
       Some (0, s3) }
     else Some (1, s1) }"

definition md_detect_motion ::
  "platform \<Rightarrow> 'b as_code \<Rightarrow> viewport \<Rightarrow> 'a md_task_scheme \<Rightarrow> (int \<times> 'a md_task_scheme) option" where
  "md_detect_motion P M V s =
     (let d = motion_detector s; tick = tick_count s in
      if \<not> md_running d then Some (0, s)
      else if md_start_time d + md_timeout d <s tick
      then Some (0, md_upd (\<lambda>d. d\<lparr>md_running := False\<rparr>) s)
      else if tick <s md_last_measure_time d + md_measure_interval d then Some (1, s)
      else
        let s1 = md_upd (\<lambda>d. d\<lparr>md_last_measure_time := tick\<rparr>) s
        in (case md_viewport s1 of
              None \<Rightarrow> Some (0, s1)
            | Some img \<Rightarrow> md_detect_picture P M V img s1))"

definition time_counter_capture :: "u32 \<Rightarrow> time_counter \<Rightarrow> time_counter" where
  "time_counter_capture tick t =
     (let l = tick - tc_tick_count t
      in t\<lparr>tc_last := l,
           tc_min := (if l < tc_min t then l else tc_min t),
           tc_max := (if l > tc_max t then l else tc_max t),
           tc_sum := tc_sum t + l,
           tc_count := tc_count t + 1\<rparr>)"

text \<open>The LED of the tuning aid, before and after the detection.\<close>

definition md_led_before :: "'a md_task_scheme \<Rightarrow> 'a md_task_scheme" where
  "md_led_before s =
     (if md_af_tuning s
      then if md_af_led_on s = 0
           then ext_call (CameraSetLed (cam_af_led s) 1 200)
                  (s\<lparr>md_af_led_on := -1, md_af_led_time := (md_af_led_time s)\<lparr>tc_tick_count := tick_count s\<rparr>\<rparr>)
           else if md_af_led_on s > 0 then s\<lparr>md_af_led_on := md_af_led_on s - 1\<rparr> else s
      else s)"

definition md_led_after :: "'a md_task_scheme \<Rightarrow> 'a md_task_scheme" where
  "md_led_after s =
     (if md_af_tuning s
      then let s1 = ext_call (CameraSetLed (cam_af_led s) 0 0) s
           in if md_return_value (motion_detector s1) \<noteq> 0
              then s1\<lparr>md_af_led_time := time_counter_capture (tick_count s1) (md_af_led_time s1)\<rparr> else s1
      else s)"

definition action_stack_AS_MOTION_DETECTOR ::
  "platform \<Rightarrow> 'b as_code \<Rightarrow> viewport \<Rightarrow> 'a md_task_scheme \<Rightarrow> (int \<times> 'a md_task_scheme) option" where
  "action_stack_AS_MOTION_DETECTOR P M V s = do {
     (r, s1) \<leftarrow> md_detect_motion P M V (md_led_before s);
     if r = 0 then do {
       let s2 = (if md_return_value (motion_detector s1) \<noteq> 0
                 then s1\<lparr>md_detect_tick := tick_count s1\<rparr> else s1);
       let s3 = md_led_after s2;
       let s4 = ext_call (ScriptSetAsRet (word_of_int (md_return_value (motion_detector s3)))) s3;
       (_, s5) \<leftarrow> action_pop_func 0 s4;
       Some (1, s5) }
     else Some (0, s1) }"

section \<open>Reading the grid\<close>

definition md_outside :: "motion_detector_s \<Rightarrow> int \<Rightarrow> int \<Rightarrow> bool" where
  "md_outside d column row \<longleftrightarrow> column < 1 \<or> column > md_columns d \<or> row < 1 \<or> row > md_rows d"

definition md_xy2idx :: "motion_detector_s \<Rightarrow> int \<Rightarrow> int \<Rightarrow> int" where
  "md_xy2idx d x y = y * md_columns d + x"

definition md_get_cell_val :: "int \<Rightarrow> int \<Rightarrow> motion_detector_s \<Rightarrow> int option" where
  "md_get_cell_val column row d =
     (if md_outside d column row then Some 0
      else let i = md_xy2idx d (column - 1) (row - 1)
        in if i < MOTION_DETECTOR_CELLS \<and> md_points d \<noteq> 0
           then Some (md_prev d ! nat i sdiv md_points d) else None)"

definition md_get_cell_diff :: "int \<Rightarrow> int \<Rightarrow> motion_detector_s \<Rightarrow> int option" where
  "md_get_cell_diff column row d =
     (if md_outside d column row then Some 0
      else let i = md_xy2idx d (column - 1) (row - 1)
        in if i < MOTION_DETECTOR_CELLS then Some (uint (md_diff d ! nat i)) else None)"

section \<open>Drawing the grid\<close>

datatype md_colour = MdGreen | MdRed

datatype md_shape =
    MdString int int int md_colour
  | MdRectangle int int int int md_colour

definition md_draw_cell ::
  "viewport \<Rightarrow> motion_detector_s \<Rightarrow> int \<Rightarrow> int \<Rightarrow> int \<Rightarrow> int \<Rightarrow> int \<Rightarrow> int \<Rightarrow> int \<Rightarrow> md_shape list option" where
  "md_draw_cell V d row col i x_start x_end y_start y_end =
     (if md_measured d row col
      then if 0 \<le> i \<and> i < MOTION_DETECTOR_CELLS
        then let diff = uint (md_diff d ! nat i);
                 c = (if diff > md_threshold d then MdRed else MdGreen)
          in Some ((if md_grid d AND 2 \<noteq> 0 then [MdString (x_start + 4) (y_start + 2) diff c] else []) @
                   (if md_grid d AND 1 \<noteq> 0
                    then [MdRectangle (x_start + 2) (y_start + 2) (x_end - 2) (y_end - 2) c] else []))
        else None
      else Some [])"

fun md_draw_cols ::
  "viewport \<Rightarrow> motion_detector_s \<Rightarrow> int \<Rightarrow> int \<Rightarrow> int \<Rightarrow> int list \<Rightarrow> int \<times> int \<Rightarrow>
   (int \<times> md_shape list) option" where
  "md_draw_cols V d row y_start y_end [] (i, x_end) = Some (i, [])"
| "md_draw_cols V d row y_start y_end (col # cols) (i, x_end) = do {
     let x_start = x_end;
     let x_end' = vp_display_xoffset V +
                    ((col + 1) * (screen_width V - vp_display_xoffset V * 2)) sdiv md_columns d;
     cell \<leftarrow> md_draw_cell V d row col i x_start x_end' y_start y_end;
     (i', rest) \<leftarrow> md_draw_cols V d row y_start y_end cols (i + 1, x_end');
     Some (i', cell @ rest) }"

fun md_draw_rows ::
  "viewport \<Rightarrow> motion_detector_s \<Rightarrow> int list \<Rightarrow> int \<times> int \<Rightarrow> md_shape list option" where
  "md_draw_rows V d [] (i, y_end) = Some []"
| "md_draw_rows V d (row # rows) (i, y_end) = do {
     let y_start = y_end;
     let y_end' = vp_display_yoffset V +
                    ((row + 1) * (screen_height V - vp_display_yoffset V * 2)) sdiv md_rows d;
     (i', cells) \<leftarrow> md_draw_cols V d row y_start y_end' [0..md_columns d - 1] (i, vp_display_xoffset V);
     rest \<leftarrow> md_draw_rows V d rows (i', y_end');
     Some (cells @ rest) }"

text \<open>The calls of \<open>md_draw_grid\<close> to the drawing routines; no script ends while it draws.\<close>

definition md_draw_grid :: "viewport \<Rightarrow> 'a md_task_scheme \<Rightarrow> md_shape list option" where
  "md_draw_grid V s =
     (let d = motion_detector s in
      if \<not> md_running d \<or> md_grid d = 0 \<or> state_kbd_script_run s = 0 then Some []
      else md_draw_rows V d [0..md_rows d - 1] (0, vp_display_yoffset V))"

definition md_module_can_unload :: "'a md_task_scheme \<Rightarrow> bool" where
  "md_module_can_unload s \<longleftrightarrow> state_kbd_script_run s = SCRIPT_STATE_INACTIVE"

end
