(* ===== verification/MotionCells.thy ===== *)
theory MotionCells
  imports MotionDetector
begin

text \<open>
  What a measurement of the motion detector computes. The loops over the rows and bytes of a cell sum the
  values at a list of sample positions, all inside the viewport when it has the size the camera
  reports and a cell is at least a pixel wide and high; the loops over the grid compare the averages with
  the previous ones, once per cell.
\<close>

section \<open>Integers\<close>

lemma c_int_same: "- (2 ^ 31) \<le> x \<Longrightarrow> x < 2 ^ 31 \<Longrightarrow> c_int x = x"
  unfolding c_int_def by (simp add: sint_sbintrunc' signed_take_bit_int_eq_self)

lemma c_int_range: "- (2 ^ 31) \<le> c_int x" "c_int x < 2 ^ 31"
  using sint_ge [of "word_of_int x :: u32"] sint_lt [of "word_of_int x :: u32"] by (simp_all add: c_int_def)

lemma sdiv_nonneg: "0 \<le> a \<Longrightarrow> 0 \<le> b \<Longrightarrow> (a :: int) sdiv b = a div b"
  by (simp add: signed_divide_int_def sgn_if)

lemma smod_nonneg: "0 \<le> a \<Longrightarrow> 0 \<le> b \<Longrightarrow> (a :: int) smod b = a mod b"
  by (cases "a = 0") (simp_all add: signed_modulo_int_def)

section \<open>Sample positions\<close>

function md_offsets :: "int \<Rightarrow> int \<Rightarrow> int \<Rightarrow> int list" where
  "md_offsets step to x = (if x < to \<and> 0 < step then x # md_offsets step to (x + step) else [])"
  by pat_completeness auto
termination by (relation "measure (\<lambda>(step, to, x). nat (to - x))") auto

declare md_offsets.simps [simp del]

lemma md_offsets_bounds: "z \<in> set (md_offsets step to x) \<Longrightarrow> x \<le> z \<and> z < to"
proof (induction step to x rule: md_offsets.induct)
  case (1 step to x)
  then show ?case by (subst (asm) md_offsets.simps) (auto split: if_splits)
qed

lemma md_offsets_dvd:
  "z \<in> set (md_offsets step to x) \<Longrightarrow> k dvd step \<Longrightarrow> k dvd x \<Longrightarrow> k dvd z"
proof (induction step to x rule: md_offsets.induct)
  case (1 step to x)
  then show ?case by (subst (asm) md_offsets.simps) (auto split: if_splits)
qed

lemma md_offsets_count:
  assumes "0 < r" "r \<le> step"
  shows "int (length (md_offsets step to x)) * r \<le> max 0 (to - x + r - 1)"
  using assms(2)
proof (induction step to x rule: md_offsets.induct)
  case (1 step to x)
  show ?case
  proof (cases "x < to")
    case True
    then have "int (length (md_offsets step to x)) = 1 + int (length (md_offsets step to (x + step)))"
      using 1 assms(1) by (subst md_offsets.simps) simp
    then have "int (length (md_offsets step to x)) * r =
        r + int (length (md_offsets step to (x + step))) * r"
      by (simp add: algebra_simps)
    with 1 assms(1) True show ?thesis by auto
  next
    case False
    then show ?thesis by (subst md_offsets.simps) simp
  qed
qed

lemma md_offsets_nonempty: "x < to \<Longrightarrow> 0 < step \<Longrightarrow> md_offsets step to x \<noteq> []"
  by (subst md_offsets.simps) simp

section \<open>The loops of a cell\<close>

text \<open>The value at a position, where it can be read.\<close>

definition md_pixel :: "viewport \<Rightarrow> int \<Rightarrow> u8 list \<Rightarrow> int \<Rightarrow> int \<Rightarrow> int" where
  "md_pixel V mode img y x = (case md_value V mode img y x of Some v \<Rightarrow> v | None \<Rightarrow> 0)"

lemma u8_range: "0 \<le> uint (b :: u8)" "uint (b :: u8) \<le> 255" "- 128 \<le> sint (b :: u8)" "sint (b :: u8) \<le> 127"
  using uint_ge_0 [of b] uint_bounded [of b] sint_ge [of b] sint_lt [of b] by simp_all

lemma md_clip_range: "0 \<le> md_clip_value v" "md_clip_value v \<le> 255"
  by (auto simp: md_clip_value_def)

lemma u8_abs: "\<bar>uint (b :: u8)\<bar> \<le> 255" "\<bar>sint (b :: u8)\<bar> \<le> 255" "\<bar>md_clip_value v\<bar> \<le> 255"
  using u8_range [of b] md_clip_range [of v] by linarith+

lemma md_value_range: "md_value V mode img y x = Some v \<Longrightarrow> \<bar>v\<bar> \<le> 255"
  by (auto simp: md_value_def Let_def Option.bind_eq_Some_conv u8_abs simp del: abs_of_nonneg split: if_splits)

lemma md_pixel_range: "\<bar>md_pixel V mode img y x\<bar> \<le> 255"
  by (auto simp: md_pixel_def split: option.splits dest: md_value_range)

lemma sum_list_range: "(\<And>v. v \<in> set vs \<Longrightarrow> \<bar>v\<bar> \<le> (255 :: int)) \<Longrightarrow> \<bar>sum_list vs\<bar> \<le> 255 * int (length vs)"
  by (induction vs) fastforce+

definition acc_ok :: "int \<times> int \<Rightarrow> bool" where
  "acc_ok a \<longleftrightarrow> 0 \<le> snd a \<and> snd a \<le> 2 ^ 22 \<and> \<bar>fst a\<bar> \<le> 255 * snd a"

lemma md_scan_row_sum:
  assumes "0 < step" "0 \<le> x" "to + step < 2 ^ 31" "\<not> (vp_thumb_fw V \<and> x_start + md_xs V \<ge> to)"
    and "\<And>z. z \<in> set (md_offsets step to x) \<Longrightarrow> md_value V mode img y z \<noteq> None"
    and "acc_ok a" "snd a + int (length (md_offsets step to x)) \<le> 2 ^ 22"
  shows "md_scan_row V mode img y x_start to step x a =
    Some (fst a + sum_list (map (md_pixel V mode img y) (md_offsets step to x)),
          snd a + int (length (md_offsets step to x)))"
  using assms
proof (induction step to x arbitrary: a rule: md_offsets.induct)
  case (1 step to x)
  show ?case
  proof (cases "x < to")
    case True
    have u: "md_offsets step to x = x # md_offsets step to (x + step)"
      using True "1.prems"(1) by (subst md_offsets.simps) simp
    obtain v where v: "md_value V mode img y x = Some v" using "1.prems"(5) [of x] u by auto
    have vr: "\<bar>v\<bar> \<le> 255" using md_value_range [OF v] .
    let ?a = "(fst a + v, snd a + 1)"
    have ok: "acc_ok ?a" using "1.prems"(6,7) u vr by (auto simp: acc_ok_def)
    then have c: "c_int (fst a + v) = fst a + v" by (intro c_int_same) (auto simp: acc_ok_def)
    have x: "c_int (x + step) = x + step" using "1.prems" True by (intro c_int_same) auto
    have "md_scan_row V mode img y x_start to step x a = md_scan_row V mode img y x_start to step (x + step) ?a"
      using True "1.prems"(4) by (subst md_scan_row.simps) (simp add: v c x)
    also have "\<dots> = Some (fst ?a + sum_list (map (md_pixel V mode img y) (md_offsets step to (x + step))),
        snd ?a + int (length (md_offsets step to (x + step))))"
    proof (rule "1.IH")
      show "x < to \<and> 0 < step" using True "1.prems"(1) by simp
      show "md_value V mode img y z \<noteq> None" if "z \<in> set (md_offsets step to (x + step))" for z
        using "1.prems"(5) [of z] that u by auto
    qed (use "1.prems" u ok in auto)
    finally show ?thesis using u by (simp add: md_pixel_def [of V mode img y x] v)
  next
    case False
    then show ?thesis by (subst md_scan_row.simps, subst (1 2) md_offsets.simps) simp
  qed
qed

lemma md_scan_row_none:
  assumes "vp_thumb_fw V" "x_start + md_xs V \<ge> to"
  shows "md_scan_row V mode img y x_start to step x a = Some a"
  using assms by (subst md_scan_row.simps) simp

definition md_row_offsets :: "viewport \<Rightarrow> int \<Rightarrow> int \<Rightarrow> int \<Rightarrow> int list" where
  "md_row_offsets V x_start x_end x_step =
     (if vp_thumb_fw V \<and> x_start + md_xs V \<ge> x_end then [] else md_offsets x_step x_end x_start)"

definition md_samples :: "viewport \<Rightarrow> int \<Rightarrow> int \<Rightarrow> int \<Rightarrow> int \<Rightarrow> int \<Rightarrow> int \<Rightarrow> (int \<times> int) list" where
  "md_samples V x_start x_end x_step y_end y_step y =
     concat (map (\<lambda>y. map (Pair y) (md_row_offsets V x_start x_end x_step)) (md_offsets y_step y_end y))"

lemma md_scan_cell_sum:
  assumes "0 < y_step" "0 \<le> y" "y_end + y_step < 2 ^ 31"
    and "0 < x_step" "0 \<le> x_start" "x_end + x_step < 2 ^ 31"
    and "\<And>p. p \<in> set (md_samples V x_start x_end x_step y_end y_step y) \<Longrightarrow>
           md_value V mode img (fst p) (snd p) \<noteq> None"
    and "acc_ok a" "snd a + int (length (md_samples V x_start x_end x_step y_end y_step y)) \<le> 2 ^ 22"
  shows "md_scan_cell V mode img x_start x_end x_step y_end y_step y a =
    Some (fst a + sum_list (map (\<lambda>p. md_pixel V mode img (fst p) (snd p))
                     (md_samples V x_start x_end x_step y_end y_step y)),
          snd a + int (length (md_samples V x_start x_end x_step y_end y_step y)))"
  using assms
proof (induction y_step y_end y arbitrary: a rule: md_offsets.induct)
  case (1 y_step y_end y)
  let ?row = "md_row_offsets V x_start x_end x_step"
  show ?case
  proof (cases "y < y_end")
    case True
    have u: "md_samples V x_start x_end x_step y_end y_step y =
        map (Pair y) ?row @ md_samples V x_start x_end x_step y_end y_step (y + y_step)"
      unfolding md_samples_def using True "1.prems"(1) by (subst md_offsets.simps) simp
    let ?a = "(fst a + sum_list (map (md_pixel V mode img y) ?row), snd a + int (length ?row))"
    have row: "md_scan_row V mode img y x_start x_end x_step x_start a = Some ?a"
    proof (cases "vp_thumb_fw V \<and> x_start + md_xs V \<ge> x_end")
      case True
      then show ?thesis by (simp add: md_scan_row_none md_row_offsets_def)
    next
      case False
      then have r: "?row = md_offsets x_step x_end x_start" by (auto simp: md_row_offsets_def)
      show ?thesis unfolding r
      proof (rule md_scan_row_sum [OF "1.prems"(4,5,6) False _ "1.prems"(8)])
        show "md_value V mode img y z \<noteq> None" if "z \<in> set (md_offsets x_step x_end x_start)" for z
          using "1.prems"(7) [of "(y, z)"] that u r by auto
        show "snd a + int (length (md_offsets x_step x_end x_start)) \<le> 2 ^ 22"
          using "1.prems"(9) u r by simp
      qed
    qed
    have "\<bar>sum_list (map (md_pixel V mode img y) ?row)\<bar> \<le> 255 * int (length (map (md_pixel V mode img y) ?row))"
    proof (rule sum_list_range)
      show "\<bar>v\<bar> \<le> 255" if "v \<in> set (map (md_pixel V mode img y) ?row)" for v
        using that md_pixel_range by auto
    qed
    then have ok: "acc_ok ?a" using "1.prems"(8,9) u by (auto simp: acc_ok_def)
    have y: "c_int (y + y_step) = y + y_step" using "1.prems"(1-3) True by (intro c_int_same) auto
    have "md_scan_cell V mode img x_start x_end x_step y_end y_step y a =
        md_scan_cell V mode img x_start x_end x_step y_end y_step (y + y_step) ?a"
      using True by (subst md_scan_cell.simps) (simp add: row y)
    also have "\<dots> = Some (fst ?a + sum_list (map (\<lambda>p. md_pixel V mode img (fst p) (snd p))
                     (md_samples V x_start x_end x_step y_end y_step (y + y_step))),
          snd ?a + int (length (md_samples V x_start x_end x_step y_end y_step (y + y_step))))"
    proof (rule "1.IH")
      show "y < y_end \<and> 0 < y_step" using True "1.prems"(1) by simp
      show "md_value V mode img (fst p) (snd p) \<noteq> None"
        if "p \<in> set (md_samples V x_start x_end x_step y_end y_step (y + y_step))" for p
        using "1.prems"(7) [of p] that u by auto
    qed (use "1.prems" u ok in auto)
    finally show ?thesis using u by (simp add: o_def)
  next
    case False
    then have "md_samples V x_start x_end x_step y_end y_step y = []"
      unfolding md_samples_def by (subst md_offsets.simps) simp
    with False show ?thesis by (subst md_scan_cell.simps) simp
  qed
qed

section \<open>A grid that fits into the viewport\<close>

text \<open>The buffer has the size the camera reports, and rows of whole groups of pixels.\<close>

definition viewport_ok :: "viewport \<Rightarrow> u8 list \<Rightarrow> bool" where
  "viewport_ok V img \<longleftrightarrow>
     0 \<le> vp_image_offset V \<and> 0 < vp_height V \<and> 0 < vp_width V \<and> 0 < md_row_bytes V \<and>
     vp_height V * md_row_bytes V \<le> 2 ^ 22 \<and>
     vp_image_offset V + vp_height V * md_row_bytes V \<le> int (length img) \<and>
     (if vp_thumb_fw V then 2 * vp_width V \<le> md_row_bytes V \<and> md_row_bytes V mod 4 = 0
      else 3 * vp_width V \<le> md_row_bytes V)"

text \<open>
  The grid fits into the arrays, a cell is at least a row of pixels high and a pixel (of the newer cameras:
  four pixels) wide, and the steps do not overflow.
\<close>

definition grid_ok :: "viewport \<Rightarrow> motion_detector_s \<Rightarrow> bool" where
  "grid_ok V d \<longleftrightarrow>
     0 < md_columns d \<and> 0 < md_rows d \<and> md_columns d * md_rows d \<le> MOTION_DETECTOR_CELLS \<and>
     0 < md_pixels_step d \<and> md_pixels_step d * md_row_bytes V < 2 ^ 30 \<and>
     md_rows d \<le> vp_height V \<and> (if vp_thumb_fw V then 4 * md_columns d \<le> vp_width V
                                  else md_columns d \<le> vp_width V)"

lemma part_range:
  assumes "0 < n" "0 \<le> i" "i < n" "0 \<le> w"
  shows "0 \<le> i * w div n" "i * w div n + w div n \<le> (w :: int)"
proof -
  show "0 \<le> i * w div n" using assms by (simp add: pos_imp_zdiv_nonneg_iff)
  have "(i * w div n + w div n) * n = i * w div n * n + w div n * n" by (simp add: algebra_simps)
  also have "\<dots> \<le> i * w + w"
    using assms(1) by (intro add_mono) (simp_all add: minus_mod_eq_div_mult [symmetric])
  also have "\<dots> = (i + 1) * w" by (simp add: algebra_simps)
  also have "\<dots> \<le> n * w" using assms by (intro mult_right_mono) auto
  finally show "i * w div n + w div n \<le> w" using assms(1) by (simp add: mult.commute)
qed

lemma md_byte_there: "0 \<le> i \<Longrightarrow> i < int (length img) \<Longrightarrow> md_byte img i \<noteq> None"
  by (simp add: md_byte_def)

lemma md_value_there:
  assumes v: "viewport_ok V img" and y: "0 \<le> y" "y + md_row_bytes V \<le> vp_height V * md_row_bytes V"
    and x: "0 \<le> x" "if vp_thumb_fw V then 2 dvd x \<and> x < md_row_bytes V
                    else 3 dvd x \<and> x + 3 \<le> md_row_bytes V"
  shows "md_value V mode img y x \<noteq> None"
proof -
  let ?uvx = "if vp_thumb_fw V then x - x smod 4 else if x mod 2 = 1 then x - 3 else x"
  have x1: "x + 1 < md_row_bytes V" and u: "0 \<le> ?uvx" "?uvx + 2 < md_row_bytes V"
  proof -
    have "x + 1 < md_row_bytes V \<and> 0 \<le> ?uvx \<and> ?uvx + 2 < md_row_bytes V"
    proof (cases "vp_thumb_fw V")
      case True
      then have d: "2 dvd x" "x < md_row_bytes V" "4 dvd md_row_bytes V"
        using x v by (auto simp: viewport_ok_def mod_eq_0_iff_dvd)
      then have "x - x mod 4 + 4 \<le> md_row_bytes V" by presburger
      moreover have "x mod 4 \<le> 2" using d by presburger
      moreover have "x mod 4 \<le> x" "0 \<le> x mod 4" using x(1) by (simp_all add: zmod_le_nonneg_dividend)
      ultimately show ?thesis using True x(1) by (auto simp: smod_nonneg)
    next
      case False
      then have "3 dvd x" "x + 3 \<le> md_row_bytes V" using x by auto
      moreover have "x mod 2 = 1 \<Longrightarrow> 3 \<le> x" using \<open>3 dvd x\<close> x(1) by presburger
      ultimately show ?thesis using False x(1) by auto
    qed
    then show "x + 1 < md_row_bytes V" "0 \<le> ?uvx" "?uvx + 2 < md_row_bytes V" by auto
  qed
  have there: "md_byte img (vp_image_offset V + i) \<noteq> None" if "0 \<le> i" "i < y + md_row_bytes V" for i
    using that v y(2) by (intro md_byte_there) (auto simp: viewport_ok_def)
  obtain a where a: "md_byte img (vp_image_offset V + (y + x + 1)) = Some a"
    using there [of "y + x + 1"] x1 x(1) y(1) by auto
  obtain b where b: "md_byte img (vp_image_offset V + (y + ?uvx)) = Some b"
    using there [of "y + ?uvx"] u y(1) by auto
  obtain c where c: "md_byte img (vp_image_offset V + (y + ?uvx + 2)) = Some c"
    using there [of "y + ?uvx + 2"] u y(1) by auto
  show ?thesis unfolding md_value_def Let_def a b c by simp
qed

lemma md_steps:
  assumes v: "viewport_ok V img" and g: "grid_ok V d"
  shows "0 < md_x_step V d" "md_x_step V d < 2 ^ 30 + 4" "0 < md_y_step V d" "md_y_step V d < 2 ^ 30"
    "md_row_bytes V dvd md_y_step V d" "md_row_bytes V \<le> md_y_step V d"
    "vp_thumb_fw V \<Longrightarrow> 2 dvd md_x_step V d" "\<not> vp_thumb_fw V \<Longrightarrow> 3 dvd md_x_step V d"
proof -
  let ?p = "md_pixels_step d" and ?R = "md_row_bytes V"
  have p: "0 < ?p" "?p * ?R < 2 ^ 30" and R: "0 < ?R" "if vp_thumb_fw V then 2 \<le> ?R else 3 \<le> ?R"
    using v g by (auto simp: viewport_ok_def grid_ok_def)
  have ys: "md_y_step V d = ?p * ?R"
    unfolding md_y_step_def using p R by (intro c_int_same) (auto intro: order_trans [of _ 0])
  then show "0 < md_y_step V d" "md_y_step V d < 2 ^ 30" "?R dvd md_y_step V d" "?R \<le> md_y_step V d"
    using p R by auto
  have le: "vp_thumb_fw V \<Longrightarrow> ?p * 2 \<le> ?p * ?R" "\<not> vp_thumb_fw V \<Longrightarrow> ?p * 3 \<le> ?p * ?R"
    using p R by (auto intro: mult_left_mono)
  have lt: "vp_thumb_fw V \<Longrightarrow> ?p * 2 < 2 ^ 30" "\<not> vp_thumb_fw V \<Longrightarrow> ?p * 3 < 2 ^ 30"
    using le_less_trans [OF le(1) p(2)] le_less_trans [OF le(2) p(2)] by blast+
  then have xs: "vp_thumb_fw V \<Longrightarrow> c_int (?p * 2) = ?p * 2" "\<not> vp_thumb_fw V \<Longrightarrow> c_int (?p * 3) = ?p * 3"
    using p by (auto intro!: c_int_same)
  show "0 < md_x_step V d" "md_x_step V d < 2 ^ 30 + 4"
    "vp_thumb_fw V \<Longrightarrow> 2 dvd md_x_step V d" "\<not> vp_thumb_fw V \<Longrightarrow> 3 dvd md_x_step V d"
    using p xs lt by (cases "vp_thumb_fw V"; auto simp: md_x_step_def Let_def)+
qed

definition cell_samples :: "viewport \<Rightarrow> motion_detector_s \<Rightarrow> int \<Rightarrow> int \<Rightarrow> (int \<times> int) list" where
  "cell_samples V d row col =
     (let (y_start, y_end) = md_y_range V d row; (x_start, x_end) = md_x_range V d col
      in md_samples V x_start x_end (md_x_step V d) y_end (md_y_step V d) y_start)"

lemma md_y_range_ok:
  assumes v: "viewport_ok V img" and g: "grid_ok V d" and r: "0 \<le> row" "row < md_rows d"
    and y: "md_y_range V d row = (y_start, y_end)"
  shows "0 \<le> y_start" "y_start < y_end" "y_end \<le> vp_height V * md_row_bytes V"
    "md_row_bytes V dvd y_start" "md_row_bytes V dvd y_end"
proof -
  let ?R = "md_row_bytes V" and ?H = "vp_height V" and ?n = "md_rows d"
  have c: "0 < ?R" "0 < ?H" "0 < ?n" "?n \<le> ?H" using v g by (auto simp: viewport_ok_def grid_ok_def)
  have ye: "y_start = (row * ?H div ?n) * ?R" "y_end = y_start + (?H div ?n) * ?R"
    using y c r by (auto simp: md_y_range_def Let_def sdiv_nonneg)
  have p: "0 \<le> row * ?H div ?n" "row * ?H div ?n + ?H div ?n \<le> ?H"
    using part_range [of ?n row ?H] c r by auto
  have h: "0 < ?H div ?n" using c by (simp add: pos_imp_zdiv_pos_iff)
  show "0 \<le> y_start" "y_start < y_end" "?R dvd y_start" "?R dvd y_end" using ye p h c by auto
  have "y_end = (row * ?H div ?n + ?H div ?n) * ?R" using ye by (simp add: algebra_simps)
  also have "\<dots> \<le> ?H * ?R" using p c by (intro mult_right_mono) auto
  finally show "y_end \<le> ?H * ?R" .
qed

lemma md_x_range_ok:
  assumes v: "viewport_ok V img" and g: "grid_ok V d" and r: "0 \<le> col" "col < md_columns d"
    and x: "md_x_range V d col = (x_start, x_end)"
  shows "0 \<le> x_start" "x_start < x_end" "x_end \<le> md_row_bytes V"
    "vp_thumb_fw V \<Longrightarrow> 2 dvd x_start \<and> x_start + md_xs V < x_end"
    "\<not> vp_thumb_fw V \<Longrightarrow> 3 dvd x_start \<and> 3 dvd x_end"
proof -
  let ?R = "md_row_bytes V" and ?W = "vp_width V" and ?n = "md_columns d"
  have c: "0 < ?R" "0 < ?W" "0 < ?n" using v g by (auto simp: viewport_ok_def grid_ok_def)
  have "0 \<le> x_start \<and> x_start < x_end \<and> x_end \<le> ?R \<and>
      (vp_thumb_fw V \<longrightarrow> 2 dvd x_start \<and> x_start + md_xs V < x_end) \<and>
      (\<not> vp_thumb_fw V \<longrightarrow> 3 dvd x_start \<and> 3 dvd x_end)"
  proof (cases "vp_thumb_fw V")
    case True
    define a b where "a = col * (2 * ?W) div ?n" and "b = 2 * ?W div ?n"
    have p: "0 \<le> a" "a + b \<le> 2 * ?W" using part_range [of ?n col "2 * ?W"] c r by (auto simp: a_def b_def)
    have "8 * ?n \<le> 2 * ?W" "2 * ?W \<le> ?R" using True v g by (auto simp: viewport_ok_def grid_ok_def)
    moreover from this have "8 \<le> b" using zdiv_mono1 [of "8 * ?n" "2 * ?W" ?n] c by (simp add: b_def)
    moreover have "x_start = a + a mod 4" "x_end = a + b"
      using x True c r p by (auto simp: md_x_range_def Let_def sdiv_nonneg smod_nonneg a_def b_def md_xs_def
          mult.assoc mult.commute [of 2])
    moreover have "2 dvd a + a mod 4" by presburger
    moreover have "0 \<le> a mod 4" "a mod 4 \<le> 3" by presburger+
    ultimately show ?thesis using True p by (auto simp: md_xs_def)
  next
    case False
    define a b where "a = col * ?W div ?n" and "b = ?W div ?n"
    have p: "0 \<le> a" "a + b \<le> ?W" using part_range [of ?n col ?W] c r by (auto simp: a_def b_def)
    have "?n \<le> ?W" "3 * ?W \<le> ?R" using False v g by (auto simp: viewport_ok_def grid_ok_def)
    moreover from this have "0 < b" unfolding b_def using c by (simp add: pos_imp_zdiv_pos_iff)
    moreover have "x_start = a * 3" "x_end = a * 3 + b * 3"
      using x False c r by (auto simp: md_x_range_def Let_def sdiv_nonneg a_def b_def)
    ultimately show ?thesis using False p by auto
  qed
  then show "0 \<le> x_start" "x_start < x_end" "x_end \<le> md_row_bytes V"
    "vp_thumb_fw V \<Longrightarrow> 2 dvd x_start \<and> x_start + md_xs V < x_end"
    "\<not> vp_thumb_fw V \<Longrightarrow> 3 dvd x_start \<and> 3 dvd x_end" by auto
qed

lemma md_samples_ok:
  assumes v: "viewport_ok V img" and g: "grid_ok V d"
    and r: "0 \<le> row" "row < md_rows d" "0 \<le> col" "col < md_columns d"
  shows "p \<in> set (cell_samples V d row col) \<Longrightarrow> md_value V mode img (fst p) (snd p) \<noteq> None"
    and "int (length (cell_samples V d row col)) \<le> 2 ^ 22" and "cell_samples V d row col \<noteq> []"
proof -
  obtain y_start y_end where yr: "md_y_range V d row = (y_start, y_end)" by fastforce
  obtain x_start x_end where xr: "md_x_range V d col = (x_start, x_end)" by fastforce
  note ys = md_y_range_ok [OF v g r(1,2) yr] and xs = md_x_range_ok [OF v g r(3,4) xr]
    and st = md_steps [OF v g]
  let ?R = "md_row_bytes V" and ?ys = "md_offsets (md_y_step V d) y_end y_start"
    and ?xs = "md_offsets (md_x_step V d) x_end x_start"
  have R: "0 < ?R" "vp_height V * ?R \<le> 2 ^ 22" using v by (auto simp: viewport_ok_def)
  have row: "md_row_offsets V x_start x_end (md_x_step V d) = ?xs"
    using xs(4) by (auto simp: md_row_offsets_def)
  have s: "cell_samples V d row col = concat (map (\<lambda>y. map (Pair y) ?xs) ?ys)"
    by (simp add: cell_samples_def yr xr md_samples_def row)
  show "md_value V mode img (fst p) (snd p) \<noteq> None" if p: "p \<in> set (cell_samples V d row col)"
  proof (rule md_value_there [OF v])
    from p s have y: "fst p \<in> set ?ys" and x: "snd p \<in> set ?xs" by auto
    have "?R dvd fst p" "y_start \<le> fst p" "fst p < y_end"
      using md_offsets_bounds [OF y] md_offsets_dvd [OF y st(5) ys(4)] by auto
    then have "fst p + ?R \<le> y_end"
      using zdvd_imp_le [of ?R "y_end - fst p"] ys(5) by (simp add: dvd_diff)
    then show "fst p + ?R \<le> vp_height V * ?R" using ys(3) by simp
    show "0 \<le> fst p" using \<open>y_start \<le> fst p\<close> ys(1) by simp
    show "0 \<le> snd p" using md_offsets_bounds [OF x] xs(1) by simp
    show "if vp_thumb_fw V then 2 dvd snd p \<and> snd p < ?R else 3 dvd snd p \<and> snd p + 3 \<le> ?R"
    proof (cases "vp_thumb_fw V")
      case True
      then show ?thesis
        using md_offsets_bounds [OF x] md_offsets_dvd [OF x st(7)] xs(3,4) by auto
    next
      case False
      then have "3 dvd snd p" "3 dvd x_end" "snd p < x_end"
        using md_offsets_bounds [OF x] md_offsets_dvd [OF x st(8)] xs(5) by auto
      then have "snd p + 3 \<le> x_end" by presburger
      with False \<open>3 dvd snd p\<close> xs(3) show ?thesis by auto
    qed
  qed
  show "int (length (cell_samples V d row col)) \<le> 2 ^ 22"
  proof -
    obtain m where m: "y_end - y_start = ?R * m" using dvd_diff [OF ys(5,4)] by (auto elim: dvdE)
    have "int (length ?ys) * ?R \<le> y_end - y_start + ?R - 1"
      using md_offsets_count [OF R(1) st(6), of y_end y_start] ys(2) R(1) by simp
    then have "int (length ?ys) * ?R < (m + 1) * ?R" using m by (simp add: algebra_simps)
    then have "int (length ?ys) \<le> m" using R(1) by (simp add: mult_less_cancel_right)
    then have "int (length ?ys) * ?R \<le> m * ?R" using R(1) by (intro mult_right_mono) auto
    then have yR: "int (length ?ys) * ?R \<le> y_end - y_start" using m by (simp add: mult.commute)
    have "int (length ?xs) \<le> x_end - x_start"
      using md_offsets_count [of 1 "md_x_step V d" x_end x_start] st(1) xs(2) by simp
    then have xR: "int (length ?xs) \<le> ?R" using xs(1,3) by simp
    have "int (length (cell_samples V d row col)) = int (length ?ys) * int (length ?xs)"
      unfolding s by (simp add: length_concat o_def sum_list_triv)
    also have "\<dots> \<le> int (length ?ys) * ?R" using xR by (intro mult_left_mono) auto
    also have "\<dots> \<le> 2 ^ 22" using yR ys(1,3) R(2) by simp
    finally show ?thesis .
  qed
  show "cell_samples V d row col \<noteq> []"
    using md_offsets_nonempty [OF ys(2) st(3)] md_offsets_nonempty [OF xs(2) st(1)] s by auto
qed

section \<open>A cell\<close>

text \<open>The sum of the values of a cell, their number, and the change of their average.\<close>

definition cell_sum :: "viewport \<Rightarrow> u8 list \<Rightarrow> motion_detector_s \<Rightarrow> int \<Rightarrow> int \<Rightarrow> int" where
  "cell_sum V img d row col =
     sum_list (map (\<lambda>p. md_pixel V (md_pixel_measure_mode d) img (fst p) (snd p)) (cell_samples V d row col))"

definition cell_points :: "viewport \<Rightarrow> motion_detector_s \<Rightarrow> int \<Rightarrow> int \<Rightarrow> int" where
  "cell_points V d row col = int (length (cell_samples V d row col))"

definition cell_change :: "viewport \<Rightarrow> u8 list \<Rightarrow> motion_detector_s \<Rightarrow> int \<Rightarrow> int \<Rightarrow> int \<Rightarrow> int" where
  "cell_change V img d row col before = \<bar>(cell_sum V img d row col - before) sdiv cell_points V d row col\<bar>"

definition md_late :: "u32 \<Rightarrow> motion_detector_s \<Rightarrow> bool" where
  "md_late tick d \<longleftrightarrow> md_start_time d + md_msecs_before_trigger d <s tick"

lemma cell_sum_range:
  assumes v: "viewport_ok V img" and g: "grid_ok V d"
    and r: "0 \<le> row" "row < md_rows d" "0 \<le> col" "col < md_columns d"
  shows "\<bar>cell_sum V img d row col\<bar> \<le> 255 * 2 ^ 22"
proof -
  let ?vs = "map (\<lambda>p. md_pixel V (md_pixel_measure_mode d) img (fst p) (snd p)) (cell_samples V d row col)"
  have "\<bar>sum_list ?vs\<bar> \<le> 255 * int (length ?vs)"
  proof (rule sum_list_range)
    show "\<bar>v\<bar> \<le> 255" if "v \<in> set ?vs" for v using that md_pixel_range by auto
  qed
  with md_samples_ok(2) [OF v g r] show ?thesis by (simp add: cell_sum_def)
qed

lemma md_cell_result:
  assumes v: "viewport_ok V img" and g: "grid_ok V d"
    and r: "0 \<le> row" "row < md_rows d" "0 \<le> col" "col < md_columns d"
    and i: "0 \<le> idx" "idx < MOTION_DETECTOR_CELLS" and before: "\<bar>md_prev d ! nat idx\<bar> \<le> 255 * 2 ^ 22"
  shows "md_cell V img tick row col idx d =
    (if md_measured d row col
     then let change = cell_change V img d row col (md_prev d ! nat idx);
              d1 = d\<lparr>md_points := cell_points V d row col\<rparr>
       in md_store idx change (cell_sum V img d row col)
            (if change > md_threshold d \<and> md_late tick d
             then d1\<lparr>md_detected_cells := md_detected_cells d + 1\<rparr> else d1)
     else md_store idx 0 0 d)"
proof (cases "md_measured d row col")
  case True
  obtain y_start y_end where yr: "md_y_range V d row = (y_start, y_end)" by fastforce
  obtain x_start x_end where xr: "md_x_range V d col = (x_start, x_end)" by fastforce
  note ys = md_y_range_ok [OF v g r(1,2) yr] and xs = md_x_range_ok [OF v g r(3,4) xr]
    and st = md_steps [OF v g] and ok = md_samples_ok [OF v g r]
  have s: "md_samples V x_start x_end (md_x_step V d) y_end (md_y_step V d) y_start = cell_samples V d row col"
    by (simp add: cell_samples_def yr xr)
  have R: "vp_height V * md_row_bytes V \<le> 2 ^ 22" "md_row_bytes V \<le> 2 ^ 22"
  proof -
    show "vp_height V * md_row_bytes V \<le> 2 ^ 22" using v by (simp add: viewport_ok_def)
    moreover have "1 * md_row_bytes V \<le> vp_height V * md_row_bytes V"
      using v by (intro mult_right_mono) (auto simp: viewport_ok_def)
    ultimately show "md_row_bytes V \<le> 2 ^ 22" by simp
  qed
  have "md_scan_cell V (md_pixel_measure_mode d) img x_start x_end (md_x_step V d) y_end (md_y_step V d) y_start (0, 0) =
    Some (fst (0 :: int, 0 :: int) + sum_list (map (\<lambda>p. md_pixel V (md_pixel_measure_mode d) img (fst p) (snd p))
                     (md_samples V x_start x_end (md_x_step V d) y_end (md_y_step V d) y_start)),
          snd (0 :: int, 0 :: int) + int (length (md_samples V x_start x_end (md_x_step V d) y_end (md_y_step V d) y_start)))"
  proof (rule md_scan_cell_sum [OF st(3) ys(1) _ st(1) xs(1)])
    show "y_end + md_y_step V d < 2 ^ 31" "x_end + md_x_step V d < 2 ^ 31"
      using st(2,4) ys(3) xs(3) R by simp_all
  qed (use ok s in \<open>auto simp: acc_ok_def\<close>)
  then have scan: "md_scan_cell V (md_pixel_measure_mode d) img x_start x_end (md_x_step V d) y_end
      (md_y_step V d) y_start (0, 0) = Some (cell_sum V img d row col, cell_points V d row col)"
    unfolding s by (simp add: cell_sum_def cell_points_def)
  have n: "cell_points V d row col \<noteq> 0" using ok(3) by (simp add: cell_points_def)
  have "c_int (cell_sum V img d row col - md_prev d ! nat idx) = cell_sum V img d row col - md_prev d ! nat idx"
    using cell_sum_range [OF v g r] before by (intro c_int_same) (auto simp: abs_le_iff)
  then show ?thesis using True i n
    by (simp add: md_cell_def yr xr scan cell_change_def Let_def md_late_def)
next
  case False
  then show ?thesis by (simp add: md_cell_def)
qed

end
