(* ===== verification/MotionGrid.thy ===== *)
theory MotionGrid
  imports MotionCells
begin

text \<open>
  The measurement of the whole grid, and the detection as an action of a script's stack: what each cell's
  entry in the arrays is after a measurement, how many cells count as changed, and what the action
  leaves on the stack and reports to the script when it ends.
\<close>

section \<open>The grid as a list of cells\<close>

text \<open>Cell \<open>i\<close> of the arrays.\<close>

definition cell_row :: "motion_detector_s \<Rightarrow> nat \<Rightarrow> int" where "cell_row d i = int i div md_columns d"
definition cell_col :: "motion_detector_s \<Rightarrow> nat \<Rightarrow> int" where "cell_col d i = int i mod md_columns d"

definition md_counted :: "motion_detector_s \<Rightarrow> nat \<Rightarrow> bool" where
  "md_counted d i \<longleftrightarrow> md_measured d (cell_row d i) (cell_col d i)"

definition md_new_prev :: "viewport \<Rightarrow> u8 list \<Rightarrow> motion_detector_s \<Rightarrow> nat \<Rightarrow> int" where
  "md_new_prev V img d i = (if md_counted d i then cell_sum V img d (cell_row d i) (cell_col d i) else 0)"

definition md_new_diff :: "viewport \<Rightarrow> u8 list \<Rightarrow> motion_detector_s \<Rightarrow> nat \<Rightarrow> int" where
  "md_new_diff V img d i =
     (if md_counted d i then cell_change V img d (cell_row d i) (cell_col d i) (md_prev d ! i) else 0)"

text \<open>The average of the cell moved by more than the threshold.\<close>

definition md_changed :: "viewport \<Rightarrow> u8 list \<Rightarrow> motion_detector_s \<Rightarrow> nat \<Rightarrow> bool" where
  "md_changed V img d i \<longleftrightarrow> md_counted d i \<and> md_new_diff V img d i > md_threshold d"

definition arrays_ok :: "motion_detector_s \<Rightarrow> bool" where
  "arrays_ok d \<longleftrightarrow> length (md_prev d) = 1024 \<and> length (md_diff d) = 1024 \<and>
     (\<forall>v \<in> set (md_prev d). \<bar>v\<bar> \<le> 255 * 2 ^ 22)"

text \<open>Equal but for what a measurement writes.\<close>

definition same_config :: "motion_detector_s \<Rightarrow> motion_detector_s \<Rightarrow> bool" where
  "same_config d d' \<longleftrightarrow>
     d' = d\<lparr>md_prev := md_prev d', md_diff := md_diff d', md_points := md_points d',
            md_detected_cells := md_detected_cells d'\<rparr>"

lemma same_config_refl [simp]: "same_config d d"
  by (simp add: same_config_def)

lemma same_config_updates:
  "same_config d d' \<Longrightarrow> same_config d (d'\<lparr>md_points := n\<rparr>)"
  "same_config d d' \<Longrightarrow> same_config d (d'\<lparr>md_detected_cells := n\<rparr>)"
  "same_config d d' \<Longrightarrow> same_config d (d'\<lparr>md_diff := a, md_prev := b\<rparr>)"
  unfolding same_config_def by (erule ssubst, simp)+

lemma same_config_fields:
  assumes "same_config d d'"
  shows "md_columns d' = md_columns d" "md_rows d' = md_rows d" "md_threshold d' = md_threshold d"
    "md_start_time d' = md_start_time d" "md_msecs_before_trigger d' = md_msecs_before_trigger d"
    "md_previous_ready d' = md_previous_ready d" "md_parameters d' = md_parameters d"
    "md_measure_interval d' = md_measure_interval d" "md_timeout d' = md_timeout d"
    "md_running d' = md_running d" "md_return_value d' = md_return_value d"
    "md_pixels_step d' = md_pixels_step d" "md_pixel_measure_mode d' = md_pixel_measure_mode d"
    "md_measured d' = md_measured d" "cell_samples V d' = cell_samples V d"
    "grid_ok V d' = grid_ok V d" "md_late tick d' = md_late tick d"
  by (subst assms [unfolded same_config_def],
      simp add: md_measured_def md_in_region_def cell_samples_def md_y_range_def md_x_range_def
        md_x_step_def md_y_step_def grid_ok_def md_late_def fun_eq_iff)+

lemma same_config_cells:
  assumes "same_config d d'"
  shows "cell_sum V img d' row col = cell_sum V img d row col"
    "cell_points V d' row col = cell_points V d row col"
    "cell_change V img d' row col b = cell_change V img d row col b"
  using same_config_fields [OF assms] by (simp_all add: cell_sum_def cell_points_def cell_change_def)

text \<open>The state after the first \<open>k\<close> cells.\<close>

definition grid_done :: "viewport \<Rightarrow> u8 list \<Rightarrow> u32 \<Rightarrow> motion_detector_s \<Rightarrow> nat \<Rightarrow> motion_detector_s \<Rightarrow> bool" where
  "grid_done V img tick d0 k d \<longleftrightarrow>
     same_config d0 d \<and> arrays_ok d \<and>
     (\<forall>i < 1024. md_prev d ! i = (if i < k then md_new_prev V img d0 i else md_prev d0 ! i)) \<and>
     (\<forall>i < k. md_diff d ! i = word_of_int (md_new_diff V img d0 i)) \<and>
     md_detected_cells d = md_detected_cells d0 +
       (if md_late tick d0 then int (card {i. i < k \<and> md_changed V img d0 i}) else 0) \<and>
     ((\<exists>i < k. md_counted d0 i) \<longrightarrow>
        (\<exists>i < k. md_counted d0 i \<and> md_points d = cell_points V d0 (cell_row d0 i) (cell_col d0 i)))"

lemma grid_start: "arrays_ok d \<Longrightarrow> grid_done V img tick d 0 d"
  by (simp add: grid_done_def)

lemma card_below_Suc: "card {i. i < Suc k \<and> P i} = card {i. i < k \<and> P i} + (if P k then 1 else 0)"
proof -
  have "{i. i < Suc k \<and> P i} = (if P k then insert k {i. i < k \<and> P i} else {i. i < k \<and> P i})"
    by (auto simp: less_Suc_eq)
  then show ?thesis by simp
qed

lemma grid_step:
  assumes v: "viewport_ok V img" and g: "grid_ok V d0" and k: "grid_done V img tick d0 k d"
    and kn: "int k < md_columns d0 * md_rows d0"
  shows "\<exists>d'. md_cell V img tick (cell_row d0 k) (cell_col d0 k) (int k) d = Some d' \<and>
    grid_done V img tick d0 (Suc k) d'"
proof -
  let ?r = "cell_row d0 k" and ?c = "cell_col d0 k"
  have n: "0 < md_columns d0" "0 < md_rows d0" "md_columns d0 * md_rows d0 \<le> 1024"
    using g by (auto simp: grid_ok_def MOTION_DETECTOR_CELLS_def)
  have r: "0 \<le> ?r" "?r < md_rows d0" "0 \<le> ?c" "?c < md_columns d0"
  proof -
    show "0 \<le> ?r" "0 \<le> ?c" "?c < md_columns d0"
      using n by (simp_all add: cell_row_def cell_col_def pos_imp_zdiv_nonneg_iff)
    have le: "?r * md_columns d0 \<le> int k"
      using n by (simp add: cell_row_def minus_mod_eq_div_mult [symmetric])
    show "?r < md_rows d0"
    proof (rule ccontr)
      assume "\<not> ?thesis"
      then have "md_rows d0 * md_columns d0 \<le> ?r * md_columns d0" using n by (intro mult_right_mono) auto
      with le kn show False by (simp add: mult.commute)
    qed
  qed
  have k1: "k < 1024" using kn n by linarith
  have c: "same_config d0 d" and a: "arrays_ok d"
    and p: "\<And>i. i < 1024 \<Longrightarrow> md_prev d ! i = (if i < k then md_new_prev V img d0 i else md_prev d0 ! i)"
    and df: "\<And>i. i < k \<Longrightarrow> md_diff d ! i = word_of_int (md_new_diff V img d0 i)"
    and dc: "md_detected_cells d = md_detected_cells d0 +
       (if md_late tick d0 then int (card {i. i < k \<and> md_changed V img d0 i}) else 0)"
    and pt: "(\<exists>i < k. md_counted d0 i) \<longrightarrow>
        (\<exists>i < k. md_counted d0 i \<and> md_points d = cell_points V d0 (cell_row d0 i) (cell_col d0 i))"
    using k by (auto simp: grid_done_def)
  note f = same_config_fields [OF c] same_config_cells [OF c]
  have before: "md_prev d ! k = md_prev d0 ! k" using p [OF k1] by simp
  have bk: "\<bar>md_prev d ! nat (int k)\<bar> \<le> 255 * 2 ^ 22"
    using a k1 by (simp add: arrays_ok_def)
  have res: "md_cell V img tick ?r ?c (int k) d =
    (if md_measured d ?r ?c
     then let change = cell_change V img d ?r ?c (md_prev d ! nat (int k));
              d1 = d\<lparr>md_points := cell_points V d ?r ?c\<rparr>
       in md_store (int k) change (cell_sum V img d ?r ?c)
            (if change > md_threshold d \<and> md_late tick d
             then d1\<lparr>md_detected_cells := md_detected_cells d + 1\<rparr> else d1)
     else md_store (int k) 0 0 d)"
    using g r k1 bk by (intro md_cell_result [OF v]) (simp_all add: f MOTION_DETECTOR_CELLS_def)
  define e where "e = (if md_counted d0 k
     then let d1 = d\<lparr>md_points := cell_points V d0 ?r ?c\<rparr>
       in if md_changed V img d0 k \<and> md_late tick d0
          then d1\<lparr>md_detected_cells := md_detected_cells d + 1\<rparr> else d1
     else d)"
  define d' where "d' = e\<lparr>md_diff := (md_diff e)[k := word_of_int (md_new_diff V img d0 k)],
                         md_prev := (md_prev e)[k := md_new_prev V img d0 k]\<rparr>"
  have e: "md_prev e = md_prev d" "md_diff e = md_diff d" "same_config d0 e"
    using c by (auto simp: e_def Let_def intro: same_config_updates)
  have some: "md_cell V img tick ?r ?c (int k) d = Some d'"
    unfolding res d'_def e_def using k1
    by (auto simp: f before md_store_def MOTION_DETECTOR_CELLS_def Let_def md_counted_def md_changed_def
        md_new_diff_def md_new_prev_def)
  have small: "\<bar>md_new_prev V img d0 k\<bar> \<le> 255 * 2 ^ 22"
    using cell_sum_range [OF v g r] by (simp add: md_new_prev_def)
  have "arrays_ok d'"
    using a small by (auto simp: arrays_ok_def d'_def e dest!: set_update_subset_insert [THEN subsetD])
  moreover have "same_config d0 d'" unfolding d'_def using same_config_updates(3) [OF e(3)] .
  moreover have "md_prev d' ! i = (if i < Suc k then md_new_prev V img d0 i else md_prev d0 ! i)" if "i < 1024" for i
    using that p [OF that] a k1 by (auto simp: d'_def e arrays_ok_def nth_list_update less_Suc_eq)
  moreover have "md_diff d' ! i = word_of_int (md_new_diff V img d0 i)" if "i < Suc k" for i
    using that df a k1 by (auto simp: d'_def e arrays_ok_def nth_list_update less_Suc_eq)
  moreover have "md_detected_cells d' = md_detected_cells d0 +
       (if md_late tick d0 then int (card {i. i < Suc k \<and> md_changed V img d0 i}) else 0)"
    unfolding card_below_Suc by (auto simp: d'_def e_def Let_def dc md_changed_def)
  moreover have "(\<exists>i < Suc k. md_counted d0 i) \<longrightarrow>
        (\<exists>i < Suc k. md_counted d0 i \<and> md_points d' = cell_points V d0 (cell_row d0 i) (cell_col d0 i))"
  proof (cases "md_counted d0 k")
    case True
    then show ?thesis by (auto simp: d'_def e_def Let_def)
  next
    case False
    then show ?thesis using pt by (auto simp: d'_def e_def less_Suc_eq)
  qed
  ultimately show ?thesis using some by (auto simp: grid_done_def)
qed

lemma cell_position:
  assumes "0 < md_columns d" "0 \<le> row" "0 \<le> col" "col < md_columns d"
  shows "cell_row d (nat (row * md_columns d + col)) = row" "cell_col d (nat (row * md_columns d + col)) = col"
  using assms by (simp_all add: cell_row_def cell_col_def)

lemma row_done:
  assumes v: "viewport_ok V img" and g: "grid_ok V d0" and row: "0 \<le> row" "row < md_rows d0"
    and col: "0 \<le> col" "col \<le> md_columns d0" and k: "int k = row * md_columns d0 + col"
    and d: "grid_done V img tick d0 k d"
  shows "\<exists>d'. md_cells_of_row V img tick row [col..md_columns d0 - 1] (int k, d) =
      Some ((row + 1) * md_columns d0, d') \<and>
    grid_done V img tick d0 (nat ((row + 1) * md_columns d0)) d'"
  using col k d
proof (induction "nat (md_columns d0 - col)" arbitrary: col k d)
  case 0
  then have "col = md_columns d0" by simp
  with 0 have "int k = (row + 1) * md_columns d0" by (simp add: distrib_right)
  then have k: "int k = (row + 1) * md_columns d0" "nat ((row + 1) * md_columns d0) = k" by linarith+
  have e: "[col..md_columns d0 - 1] = []" using \<open>col = md_columns d0\<close> by simp
  show ?case
    by (rule exI [of _ d]) (simp only: e md_cells_of_row.simps k "0.prems"(4) simp_thms)
next
  case (Suc m)
  then have lt: "col < md_columns d0" by simp
  have m: "m = nat (md_columns d0 - (col + 1))" using Suc.hyps(2) by linarith
  have pos: "cell_row d0 k = row" "cell_col d0 k = col"
    using cell_position [of d0 row col, folded Suc.prems(3)] Suc.prems(1) lt row(1) by simp_all
  have "int k < (row + 1) * md_columns d0" using Suc.prems(3) lt by (simp add: algebra_simps)
  also have "\<dots> \<le> md_rows d0 * md_columns d0" using row lt Suc.prems(1) by (intro mult_right_mono) auto
  finally have "int k < md_columns d0 * md_rows d0" by (simp add: mult.commute)
  from grid_step [OF v g Suc.prems(4) this] obtain d1
    where d1: "md_cell V img tick row col (int k) d = Some d1" "grid_done V img tick d0 (Suc k) d1"
    by (auto simp: pos)
  have u: "[col..md_columns d0 - 1] = col # [col + 1..md_columns d0 - 1]"
    using lt by (simp add: upto_rec1)
  obtain d2 where "md_cells_of_row V img tick row [col + 1..md_columns d0 - 1] (int (Suc k), d1) =
      Some ((row + 1) * md_columns d0, d2)" "grid_done V img tick d0 (nat ((row + 1) * md_columns d0)) d2"
    using Suc.hyps(1) [of "col + 1" "Suc k" d1] m Suc.prems(1,3) lt d1(2) by auto
  then show ?case unfolding u by (simp add: d1(1) add.commute)
qed

lemma rows_done:
  assumes v: "viewport_ok V img" and g: "grid_ok V d0" and row: "0 \<le> row" "row \<le> md_rows d0"
    and d: "grid_done V img tick d0 (nat (row * md_columns d0)) d"
  shows "\<exists>d'. md_rows_of_grid V img tick [row..md_rows d0 - 1] (row * md_columns d0, d) =
      Some (md_rows d0 * md_columns d0, d') \<and>
    grid_done V img tick d0 (nat (md_rows d0 * md_columns d0)) d'"
  using row d
proof (induction "nat (md_rows d0 - row)" arbitrary: row d)
  case 0
  then have "row = md_rows d0" by simp
  with 0 show ?case by auto
next
  case (Suc m)
  then have lt: "row < md_rows d0" by simp
  have n: "0 < md_columns d0" using g by (simp add: grid_ok_def)
  have m: "m = nat (md_rows d0 - (row + 1))" using Suc.hyps(2) by linarith
  have c: "md_columns d = md_columns d0"
    using Suc.prems(3) same_config_fields(1) by (auto simp: grid_done_def)
  obtain d1 where d1: "md_cells_of_row V img tick row [0..md_columns d0 - 1] (row * md_columns d0, d) =
      Some ((row + 1) * md_columns d0, d1)" "grid_done V img tick d0 (nat ((row + 1) * md_columns d0)) d1"
    using row_done [OF v g Suc.prems(1) lt, of 0 "nat (row * md_columns d0)" tick d] Suc.prems n by auto
  have u: "[row..md_rows d0 - 1] = row # [row + 1..md_rows d0 - 1]"
    using lt by (simp add: upto_rec1)
  obtain d2 where "md_rows_of_grid V img tick [row + 1..md_rows d0 - 1] ((row + 1) * md_columns d0, d1) =
      Some (md_rows d0 * md_columns d0, d2)" "grid_done V img tick d0 (nat (md_rows d0 * md_columns d0)) d2"
    using Suc.hyps(1) [of "row + 1" d1] m Suc.prems(1) lt d1(2) by auto
  then show ?case unfolding u by (simp add: c d1(1))
qed

lemma measure_done:
  assumes v: "viewport_ok V img" and g: "grid_ok V d" and a: "arrays_ok d"
  shows "\<exists>d'. md_measure V img tick d = Some d' \<and>
    grid_done V img tick d (nat (md_rows d * md_columns d)) d'"
  using rows_done [OF v g, of 0 tick d] grid_start [OF a, of V img tick] g
  by (auto simp: md_measure_def grid_ok_def)

end
