(* ===== verification/MotionRun.thy ===== *)
theory MotionRun
  imports MotionGrid
begin

text \<open>
  The detection as a script sees it: \<open>md_init_motion_detector\<close> pushes an action on the script's stack, each
  keyboard timeslice runs it, and in the end it is gone from the stack, possibly replaced by the rest of an
  immediate shot, and has reported one number. Besides, the arguments with which this fails.
\<close>

section \<open>The action on the stack\<close>

definition md_words :: "'b as_code \<Rightarrow> u32 list" where
  "md_words M = [fn_addr M AS_MOTION_DETECTOR, AS_FUNC_ENTRY]"

text \<open>What an immediate shot leaves to do, the shutter being pressed already.\<close>

definition shot_frames :: "platform \<Rightarrow> u32 \<Rightarrow> frame list" where
  "shot_frames P parameters =
     (if parameters AND MD_DO_IMMEDIATE_SHOOT = 0 then []
      else (if 0 < cam_key_press_delay P then [FSleep (cam_key_press_delay P)] else []) @
           (if parameters AND MD_NO_SHUTTER_RELEASE_ON_SHOOT = 0
            then [FRelease (word_of_int KEY_SHOOT_FULL), FSleep (cam_key_release_delay P)] else []))"

definition set_as_rets :: "'a camera_scheme \<Rightarrow> u32 list" where
  "set_as_rets s = concat (map (\<lambda>c. case c of ScriptSetAsRet v \<Rightarrow> [v] | _ \<Rightarrow> []) (ext_calls s))"

lemma set_as_rets_simps [simp]:
  "set_as_rets (ext_call (ScriptSetAsRet v) s) = set_as_rets s @ [v]"
  "set_as_rets (ext_call (CameraSetLed a b c) s) = set_as_rets s"
  "set_as_rets (s\<lparr>tick_count := t\<rparr>) = set_as_rets s"
  "set_as_rets (m\<lparr>md_detect_tick := u\<rparr>) = set_as_rets m"
  "set_as_rets (m\<lparr>md_af_on_flag := f\<rparr>) = set_as_rets m"
  "motion_detector (ext_call e n) = motion_detector n"
  "tick_count (m\<lparr>md_detect_tick := u\<rparr>) = tick_count m"
  by (simp_all add: set_as_rets_def ext_call_def)

lemma same_words_md:
  assumes "same_but_words p s t"
  shows "motion_detector s = motion_detector t" "set_as_rets s = set_as_rets t" "tick_count s = tick_count t"
    "md_af_tuning s = md_af_tuning t" "md_viewport s = md_viewport t" "md_scan_ticks s = md_scan_ticks t"
  using assms by (auto simp: same_but_words_def upd_node_def set_as_rets_def)

lemma key_press_md [simp]:
  "motion_detector (kbd_key_press P k s) = motion_detector s"
  "set_as_rets (kbd_key_press P k s) = set_as_rets s"
  by (auto simp: kbd_key_press_def set_as_rets_def ext_call_def split: option.splits)

lemma on_top_fields [simp]:
  "on_top p ws (s\<lparr>motion_detector := d\<rparr>) = on_top p ws s"
  "on_top p ws (s\<lparr>md_af_led_on := n\<rparr>) = on_top p ws s"
  "on_top p ws (s\<lparr>md_af_led_time := c\<rparr>) = on_top p ws s"
  "on_top p ws (s\<lparr>md_viewport := v\<rparr>) = on_top p ws s"
  "on_top p ws (s\<lparr>md_scan_ticks := w\<rparr>) = on_top p ws s"
  "on_top p ws (s\<lparr>md_af_on_flag := f\<rparr>) = on_top p ws s"
  "on_top p ws (s\<lparr>md_detect_tick := t\<rparr>) = on_top p ws s"
  "on_top p ws (s\<lparr>tick_count := t\<rparr>) = on_top p ws s"
  "on_top p ws (s\<lparr>gui_osd_need_restore := b\<rparr>) = on_top p ws s"
  by (simp_all add: on_top_def)

text \<open>The scheduled shot lies under the action, which is taken off the stack next.\<close>

lemma sched_shot:
  assumes top: "on_top p (ws @ md_words M) s" and room: "length ws \<le> 37"
    and shoot: "par AND MD_DO_IMMEDIATE_SHOOT \<noteq> 0"
  shows "\<exists>s'. md_kbd_sched_immediate_shoot P M (par AND MD_NO_SHUTTER_RELEASE_ON_SHOOT) s = Some s' \<and>
    on_top p ((ws @ stack_words M (shot_frames P par)) @ md_words M) s' \<and>
    motion_detector s' = motion_detector s \<and> set_as_rets s' = set_as_rets s"
proof -
  obtain v s1 where s1: "action_pop_func 0 s = Some (v, s1)" "on_top p ws s1" "same_but_words p s1 s"
    using pop_func_holds [of p ws "fn_addr M AS_MOTION_DETECTOR" "[AS_FUNC_ENTRY]" s 0] top
    by (auto simp: md_words_def)
  define rel where "rel = (if par AND MD_NO_SHUTTER_RELEASE_ON_SHOOT = 0
    then [FRelease (word_of_int KEY_SHOOT_FULL), FSleep (cam_key_release_delay P)] else [])"
  define del where "del = (if 0 < cam_key_press_delay P then [FSleep (cam_key_press_delay P)] else [])"
  have len: "frames_len rel \<le> 6" "frames_len del \<le> 3" by (simp_all add: rel_def del_def)
  have push: "(if par AND MD_NO_SHUTTER_RELEASE_ON_SHOOT = 0
        then action_push_release P M (word_of_int KEY_SHOOT_FULL) t else Some t) = action_push_list (stack_words M rel) t"
    "(if 0 < cam_key_press_delay P
        then action_push_delay M (cam_key_press_delay P) t else Some t) = action_push_list (stack_words M del) t"
    "action_push_func M AS_MOTION_DETECTOR t = action_push_list (md_words M) t" for t
    by (simp_all add: rel_def del_def push_release_list push_delay_list push_func_list md_words_def
        del: action_push_list.simps)
  obtain s2 where s2: "action_push_list (stack_words M rel) s1 = Some s2"
      "on_top p (ws @ stack_words M rel) s2" "same_but_words p s2 s1"
    using push_list_holds [OF s1(2), of "stack_words M rel"] room len by auto
  obtain s3 where s3: "action_push_list (stack_words M del) s2 = Some s3"
      "on_top p ((ws @ stack_words M rel) @ stack_words M del) s3" "same_but_words p s3 s2"
    using push_list_holds [OF s2(2), of "stack_words M del"] room len by auto
  obtain s4 where s4: "action_push_list (md_words M) s3 = Some s4"
      "on_top p (((ws @ stack_words M rel) @ stack_words M del) @ md_words M) s4" "same_but_words p s4 s3"
    using push_list_holds [OF s3(2), of "md_words M"] room len by (auto simp: md_words_def)
  have "stack_words M (shot_frames P par) = stack_words M rel @ stack_words M del"
    using shoot by (simp add: shot_frames_def rel_def del_def)
  then show ?thesis
    using s1(1) s2(1) s3(1) s4(1,2) same_words_md [OF s1(3)] same_words_md [OF s2(3)]
      same_words_md [OF s3(3)] same_words_md [OF s4(3)]
    by (auto simp: md_kbd_sched_immediate_shoot_def push Let_def)
qed

section \<open>One timeslice\<close>

definition md_inv :: "viewport \<Rightarrow> 'a md_task_scheme \<Rightarrow> bool" where
  "md_inv V s \<longleftrightarrow> (let d = motion_detector s in
     grid_ok V d \<and> arrays_ok d \<and> md_running d \<and> md_detected_cells d \<ge> 0 \<and> md_return_value d = 0)"

definition md_on_stack :: "'b as_code \<Rightarrow> nat \<Rightarrow> u32 list \<Rightarrow> 'a as_state_scheme \<Rightarrow> bool" where
  "md_on_stack M p ws s \<longleftrightarrow> on_top p (ws @ md_words M) s \<and> length ws \<le> 37"

text \<open>The detection goes on, or is over with the value it reports, and leaves an immediate shot to do.\<close>

definition md_goes_on :: "viewport \<Rightarrow> 'b as_code \<Rightarrow> nat \<Rightarrow> u32 list \<Rightarrow> 'a md_task_scheme \<Rightarrow> bool" where
  "md_goes_on V M p ws s \<longleftrightarrow> md_on_stack M p ws s \<and> md_inv V s"

definition md_over :: "platform \<Rightarrow> 'b as_code \<Rightarrow> nat \<Rightarrow> u32 list \<Rightarrow> u32 list \<Rightarrow> 'a md_task_scheme \<Rightarrow> bool" where
  "md_over P M p ws rets s \<longleftrightarrow>
     (let v = md_return_value (motion_detector s);
          fs = (if v = 0 then [] else shot_frames P (md_parameters (motion_detector s)))
      in 0 \<le> v \<and> on_top p (ws @ stack_words M fs) s \<and> set_as_rets s = rets @ [word_of_int v])"

definition md_stage ::
  "platform \<Rightarrow> 'b as_code \<Rightarrow> viewport \<Rightarrow> nat \<Rightarrow> u32 list \<Rightarrow> u32 list \<Rightarrow> int \<Rightarrow> 'a md_task_scheme \<Rightarrow> bool" where
  "md_stage P M V p ws rets r s \<longleftrightarrow>
     (if r = 0 then md_goes_on V M p ws s \<and> set_as_rets s = rets else md_over P M p ws rets s)"

lemma detect_result:
  assumes st: "md_goes_on V M p ws s" and img: "\<And>img. md_viewport s = Some img \<Longrightarrow> viewport_ok V img"
  shows "\<exists>r s'. md_detect_motion P M V s = Some (r, s') \<and>
    set_as_rets s' = set_as_rets s \<and>
    (if r \<noteq> 0 then md_goes_on V M p ws s'
     else \<exists>fs. on_top p ((ws @ stack_words M fs) @ md_words M) s' \<and>
       (let d = motion_detector s' in md_return_value d = 0 \<and> fs = [] \<or>
          md_return_value d > 0 \<and> fs = shot_frames P (md_parameters d)))"
proof -
  let ?d = "motion_detector s" and ?t = "tick_count s"
  have inv: "md_running ?d" "grid_ok V ?d" "arrays_ok ?d" "md_detected_cells ?d \<ge> 0" "md_return_value ?d = 0"
    and top: "on_top p (ws @ md_words M) s" and room: "length ws \<le> 37"
    using st by (auto simp: md_goes_on_def md_inv_def md_on_stack_def Let_def)
  let ?s1 = "md_upd (\<lambda>d. d\<lparr>md_last_measure_time := ?t\<rparr>) s"
  show ?thesis
  proof (cases "md_start_time ?d + md_timeout ?d <s ?t")
    case True
    then show ?thesis using inv top
      by (auto simp: md_detect_motion_def md_upd_def set_as_rets_def Let_def intro!: exI [of _ "[]"])
  next
    case False
    note no_timeout = False
    show ?thesis
    proof (cases "?t <s md_last_measure_time ?d + md_measure_interval ?d")
      case True
      then show ?thesis using no_timeout inv st by (auto simp: md_detect_motion_def Let_def)
    next
      case False
      show ?thesis
      proof (cases "md_viewport s")
        case None
        then show ?thesis using no_timeout False inv top
          by (auto simp: md_detect_motion_def md_upd_def set_as_rets_def Let_def intro!: exI [of _ "[]"])
      next
        case (Some img)
        let ?d1 = "?d\<lparr>md_last_measure_time := ?t\<rparr>"
        have d1: "grid_ok V ?d1" "arrays_ok ?d1" using inv by (simp_all add: grid_ok_def arrays_ok_def)
        obtain d where d: "md_measure V img ?t ?d1 = Some d"
            "grid_done V img ?t ?d1 (nat (md_rows ?d1 * md_columns ?d1)) d"
          using measure_done [OF img [OF Some] d1] by blast
        have c: "same_config ?d1 d" "arrays_ok d" "md_detected_cells d \<ge> 0"
          using d(2) inv(4) by (auto simp: grid_done_def)
        have f: "grid_ok V d" "md_running d" "md_return_value d = 0" "md_parameters d = md_parameters ?d1"
          using same_config_fields [OF c(1)] d1 inv by auto
        have eq: "md_detect_motion P M V s = md_detect_picture P M V img ?s1"
          using no_timeout False inv Some by (simp add: md_detect_motion_def md_upd_def Let_def)
        consider (first) "\<not> md_previous_ready d"
          | (motion) "md_previous_ready d" "md_detected_cells d > 0"
              "md_start_time d + md_msecs_before_trigger d <s ?t"
          | (still) "md_previous_ready d"
              "\<not> (md_detected_cells d > 0 \<and> md_start_time d + md_msecs_before_trigger d <s ?t)"
          by blast
        then show ?thesis
        proof cases
          case first
          then show ?thesis using d(1) c f top room
            by (auto simp: eq md_detect_picture_def md_upd_def md_goes_on_def md_on_stack_def md_inv_def
                set_as_rets_def Let_def grid_ok_def arrays_ok_def)
        next
          case still
          then show ?thesis using d(1) c f top room
            by (auto simp: eq md_detect_picture_def md_upd_def md_goes_on_def md_on_stack_def md_inv_def
                set_as_rets_def Let_def)
        next
          case motion
          let ?d2 = "d\<lparr>md_running := False, md_return_value := md_detected_cells d\<rparr>"
          let ?s2 = "s\<lparr>motion_detector := ?d2\<rparr>"
          show ?thesis
          proof (cases "md_parameters d AND MD_DO_IMMEDIATE_SHOOT = 0")
            case True
            then show ?thesis using d(1) motion top
              by (auto simp: eq md_detect_picture_def md_upd_def set_as_rets_def shot_frames_def Let_def
                  intro!: exI [of _ "[]"])
          next
            case False
            obtain s3 where "md_kbd_sched_immediate_shoot P M
                  (md_parameters d AND MD_NO_SHUTTER_RELEASE_ON_SHOOT) ?s2 = Some s3"
                "on_top p ((ws @ stack_words M (shot_frames P (md_parameters d))) @ md_words M) s3"
                "motion_detector s3 = ?d2" "set_as_rets s3 = set_as_rets s"
              using sched_shot [of p ws M ?s2 "md_parameters d" P] top room False
              by (auto simp: set_as_rets_def)
            then show ?thesis using d(1) motion False
              by (auto simp: eq md_detect_picture_def md_upd_def Let_def)
          qed
        qed
      qed
    qed
  qed
qed

lemma led_before [simp]:
  "motion_detector (md_led_before s) = motion_detector s" "md_viewport (md_led_before s) = md_viewport s"
  "set_as_rets (md_led_before s) = set_as_rets s" "on_top p ws (md_led_before s) = on_top p ws s"
  "tick_count (md_led_before s) = tick_count s" "md_scan_ticks (md_led_before s) = md_scan_ticks s"
  by (auto simp: md_led_before_def set_as_rets_def ext_call_def on_top_def)

lemma led_after [simp]:
  "motion_detector (md_led_after s) = motion_detector s"
  "set_as_rets (md_led_after s) = set_as_rets s" "on_top p ws (md_led_after s) = on_top p ws s"
  by (auto simp: md_led_after_def set_as_rets_def ext_call_def Let_def on_top_def)

lemma slice_result:
  assumes st: "md_goes_on V M p ws s" and img: "\<And>img. md_viewport s = Some img \<Longrightarrow> viewport_ok V img"
  shows "\<exists>r s'. action_stack_AS_MOTION_DETECTOR P M V s = Some (r, s') \<and>
    md_stage P M V p ws (set_as_rets s) r s'"
proof -
  have "md_goes_on V M p ws (md_led_before s)"
    using st by (simp add: md_goes_on_def md_on_stack_def md_inv_def)
  from detect_result [OF this, of P] img obtain r s1
    where s1: "md_detect_motion P M V (md_led_before s) = Some (r, s1)" "set_as_rets s1 = set_as_rets s"
      and r: "if r \<noteq> 0 then md_goes_on V M p ws s1
        else \<exists>fs. on_top p ((ws @ stack_words M fs) @ md_words M) s1 \<and>
       (let d = motion_detector s1 in md_return_value d = 0 \<and> fs = [] \<or>
          md_return_value d > 0 \<and> fs = shot_frames P (md_parameters d))"
    by auto
  show ?thesis
  proof (cases "r = 0")
    case False
    with s1 r show ?thesis by (simp add: action_stack_AS_MOTION_DETECTOR_def md_stage_def)
  next
    case True
    define v where "v = md_return_value (motion_detector s1)"
    obtain fs where fs: "on_top p ((ws @ stack_words M fs) @ md_words M) s1"
        "v = 0 \<and> fs = [] \<or> v > 0 \<and> fs = shot_frames P (md_parameters (motion_detector s1))"
      using r True by (auto simp: Let_def v_def)
    define s4 where "s4 = ext_call (ScriptSetAsRet (word_of_int v))
      (md_led_after (if v \<noteq> 0 then s1\<lparr>md_detect_tick := tick_count s1\<rparr> else s1))"
    have top: "on_top p ((ws @ stack_words M fs) @ md_words M) s4"
      and md: "motion_detector s4 = motion_detector s1" "set_as_rets s4 = set_as_rets s @ [word_of_int v]"
      using fs(1) s1(2) by (simp_all add: s4_def)
    obtain w s5 where s5: "action_pop_func 0 s4 = Some (w, s5)" "on_top p (ws @ stack_words M fs) s5"
        "same_but_words p s5 s4"
      using pop_func_holds [of p "ws @ stack_words M fs" "fn_addr M AS_MOTION_DETECTOR" "[AS_FUNC_ENTRY]" s4 0] top
      by (auto simp: md_words_def)
    have "action_stack_AS_MOTION_DETECTOR P M V s = Some (1, s5)"
      using s1(1) True s5(1)
      by (auto simp: action_stack_AS_MOTION_DETECTOR_def s4_def v_def Let_def split: if_splits)
    moreover have "md_over P M p ws (set_as_rets s) s5"
      using s5(2) same_words_md [OF s5(3)] md fs(2) by (auto simp: md_over_def v_def Let_def)
    ultimately show ?thesis by (auto simp: md_stage_def)
  qed
qed

text \<open>After the deadline the detection ends with 0, whatever the camera shows.\<close>

lemma slice_timeout:
  assumes st: "md_goes_on V M p ws s"
    and late: "md_start_time (motion_detector s) + md_timeout (motion_detector s) <s tick_count s"
  shows "\<exists>s'. action_stack_AS_MOTION_DETECTOR P M V s = Some (1, s') \<and>
    on_top p ws s' \<and> set_as_rets s' = set_as_rets s @ [0]"
proof -
  let ?s1 = "md_upd (\<lambda>d. d\<lparr>md_running := False\<rparr>) (md_led_before s)"
  have run: "md_running (motion_detector s)" "md_return_value (motion_detector s) = 0"
    and top: "on_top p (ws @ md_words M) s"
    using st by (auto simp: md_goes_on_def md_inv_def md_on_stack_def Let_def)
  have det: "md_detect_motion P M V (md_led_before s) = Some (0, ?s1)"
    using run late by (simp add: md_detect_motion_def)
  define s4 where "s4 = ext_call (ScriptSetAsRet 0) (md_led_after ?s1)"
  have rets: "set_as_rets s4 = set_as_rets s @ [0]"
    by (simp add: s4_def md_upd_def) (simp add: set_as_rets_def md_led_before_def ext_call_def)
  have "on_top p (ws @ md_words M) s4" using top by (simp add: s4_def md_upd_def)
  then obtain w s5 where s5: "action_pop_func 0 s4 = Some (w, s5)" "on_top p ws s5" "same_but_words p s5 s4"
    using pop_func_holds [of p ws "fn_addr M AS_MOTION_DETECTOR" "[AS_FUNC_ENTRY]" s4 0]
    by (auto simp: md_words_def)
  have "action_stack_AS_MOTION_DETECTOR P M V s = Some (1, s5)"
    using det s5(1) run by (simp add: action_stack_AS_MOTION_DETECTOR_def s4_def md_upd_def Let_def)
  with s5(2) same_words_md(2) [OF s5(3)] rets show ?thesis by auto
qed

section \<open>A whole detection\<close>

text \<open>What the firmware gives in a timeslice: the clock, the active buffer, the time to scan it.\<close>

type_synonym md_input = "u32 \<times> u8 list option \<times> u32"

definition md_see :: "md_input \<Rightarrow> 'a md_task_scheme \<Rightarrow> 'a md_task_scheme" where
  "md_see i s = (case i of (t, img, w) \<Rightarrow> s\<lparr>tick_count := t, md_viewport := img, md_scan_ticks := w\<rparr>)"

fun md_run ::
  "platform \<Rightarrow> 'b as_code \<Rightarrow> viewport \<Rightarrow> md_input list \<Rightarrow> 'a md_task_scheme \<Rightarrow> (int \<times> 'a md_task_scheme) option" where
  "md_run P M V [] s = Some (0, s)"
| "md_run P M V (i # is) s = do {
     (r, s1) \<leftarrow> action_stack_AS_MOTION_DETECTOR P M V (md_see i s);
     if r \<noteq> 0 then Some (r, s1) else md_run P M V is s1 }"

definition md_input_ok :: "viewport \<Rightarrow> md_input \<Rightarrow> bool" where
  "md_input_ok V i \<longleftrightarrow> (case i of (t, img, w) \<Rightarrow> list_all (viewport_ok V) (case img of Some b \<Rightarrow> [b] | None \<Rightarrow> []))"

lemma see_md:
  "md_goes_on V M p ws s \<Longrightarrow> md_goes_on V M p ws (md_see i s)"
  "motion_detector (md_see i s) = motion_detector s"
  "md_input_ok V i \<Longrightarrow> md_viewport (md_see i s) = Some img \<Longrightarrow> viewport_ok V img"
  "set_as_rets (md_see i s) = set_as_rets s" "tick_count (md_see i s) = fst i"
  by (auto simp: md_see_def md_goes_on_def md_on_stack_def md_inv_def md_input_ok_def set_as_rets_def
      split: prod.splits option.splits)

lemma run_result:
  assumes "md_goes_on V M p ws s" and "list_all (md_input_ok V) is"
  shows "\<exists>r s'. md_run P M V is s = Some (r, s') \<and>
    md_stage P M V p ws (set_as_rets s) r s'"
  using assms
proof (induction "is" arbitrary: s)
  case (Cons i "is")
  obtain r s1 where s1: "action_stack_AS_MOTION_DETECTOR P M V (md_see i s) = Some (r, s1)"
      "md_stage P M V p ws (set_as_rets s) r s1"
    using slice_result [OF see_md(1) [OF Cons.prems(1)], of i P] see_md(3) [of V i s] Cons.prems(2)
    unfolding see_md(4) by auto
  show ?case
  proof (cases "r = 0")
    case True
    then have "md_goes_on V M p ws s1" "set_as_rets s1 = set_as_rets s" using s1(2) by (auto simp: md_stage_def)
    with Cons.IH [of s1] Cons.prems(2) s1 True show ?thesis by auto
  next
    case False
    then show ?thesis using s1 by auto
  qed
qed (simp add: md_stage_def)

lemma configure_fields:
  assumes "md_configure a t d = Some d'"
  shows "md_running d'" "md_detected_cells d' = 0" "md_return_value d' = 0" "\<not> md_previous_ready d'"
    "md_prev d' = md_prev d" "md_diff d' = md_diff d" "md_points d' = md_points d" "md_start_time d' = t"
    "md_msecs_before_trigger d' = at_least 0 (a_msecs_before_trigger a)"
    "md_timeout d' = at_least 0 (a_timeout a)" "md_parameters d' = a_parameters a"
    "md_measure_interval d' = at_least 0 (a_measure_interval a)"
    "md_last_measure_time d' = t - at_least 0 (a_measure_interval a)"
    "md_threshold d' = sint (at_least 0 (a_threshold a))"
  using assms by (auto simp: md_configure_def Let_def Option.bind_eq_Some_conv split: prod.splits)

lemma init_result:
  assumes cfg: "md_configure a (tick_count s) (motion_detector s) = Some d" and grid: "grid_ok V d"
    and arr: "arrays_ok (motion_detector s)" and top: "on_top p ws s" "length ws \<le> 37"
  shows "\<exists>s0. md_init_motion_detector M a s = Some (1, s0) \<and> md_goes_on V M p ws s0 \<and>
    motion_detector s0 = d \<and> set_as_rets s0 = set_as_rets s"
proof -
  let ?s = "s\<lparr>motion_detector := d, md_af_led_on := 100\<rparr>"
  obtain s1 where s1: "action_push_func M AS_MOTION_DETECTOR ?s = Some s1"
      "on_top p (ws @ md_words M) s1" "same_but_words p s1 ?s"
    using push_list_holds [of p ws ?s "md_words M"] top by (auto simp: push_func_list md_words_def)
  note f = same_words_md [OF s1(3)]
  have "arrays_ok d" using arr configure_fields [OF cfg] by (simp add: arrays_ok_def)
  then show ?thesis
    using cfg s1(1,2) f grid top configure_fields [OF cfg]
    by (auto simp: md_init_motion_detector_def gui_set_need_restore_def md_goes_on_def md_on_stack_def
        md_inv_def set_as_rets_def)
qed


end
