(* ===== verification/MotionFaults.thy ===== *)
theory MotionFaults
  imports MotionRun
begin

text \<open>
  What a measurement compares, and where the motion detector does not do what its arguments ask for: the
  first picture of a detection is counted, grids with cells narrower than a pixel divide by zero, and a product
  of columns and rows that wraps leaves the arrays.
\<close>

section \<open>A measurement\<close>

text \<open>C17: a measurement compares averages. In a buffer of the size the camera reports, with a grid that fits,
  \<open>md_measure\<close> returns and changes nothing but the arrays, the number of points and the number of detected cells. Each
  cell that the clipping region lets through gets the sum of the values at its sample positions as its entry for the next
  comparison, and the absolute change of its average as its difference; the others get 0. If the time before
  the trigger is over, the number of detected cells grows by the number of cells whose average has changed by more
  than the threshold; otherwise it stays.\<close>

theorem md_measurement_compares:
  assumes v: "viewport_ok V img" and g: "grid_ok V d" and a: "arrays_ok d"
  shows "\<exists>d'. md_measure V img tick d = Some d' \<and> same_config d d' \<and> arrays_ok d' \<and>
    (\<forall>row col i. 0 \<le> row \<and> row < md_rows d \<and> 0 \<le> col \<and> col < md_columns d \<and>
        i = nat (row * md_columns d + col) \<longrightarrow>
      (if md_measured d row col
       then md_prev d' ! i = cell_sum V img d row col \<and>
            md_diff d' ! i = word_of_int (cell_change V img d row col (md_prev d ! i))
       else md_prev d' ! i = 0 \<and> md_diff d' ! i = 0)) \<and>
    md_detected_cells d' = md_detected_cells d +
      (if md_late tick d
       then int (card {i. int i < md_rows d * md_columns d \<and> md_changed V img d i}) else 0)"
proof -
  obtain d' where d': "md_measure V img tick d = Some d'"
      "grid_done V img tick d (nat (md_rows d * md_columns d)) d'"
    using measure_done [OF v g a] by blast
  have n: "0 < md_columns d" "0 < md_rows d" "md_rows d * md_columns d \<le> 1024"
    using g by (auto simp: grid_ok_def MOTION_DETECTOR_CELLS_def mult.commute)
  have e: "{i. i < nat (md_rows d * md_columns d) \<and> md_changed V img d i} =
      {i. int i < md_rows d * md_columns d \<and> md_changed V img d i}"
    by (auto simp: zless_nat_eq_int_zless)
  have cell: "if md_measured d row col
       then md_prev d' ! i = cell_sum V img d row col \<and>
            md_diff d' ! i = word_of_int (cell_change V img d row col (md_prev d ! i))
       else md_prev d' ! i = 0 \<and> md_diff d' ! i = 0"
    if h: "0 \<le> row" "row < md_rows d" "0 \<le> col" "col < md_columns d" "i = nat (row * md_columns d + col)"
    for row col i
  proof -
    have "row * md_columns d + col < (row + 1) * md_columns d" using h by (simp add: algebra_simps)
    also have "\<dots> \<le> md_rows d * md_columns d" using h n by (intro mult_right_mono) auto
    finally have i: "i < nat (md_rows d * md_columns d)" "i < 1024" using h n by auto
    then have "md_prev d' ! i = md_new_prev V img d i" "md_diff d' ! i = word_of_int (md_new_diff V img d i)"
      using d'(2) by (auto simp: grid_done_def)
    then show ?thesis
      using cell_position [OF n(1) h(1,3,4)] h(5) by (simp add: md_new_prev_def md_new_diff_def md_counted_def)
  qed
  show ?thesis
    using d' cell e by (intro exI [of _ d']) (auto simp: grid_done_def)
qed

section \<open>The first picture\<close>

lemma pop_md: "action_pop_func n s = Some (w, s') \<Longrightarrow> motion_detector s' = motion_detector s"
proof -
  have pop: "action_pop s = Some (w, s') \<Longrightarrow> motion_detector s' = motion_detector s" for w and s s' :: "'a md_task_scheme"
    by (auto simp: action_pop_def upd_node_def Let_def split: option.splits if_splits)
  have pops: "action_pops k s = Some s' \<Longrightarrow> motion_detector s' = motion_detector s" for k and s s' :: "'a md_task_scheme"
    by (induction k arbitrary: s) (auto simp: Option.bind_eq_Some_conv dest: pop)
  show "action_pop_func n s = Some (w, s') \<Longrightarrow> motion_detector s' = motion_detector s"
    by (auto simp: action_pop_func_def Option.bind_eq_Some_conv dest!: pop pops)
qed

lemma push_md: "action_push v s = Some s' \<Longrightarrow> motion_detector s' = motion_detector s"
  by (auto simp: action_push_def upd_node_def Let_def split: option.splits if_splits)

lemma push_list_md: "action_push_list vs s = Some s' \<Longrightarrow> motion_detector s' = motion_detector s"
  by (induction vs arbitrary: s) (auto simp: Option.bind_eq_Some_conv dest: push_md)

lemma sched_md:
  assumes "md_kbd_sched_immediate_shoot P M n t = Some t'"
  shows "motion_detector t' = motion_detector t"
proof -
  obtain w t1 t2 t3 t4 where t: "action_pop_func 0 t = Some (w, t1)"
      "(if n = 0 then action_push_release P M (word_of_int KEY_SHOOT_FULL) t1 else Some t1) = Some t2"
      "(if 0 < cam_key_press_delay P then action_push_delay M (cam_key_press_delay P) t2 else Some t2) = Some t3"
      "action_push_func M AS_MOTION_DETECTOR t3 = Some t4"
      "t' = (let t5 = kbd_key_press P KEY_SHOOT_FULL t4 in if md_af_tuning t5 then t5\<lparr>md_af_on_flag := 1\<rparr> else t5)"
    using assms unfolding md_kbd_sched_immediate_shoot_def by (auto simp: Option.bind_eq_Some_conv Let_def)
  have "motion_detector t' = motion_detector t4" using t(5) by (simp add: Let_def)
  also have "\<dots> = motion_detector t3" using push_list_md [OF t(4) [unfolded push_func_list]] .
  also have "\<dots> = motion_detector t2"
    using t(3) push_list_md [of _ t2 t3] by (cases "0 < cam_key_press_delay P") (auto simp only: push_delay_list if_True if_False option.inject)
  also have "\<dots> = motion_detector t1"
    using t(2) push_list_md [of _ t1 t2] by (cases "n = 0") (auto simp only: push_release_list simp_thms if_True if_False option.inject)
  also have "\<dots> = motion_detector t" using pop_md [OF t(1)] .
  finally show ?thesis .
qed

lemma action_detects:
  assumes "action_stack_AS_MOTION_DETECTOR P M V s = Some (r', s')"
    and "md_detect_motion P M V (md_led_before s) = Some (r, s1)"
  shows "motion_detector s' = motion_detector s1" "r' = (if r = 0 then 1 else 0)"
  using assms by (auto simp: action_stack_AS_MOTION_DETECTOR_def Let_def Option.bind_eq_Some_conv
      split: if_splits dest!: pop_md)

text \<open>A timeslice in which a picture is measured.\<close>

definition md_measures_now :: "'a md_task_scheme \<Rightarrow> bool" where
  "md_measures_now s \<longleftrightarrow> (let d = motion_detector s in
     \<not> md_start_time d + md_timeout d <s tick_count s \<and>
     \<not> tick_count s <s md_last_measure_time d + md_measure_interval d)"

lemma picture_slice:
  assumes st: "md_goes_on V M p ws s" and now: "md_measures_now s"
    and img: "md_viewport s = Some img" "viewport_ok V img"
    and meas: "md_measure V img (tick_count s) ((motion_detector s)\<lparr>md_last_measure_time := tick_count s\<rparr>) = Some d"
  shows "\<exists>r s'. action_stack_AS_MOTION_DETECTOR P M V s = Some (r, s') \<and>
    md_stage P M V p ws (set_as_rets s) r s' \<and>
    (if \<not> md_previous_ready d
     then r = 0 \<and> motion_detector s' = d\<lparr>md_previous_ready := True,
         md_start_time := tick_count s + md_scan_ticks s,
         md_last_measure_time := tick_count s + md_scan_ticks s - md_measure_interval d\<rparr>
     else if md_detected_cells d > 0 \<and> md_late (tick_count s) d
     then r = 1 \<and> md_return_value (motion_detector s') = md_detected_cells d
     else r = 0 \<and> motion_detector s' = d)"
proof -
  let ?b = "md_led_before s"
  have run: "md_running (motion_detector s)" using st by (simp add: md_goes_on_def md_inv_def Let_def)
  obtain r s' where r: "action_stack_AS_MOTION_DETECTOR P M V s = Some (r, s')"
      "md_stage P M V p ws (set_as_rets s) r s'"
    using slice_result [OF st, of P] img by auto
  obtain q s1 where q: "md_detect_motion P M V ?b = Some (q, s1)"
    using r(1) by (auto simp: action_stack_AS_MOTION_DETECTOR_def Option.bind_eq_Some_conv)
  have eq: "md_detect_motion P M V ?b =
      md_detect_picture P M V img (md_upd (\<lambda>d. d\<lparr>md_last_measure_time := tick_count s\<rparr>) ?b)"
    using run now img by (simp add: md_detect_motion_def md_measures_now_def md_upd_def Let_def)
  have "if \<not> md_previous_ready d
     then q = 1 \<and> motion_detector s1 = d\<lparr>md_previous_ready := True,
         md_start_time := tick_count s + md_scan_ticks s,
         md_last_measure_time := tick_count s + md_scan_ticks s - md_measure_interval d\<rparr>
     else if md_detected_cells d > 0 \<and> md_late (tick_count s) d
     then q = 0 \<and> md_return_value (motion_detector s1) = md_detected_cells d
     else q = 1 \<and> motion_detector s1 = d"
  proof -
    let ?t = "(md_upd (\<lambda>d. d\<lparr>md_last_measure_time := tick_count s\<rparr>) ?b)\<lparr>motion_detector := d\<rparr>"
    have m: "md_measure V img (tick_count (md_upd (\<lambda>d. d\<lparr>md_last_measure_time := tick_count s\<rparr>) ?b))
        (motion_detector (md_upd (\<lambda>d. d\<lparr>md_last_measure_time := tick_count s\<rparr>) ?b)) = Some d"
      using meas by (simp add: md_upd_def)
    show ?thesis
    proof (cases "md_previous_ready d \<and> md_detected_cells d > 0 \<and> md_late (tick_count s) d")
      case False
      then show ?thesis using q m unfolding eq
        by (auto simp: md_detect_picture_def md_upd_def md_late_def Let_def)
    next
      case True
      let ?u = "md_upd (\<lambda>d. d\<lparr>md_running := False, md_return_value := md_detected_cells d\<rparr>) ?t"
      have "q = 0 \<and> motion_detector s1 = motion_detector ?u"
      proof (cases "md_parameters d AND MD_DO_IMMEDIATE_SHOOT = 0")
        case noshot: True
        then show ?thesis using q m True unfolding eq
          by (simp add: md_detect_picture_def md_upd_def md_late_def Let_def)
      next
        case do_shoot: False
        then obtain u where "md_kbd_sched_immediate_shoot P M
            (md_parameters d AND MD_NO_SHUTTER_RELEASE_ON_SHOOT) ?u = Some u" "q = 0" "s1 = u"
          using q m True unfolding eq
          by (auto simp: md_detect_picture_def md_upd_def md_late_def Let_def Option.bind_eq_Some_conv)
        with sched_md show ?thesis by blast
      qed
      with True show ?thesis by (simp add: md_upd_def)
    qed
  qed
  then show ?thesis using r action_detects [OF r(1) q] by (auto split: if_splits)
qed

text \<open>Measuring the same picture again finds no change.\<close>

lemma cell_change_same: "cell_change V img d row col (cell_sum V img d row col) = 0"
  by (simp add: cell_change_def)

lemma counted_config:
  assumes "same_config d d'"
  shows "md_counted d' i = md_counted d i" "cell_row d' i = cell_row d i" "cell_col d' i = cell_col d i"
  using same_config_fields [OF assms] by (simp_all add: md_counted_def cell_row_def cell_col_def)

lemma changed_upd:
  "md_changed V img (d\<lparr>md_last_measure_time := t\<rparr>) = md_changed V img d"
  "md_changed V img (d\<lparr>md_start_time := t\<rparr>) = md_changed V img d"
  "md_changed V img (d\<lparr>md_previous_ready := b\<rparr>) = md_changed V img d"
  by (auto simp: fun_eq_iff md_changed_def md_counted_def md_new_diff_def cell_row_def cell_col_def
      md_measured_def md_in_region_def cell_change_def cell_sum_def cell_points_def cell_samples_def
      md_y_range_def md_x_range_def md_x_step_def md_y_step_def)

lemma no_change_again:
  assumes d: "grid_done V img t d0 n d" and i: "i < n" "n \<le> 1024" and th: "0 \<le> md_threshold d0"
  shows "\<not> md_changed V img d i"
proof -
  have c: "same_config d0 d" and p: "md_prev d ! i = md_new_prev V img d0 i"
    using d i by (auto simp: grid_done_def)
  have "md_new_diff V img d i = 0"
    using p by (simp add: md_new_diff_def counted_config [OF c] same_config_cells [OF c] md_new_prev_def
        cell_change_same)
  then show ?thesis using th same_config_fields(3) [OF c] by (simp add: md_changed_def)
qed

text \<open>C35: the first picture counts. A detection compares each picture with the previous one, and has none when
  it starts; yet it compares its first picture with what the last detection, or nobody, left in the
  arrays, and keeps the count. With no time before the trigger, as in every script that leaves the last argument of
  \<open>md_detect_motion\<close> at its default, let the first picture differ from the arrays in \<open>n\<close> cells, and let the camera
  see the very same picture in the next measurement. Then the detection ends there, having seen no motion at all, and
  reports \<open>n\<close> changed cells.\<close>

theorem md_first_picture_triggers:
  assumes cfg: "md_configure a (tick_count s) (motion_detector s) = Some d" and grid: "grid_ok V d"
    and arr: "arrays_ok (motion_detector s)" and top: "on_top p ws s" "length ws \<le> 37"
    and img: "viewport_ok V img" and before: "a_msecs_before_trigger a = 0"
    and t1: "tick_count s <s t1" "\<not> tick_count s + md_timeout d <s t1"
    and t2: "t1 + w <s t2" "\<not> t1 + w + md_timeout d <s t2"
    and diff: "0 < card {i. int i < md_rows d * md_columns d \<and> md_changed V img d i}"
  shows "\<exists>s0 s'. md_init_motion_detector M a s = Some (1, s0) \<and>
    md_run P M V [(t1, Some img, w), (t2, Some img, w2)] s0 = Some (1, s') \<and>
    set_as_rets s' = set_as_rets s @
      [of_nat (card {i. int i < md_rows d * md_columns d \<and> md_changed V img d i})]"
proof -
  let ?n = "nat (md_rows d * md_columns d)"
  let ?N = "card {i. int i < md_rows d * md_columns d \<and> md_changed V img d i}"
  have N: "{i. i < ?n \<and> md_changed V img d i} = {i. int i < md_rows d * md_columns d \<and> md_changed V img d i}"
    by (auto simp: zless_nat_eq_int_zless)
  have n: "?n \<le> 1024" using grid by (auto simp: grid_ok_def MOTION_DETECTOR_CELLS_def mult.commute)
  note cf = configure_fields [OF cfg]
  have ms: "md_msecs_before_trigger d = 0" using cf before by (simp add: at_least_def)
  have th: "0 \<le> md_threshold d" using cf(14) by (auto simp: at_least_def)
  obtain s0 where s0: "md_init_motion_detector M a s = Some (1, s0)" "md_goes_on V M p ws s0"
      "motion_detector s0 = d" "set_as_rets s0 = set_as_rets s"
    using init_result [OF cfg grid arr top] by blast
  let ?i1 = "(t1, Some img, w)" and ?i2 = "(t2, Some img, w2)"
  let ?d0 = "d\<lparr>md_last_measure_time := t1\<rparr>"
  have d0: "grid_ok V ?d0" "arrays_ok ?d0" using grid arr cf(5,6) by (simp_all add: grid_ok_def arrays_ok_def)
  obtain d1 where d1: "md_measure V img t1 ?d0 = Some d1" "grid_done V img t1 ?d0 ?n d1"
    using measure_done [OF img d0, of t1] by auto
  have c1: "same_config ?d0 d1" "arrays_ok d1" using d1(2) by (auto simp: grid_done_def)
  have det1: "md_detected_cells d1 = int ?N" and r1: "\<not> md_previous_ready d1"
    using d1(2) cf ms t1(1) same_config_fields(6) [OF c1(1)]
    by (simp_all add: grid_done_def md_late_def changed_upd N)
  have now1: "md_measures_now (md_see ?i1 s0)"
    using t1 cf s0(3) by (simp add: md_measures_now_def md_see_def signed.not_less_iff_gr_or_eq signed.less_imp_le)
  obtain s1 where s1: "action_stack_AS_MOTION_DETECTOR P M V (md_see ?i1 s0) = Some (0, s1)"
      "md_stage P M V p ws (set_as_rets s) 0 s1"
      "motion_detector s1 = d1\<lparr>md_previous_ready := True, md_start_time := t1 + w,
         md_last_measure_time := t1 + w - md_measure_interval d1\<rparr>"
    using picture_slice [OF see_md(1) [OF s0(2)] now1, of img d1 P] img d1(1) r1 s0(3,4)
    by (auto simp: see_md(4)) (auto simp: md_see_def)
  have go1: "md_goes_on V M p ws s1" "set_as_rets s1 = set_as_rets s" using s1(2) by (auto simp: md_stage_def)
  let ?d2 = "(motion_detector s1)\<lparr>md_last_measure_time := t2\<rparr>"
  have d2: "grid_ok V ?d2" "arrays_ok ?d2"
    using go1(1) by (auto simp: md_goes_on_def md_inv_def grid_ok_def arrays_ok_def Let_def)
  obtain d3 where d3: "md_measure V img t2 ?d2 = Some d3"
      "grid_done V img t2 ?d2 (nat (md_rows ?d2 * md_columns ?d2)) d3"
    using measure_done [OF img d2, of t2] by blast
  have c3: "same_config ?d2 d3" using d3(2) by (auto simp: grid_done_def)
  have f1: "md_rows ?d2 = md_rows d" "md_columns ?d2 = md_columns d" "md_msecs_before_trigger ?d2 = 0"
    "md_timeout ?d2 = md_timeout d" "md_measure_interval d1 = md_measure_interval d"
    using same_config_fields [OF c1(1)] ms by (simp_all add: s1(3))
  have "{i. i < ?n \<and> md_changed V img ?d2 i} = {}"
    using no_change_again [OF d1(2) _ n] th by (auto simp: s1(3) changed_upd)
  then have det3: "md_detected_cells d3 = int ?N"
    using d3(2) f1 det1 by (simp add: grid_done_def s1(3))
  have r3: "md_previous_ready d3" "md_late t2 d3"
    using same_config_fields [OF c3] f1 t2(1) by (simp_all add: s1(3) md_late_def)
  have now2: "md_measures_now (md_see ?i2 s1)"
    using t2 f1 by (simp add: md_measures_now_def md_see_def s1(3) signed.less_imp_le signed.not_less)
  obtain s' where s': "action_stack_AS_MOTION_DETECTOR P M V (md_see ?i2 s1) = Some (1, s')"
      "md_stage P M V p ws (set_as_rets s) 1 s'" "md_return_value (motion_detector s') = int ?N"
    using picture_slice [OF see_md(1) [OF go1(1)] now2, of img d3 P] img d3(1) r3 det3 diff go1(2)
    by (auto simp: see_md(2,4)) (auto simp: md_see_def)
  then have "set_as_rets s' = set_as_rets s @ [of_nat ?N]"
    by (auto simp: md_stage_def md_over_def Let_def)
  then show ?thesis using s0(1) s1(1) s'(1) by auto
qed

section \<open>Grids that fail\<close>

lemma fit_grid:
  assumes "1 \<le> columns" "1 \<le> rows" "columns * rows < 2 ^ 31"
  shows "\<exists>c r. md_fit_grid columns rows = Some (c, r) \<and> 1 \<le> c \<and> c \<le> columns \<and> 1 \<le> r \<and> r \<le> rows \<and>
    c * r \<le> MOTION_DETECTOR_CELLS \<and> (columns * rows \<le> MOTION_DETECTOR_CELLS \<longrightarrow> c = columns \<and> r = rows)"
  using assms
proof (induction "nat (columns + rows)" arbitrary: columns rows rule: less_induct)
  case less
  have "0 \<le> columns * rows" using less.prems by (intro mult_nonneg_nonneg) auto
  then have c: "c_int (columns * rows) = columns * rows"
    using less.prems(3) by (intro c_int_same) (rule order_trans [rotated], assumption, simp)+
  show ?case
  proof (cases "columns * rows > MOTION_DETECTOR_CELLS")
    case False
    then show ?thesis using less.prems by (subst md_fit_grid.simps) (auto simp: c)
  next
    case True
    show ?thesis
    proof (cases "columns > rows")
      case True
      have "(columns - 1) * rows < 2 ^ 31" using less.prems by (simp add: left_diff_distrib)
      then show ?thesis
        using less.hyps [of "columns - 1" rows] less.prems True \<open>columns * rows > _\<close>
        by (subst md_fit_grid.simps) (auto simp: c)
    next
      case False
      have r: "1 < rows"
      proof (rule ccontr)
        assume "\<not> 1 < rows"
        then have "columns * rows \<le> 1 * 1" using False less.prems by (intro mult_mono) auto
        with \<open>columns * rows > _\<close> show False by (simp add: MOTION_DETECTOR_CELLS_def)
      qed
      have "columns * (rows - 1) < 2 ^ 31" using less.prems by (simp add: right_diff_distrib)
      then show ?thesis
        using less.hyps [of columns "rows - 1"] less.prems False r \<open>columns * rows > _\<close>
        by (subst md_fit_grid.simps) (auto simp: c)
    qed
  qed
qed

text \<open>A cell without a byte has no values.\<close>

lemma scan_row_empty: "md_scan_row V mode img y x to step x' a = Some a' \<Longrightarrow> to \<le> x' \<Longrightarrow> a' = a"
  by (subst (asm) md_scan_row.simps) simp

lemma scan_cell_empty:
  assumes "md_scan_cell V mode img x_start x_end x_step y_end y_step y a = Some a'" and "x_end \<le> x_start"
  shows "a' = a"
proof -
  have "x_end \<le> x_start \<longrightarrow> a' = a"
  proof (rule md_scan_cell.raw_induct [where P = "\<lambda>V mode img x_start x_end x_step y_end y_step y a a'.
      x_end \<le> x_start \<longrightarrow> a' = a", OF _ assms(1)])
    show "x_end \<le> x_start \<longrightarrow> b = a"
      if IH: "\<And>V mode img x_start x_end x_step y_end y_step y a b.
            f V mode img x_start x_end x_step y_end y_step y a = Some b \<Longrightarrow> x_end \<le> x_start \<longrightarrow> b = a"
        and eq: "(if y < y_end then md_scan_row V mode img y x_start x_end x_step x_start a \<bind>
             f V mode img x_start x_end x_step y_end y_step (c_int (y + y_step)) else Some a) = Some b"
      for f V mode img x_start x_end x_step y_end y_step y a b
      using eq by (auto simp: Option.bind_eq_Some_conv split: if_splits dest!: scan_row_empty dest: IH)
  qed
  with assms(2) show ?thesis by simp
qed

lemma store_config: "md_store i x y d = Some d' \<Longrightarrow> same_config d d'"
  by (auto simp: md_store_def same_config_def split: if_splits)

lemma same_config_trans: "same_config d e \<Longrightarrow> same_config e f \<Longrightarrow> same_config d f"
  unfolding same_config_def by (erule ssubst) (erule ssubst, simp)

definition md_narrow :: "viewport \<Rightarrow> motion_detector_s \<Rightarrow> bool" where
  "md_narrow V d \<longleftrightarrow> \<not> vp_thumb_fw V \<and> 0 \<le> vp_width V \<and> vp_width V < md_columns d"

lemma narrow_cell:
  assumes "md_narrow V d" "md_measured d row col"
  shows "md_cell V img tick row col idx d = None"
proof -
  obtain y_start y_end where yr: "md_y_range V d row = (y_start, y_end)" by fastforce
  obtain x_start x_end where xr: "md_x_range V d col = (x_start, x_end)" by fastforce
  have "vp_width V sdiv md_columns d = 0" using assms(1) by (simp add: md_narrow_def sdiv_nonneg)
  then have x: "x_end \<le> x_start" using xr assms(1) by (auto simp: md_x_range_def md_narrow_def Let_def)
  show ?thesis
  proof (cases "md_scan_cell V (md_pixel_measure_mode d) img x_start x_end (md_x_step V d) y_end
      (md_y_step V d) y_start (0, 0)")
    case None
    then show ?thesis using assms(2) by (simp add: md_cell_def yr xr)
  next
    case (Some a)
    with scan_cell_empty [OF Some x] show ?thesis using assms(2) by (simp add: md_cell_def yr xr)
  qed
qed

lemma bad_row:
  assumes "\<And>e idx. same_config d e \<Longrightarrow> md_cell V img tick row col idx e = None" and "col \<in> set cols"
    and other: "\<And>e e' idx c. same_config d e \<Longrightarrow> md_cell V img tick row c idx e = Some e' \<Longrightarrow> same_config d e'"
    and "same_config d e"
  shows "md_cells_of_row V img tick row cols (idx, e) = None"
  using assms(2,4)
proof (induction cols arbitrary: idx e)
  case (Cons c cols)
  show ?case
  proof (cases "md_cell V img tick row c idx e")
    case (Some e')
    then show ?thesis using Cons assms(1) other [OF Cons.prems(2) Some] by auto
  qed simp
qed simp

lemma cell_config:
  assumes "md_cell V img tick row col idx e = Some e'"
  shows "same_config e e'"
proof (cases "md_measured e row col")
  case False
  with assms show ?thesis by (auto simp: md_cell_def dest: store_config)
next
  case True
  have "\<exists>e1 x y. md_store idx x y e1 = Some e' \<and> same_config e e1"
    using assms True
    by (auto simp: md_cell_def Let_def Option.bind_eq_Some_conv split: if_splits prod.splits)
      (blast intro: same_config_updates same_config_refl)+
  then show ?thesis using same_config_trans store_config by blast
qed

lemma row_config:
  "md_cells_of_row V img tick row cols (idx, e) = Some (idx', e') \<Longrightarrow>
   same_config e e' \<and> idx' = idx + int (length cols)"
proof (induction cols arbitrary: idx e)
  case (Cons c cols)
  then obtain e1 where e1: "md_cell V img tick row c idx e = Some e1"
      "md_cells_of_row V img tick row cols (idx + 1, e1) = Some (idx', e')"
    by (auto simp: Option.bind_eq_Some_conv)
  show ?case using Cons.IH [OF e1(2)] same_config_trans [OF cell_config [OF e1(1)]] by auto
qed simp

lemma bad_rows:
  assumes bad: "\<And>e idx. same_config d e \<Longrightarrow> md_cells_of_row V img tick row [0..md_columns d - 1] (idx, e) = None"
    and row: "row \<in> set rows" and e: "same_config d e"
  shows "md_rows_of_grid V img tick rows (idx, e) = None"
  using row e
proof (induction rows arbitrary: idx e)
  case (Cons r rows)
  have c: "md_columns e = md_columns d" using same_config_fields(1) [OF Cons.prems(2)] .
  show ?case
  proof (cases "md_cells_of_row V img tick r [0..md_columns d - 1] (idx, e)")
    case (Some q)
    obtain i' e' where q: "q = (i', e')" by fastforce
    have "same_config d e'" using same_config_trans [OF Cons.prems(2)] row_config Some q by blast
    then show ?thesis using Cons bad Some q c by auto
  qed (simp add: c)
qed simp

lemma outside_row:
  assumes "0 \<le> idx" "idx \<le> MOTION_DETECTOR_CELLS" "MOTION_DETECTOR_CELLS < idx + int (length cols)"
  shows "md_cells_of_row V img tick row cols (idx, e) = None"
  using assms
proof (induction cols arbitrary: idx e)
  case (Cons c cols)
  show ?case
  proof (cases "idx = MOTION_DETECTOR_CELLS")
    case True
    have "md_cell V img tick row c idx e = None"
    proof (cases "md_cell V img tick row c idx e")
      case (Some e')
      then show ?thesis using True
        by (auto simp: md_cell_def md_store_def Let_def Option.bind_eq_Some_conv split: if_splits prod.splits)
    qed
    then show ?thesis by simp
  next
    case False
    then show ?thesis using Cons by (cases "md_cell V img tick row c idx e") auto
  qed
qed simp

lemma outside_grid:
  assumes "MOTION_DETECTOR_CELLS < md_columns d" "0 < md_rows d"
  shows "md_measure V img tick d = None"
proof -
  have "[0..md_rows d - 1] = 0 # [1..md_rows d - 1]" using assms(2) by (simp add: upto_rec1)
  moreover have "md_cells_of_row V img tick 0 [0..md_columns d - 1] (0, d) = None"
    using assms(1) by (intro outside_row) (simp_all add: MOTION_DETECTOR_CELLS_def)
  ultimately show ?thesis by (simp add: md_measure_def)
qed

text \<open>Two kinds of grids, both accepted, end in undefined behaviour at the first measurement. A grid with more
  columns than the viewport has pixels in a row (it may have up to 1024) has cells of width zero: if the
  clipping region lets any cell through, its average divides by zero. And the check that the grid fits into the arrays
  of 1024 cells multiplies as 32-bit integers: 65536 columns of 65536 rows multiply to 0 and are accepted as they
  are, and the measurement leaves the arrays in its first row.\<close>

theorem md_bad_grids:
  shows "md_narrow V d \<Longrightarrow> 0 \<le> row \<Longrightarrow> row < md_rows d \<Longrightarrow> 0 \<le> col \<Longrightarrow> col < md_columns d \<Longrightarrow>
      md_measured d row col \<Longrightarrow> md_measure V img tick d = None"
    and "a_columns a = 0x10000 \<Longrightarrow> a_rows a = 0x10000 \<Longrightarrow>
      \<exists>d'. md_configure a tick d = Some d' \<and> md_columns d' = 65536 \<and> md_rows d' = 65536 \<and>
        md_measure V img tick' d' = None"
proof -
  assume h: "md_narrow V d" "0 \<le> row" "row < md_rows d" "0 \<le> col" "col < md_columns d" "md_measured d row col"
  have cell: "md_cell V img tick row col idx e = None" if e: "same_config d e" for e idx
    using narrow_cell [of V e row col] h same_config_fields [OF e] by (simp add: md_narrow_def)
  have "md_cells_of_row V img tick row [0..md_columns d - 1] (idx, e) = None" if "same_config d e" for idx e
  proof (rule bad_row [OF cell _ _ that])
    show "col \<in> set [0..md_columns d - 1]" using h by simp
    show "same_config d e'" if "same_config d e" "md_cell V img tick row c i e = Some e'" for e e' i c
      using same_config_trans [OF that(1) cell_config [OF that(2)]] .
  qed
  then show "md_measure V img tick d = None"
    using bad_rows [of d V img tick row "[0..md_rows d - 1]" d 0] h by (simp add: md_measure_def)
next
  assume h: "a_columns a = 0x10000" "a_rows a = 0x10000"
  have "md_fit_grid 65536 65536 = Some (65536, 65536)"
    by (subst md_fit_grid.simps) (simp add: c_int_def MOTION_DETECTOR_CELLS_def)
  then obtain d' where d': "md_configure a tick d = Some d'" "md_columns d' = 65536" "md_rows d' = 65536"
    using h by (simp add: md_configure_def Let_def)
  then show "\<exists>d'. md_configure a tick d = Some d' \<and> md_columns d' = 65536 \<and> md_rows d' = 65536 \<and>
        md_measure V img tick' d' = None"
    using outside_grid [of d' V img tick'] by (simp add: MOTION_DETECTOR_CELLS_def)
qed

section \<open>Examples\<close>

text \<open>A viewport of two rows of four pixels, two grey pictures, and a script's empty stack.\<close>

definition demo_view :: viewport where
  "demo_view = \<lparr>vp_thumb_fw = False, vp_image_offset = 0, vp_height = 2, vp_width = 4, vp_byte_width = 12,
     vp_yscale = 1, vp_display_xoffset = 0, vp_display_yoffset = 0, screen_width = 360, screen_height = 240\<rparr>"

definition demo_picture :: "u8 list" where "demo_picture = replicate 24 100"

definition md_static :: motion_detector_s where
  "md_static = \<lparr>md_prev = replicate 1024 0, md_diff = replicate 1024 0, md_columns = 0, md_rows = 0,
     md_threshold = 0, md_pixel_measure_mode = 0, md_timeout = 0, md_measure_interval = 0,
     md_last_measure_time = 0, md_start_time = 0, md_running = False, md_detected_cells = 0, md_grid = 0,
     md_clip_mode = 0, md_clip_row1 = 0, md_clip_column1 = 0, md_clip_row2 = 0, md_clip_column2 = 0,
     md_previous_ready = False, md_return_value = 0, md_parameters = 0, md_pixels_step = 0,
     md_msecs_before_trigger = 0, md_points = 0\<rparr>"

definition demo_args :: md_args where
  "demo_args = \<lparr>a_columns = 2, a_rows = 1, a_pixel_measure_mode = 1, a_timeout = 1000, a_measure_interval = 0,
     a_threshold = 20, a_draw_grid = 0, a_clip_mode = 0, a_clip_column1 = 0, a_clip_row1 = 0,
     a_clip_column2 = 0, a_clip_row2 = 0, a_parameters = 1, a_pixels_step = 1, a_msecs_before_trigger = 0\<rparr>"

definition demo_detection :: motion_detector_s where
  "demo_detection = md_static\<lparr>md_parameters := 1, md_pixels_step := 1, md_columns := 2, md_rows := 1,
     md_pixel_measure_mode := 1, md_timeout := 1000, md_threshold := 20, md_running := True\<rparr>"

definition demo_md :: md_task where
  "demo_md = (kbd_task.extend kbd_start
       (md_task.fields md_static 0 \<lparr>tc_tick_count = 0, tc_last = 0, tc_min = 0, tc_max = 0, tc_sum = 0, tc_count = 0\<rparr>
          None 0))
     \<lparr>active_stack := Some 0,
      as_nodes := (\<lambda>_. \<lparr>stack = (\<lambda>_. 0), stack_ptr = -1, comp_id = 1, delay_target_ticks = 0\<rparr>)\<rparr>"

lemma demo_md_sel [simp]:
  "motion_detector demo_md = md_static" "tick_count demo_md = 0" "on_top 0 [] demo_md" "set_as_rets demo_md = []"
  by (simp_all add: demo_md_def kbd_task.defs md_task.defs on_top_def holds_def kbd_start_def script_idle_def
      script_state.defs console_start_def console.defs gui_start_def gui_state.defs usb_init_def usb_remote.defs
      as_init_def as_state.defs kbd_init_def keyboard.defs camera.defs set_as_rets_def)

lemma demo_view_ok: "viewport_ok demo_view demo_picture" "md_row_bytes demo_view = 12"
  by (simp_all add: viewport_ok_def demo_view_def demo_picture_def md_row_bytes_def)

lemma demo_detection_sel:
  "md_rows demo_detection = 1" "md_columns demo_detection = 2" "md_timeout demo_detection = 1000"
  "arrays_ok md_static" "arrays_ok demo_detection" "grid_ok demo_view demo_detection"
  by (simp_all add: demo_detection_def md_static_def arrays_ok_def grid_ok_def demo_view_def md_row_bytes_def
      MOTION_DETECTOR_CELLS_def)

lemma demo_configured: "md_configure demo_args 0 md_static = Some demo_detection"
proof -
  have "md_fit_grid 2 1 = Some (2, 1)"
    by (subst md_fit_grid.simps) (simp add: c_int_def MOTION_DETECTOR_CELLS_def)
  then show ?thesis
    by (simp add: md_configure_def demo_args_def demo_detection_def md_static_def md_consts at_least_def)
qed


theorem md_measurement_compares_witness:
  "\<exists>d'. md_measure demo_view demo_picture 10 demo_detection = Some d' \<and> arrays_ok d'"
  using md_measurement_compares [OF demo_view_ok(1) demo_detection_sel(6,5), of 10] by blast

lemma demo_changed: "md_changed demo_view demo_picture demo_detection 0"
  by code_simp

theorem md_first_picture_triggers_witness:
  "\<exists>s0 s' n. md_init_motion_detector demo_code demo_args demo_md = Some (1, s0) \<and>
     md_run a570_platform demo_code demo_view [(10, Some demo_picture, 1), (20, Some demo_picture, 1)] s0 = Some (1, s') \<and>
     set_as_rets s' = [n]"
proof -
  have "finite {i. int i < 2 \<and> md_changed demo_view demo_picture demo_detection i}"
    by (rule finite_subset [of _ "{..<2}"]) auto
  then have "0 < card {i. int i < 2 \<and> md_changed demo_view demo_picture demo_detection i}"
    using demo_changed by (auto simp: card_gt_0_iff intro: exI [of _ "0 :: nat"])
  moreover have "a_msecs_before_trigger demo_args = 0" by (simp add: demo_args_def)
  ultimately have "\<exists>s0 s'. md_init_motion_detector demo_code demo_args demo_md = Some (1, s0) \<and>
     md_run a570_platform demo_code demo_view [(10, Some demo_picture, 1), (20, Some demo_picture, 1)] s0 = Some (1, s') \<and>
     set_as_rets s' = set_as_rets demo_md @
       [of_nat (card {i. int i < md_rows demo_detection * md_columns demo_detection \<and>
          md_changed demo_view demo_picture demo_detection i})]"
    by (intro md_first_picture_triggers [where p = 0 and ws = "[]"])
      (simp_all add: demo_configured demo_detection_sel demo_view_ok word_sless_alt)
  then show ?thesis by auto
qed

theorem md_bad_grids_witness:
  "md_measure demo_view demo_picture 10 (demo_detection\<lparr>md_columns := 500\<rparr>) = None \<and>
   (\<exists>d'. md_configure (demo_args\<lparr>a_columns := 0x10000, a_rows := 0x10000\<rparr>) 0 md_static = Some d' \<and>
      md_measure demo_view demo_picture 10 d' = None)"
  using md_bad_grids(1) [of demo_view "demo_detection\<lparr>md_columns := 500\<rparr>" 0 0 demo_picture 10]
    md_bad_grids(2) [of "demo_args\<lparr>a_columns := 0x10000, a_rows := 0x10000\<rparr>" 0 md_static demo_view demo_picture 10]
  by (auto simp: md_narrow_def demo_view_def demo_detection_def md_static_def md_measured_def md_consts)

end
