(* ===== verification/ConfTables.thy ===== *)
theory ConfTables
  imports Prelude
begin

text \<open>
  The option tables of \<open>core/conf.c\<close>: the core, on-screen display, user menu and GPS options with their identifiers,
  types and defaults, the files they are kept in, and the map from the identifiers of version 1.2 of the configuration.
  Each member of the structure \<open>conf\<close> that is an option has one entry, and its
  number, the entry's identifier plus the base of the table, stands for the address of the member. Defaults that depend on the camera are
  named constants (\<open>CPort\<close>), expressions over the port's macros, whose values are a parameter of the model.
\<close>

section \<open>Entries\<close>

datatype conf_type = CONF_DEF_VALUE | CONF_FUNC_PTR | CONF_INT_PTR | CONF_CHAR_PTR | CONF_OSD_POS | CONF_STRUCT_PTR

datatype conf_const = CLit int | CPort string

text \<open>The union of \<open>ConfInfo\<close>: an integer, a string literal, a function, a pair of colours, a position.\<close>

datatype conf_default =
    DInt conf_const
  | DPtr string
  | DFunc string
  | DColor conf_const conf_const conf_const conf_const
  | DPos conf_const conf_const

record conf_info_t =
  ci_id :: nat
  ci_size :: nat
  ci_type :: conf_type
  ci_name :: string
  ci_var :: nat
  ci_def :: conf_default

definition CONF_STR_LEN :: nat where "CONF_STR_LEN = 100"

text \<open>\<open>sizeof\<close> of the members: integers, colours and positions have four bytes, strings \<open>CONF_STR_LEN\<close>, and
  \<open>tUserMenuConfig\<close> six words.\<close>

definition conf_sizeof :: "conf_type \<Rightarrow> nat" where
  "conf_sizeof t = (case t of CONF_CHAR_PTR \<Rightarrow> CONF_STR_LEN | CONF_STRUCT_PTR \<Rightarrow> 24 | _ \<Rightarrow> 4)"

definition CONF_INFO :: "nat \<Rightarrow> nat \<Rightarrow> string \<Rightarrow> conf_type \<Rightarrow> conf_default \<Rightarrow> conf_info_t" where
  "CONF_INFO b i v t d =
     \<lparr>ci_id = i, ci_size = conf_sizeof t, ci_type = t, ci_name = v, ci_var = b + i, ci_def = d\<rparr>"

section \<open>The tables\<close>

definition CONF_CORE :: nat where "CONF_CORE = 1000"
definition CONF_OSD :: nat where "CONF_OSD = 2000"
definition CONF_USER :: nat where "CONF_USER = 3000"
definition CONF_GPS :: nat where "CONF_GPS = 4000"

definition user_menu_conf_info :: "conf_info_t list" where
  "user_menu_conf_info = [
     CONF_INFO CONF_USER 1 ''user_menu_vars'' CONF_STRUCT_PTR (DInt (CLit 0)),
     CONF_INFO CONF_USER 2 ''user_menu_as_root'' CONF_DEF_VALUE (DInt (CLit 0)),
     CONF_INFO CONF_USER 3 ''user_menu_enable'' CONF_DEF_VALUE (DInt (CLit 0))]"

definition osd_conf_info :: "conf_info_t list" where
  "osd_conf_info = [
     CONF_INFO CONF_OSD 1 ''show_osd'' CONF_DEF_VALUE (DInt (CLit 1)),
     CONF_INFO CONF_OSD 2 ''show_osd_in_review'' CONF_DEF_VALUE (DInt (CLit 0)),
     CONF_INFO CONF_OSD 3 ''override_disable'' CONF_DEF_VALUE (DInt (CLit 0)),
     CONF_INFO CONF_OSD 4 ''override_disable_all'' CONF_DEF_VALUE (DInt (CLit 1)),
     CONF_INFO CONF_OSD 5 ''hide_osd'' CONF_DEF_VALUE (DInt (CLit 1)),
     CONF_INFO CONF_OSD 6 ''rotate_osd'' CONF_DEF_VALUE (DInt (CLit 0)),
     CONF_INFO CONF_OSD 7 ''show_hiddenfiles'' CONF_DEF_VALUE (DInt (CLit 0)),
     CONF_INFO CONF_OSD 20 ''histo_pos'' CONF_OSD_POS (DPos (CLit 45) (CPort ''CAM_SCREEN_HEIGHT-HISTO_HEIGHT-40'')),
     CONF_INFO CONF_OSD 21 ''dof_pos'' CONF_OSD_POS (DPos (CLit 90) (CLit 45)),
     CONF_INFO CONF_OSD 22 ''batt_icon_pos'' CONF_OSD_POS (DPos (CLit 178) (CLit 0)),
     CONF_INFO CONF_OSD 23 ''batt_txt_pos'' CONF_OSD_POS (DPos (CLit 178) (CPort ''FONT_HEIGHT'')),
     CONF_INFO CONF_OSD 24 ''mode_state_pos'' CONF_OSD_POS (DPos (CLit 35) (CLit 0)),
     CONF_INFO CONF_OSD 25 ''values_pos'' CONF_OSD_POS (DPos (CPort ''CAM_SCREEN_WIDTH-9*FONT_WIDTH'') (CLit 30)),
     CONF_INFO CONF_OSD 26 ''clock_pos'' CONF_OSD_POS (DPos (CPort ''CAM_SCREEN_WIDTH-5*FONT_WIDTH-2'') (CLit 0)),
     CONF_INFO CONF_OSD 27 ''space_icon_pos'' CONF_OSD_POS (DPos (CPort ''CAM_SCREEN_WIDTH-100'') (CLit 0)),
     CONF_INFO CONF_OSD 28 ''space_txt_pos'' CONF_OSD_POS (DPos (CLit 128) (CLit 0)),
     CONF_INFO CONF_OSD 29 ''mode_raw_pos'' CONF_OSD_POS (DPos (CPort ''CAM_SCREEN_WIDTH-7*FONT_WIDTH-2'') (CPort ''CAM_SCREEN_HEIGHT-3*FONT_HEIGHT-2'')),
     CONF_INFO CONF_OSD 30 ''space_ver_pos'' CONF_OSD_POS (DPos (CPort ''CAM_SCREEN_WIDTH-7'') (CLit 0)),
     CONF_INFO CONF_OSD 31 ''space_hor_pos'' CONF_OSD_POS (DPos (CLit 0) (CPort ''CAM_SCREEN_HEIGHT-7'')),
     CONF_INFO CONF_OSD 32 ''mode_video_pos'' CONF_OSD_POS (DPos (CPort ''CAM_SCREEN_WIDTH-25*FONT_WIDTH-2'') (CPort ''CAM_SCREEN_HEIGHT-6*FONT_HEIGHT-2'')),
     CONF_INFO CONF_OSD 33 ''mode_ev_pos'' CONF_OSD_POS (DPos (CPort ''CAM_SCREEN_WIDTH-40*FONT_WIDTH-2'') (CPort ''CAM_SCREEN_HEIGHT-8*FONT_HEIGHT-2'')),
     CONF_INFO CONF_OSD 34 ''temp_pos'' CONF_OSD_POS (DPos (CPort ''CAM_SCREEN_WIDTH-9*FONT_WIDTH-2'') (CPort ''FONT_HEIGHT'')),
     CONF_INFO CONF_OSD 35 ''ev_video_pos'' CONF_OSD_POS (DPos (CLit 18) (CLit 80)),
     CONF_INFO CONF_OSD 36 ''usb_info_pos'' CONF_OSD_POS (DPos (CLit 95) (CLit 0)),
     CONF_INFO CONF_OSD 50 ''histo_color'' CONF_DEF_VALUE (DColor (CPort ''IDX_COLOR_WHITE'') (CLit 1) (CPort ''IDX_COLOR_GREY_DK'') (CLit 1)),
     CONF_INFO CONF_OSD 51 ''histo_color2'' CONF_DEF_VALUE (DColor (CPort ''IDX_COLOR_WHITE'') (CLit 1) (CPort ''IDX_COLOR_RED'') (CLit 1)),
     CONF_INFO CONF_OSD 52 ''osd_color'' CONF_DEF_VALUE (DColor (CPort ''IDX_COLOR_WHITE'') (CLit 1) (CPort ''IDX_COLOR_GREY_DK_TRANS'') (CLit 1)),
     CONF_INFO CONF_OSD 53 ''osd_color_warn'' CONF_DEF_VALUE (DColor (CPort ''IDX_COLOR_RED'') (CLit 1) (CPort ''IDX_COLOR_GREY_DK_TRANS'') (CLit 1)),
     CONF_INFO CONF_OSD 54 ''osd_color_override'' CONF_DEF_VALUE (DColor (CPort ''IDX_COLOR_RED'') (CLit 1) (CPort ''IDX_COLOR_GREY_DK_TRANS'') (CLit 1)),
     CONF_INFO CONF_OSD 55 ''menu_color'' CONF_DEF_VALUE (DColor (CPort ''IDX_COLOR_WHITE'') (CLit 1) (CPort ''IDX_COLOR_GREY_DK'') (CLit 1)),
     CONF_INFO CONF_OSD 56 ''menu_title_color'' CONF_DEF_VALUE (DColor (CPort ''IDX_COLOR_BLACK'') (CLit 1) (CPort ''IDX_COLOR_WHITE'') (CLit 1)),
     CONF_INFO CONF_OSD 57 ''menu_cursor_color'' CONF_DEF_VALUE (DColor (CPort ''CAM_DEFAULT_MENU_CURSOR_FG'') (CLit 1) (CPort ''CAM_DEFAULT_MENU_CURSOR_BG'') (CLit 1)),
     CONF_INFO CONF_OSD 58 ''menu_symbol_color'' CONF_DEF_VALUE (DColor (CPort ''IDX_COLOR_WHITE'') (CLit 1) (CPort ''IDX_COLOR_GREY_DK'') (CLit 1)),
     CONF_INFO CONF_OSD 59 ''reader_color'' CONF_DEF_VALUE (DColor (CPort ''IDX_COLOR_WHITE'') (CLit 1) (CPort ''IDX_COLOR_GREY'') (CLit 1)),
     CONF_INFO CONF_OSD 60 ''grid_color'' CONF_DEF_VALUE (DColor (CPort ''IDX_COLOR_WHITE'') (CLit 1) (CPort ''IDX_COLOR_GREY_DK'') (CLit 1)),
     CONF_INFO CONF_OSD 61 ''space_color'' CONF_DEF_VALUE (DColor (CPort ''IDX_COLOR_WHITE'') (CLit 1) (CPort ''IDX_COLOR_GREY_DK_TRANS'') (CLit 1)),
     CONF_INFO CONF_OSD 62 ''zebra_color'' CONF_DEF_VALUE (DColor (CPort ''IDX_COLOR_RED'') (CLit 1) (CPort ''IDX_COLOR_RED'') (CLit 1)),
     CONF_INFO CONF_OSD 63 ''edge_overlay_color'' CONF_DEF_VALUE (DColor (CPort ''IDX_COLOR_RED'') (CLit 1) (CLit 0) (CLit 0)),
     CONF_INFO CONF_OSD 80 ''show_clock'' CONF_DEF_VALUE (DInt (CLit 2)),
     CONF_INFO CONF_OSD 81 ''clock_format'' CONF_DEF_VALUE (DInt (CLit 0)),
     CONF_INFO CONF_OSD 82 ''clock_indicator'' CONF_DEF_VALUE (DInt (CLit 0)),
     CONF_INFO CONF_OSD 83 ''clock_halfpress'' CONF_DEF_VALUE (DInt (CLit 1)),
     CONF_INFO CONF_OSD 90 ''show_state'' CONF_DEF_VALUE (DInt (CLit 1)),
     CONF_INFO CONF_OSD 100 ''batt_volts_max'' CONF_FUNC_PTR (DFunc ''get_vbatt_max''),
     CONF_INFO CONF_OSD 101 ''batt_volts_min'' CONF_FUNC_PTR (DFunc ''get_vbatt_min''),
     CONF_INFO CONF_OSD 102 ''batt_perc_show'' CONF_DEF_VALUE (DInt (CLit 1)),
     CONF_INFO CONF_OSD 103 ''batt_volts_show'' CONF_DEF_VALUE (DInt (CLit 0)),
     CONF_INFO CONF_OSD 104 ''batt_icon_show'' CONF_DEF_VALUE (DInt (CLit 1)),
     CONF_INFO CONF_OSD 110 ''reader_file'' CONF_CHAR_PTR (DPtr ''A/CHDK/BOOKS/README.TXT''),
     CONF_INFO CONF_OSD 111 ''reader_pos'' CONF_DEF_VALUE (DInt (CLit 0)),
     CONF_INFO CONF_OSD 112 ''reader_autoscroll'' CONF_DEF_VALUE (DInt (CLit 0)),
     CONF_INFO CONF_OSD 113 ''reader_autoscroll_delay'' CONF_DEF_VALUE (DInt (CLit 5)),
     CONF_INFO CONF_OSD 114 ''reader_rbf_file'' CONF_CHAR_PTR (DPtr ''''),
     CONF_INFO CONF_OSD 115 ''reader_codepage'' CONF_DEF_VALUE (DInt (CPort ''FONT_CP_WIN'')),
     CONF_INFO CONF_OSD 116 ''reader_wrap_by_words'' CONF_DEF_VALUE (DInt (CLit 1)),
     CONF_INFO CONF_OSD 120 ''splash_show'' CONF_DEF_VALUE (DInt (CLit 1)),
     CONF_INFO CONF_OSD 121 ''start_sound'' CONF_DEF_VALUE (DInt (CLit 0)),
     CONF_INFO CONF_OSD 130 ''menu_symbol_enable'' CONF_DEF_VALUE (DInt (CLit 1)),
     CONF_INFO CONF_OSD 131 ''menu_rbf_file'' CONF_CHAR_PTR (DPtr ''''),
     CONF_INFO CONF_OSD 132 ''menu_symbol_rbf_file'' CONF_CHAR_PTR (DPtr ''A/CHDK/SYMBOLS/icon_10.rbf''),
     CONF_INFO CONF_OSD 133 ''menu_select_first_entry'' CONF_DEF_VALUE (DInt (CLit 1)),
     CONF_INFO CONF_OSD 134 ''menu_center'' CONF_DEF_VALUE (DInt (CLit 1)),
     CONF_INFO CONF_OSD 135 ''lang_file'' CONF_CHAR_PTR (DPtr ''''),
     CONF_INFO CONF_OSD 136 ''font_cp'' CONF_DEF_VALUE (DInt (CPort ''FONT_CP_WIN_1252'')),
     CONF_INFO CONF_OSD 137 ''tbox_char_map'' CONF_DEF_VALUE (DInt (CLit 0)),
     CONF_INFO CONF_OSD 140 ''show_grid_lines'' CONF_DEF_VALUE (DInt (CLit 0)),
     CONF_INFO CONF_OSD 141 ''grid_lines_file'' CONF_CHAR_PTR (DPtr ''''),
     CONF_INFO CONF_OSD 142 ''grid_force_color'' CONF_DEF_VALUE (DInt (CLit 0)),
     CONF_INFO CONF_OSD 150 ''show_dof'' CONF_DEF_VALUE (DInt (CPort ''DOF_DONT_SHOW'')),
     CONF_INFO CONF_OSD 151 ''dof_subj_dist_as_near_limit'' CONF_DEF_VALUE (DInt (CLit 0)),
     CONF_INFO CONF_OSD 152 ''dof_use_exif_subj_dist'' CONF_DEF_VALUE (DInt (CLit 0)),
     CONF_INFO CONF_OSD 153 ''dof_subj_dist_in_misc'' CONF_DEF_VALUE (DInt (CLit 1)),
     CONF_INFO CONF_OSD 154 ''dof_near_limit_in_misc'' CONF_DEF_VALUE (DInt (CLit 1)),
     CONF_INFO CONF_OSD 155 ''dof_far_limit_in_misc'' CONF_DEF_VALUE (DInt (CLit 1)),
     CONF_INFO CONF_OSD 156 ''dof_hyperfocal_in_misc'' CONF_DEF_VALUE (DInt (CLit 1)),
     CONF_INFO CONF_OSD 157 ''dof_depth_in_misc'' CONF_DEF_VALUE (DInt (CLit 0)),
     CONF_INFO CONF_OSD 160 ''show_values'' CONF_DEF_VALUE (DInt (CLit 0)),
     CONF_INFO CONF_OSD 161 ''values_show_in_review'' CONF_DEF_VALUE (DInt (CLit 0)),
     CONF_INFO CONF_OSD 162 ''values_show_zoom'' CONF_DEF_VALUE (DInt (CLit 1)),
     CONF_INFO CONF_OSD 163 ''values_show_real_aperture'' CONF_DEF_VALUE (DInt (CLit 0)),
     CONF_INFO CONF_OSD 164 ''values_show_real_iso'' CONF_DEF_VALUE (DInt (CLit 1)),
     CONF_INFO CONF_OSD 165 ''values_show_market_iso'' CONF_DEF_VALUE (DInt (CLit 0)),
     CONF_INFO CONF_OSD 166 ''values_show_iso_only_in_autoiso_mode'' CONF_DEF_VALUE (DInt (CLit 0)),
     CONF_INFO CONF_OSD 167 ''values_show_ev_seted'' CONF_DEF_VALUE (DInt (CLit 0)),
     CONF_INFO CONF_OSD 168 ''values_show_ev_measured'' CONF_DEF_VALUE (DInt (CLit 0)),
     CONF_INFO CONF_OSD 169 ''values_show_bv_measured'' CONF_DEF_VALUE (DInt (CLit 0)),
     CONF_INFO CONF_OSD 170 ''values_show_bv_seted'' CONF_DEF_VALUE (DInt (CLit 0)),
     CONF_INFO CONF_OSD 171 ''values_show_overexposure'' CONF_DEF_VALUE (DInt (CLit 0)),
     CONF_INFO CONF_OSD 172 ''values_show_luminance'' CONF_DEF_VALUE (DInt (CLit 0)),
     CONF_INFO CONF_OSD 173 ''values_show_canon_overexposure'' CONF_DEF_VALUE (DInt (CLit 0)),
     CONF_INFO CONF_OSD 174 ''show_values_in_video'' CONF_DEF_VALUE (DInt (CLit 0)),
     CONF_INFO CONF_OSD 175 ''zoom_value'' CONF_DEF_VALUE (DInt (CPort ''ZOOM_SHOW_X'')),
     CONF_INFO CONF_OSD 176 ''zoom_scale'' CONF_DEF_VALUE (DInt (CLit 100)),
     CONF_INFO CONF_OSD 180 ''space_icon_show'' CONF_DEF_VALUE (DInt (CLit 0)),
     CONF_INFO CONF_OSD 181 ''space_perc_show'' CONF_DEF_VALUE (DInt (CLit 0)),
     CONF_INFO CONF_OSD 182 ''space_mb_show'' CONF_DEF_VALUE (DInt (CLit 1)),
     CONF_INFO CONF_OSD 183 ''space_bar_show'' CONF_DEF_VALUE (DInt (CLit 1)),
     CONF_INFO CONF_OSD 184 ''space_bar_size'' CONF_DEF_VALUE (DInt (CLit 1)),
     CONF_INFO CONF_OSD 185 ''space_bar_width'' CONF_DEF_VALUE (DInt (CLit 2)),
     CONF_INFO CONF_OSD 186 ''space_perc_warn'' CONF_DEF_VALUE (DInt (CLit 10)),
     CONF_INFO CONF_OSD 187 ''space_mb_warn'' CONF_DEF_VALUE (DInt (CLit 20)),
     CONF_INFO CONF_OSD 188 ''space_warn_type'' CONF_DEF_VALUE (DInt (CLit 0)),
     CONF_INFO CONF_OSD 189 ''show_partition_nr'' CONF_DEF_VALUE (DInt (CLit 0)),
     CONF_INFO CONF_OSD 200 ''show_remaining_raw'' CONF_DEF_VALUE (DInt (CLit 1)),
     CONF_INFO CONF_OSD 201 ''show_raw_state'' CONF_DEF_VALUE (DInt (CLit 1)),
     CONF_INFO CONF_OSD 202 ''remaining_raw_treshold'' CONF_DEF_VALUE (DInt (CLit 0)),
     CONF_INFO CONF_OSD 203 ''raw_exceptions_warn'' CONF_DEF_VALUE (DInt (CLit 1)),
     CONF_INFO CONF_OSD 210 ''show_movie_time'' CONF_DEF_VALUE (DInt (CLit 3)),
     CONF_INFO CONF_OSD 211 ''show_movie_refresh'' CONF_DEF_VALUE (DInt (CLit 1)),
     CONF_INFO CONF_OSD 220 ''show_temp'' CONF_DEF_VALUE (DInt (CLit 1)),
     CONF_INFO CONF_OSD 221 ''temperature_unit'' CONF_DEF_VALUE (DInt (CLit 0)),
     CONF_INFO CONF_OSD 230 ''debug_shortcut_action'' CONF_DEF_VALUE (DInt (CLit 0)),
     CONF_INFO CONF_OSD 231 ''debug_display'' CONF_DEF_VALUE (DInt (CLit 0)),
     CONF_INFO CONF_OSD 232 ''debug_propcase_page'' CONF_DEF_VALUE (DInt (CLit 0)),
     CONF_INFO CONF_OSD 233 ''debug_misc_vals_show'' CONF_DEF_VALUE (DInt (CLit 0)),
     CONF_INFO CONF_OSD 234 ''mem_view_addr_init'' CONF_DEF_VALUE (DInt (CLit 0x1000)),
     CONF_INFO CONF_OSD 240 ''touchscreen_disable_video_controls'' CONF_DEF_VALUE (DInt (CLit 0)),
     CONF_INFO CONF_OSD 241 ''touchscreen_disable_shortcut_controls'' CONF_DEF_VALUE (DInt (CLit 0)),
     CONF_INFO CONF_OSD 250 ''usb_info_enable'' CONF_DEF_VALUE (DInt (CLit 0)),
     CONF_INFO CONF_OSD 260 ''show_alt_helper'' CONF_DEF_VALUE (DInt (CLit 1)),
     CONF_INFO CONF_OSD 261 ''show_alt_helper_delay'' CONF_DEF_VALUE (DInt (CLit 3)),
     CONF_INFO CONF_OSD 262 ''enable_shortcuts'' CONF_DEF_VALUE (DInt (CLit 1)),
     CONF_INFO CONF_OSD 263 ''extra_button'' CONF_DEF_VALUE (DInt (CLit 0)),
     CONF_INFO CONF_OSD 270 ''console_show'' CONF_DEF_VALUE (DInt (CLit 0)),
     CONF_INFO CONF_OSD 271 ''console_timeout'' CONF_DEF_VALUE (DInt (CLit 3)),
     CONF_INFO CONF_OSD 280 ''histo_scale'' CONF_OSD_POS (DPos (CLit 0) (CLit 0)),
     CONF_INFO CONF_OSD 281 ''dof_scale'' CONF_OSD_POS (DPos (CLit 1) (CLit 1)),
     CONF_INFO CONF_OSD 282 ''batt_icon_scale'' CONF_OSD_POS (DPos (CLit 0) (CLit 0)),
     CONF_INFO CONF_OSD 283 ''batt_txt_scale'' CONF_OSD_POS (DPos (CLit 1) (CLit 1)),
     CONF_INFO CONF_OSD 284 ''mode_state_scale'' CONF_OSD_POS (DPos (CLit 1) (CLit 1)),
     CONF_INFO CONF_OSD 285 ''values_scale'' CONF_OSD_POS (DPos (CLit 1) (CLit 1)),
     CONF_INFO CONF_OSD 286 ''clock_scale'' CONF_OSD_POS (DPos (CLit 1) (CLit 1)),
     CONF_INFO CONF_OSD 287 ''space_icon_scale'' CONF_OSD_POS (DPos (CLit 0) (CLit 0)),
     CONF_INFO CONF_OSD 288 ''space_txt_scale'' CONF_OSD_POS (DPos (CLit 1) (CLit 1)),
     CONF_INFO CONF_OSD 289 ''mode_raw_scale'' CONF_OSD_POS (DPos (CLit 1) (CLit 1)),
     CONF_INFO CONF_OSD 290 ''space_ver_scale'' CONF_OSD_POS (DPos (CLit 0) (CLit 0)),
     CONF_INFO CONF_OSD 291 ''space_hor_scale'' CONF_OSD_POS (DPos (CLit 0) (CLit 0)),
     CONF_INFO CONF_OSD 292 ''mode_video_scale'' CONF_OSD_POS (DPos (CLit 1) (CLit 1)),
     CONF_INFO CONF_OSD 293 ''mode_ev_scale'' CONF_OSD_POS (DPos (CLit 1) (CLit 1)),
     CONF_INFO CONF_OSD 294 ''temp_scale'' CONF_OSD_POS (DPos (CLit 1) (CLit 1)),
     CONF_INFO CONF_OSD 295 ''ev_video_scale'' CONF_OSD_POS (DPos (CLit 1) (CLit 1)),
     CONF_INFO CONF_OSD 296 ''usb_info_scale'' CONF_OSD_POS (DPos (CLit 0) (CLit 0))]"

definition core_conf_info :: "conf_info_t list" where
  "core_conf_info = [
     CONF_INFO CONF_CORE 1 ''platformid'' CONF_DEF_VALUE (DInt (CPort ''PLATFORMID'')),
     CONF_INFO CONF_CORE 2 ''fast_image_quality'' CONF_DEF_VALUE (DInt (CLit 3)),
     CONF_INFO CONF_CORE 3 ''nd_filter_state'' CONF_DEF_VALUE (DInt (CLit 0)),
     CONF_INFO CONF_CORE 20 ''save_raw'' CONF_DEF_VALUE (DInt (CLit 0)),
     CONF_INFO CONF_CORE 21 ''raw_in_dir'' CONF_DEF_VALUE (DInt (CLit 1)),
     CONF_INFO CONF_CORE 22 ''raw_prefix'' CONF_DEF_VALUE (DInt (CPort ''RAW_PREFIX_CRW'')),
     CONF_INFO CONF_CORE 23 ''raw_ext'' CONF_DEF_VALUE (DInt (CPort ''DEFAULT_RAW_EXT'')),
     CONF_INFO CONF_CORE 24 ''raw_save_first_only'' CONF_DEF_VALUE (DInt (CLit 0)),
     CONF_INFO CONF_CORE 25 ''save_raw_in_video'' CONF_DEF_VALUE (DInt (CLit 1)),
     CONF_INFO CONF_CORE 26 ''save_raw_in_sports'' CONF_DEF_VALUE (DInt (CLit 0)),
     CONF_INFO CONF_CORE 27 ''save_raw_in_burst'' CONF_DEF_VALUE (DInt (CLit 0)),
     CONF_INFO CONF_CORE 28 ''save_raw_in_ev_bracketing'' CONF_DEF_VALUE (DInt (CLit 0)),
     CONF_INFO CONF_CORE 29 ''save_raw_in_timer'' CONF_DEF_VALUE (DInt (CLit 0)),
     CONF_INFO CONF_CORE 30 ''raw_cache'' CONF_DEF_VALUE (DInt (CLit 1)),
     CONF_INFO CONF_CORE 31 ''save_raw_in_edgeoverlay'' CONF_DEF_VALUE (DInt (CLit 0)),
     CONF_INFO CONF_CORE 32 ''save_raw_in_auto'' CONF_DEF_VALUE (DInt (CLit 0)),
     CONF_INFO CONF_CORE 33 ''bad_pixel_removal'' CONF_DEF_VALUE (DInt (CLit 0)),
     CONF_INFO CONF_CORE 34 ''raw_timer'' CONF_DEF_VALUE (DInt (CLit 0)),
     CONF_INFO CONF_CORE 35 ''raw_dng_ext'' CONF_DEF_VALUE (DInt (CLit 1)),
     CONF_INFO CONF_CORE 36 ''dng_raw'' CONF_DEF_VALUE (DInt (CLit 1)),
     CONF_INFO CONF_CORE 37 ''dng_version'' CONF_DEF_VALUE (DInt (CLit 0)),
     CONF_INFO CONF_CORE 38 ''dng_usb_ext'' CONF_DEF_VALUE (DInt (CLit 0)),
     CONF_INFO CONF_CORE 39 ''raw_nr'' CONF_DEF_VALUE (DInt (CPort ''NOISE_REDUCTION_AUTO_CANON'')),
     CONF_INFO CONF_CORE 40 ''bracketing_add_raw_suffix'' CONF_DEF_VALUE (DInt (CLit 0)),
     CONF_INFO CONF_CORE 41 ''sub_batch_prefix'' CONF_DEF_VALUE (DInt (CPort ''RAW_PREFIX_SND'')),
     CONF_INFO CONF_CORE 42 ''sub_batch_ext'' CONF_DEF_VALUE (DInt (CPort ''DEFAULT_RAW_EXT'')),
     CONF_INFO CONF_CORE 43 ''dng_crop_size'' CONF_DEF_VALUE (DInt (CLit 0)),
     CONF_INFO CONF_CORE 50 ''script_shoot_delay'' CONF_DEF_VALUE (DInt (CLit 0)),
     CONF_INFO CONF_CORE 52 ''script_param_set'' CONF_DEF_VALUE (DInt (CLit 0)),
     CONF_INFO CONF_CORE 53 ''script_startup'' CONF_DEF_VALUE (DInt (CPort ''SCRIPT_AUTOSTART_NONE'')),
     CONF_INFO CONF_CORE 54 ''script_file'' CONF_CHAR_PTR (DPtr ''''),
     CONF_INFO CONF_CORE 55 ''script_param_save'' CONF_DEF_VALUE (DInt (CLit 1)),
     CONF_INFO CONF_CORE 60 ''show_histo'' CONF_DEF_VALUE (DInt (CLit 0)),
     CONF_INFO CONF_CORE 61 ''show_overexp'' CONF_DEF_VALUE (DInt (CLit 1)),
     CONF_INFO CONF_CORE 62 ''histo_mode'' CONF_DEF_VALUE (DInt (CLit 0)),
     CONF_INFO CONF_CORE 63 ''histo_auto_ajust'' CONF_DEF_VALUE (DInt (CLit 1)),
     CONF_INFO CONF_CORE 64 ''histo_ignore_boundary'' CONF_DEF_VALUE (DInt (CLit 4)),
     CONF_INFO CONF_CORE 65 ''histo_layout'' CONF_DEF_VALUE (DInt (CLit 0)),
     CONF_INFO CONF_CORE 66 ''histo_show_ev_grid'' CONF_DEF_VALUE (DInt (CLit 0)),
     CONF_INFO CONF_CORE 70 ''zebra_draw'' CONF_DEF_VALUE (DInt (CLit 0)),
     CONF_INFO CONF_CORE 71 ''zebra_mode'' CONF_DEF_VALUE (DInt (CPort ''ZEBRA_MODE_BLINKED_2'')),
     CONF_INFO CONF_CORE 72 ''zebra_restore_screen'' CONF_DEF_VALUE (DInt (CLit 1)),
     CONF_INFO CONF_CORE 73 ''zebra_restore_osd'' CONF_DEF_VALUE (DInt (CLit 1)),
     CONF_INFO CONF_CORE 74 ''zebra_over'' CONF_DEF_VALUE (DInt (CLit 1)),
     CONF_INFO CONF_CORE 75 ''zebra_under'' CONF_DEF_VALUE (DInt (CLit 0)),
     CONF_INFO CONF_CORE 76 ''zebra_draw_osd'' CONF_DEF_VALUE (DInt (CPort ''ZEBRA_DRAW_HISTO'')),
     CONF_INFO CONF_CORE 77 ''zebra_multichannel'' CONF_DEF_VALUE (DInt (CLit 0)),
     CONF_INFO CONF_CORE 80 ''video_mode'' CONF_DEF_VALUE (DInt (CLit 0)),
     CONF_INFO CONF_CORE 81 ''video_quality'' CONF_DEF_VALUE (DInt (CPort ''VIDEO_DEFAULT_QUALITY'')),
     CONF_INFO CONF_CORE 82 ''video_bitrate'' CONF_DEF_VALUE (DInt (CPort ''VIDEO_DEFAULT_BITRATE'')),
     CONF_INFO CONF_CORE 83 ''clear_video'' CONF_DEF_VALUE (DInt (CLit 0)),
     CONF_INFO CONF_CORE 84 ''mute_on_zoom'' CONF_DEF_VALUE (DInt (CLit 0)),
     CONF_INFO CONF_CORE 85 ''video_af_key'' CONF_DEF_VALUE (DInt (CLit 0)),
     CONF_INFO CONF_CORE 86 ''unlock_optical_zoom_for_video'' CONF_DEF_VALUE (DInt (CLit 1)),
     CONF_INFO CONF_CORE 87 ''fast_ev'' CONF_DEF_VALUE (DInt (CLit 0)),
     CONF_INFO CONF_CORE 88 ''fast_ev_step'' CONF_DEF_VALUE (DInt (CLit 1)),
     CONF_INFO CONF_CORE 89 ''fast_movie_control'' CONF_DEF_VALUE (DInt (CLit 0)),
     CONF_INFO CONF_CORE 90 ''fast_movie_quality_control'' CONF_DEF_VALUE (DInt (CLit 0)),
     CONF_INFO CONF_CORE 91 ''ext_video_time'' CONF_DEF_VALUE (DInt (CLit 0)),
     CONF_INFO CONF_CORE 100 ''clear_override'' CONF_DEF_VALUE (DInt (CLit 1)),
     CONF_INFO CONF_CORE 110 ''tv_override_enabled'' CONF_DEF_VALUE (DInt (CLit 0)),
     CONF_INFO CONF_CORE 111 ''tv_enum_type'' CONF_DEF_VALUE (DInt (CPort ''TV_OVERRIDE_EV_STEP'')),
     CONF_INFO CONF_CORE 112 ''tv_override_value'' CONF_DEF_VALUE (DInt (CLit 0)),
     CONF_INFO CONF_CORE 113 ''tv_override_long_exp'' CONF_DEF_VALUE (DInt (CLit 0)),
     CONF_INFO CONF_CORE 114 ''tv_override_short_exp'' CONF_DEF_VALUE (DInt (CLit 0)),
     CONF_INFO CONF_CORE 120 ''av_override_enabled'' CONF_DEF_VALUE (DInt (CLit 0)),
     CONF_INFO CONF_CORE 121 ''av_override_value'' CONF_DEF_VALUE (DInt (CLit 0)),
     CONF_INFO CONF_CORE 130 ''iso_override_value'' CONF_DEF_VALUE (DInt (CLit 0)),
     CONF_INFO CONF_CORE 131 ''iso_override_koef'' CONF_DEF_VALUE (DInt (CLit 0)),
     CONF_INFO CONF_CORE 140 ''subj_dist_override_value'' CONF_DEF_VALUE (DInt (CLit 0)),
     CONF_INFO CONF_CORE 141 ''subj_dist_override_koef'' CONF_DEF_VALUE (DInt (CPort ''SD_OVERRIDE_OFF'')),
     CONF_INFO CONF_CORE 150 ''tv_bracket_value'' CONF_DEF_VALUE (DInt (CLit 0)),
     CONF_INFO CONF_CORE 151 ''av_bracket_value'' CONF_DEF_VALUE (DInt (CLit 0)),
     CONF_INFO CONF_CORE 152 ''iso_bracket_value'' CONF_DEF_VALUE (DInt (CLit 0)),
     CONF_INFO CONF_CORE 153 ''iso_bracket_koef'' CONF_DEF_VALUE (DInt (CLit 0)),
     CONF_INFO CONF_CORE 154 ''subj_dist_bracket_value'' CONF_DEF_VALUE (DInt (CLit 0)),
     CONF_INFO CONF_CORE 155 ''subj_dist_bracket_koef'' CONF_DEF_VALUE (DInt (CLit 0)),
     CONF_INFO CONF_CORE 156 ''bracket_type'' CONF_DEF_VALUE (DInt (CLit 0)),
     CONF_INFO CONF_CORE 157 ''clear_bracket'' CONF_DEF_VALUE (DInt (CLit 1)),
     CONF_INFO CONF_CORE 160 ''autoiso_enable'' CONF_DEF_VALUE (DInt (CLit 0)),
     CONF_INFO CONF_CORE 161 ''autoiso_shutter_enum'' CONF_DEF_VALUE (DInt (CLit 5)),
     CONF_INFO CONF_CORE 162 ''autoiso_user_factor'' CONF_DEF_VALUE (DInt (CLit 5)),
     CONF_INFO CONF_CORE 163 ''autoiso_is_factor'' CONF_DEF_VALUE (DInt (CLit 2)),
     CONF_INFO CONF_CORE 164 ''autoiso_max_iso_hi'' CONF_DEF_VALUE (DInt (CLit 550)),
     CONF_INFO CONF_CORE 165 ''autoiso_max_iso_auto'' CONF_DEF_VALUE (DInt (CLit 320)),
     CONF_INFO CONF_CORE 166 ''autoiso_min_iso'' CONF_DEF_VALUE (DInt (CLit 50)),
     CONF_INFO CONF_CORE 170 ''autoiso2_shutter_enum'' CONF_DEF_VALUE (DInt (CLit 0)),
     CONF_INFO CONF_CORE 171 ''autoiso2_max_iso_auto'' CONF_DEF_VALUE (DInt (CLit 600)),
     CONF_INFO CONF_CORE 172 ''autoiso2_over'' CONF_DEF_VALUE (DInt (CLit 1)),
     CONF_INFO CONF_CORE 173 ''overexp_threshold'' CONF_DEF_VALUE (DInt (CLit 5)),
     CONF_INFO CONF_CORE 174 ''overexp_ev_enum'' CONF_DEF_VALUE (DInt (CLit 0)),
     CONF_INFO CONF_CORE 180 ''curve_file'' CONF_CHAR_PTR (DPtr ''''),
     CONF_INFO CONF_CORE 181 ''curve_enable'' CONF_DEF_VALUE (DInt (CLit 0)),
     CONF_INFO CONF_CORE 190 ''edge_overlay_enable'' CONF_DEF_VALUE (DInt (CLit 0)),
     CONF_INFO CONF_CORE 191 ''edge_overlay_thresh'' CONF_DEF_VALUE (DInt (CLit 60)),
     CONF_INFO CONF_CORE 192 ''edge_overlay_play'' CONF_DEF_VALUE (DInt (CLit 0)),
     CONF_INFO CONF_CORE 193 ''edge_overlay_pano'' CONF_DEF_VALUE (DInt (CLit 0)),
     CONF_INFO CONF_CORE 194 ''edge_overlay_zoom'' CONF_DEF_VALUE (DInt (CLit 1)),
     CONF_INFO CONF_CORE 195 ''edge_overlay_filter'' CONF_DEF_VALUE (DInt (CLit 0)),
     CONF_INFO CONF_CORE 196 ''edge_overlay_show'' CONF_DEF_VALUE (DInt (CLit 0)),
     CONF_INFO CONF_CORE 197 ''edge_overlay_pano_overlap'' CONF_DEF_VALUE (DInt (CLit 30)),
     CONF_INFO CONF_CORE 200 ''remote_enable'' CONF_DEF_VALUE (DInt (CLit 0)),
     CONF_INFO CONF_CORE 201 ''synch_enable'' CONF_DEF_VALUE (DInt (CLit 0)),
     CONF_INFO CONF_CORE 202 ''synch_delay_enable'' CONF_DEF_VALUE (DInt (CLit 0)),
     CONF_INFO CONF_CORE 203 ''synch_delay_value'' CONF_DEF_VALUE (DInt (CLit 100)),
     CONF_INFO CONF_CORE 204 ''remote_switch_type'' CONF_DEF_VALUE (DInt (CLit 0)),
     CONF_INFO CONF_CORE 205 ''remote_control_mode'' CONF_DEF_VALUE (DInt (CLit 0)),
     CONF_INFO CONF_CORE 206 ''remote_enable_scripts'' CONF_DEF_VALUE (DInt (CLit 0)),
     CONF_INFO CONF_CORE 207 ''ricoh_ca1_mode'' CONF_DEF_VALUE (DInt (CLit 0)),
     CONF_INFO CONF_CORE 208 ''remote_input_channel'' CONF_DEF_VALUE (DInt (CLit 0)),
     CONF_INFO CONF_CORE 210 ''flash_sync_curtain'' CONF_DEF_VALUE (DInt (CLit 0)),
     CONF_INFO CONF_CORE 211 ''flash_video_override'' CONF_DEF_VALUE (DInt (CLit 0)),
     CONF_INFO CONF_CORE 212 ''flash_video_override_power'' CONF_DEF_VALUE (DInt (CLit 0)),
     CONF_INFO CONF_CORE 213 ''flash_manual_override'' CONF_DEF_VALUE (DInt (CLit 0)),
     CONF_INFO CONF_CORE 214 ''flash_exp_comp'' CONF_DEF_VALUE (DInt (CLit 9)),
     CONF_INFO CONF_CORE 215 ''flash_enable_exp_comp'' CONF_DEF_VALUE (DInt (CLit 0)),
     CONF_INFO CONF_CORE 216 ''hotshoe_override'' CONF_DEF_VALUE (DInt (CLit 0)),
     CONF_INFO CONF_CORE 220 ''alt_mode_button'' CONF_DEF_VALUE (DInt (CPort ''KEY_PRINT'')),
     CONF_INFO CONF_CORE 221 ''alt_prevent_shutdown'' CONF_DEF_VALUE (DInt (CPort ''ALT_PREVENT_SHUTDOWN_ALT'')),
     CONF_INFO CONF_CORE 222 ''use_zoom_mf'' CONF_DEF_VALUE (DInt (CLit 0)),
     CONF_INFO CONF_CORE 223 ''zoom_assist_button_disable'' CONF_DEF_VALUE (DInt (CLit 0)),
     CONF_INFO CONF_CORE 224 ''debug_lua_restart_on_error'' CONF_DEF_VALUE (DInt (CLit 0)),
     CONF_INFO CONF_CORE 225 ''module_logging'' CONF_DEF_VALUE (DInt (CLit 0)),
     CONF_INFO CONF_CORE 226 ''flashlight'' CONF_DEF_VALUE (DInt (CLit 0)),
     CONF_INFO CONF_CORE 230 ''memdmp_start'' CONF_DEF_VALUE (DInt (CLit 0)),
     CONF_INFO CONF_CORE 231 ''memdmp_size'' CONF_DEF_VALUE (DInt (CLit 0)),
     CONF_INFO CONF_CORE 240 ''allow_unsafe_io'' CONF_DEF_VALUE (DInt (CLit 0)),
     CONF_INFO CONF_CORE 250 ''disable_lfn_parser_ui'' CONF_DEF_VALUE (DInt (CLit 0)),
     CONF_INFO CONF_CORE 999 ''script_allow_lua_native_calls'' CONF_DEF_VALUE (DInt (CLit 0))]"

definition gps_conf_info :: "conf_info_t list" where
  "gps_conf_info = [
     CONF_INFO CONF_GPS 1 ''gps_record'' CONF_DEF_VALUE (DInt (CLit 0)),
     CONF_INFO CONF_GPS 2 ''gps_navi_show'' CONF_DEF_VALUE (DInt (CLit 0)),
     CONF_INFO CONF_GPS 3 ''gps_compass_show'' CONF_DEF_VALUE (DInt (CLit 0)),
     CONF_INFO CONF_GPS 4 ''gps_coordinates_show'' CONF_DEF_VALUE (DInt (CLit 0)),
     CONF_INFO CONF_GPS 5 ''gps_height_show'' CONF_DEF_VALUE (DInt (CLit 0)),
     CONF_INFO CONF_GPS 6 ''gps_waypoint_save'' CONF_DEF_VALUE (DInt (CLit 0)),
     CONF_INFO CONF_GPS 7 ''gps_track_time'' CONF_DEF_VALUE (DInt (CLit 1)),
     CONF_INFO CONF_GPS 8 ''gps_compass_hide'' CONF_DEF_VALUE (DInt (CLit 0)),
     CONF_INFO CONF_GPS 9 ''gps_wait_for_signal'' CONF_DEF_VALUE (DInt (CLit 300)),
     CONF_INFO CONF_GPS 10 ''gps_compass_time'' CONF_DEF_VALUE (DInt (CLit 1)),
     CONF_INFO CONF_GPS 11 ''gps_navi_time'' CONF_DEF_VALUE (DInt (CLit 1)),
     CONF_INFO CONF_GPS 12 ''gps_wait_for_signal_time'' CONF_DEF_VALUE (DInt (CLit 5)),
     CONF_INFO CONF_GPS 13 ''gps_compass_smooth'' CONF_DEF_VALUE (DInt (CLit 7)),
     CONF_INFO CONF_GPS 14 ''gps_batt'' CONF_DEF_VALUE (DInt (CLit 25)),
     CONF_INFO CONF_GPS 15 ''gps_countdown'' CONF_DEF_VALUE (DInt (CLit 0)),
     CONF_INFO CONF_GPS 16 ''gps_2D_3D_fix'' CONF_DEF_VALUE (DInt (CLit 2)),
     CONF_INFO CONF_GPS 17 ''gps_countdown_blink'' CONF_DEF_VALUE (DInt (CLit 1)),
     CONF_INFO CONF_GPS 18 ''gps_rec_play_set'' CONF_DEF_VALUE (DInt (CLit 0)),
     CONF_INFO CONF_GPS 19 ''gps_play_dark_set'' CONF_DEF_VALUE (DInt (CLit 0)),
     CONF_INFO CONF_GPS 20 ''gps_rec_play_time'' CONF_DEF_VALUE (DInt (CLit 30)),
     CONF_INFO CONF_GPS 21 ''gps_play_dark_time'' CONF_DEF_VALUE (DInt (CLit 45)),
     CONF_INFO CONF_GPS 22 ''gps_rec_play_set_1'' CONF_DEF_VALUE (DInt (CLit 0)),
     CONF_INFO CONF_GPS 23 ''gps_play_dark_set_1'' CONF_DEF_VALUE (DInt (CLit 0)),
     CONF_INFO CONF_GPS 24 ''gps_rec_play_time_1'' CONF_DEF_VALUE (DInt (CLit 10)),
     CONF_INFO CONF_GPS 25 ''gps_play_dark_time_1'' CONF_DEF_VALUE (DInt (CLit 15)),
     CONF_INFO CONF_GPS 26 ''gps_show_symbol'' CONF_DEF_VALUE (DInt (CLit 0)),
     CONF_INFO CONF_GPS 27 ''gps_batt_warn'' CONF_DEF_VALUE (DInt (CLit 0)),
     CONF_INFO CONF_GPS 28 ''gps_track_symbol'' CONF_DEF_VALUE (DInt (CLit 0)),
     CONF_INFO CONF_GPS 29 ''gps_test_timezone'' CONF_DEF_VALUE (DInt (CLit 0)),
     CONF_INFO CONF_GPS 30 ''gps_beep_warn'' CONF_DEF_VALUE (DInt (CLit 0)),
     CONF_INFO CONF_GPS 31 ''gps_on_off'' CONF_DEF_VALUE (DInt (CLit 0))]"

definition conf_map_1_2 :: "nat list" where
  "conf_map_1_2 = [
     0, 2001, 1020, 1050, 1060, 2006, 1052, 2150, 2100, 2101, 0, 2102, 2103, 2104, 2090, 2160,
     1061, 1062, 1063, 1064, 1065, 2020, 2021, 2022, 2023, 2024, 2025, 2050, 2052, 0, 2055, 2059,
     1207, 1226, 2230, 1021, 1022, 1023, 2110, 2111, 0, 2080, 2026, 2112, 2113, 2114, 2115, 2120,
     2051, 1070, 1071, 1072, 1073, 1074, 1075, 2062, 1076, 3002, 2175, 1222, 1024, 2116, 2130,
     1220, 2135, 2136, 2131, 1221, 2140, 2141, 1039, 2142, 2060, 0, 0, 0, 0, 0, 0, 0, 2151, 2152,
     2153, 2154, 2155, 2156, 2157, 2161, 2162, 2163, 2164, 2165, 2166, 2167, 2168, 2169, 2170,
     2171, 2172, 1080, 1081, 1082, 1112, 1110, 1121, 1130, 1131, 1140, 1141, 1150, 1151, 1152,
     1153, 1154, 1155, 1156, 1113, 1114, 1120, 1999, 1053, 1200, 2173, 1100, 2002, 0, 1157, 1077,
     1003, 1066, 2053, 2061, 2180, 2027, 2181, 2182, 2028, 2200, 2029, 2201, 2174, 1111, 3003,
     3001, 2176, 2183, 2184, 2030, 2031, 2185, 2186, 2187, 2188, 2202, 1086, 2081, 2082, 2083,
     1160, 1161, 1162, 1163, 1164, 1165, 1166, 2056, 2057, 2134, 1084, 1033, 1085, 2054, 2003,
     2004, 2005, 1025, 2210, 2211, 2032, 1083, 1087, 1088, 2033, 2132, 2058, 1180, 1181, 1190,
     1191, 2063, 1201, 1202, 1203, 0, 1054, 2234, 1026, 1027, 1028, 1029, 2203, 2133, 1089, 2220,
     2034, 1090, 0, 0, 2121, 1041, 1042, 0, 0, 2231, 1055, 2035, 0, 0, 0, 1040, 2221, 0, 1192,
     1193, 1194, 1030, 1036, 1210, 1034, 1001, 1031, 1032, 1211, 1212, 1035, 1038, 1213, 1002,
     1224, 2232, 2233, 1195, 1196, 1197, 2240, 2241, 2250, 2036, 1204, 1205, 1206, 2189, 1091,
     4001, 4002, 4003, 4004, 4005, 4006, 4007, 4008, 4009, 4010, 4011, 4012, 4013, 4014, 4015,
     4016, 4017, 4018, 4019, 4020, 4021, 4022, 4023, 4024, 4025, 4026, 4027, 4029, 4030, 4031,
     1170, 1171, 1172, 1173, 1174, 1223, 1037, 2137, 2260, 2261, 2263, 1225, 2262, 2270, 2271,
     1230, 1231, 1214, 1215]"
section \<open>The files\<close>

text \<open>The functions that act on a changed option, by table.\<close>

datatype conf_info_kind = InfoCore | InfoOsd | InfoUserMenu | InfoNone

definition CONF_FILE :: string where "CONF_FILE = ''A/CHDK/CCHDK4.CFG''"
definition OSD_CONF_FILE :: string where "OSD_CONF_FILE = ''A/CHDK/OSD__4.CFG''"
definition USER_MENU_CONF_FILE :: string where "USER_MENU_CONF_FILE = ''A/CHDK/UMENU4.CFG''"
definition GPS_CONF_FILE :: string where "GPS_CONF_FILE = ''A/CHDK/GPS__4.CFG''"
definition CONF_MAGICK_VALUE :: int where "CONF_MAGICK_VALUE = 0x33204741"

record confinfo_handler =
  h_start :: nat
  h_end :: nat
  h_table :: "conf_info_t list"
  h_file :: string
  h_info :: conf_info_kind

definition confinfo_handlers :: "bool \<Rightarrow> confinfo_handler list" where
  "confinfo_handlers has_gps =
     [\<lparr>h_start = CONF_CORE, h_end = CONF_CORE + 999, h_table = core_conf_info, h_file = CONF_FILE, h_info = InfoCore\<rparr>,
      \<lparr>h_start = CONF_OSD, h_end = CONF_OSD + 999, h_table = osd_conf_info, h_file = OSD_CONF_FILE, h_info = InfoOsd\<rparr>,
      \<lparr>h_start = CONF_USER, h_end = CONF_USER + 999, h_table = user_menu_conf_info,
       h_file = USER_MENU_CONF_FILE, h_info = InfoUserMenu\<rparr>] @
     (if has_gps
      then [\<lparr>h_start = CONF_GPS, h_end = CONF_GPS + 999, h_table = gps_conf_info, h_file = GPS_CONF_FILE,
             h_info = InfoNone\<rparr>]
      else [])"

section \<open>Well-formed tables\<close>

fun increasing :: "nat list \<Rightarrow> bool" where
  "increasing (x # y # zs) = (x < y \<and> increasing (y # zs))"
| "increasing _ = True"

definition conf_table_ok :: "nat \<Rightarrow> conf_info_t list \<Rightarrow> bool" where
  "conf_table_ok b t \<longleftrightarrow> increasing (map ci_id t) \<and>
     list_all (\<lambda>e. 0 < ci_id e \<and> ci_id e < 1000 \<and> ci_size e = conf_sizeof (ci_type e) \<and> ci_var e = b + ci_id e) t"

lemma core_conf_info_ok: "conf_table_ok CONF_CORE core_conf_info"
  by (simp add: conf_table_ok_def core_conf_info_def CONF_INFO_def)

lemma osd_conf_info_ok: "conf_table_ok CONF_OSD osd_conf_info"
  by (simp add: conf_table_ok_def osd_conf_info_def CONF_INFO_def)

lemma gps_conf_info_ok: "conf_table_ok CONF_GPS gps_conf_info"
  by (simp add: conf_table_ok_def gps_conf_info_def CONF_INFO_def)

lemma user_menu_conf_info_ok: "conf_table_ok CONF_USER user_menu_conf_info"
  by (simp add: conf_table_ok_def user_menu_conf_info_def CONF_INFO_def)

end
