(* ===== verification/ConfStore.thy ===== *)
theory ConfStore
  imports ConfTables
begin

text \<open>
  The options of \<open>core/conf.c\<close> in memory: their bytes, their defaults, what a change of an option makes the program do,
  access to them by identifier, and the items of the user menu (\<open>core/gui_user_menu.c\<close>), the one option that is not of
  a fixed size.

  An access beyond the bytes of an option, or of a buffer, has no result (\<open>None\<close>). The heap is taken to have room. The
  values of the port's constants, the memory from a string literal on, and what other modules return are parameters
  (\<open>conf_env\<close>); their calls are logged.
\<close>

section \<open>Bytes\<close>

text \<open>Little-endian integers of \<open>n\<close> bytes.\<close>

fun le_bytes :: "nat \<Rightarrow> int \<Rightarrow> u8 list" where
  "le_bytes 0 x = []"
| "le_bytes (Suc n) x = word_of_int x # le_bytes n (x div 256)"

fun le_value :: "u8 list \<Rightarrow> int" where
  "le_value [] = 0"
| "le_value (b # bs) = uint b + 256 * le_value bs"

text \<open>A copy of \<open>n\<close> bytes at \<open>i\<close> of a buffer, and of bytes to \<open>i\<close> of an object.\<close>

definition bytes_at :: "nat \<Rightarrow> nat \<Rightarrow> u8 list \<Rightarrow> u8 list option" where
  "bytes_at i n bs = (if i + n \<le> length bs then Some (take n (drop i bs)) else None)"

definition put_bytes :: "nat \<Rightarrow> u8 list \<Rightarrow> u8 list \<Rightarrow> u8 list option" where
  "put_bytes i new bs =
     (if i + length new \<le> length bs then Some (take i bs @ new @ drop (i + length new) bs) else None)"

text \<open>The string at \<open>i\<close>, without the NUL.\<close>

definition cstr_at :: "nat \<Rightarrow> u8 list \<Rightarrow> u8 list option" where
  "cstr_at i bs = (if i \<le> length bs \<and> 0 \<in> set (drop i bs) then Some (takeWhile (\<lambda>b. b \<noteq> 0) (drop i bs)) else None)"

section \<open>State\<close>

text \<open>\<open>tUserMenuItem\<close> and \<open>tUserMenuConfig\<close>.\<close>

record user_menu_item =
  um_var :: u32
  um_script_file :: "u8 list option"
  um_script_title :: "u8 list option"

record user_menu_config =
  um_num_items :: nat
  um_items :: "user_menu_item list option"

datatype conf_call =
    UpdateDrawProc
  | RbfLoadFromFile "u8 list"
  | RbfLoadSymbol "u8 list"
  | GuiLangInit
  | FontSet u32
  | KbdSetExtraButton u32
  | UserMenuRestore
  | SaveExtForDng
  | ChangeDngUsbExt bool
  | ScriptLoad "u8 list"
  | VideoBitrateChange u32
  | SetUsbRemoteState
  | UpdatePreventShutdown
  | SaveParamsValuesIfChanged

record conf_state =
  conf_mem :: "nat \<Rightarrow> u8 list"
  last_saved :: "nat \<Rightarrow> u32"
  user_menu_vars :: user_menu_config
  user_menu_has_changed :: bool
  badpixel_list_loaded :: bool
  config_autosave :: bool
  conf_files :: "string \<Rightarrow> u8 list option"
  conf_calls :: "conf_call list"

record conf_env =
  ce_const :: "string \<Rightarrow> u32"
  ce_literal :: "string \<Rightarrow> u8 list"
  ce_func :: "string \<Rightarrow> u32"
  ce_has_gps :: bool
  ce_can_write :: "string \<Rightarrow> bool"
  ce_badpixel_loads :: bool
  ce_symbols_load :: bool
  ce_dng_ext_from :: bool
  ce_extra_button :: bool
  ce_adjustable_alt_button :: "(u32 \<Rightarrow> u32) option"
  ce_ext_video_time :: bool
  ce_user_menu_save :: "user_menu_config \<Rightarrow> user_menu_config"
  ce_curves :: bool
  ce_max_langid :: u32

definition conf_call :: "conf_call \<Rightarrow> conf_state \<Rightarrow> conf_state" where
  "conf_call c s = s\<lparr>conf_calls := conf_calls s @ [c]\<rparr>"

section \<open>Options by number\<close>

text \<open>The options the code names, by their numbers.\<close>

definition PLATFORMID_OPT :: nat where "PLATFORMID_OPT = 1001"
definition SAVE_RAW :: nat where "SAVE_RAW = 1020"
definition DNG_RAW :: nat where "DNG_RAW = 1036"
definition DNG_VERSION :: nat where "DNG_VERSION = 1037"
definition DNG_USB_EXT :: nat where "DNG_USB_EXT = 1038"
definition SCRIPT_FILE :: nat where "SCRIPT_FILE = 1054"
definition VIDEO_BITRATE :: nat where "VIDEO_BITRATE = 1082"
definition ALT_MODE_BUTTON :: nat where "ALT_MODE_BUTTON = 1220"
definition MENU_SYMBOL_ENABLE :: nat where "MENU_SYMBOL_ENABLE = 2130"
definition LUA_NATIVE_CALLS :: nat where "LUA_NATIVE_CALLS = 1999"

text \<open>The value of an \<open>int\<close> option, and setting it.\<close>

definition opt_int :: "conf_state \<Rightarrow> nat \<Rightarrow> u32" where
  "opt_int s v = word_of_int (le_value (take 4 (conf_mem s v)))"

definition set_opt :: "nat \<Rightarrow> u32 \<Rightarrow> conf_state \<Rightarrow> conf_state" where
  "set_opt v x s = s\<lparr>conf_mem := (conf_mem s)(v := le_bytes 4 (uint x) @ drop 4 (conf_mem s v))\<rparr>"

text \<open>\<open>memcpy\<close> to an option.\<close>

definition conf_write :: "nat \<Rightarrow> u8 list \<Rightarrow> conf_state \<Rightarrow> conf_state option" where
  "conf_write v bs s = do {
     m \<leftarrow> put_bytes 0 bs (conf_mem s v);
     Some (s\<lparr>conf_mem := (conf_mem s)(v := m)\<rparr>) }"

section \<open>What a change of an option does\<close>

definition conf_change_dng :: "conf_env \<Rightarrow> conf_state \<Rightarrow> conf_state" where
  "conf_change_dng E s =
     (if opt_int s SAVE_RAW \<noteq> 0 \<and> opt_int s DNG_RAW \<noteq> 0 \<and> opt_int s DNG_VERSION \<noteq> 0
      then let s1 = (if \<not> badpixel_list_loaded s then s\<lparr>badpixel_list_loaded := ce_badpixel_loads E\<rparr> else s)
        in if \<not> badpixel_list_loaded s1 then set_opt DNG_VERSION 0 s1 else s1
      else s)"

definition cb_change_dng_usb_ext :: "conf_state \<Rightarrow> conf_state" where
  "cb_change_dng_usb_ext s = conf_call (ChangeDngUsbExt (opt_int s DNG_USB_EXT \<noteq> 0)) s"

definition conf_info_func :: "conf_env \<Rightarrow> nat \<Rightarrow> conf_state \<Rightarrow> conf_state" where
  "conf_info_func E i s =
     (if i \<in> {20, 36, 37} then conf_change_dng E s
      else if i = 38 \<and> ce_dng_ext_from E then cb_change_dng_usb_ext (conf_call SaveExtForDng s)
      else if i = 54 then conf_call (ScriptLoad (conf_mem s SCRIPT_FILE)) s
      else if i = 82 then conf_call (VideoBitrateChange (opt_int s VIDEO_BITRATE)) s
      else if i \<in> {200, 204, 205} then conf_call SetUsbRemoteState s
      else if i = 220 then (if ce_adjustable_alt_button E = None then set_opt ALT_MODE_BUTTON (ce_const E ''KEY_PRINT'') s else s)
      else if i = 221 then conf_call UpdatePreventShutdown s
      else s)"

definition osd_conf_info_func :: "conf_env \<Rightarrow> nat \<Rightarrow> conf_state \<Rightarrow> conf_state" where
  "osd_conf_info_func E i s =
     (if i = 6 then conf_call UpdateDrawProc s
      else if i = 131 then conf_call (RbfLoadFromFile (conf_mem s 2131)) s
      else if i = 132
      then let s1 = conf_call (RbfLoadSymbol (conf_mem s 2132)) s
        in if \<not> ce_symbols_load E then set_opt MENU_SYMBOL_ENABLE 0 s1 else s1
      else if i = 135 then conf_call GuiLangInit s
      else if i = 136 then conf_call (FontSet (opt_int s 2136)) s
      else if i = 263 \<and> ce_extra_button E then conf_call (KbdSetExtraButton (opt_int s 2263)) s
      else s)"

definition user_menu_conf_info_func :: "nat \<Rightarrow> conf_state \<Rightarrow> conf_state" where
  "user_menu_conf_info_func i s = (if i = 1 then conf_call UserMenuRestore s else s)"

definition info_func :: "conf_env \<Rightarrow> conf_info_kind \<Rightarrow> nat \<Rightarrow> conf_state \<Rightarrow> conf_state" where
  "info_func E k i s =
     (case k of
        InfoCore \<Rightarrow> conf_info_func E i s
      | InfoOsd \<Rightarrow> osd_conf_info_func E i s
      | InfoUserMenu \<Rightarrow> user_menu_conf_info_func i s
      | InfoNone \<Rightarrow> s)"

text \<open>Options that are reset at start-up.\<close>

definition set_opts :: "(nat \<times> u32) list \<Rightarrow> conf_state \<Rightarrow> conf_state" where
  "set_opts = fold (\<lambda>(v, x). set_opt v x)"

definition clear_values :: "conf_env \<Rightarrow> conf_state \<Rightarrow> conf_state" where
  "clear_values E s =
     (let s1 = set_opt ALT_MODE_BUTTON
                 (case ce_adjustable_alt_button E of
                    Some f \<Rightarrow> f (opt_int s ALT_MODE_BUTTON)
                  | None \<Rightarrow> ce_const E ''CAM_DEFAULT_ALT_BUTTON'') s;
          s2 = (if opt_int s1 PLATFORMID_OPT \<noteq> ce_const E ''PLATFORMID''
                then set_opts [(1087, 0), (1089, 0), (1090, 0), (2176, 100),
                               (PLATFORMID_OPT, ce_const E ''PLATFORMID''), (1211, 0)] s1
                else s1);
          s3 = (if opt_int s2 1100 \<noteq> 0
                then set_opts [(1120, 0), (1110, 0), (1141, ce_const E ''SD_OVERRIDE_OFF''), (1131, 0), (1003, 0)] s2
                else s2);
          s4 = (if opt_int s3 1157 \<noteq> 0
                then set_opts [(1151, 0), (1150, 0), (1153, 0), (1155, 0)] s3 else s3)
      in if opt_int s4 1083 \<noteq> 0
         then let s5 = set_opts ([(1080, 0)] @ (if ce_ext_video_time E then [(1091, 0)] else []) @
                         [(1081, ce_const E ''VIDEO_DEFAULT_QUALITY''),
                          (VIDEO_BITRATE, ce_const E ''VIDEO_DEFAULT_BITRATE'')]) s4
           in conf_call (VideoBitrateChange (opt_int s5 VIDEO_BITRATE)) s5
         else s4)"

section \<open>Defaults\<close>

definition const_value :: "conf_env \<Rightarrow> conf_const \<Rightarrow> int" where
  "const_value E c = (case c of CLit i \<Rightarrow> i | CPort n \<Rightarrow> uint (ce_const E n))"

text \<open>The four bytes of the union, where it does not hold a pointer.\<close>

definition union_bytes :: "conf_env \<Rightarrow> conf_default \<Rightarrow> u8 list option" where
  "union_bytes E d =
     (case d of
        DInt c \<Rightarrow> Some (le_bytes 4 (const_value E c))
      | DColor a b c d \<Rightarrow> Some (map (\<lambda>c. word_of_int (const_value E c)) [a, b, c, d])
      | DPos x y \<Rightarrow> Some (le_bytes 2 (const_value E x) @ le_bytes 2 (const_value E y))
      | _ \<Rightarrow> None)"

definition load_default :: "conf_env \<Rightarrow> conf_info_t \<Rightarrow> conf_state \<Rightarrow> conf_state option" where
  "load_default E e s =
     (if ci_type e = CONF_OSD_POS \<or> ci_type e = CONF_DEF_VALUE
      then do {
        u \<leftarrow> union_bytes E (ci_def e);
        bs \<leftarrow> bytes_at 0 (ci_size e) u;
        conf_write (ci_var e) bs s }
      else if ci_type e = CONF_INT_PTR then conf_write (ci_var e) (replicate (ci_size e) 0) s
      else if ci_type e = CONF_FUNC_PTR
      then (case ci_def e of
              DFunc f \<Rightarrow> conf_write (ci_var e) (le_bytes 4 (uint (ce_func E f))) s
            | _ \<Rightarrow> None)
      else if ci_type e = CONF_CHAR_PTR
      then (case ci_def e of
              DPtr l \<Rightarrow> do { bs \<leftarrow> bytes_at 0 (ci_size e) (ce_literal E l); conf_write (ci_var e) bs s }
            | _ \<Rightarrow> None)
      else Some s)"

fun config_load_defaults ::
  "conf_env \<Rightarrow> conf_info_t list \<Rightarrow> conf_info_kind \<Rightarrow> conf_state \<Rightarrow> conf_state option" where
  "config_load_defaults E [] k s = Some s"
| "config_load_defaults E (e # es) k s = do {
     s1 \<leftarrow> load_default E e s;
     config_load_defaults E es k (info_func E k (ci_id e) s1) }"

fun load_defaults_of :: "conf_env \<Rightarrow> confinfo_handler list \<Rightarrow> conf_state \<Rightarrow> conf_state option" where
  "load_defaults_of E [] s = Some s"
| "load_defaults_of E (h # hs) s = do {
     s1 \<leftarrow> config_load_defaults E (h_table h) (h_info h) s;
     load_defaults_of E hs s1 }"

definition conf_load_defaults :: "conf_env \<Rightarrow> conf_state \<Rightarrow> conf_state option" where
  "conf_load_defaults E = load_defaults_of E (confinfo_handlers (ce_has_gps E))"

section \<open>Access by identifier\<close>

definition findConfInfo :: "conf_info_t list \<Rightarrow> nat \<Rightarrow> conf_info_t option" where
  "findConfInfo ci i = find (\<lambda>e. ci_id e = i) ci"

text \<open>\<open>COLOR_FIRST_OVERRIDE\<close> to \<open>COLOR_LAST_OVERRIDE\<close>.\<close>

fun reset_colors_of :: "conf_env \<Rightarrow> nat list \<Rightarrow> conf_state \<Rightarrow> conf_state option" where
  "reset_colors_of E [] s = Some s"
| "reset_colors_of E (n # ns) s =
     (case findConfInfo osd_conf_info n of
        None \<Rightarrow> reset_colors_of E ns s
      | Some e \<Rightarrow> do {
          bs \<leftarrow> union_bytes E (ci_def e);
          s1 \<leftarrow> conf_write (ci_var e) bs s;
          reset_colors_of E ns s1 })"

definition resetColors :: "conf_env \<Rightarrow> conf_state \<Rightarrow> conf_state option" where
  "resetColors E = reset_colors_of E [50..<64]"

definition CONF_EMPTY :: int where "CONF_EMPTY = 0"

definition conf_type_code :: "conf_type \<Rightarrow> int" where
  "conf_type_code t = (case t of CONF_DEF_VALUE \<Rightarrow> 1 | CONF_FUNC_PTR \<Rightarrow> 2 | CONF_INT_PTR \<Rightarrow> 3
     | CONF_CHAR_PTR \<Rightarrow> 4 | CONF_OSD_POS \<Rightarrow> 5 | CONF_STRUCT_PTR \<Rightarrow> 6)"

text \<open>
  \<open>tConfigVal\<close>. Of a value that is read, \<open>cv_str\<close> and \<open>cv_pInt\<close> are the option pointed to; of one to set, \<open>cv_chars\<close> and
  \<open>cv_ints\<close> are the memory the pointers point to.
\<close>

record config_val =
  isNumb :: bool
  isStr :: bool
  isPInt :: bool
  isPos :: bool
  cv_numb :: u32
  cv_str :: "nat option"
  cv_pInt :: "nat option"
  cv_pos :: "u8 list"
  cv_chars :: "u8 list"
  cv_ints :: "u8 list"

text \<open>An integer of one, two (signed) or four bytes.\<close>

definition read_sized :: "nat \<Rightarrow> u8 list \<Rightarrow> u32 option" where
  "read_sized n bs =
     (if n = 4 then Some (word_of_int (le_value (take 4 bs)))
      else if n = 2 then Some (word_of_int (sint (word_of_int (le_value (take 2 bs)) :: u16)))
      else if n = 1 then Some (word_of_int (le_value (take 1 bs)))
      else None)"

definition getValue :: "conf_info_t list \<Rightarrow> nat \<Rightarrow> conf_state \<Rightarrow> config_val \<Rightarrow> int \<times> config_val" where
  "getValue ci i s c =
     (if i = 0 then (conf_type_code CONF_DEF_VALUE, c\<lparr>cv_numb := of_nat (fold max (map ci_id ci) 0)\<rparr>)
      else (case findConfInfo ci i of
        None \<Rightarrow> (CONF_EMPTY, c)
      | Some e \<Rightarrow>
          let m = conf_mem s (ci_var e); p = Some (ci_var e) in
          (case ci_type e of
             CONF_INT_PTR \<Rightarrow> (conf_type_code CONF_INT_PTR, c\<lparr>cv_numb := of_nat (ci_size e div 4), cv_pInt := p\<rparr>)
           | CONF_CHAR_PTR \<Rightarrow> (conf_type_code CONF_CHAR_PTR, c\<lparr>cv_str := p\<rparr>)
           | CONF_OSD_POS \<Rightarrow> (conf_type_code CONF_OSD_POS, c\<lparr>cv_pos := take 4 m, cv_pInt := p\<rparr>)
           | CONF_STRUCT_PTR \<Rightarrow> (CONF_EMPTY, c)
           | _ \<Rightarrow>
             (case read_sized (ci_size e) m of
                Some x \<Rightarrow> (conf_type_code CONF_DEF_VALUE, c\<lparr>cv_numb := x, cv_pInt := p\<rparr>)
              | None \<Rightarrow> (CONF_EMPTY, c\<lparr>cv_pInt := p\<rparr>)))))"

definition find_handler :: "conf_env \<Rightarrow> nat \<Rightarrow> confinfo_handler option" where
  "find_handler E i = find (\<lambda>h. h_start h \<le> i \<and> i \<le> h_end h) (confinfo_handlers (ce_has_gps E))"

text \<open>An old identifier is an index of the map; there is no check of its bound.\<close>

definition new_id :: "nat \<Rightarrow> nat option" where
  "new_id i =
     (if i < CONF_CORE then if i < length conf_map_1_2 then Some (conf_map_1_2 ! i) else None
      else Some i)"

definition conf_getValue :: "conf_env \<Rightarrow> nat \<Rightarrow> conf_state \<Rightarrow> config_val \<Rightarrow> (int \<times> config_val) option" where
  "conf_getValue E i0 s c = do {
     i \<leftarrow> new_id i0;
     Some (case find_handler E i of
             Some h \<Rightarrow> getValue (h_table h) (i - h_start h) s c
           | None \<Rightarrow> (CONF_EMPTY, c)) }"

text \<open>The assignments of \<open>setValue\<close>, with the type it returns.\<close>

definition set_value_of :: "conf_info_t \<Rightarrow> config_val \<Rightarrow> conf_state \<Rightarrow> (int \<times> conf_state) option" where
  "set_value_of e c s =
     (case ci_type e of
        CONF_INT_PTR \<Rightarrow>
          if isPInt c then do {
            let len2 = sint (cv_numb c * 4);
            let len = (if len2 < int (ci_size e) then len2 else int (ci_size e));
            if 0 \<le> len then do {
              bs \<leftarrow> bytes_at 0 (nat len) (cv_ints c);
              s1 \<leftarrow> conf_write (ci_var e) bs s;
              Some (conf_type_code CONF_INT_PTR, s1) }
            else None }
          else Some (CONF_EMPTY, s)
      | CONF_CHAR_PTR \<Rightarrow>
          if isStr c then do {
            str \<leftarrow> cstr_at 0 (cv_chars c);
            s1 \<leftarrow> (if length str < CONF_STR_LEN then conf_write (ci_var e) (str @ [0]) s else Some s);
            Some (conf_type_code CONF_CHAR_PTR, s1) }
          else Some (CONF_EMPTY, s)
      | CONF_OSD_POS \<Rightarrow>
          if isPos c then do {
            s1 \<leftarrow> conf_write (ci_var e) (take 4 (cv_pos c)) s;
            Some (conf_type_code CONF_OSD_POS, s1) }
          else Some (CONF_EMPTY, s)
      | CONF_STRUCT_PTR \<Rightarrow> Some (CONF_EMPTY, s)
      | _ \<Rightarrow>
          if isNumb c \<and> ci_size e \<in> {1, 2, 4} then do {
            s1 \<leftarrow> conf_write (ci_var e) (le_bytes (ci_size e) (uint (cv_numb c))) s;
            Some (conf_type_code CONF_DEF_VALUE, s1) }
          else Some (CONF_EMPTY, s))"

section \<open>The user menu\<close>

definition user_menu_saved_size :: "user_menu_config \<Rightarrow> nat" where
  "user_menu_saved_size u = um_num_items u * (4 + CONF_STR_LEN * 2) + 4"

definition empty_item :: user_menu_item where
  "empty_item = \<lparr>um_var = 0, um_script_file = None, um_script_title = None\<rparr>"

definition init_user_menu :: "nat \<Rightarrow> user_menu_config \<Rightarrow> user_menu_config" where
  "init_user_menu n u = \<lparr>um_num_items = n, um_items = Some (replicate n empty_item)\<rparr>"

definition put_str :: "nat \<Rightarrow> u8 list option \<Rightarrow> u8 list \<Rightarrow> u8 list option" where
  "put_str i str bs = (case str of None \<Rightarrow> Some bs | Some cs \<Rightarrow> put_bytes i cs bs)"

definition store_item :: "user_menu_item \<Rightarrow> u8 list option" where
  "store_item it = do {
     p1 \<leftarrow> put_str 0 (um_script_file it) (replicate (CONF_STR_LEN * 2) 0);
     p2 \<leftarrow> put_str CONF_STR_LEN (um_script_title it) p1;
     Some (le_bytes 4 (uint (um_var it)) @ p2) }"

fun store_items :: "user_menu_item list \<Rightarrow> u8 list option" where
  "store_items [] = Some []"
| "store_items (it # its) = do { a \<leftarrow> store_item it; b \<leftarrow> store_items its; Some (a @ b) }"

definition user_menu_store_data :: "user_menu_config \<Rightarrow> u8 list option" where
  "user_menu_store_data u =
     (if um_num_items u = 0 then Some (le_bytes 4 0)
      else do {
        its \<leftarrow> um_items u;
        if um_num_items u \<le> length its
        then do { bs \<leftarrow> store_items (take (um_num_items u) its); Some (le_bytes 4 (int (um_num_items u)) @ bs) }
        else None })"

text \<open>A string is read only if it is not empty; else what the item has stays.\<close>

definition load_str :: "nat \<Rightarrow> u8 list \<Rightarrow> u8 list option \<Rightarrow> u8 list option option" where
  "load_str i buf old = do {
     b \<leftarrow> bytes_at i 1 buf;
     if b \<noteq> [0] then do {
       str \<leftarrow> cstr_at i buf;
       if length str < CONF_STR_LEN then Some (Some str) else None }
     else Some old }"

definition load_item :: "nat \<Rightarrow> u8 list \<Rightarrow> user_menu_item \<Rightarrow> user_menu_item option" where
  "load_item p buf it = do {
     v \<leftarrow> bytes_at p 4 buf;
     f \<leftarrow> load_str (p + 4) buf (um_script_file it);
     t \<leftarrow> load_str (p + 4 + CONF_STR_LEN) buf (um_script_title it);
     Some \<lparr>um_var = word_of_int (le_value v), um_script_file = f, um_script_title = t\<rparr> }"

fun load_items :: "nat \<Rightarrow> nat \<Rightarrow> u8 list \<Rightarrow> user_menu_item list \<Rightarrow> user_menu_item list option" where
  "load_items 0 p buf its = Some its"
| "load_items (Suc n) p buf [] = None"
| "load_items (Suc n) p buf (it # its) = do {
     it' \<leftarrow> load_item p buf it;
     its' \<leftarrow> load_items n (p + 4 + CONF_STR_LEN * 2) buf its;
     Some (it' # its') }"

definition user_menu_load_data :: "nat \<Rightarrow> u8 list \<Rightarrow> user_menu_config \<Rightarrow> (nat \<times> user_menu_config) option" where
  "user_menu_load_data p buf u = do {
     nb \<leftarrow> bytes_at p 4 buf;
     let n = sint (word_of_int (le_value nb) :: u32);
     let u1 = (if n > int (um_num_items u) then init_user_menu (nat n) u else u);
     u2 \<leftarrow> (if n \<le> 0 then Some u1
            else do {
              its \<leftarrow> um_items u1;
              its' \<leftarrow> load_items (nat n) (p + 4) buf its;
              Some (u1\<lparr>um_items := Some its'\<rparr>) });
     Some (user_menu_saved_size u2, u2) }"

end
