(* ===== verification/ConfFile.thy ===== *)
theory ConfFile
  imports ConfStore
begin

text \<open>
  The configuration files of \<open>core/conf.c\<close>: deciding whether a table's options have changed since they were saved, writing
  them, reading them back, reading the single file of version 1.2, and setting an option from a script, which saves the
  files that it changes.

  A file is its bytes. One that exists can be read whole; whether one can be opened for writing is a parameter. The
  option \<open>OPT_FORCE_LUA_CALL_NATIVE\<close> of the build is off, as it is by default.
\<close>

section \<open>Changes\<close>

definition hash_step :: "u8 \<Rightarrow> u32 \<Rightarrow> u32" where
  "hash_step b h = (ucast b XOR push_bit 6 h) XOR drop_bit 25 h"

definition memhash31 :: "u8 list \<Rightarrow> u32" where
  "memhash31 mem = fold hash_step mem 0"

text \<open>The hash of a string at an address, which is not the number of a language string.\<close>

definition lang_strhash31 :: "conf_env \<Rightarrow> u8 list \<Rightarrow> u32 option" where
  "lang_strhash31 E mem = do {
     str \<leftarrow> cstr_at 0 mem;
     let hash = fold hash_step str 0;
     Some (if hash < ce_max_langid E then hash OR 0x80000000 else hash) }"

text \<open>What \<open>last_saved\<close> of an entry is compared with and set to; nothing for the user menu's items.\<close>

definition conf_hash :: "conf_env \<Rightarrow> conf_info_t \<Rightarrow> conf_state \<Rightarrow> u32 option option" where
  "conf_hash E e s =
     (case ci_type e of
        CONF_STRUCT_PTR \<Rightarrow> Some None
      | CONF_INT_PTR \<Rightarrow> do { m \<leftarrow> bytes_at 0 (ci_size e) (conf_mem s (ci_var e)); Some (Some (memhash31 m)) }
      | CONF_CHAR_PTR \<Rightarrow> do { h \<leftarrow> lang_strhash31 E (conf_mem s (ci_var e)); Some (Some h) }
      | _ \<Rightarrow> do { m \<leftarrow> bytes_at 0 (ci_size e) (conf_mem s (ci_var e)); Some (read_sized (ci_size e) m) })"

fun config_update_last_saved :: "conf_env \<Rightarrow> conf_info_t list \<Rightarrow> conf_state \<Rightarrow> conf_state option" where
  "config_update_last_saved E [] s = Some s"
| "config_update_last_saved E (e # es) s = do {
     h \<leftarrow> conf_hash E e s;
     config_update_last_saved E es
       (case h of None \<Rightarrow> s | Some x \<Rightarrow> s\<lparr>last_saved := (last_saved s)(ci_var e := x)\<rparr>) }"

fun config_has_changed :: "conf_env \<Rightarrow> conf_info_t list \<Rightarrow> conf_state \<Rightarrow> bool option" where
  "config_has_changed E [] s = Some False"
| "config_has_changed E (e # es) s = do {
     h \<leftarrow> conf_hash E e s;
     if h \<noteq> None \<and> h \<noteq> Some (last_saved s (ci_var e)) then Some True else config_has_changed E es s }"

section \<open>Saving\<close>

text \<open>The size allocated for a file: the header, the entries' headers and values.\<close>

definition saved_size_of :: "conf_state \<Rightarrow> conf_info_t \<Rightarrow> nat" where
  "saved_size_of s e =
     (if ci_type e = CONF_STRUCT_PTR then user_menu_saved_size (user_menu_vars s) else ci_size e)"

definition config_size :: "conf_info_t list \<Rightarrow> conf_state \<Rightarrow> nat" where
  "config_size ci s = 8 + length ci * 4 + sum_list (map (saved_size_of s) ci)"

text \<open>Bytes at \<open>p\<close> of the buffer of \<open>size\<close> bytes; those before it are written.\<close>

definition emit :: "nat \<Rightarrow> u8 list \<Rightarrow> u8 list \<Rightarrow> u8 list option" where
  "emit n p bs = (if length p + length bs \<le> n then Some (p @ bs) else None)"

text \<open>The value of an entry; what follows a string is cleared.\<close>

definition saved_value :: "conf_info_t \<Rightarrow> conf_state \<Rightarrow> u8 list option" where
  "saved_value e s =
     (if ci_type e = CONF_STRUCT_PTR then user_menu_store_data (user_menu_vars s)
      else do {
        m \<leftarrow> bytes_at 0 (ci_size e) (conf_mem s (ci_var e));
        (if ci_size e = CONF_STR_LEN
         then do { str \<leftarrow> cstr_at 0 (conf_mem s (ci_var e));
                   Some (if length str < CONF_STR_LEN then str @ replicate (CONF_STR_LEN - length str) 0 else m) }
         else Some m) })"

fun save_entries :: "nat \<Rightarrow> conf_info_t list \<Rightarrow> conf_state \<Rightarrow> u8 list \<Rightarrow> u8 list option" where
  "save_entries n [] s p = Some p"
| "save_entries n (e # es) s p = do {
     p1 \<leftarrow> emit n p (le_bytes 2 (int (ci_id e)) @ le_bytes 2 (int (ci_size e)));
     v \<leftarrow> saved_value e s;
     p2 \<leftarrow> emit n p1 v;
     save_entries n es s p2 }"

definition config_save :: "conf_env \<Rightarrow> conf_info_t list \<Rightarrow> string \<Rightarrow> nat \<Rightarrow> conf_state \<Rightarrow> conf_state option" where
  "config_save E ci filename config_base s =
     (if ce_can_write E filename
      then do {
        let n = config_size ci s;
        p \<leftarrow> emit n [] (le_bytes 4 CONF_MAGICK_VALUE);
        p1 \<leftarrow> emit n p (le_bytes 4 (int config_base));
        p2 \<leftarrow> save_entries n ci s p1;
        Some (s\<lparr>conf_files := (conf_files s)(filename \<mapsto> p2)\<rparr>) }
      else Some s)"

fun conf_save_handlers :: "conf_env \<Rightarrow> confinfo_handler list \<Rightarrow> conf_state \<Rightarrow> conf_state option" where
  "conf_save_handlers E [] s = Some s"
| "conf_save_handlers E (h # hs) s = do {
     ch \<leftarrow> config_has_changed E (h_table h) s;
     s1 \<leftarrow> (if ch \<or> h_start h = CONF_USER \<and> user_menu_has_changed s
            then do {
              let s0 = (if h_start h = CONF_USER then s\<lparr>user_menu_vars := ce_user_menu_save E (user_menu_vars s)\<rparr> else s);
              s' \<leftarrow> config_save E (h_table h) (h_file h) (h_start h) s0;
              config_update_last_saved E (h_table h) s' }
            else Some s);
     conf_save_handlers E hs s1 }"

definition conf_save :: "conf_env \<Rightarrow> conf_state \<Rightarrow> conf_state option" where
  "conf_save E s = do {
     s1 \<leftarrow> conf_save_handlers E (confinfo_handlers (ce_has_gps E)) s;
     Some (conf_call SaveParamsValuesIfChanged s1) }"

text \<open>Saving and loading one file; \<open>None\<close> for the default name.\<close>

definition save_config_file :: "conf_env \<Rightarrow> nat \<Rightarrow> string option \<Rightarrow> conf_state \<Rightarrow> (bool \<times> conf_state) option" where
  "save_config_file E config_base filename s =
     (case find_handler E config_base of
        None \<Rightarrow> Some (False, s)
      | Some h \<Rightarrow> do {
          s1 \<leftarrow> config_save E (h_table h) (case filename of Some f \<Rightarrow> f | None \<Rightarrow> h_file h) (h_start h) s;
          s2 \<leftarrow> (if filename = None then config_update_last_saved E (h_table h) s1 else Some s1);
          Some (True, s2) })"

section \<open>Restoring\<close>

text \<open>\<open>load_file\<close> of \<open>lib/lang/fileutil.c\<close>: no buffer for a file that is missing or empty.\<close>

definition load_file :: "string \<Rightarrow> conf_state \<Rightarrow> u8 list option" where
  "load_file name s = (case conf_files s name of Some bs \<Rightarrow> if bs = [] then None else Some bs | None \<Rightarrow> None)"

definition u16_at :: "nat \<Rightarrow> u8 list \<Rightarrow> nat" where
  "u16_at i buf = nat (le_value (take 2 (drop i buf)))"

text \<open>An entry's value, at \<open>offs\<close> of the buffer: the n to skip, which is 16 bits, and the state.\<close>

definition restore_entry ::
  "conf_env \<Rightarrow> conf_info_t list \<Rightarrow> conf_info_kind \<Rightarrow> nat \<Rightarrow> nat \<Rightarrow> nat \<Rightarrow> u8 list \<Rightarrow> conf_state \<Rightarrow>
   (nat \<times> conf_state) option" where
  "restore_entry E ci k i n offs buf s =
     (case find (\<lambda>e. ci_id e = i \<and> ci_size e = n) ci of
        None \<Rightarrow> Some (n, s)
      | Some e \<Rightarrow>
          if offs + n \<le> length buf
          then do {
            (n', s1) \<leftarrow>
              (if ci_type e = CONF_STRUCT_PTR
               then do {
                 (sz, u) \<leftarrow> user_menu_load_data offs buf (user_menu_vars s);
                 Some (sz mod 65536, s\<lparr>user_menu_vars := u\<rparr>) }
               else do {
                 bs \<leftarrow> bytes_at offs n buf;
                 s1 \<leftarrow> conf_write (ci_var e) bs s;
                 Some (n, s1) });
            Some (n', info_func E k (ci_id e) s1) }
          else Some (n, s))"

function restore_loop ::
  "conf_env \<Rightarrow> conf_info_t list \<Rightarrow> conf_info_kind \<Rightarrow> u8 list \<Rightarrow> nat \<Rightarrow> conf_state \<Rightarrow> conf_state option" where
  "restore_loop E ci k buf offs s =
     (if offs + 2 > length buf then Some s
      else if offs + 2 + 2 > length buf then Some s
      else do {
        (n, s1) \<leftarrow> restore_entry E ci k (u16_at offs buf) (u16_at (offs + 2) buf) (offs + 4) buf s;
        restore_loop E ci k buf (offs + 4 + n) s1 })"
  by pat_completeness auto
termination
  by (relation "measure (\<lambda>(E, ci, k, buf, offs, s). length buf - offs)") auto

declare restore_loop.simps [simp del]

definition config_restore ::
  "conf_env \<Rightarrow> conf_info_t list \<Rightarrow> string \<Rightarrow> conf_info_kind \<Rightarrow> conf_state \<Rightarrow> conf_state option" where
  "config_restore E ci filename k s =
     (case load_file filename s of
        None \<Rightarrow> Some s
      | Some buf \<Rightarrow> do {
          magick \<leftarrow> bytes_at 0 4 buf;
          if le_value magick = CONF_MAGICK_VALUE then restore_loop E ci k buf 8 s else Some s })"

text \<open>The file of version 1.2. Its identifiers are signed indices of the map, which are not checked.\<close>

function restore_1_2_loop :: "conf_env \<Rightarrow> u8 list \<Rightarrow> nat \<Rightarrow> conf_state \<Rightarrow> conf_state option" where
  "restore_1_2_loop E buf offs s =
     (if offs + 2 > length buf then Some s
      else if u16_at offs buf \<ge> length conf_map_1_2 then None
      else if offs + 2 + 2 > length buf then Some s
      else do {
        let i = conf_map_1_2 ! u16_at offs buf;
        let n = u16_at (offs + 2) buf;
        (n', s1) \<leftarrow>
          (case find_handler E i of
             None \<Rightarrow> Some (n, s)
           | Some h \<Rightarrow> restore_entry E (h_table h) (h_info h) (i - h_start h) n (offs + 4) buf s);
        restore_1_2_loop E buf (offs + 4 + n') s1 })"
  by pat_completeness auto
termination
  by (relation "measure (\<lambda>(E, buf, offs, s). length buf - offs)") auto

declare restore_1_2_loop.simps [simp del]

definition config_restore_1_2 :: "conf_env \<Rightarrow> string \<Rightarrow> conf_state \<Rightarrow> (bool \<times> conf_state) option" where
  "config_restore_1_2 E filename s =
     (case load_file filename s of
        None \<Rightarrow> Some (False, s)
      | Some buf \<Rightarrow> do {
          magick \<leftarrow> bytes_at 0 4 buf;
          if le_value magick = CONF_MAGICK_VALUE
          then do { s1 \<leftarrow> restore_1_2_loop E buf 4 s; Some (True, s1) }
          else Some (False, s) })"

definition USER_MENU_ITEMS :: nat where "USER_MENU_ITEMS = 14"

fun restore_handlers :: "conf_env \<Rightarrow> bool \<Rightarrow> confinfo_handler list \<Rightarrow> conf_state \<Rightarrow> conf_state option" where
  "restore_handlers E old_config_loaded [] s = Some s"
| "restore_handlers E old_config_loaded (h # hs) s = do {
     s1 \<leftarrow> config_restore E (h_table h) (h_file h) (h_info h) s;
     s2 \<leftarrow> (if \<not> old_config_loaded then config_update_last_saved E (h_table h) s1 else Some s1);
     restore_handlers E old_config_loaded hs s2 }"

definition CURVE_ENABLE :: nat where "CURVE_ENABLE = 1181"

definition conf_restore :: "conf_env \<Rightarrow> conf_state \<Rightarrow> conf_state option" where
  "conf_restore E s = do {
     let s1 = s\<lparr>user_menu_vars := init_user_menu USER_MENU_ITEMS (user_menu_vars s)\<rparr>;
     s2 \<leftarrow> conf_load_defaults E s1;
     (old_config_loaded, s3) \<leftarrow>
       (if conf_files s2 CONF_FILE = None then config_restore_1_2 E ''A/CHDK/CCHDK3.CFG'' s2 else Some (False, s2));
     s4 \<leftarrow> restore_handlers E old_config_loaded (confinfo_handlers (ce_has_gps E)) s3;
     let s5 = clear_values E s4;
     Some (if \<not> ce_curves E then set_opt CURVE_ENABLE 0 s5 else s5) }"

definition load_config_file :: "conf_env \<Rightarrow> nat \<Rightarrow> string option \<Rightarrow> conf_state \<Rightarrow> (bool \<times> conf_state) option" where
  "load_config_file E config_base filename s =
     (case find_handler E config_base of
        None \<Rightarrow> Some (False, s)
      | Some h \<Rightarrow> do {
          s1 \<leftarrow> config_restore E (h_table h) (case filename of Some f \<Rightarrow> f | None \<Rightarrow> h_file h) (h_info h) s;
          s2 \<leftarrow> (if filename = None then config_update_last_saved E (h_table h) s1 else Some s1);
          Some (True, s2) })"

section \<open>Setting an option\<close>

definition setValue ::
  "conf_env \<Rightarrow> conf_info_t list \<Rightarrow> nat \<Rightarrow> config_val \<Rightarrow> conf_info_kind \<Rightarrow> conf_state \<Rightarrow> (int \<times> conf_state) option" where
  "setValue E ci i c k s =
     (if i = 999 then Some (CONF_EMPTY, s)
      else do {
        (ret, s1) \<leftarrow>
          (case findConfInfo ci i of
             None \<Rightarrow> Some (CONF_EMPTY, s)
           | Some e \<Rightarrow> set_value_of e c s);
        (if ret \<noteq> CONF_EMPTY
         then do {
           let s2 = info_func E k i s1;
           s3 \<leftarrow> (if config_autosave s2 then conf_save E s2 else Some s2);
           Some (ret, s3) }
         else Some (ret, s1)) })"

definition conf_setValue :: "conf_env \<Rightarrow> nat \<Rightarrow> config_val \<Rightarrow> conf_state \<Rightarrow> (int \<times> conf_state) option" where
  "conf_setValue E i0 c s = do {
     i \<leftarrow> new_id i0;
     (case find_handler E i of
        Some h \<Rightarrow> setValue E (h_table h) (i - h_start h) c (h_info h) s
      | None \<Rightarrow> Some (CONF_EMPTY, s)) }"

definition conf_setAutosave :: "int \<Rightarrow> conf_state \<Rightarrow> conf_state" where
  "conf_setAutosave n s = s\<lparr>config_autosave := (n \<noteq> 0)\<rparr>"

end
