(* ===== verification/ConfLoad.thy ===== *)
theory ConfLoad
  imports ConfSave
begin

text \<open>
  Reading a configuration file: a file is a sequence of records (\<open>conf_records\<close>), of which what is cut off at the end is
  dropped, and reading it into a table of options of fixed sizes sets, for each record in turn, the option of that
  identifier and size, if the table has it (\<open>apply_record\<close>). So a file never fails to be read, nothing but the table's
  options change, and what \<open>config_save\<close> wrote is read back.
\<close>

section \<open>The effects of a change on the options\<close>

lemma set_opt_simps [simp]:
  "conf_files (set_opt v x s) = conf_files s" "user_menu_vars (set_opt v x s) = user_menu_vars s"
  "last_saved (set_opt v x s) = last_saved s" "config_autosave (set_opt v x s) = config_autosave s"
  "user_menu_has_changed (set_opt v x s) = user_menu_has_changed s"
  "conf_mem (set_opt v x s) = (conf_mem s)(v := le_bytes 4 (uint x) @ drop 4 (conf_mem s v))"
  by (simp_all add: set_opt_def)

lemma conf_call_simps [simp]:
  "conf_files (conf_call c s) = conf_files s" "user_menu_vars (conf_call c s) = user_menu_vars s"
  "last_saved (conf_call c s) = last_saved s" "config_autosave (conf_call c s) = config_autosave s"
  "user_menu_has_changed (conf_call c s) = user_menu_has_changed s" "conf_mem (conf_call c s) = conf_mem s"
  by (simp_all add: conf_call_def)

lemma conf_change_dng_same [simp]:
  "conf_files (conf_change_dng E s) = conf_files s" "user_menu_vars (conf_change_dng E s) = user_menu_vars s"
  "last_saved (conf_change_dng E s) = last_saved s" "config_autosave (conf_change_dng E s) = config_autosave s"
  "user_menu_has_changed (conf_change_dng E s) = user_menu_has_changed s"
  by (simp_all add: conf_change_dng_def Let_def)

text \<open>These functions change nothing of the state but the options, the log and what is loaded.\<close>

definition same_conf :: "conf_state \<Rightarrow> conf_state \<Rightarrow> bool" where
  "same_conf s s' \<longleftrightarrow> conf_files s' = conf_files s \<and> user_menu_vars s' = user_menu_vars s \<and>
     last_saved s' = last_saved s \<and> config_autosave s' = config_autosave s \<and>
     user_menu_has_changed s' = user_menu_has_changed s"

lemma same_conf_steps:
  "same_conf s s" "same_conf s (conf_change_dng E s)" "same_conf s (set_opt v x s)" "same_conf s (conf_call c s)"
  "same_conf s (set_opt v x (conf_call c s))" "same_conf s (conf_call c (conf_call d s))"
  by (simp_all add: same_conf_def)

lemma info_func_same: "same_conf s (info_func E k i s)"
proof (cases k)
  case InfoCore
  show ?thesis
    unfolding InfoCore info_func_def conf_info_func_def cb_change_dng_usb_ext_def conf_info_kind.case
    by (intro if_split [where P = "same_conf s", THEN iffD2] conjI impI same_conf_steps)
next
  case InfoOsd
  show ?thesis
    unfolding InfoOsd info_func_def osd_conf_info_func_def Let_def conf_info_kind.case
    by (intro if_split [where P = "same_conf s", THEN iffD2] conjI impI same_conf_steps)
qed (simp_all add: info_func_def user_menu_conf_info_func_def same_conf_steps)

lemma info_func_simps [simp]:
  "conf_files (info_func E k i s) = conf_files s" "user_menu_vars (info_func E k i s) = user_menu_vars s"
  "last_saved (info_func E k i s) = last_saved s" "config_autosave (info_func E k i s) = config_autosave s"
  "user_menu_has_changed (info_func E k i s) = user_menu_has_changed s"
  using info_func_same [of s E k i] by (simp_all add: same_conf_def)

text \<open>The options that they set, and when: with the lists and symbols that are asked for there, and a configurable
  button, no option is taken back.\<close>

definition info_sets :: "conf_info_kind \<Rightarrow> nat set" where
  "info_sets k = (case k of InfoCore \<Rightarrow> {DNG_VERSION, ALT_MODE_BUTTON} | InfoOsd \<Rightarrow> {MENU_SYMBOL_ENABLE} | _ \<Rightarrow> {})"

definition quiet_env :: "conf_env \<Rightarrow> bool" where
  "quiet_env E \<longleftrightarrow> ce_badpixel_loads E \<and> ce_symbols_load E \<and> ce_adjustable_alt_button E \<noteq> None"

definition taken_back :: "conf_env \<Rightarrow> conf_info_kind \<Rightarrow> conf_state \<Rightarrow> conf_state \<Rightarrow> bool" where
  "taken_back E k s s' \<longleftrightarrow> conf_mem s' = conf_mem s \<or>
     \<not> quiet_env E \<and> (\<exists>v \<in> info_sets k. \<exists>x. conf_mem s' = conf_mem (set_opt v x s))"

lemma taken_back_set:
  "\<not> quiet_env E \<Longrightarrow> v \<in> info_sets k \<Longrightarrow> conf_mem s1 = conf_mem s \<Longrightarrow> taken_back E k s (set_opt v x s1)"
  by (simp add: taken_back_def) blast

lemma taken_back_dng: "taken_back E InfoCore s (conf_change_dng E s)"
proof (cases "ce_badpixel_loads E")
  case True
  then show ?thesis by (simp add: conf_change_dng_def taken_back_def Let_def)
next
  case False
  have "taken_back E InfoCore s (set_opt DNG_VERSION 0 (s\<lparr>badpixel_list_loaded := False\<rparr>))"
    by (rule taken_back_set) (use False in \<open>simp_all add: quiet_env_def info_sets_def\<close>)
  then show ?thesis using False by (simp add: conf_change_dng_def Let_def taken_back_def)
qed

lemma taken_back_none: "taken_back E k s s" "taken_back E k s (conf_call c s)" "taken_back E k s (conf_call c (conf_call d s))"
  by (simp_all add: taken_back_def)

lemmas taken_back_steps = taken_back_none taken_back_dng
  taken_back_set [where v = MENU_SYMBOL_ENABLE and k = InfoOsd] taken_back_set [where v = ALT_MODE_BUTTON and k = InfoCore]

lemma info_func_taken_back: "taken_back E k s (info_func E k i s)"
proof (cases k)
  case InfoCore
  show ?thesis
    unfolding InfoCore info_func_def conf_info_func_def cb_change_dng_usb_ext_def conf_info_kind.case
    by (intro if_split [where P = "taken_back E InfoCore s", THEN iffD2] conjI impI taken_back_steps)
      (simp_all add: quiet_env_def info_sets_def)
next
  case InfoOsd
  show ?thesis
    unfolding InfoOsd info_func_def osd_conf_info_func_def Let_def conf_info_kind.case
    by (intro if_split [where P = "taken_back E InfoOsd s", THEN iffD2] conjI impI taken_back_steps)
      (simp_all add: quiet_env_def info_sets_def)
qed (simp_all add: info_func_def user_menu_conf_info_func_def taken_back_steps)

lemma info_func_frame: "v \<notin> info_sets k \<Longrightarrow> conf_mem (info_func E k i s) v = conf_mem s v"
  using info_func_taken_back [of E k s i] by (auto simp: taken_back_def)

lemma info_func_length:
  "4 \<le> length (conf_mem s v) \<Longrightarrow> length (conf_mem (info_func E k i s) v) = length (conf_mem s v)"
  using info_func_taken_back [of E k s i] by (auto simp: taken_back_def)

lemma info_func_quiet: "quiet_env E \<Longrightarrow> conf_mem (info_func E k i s) = conf_mem s"
  using info_func_taken_back [of E k s i] by (simp add: taken_back_def)

section \<open>Files as records\<close>

function conf_records :: "u8 list \<Rightarrow> (nat \<times> u8 list) list" where
  "conf_records bs =
     (let n = u16_at 2 bs in
      if length bs < 4 + n then []
      else (u16_at 0 bs, take n (drop 4 bs)) # conf_records (drop (4 + n) bs))"
  by pat_completeness auto
termination
  by (relation "measure length") auto

declare conf_records.simps [simp del]

definition record_bytes :: "nat \<times> u8 list \<Rightarrow> u8 list" where
  "record_bytes r = (le_bytes 2 (int (fst r)) @ le_bytes 2 (int (length (snd r)))) @ snd r"

definition record_ok :: "nat \<times> u8 list \<Rightarrow> bool" where
  "record_ok r \<longleftrightarrow> fst r < 65536 \<and> length (snd r) < 65536"

lemma u16_at_append:
  assumes "length p = i" "n < 65536"
  shows "u16_at i (p @ le_bytes 2 (int n) @ r) = n"
  using assms by (simp add: u16_at_def le_value_le_bytes)

lemma u16_at_drop: "u16_at i (drop j bs) = u16_at (j + i) bs"
  by (simp add: u16_at_def add.commute)

lemma u16_at_take: "i + 2 \<le> length bs \<Longrightarrow> u16_at i (bs @ r) = u16_at i bs"
  by (simp add: u16_at_def)

text \<open>The records of a file are those that were written to it.\<close>

lemma conf_records_bytes:
  assumes "list_all record_ok rs" "length tail < 4"
  shows "conf_records (concat (map record_bytes rs) @ tail) = rs"
  using assms(1)
proof (induction rs)
  case Nil
  then show ?case using assms(2) by (subst conf_records.simps) (simp add: Let_def)
next
  case (Cons r rs)
  let ?rest = "concat (map record_bytes rs) @ tail"
  obtain i v where r: "r = (i, v)" by (cases r)
  have b: "concat (map record_bytes (r # rs)) @ tail =
      le_bytes 2 (int i) @ le_bytes 2 (int (length v)) @ v @ ?rest"
    by (simp add: r record_bytes_def)
  have "u16_at 0 (le_bytes 2 (int i) @ le_bytes 2 (int (length v)) @ v @ ?rest) = i"
    "u16_at 2 (le_bytes 2 (int i) @ le_bytes 2 (int (length v)) @ v @ ?rest) = length v"
    using Cons.prems r u16_at_append [of "[]" 0 i] u16_at_append [of "le_bytes 2 (int i)" 2 "length v"]
    by (simp_all add: record_ok_def)
  then show ?case using Cons r unfolding b
    by (subst conf_records.simps) (simp add: Let_def)
qed

definition apply_record ::
  "conf_env \<Rightarrow> conf_info_t list \<Rightarrow> conf_info_kind \<Rightarrow> nat \<times> u8 list \<Rightarrow> conf_state \<Rightarrow> conf_state" where
  "apply_record E t k r s =
     (case find (\<lambda>e. ci_id e = fst r \<and> ci_size e = length (snd r)) t of
        None \<Rightarrow> s
      | Some e \<Rightarrow> info_func E k (ci_id e) (s\<lparr>conf_mem := (conf_mem s)(ci_var e := snd r)\<rparr>))"

definition plain :: "conf_info_t list \<Rightarrow> bool" where
  "plain t \<longleftrightarrow> (\<forall>e \<in> set t. \<not> is_struct e \<and> 4 \<le> ci_size e)"

lemma increasing_less: "increasing (x # xs) \<Longrightarrow> y \<in> set xs \<Longrightarrow> x < y"
proof (induction xs arbitrary: x)
  case (Cons z zs)
  then show ?case by (cases "y = z") force+
qed simp

lemma increasing_distinct: "increasing xs \<Longrightarrow> distinct xs"
proof (induction xs)
  case (Cons x xs)
  then have "increasing xs" by (cases xs) simp_all
  then show ?case using Cons increasing_less [of x xs x] by auto
qed simp

lemma conf_table_distinct: "conf_table_ok b t \<Longrightarrow> distinct (map ci_id t)"
  by (simp add: conf_table_ok_def increasing_distinct)

text \<open>An option of a table has one entry.\<close>

lemma conf_entry_eq:
  assumes "conf_table_ok b t" "e \<in> set t" "e' \<in> set t" "ci_var e = ci_var e' \<or> ci_id e = ci_id e'"
  shows "e = e'"
proof -
  have "ci_id e = ci_id e'"
    using assms(4) conf_table_okD [OF assms(1,2)] conf_table_okD [OF assms(1,3)] by (auto simp: entry_ok_def)
  then show ?thesis using conf_table_distinct [OF assms(1)] assms(2,3)
    by (auto simp: distinct_map dest: inj_onD)
qed

lemma find_SomeD: "find P xs = Some x \<Longrightarrow> x \<in> set xs \<and> P x"
  by (auto simp: find_Some_iff)

text \<open>Only options of the table change.\<close>

definition only_table :: "conf_info_t list \<Rightarrow> conf_state \<Rightarrow> conf_state \<Rightarrow> bool" where
  "only_table t s s' \<longleftrightarrow> same_conf s s' \<and> (\<forall>v. v \<notin> ci_var ` set t \<longrightarrow> conf_mem s' v = conf_mem s v)"

lemma only_table_trans: "only_table t s s1 \<Longrightarrow> only_table t s1 s2 \<Longrightarrow> only_table t s s2"
  by (auto simp: only_table_def same_conf_def)

text \<open>
  The interface of a table's \<open>info_func\<close>, the function that is called after an option changed: it may set options of its own,
  within their sizes, and nothing else of the state.
\<close>

locale change_hook =
  fixes hook :: "nat \<Rightarrow> conf_state \<Rightarrow> conf_state" and own :: "nat set"
  assumes hook_state: "same_conf s (hook i s)"
    and hook_frame: "v \<notin> own \<Longrightarrow> conf_mem (hook i s) v = conf_mem s v"
    and hook_length: "4 \<le> length (conf_mem s v) \<Longrightarrow> length (conf_mem (hook i s) v) = length (conf_mem s v)"
begin

lemma keeps_opts: "opts_ok t s \<Longrightarrow> plain t \<Longrightarrow> opts_ok t (hook i s)"
  using hook_length [of s] by (auto simp: opts_ok_def plain_def)

text \<open>Setting an option of a table that has the hook's own options.\<close>

lemma set_only:
  assumes "own \<subseteq> ci_var ` set t" "v \<in> ci_var ` set t"
  shows "only_table t s (hook i (s\<lparr>conf_mem := (conf_mem s)(v := m)\<rparr>))"
proof -
  let ?s = "s\<lparr>conf_mem := (conf_mem s)(v := m)\<rparr>"
  have "conf_mem (hook i ?s) w = conf_mem s w" if "w \<notin> ci_var ` set t" for w
  proof -
    have "w \<notin> own" "w \<noteq> v" using that assms by blast+
    then show ?thesis by (simp add: hook_frame)
  qed
  then show ?thesis using hook_state [of ?s i] by (simp add: only_table_def same_conf_def)
qed

end

interpretation info_hook: change_hook "info_func E k" "info_sets k" for E k
  by unfold_locales (simp_all add: info_func_same info_func_frame info_func_length)

lemma apply_record_ok:
  assumes "plain t" "opts_ok t s" "conf_table_ok b t"
  shows "opts_ok t (apply_record E t k r s)"
proof (cases "find (\<lambda>e. ci_id e = fst r \<and> ci_size e = length (snd r)) t")
  case None
  then show ?thesis using assms(2) by (simp add: apply_record_def)
next
  case (Some e)
  then have e: "e \<in> set t" "ci_id e = fst r" "ci_size e = length (snd r)" using find_SomeD [OF Some] by simp_all
  have "\<And>e'. e' \<in> set t \<Longrightarrow> ci_var e' = ci_var e \<Longrightarrow> ci_size e' = ci_size e"
    using conf_entry_eq [OF assms(3) _ e(1)] by blast
  then have "opts_ok t (s\<lparr>conf_mem := (conf_mem s)(ci_var e := snd r)\<rparr>)"
    using assms(2) e by (auto simp: opts_ok_def)
  then show ?thesis using Some info_hook.keeps_opts [OF _ assms(1)] by (simp add: apply_record_def)
qed

text \<open>One step of the loop.\<close>

lemma restore_entry_plain:
  assumes "plain t" "opts_ok t s" "offs + n \<le> length buf"
  shows "restore_entry E t k i n offs buf s = Some (n, apply_record E t k (i, take n (drop offs buf)) s)"
proof (cases "find (\<lambda>e. ci_id e = i \<and> ci_size e = n) t")
  case None
  then show ?thesis using assms(3) by (simp add: restore_entry_def apply_record_def)
next
  case (Some e)
  then have e: "e \<in> set t" "ci_size e = n" using find_SomeD [OF Some] by simp_all
  then have "put_bytes 0 (take n (drop offs buf)) (conf_mem s (ci_var e)) = Some (take n (drop offs buf))"
    using assms by (simp add: put_bytes_def opts_ok_def plain_def)
  then show ?thesis using Some assms e
    by (simp add: restore_entry_def apply_record_def bytes_at_def conf_write_def plain_def is_struct_def)
qed

lemma restore_entry_cut:
  "length buf < offs + n \<Longrightarrow> restore_entry E t k i n offs buf s = Some (n, s)"
  by (simp add: restore_entry_def split: option.split)

lemma restore_loop_records:
  assumes "plain t" "opts_ok t s" "conf_table_ok b t"
  shows "restore_loop E t k buf offs s = Some (fold (apply_record E t k) (conf_records (drop offs buf)) s)"
  using assms(2)
proof (induction "length buf - offs" arbitrary: offs s rule: less_induct)
  case less
  let ?i = "u16_at offs buf" and ?n = "u16_at (offs + 2) buf"
  have n: "u16_at 2 (drop offs buf) = ?n" "u16_at 0 (drop offs buf) = ?i" by (simp_all add: u16_at_drop)
  consider "length buf < offs + 4" | "offs + 4 \<le> length buf" "length buf < offs + 4 + ?n"
    | "offs + 4 + ?n \<le> length buf" by linarith
  then show ?case
  proof cases
    case 1
    then show ?thesis by (subst restore_loop.simps, subst conf_records.simps) (simp add: Let_def)
  next
    case 2
    have r: "conf_records (drop offs buf) = []" using 2 by (subst conf_records.simps) (simp add: Let_def n)
    have e: "restore_entry E t k ?i ?n (offs + 4) buf s = Some (?n, s)" using 2 by (simp add: restore_entry_cut)
    have "restore_loop E t k buf (offs + 4 + ?n) s = Some s"
      using 2 by (subst restore_loop.simps) simp
    then show ?thesis using 2 r e by (subst restore_loop.simps) simp
  next
    case 3
    let ?s = "apply_record E t k (?i, take ?n (drop (offs + 4) buf)) s"
    have r: "conf_records (drop offs buf) =
        (?i, take ?n (drop (offs + 4) buf)) # conf_records (drop (offs + 4 + ?n) buf)"
      using 3 by (subst conf_records.simps) (simp add: Let_def n add.commute add.left_commute)
    have e: "restore_entry E t k ?i ?n (offs + 4) buf s = Some (?n, ?s)"
      using 3 by (simp add: restore_entry_plain [OF assms(1) less.prems])
    have "restore_loop E t k buf (offs + 4 + ?n) ?s =
        Some (fold (apply_record E t k) (conf_records (drop (offs + 4 + ?n) buf)) ?s)"
      using 3 by (intro less.hyps) (simp_all add: apply_record_ok [OF assms(1) less.prems assms(3)])
    then show ?thesis using 3 r e by (subst restore_loop.simps) simp
  qed
qed


section \<open>The tables without the user menu\<close>

lemma tables_plain: "plain core_conf_info" "plain osd_conf_info" "plain gps_conf_info"
proof -
  have p: "plain t \<longleftrightarrow> list_all (\<lambda>e. ci_type e \<noteq> CONF_STRUCT_PTR \<and> 4 \<le> ci_size e) t" for t
    by (simp add: plain_def list_all_iff is_struct_def)
  show "plain core_conf_info"
    unfolding p by (simp add: core_conf_info_def CONF_INFO_def conf_sizeof_def CONF_STR_LEN_def)
  show "plain osd_conf_info"
    unfolding p by (simp add: osd_conf_info_def CONF_INFO_def conf_sizeof_def CONF_STR_LEN_def)
  show "plain gps_conf_info"
    unfolding p by (simp add: gps_conf_info_def CONF_INFO_def conf_sizeof_def CONF_STR_LEN_def)
qed

lemma list_ex_var: "list_ex (\<lambda>e. ci_var e = v) t \<longleftrightarrow> v \<in> ci_var ` set t"
  by (induction t) auto

lemma info_sets_in_table:
  assumes "h \<in> set (confinfo_handlers g)"
  shows "info_sets (h_info h) \<subseteq> ci_var ` set (h_table h)"
proof -
  have "DNG_VERSION \<in> ci_var ` set core_conf_info" "ALT_MODE_BUTTON \<in> ci_var ` set core_conf_info"
    unfolding list_ex_var [symmetric]
    by (simp_all add: core_conf_info_def CONF_INFO_def CONF_CORE_def DNG_VERSION_def ALT_MODE_BUTTON_def)
  moreover have "MENU_SYMBOL_ENABLE \<in> ci_var ` set osd_conf_info"
    unfolding list_ex_var [symmetric]
    by (simp add: osd_conf_info_def CONF_INFO_def CONF_OSD_def MENU_SYMBOL_ENABLE_def)
  ultimately have "info_sets InfoCore \<subseteq> ci_var ` set core_conf_info" "info_sets InfoOsd \<subseteq> ci_var ` set osd_conf_info"
    by (simp_all add: info_sets_def)
  then show ?thesis using assms
    by (auto simp: confinfo_handlers_def info_sets_def split: if_splits)
qed

lemma handler_plain:
  "h \<in> set (confinfo_handlers g) \<Longrightarrow> h_start h \<noteq> CONF_USER \<Longrightarrow> plain (h_table h)"
  by (auto simp: confinfo_handlers_def tables_plain split: if_splits)

lemma apply_record_only:
  assumes "info_sets k \<subseteq> ci_var ` set t"
  shows "only_table t s (apply_record E t k r s)"
proof (cases "find (\<lambda>e. ci_id e = fst r \<and> ci_size e = length (snd r)) t")
  case None
  then show ?thesis by (simp add: apply_record_def only_table_def same_conf_def)
next
  case (Some e)
  then have "ci_var e \<in> ci_var ` set t" using find_SomeD [OF Some] by simp
  then show ?thesis using Some info_hook.set_only [OF assms] by (simp add: apply_record_def)
qed

lemma apply_records_only:
  assumes "info_sets k \<subseteq> ci_var ` set t"
  shows "only_table t s (fold (apply_record E t k) rs s)"
proof (induction rs arbitrary: s)
  case Nil
  then show ?case by (simp add: only_table_def same_conf_def)
next
  case (Cons r rs)
  show ?case
    using only_table_trans [OF apply_record_only [OF assms] Cons] by simp
qed

lemma apply_records_ok:
  assumes "plain t" "conf_table_ok b t" "opts_ok t s"
  shows "opts_ok t (fold (apply_record E t k) rs s)"
  using assms(3) by (induction rs arbitrary: s) (simp_all add: apply_record_ok [OF assms(1) _ assms(2)])

definition file_records :: "u8 list \<Rightarrow> (nat \<times> u8 list) list" where
  "file_records buf = (if le_value (take 4 buf) = CONF_MAGICK_VALUE then conf_records (drop 8 buf) else [])"

lemma config_restore_records:
  assumes "plain t" "conf_table_ok b t" "opts_ok t s" "load_file f s = Some buf" "4 \<le> length buf"
  shows "config_restore E t f k s = Some (fold (apply_record E t k) (file_records buf) s)"
  using assms
  by (simp add: config_restore_def file_records_def bytes_at_def restore_loop_records [OF assms(1,3,2)])


section \<open>Reading back what was written\<close>

lemma conf_image_length:
  assumes "entry_ok b e" "length m = ci_size e" "ci_type e = CONF_CHAR_PTR \<longrightarrow> 0 \<in> set m"
  shows "length (conf_image e m) = ci_size e"
proof (cases "ci_type e = CONF_CHAR_PTR")
  case True
  then have "length (takeWhile (\<lambda>b. b \<noteq> 0) m) < CONF_STR_LEN"
    using assms takeWhile_lt [of 0 m "\<lambda>b. b \<noteq> 0"] entry_sizes(1) [OF assms(1)] by simp
  then show ?thesis using True entry_sizes(1) [OF assms(1)] by (simp add: conf_image_def)
qed (use assms in \<open>simp add: conf_image_def\<close>)

lemma find_entry:
  assumes "conf_table_ok b t" "e \<in> set t"
  shows "find (\<lambda>e'. ci_id e' = ci_id e \<and> ci_size e' = ci_size e) t = Some e"
proof (cases "find (\<lambda>e'. ci_id e' = ci_id e \<and> ci_size e' = ci_size e) t")
  case None
  then show ?thesis using assms(2) by (auto simp: find_None_iff)
next
  case (Some e')
  then show ?thesis using find_SomeD [OF Some] conf_entry_eq [OF assms(1) _ assms(2), of e'] by simp
qed

text \<open>The records of a table's options: each option has its value afterwards.\<close>

lemma apply_own_records:
  assumes "conf_table_ok b t" "quiet_env E" "set es \<subseteq> set t" "\<forall>e \<in> set es. length (val e) = ci_size e"
  shows "conf_mem (fold (apply_record E t k) (map (\<lambda>e. (ci_id e, val e)) es) s) v =
     (case find (\<lambda>e. ci_var e = v) es of Some e \<Rightarrow> val e | None \<Rightarrow> conf_mem s v)"
  using assms(3,4)
proof (induction es arbitrary: s)
  case (Cons e es)
  let ?s = "apply_record E t k (ci_id e, val e) s"
  have e: "e \<in> set t" "length (val e) = ci_size e" using Cons.prems by simp_all
  then have m: "conf_mem ?s = (conf_mem s)(ci_var e := val e)"
    using find_entry [OF assms(1) e(1)] by (simp add: apply_record_def info_func_quiet [OF assms(2)])
  show ?case
  proof (cases "find (\<lambda>e. ci_var e = v) es")
    case None
    then show ?thesis using Cons m by (simp add: fun_upd_def)
  next
    case (Some e')
    then have "e' \<in> set t" "ci_var e' = v" using find_SomeD [OF Some] Cons.prems by auto
    then have f: "find (\<lambda>e. ci_var e = v) (e # es) = Some e'"
      using conf_entry_eq [OF assms(1) e(1), of e'] Some by (cases "ci_var e = v") simp_all
    have "conf_mem (fold (apply_record E t k) (map (\<lambda>e. (ci_id e, val e)) es) ?s) v = val e'"
      using Cons.IH [of ?s] Cons.prems Some by simp
    then show ?thesis unfolding f by simp
  qed
qed simp

definition saved_record :: "conf_state \<Rightarrow> conf_info_t \<Rightarrow> nat \<times> u8 list" where
  "saved_record s e = (ci_id e, conf_image e (conf_mem s (ci_var e)))"

lemma savable_length:
  assumes "conf_table_ok b t" "plain t" "savable t s" "e \<in> set t"
  shows "length (conf_image e (conf_mem s (ci_var e))) = ci_size e"
  using conf_image_length [OF conf_table_okD [OF assms(1,4)]] assms(2-4)
  by (simp add: savable_def opts_ok_def strings_ok_def plain_def)

lemma file_of_records:
  assumes "conf_table_ok b t" "plain t" "savable t s"
  shows "file_records (file_of t c s) = map (saved_record s) t"
proof -
  have l: "\<forall>e \<in> set t. length (conf_image e (conf_mem s (ci_var e))) = ci_size e"
    using savable_length [OF assms] by blast
  then have "concat (map (entry_bytes s) t) = concat (map record_bytes (map (saved_record s) t))"
    using assms(2) by (intro arg_cong [where f = concat]) (simp add: entry_bytes_def record_bytes_def saved_record_def entry_image_def plain_def)
  moreover have "list_all record_ok (map (saved_record s) t)"
    using l entry_sizes(2,3) [OF conf_table_okD [OF assms(1)]]
    by (simp add: list_all_iff record_ok_def saved_record_def)
  moreover have "le_value (le_bytes 4 CONF_MAGICK_VALUE) = CONF_MAGICK_VALUE"
    by (simp add: le_value_le_bytes CONF_MAGICK_VALUE_def)
  ultimately show ?thesis
    using conf_records_bytes [of "map (saved_record s) t" "[]"] by (simp add: file_records_def file_of_def)
qed

text \<open>Reading the file of a table.\<close>

lemma table_restored:
  assumes "h \<in> set (confinfo_handlers g)" "h_start h \<noteq> CONF_USER" "savable (h_table h) s"
    and "conf_files s2 f = Some (file_of (h_table h) c s)" "opts_ok (h_table h) s2" "quiet_env E"
  shows "\<exists>s3. config_restore E (h_table h) f (h_info h) s2 = Some s3 \<and> only_table (h_table h) s2 s3 \<and>
     (\<forall>e \<in> set (h_table h). conf_mem s3 (ci_var e) = conf_image e (conf_mem s (ci_var e)))"
proof -
  let ?t = "h_table h" and ?k = "h_info h"
  let ?s3 = "fold (apply_record E ?t ?k) (map (saved_record s) ?t) s2"
  have t: "conf_table_ok (h_start h) ?t" "plain ?t" using handler_table_ok handler_plain assms(1,2) by blast+
  have "8 \<le> length (file_of ?t c s)" by (simp add: file_of_def)
  then have "load_file f s2 = Some (file_of ?t c s)" "4 \<le> length (file_of ?t c s)"
    using assms(4) by (auto simp: load_file_def)
  then have r: "config_restore E ?t f ?k s2 = Some ?s3" "only_table ?t s2 ?s3"
    using config_restore_records [OF t(2,1) assms(5)] apply_records_only [OF info_sets_in_table [OF assms(1)]]
    by (simp_all add: file_of_records [OF t assms(3)])
  have "conf_mem ?s3 (ci_var e) = conf_image e (conf_mem s (ci_var e))" if e: "e \<in> set ?t" for e
  proof -
    have "find (\<lambda>e'. ci_var e' = ci_var e) ?t = Some e"
    proof (cases "find (\<lambda>e'. ci_var e' = ci_var e) ?t")
      case None
      then show ?thesis using e by (auto simp: find_None_iff)
    next
      case (Some e')
      then show ?thesis using find_SomeD [OF Some] conf_entry_eq [OF t(1) _ e, of e'] by simp
    qed
    then show ?thesis
      using apply_own_records [OF t(1) assms(6) subset_refl, of "\<lambda>e. conf_image e (conf_mem s (ci_var e))" ?k s2 "ci_var e"]
        savable_length [OF t assms(3)] by (simp add: saved_record_def [abs_def])
  qed
  then show ?thesis using r by blast
qed


end
