(* ===== verification/ConfMenu.thy ===== *)
theory ConfMenu
  imports ConfLoad
begin

text \<open>
  The file of the user menu, whose items are not of a fixed size: what is read back of the items that were written, and
  where the rest of the file is looked for. \<open>user_menu_load_data\<close> reports the size of the menu in memory, not of the one
  in the file; they differ when the file has fewer items than the menu.
\<close>

section \<open>Strings and items\<close>

text \<open>An empty string leaves what the item has.\<close>

definition loaded_str :: "u8 list option \<Rightarrow> u8 list option \<Rightarrow> u8 list option" where
  "loaded_str old x = (if opt_str x = [] then old else Some (opt_str x))"

definition loaded_item :: "user_menu_item \<Rightarrow> user_menu_item \<Rightarrow> user_menu_item" where
  "loaded_item old it = \<lparr>um_var = um_var it, um_script_file = loaded_str (um_script_file old) (um_script_file it),
     um_script_title = loaded_str (um_script_title old) (um_script_title it)\<rparr>"

lemma um_str_ok_nonzero: "um_str_ok x \<Longrightarrow> 0 \<notin> set (opt_str x)"
  by (cases x) (simp_all add: um_str_ok_def opt_str_def)

lemma takeWhile_padded:
  assumes "0 \<notin> set str" "length str < CONF_STR_LEN"
  shows "takeWhile (\<lambda>b. b \<noteq> 0) (padded str @ r) = str"
proof -
  obtain k where "CONF_STR_LEN - length str = Suc k" using assms(2) by (metis Suc_diff_Suc)
  then show ?thesis using assms(1)
    by (auto simp: padded_def takeWhile_append)
qed

lemma load_str_padded:
  assumes "um_str_ok x"
  shows "load_str (length p) (p @ padded (opt_str x) @ r) old = Some (loaded_str old x)"
proof (cases "opt_str x")
  case Nil
  then show ?thesis
    by (simp add: load_str_def loaded_str_def bytes_at_def padded_def CONF_STR_LEN_def numeral_eq_Suc)
next
  case (Cons b bs)
  have z: "0 \<notin> set (opt_str x)" "length (opt_str x) < CONF_STR_LEN"
    using assms by (simp_all add: um_str_ok_nonzero um_str_ok_length)
  have "cstr_at (length p) (p @ padded (opt_str x) @ r) = Some (opt_str x)"
    using takeWhile_padded [OF z] z(2) by (simp add: cstr_at_def padded_def)
  moreover have "bytes_at (length p) 1 (p @ padded (opt_str x) @ r) = Some [b]" "b \<noteq> 0"
    using Cons z(1) by (auto simp: bytes_at_def padded_def)
  ultimately show ?thesis using z(2) Cons by (simp add: load_str_def loaded_str_def)
qed

lemma le_value_u32: "word_of_int (le_value (le_bytes 4 (uint (x :: u32)))) = x"
proof -
  have "uint x mod 256 ^ 4 = uint x" using uint_bounded [of x] by simp
  then show ?thesis by (simp add: le_value_le_bytes)
qed

lemma load_item_image:
  assumes "um_str_ok (um_script_file it)" "um_str_ok (um_script_title it)"
  shows "load_item (length p) (p @ item_image it @ r) old = Some (loaded_item old it)"
proof -
  let ?v = "le_bytes 4 (uint (um_var it))" and ?f = "padded (opt_str (um_script_file it))"
  let ?t = "padded (opt_str (um_script_title it))"
  have b: "p @ item_image it @ r = p @ ?v @ ?f @ ?t @ r" by (simp add: item_image_def)
  have "bytes_at (length p) 4 (p @ ?v @ ?f @ ?t @ r) = Some ?v"
    using bytes_at_append [of p ?v "?f @ ?t @ r"] by simp
  moreover have "load_str (length p + 4) (p @ ?v @ ?f @ ?t @ r) (um_script_file old) =
      Some (loaded_str (um_script_file old) (um_script_file it))"
    using load_str_padded [OF assms(1), of "p @ ?v"] by simp
  moreover have "load_str (length p + 4 + CONF_STR_LEN) (p @ ?v @ ?f @ ?t @ r) (um_script_title old) =
      Some (loaded_str (um_script_title old) (um_script_title it))"
    using load_str_padded [OF assms(2), of "p @ ?v @ ?f"] um_str_ok_length [OF assms(1)] by (simp add: add.assoc)
  ultimately show ?thesis
    unfolding b by (simp add: load_item_def loaded_item_def le_value_u32)
qed

lemma load_items_images:
  assumes "\<forall>it \<in> set its. um_str_ok (um_script_file it) \<and> um_str_ok (um_script_title it)"
    and "length its \<le> length olds"
  shows "load_items (length its) (length p) (p @ concat (map item_image its) @ r) olds =
     Some (map2 loaded_item olds its @ drop (length its) olds)"
  using assms
proof (induction its arbitrary: p olds)
  case (Cons it its)
  obtain old olds' where o: "olds = old # olds'" using Cons.prems(2) by (cases olds) simp_all
  have u: "um_str_ok (um_script_file it)" "um_str_ok (um_script_title it)" using Cons.prems(1) by simp_all
  have "load_item (length p) (p @ item_image it @ concat (map item_image its) @ r) old = Some (loaded_item old it)"
    by (rule load_item_image [OF u])
  moreover have "load_items (length its) (length (p @ item_image it)) ((p @ item_image it) @ concat (map item_image its) @ r)
      olds' = Some (map2 loaded_item olds' its @ drop (length its) olds')"
    using Cons.prems o by (intro Cons.IH) simp_all
  ultimately show ?case using o by (simp add: length_item_image [OF u] add.assoc)
qed simp

text \<open>The menu read over \<open>u\<close> from the file of the menu \<open>u0\<close>.\<close>

definition loaded_menu :: "user_menu_config \<Rightarrow> user_menu_config \<Rightarrow> user_menu_config" where
  "loaded_menu u u0 =
     (let u1 = (if um_num_items u < um_num_items u0 then init_user_menu (um_num_items u0) u else u);
          olds = (case um_items u1 of Some its \<Rightarrow> its | None \<Rightarrow> []);
          its = (case um_items u0 of Some its \<Rightarrow> its | None \<Rightarrow> [])
      in u1\<lparr>um_items := Some (map2 loaded_item olds its @ drop (length its) olds)\<rparr>)"

lemma user_menu_load_image:
  assumes "menu_ok u" "menu_ok u0" "0 < um_num_items u0" "um_num_items u0 < 2 ^ 31"
  shows "user_menu_load_data (length p) (p @ menu_image u0 @ r) u =
     Some (user_menu_saved_size (loaded_menu u u0), loaded_menu u u0)"
proof -
  let ?n = "um_num_items u0"
  obtain its where i: "um_items u0 = Some its" "length its = ?n"
      "\<forall>it \<in> set its. um_str_ok (um_script_file it) \<and> um_str_ok (um_script_title it)"
    using assms(2,3) by (auto simp: menu_ok_def split: option.splits)
  let ?buf = "p @ menu_image u0 @ r" and ?u = "if um_num_items u < ?n then init_user_menu ?n u else u"
  have b: "?buf = p @ le_bytes 4 (int ?n) @ concat (map item_image its) @ r"
    by (simp add: menu_image_def i(1))
  have nb: "bytes_at (length p) 4 ?buf = Some (le_bytes 4 (int ?n))"
    using bytes_at_append [of p "le_bytes 4 (int ?n)" "concat (map item_image its) @ r"] by (simp add: b)
  have n: "sint (word_of_int (le_value (le_bytes 4 (int ?n))) :: u32) = int ?n"
  proof -
    have "le_value (le_bytes 4 (int ?n)) = int ?n" using assms(4) by (simp add: le_value_le_bytes)
    then show ?thesis using assms(4) by (simp add: signed_of_nat signed_take_bit_int_eq_self)
  qed
  have "\<exists>olds. um_items ?u = Some olds \<and> length its \<le> length olds"
    using assms(1,3) i(2)
    by (cases "um_num_items u < ?n") (auto simp: init_user_menu_def menu_ok_def split: option.splits)
  then obtain olds where o: "um_items ?u = Some olds" "length its \<le> length olds" by blast
  have "load_items ?n (length p + 4) ?buf olds = Some (map2 loaded_item olds its @ drop ?n olds)"
    using load_items_images [OF i(3) o(2), of "p @ le_bytes 4 (int ?n)" r] i(2) by (simp add: b)
  moreover have "loaded_menu u u0 = ?u\<lparr>um_items := Some (map2 loaded_item olds its @ drop ?n olds)\<rparr>"
    using o(1) i(1,2) by (simp add: loaded_menu_def Let_def split: if_splits)
  ultimately show ?thesis using nb n o(1) assms(3)
    by (cases "um_num_items u < ?n") (simp_all add: user_menu_load_data_def Let_def user_menu_saved_size_def)
qed

lemma loaded_menu_items: "um_num_items (loaded_menu u u0) = max (um_num_items u) (um_num_items u0)"
  by (simp add: loaded_menu_def Let_def init_user_menu_def)

section \<open>The file of the user menu\<close>

text \<open>One step of the loop over an entry of a fixed size, and the end.\<close>

lemma restore_loop_step:
  assumes "conf_table_ok b t" "e \<in> set t" "\<not> is_struct e" "length v = ci_size e"
    and "length (conf_mem s (ci_var e)) = ci_size e"
  shows "restore_loop E t k (p @ record_bytes (ci_id e, v) @ r) (length p) s =
     restore_loop E t k (p @ record_bytes (ci_id e, v) @ r) (length p + 4 + length v) (apply_record E t k (ci_id e, v) s)"
proof -
  let ?buf = "p @ record_bytes (ci_id e, v) @ r"
  have b: "?buf = p @ le_bytes 2 (int (ci_id e)) @ le_bytes 2 (int (length v)) @ v @ r"
    by (simp add: record_bytes_def)
  have z: "ci_id e < 65536" "length v < 65536" using entry_sizes(2,3) [OF conf_table_okD [OF assms(1,2)]] assms(4) by simp_all
  have u: "u16_at (length p) ?buf = ci_id e" "u16_at (length p + 2) ?buf = length v"
    using u16_at_append [OF refl z(1), of p] u16_at_append [OF _ z(2), of "p @ le_bytes 2 (int (ci_id e))"]
    by (simp_all add: b)
  have f: "find (\<lambda>e'. ci_id e' = ci_id e \<and> ci_size e' = length v) t = Some e"
    using find_entry [OF assms(1,2)] assms(4) by simp
  have "restore_entry E t k (ci_id e) (length v) (length p + 4) ?buf s =
      Some (length v, apply_record E t k (ci_id e, v) s)"
    using f assms(3-5) bytes_at_append [of "p @ le_bytes 2 (int (ci_id e)) @ le_bytes 2 (int (length v))" v r]
    by (simp add: b restore_entry_def apply_record_def is_struct_def conf_write_def put_bytes_whole)
  then show ?thesis using u by (subst restore_loop.simps) (simp add: record_bytes_def)
qed

lemma restore_loop_end: "length buf < offs + 4 \<Longrightarrow> restore_loop E t k buf offs s = Some s"
  by (subst restore_loop.simps) auto

definition user_entry :: "nat \<Rightarrow> conf_info_t" where
  "user_entry i = user_menu_conf_info ! (i - 1)"

lemma user_menu_entries:
  "user_menu_conf_info = [user_entry 1, user_entry 2, user_entry 3]"
  "ci_id (user_entry 1) = 1" "ci_id (user_entry 2) = 2" "ci_id (user_entry 3) = 3"
  "ci_size (user_entry 1) = 24" "ci_size (user_entry 2) = 4" "ci_size (user_entry 3) = 4"
  "ci_var (user_entry 2) = 3002" "ci_var (user_entry 3) = 3003" "ci_type (user_entry 1) = CONF_STRUCT_PTR"
  "ci_type (user_entry 2) = CONF_DEF_VALUE" "ci_type (user_entry 3) = CONF_DEF_VALUE"
  by (simp_all add: user_entry_def user_menu_conf_info_def CONF_INFO_def conf_sizeof_def CONF_USER_def numeral_eq_Suc)

lemmas user_menu_table = user_menu_entries [unfolded One_nat_def]

text \<open>The first record: the menu is read, and the offset moves by the size that the menu then has.\<close>

lemma restore_loop_menu:
  assumes "menu_ok (user_menu_vars s)" "menu_ok u0" "0 < um_num_items u0" "user_menu_saved_size (loaded_menu (user_menu_vars s) u0) < 65536"
    and "length p = 8"
  shows "restore_loop E user_menu_conf_info InfoUserMenu
       (p @ (le_bytes 2 1 @ le_bytes 2 24) @ menu_image u0 @ r) 8 s =
     restore_loop E user_menu_conf_info InfoUserMenu
       (p @ (le_bytes 2 1 @ le_bytes 2 24) @ menu_image u0 @ r)
       (12 + user_menu_saved_size (loaded_menu (user_menu_vars s) u0))
       (conf_call UserMenuRestore (s\<lparr>user_menu_vars := loaded_menu (user_menu_vars s) u0\<rparr>))"
proof -
  let ?h = "p @ le_bytes 2 1 @ le_bytes 2 24"
  let ?buf = "?h @ menu_image u0 @ r" and ?u = "loaded_menu (user_menu_vars s) u0"
  have n: "um_num_items u0 < 2 ^ 31" using assms(4)
    by (simp add: user_menu_saved_size_def loaded_menu_items CONF_STR_LEN_def)
  have u: "u16_at 8 ?buf = 1" "u16_at 10 ?buf = 24"
    using u16_at_append [of p 8 1] u16_at_append [of "p @ le_bytes 2 1" 10 24] assms(5) by simp_all
  have l: "24 \<le> length (menu_image u0)"
    using assms(3) by (simp add: length_menu_image [OF assms(2)] user_menu_saved_size_def CONF_STR_LEN_def)
  have f: "find (\<lambda>e. ci_id e = Suc 0 \<and> ci_size e = 24) user_menu_conf_info = Some (user_entry 1)"
    by (simp add: user_menu_table)
  have d: "user_menu_load_data 12 ?buf (user_menu_vars s) = Some (user_menu_saved_size ?u, ?u)"
    using user_menu_load_image [OF assms(1-3) n, of ?h r] assms(5) by simp
  have "restore_entry E user_menu_conf_info InfoUserMenu 1 24 12 ?buf s =
      Some (user_menu_saved_size ?u, conf_call UserMenuRestore (s\<lparr>user_menu_vars := ?u\<rparr>))"
    using l assms(4,5) d
    by (simp add: restore_entry_def f user_menu_table info_func_def user_menu_conf_info_func_def)
  then show ?thesis using u l assms(5) by (subst restore_loop.simps) simp
qed

lemma user_file:
  assumes "savable user_menu_conf_info s"
  shows "file_of user_menu_conf_info c s = (le_bytes 4 CONF_MAGICK_VALUE @ le_bytes 4 (int c)) @
     (le_bytes 2 1 @ le_bytes 2 24) @ menu_image (user_menu_vars s) @
     record_bytes (2, conf_mem s 3002) @ record_bytes (3, conf_mem s 3003)"
  using assms
  by (simp add: file_of_def user_menu_table(1) entry_bytes_def entry_image_def conf_image_def record_bytes_def
      savable_def opts_ok_def is_struct_def user_menu_table(2-))

lemma user_load:
  assumes "savable user_menu_conf_info s" "conf_files s2 f = Some (file_of user_menu_conf_info c s)"
  shows "config_restore E user_menu_conf_info f InfoUserMenu s2 =
     restore_loop E user_menu_conf_info InfoUserMenu (file_of user_menu_conf_info c s) 8 s2"
proof -
  let ?F = "file_of user_menu_conf_info c s"
  have "8 \<le> length ?F" by (simp add: file_of_def)
  then have "load_file f s2 = Some ?F" using assms(2) by (auto simp: load_file_def)
  moreover have "bytes_at 0 4 ?F = Some (le_bytes 4 CONF_MAGICK_VALUE)"
    using bytes_at_append [of "[]" "le_bytes 4 CONF_MAGICK_VALUE"] by (simp add: file_of_def)
  moreover have "le_value (le_bytes 4 CONF_MAGICK_VALUE) = CONF_MAGICK_VALUE"
    by (simp add: le_value_le_bytes CONF_MAGICK_VALUE_def)
  ultimately show ?thesis by (simp add: config_restore_def)
qed

lemma user_options_ok:
  "opts_ok user_menu_conf_info s \<longleftrightarrow> length (conf_mem s 3002) = 4 \<and> length (conf_mem s 3003) = 4"
  by (simp add: user_menu_table(1) opts_ok_def is_struct_def user_menu_table(2-))

text \<open>What is read of the file of a menu of at least as many items.\<close>

lemma user_menu_restored:
  assumes "savable user_menu_conf_info s" "savable user_menu_conf_info s2"
    and "conf_files s2 f = Some (file_of user_menu_conf_info c s)"
    and "0 < um_num_items (user_menu_vars s)" "um_num_items (user_menu_vars s) \<le> 321"
    and "um_num_items (user_menu_vars s2) \<le> um_num_items (user_menu_vars s)"
  shows "\<exists>s3. config_restore E user_menu_conf_info f InfoUserMenu s2 = Some s3 \<and>
     user_menu_vars s3 = loaded_menu (user_menu_vars s2) (user_menu_vars s) \<and>
     conf_mem s3 = (conf_mem s2)(3002 := conf_mem s 3002, 3003 := conf_mem s 3003) \<and>
     conf_files s3 = conf_files s2"
proof -
  let ?t = user_menu_conf_info and ?w = "user_menu_vars s" and ?u = "loaded_menu (user_menu_vars s2) (user_menu_vars s)"
  let ?mb = "conf_mem s 3002" and ?mc = "conf_mem s 3003"
  let ?h = "le_bytes 4 CONF_MAGICK_VALUE @ le_bytes 4 (int c)"
  let ?p = "(?h @ (le_bytes 2 1 @ le_bytes 2 24)) @ menu_image ?w"
  let ?sa = "conf_call UserMenuRestore (s2\<lparr>user_menu_vars := ?u\<rparr>)"
  let ?sb = "apply_record E ?t InfoUserMenu (2, ?mb) ?sa" and ?sc = "apply_record E ?t InfoUserMenu (3, ?mc)"
  have ok: "menu_ok (user_menu_vars s2)" "menu_ok ?w" "opts_ok ?t s" "opts_ok ?t s2"
    using assms(1,2) by (auto simp: savable_def user_menu_table(1) is_struct_def user_menu_table(2-))
  have l: "length ?mb = 4" "length ?mc = 4" "length (conf_mem s2 3002) = 4" "length (conf_mem s2 3003) = 4"
    using ok(3,4) by (simp_all add: user_options_ok)
  have n: "um_num_items ?u = um_num_items ?w" using assms(6) by (simp add: loaded_menu_items)
  then have z: "user_menu_saved_size ?u = length (menu_image ?w)" "user_menu_saved_size ?u < 65536"
    using assms(5) by (simp_all add: length_menu_image [OF ok(2)] user_menu_saved_size_def CONF_STR_LEN_def)
  let ?rb = "record_bytes (2, ?mb)" and ?rc = "record_bytes (3, ?mc)"
  have F: "file_of ?t c s = ?p @ ?rb @ ?rc" by (simp add: user_file [OF assms(1)])
  have a: "ci_id (user_entry 2) = 2" "ci_id (user_entry 3) = 3" by (simp_all add: user_menu_table)
  have e: "user_entry 2 \<in> set ?t" "user_entry 3 \<in> set ?t" by (simp_all add: user_menu_table(1))
  have m: "conf_mem (apply_record E ?t InfoUserMenu (2, ?mb) x) = (conf_mem x)(3002 := ?mb)"
    "conf_mem (apply_record E ?t InfoUserMenu (3, ?mc) x) = (conf_mem x)(3003 := ?mc)"
    "user_menu_vars (apply_record E ?t InfoUserMenu rec x) = user_menu_vars x"
    "conf_files (apply_record E ?t InfoUserMenu rec x) = conf_files x" for x rec
    using l by (simp_all add: apply_record_def user_menu_table info_func_def user_menu_conf_info_func_def split: option.split)
  have "restore_loop E ?t InfoUserMenu (file_of ?t c s) 8 s2 =
      restore_loop E ?t InfoUserMenu (?p @ ?rb @ ?rc) (length ?p) ?sa"
    using restore_loop_menu [OF ok(1,2) assms(4) z(2), of ?h E "?rb @ ?rc"] z(1) by (simp add: F)
  also have "\<dots> = restore_loop E ?t InfoUserMenu ((?p @ ?rb) @ ?rc @ []) (length (?p @ ?rb)) ?sb"
    using restore_loop_step [OF user_menu_conf_info_ok e(1), of ?mb ?sa E InfoUserMenu ?p ?rc] l
    by (simp add: user_menu_table(5-) is_struct_def a record_bytes_def)
  also have "\<dots> = restore_loop E ?t InfoUserMenu ((?p @ ?rb) @ ?rc @ []) (length (?p @ ?rb) + 4 + 4) (?sc ?sb)"
    using restore_loop_step [OF user_menu_conf_info_ok e(2), of ?mc ?sb E InfoUserMenu "?p @ ?rb" "[]"] l
    by (simp add: user_menu_table(5-) is_struct_def a m)
  also have "\<dots> = Some (?sc ?sb)"
    by (rule restore_loop_end) (simp add: record_bytes_def l)
  finally have "config_restore E ?t f InfoUserMenu s2 = Some (?sc ?sb)" by (simp add: user_load [OF assms(1,3)])
  then show ?thesis by (simp add: m)
qed

text \<open>Of a menu of fewer items, the items are read, and the offset moves past the end.\<close>

lemma user_menu_short:
  assumes "savable user_menu_conf_info s" "savable user_menu_conf_info s2"
    and "conf_files s2 f = Some (file_of user_menu_conf_info c s)"
    and "0 < um_num_items (user_menu_vars s)" "um_num_items (user_menu_vars s2) \<le> 321"
    and "um_num_items (user_menu_vars s) < um_num_items (user_menu_vars s2)"
  shows "\<exists>s3. config_restore E user_menu_conf_info f InfoUserMenu s2 = Some s3 \<and>
     user_menu_vars s3 = loaded_menu (user_menu_vars s2) (user_menu_vars s) \<and> conf_mem s3 = conf_mem s2"
proof -
  let ?t = user_menu_conf_info and ?w = "user_menu_vars s" and ?u = "loaded_menu (user_menu_vars s2) (user_menu_vars s)"
  let ?h = "le_bytes 4 CONF_MAGICK_VALUE @ le_bytes 4 (int c)"
  let ?r = "record_bytes (2, conf_mem s 3002) @ record_bytes (3, conf_mem s 3003)"
  let ?sa = "conf_call UserMenuRestore (s2\<lparr>user_menu_vars := ?u\<rparr>)"
  have ok: "menu_ok (user_menu_vars s2)" "menu_ok ?w" "opts_ok ?t s"
    using assms(1,2) by (auto simp: savable_def user_menu_table(1) is_struct_def user_menu_table(2-))
  have n: "um_num_items ?u = um_num_items (user_menu_vars s2)" using assms(6) by (simp add: loaded_menu_items)
  then have z: "user_menu_saved_size ?u < 65536"
    using assms(5) by (simp add: user_menu_saved_size_def CONF_STR_LEN_def)
  have F: "file_of ?t c s = ?h @ (le_bytes 2 1 @ le_bytes 2 24) @ menu_image ?w @ ?r" by (simp add: user_file [OF assms(1)])
  have "length (file_of ?t c s) < 12 + user_menu_saved_size ?u + 4"
    using assms(6) ok(3) n
    by (simp add: F record_bytes_def user_options_ok length_menu_image [OF ok(2)] user_menu_saved_size_def CONF_STR_LEN_def)
  then have "restore_loop E ?t InfoUserMenu (file_of ?t c s) 8 s2 = Some ?sa"
    using restore_loop_menu [OF ok(1,2) assms(4) z, of ?h E ?r] restore_loop_end [of "file_of ?t c s" "12 + user_menu_saved_size ?u"]
    by (simp add: F)
  then show ?thesis by (simp add: user_load [OF assms(1,3)])
qed

text \<open>C19: the user menu's file, which has the items and the two options of the menu, is read back in full, every item's
  number and every string that is not empty, by a program whose menu has no more items. Read by one whose menu is longer, its items
  are loaded but neither option is, because the loop skips the size of the menu in memory.\<close>

theorem user_menu_save_restore:
  assumes "savable user_menu_conf_info s" "ce_can_write E f"
    and "config_save E user_menu_conf_info f CONF_USER s = Some s1"
    and "savable user_menu_conf_info s2" "conf_files s2 f = conf_files s1 f"
    and "0 < um_num_items (user_menu_vars s)" "um_num_items (user_menu_vars s) \<le> 321"
    and "um_num_items (user_menu_vars s2) \<le> 321"
  shows "\<exists>s3. config_restore E user_menu_conf_info f InfoUserMenu s2 = Some s3 \<and>
     user_menu_vars s3 = loaded_menu (user_menu_vars s2) (user_menu_vars s) \<and>
     conf_mem s3 =
       (if um_num_items (user_menu_vars s2) \<le> um_num_items (user_menu_vars s)
        then (conf_mem s2)(3002 := conf_mem s 3002, 3003 := conf_mem s 3003) else conf_mem s2)"
proof -
  have f: "conf_files s2 f = Some (file_of user_menu_conf_info CONF_USER s)"
    using assms(2,3,5) config_save_file(1) [OF user_menu_conf_info_ok assms(1)] by auto
  show ?thesis
  proof (cases "um_num_items (user_menu_vars s2) \<le> um_num_items (user_menu_vars s)")
    case True
    then show ?thesis using user_menu_restored [OF assms(1,4) f assms(6,7) True] by auto
  next
    case False
    then show ?thesis using user_menu_short [OF assms(1,4) f assms(6,8)] by simp
  qed
qed

end
