(* ===== verification/ConfSet.thy ===== *)
theory ConfSet
  imports ConfMenu
begin

text \<open>
  Saving what has changed, and setting options: what \<open>conf_save\<close> writes to each file, that nothing is left to save after
  it, that a value set from a script is the one read afterwards, and that no script can let Lua call native code.
\<close>

section \<open>Change detection\<close>

lemma conf_hash_last [simp]: "conf_hash E e (s\<lparr>last_saved := L\<rparr>) = conf_hash E e s"
  by (simp add: conf_hash_def cong: conf_type.case_cong)

lemma conf_hash_mem: "conf_mem s' = conf_mem s \<Longrightarrow> conf_hash E e s' = conf_hash E e s"
  by (simp add: conf_hash_def cong: conf_type.case_cong)

lemma conf_hash_defined:
  assumes "savable t s" "e \<in> set t"
  shows "conf_hash E e s \<noteq> None"
proof -
  have l: "\<not> is_struct e \<Longrightarrow> length (conf_mem s (ci_var e)) = ci_size e" "ci_type e = CONF_CHAR_PTR \<Longrightarrow> 0 \<in> set (conf_mem s (ci_var e))"
    using assms by (simp_all add: savable_def opts_ok_def strings_ok_def)
  show ?thesis
  proof (cases "ci_type e")
    case CONF_CHAR_PTR
    then show ?thesis using l(2) by (simp add: conf_hash_def lang_strhash31_def cstr_at_def Let_def)
  qed (use l(1) in \<open>simp_all add: conf_hash_def is_struct_def bytes_at_def\<close>)
qed

lemma update_last_saved:
  assumes "\<forall>e \<in> set es. conf_hash E e s \<noteq> None" "distinct (map ci_var es)"
  shows "\<exists>L. config_update_last_saved E es s = Some (s\<lparr>last_saved := L\<rparr>) \<and>
     (\<forall>v. v \<notin> ci_var ` set es \<longrightarrow> L v = last_saved s v) \<and>
     (\<forall>e \<in> set es. \<forall>x. conf_hash E e s = Some (Some x) \<longrightarrow> L (ci_var e) = x)"
  using assms
proof (induction es arbitrary: s)
  case Nil
  show ?case by (intro exI [of _ "last_saved s"]) simp
next
  case (Cons e es)
  obtain h where h: "conf_hash E e s = Some h" using Cons.prems(1) by auto
  let ?L = "case h of None \<Rightarrow> last_saved s | Some x \<Rightarrow> (last_saved s)(ci_var e := x)"
  let ?s = "s\<lparr>last_saved := ?L\<rparr>"
  have s: "(case h of None \<Rightarrow> s | Some x \<Rightarrow> s\<lparr>last_saved := (last_saved s)(ci_var e := x)\<rparr>) = ?s"
    by (cases h) simp_all
  obtain L where L: "config_update_last_saved E es ?s = Some (?s\<lparr>last_saved := L\<rparr>)"
      "\<forall>v. v \<notin> ci_var ` set es \<longrightarrow> L v = ?L v"
      "\<forall>e \<in> set es. \<forall>x. conf_hash E e s = Some (Some x) \<longrightarrow> L (ci_var e) = x"
    using Cons.IH [of ?s] Cons.prems by auto
  have "L (ci_var e) = ?L (ci_var e)" using L(2) Cons.prems(2) by simp
  then have "\<forall>e' \<in> set (e # es). \<forall>x. conf_hash E e' s = Some (Some x) \<longrightarrow> L (ci_var e') = x"
    using L(3) h by auto
  moreover have "\<forall>v. v \<notin> ci_var ` set (e # es) \<longrightarrow> L v = last_saved s v"
    using L(2) by (cases h) auto
  ultimately show ?case using L(1) by (intro exI [of _ L]) (simp add: h s)
qed

lemma has_changed_False:
  assumes "\<forall>e \<in> set es. conf_hash E e s \<in> {Some None, Some (Some (last_saved s (ci_var e)))}"
  shows "config_has_changed E es s = Some False"
  using assms by (induction es) auto

lemma has_changed_cong:
  assumes "conf_mem s' = conf_mem s" "\<forall>e \<in> set es. last_saved s' (ci_var e) = last_saved s (ci_var e)"
  shows "config_has_changed E es s' = config_has_changed E es s"
  using assms(2) by (induction es) (simp_all add: conf_hash_mem [OF assms(1)] cong: if_cong)

lemma has_changed_defined:
  assumes "\<forall>e \<in> set es. conf_hash E e s \<noteq> None"
  shows "\<exists>b. config_has_changed E es s = Some b"
  using assms by (induction es) auto

section \<open>Saving\<close>

text \<open>Everything that is to be saved can be.\<close>

definition all_savable :: "conf_env \<Rightarrow> conf_state \<Rightarrow> bool" where
  "all_savable E s \<longleftrightarrow> (\<forall>h \<in> set (confinfo_handlers (ce_has_gps E)). savable (h_table h) s) \<and>
     (\<forall>u. menu_ok u \<longrightarrow> menu_ok (ce_user_menu_save E u))"

definition must_save :: "conf_env \<Rightarrow> conf_state \<Rightarrow> confinfo_handler \<Rightarrow> bool" where
  "must_save E s h \<longleftrightarrow> config_has_changed E (h_table h) s = Some True \<or>
     h_start h = CONF_USER \<and> user_menu_has_changed s"

definition saved_menu :: "conf_env \<Rightarrow> conf_state \<Rightarrow> confinfo_handler \<Rightarrow> user_menu_config" where
  "saved_menu E s h = (if must_save E s h \<and> h_start h = CONF_USER then ce_user_menu_save E (user_menu_vars s) else user_menu_vars s)"

text \<open>One file of \<open>conf_save\<close>.\<close>

definition save_one :: "conf_env \<Rightarrow> confinfo_handler \<Rightarrow> conf_state \<Rightarrow> conf_state option" where
  "save_one E h s = conf_save_handlers E [h] s"

lemma conf_save_handlers_Nil: "conf_save_handlers E [] = Some"
  by (rule ext) simp

lemma conf_save_handlers_Cons:
  "conf_save_handlers E (h # hs) s = do { s1 \<leftarrow> save_one E h s; conf_save_handlers E hs s1 }"
  by (simp add: save_one_def conf_save_handlers_Nil Let_def)

definition saved_files :: "conf_env \<Rightarrow> conf_state \<Rightarrow> confinfo_handler \<Rightarrow> user_menu_config \<Rightarrow> string \<Rightarrow> u8 list option" where
  "saved_files E s h u =
     (if must_save E s h \<and> ce_can_write E (h_file h)
      then (conf_files s)(h_file h \<mapsto> file_of (h_table h) (h_start h) (s\<lparr>user_menu_vars := u\<rparr>)) else conf_files s)"

lemma distinct_vars: "conf_table_ok b t \<Longrightarrow> distinct (map ci_var t)"
  using conf_table_distinct [of b t] conf_entry_eq [of b t]
  by (auto simp: distinct_map inj_on_def)

lemma savable_menu:
  "savable t s \<Longrightarrow> conf_mem s' = conf_mem s \<Longrightarrow> (menu_ok (user_menu_vars s) \<Longrightarrow> menu_ok (user_menu_vars s')) \<Longrightarrow>
   savable t s'"
  by (auto simp: savable_def opts_ok_def strings_ok_def)

lemma save_one_effect:
  assumes "conf_table_ok (h_start h) (h_table h)" "savable (h_table h) s"
    and "menu_ok (user_menu_vars s) \<Longrightarrow> menu_ok (ce_user_menu_save E (user_menu_vars s))"
  shows "\<exists>L. save_one E h s = Some (s\<lparr>user_menu_vars := saved_menu E s h,
       conf_files := saved_files E s h (saved_menu E s h), last_saved := L\<rparr>) \<and>
     (\<forall>v. v \<notin> ci_var ` set (h_table h) \<longrightarrow> L v = last_saved s v) \<and>
     config_has_changed E (h_table h) (s\<lparr>last_saved := L\<rparr>) = Some False"
proof -
  let ?t = "h_table h"
  have hs: "\<forall>e \<in> set ?t. conf_hash E e s \<noteq> None" using conf_hash_defined [OF assms(2)] by blast
  obtain ch where ch: "config_has_changed E ?t s = Some ch" using has_changed_defined [OF hs] by blast
  show ?thesis
  proof (cases "must_save E s h")
    case False
    then have "\<not> ch" "\<not> (h_start h = CONF_USER \<and> user_menu_has_changed s)" using ch by (auto simp: must_save_def)
    then show ?thesis using ch False
      by (intro exI [of _ "last_saved s"]) (auto simp: save_one_def saved_menu_def saved_files_def)
  next
    case True
    then have c: "ch \<or> h_start h = CONF_USER \<and> user_menu_has_changed s" using ch by (auto simp: must_save_def)
    let ?u = "saved_menu E s h"
    let ?s = "s\<lparr>user_menu_vars := ?u\<rparr>"
    let ?f = "s\<lparr>user_menu_vars := ?u, conf_files := saved_files E s h ?u\<rparr>"
    have "savable ?t ?s" using assms(2,3) by (elim savable_menu) (auto simp: saved_menu_def)
    then have "config_save E ?t (h_file h) (h_start h) ?s = Some ?f"
      using config_save_file(1) [OF assms(1)] True by (simp add: saved_files_def)
    moreover have "(if h_start h = CONF_USER then s\<lparr>user_menu_vars := ce_user_menu_save E (user_menu_vars s)\<rparr> else s) = ?s"
      using True by (simp add: saved_menu_def)
    ultimately have o: "save_one E h s = config_update_last_saved E ?t ?f"
      using ch c by (simp add: save_one_def conf_save_handlers_Nil)
    have m: "conf_hash E e ?f = conf_hash E e s" for e by (rule conf_hash_mem) simp
    obtain L where L: "config_update_last_saved E ?t ?f = Some (?f\<lparr>last_saved := L\<rparr>)"
        "\<forall>v. v \<notin> ci_var ` set ?t \<longrightarrow> L v = last_saved s v"
        "\<forall>e \<in> set ?t. \<forall>x. conf_hash E e s = Some (Some x) \<longrightarrow> L (ci_var e) = x"
      using update_last_saved [of ?t E ?f] hs distinct_vars [OF assms(1)] by (auto simp: m)
    have "config_has_changed E ?t (s\<lparr>last_saved := L\<rparr>) = Some False"
    proof (rule has_changed_False, intro ballI)
      fix e assume e: "e \<in> set ?t"
      then obtain x where "conf_hash E e s = Some x" using hs by auto
      then show "conf_hash E e (s\<lparr>last_saved := L\<rparr>) \<in> {Some None, Some (Some (last_saved (s\<lparr>last_saved := L\<rparr>) (ci_var e)))}"
        using L(3) e by (cases x) auto
    qed
    then show ?thesis using o L(1,2) by auto
  qed
qed

text \<open>The tables have their own options and files.\<close>

definition handlers_ok :: "confinfo_handler list \<Rightarrow> bool" where
  "handlers_ok hs \<longleftrightarrow> distinct (map h_start hs) \<and> distinct (map h_file hs) \<and>
     (\<forall>h \<in> set hs. h_start h mod 1000 = 0 \<and> conf_table_ok (h_start h) (h_table h) \<and>
        (h_start h \<noteq> CONF_USER \<longrightarrow> plain (h_table h)))"

lemma confinfo_handlers_ok: "handlers_ok (confinfo_handlers g)"
proof -
  have "distinct (map h_start (confinfo_handlers g))" "distinct (map h_file (confinfo_handlers g))"
    "\<forall>h \<in> set (confinfo_handlers g). h_start h mod 1000 = 0"
    by (simp_all add: confinfo_handlers_def CONF_CORE_def CONF_OSD_def CONF_USER_def CONF_GPS_def
        CONF_FILE_def OSD_CONF_FILE_def USER_MENU_CONF_FILE_def GPS_CONF_FILE_def)
  then show ?thesis using handler_table_ok handler_plain by (simp add: handlers_ok_def)
qed

lemma var_in_range: "conf_table_ok b t \<Longrightarrow> v \<in> ci_var ` set t \<Longrightarrow> b < v \<and> v < b + 1000"
  using conf_table_okD by (auto simp: entry_ok_def)

lemma vars_disjoint:
  assumes "handlers_ok hs" "h \<in> set hs" "h' \<in> set hs" "v \<in> ci_var ` set (h_table h)" "v \<in> ci_var ` set (h_table h')"
  shows "h_start h = h_start h'"
proof -
  have "h_start h mod 1000 = 0" "h_start h' mod 1000 = 0"
    "h_start h < v" "v < h_start h + 1000" "h_start h' < v" "v < h_start h' + 1000"
    using assms var_in_range [of "h_start h" "h_table h" v] var_in_range [of "h_start h'" "h_table h'" v]
    by (simp_all add: handlers_ok_def)
  moreover obtain a b where ab: "h_start h = 1000 * a" "h_start h' = 1000 * b"
    using calculation(1,2) by (metis dvdE mod_eq_0_iff_dvd)
  ultimately have "1000 * a < v" "v < 1000 * a + 1000" "1000 * b < v" "v < 1000 * b + 1000" by simp_all
  then have "a = b" by arith
  then show ?thesis using ab by simp
qed

lemma handlers_ok_Cons:
  "handlers_ok (h # hs) \<Longrightarrow> handlers_ok hs \<and> h_start h \<notin> h_start ` set hs \<and> h_file h \<notin> h_file ` set hs"
  by (simp add: handlers_ok_def)

lemma file_of_cong:
  assumes "conf_mem s' = conf_mem s" "plain t \<or> user_menu_vars s' = user_menu_vars s"
  shows "file_of t b s' = file_of t b s"
proof -
  have "\<forall>e \<in> set t. entry_bytes s' e = entry_bytes s e"
    using assms by (auto simp: entry_bytes_def entry_image_def plain_def)
  then have "map (entry_bytes s') t = map (entry_bytes s) t" by simp
  then show ?thesis by (simp only: file_of_def)
qed

definition written_to :: "conf_env \<Rightarrow> conf_state \<Rightarrow> confinfo_handler list \<Rightarrow> string \<Rightarrow> confinfo_handler option" where
  "written_to E s hs f = find (\<lambda>h. h_file h = f \<and> must_save E s h \<and> ce_can_write E f) hs"

definition saved_by :: "conf_env \<Rightarrow> confinfo_handler list \<Rightarrow> conf_state \<Rightarrow> conf_state \<Rightarrow> bool" where
  "saved_by E hs s s' \<longleftrightarrow> conf_mem s' = conf_mem s \<and> user_menu_has_changed s' = user_menu_has_changed s \<and>
     config_autosave s' = config_autosave s \<and>
     (\<forall>h \<in> set hs. config_has_changed E (h_table h) s' = Some False) \<and>
     (\<forall>v. (\<forall>h \<in> set hs. v \<notin> ci_var ` set (h_table h)) \<longrightarrow> last_saved s' v = last_saved s v) \<and>
     (CONF_USER \<notin> h_start ` set hs \<longrightarrow> user_menu_vars s' = user_menu_vars s) \<and>
     (\<forall>f. conf_files s' f = (case written_to E s hs f of
        Some h \<Rightarrow> Some (file_of (h_table h) (h_start h) s') | None \<Rightarrow> conf_files s f))"

lemma savable_mem: "conf_mem s' = conf_mem s \<Longrightarrow> plain t \<Longrightarrow> savable t s' = savable t s"
  by (auto simp: savable_def opts_ok_def strings_ok_def plain_def)

lemma conf_save_handlers_saved:
  assumes "handlers_ok hs" "\<forall>h \<in> set hs. savable (h_table h) s" "\<forall>u. menu_ok u \<longrightarrow> menu_ok (ce_user_menu_save E u)"
  shows "\<exists>s'. conf_save_handlers E hs s = Some s' \<and> saved_by E hs s s'"
  using assms(1,2)
proof (induction hs arbitrary: s)
  case Nil
  then show ?case by (simp add: saved_by_def written_to_def)
next
  case (Cons h hs)
  let ?t = "h_table h"
  have hs: "handlers_ok hs" "h_start h \<notin> h_start ` set hs" "h_file h \<notin> h_file ` set hs"
    using handlers_ok_Cons [OF Cons.prems(1)] by simp_all
  have t: "conf_table_ok (h_start h) ?t" "h_start h \<noteq> CONF_USER \<longrightarrow> plain ?t"
    using Cons.prems(1) by (simp_all add: handlers_ok_def)
  let ?u = "saved_menu E s h"
  obtain L where L: "save_one E h s = Some (s\<lparr>user_menu_vars := ?u, conf_files := saved_files E s h ?u, last_saved := L\<rparr>)"
      "\<forall>v. v \<notin> ci_var ` set ?t \<longrightarrow> L v = last_saved s v"
      "config_has_changed E ?t (s\<lparr>last_saved := L\<rparr>) = Some False"
    using save_one_effect [OF t(1), of s E] Cons.prems(2) assms(3) by auto
  let ?s = "s\<lparr>user_menu_vars := ?u, conf_files := saved_files E s h ?u, last_saved := L\<rparr>"
  have sep: "v \<notin> ci_var ` set ?t" if "h' \<in> set hs" "v \<in> ci_var ` set (h_table h')" for h' v
  proof
    assume "v \<in> ci_var ` set ?t"
    then have "h_start h' = h_start h" using vars_disjoint [OF Cons.prems(1), of h' h v] that by simp
    then show False using that(1) hs(2) by (metis imageI)
  qed
  have other: "config_has_changed E (h_table h') ?s = config_has_changed E (h_table h') s" if "h' \<in> set hs" for h'
    using L(2) sep [OF that] by (intro has_changed_cong) auto
  then have must: "must_save E ?s h' = must_save E s h'" if "h' \<in> set hs" for h'
    using that by (simp add: must_save_def)
  have "\<forall>h' \<in> set hs. savable (h_table h') ?s"
    using Cons.prems(2) assms(3) by (auto elim!: savable_menu simp: saved_menu_def)
  then obtain s' where s': "conf_save_handlers E hs ?s = Some s'" "saved_by E hs ?s s'"
    using Cons.IH [OF hs(1), of ?s] by blast
  have S: "conf_mem s' = conf_mem s" "user_menu_has_changed s' = user_menu_has_changed s" "config_autosave s' = config_autosave s"
    "\<forall>h' \<in> set hs. config_has_changed E (h_table h') s' = Some False"
    "\<forall>v. (\<forall>h' \<in> set hs. v \<notin> ci_var ` set (h_table h')) \<longrightarrow> last_saved s' v = L v"
    "CONF_USER \<notin> h_start ` set hs \<longrightarrow> user_menu_vars s' = ?u"
    "\<forall>f. conf_files s' f = (case written_to E ?s hs f of
        Some h' \<Rightarrow> Some (file_of (h_table h') (h_start h') s') | None \<Rightarrow> saved_files E s h ?u f)"
    using s'(2) by (simp_all add: saved_by_def cong: option.case_cong)
  have own: "\<forall>e \<in> set ?t. last_saved s' (ci_var e) = L (ci_var e)"
    using S(5) sep by blast
  have h: "config_has_changed E ?t s' = Some False"
    using has_changed_cong [of s' "s\<lparr>last_saved := L\<rparr>" ?t E] S(1) own L(3) by simp
  have w: "written_to E ?s hs f = written_to E s hs f" for f
    unfolding written_to_def using must by (intro find_cong) auto
  have same: "file_of ?t (h_start h) (s\<lparr>user_menu_vars := ?u\<rparr>) = file_of ?t (h_start h) s'"
    using S(1,6) t(2) hs(2) by (intro file_of_cong) auto
  have "conf_files s' f = (case written_to E s (h # hs) f of
        Some h' \<Rightarrow> Some (file_of (h_table h') (h_start h') s') | None \<Rightarrow> conf_files s f)" for f
  proof (cases "f = h_file h")
    case True
    have "h_file h' \<noteq> h_file h" if "h' \<in> set hs" for h' using hs(3) that by (metis imageI)
    then have "written_to E s hs f = None" using True by (auto simp: written_to_def find_None_iff)
    then show ?thesis using S(7) w same True by (auto simp: saved_files_def written_to_def)
  next
    case False
    then show ?thesis using S(7) w by (auto simp: saved_files_def written_to_def split: option.split)
  qed
  moreover have "CONF_USER \<notin> h_start ` set (h # hs) \<longrightarrow> user_menu_vars s' = user_menu_vars s"
    using S(6) by (auto simp: saved_menu_def)
  ultimately have "saved_by E (h # hs) s s'"
    using S(1-5) L(2) h by (auto simp: saved_by_def)
  then show ?case using s'(1) L(1) by (simp add: conf_save_handlers_Cons del: conf_save_handlers.simps)
qed


section \<open>Setting\<close>

lemma config_save_mem: "config_save E t f c s = Some s' \<Longrightarrow> conf_mem s' = conf_mem s"
  by (auto simp: config_save_def Let_def Option.bind_eq_Some_conv split: if_splits)

lemma update_last_saved_mem: "config_update_last_saved E es s = Some s' \<Longrightarrow> conf_mem s' = conf_mem s"
  by (induction es arbitrary: s) (auto simp: Option.bind_eq_Some_conv split: option.splits)

lemma conf_save_handlers_mem: "conf_save_handlers E hs s = Some s' \<Longrightarrow> conf_mem s' = conf_mem s"
proof (induction hs arbitrary: s)
  case (Cons h hs)
  obtain s1 where "save_one E h s = Some s1" "conf_save_handlers E hs s1 = Some s'"
    using Cons.prems by (auto simp: conf_save_handlers_Cons Option.bind_eq_Some_conv simp del: conf_save_handlers.simps)
  moreover have "conf_mem s1 = conf_mem s"
    using calculation(1) config_save_mem update_last_saved_mem
    by (fastforce simp: save_one_def conf_save_handlers_Nil Let_def Option.bind_eq_Some_conv split: if_splits)
  ultimately show ?case using Cons.IH by simp
qed simp

lemma conf_save_mem: "conf_save E s = Some s' \<Longrightarrow> conf_mem s' = conf_mem s"
  using conf_save_handlers_mem by (auto simp: conf_save_def Option.bind_eq_Some_conv)

text \<open>Only the option is set.\<close>

lemma conf_write_frame: "conf_write v bs s = Some s' \<Longrightarrow> w \<noteq> v \<Longrightarrow> conf_mem s' w = conf_mem s w"
  by (auto simp: conf_write_def Option.bind_eq_Some_conv)

lemma set_value_frame:
  assumes "set_value_of e c s = Some (r, s')" "w \<noteq> ci_var e"
  shows "conf_mem s' w = conf_mem s w"
  using assms conf_write_frame [OF _ assms(2)]
  by (cases "ci_type e")
     (auto simp: set_value_of_def Let_def Option.bind_eq_Some_conv split: if_splits)

lemma find_handler_in: "find_handler E i = Some h \<Longrightarrow> h \<in> set (confinfo_handlers (ce_has_gps E)) \<and> h_start h \<le> i \<and> i \<le> h_end h"
  unfolding find_handler_def by (drule find_SomeD) simp

lemma findConfInfo_in: "findConfInfo t i = Some e \<Longrightarrow> e \<in> set t \<and> ci_id e = i"
  unfolding findConfInfo_def by (drule find_SomeD) simp

text \<open>C18: a script cannot change the option that lets Lua call native code: whatever identifier, old or new, and whatever value it
  sets, and whatever is then saved, the option is as it was.\<close>

theorem conf_setValue_keeps_native_calls:
  assumes "conf_setValue E i c s = Some (r, s')"
  shows "conf_mem s' LUA_NATIVE_CALLS = conf_mem s LUA_NATIVE_CALLS"
proof -
  let ?v = LUA_NATIVE_CALLS
  obtain j where j: "new_id i = Some j" using assms by (auto simp: conf_setValue_def Option.bind_eq_Some_conv)
  show ?thesis
  proof (cases "find_handler E j")
    case None
    then show ?thesis using assms j by (simp add: conf_setValue_def)
  next
    case (Some h)
    then have h: "h \<in> set (confinfo_handlers (ce_has_gps E))" "h_start h \<le> j" using find_handler_in by blast+
    have S: "setValue E (h_table h) (j - h_start h) c (h_info h) s = Some (r, s')"
      using assms j Some by (simp add: conf_setValue_def)
    show ?thesis
    proof (cases "j - h_start h = 999 \<or> findConfInfo (h_table h) (j - h_start h) = None")
      case True
      then show ?thesis using S by (auto simp: setValue_def split: if_splits)
    next
      case False
      then obtain e where e: "findConfInfo (h_table h) (j - h_start h) = Some e" by auto
      then have i: "e \<in> set (h_table h)" "ci_id e = j - h_start h" using findConfInfo_in by blast+
      have t: "conf_table_ok (h_start h) (h_table h)" "h_start h mod 1000 = 0"
        using confinfo_handlers_ok h(1) by (simp_all add: handlers_ok_def)
      have o: "ci_var e = h_start h + ci_id e" "ci_id e < 1000" "ci_id e \<noteq> 999"
        using conf_table_okD [OF t(1) i(1)] i(2) False by (simp_all add: entry_ok_def)
      have n: "?v \<noteq> ci_var e"
      proof
        assume "?v = ci_var e"
        moreover obtain a where "h_start h = 1000 * a" using t(2) by (metis dvdE mod_eq_0_iff_dvd)
        ultimately have a: "1000 * a + ci_id e = 1999" using o(1) by (simp add: LUA_NATIVE_CALLS_def)
        then have "a = 1" using o(2) by arith
        then show False using a o(3) by simp
      qed
      have k: "?v \<notin> info_sets (h_info h)"
        by (simp add: info_sets_def LUA_NATIVE_CALLS_def DNG_VERSION_def ALT_MODE_BUTTON_def MENU_SYMBOL_ENABLE_def
            split: conf_info_kind.split)
      obtain s1 where s1: "set_value_of e c s = Some (r, s1)"
        and r: "r = CONF_EMPTY \<and> s' = s1 \<or> conf_save E (info_func E (h_info h) (j - h_start h) s1) = Some s'
           \<or> s' = info_func E (h_info h) (j - h_start h) s1"
        using S e False by (auto simp: setValue_def Let_def Option.bind_eq_Some_conv split: if_splits)
      have "conf_mem s1 ?v = conf_mem s ?v" by (rule set_value_frame [OF s1 n])
      then show ?thesis using r conf_save_mem info_hook.hook_frame [OF k] by auto
    qed
  qed
qed

text \<open>A number is set.\<close>

definition is_number :: "conf_info_t \<Rightarrow> bool" where
  "is_number e \<longleftrightarrow> ci_type e = CONF_DEF_VALUE \<or> ci_type e = CONF_FUNC_PTR"

lemma set_number:
  assumes "entry_ok b e" "is_number e" "length (conf_mem s (ci_var e)) = ci_size e" "isNumb c"
  shows "set_value_of e c s =
     Some (conf_type_code CONF_DEF_VALUE, s\<lparr>conf_mem := (conf_mem s)(ci_var e := le_bytes 4 (uint (cv_numb c)))\<rparr>)"
proof -
  have "ci_size e = 4" using assms(1,2) by (auto simp: entry_ok_def is_number_def conf_sizeof_def)
  then show ?thesis using assms(2-4)
    by (auto simp: set_value_of_def is_number_def conf_write_def put_bytes_whole)
qed

lemma get_number:
  assumes "conf_table_ok b t" "e \<in> set t" "is_number e" "conf_mem s (ci_var e) = le_bytes 4 (uint x)"
  shows "getValue t (ci_id e) s c = (conf_type_code CONF_DEF_VALUE, c\<lparr>cv_numb := x, cv_pInt := Some (ci_var e)\<rparr>)"
proof -
  have "entry_ok b e" by (rule conf_table_okD [OF assms(1,2)])
  then have n: "0 < ci_id e" "ci_size e = 4" using assms(3) by (auto simp: entry_ok_def is_number_def conf_sizeof_def)
  have "find (\<lambda>e'. ci_id e' = ci_id e) t = Some e"
  proof (cases "find (\<lambda>e'. ci_id e' = ci_id e) t")
    case None
    then show ?thesis using assms(2) by (auto simp: find_None_iff)
  next
    case (Some e')
    then show ?thesis using find_SomeD [OF Some] conf_entry_eq [OF assms(1) _ assms(2), of e'] by simp
  qed
  then show ?thesis using assms(3,4) n le_value_u32 [of x]
    by (auto simp: getValue_def findConfInfo_def read_sized_def is_number_def)
qed

lemma find_handler_of:
  assumes "h \<in> set (confinfo_handlers (ce_has_gps E))" "n < 1000"
  shows "find_handler E (h_start h + n) = Some h" "new_id (h_start h + n) = Some (h_start h + n)"
  using assms
  by (auto simp: find_handler_def new_id_def confinfo_handlers_def CONF_CORE_def CONF_OSD_def CONF_USER_def CONF_GPS_def
      split: if_splits)

lemma all_savable_number:
  assumes "all_savable E s" "h \<in> set (confinfo_handlers (ce_has_gps E))" "e \<in> set (h_table h)" "is_number e"
    "conf_mem s' = (conf_mem s)(ci_var e := le_bytes 4 x)" "user_menu_vars s' = user_menu_vars s"
  shows "all_savable E s'"
proof -
  have "savable (h_table h') s'" if h': "h' \<in> set (confinfo_handlers (ce_has_gps E))" for h'
  proof -
    have same: "e' = e" if e': "e' \<in> set (h_table h')" "ci_var e' = ci_var e" for e'
    proof -
      have "h_start h' = h_start h"
        using vars_disjoint [OF confinfo_handlers_ok h' assms(2), of "ci_var e"] assms(3) e' by (metis imageI)
      then have "h' = h" using h' assms(2) confinfo_handlers_ok [of "ce_has_gps E"]
        by (auto simp: handlers_ok_def distinct_map dest: inj_onD)
      then show ?thesis using conf_entry_eq [OF handler_table_ok [OF assms(2)] _ assms(3), of e'] e' by simp
    qed
    have t: "ci_size e = 4" "ci_type e \<noteq> CONF_CHAR_PTR"
      using conf_table_okD [OF handler_table_ok [OF assms(2)] assms(3)] assms(4)
      by (auto simp: entry_ok_def is_number_def conf_sizeof_def)
    have "savable (h_table h') s" using assms(1) h' by (simp add: all_savable_def)
    then show ?thesis using same t assms(5,6)
      by (auto simp: savable_def opts_ok_def strings_ok_def)
  qed
  then show ?thesis using assms(1) by (simp add: all_savable_def)
qed


text \<open>An identifier below 1000 is an index of the map of version 1.2, which has 302 entries; there is no check, and a script that asks for the
  value of one from 302 on reads beyond the map.\<close>

theorem conf_old_identifiers:
  assumes "i < CONF_CORE"
  shows "conf_getValue E i s c = None \<longleftrightarrow> 302 \<le> i"
proof -
  have "length conf_map_1_2 = 302" by (simp add: conf_map_1_2_def)
  then show ?thesis using assms by (auto simp: conf_getValue_def new_id_def)
qed

end
