(* ===== verification/ConfDemo.thy ===== *)
theory ConfDemo
  imports ConfSet
begin

text \<open>
  The configuration at work: a camera whose options are all zero, a file with one value and some bytes after it, a saved
  table, two user menus, and values set and read.
\<close>

definition demo_str_opts :: "nat list" where
  "demo_str_opts = [1054, 1180, 2110, 2114, 2131, 2132, 2135, 2141]"

definition demo_conf :: conf_state where
  "demo_conf = \<lparr>conf_mem = (\<lambda>v. replicate (if v \<in> set demo_str_opts then 100 else 4) 0), last_saved = (\<lambda>_. 0),
     user_menu_vars = init_user_menu 1 \<lparr>um_num_items = 0, um_items = None\<rparr>, user_menu_has_changed = False,
     badpixel_list_loaded = False, config_autosave = False, conf_files = Map.empty, conf_calls = []\<rparr>"

definition demo_conf_env :: conf_env where
  "demo_conf_env = \<lparr>ce_const = (\<lambda>_. 0), ce_literal = (\<lambda>_. replicate 100 0), ce_func = (\<lambda>_. 0), ce_has_gps = True,
     ce_can_write = (\<lambda>_. True), ce_badpixel_loads = True, ce_symbols_load = True, ce_dng_ext_from = True,
     ce_extra_button = False, ce_adjustable_alt_button = Some (\<lambda>x. x), ce_ext_video_time = False,
     ce_user_menu_save = (\<lambda>u. u), ce_curves = True, ce_max_langid = 1000\<rparr>"

lemma replicate_small: "replicate 4 x = [x, x, x, x]" "replicate 2 x = [x, x]"
  by (simp_all add: numeral_eq_Suc)

lemma le_bytes_small: "le_bytes 4 1 = [1, 0, 0, 0]" "le_bytes 4 7 = [7, 0, 0, 0]"
  by (simp_all add: numeral_eq_Suc)

lemma demo_quiet: "quiet_env demo_conf_env"
  by (simp add: quiet_env_def demo_conf_env_def)

text \<open>A table is savable if its options are of the sizes and the strings are empty.\<close>

lemma demo_sizes:
  assumes "list_all (\<lambda>e. ci_type e = CONF_STRUCT_PTR \<or> ci_size e = (if ci_var e \<in> set demo_str_opts then 100 else 4)) t"
    and "menu_ok (user_menu_vars s)" "conf_mem s = conf_mem demo_conf"
  shows "savable t s"
  using assms by (auto simp: savable_def opts_ok_def strings_ok_def list_all_iff is_struct_def demo_conf_def)

lemma demo_menu_ok: "menu_ok (user_menu_vars demo_conf)"
  by (simp add: demo_conf_def init_user_menu_def menu_ok_def empty_item_def um_str_ok_def)

lemmas demo_table_simps = CONF_INFO_def conf_sizeof_def CONF_STR_LEN_def demo_str_opts_def CONF_CORE_def CONF_OSD_def
  CONF_USER_def CONF_GPS_def

lemma demo_savable:
  "savable core_conf_info demo_conf" "savable osd_conf_info demo_conf" "savable user_menu_conf_info demo_conf"
  "savable gps_conf_info demo_conf"
  by ((rule demo_sizes [OF _ demo_menu_ok refl]; simp add: core_conf_info_def osd_conf_info_def user_menu_conf_info_def
       gps_conf_info_def demo_table_simps)+)

lemma demo_all_savable: "all_savable demo_conf_env demo_conf"
  using demo_savable by (simp add: all_savable_def confinfo_handlers_def demo_conf_env_def)

section \<open>Files\<close>

definition core_handler :: confinfo_handler where
  "core_handler = confinfo_handlers True ! 0"

definition user_handler :: confinfo_handler where
  "user_handler = confinfo_handlers True ! 2"

lemma demo_handlers:
  "core_handler \<in> set (confinfo_handlers True)" "h_start core_handler = CONF_CORE" "h_table core_handler = core_conf_info"
  "h_info core_handler = InfoCore" "user_handler \<in> set (confinfo_handlers True)" "h_start user_handler = CONF_USER"
  "h_table user_handler = user_menu_conf_info" "CONF_CORE \<noteq> CONF_USER"
  by (simp_all add: core_handler_def user_handler_def confinfo_handlers_def CONF_CORE_def CONF_USER_def)

text \<open>\<open>save_raw\<close>, an option of version 5, and the start of another record.\<close>

definition demo_file :: "u8 list" where
  "demo_file = le_bytes 4 CONF_MAGICK_VALUE @ le_bytes 4 1000 @
     concat (map record_bytes [(20, [1, 0, 0, 0]), (998, [7])]) @ [21, 0]"

lemma demo_file_records: "file_records demo_file = [(20, [1, 0, 0, 0]), (998, [7])]"
proof -
  have "le_value (le_bytes 4 CONF_MAGICK_VALUE) = CONF_MAGICK_VALUE"
    by (simp add: le_value_le_bytes CONF_MAGICK_VALUE_def)
  then show ?thesis
    using conf_records_bytes [of "[(20, [1, 0, 0, 0]), (998, [7])]" "[21, 0]"]
    by (simp add: file_records_def demo_file_def record_ok_def)
qed

definition demo_card :: conf_state where
  "demo_card = demo_conf\<lparr>conf_files := [CONF_FILE \<mapsto> demo_file]\<rparr>"


text \<open>A table that is saved with the option on is read into a program where it is off.\<close>

definition demo_raw_on :: conf_state where
  "demo_raw_on = demo_conf\<lparr>conf_mem := (conf_mem demo_conf)(SAVE_RAW := [1, 0, 0, 0])\<rparr>"

lemma demo_raw_on_savable: "savable core_conf_info demo_raw_on"
proof -
  have "list_all (\<lambda>e. ci_var e = SAVE_RAW \<longrightarrow> ci_size e = 4 \<and> ci_type e \<noteq> CONF_CHAR_PTR) core_conf_info"
    by (simp add: core_conf_info_def demo_table_simps SAVE_RAW_def)
  then show ?thesis using demo_savable(1)
    by (auto simp: savable_def opts_ok_def strings_ok_def demo_raw_on_def list_all_iff)
qed

lemma save_raw_entry:
  obtains e where "e \<in> set core_conf_info" "ci_var e = SAVE_RAW" "ci_type e = CONF_DEF_VALUE" "ci_id e = 20"
proof -
  have "list_ex (\<lambda>e. ci_var e = SAVE_RAW \<and> ci_type e = CONF_DEF_VALUE \<and> ci_id e = 20) core_conf_info"
    by (simp add: core_conf_info_def demo_table_simps SAVE_RAW_def)
  then show ?thesis using that by (auto simp: list_ex_iff)
qed


section \<open>The user menu\<close>

text \<open>A menu of one item, whose table is shown first, saved, and read into a menu of two.\<close>

definition demo_menu_one :: conf_state where
  "demo_menu_one = demo_conf\<lparr>conf_mem := (conf_mem demo_conf)(3002 := [1, 0, 0, 0]),
     user_menu_vars := \<lparr>um_num_items = 1, um_items = Some [\<lparr>um_var = 5, um_script_file = Some [65], um_script_title = None\<rparr>]\<rparr>\<rparr>"

definition demo_menu_two :: conf_state where
  "demo_menu_two = demo_conf\<lparr>user_menu_vars := init_user_menu 2 (user_menu_vars demo_conf)\<rparr>"

lemma demo_menus_savable: "savable user_menu_conf_info demo_menu_one" "savable user_menu_conf_info demo_menu_two"
proof -
  have "opts_ok user_menu_conf_info demo_menu_one" "opts_ok user_menu_conf_info demo_menu_two"
    by (simp_all add: user_options_ok demo_menu_one_def demo_menu_two_def demo_conf_def demo_str_opts_def)
  moreover have "strings_ok user_menu_conf_info s" for s by (simp add: strings_ok_def user_menu_table)
  moreover have "menu_ok (user_menu_vars demo_menu_one)" "menu_ok (user_menu_vars demo_menu_two)"
    by (simp_all add: menu_ok_def um_str_ok_def demo_menu_one_def demo_menu_two_def init_user_menu_def empty_item_def
        CONF_STR_LEN_def)
  ultimately show "savable user_menu_conf_info demo_menu_one" "savable user_menu_conf_info demo_menu_two"
    by (simp_all add: savable_def)
qed

theorem user_menu_save_restore_witness:
  "\<exists>s1 s3. config_save demo_conf_env user_menu_conf_info ''A/U'' CONF_USER demo_menu_one = Some s1 \<and>
     config_restore demo_conf_env user_menu_conf_info ''A/U'' InfoUserMenu (demo_menu_two\<lparr>conf_files := conf_files s1\<rparr>) = Some s3 \<and>
     um_items (user_menu_vars s3) =
       Some [\<lparr>um_var = 5, um_script_file = Some [65], um_script_title = None\<rparr>, empty_item] \<and>
     conf_mem demo_menu_one 3002 = [1, 0, 0, 0] \<and> conf_mem s3 3002 = [0, 0, 0, 0]"
proof -
  obtain s1 where s1: "config_save demo_conf_env user_menu_conf_info ''A/U'' CONF_USER demo_menu_one = Some s1"
    using config_save_file(1) [OF user_menu_conf_info_ok demo_menus_savable(1)] by simp
  let ?s2 = "demo_menu_two\<lparr>conf_files := conf_files s1\<rparr>"
  have "savable user_menu_conf_info ?s2" by (rule savable_menu [OF demo_menus_savable(2)]) simp_all
  moreover have "um_num_items (user_menu_vars demo_menu_one) = 1" "um_num_items (user_menu_vars ?s2) = 2"
    by (simp_all add: demo_menu_one_def demo_menu_two_def init_user_menu_def)
  ultimately obtain s3 where s3: "config_restore demo_conf_env user_menu_conf_info ''A/U'' InfoUserMenu ?s2 = Some s3"
      "user_menu_vars s3 = loaded_menu (user_menu_vars ?s2) (user_menu_vars demo_menu_one)" "conf_mem s3 = conf_mem ?s2"
    using user_menu_save_restore [OF demo_menus_savable(1) _ s1, of ?s2] by (auto simp: demo_conf_env_def)
  have "um_items (user_menu_vars s3) =
      Some [\<lparr>um_var = 5, um_script_file = Some [65], um_script_title = None\<rparr>, empty_item]"
    by (simp add: s3(2) loaded_menu_def demo_menu_one_def demo_menu_two_def init_user_menu_def loaded_item_def loaded_str_def
        empty_item_def opt_str_def replicate_small)
  moreover have "conf_mem s3 3002 = [0, 0, 0, 0]" "conf_mem demo_menu_one 3002 = [1, 0, 0, 0]"
    by (simp_all add: s3(3) demo_menu_one_def demo_menu_two_def demo_conf_def demo_str_opts_def replicate_small)
  ultimately show ?thesis using s1 s3(1) by blast
qed

section \<open>Changes\<close>

text \<open>The first option of the display's table is set and not yet saved.\<close>

definition demo_changed :: conf_state where
  "demo_changed = demo_conf\<lparr>conf_mem := (conf_mem demo_conf)(3002 := [1, 0, 0, 0])\<rparr>"

lemma demo_changed_savable: "all_savable demo_conf_env demo_changed"
proof -
  have "user_entry 2 \<in> set (h_table user_handler)" "is_number (user_entry 2)"
    by (simp_all add: demo_handlers user_menu_table is_number_def)
  then show ?thesis
    using all_savable_number [OF demo_all_savable, of user_handler "user_entry 2" demo_changed 1] demo_handlers(5)
    by (simp add: demo_changed_def demo_conf_env_def user_menu_table le_bytes_small)
qed


definition demo_number :: config_val where
  "demo_number = \<lparr>isNumb = True, isStr = False, isPInt = False, isPos = False, cv_numb = 7, cv_str = None, cv_pInt = None,
     cv_pos = [], cv_chars = [], cv_ints = []\<rparr>"


theorem conf_setValue_keeps_native_calls_witness:
  "\<exists>s'. conf_setValue demo_conf_env 3002 demo_number demo_conf = Some (1, s') \<and> conf_mem s' 3002 = [7, 0, 0, 0] \<and>
     conf_mem s' LUA_NATIVE_CALLS = conf_mem demo_conf LUA_NATIVE_CALLS"
proof -
  have "h_start user_handler + 2 = 3002" by (simp add: demo_handlers CONF_USER_def)
  then have "find_handler demo_conf_env 3002 = Some user_handler" "new_id 3002 = Some 3002"
    using find_handler_of [of user_handler demo_conf_env 2] demo_handlers(5) by (simp_all add: demo_conf_env_def)
  then have "\<exists>s'. conf_setValue demo_conf_env 3002 demo_number demo_conf = Some (1, s') \<and> conf_mem s' 3002 = [7, 0, 0, 0]"
    by (simp add: conf_setValue_def setValue_def demo_handlers CONF_USER_def findConfInfo_def user_menu_table set_value_of_def
        conf_write_def put_bytes_def demo_number_def conf_type_code_def CONF_EMPTY_def Let_def demo_conf_def
        demo_str_opts_def replicate_small le_bytes_small info_func_quiet [OF demo_quiet])
  then show ?thesis using conf_setValue_keeps_native_calls by blast
qed

theorem conf_old_identifiers_witness:
  "conf_getValue demo_conf_env 500 demo_conf demo_number = None \<and>
   conf_getValue demo_conf_env 301 demo_conf demo_number \<noteq> None"
  using conf_old_identifiers [of 500 demo_conf_env demo_conf demo_number]
    conf_old_identifiers [of 301 demo_conf_env demo_conf demo_number]
  by (simp add: CONF_CORE_def)

end
