(* ===== verification/ConfStart.thy ===== *)
theory ConfStart
  imports ConfDemo
begin

text \<open>
  Starting up: loading the defaults never fails and keeps the sizes of the options, and a start after the files were saved
  gives every option the value that it was saved with, but for those that are cleared at each start.
\<close>

section \<open>Defaults\<close>

text \<open>The default of an entry is of its type.\<close>

definition default_ok :: "conf_info_t \<Rightarrow> bool" where
  "default_ok e \<longleftrightarrow>
     (case ci_type e of
        CONF_FUNC_PTR \<Rightarrow> (case ci_def e of DFunc f \<Rightarrow> True | _ \<Rightarrow> False)
      | CONF_CHAR_PTR \<Rightarrow> (case ci_def e of DPtr l \<Rightarrow> True | _ \<Rightarrow> False)
      | CONF_INT_PTR \<Rightarrow> True
      | CONF_STRUCT_PTR \<Rightarrow> True
      | _ \<Rightarrow> (case ci_def e of DPtr l \<Rightarrow> False | DFunc f \<Rightarrow> False | _ \<Rightarrow> True))"

lemma tables_default_ok:
  "list_all default_ok core_conf_info" "list_all default_ok osd_conf_info"
  "list_all default_ok user_menu_conf_info" "list_all default_ok gps_conf_info"
  by (simp_all add: core_conf_info_def osd_conf_info_def user_menu_conf_info_def gps_conf_info_def CONF_INFO_def default_ok_def)

text \<open>The sizes stay.\<close>

definition sizes_same :: "conf_state \<Rightarrow> conf_state \<Rightarrow> bool" where
  "sizes_same s s' \<longleftrightarrow> (\<forall>v. 4 \<le> length (conf_mem s v) \<longrightarrow> length (conf_mem s' v) = length (conf_mem s v)) \<and> same_conf s s'"

lemma sizes_same_refl: "sizes_same s s"
  by (simp add: sizes_same_def same_conf_def)

lemma sizes_same_trans: "sizes_same s s1 \<Longrightarrow> sizes_same s1 s2 \<Longrightarrow> sizes_same s s2"
  by (simp add: sizes_same_def same_conf_def)

lemma sizes_same_info: "sizes_same s (info_func E k i s)"
  by (simp add: sizes_same_def info_hook.hook_length info_hook.hook_state)

lemma put_bytes_length: "put_bytes i new bs = Some r \<Longrightarrow> length r = length bs"
  by (auto simp: put_bytes_def split: if_splits)

lemma conf_write_sizes:
  assumes "length bs \<le> length (conf_mem s v)"
  shows "\<exists>s'. conf_write v bs s = Some s' \<and> sizes_same s s'"
proof -
  obtain m where m: "put_bytes 0 bs (conf_mem s v) = Some m" using assms by (simp add: put_bytes_def)
  then show ?thesis using put_bytes_length [OF m]
    by (simp add: conf_write_def sizes_same_def same_conf_def)
qed

definition table_sizes :: "conf_info_t list \<Rightarrow> bool" where
  "table_sizes t \<longleftrightarrow> (\<forall>e \<in> set t. ci_size e = conf_sizeof (ci_type e) \<and> default_ok e)"

lemma opts_ok_sizes:
  assumes "opts_ok t s" "sizes_same s s'" "table_sizes t"
  shows "opts_ok t s'"
proof -
  have "\<forall>e \<in> set t. \<not> is_struct e \<longrightarrow> 4 \<le> ci_size e"
    using assms(3) by (auto simp: table_sizes_def conf_sizeof_def CONF_STR_LEN_def split: conf_type.split)
  then show ?thesis using assms(1,2) by (auto simp: opts_ok_def sizes_same_def)
qed

lemma union_bytes_length: "union_bytes E d = Some u \<Longrightarrow> length u = 4"
  by (auto simp: union_bytes_def split: conf_default.splits)

lemma load_default_sizes:
  assumes "table_sizes t" "e \<in> set t" "opts_ok t s" "\<forall>l. CONF_STR_LEN \<le> length (ce_literal E l)"
  shows "\<exists>s'. load_default E e s = Some s' \<and> sizes_same s s'"
proof -
  have e: "ci_size e = conf_sizeof (ci_type e)" "default_ok e" using assms(1,2) by (simp_all add: table_sizes_def)
  have w: "\<exists>s'. conf_write (ci_var e) bs s = Some s' \<and> sizes_same s s'" if "length bs = ci_size e" "\<not> is_struct e" for bs
    by (rule conf_write_sizes) (use assms(2,3) that in \<open>simp add: opts_ok_def\<close>)
  have lit: "bytes_at 0 CONF_STR_LEN (ce_literal E l) = Some (take CONF_STR_LEN (ce_literal E l))" for l
    using assms(4) by (simp add: bytes_at_def)
  consider "ci_type e = CONF_OSD_POS \<or> ci_type e = CONF_DEF_VALUE" | "ci_type e = CONF_INT_PTR" | "ci_type e = CONF_FUNC_PTR"
    | "ci_type e = CONF_CHAR_PTR" | "ci_type e = CONF_STRUCT_PTR" by (cases "ci_type e") simp_all
  then show ?thesis
  proof cases
    case 1
    then have z: "ci_size e = 4" "\<not> is_struct e" using e(1) by (auto simp: conf_sizeof_def is_struct_def)
    obtain u where u: "union_bytes E (ci_def e) = Some u"
      using e(2) 1 by (auto simp: default_ok_def union_bytes_def split: conf_default.splits)
    then have "bytes_at 0 4 u = Some u" using union_bytes_length [OF u] by (simp add: bytes_at_all)
    then show ?thesis using 1 u w [of u] union_bytes_length [OF u] z by (simp add: load_default_def)
  next
    case 2
    then show ?thesis using w [of "replicate (ci_size e) 0"] by (simp add: load_default_def is_struct_def)
  next
    case 3
    then have z: "ci_size e = 4" "\<not> is_struct e" using e(1) by (simp_all add: conf_sizeof_def is_struct_def)
    then show ?thesis using 3 e(2) w by (auto simp: load_default_def default_ok_def split: conf_default.splits)
  next
    case 4
    then have z: "ci_size e = CONF_STR_LEN" "\<not> is_struct e" using e(1) by (simp_all add: conf_sizeof_def is_struct_def)
    then show ?thesis using 4 e(2) w [of "take CONF_STR_LEN (ce_literal E l)" for l] assms(4) lit
      by (auto simp: load_default_def default_ok_def split: conf_default.splits)
  next
    case 5
    then show ?thesis using sizes_same_refl by (simp add: load_default_def)
  qed
qed

lemma config_load_defaults_sizes:
  assumes "table_sizes t" "set es \<subseteq> set t" "opts_ok t s" "\<forall>l. CONF_STR_LEN \<le> length (ce_literal E l)"
  shows "\<exists>s'. config_load_defaults E es k s = Some s' \<and> sizes_same s s'"
  using assms(2,3)
proof (induction es arbitrary: s)
  case Nil
  then show ?case by (simp add: sizes_same_refl)
next
  case (Cons e es)
  obtain s1 where s1: "load_default E e s = Some s1" "sizes_same s s1"
    using load_default_sizes [OF assms(1) _ Cons.prems(2) assms(4), of e] Cons.prems(1) by auto
  let ?s = "info_func E k (ci_id e) s1"
  have z: "sizes_same s ?s" by (rule sizes_same_trans [OF s1(2) sizes_same_info])
  obtain s' where "config_load_defaults E es k ?s = Some s'" "sizes_same ?s s'"
    using Cons.IH [OF _ opts_ok_sizes [OF Cons.prems(2) z assms(1)]] Cons.prems(1) by auto
  then show ?case using s1(1) sizes_same_trans [OF z] by simp
qed

lemma handler_table_sizes: "h \<in> set (confinfo_handlers g) \<Longrightarrow> table_sizes (h_table h)"
proof -
  assume h: "h \<in> set (confinfo_handlers g)"
  have "list_all default_ok (h_table h)" using h tables_default_ok by (auto simp: confinfo_handlers_def split: if_splits)
  then show ?thesis using conf_table_okD [OF handler_table_ok [OF h]]
    by (auto simp: table_sizes_def list_all_iff entry_ok_def)
qed

lemma load_defaults_sizes:
  assumes "set hs \<subseteq> set (confinfo_handlers g)" "\<forall>h \<in> set hs. opts_ok (h_table h) s"
    and "\<forall>l. CONF_STR_LEN \<le> length (ce_literal E l)"
  shows "\<exists>s'. load_defaults_of E hs s = Some s' \<and> sizes_same s s'"
  using assms(1,2)
proof (induction hs arbitrary: s)
  case Nil
  then show ?case by (simp add: sizes_same_refl)
next
  case (Cons h hs)
  have t: "table_sizes (h_table h')" if "h' \<in> set (h # hs)" for h'
    using that Cons.prems(1) handler_table_sizes by blast
  obtain s1 where s1: "config_load_defaults E (h_table h) (h_info h) s = Some s1" "sizes_same s s1"
    using config_load_defaults_sizes [OF t subset_refl _ assms(3), of h s] Cons.prems(2) by auto
  have "\<forall>h' \<in> set hs. opts_ok (h_table h') s1"
    using Cons.prems(2) opts_ok_sizes [OF _ s1(2) t] by simp
  then obtain s' where "load_defaults_of E hs s1 = Some s'" "sizes_same s1 s'"
    using Cons.IH [of s1] Cons.prems(1) by auto
  then show ?case using s1 sizes_same_trans by auto
qed

section \<open>Starting with saved files\<close>

text \<open>The options that \<open>clear_values\<close> and the build may set at a start.\<close>

definition cleared_opts :: "nat set" where
  "cleared_opts = {ALT_MODE_BUTTON, 1087, 1089, 1090, 2176, PLATFORMID_OPT, 1211, 1120, 1110, 1141, 1131, 1003,
     1151, 1150, 1153, 1155, 1080, 1091, 1081, VIDEO_BITRATE, CURVE_ENABLE}"

definition clears :: "conf_state \<Rightarrow> conf_state \<Rightarrow> bool" where
  "clears s s' \<longleftrightarrow> (\<forall>v. v \<notin> cleared_opts \<longrightarrow> conf_mem s' v = conf_mem s v) \<and> user_menu_vars s' = user_menu_vars s"

lemma clears_refl: "clears s s"
  by (simp add: clears_def)

lemma clears_set_opt: "clears s s' \<Longrightarrow> v \<in> cleared_opts \<Longrightarrow> clears s (set_opt v x s')"
  by (auto simp: clears_def)

lemma clears_set_opts: "clears s s' \<Longrightarrow> fst ` set xs \<subseteq> cleared_opts \<Longrightarrow> clears s (set_opts xs s')"
proof (induction xs arbitrary: s')
  case Nil
  then show ?case by (simp add: set_opts_def)
next
  case (Cons x xs)
  then have "clears s (set_opt (fst x) (snd x) s')" by (intro clears_set_opt) simp_all
  then show ?case using Cons by (cases x) (simp add: set_opts_def)
qed

lemma clears_call: "clears s s' \<Longrightarrow> clears s (conf_call c s')"
  by (simp add: clears_def)

lemma clears_if: "clears s x \<Longrightarrow> clears s y \<Longrightarrow> clears s (if b then x else y)"
  by simp

lemma clear_values_clears: "clears s (clear_values E s)"
  unfolding clear_values_def Let_def
  by (intro clears_if clears_call clears_set_opts clears_set_opt clears_refl) (auto simp: cleared_opts_def)

text \<open>The files hold the tables of \<open>s\<close>.\<close>

definition holds_files :: "confinfo_handler list \<Rightarrow> conf_state \<Rightarrow> conf_state \<Rightarrow> bool" where
  "holds_files hs s s0 \<longleftrightarrow> (\<forall>h \<in> set hs. conf_files s0 (h_file h) = Some (file_of (h_table h) (h_start h) s))"

definition start_menu :: "confinfo_handler list \<Rightarrow> conf_state \<Rightarrow> conf_state \<Rightarrow> user_menu_config" where
  "start_menu hs s s0 = (if CONF_USER \<in> h_start ` set hs then loaded_menu (user_menu_vars s0) (user_menu_vars s) else user_menu_vars s0)"

definition restored :: "confinfo_handler list \<Rightarrow> conf_state \<Rightarrow> conf_state \<Rightarrow> conf_state \<Rightarrow> bool" where
  "restored hs s s0 s' \<longleftrightarrow> conf_files s' = conf_files s0 \<and> user_menu_vars s' = start_menu hs s s0 \<and>
     (\<forall>h \<in> set hs. \<forall>e \<in> set (h_table h). \<not> is_struct e \<longrightarrow>
        conf_mem s' (ci_var e) = conf_image e (conf_mem s (ci_var e))) \<and>
     (\<forall>v. (\<forall>h \<in> set hs. v \<notin> ci_var ` set (h_table h)) \<longrightarrow> conf_mem s' v = conf_mem s0 v)"

lemma user_handler_eq:
  "h \<in> set (confinfo_handlers g) \<Longrightarrow> h_start h = CONF_USER \<Longrightarrow> h_table h = user_menu_conf_info \<and> h_info h = InfoUserMenu"
  by (auto simp: confinfo_handlers_def CONF_CORE_def CONF_OSD_def CONF_USER_def CONF_GPS_def split: if_splits)

lemma user_images:
  "conf_image (user_entry 2) m = m" "conf_image (user_entry 3) m = m"
  by (simp_all add: conf_image_def user_menu_table)

text \<open>One table.\<close>

lemma restore_one:
  assumes "h \<in> set (confinfo_handlers g)" "savable (h_table h) s" "opts_ok (h_table h) s0" "menu_ok (user_menu_vars s0)"
    and "holds_files [h] s s0" "quiet_env E" "0 < um_num_items (user_menu_vars s)" "um_num_items (user_menu_vars s) \<le> 321"
    and "um_num_items (user_menu_vars s0) \<le> um_num_items (user_menu_vars s)"
  shows "\<exists>s'. config_restore E (h_table h) (h_file h) (h_info h) s0 = Some s' \<and> restored [h] s s0 s'"
proof (cases "h_start h = CONF_USER")
  case True
  then have u: "h_table h = user_menu_conf_info" "h_info h = InfoUserMenu" using user_handler_eq [OF assms(1)] by simp_all
  have "savable user_menu_conf_info s0"
    using assms(3,4) by (simp add: u(1) savable_def strings_ok_def user_menu_table)
  moreover have "conf_files s0 (h_file h) = Some (file_of user_menu_conf_info (h_start h) s)"
    using assms(5) u(1) by (simp add: holds_files_def)
  ultimately obtain s' where s': "config_restore E user_menu_conf_info (h_file h) InfoUserMenu s0 = Some s'"
      "user_menu_vars s' = loaded_menu (user_menu_vars s0) (user_menu_vars s)" "conf_files s' = conf_files s0"
      "conf_mem s' = (conf_mem s0)(3002 := conf_mem s 3002, 3003 := conf_mem s 3003)"
    using user_menu_restored [of s s0 "h_file h" "h_start h" E] assms(2,7-9) u(1) by auto
  have "restored [h] s s0 s'"
    by (simp add: restored_def start_menu_def True s' u(1) user_menu_table user_images is_struct_def)
  then show ?thesis using s'(1) u by auto
next
  case False
  let ?t = "h_table h"
  have t: "conf_table_ok (h_start h) ?t" "plain ?t" using handler_table_ok handler_plain assms(1) False by blast+
  have f: "conf_files s0 (h_file h) = Some (file_of ?t (h_start h) s)" using assms(5) by (simp add: holds_files_def)
  obtain s' where s': "config_restore E ?t (h_file h) (h_info h) s0 = Some s'" "only_table ?t s0 s'"
      "\<forall>e \<in> set ?t. conf_mem s' (ci_var e) = conf_image e (conf_mem s (ci_var e))"
    using table_restored [OF assms(1) False assms(2) f assms(3,6)] by blast
  then have "restored [h] s s0 s'"
    using False by (auto simp: restored_def start_menu_def only_table_def same_conf_def)
  then show ?thesis using s'(1) by blast
qed

lemma loaded_str_ok: "um_str_ok old \<Longrightarrow> um_str_ok x \<Longrightarrow> um_str_ok (loaded_str old x)"
  by (cases x) (simp_all add: loaded_str_def um_str_ok_def opt_str_def)

definition items_ok :: "user_menu_item list \<Rightarrow> bool" where
  "items_ok its \<longleftrightarrow> (\<forall>it \<in> set its. um_str_ok (um_script_file it) \<and> um_str_ok (um_script_title it))"

lemma menu_items_ok:
  "menu_ok u \<Longrightarrow> (case um_items u of Some its \<Rightarrow> its | None \<Rightarrow> []) = its \<Longrightarrow> length its = um_num_items u \<and> items_ok its"
  by (auto simp: menu_ok_def items_ok_def split: option.splits)

lemma loaded_items_ok:
  assumes "items_ok olds" "items_ok its"
  shows "items_ok (map2 loaded_item olds its @ drop n olds)"
proof -
  have "um_str_ok (um_script_file (loaded_item a b)) \<and> um_str_ok (um_script_title (loaded_item a b))"
    if "(a, b) \<in> set (zip olds its)" for a b
    using assms set_zip_leftD [OF that] set_zip_rightD [OF that]
    by (simp add: items_ok_def loaded_item_def loaded_str_ok)
  then show ?thesis using assms(1) by (auto simp: items_ok_def dest: in_set_dropD)
qed

lemma loaded_menu_ok:
  assumes "menu_ok u" "menu_ok u0"
  shows "menu_ok (loaded_menu u u0)"
proof -
  let ?w = "if um_num_items u < um_num_items u0 then init_user_menu (um_num_items u0) u else u"
  let ?olds = "case um_items ?w of Some its \<Rightarrow> its | None \<Rightarrow> []" and ?its = "case um_items u0 of Some its \<Rightarrow> its | None \<Rightarrow> []"
  have w: "menu_ok ?w" using assms(1) by (simp add: init_user_menu_def menu_ok_def empty_item_def um_str_ok_def)
  have o: "length ?olds = um_num_items ?w" "items_ok ?olds" using menu_items_ok [OF w refl] by simp_all
  have i: "length ?its = um_num_items u0" "items_ok ?its" using menu_items_ok [OF assms(2) refl] by simp_all
  have "um_num_items u0 \<le> um_num_items ?w" by (simp add: init_user_menu_def)
  then have "length (map2 loaded_item ?olds ?its @ drop (length ?its) ?olds) = um_num_items ?w" using o(1) i(1) by simp
  moreover have "loaded_menu u u0 = ?w\<lparr>um_items := Some (map2 loaded_item ?olds ?its @ drop (length ?its) ?olds)\<rparr>"
    by (simp only: loaded_menu_def Let_def)
  moreover have "items_ok (map2 loaded_item ?olds ?its @ drop (length ?its) ?olds)"
    by (rule loaded_items_ok [OF o(2) i(2)])
  ultimately show ?thesis by (simp add: menu_ok_def items_ok_def)
qed

lemma restored_only: "restored hs s s0 s' \<Longrightarrow> (\<And>h. h \<in> set hs \<Longrightarrow> v \<notin> ci_var ` set (h_table h)) \<Longrightarrow> conf_mem s' v = conf_mem s0 v"
  by (simp add: restored_def)

lemma image_hash:
  assumes "conf_table_ok b t" "savable t s" "opts_ok t s'"
    and "\<forall>e \<in> set t. \<not> is_struct e \<longrightarrow> conf_mem s' (ci_var e) = conf_image e (conf_mem s (ci_var e))"
  shows "\<forall>e \<in> set t. conf_hash E e s' \<noteq> None"
proof
  fix e assume e: "e \<in> set t"
  have o: "entry_ok b e" by (rule conf_table_okD [OF assms(1) e])
  show "conf_hash E e s' \<noteq> None"
  proof (cases "ci_type e = CONF_CHAR_PTR")
    case True
    let ?m = "conf_mem s (ci_var e)"
    have z: "length ?m = CONF_STR_LEN" "0 \<in> set ?m"
      using assms(2) e True entry_sizes(1) [OF o] by (auto simp: savable_def opts_ok_def strings_ok_def is_struct_def)
    then have "length (takeWhile (\<lambda>b. b \<noteq> 0) ?m) < CONF_STR_LEN" using takeWhile_lt [of 0 ?m "\<lambda>b. b \<noteq> 0"] by simp
    then have "0 \<in> set (conf_image e ?m)" using True by (simp add: conf_image_def padded_def)
    then show ?thesis using True assms(4) e
      by (simp add: conf_hash_def is_struct_def lang_strhash31_def cstr_at_def Let_def)
  next
    case False
    then show ?thesis using assms(3) e
      by (cases "ci_type e") (simp_all add: conf_hash_def opts_ok_def is_struct_def bytes_at_def)
  qed
qed

lemma restore_handlers_restored:
  assumes "handlers_ok hs" "set hs \<subseteq> set (confinfo_handlers g)" "\<forall>h \<in> set hs. savable (h_table h) s"
    and "\<forall>h \<in> set hs. opts_ok (h_table h) s0" "menu_ok (user_menu_vars s0)" "holds_files hs s s0" "quiet_env E"
    and "0 < um_num_items (user_menu_vars s)" "um_num_items (user_menu_vars s) \<le> 321"
    and "um_num_items (user_menu_vars s0) \<le> um_num_items (user_menu_vars s)"
  shows "\<exists>s'. restore_handlers E False hs s0 = Some s' \<and> restored hs s s0 s'"
  using assms(1-6,10)
proof (induction hs arbitrary: s0)
  case Nil
  then show ?case by (simp add: restored_def start_menu_def)
next
  case (Cons h hs)
  let ?t = "h_table h"
  have h: "h \<in> set (confinfo_handlers g)" using Cons.prems(2) by simp
  have hs: "handlers_ok hs" "h_start h \<notin> h_start ` set hs" using handlers_ok_Cons [OF Cons.prems(1)] by simp_all
  have f: "holds_files [h] s s0" using Cons.prems(6) by (simp add: holds_files_def)
  obtain s1 where s1: "config_restore E ?t (h_file h) (h_info h) s0 = Some s1" "restored [h] s s0 s1"
    using restore_one [OF h _ _ Cons.prems(5) f assms(7-9) Cons.prems(7)] Cons.prems(3,4) by auto
  have sep: "v \<notin> ci_var ` set (h_table h')" if "h' \<in> set hs" "v \<in> ci_var ` set ?t" for h' v
  proof
    assume "v \<in> ci_var ` set (h_table h')"
    then have "h_start h' = h_start h" using vars_disjoint [OF Cons.prems(1), of h' h v] that by simp
    then show False using that(1) hs(2) by (metis imageI)
  qed
  have mem1: "conf_mem s1 v = conf_mem s0 v" if "v \<notin> ci_var ` set ?t" for v
    using restored_only [OF s1(2)] that by simp
  have img: "\<forall>e \<in> set ?t. \<not> is_struct e \<longrightarrow> conf_mem s1 (ci_var e) = conf_image e (conf_mem s (ci_var e))"
    using s1(2) by (simp add: restored_def)
  have o1: "opts_ok ?t s1"
  proof -
    have "length (conf_image e (conf_mem s (ci_var e))) = ci_size e" if e: "e \<in> set ?t" "\<not> is_struct e" for e
      using conf_image_length [OF conf_table_okD [OF handler_table_ok [OF h] e(1)]] Cons.prems(3) e
      by (simp add: savable_def opts_ok_def strings_ok_def)
    then show ?thesis using img by (simp add: opts_ok_def)
  qed
  have sv: "savable ?t s" using Cons.prems(3) by simp
  obtain L where L: "config_update_last_saved E ?t s1 = Some (s1\<lparr>last_saved := L\<rparr>)"
    using update_last_saved [OF image_hash [OF handler_table_ok [OF h] sv o1 img] distinct_vars [OF handler_table_ok [OF h]]]
    by blast
  let ?s2 = "s1\<lparr>last_saved := L\<rparr>"
  have m1: "conf_files s1 = conf_files s0" "user_menu_vars s1 = start_menu [h] s s0"
    using s1(2) by (simp_all add: restored_def)
  have o2: "\<forall>h' \<in> set hs. opts_ok (h_table h') ?s2"
  proof
    fix h' assume h': "h' \<in> set hs"
    have "conf_mem s1 v = conf_mem s0 v" if "v \<in> ci_var ` set (h_table h')" for v
      using mem1 sep [OF h'] that by blast
    then show "opts_ok (h_table h') ?s2" using Cons.prems(4) h' by (simp add: opts_ok_def)
  qed
  have menu: "menu_ok (user_menu_vars s)" if "h_start h = CONF_USER"
    using sv user_handler_eq [OF h that] by (auto simp: savable_def user_menu_table is_struct_def)
  have mok: "menu_ok (user_menu_vars ?s2)"
    using m1(2) loaded_menu_ok [OF Cons.prems(5) menu] Cons.prems(5) by (simp add: start_menu_def)
  have "um_num_items (user_menu_vars ?s2) \<le> um_num_items (user_menu_vars s)"
    using m1(2) Cons.prems(7) by (simp add: start_menu_def loaded_menu_items)
  moreover have "holds_files hs s ?s2" using Cons.prems(6) m1(1) by (simp add: holds_files_def)
  ultimately obtain s' where s': "restore_handlers E False hs ?s2 = Some s'" "restored hs s ?s2 s'"
    using Cons.IH [OF hs(1) _ _ o2 mok] Cons.prems(2,3) by auto
  have "conf_mem s' v = conf_mem s1 v" if "v \<in> ci_var ` set ?t" for v
    using restored_only [OF s'(2), of v] sep that by simp
  then have "\<forall>e \<in> set ?t. \<not> is_struct e \<longrightarrow> conf_mem s' (ci_var e) = conf_image e (conf_mem s (ci_var e))"
    using img by simp
  moreover have "start_menu hs s ?s2 = start_menu (h # hs) s s0"
    using m1(2) hs(2) by (auto simp: start_menu_def)
  moreover have "conf_mem s' v = conf_mem s0 v" if "\<forall>h' \<in> set (h # hs). v \<notin> ci_var ` set (h_table h')" for v
    using restored_only [OF s'(2), of v] mem1 [of v] that by simp
  ultimately have "restored (h # hs) s s0 s'"
    using s'(2) m1(1) by (simp add: restored_def)
  then show ?case using s1(1) L s'(1) by simp
qed


section \<open>A start\<close>

text \<open>The files of a camera with one option of the user menu set, and a start from options that are all zero.\<close>

definition demo_full :: conf_state where
  "demo_full = demo_changed\<lparr>user_menu_vars := init_user_menu USER_MENU_ITEMS (user_menu_vars demo_conf)\<rparr>"

definition demo_boot :: conf_state where
  "demo_boot = demo_conf\<lparr>conf_files := (\<lambda>f. map_option (\<lambda>h. file_of (h_table h) (h_start h) demo_full)
     (find (\<lambda>h. h_file h = f) (confinfo_handlers True)))\<rparr>"


end
